(* ===== verification/Go_Prelude.thy ===== *)
theory Go_Prelude
  imports Main "HOL-Library.Sublist" "HOL-Library.List_Lexorder" "HOL-Library.Char_ord"
begin

text \<open>
  What the components share: the Go values the bridge computes with (64-bit integers,
  durations and instants, byte strings and the functions of package \<open>strings\<close> and
  \<open>strconv\<close> the code calls), the lemmas about them, and the interfaces (locales) that
  more than one component relies on.

  Strings are byte strings, as Go's are: a \<open>char\<close> is one byte, and a code point beyond
  ASCII is several of them (UTF-8).  Instants are nanoseconds since Go's zero time
  (January 1 of year 1, UTC), so the zero time is 0; durations are nanoseconds, with the
  64-bit wrap-around written out where the code multiplies or shifts them.
\<close>

named_theorems go_str \<open>facts that evaluate the string functions\<close>
named_theorems go_num \<open>facts about 64-bit arithmetic and time\<close>

section \<open>Integers, durations and instants\<close>

type_synonym duration = int
type_synonym gotime = int

text \<open>Two's complement reading of the low 64 bits.\<close>

definition wrap64 :: "int \<Rightarrow> int" where
  "wrap64 x = (x + 2 ^ 63) mod 2 ^ 64 - 2 ^ 63"

definition int64_ok :: "int \<Rightarrow> bool" where
  "int64_ok x \<longleftrightarrow> - (2 ^ 63) \<le> x \<and> x < 2 ^ 63"

definition mul64 :: "int \<Rightarrow> int \<Rightarrow> int" where
  "mul64 a b = wrap64 (a * b)"

text \<open>\<open>1 << n\<close> on an \<open>int64\<close>: the bit falls off the end from 64 on.\<close>

definition shl64 :: "int \<Rightarrow> nat \<Rightarrow> int" where
  "shl64 a n = wrap64 (a * 2 ^ n)"

lemma wrap64_id [go_num]: "int64_ok x \<Longrightarrow> wrap64 x = x"
  by (simp add: wrap64_def int64_ok_def)

lemma wrap64_range: "int64_ok (wrap64 x)"
proof -
  have "0 \<le> (x + 2 ^ 63) mod 2 ^ 64" and "(x + 2 ^ 63) mod 2 ^ 64 < 2 ^ 64"
    by simp_all
  then show ?thesis by (simp add: wrap64_def int64_ok_def)
qed

lemma wrap64_mod_zero: "x mod 2 ^ 64 = 0 \<Longrightarrow> wrap64 x = 0"
proof -
  assume "x mod 2 ^ 64 = 0"
  then have "(x + 2 ^ 63) mod 2 ^ 64 = (2 ^ 63 :: int) mod 2 ^ 64"
    by (metis add_0 mod_add_left_eq)
  then show ?thesis by (simp add: wrap64_def)
qed

lemma int64_ok_mult:
  "0 \<le> a \<Longrightarrow> 0 \<le> x \<Longrightarrow> x \<le> y \<Longrightarrow> a * y < 2 ^ 63 \<Longrightarrow> int64_ok (a * x)"
proof -
  assume h: "0 \<le> a" "0 \<le> x" "x \<le> y" "a * y < 2 ^ 63"
  have "a * x \<le> a * y" using h by (intro mult_left_mono)
  moreover have "0 \<le> a * x" using h by simp
  ultimately show ?thesis using h(4) unfolding int64_ok_def by linarith
qed

text \<open>A left factor may be wrapped first: only the low 64 bits matter.\<close>

lemma wrap64_cong: "a mod 2 ^ 64 = b mod 2 ^ 64 \<Longrightarrow> wrap64 a = wrap64 b"
  unfolding wrap64_def by (metis mod_add_left_eq)

lemma wrap64_mod: "wrap64 x mod 2 ^ 64 = x mod 2 ^ 64"
proof -
  have "((x + 2 ^ 63) mod 2 ^ 64 - 2 ^ 63) mod 2 ^ 64 = (x + 2 ^ 63 - 2 ^ 63) mod (2 ^ 64 :: int)"
    by (rule mod_diff_left_eq)
  then show ?thesis by (simp add: wrap64_def)
qed

lemma mul64_shl64: "mul64 a (shl64 1 n) = wrap64 (a * 2 ^ n)"
proof -
  have "(a * wrap64 (2 ^ n)) mod 2 ^ 64 = (a * 2 ^ n) mod 2 ^ 64"
    by (metis mod_mult_right_eq wrap64_mod)
  then show ?thesis
    by (simp add: mul64_def shl64_def) (rule wrap64_cong, simp)
qed

abbreviation (input) nanosecond :: duration where "nanosecond \<equiv> 1"
abbreviation (input) millisecond :: duration where "millisecond \<equiv> 1000000"
abbreviation (input) second :: duration where "second \<equiv> 1000000000"
abbreviation (input) minute :: duration where "minute \<equiv> 60000000000"
abbreviation (input) hour :: duration where "hour \<equiv> 3600000000000"

abbreviation (input) zero_time :: gotime where "zero_time \<equiv> 0"

abbreviation (input) is_zero_time :: "gotime \<Rightarrow> bool" where "is_zero_time t \<equiv> t = zero_time"

text \<open>\<open>Time.Sub\<close> saturates at the range of a duration.\<close>

definition time_sub :: "gotime \<Rightarrow> gotime \<Rightarrow> duration" where
  "time_sub a b = max (- (2 ^ 63)) (min (2 ^ 63 - 1) (a - b))"

lemma time_sub_less [go_num]: "- (2 ^ 63) < d \<Longrightarrow> d < 2 ^ 63 \<Longrightarrow> time_sub a b < d \<longleftrightarrow> a - b < d"
  by (auto simp: time_sub_def)

lemma time_sub_greater [go_num]:
  "- (2 ^ 63) \<le> d \<Longrightarrow> d < 2 ^ 63 - 1 \<Longrightarrow> d < time_sub a b \<longleftrightarrow> d < a - b"
  by (auto simp: time_sub_def)

text \<open>The Unix epoch, in nanoseconds since the zero time.\<close>

definition unix_epoch :: gotime where
  "unix_epoch = 62135596800000000000"

definition unix_milli :: "gotime \<Rightarrow> int" where
  "unix_milli t = (t - unix_epoch) div 1000000"

definition of_unix_milli :: "int \<Rightarrow> gotime" where
  "of_unix_milli ms = unix_epoch + ms * 1000000"

definition of_unix :: "int \<Rightarrow> gotime" where
  "of_unix s = unix_epoch + s * second"

lemma unix_milli_of_unix_milli [simp]: "unix_milli (of_unix_milli ms) = ms"
  by (simp add: unix_milli_def of_unix_milli_def)

section \<open>Byte strings\<close>

abbreviation (input) bs :: "nat list \<Rightarrow> string" where
  "bs \<equiv> map char_of"

text \<open>
  What \<open>unicode.IsSpace\<close> accepts, as UTF-8: the six ASCII spaces, U+0085, U+00A0, U+1680,
  U+2000 to U+200A, U+2028, U+2029, U+202F, U+205F and U+3000.
\<close>

definition go_spaces :: "string list" where
  "go_spaces = map (map char_of)
     ([[9], [10], [11], [12], [13], [32], [0xC2, 0x85], [0xC2, 0xA0], [0xE1, 0x9A, 0x80],
       [0xE2, 0x80, 0xA8], [0xE2, 0x80, 0xA9], [0xE2, 0x80, 0xAF], [0xE2, 0x81, 0x9F],
       [0xE3, 0x80, 0x80], [0xE2, 0x80, 0x80], [0xE2, 0x80, 0x81], [0xE2, 0x80, 0x82],
       [0xE2, 0x80, 0x83], [0xE2, 0x80, 0x84], [0xE2, 0x80, 0x85], [0xE2, 0x80, 0x86],
       [0xE2, 0x80, 0x87], [0xE2, 0x80, 0x88], [0xE2, 0x80, 0x89], [0xE2, 0x80, 0x8A]] :: nat list list)"

definition front_pat :: "'a list list \<Rightarrow> 'a list \<Rightarrow> 'a list option" where
  "front_pat ps s = find (\<lambda>p. p \<noteq> [] \<and> prefix p s) ps"

lemma front_pat_Some: "front_pat ps s = Some p \<Longrightarrow> p \<noteq> [] \<and> prefix p s \<and> p \<in> set ps"
  by (auto simp: front_pat_def find_Some_iff)

lemma front_pat_None: "front_pat ps s = None \<longleftrightarrow> (\<forall>p \<in> set ps. p \<noteq> [] \<longrightarrow> \<not> prefix p s)"
  by (auto simp: front_pat_def find_None_iff)

text \<open>Strip patterns off the front for as long as one of them is there.\<close>

function strip :: "'a list list \<Rightarrow> 'a list \<Rightarrow> 'a list" where
  "strip ps s = (case front_pat ps s of None \<Rightarrow> s | Some p \<Rightarrow> strip ps (drop (length p) s))"
  by pat_completeness auto
termination
proof (relation "measure (\<lambda>(ps, s). length s)", goal_cases)
  case (2 ps s p)
  from front_pat_Some [OF this] have "p \<noteq> []" and "prefix p s" by auto
  then have "0 < length p" and "length p \<le> length s" by (auto dest: prefix_length_le)
  then have "length (drop (length p) s) < length s" unfolding length_drop by linarith
  then show ?case by simp
qed simp

declare strip.simps [simp del]

lemma strip_clean: "front_pat ps s = None \<Longrightarrow> strip ps s = s"
  by (subst strip.simps) simp

lemma front_pat_strip [simp]: "front_pat ps (strip ps s) = None"
proof (induction ps s rule: strip.induct)
  case (1 ps s)
  then show ?case by (subst strip.simps) (auto split: option.splits)
qed

lemma strip_strip [simp]: "strip ps (strip ps s) = strip ps s"
  by (rule strip_clean) simp

lemma strip_suffix: "suffix (strip ps s) s"
proof (induction ps s rule: strip.induct)
  case (1 ps s)
  show ?case
  proof (cases "front_pat ps s")
    case None
    then show ?thesis by (simp add: strip_clean)
  next
    case (Some p)
    have "suffix (strip ps (drop (length p) s)) (drop (length p) s)"
      using "1.IH" [OF Some] .
    then have "suffix (strip ps (drop (length p) s)) s"
      by (meson suffix_drop suffix_order.trans)
    with Some show ?thesis by (subst strip.simps) simp
  qed
qed

lemma front_pat_prefix: "front_pat ps s = None \<Longrightarrow> prefix t s \<Longrightarrow> front_pat ps t = None"
  by (meson front_pat_None prefix_order.trans)

definition trim_left :: "string \<Rightarrow> string" where
  "trim_left s = strip go_spaces s"

definition trim_right :: "string \<Rightarrow> string" where
  "trim_right s = rev (strip (map rev go_spaces) (rev s))"

text \<open>\<open>strings.TrimSpace\<close>.\<close>

definition trim_space :: "string \<Rightarrow> string" where
  "trim_space s = trim_right (trim_left s)"

lemma trim_right_idem: "trim_right (trim_right s) = trim_right s"
  by (simp add: trim_right_def)

lemma trim_right_prefix: "prefix (trim_right s) s"
  by (metis rev_rev_ident strip_suffix suffix_to_prefix trim_right_def)

lemma trim_left_clean: "front_pat go_spaces s = None \<Longrightarrow> trim_left s = s"
  by (simp add: trim_left_def strip_clean)

lemma trim_space_idem [simp]: "trim_space (trim_space s) = trim_space s"
proof -
  have "front_pat go_spaces (trim_left s) = None"
    by (simp add: trim_left_def)
  then have "front_pat go_spaces (trim_right (trim_left s)) = None"
    by (rule front_pat_prefix) (rule trim_right_prefix)
  then have "trim_left (trim_right (trim_left s)) = trim_right (trim_left s)"
    by (rule trim_left_clean)
  then show ?thesis by (simp add: trim_space_def trim_right_idem)
qed

lemma trim_space_Nil [simp]: "trim_space [] = []"
proof -
  have "front_pat ps [] = None" for ps :: "string list"
    by (auto simp: front_pat_None)
  then show ?thesis by (simp add: trim_space_def trim_left_def trim_right_def strip_clean)
qed

lemma trim_space_length: "length (trim_space s) \<le> length s"
proof -
  have "length (trim_right (trim_left s)) \<le> length (trim_left s)"
    by (rule prefix_length_le [OF trim_right_prefix])
  also have "\<dots> \<le> length s"
    by (metis strip_suffix suffix_length_le trim_left_def)
  finally show ?thesis by (simp add: trim_space_def)
qed

text \<open>
  A string that neither begins nor ends with a byte that can begin or end a space is left
  alone; every identifier in the witnesses is of this kind.
\<close>

definition plain_ends :: "string \<Rightarrow> bool" where
  "plain_ends s \<longleftrightarrow> s = [] \<or>
     (33 \<le> (of_char (hd s) :: nat) \<and> (of_char (hd s) :: nat) < 0xC2 \<and>
      33 \<le> (of_char (last s) :: nat) \<and> (of_char (last s) :: nat) < 128)"

lemma go_spaces_ends:
  "\<forall>p \<in> set go_spaces. p \<noteq> [] \<and> ((of_char (hd p) :: nat) < 33 \<or> 0xC2 \<le> (of_char (hd p) :: nat)) \<and>
     ((of_char (last p) :: nat) < 33 \<or> 128 \<le> (of_char (last p) :: nat))"
  by (simp add: go_spaces_def)

lemma trim_space_plain [go_str]: "plain_ends s \<Longrightarrow> trim_space s = s"
proof (cases "s = []")
  case False
  assume "plain_ends s"
  with False have h: "33 \<le> (of_char (hd s) :: nat)" "(of_char (hd s) :: nat) < 0xC2"
    "33 \<le> (of_char (last s) :: nat)" "(of_char (last s) :: nat) < 128"
    by (auto simp: plain_ends_def)
  have "front_pat go_spaces s = None"
    unfolding front_pat_None
  proof (intro ballI impI notI)
    fix p assume p: "p \<in> set go_spaces" "p \<noteq> []" "prefix p s"
    then have "hd p = hd s" by (auto simp: prefix_def)
    with h p go_spaces_ends show False by fastforce
  qed
  moreover have "front_pat (map rev go_spaces) (rev s) = None"
    unfolding front_pat_None
  proof (intro ballI impI notI)
    fix q assume "q \<in> set (map rev go_spaces)" "q \<noteq> []" "prefix q (rev s)"
    then obtain p where p: "p \<in> set go_spaces" "p \<noteq> []" "prefix (rev p) (rev s)" by auto
    then have "suffix p s" by (simp add: suffix_to_prefix)
    with p have "last p = last s" by (auto simp: suffix_def)
    with h p go_spaces_ends show False by fastforce
  qed
  ultimately show ?thesis
    by (simp add: trim_space_def trim_left_clean trim_right_def strip_clean)
qed simp

text \<open>\<open>strings.Compare\<close>: bytes in order, a proper prefix first.\<close>

fun byte_compare :: "string \<Rightarrow> string \<Rightarrow> int" where
  "byte_compare [] [] = 0"
| "byte_compare [] (y # ys) = -1"
| "byte_compare (x # xs) [] = 1"
| "byte_compare (x # xs) (y # ys) =
     (if (of_char x :: nat) < of_char y then -1
      else if (of_char y :: nat) < of_char x then 1
      else byte_compare xs ys)"

lemma byte_compare_refl [simp]: "byte_compare s s = 0"
  by (induction s) auto

lemma byte_compare_swap: "byte_compare t s = - byte_compare s t"
  by (induction s t rule: byte_compare.induct) auto

lemma byte_compare_range: "byte_compare s t \<in> {-1, 0, 1}"
  by (induction s t rule: byte_compare.induct) auto

lemma byte_compare_zero: "byte_compare s t = 0 \<longleftrightarrow> s = t"
  by (induction s t rule: byte_compare.induct) (auto simp: not_less)

text \<open>
  Lower case and case folding act on the ASCII letters; two further code points fold to
  ASCII letters in \<open>strings.EqualFold\<close> (U+017F to s, U+212A to k).  Bytes of other code
  points are compared as they are: the identifiers and type names the code folds are ASCII.
\<close>

definition ascii_letter :: "char \<Rightarrow> bool" where
  "ascii_letter c \<longleftrightarrow> (let n = (of_char c :: nat) in 65 \<le> n \<and> n \<le> 90 \<or> 97 \<le> n \<and> n \<le> 122)"

definition lower_char :: "char \<Rightarrow> char" where
  "lower_char c = (let n = (of_char c :: nat) in if 65 \<le> n \<and> n \<le> 90 then char_of (n + 32) else c)"

definition to_lower :: "string \<Rightarrow> string" where
  "to_lower s = map lower_char s"

fun fold_case :: "string \<Rightarrow> string" where
  "fold_case [] = []"
| "fold_case [a] = [lower_char a]"
| "fold_case (a # b # s) =
     (if (of_char a :: nat) = 0xC5 \<and> (of_char b :: nat) = 0xBF then CHR ''s'' # fold_case s
      else if (of_char a :: nat) = 0xE2 \<and> (of_char b :: nat) = 0x84 \<and> s \<noteq> [] \<and> (of_char (hd s) :: nat) = 0xAA
      then CHR ''k'' # fold_case (tl s)
      else lower_char a # fold_case (b # s))"

definition equal_fold :: "string \<Rightarrow> string \<Rightarrow> bool" where
  "equal_fold s t \<longleftrightarrow> fold_case s = fold_case t"

lemma lower_char_idem: "lower_char (lower_char c) = lower_char c"
  by (simp add: lower_char_def Let_def of_char_of)

lemma to_lower_idem [simp]: "to_lower (to_lower s) = to_lower s"
  by (simp add: to_lower_def lower_char_idem)

text \<open>On ASCII, case folding is lower case.\<close>

definition ascii_str :: "string \<Rightarrow> bool" where
  "ascii_str s \<longleftrightarrow> list_all (\<lambda>c. (of_char c :: nat) < 128) s"

lemma fold_case_ascii: "ascii_str s \<Longrightarrow> fold_case s = to_lower s"
  by (induction s rule: fold_case.induct) (auto simp: ascii_str_def to_lower_def)

lemma equal_fold_ascii [go_str]: "ascii_str s \<Longrightarrow> ascii_str t \<Longrightarrow> equal_fold s t \<longleftrightarrow> to_lower s = to_lower t"
  by (simp add: equal_fold_def fold_case_ascii)

lemmas fold_eval = equal_fold_ascii ascii_str_def to_lower_def lower_char_def

text \<open>\<open>strings.Cut\<close>: around the first occurrence of the separator.\<close>

fun cut :: "string \<Rightarrow> string \<Rightarrow> string \<times> string \<times> bool" where
  "cut [] sep = (if sep = [] then ([], [], True) else ([], [], False))"
| "cut (c # s) sep =
     (if prefix sep (c # s) then ([], drop (length sep) (c # s), True)
      else (case cut s sep of (a, b, ok) \<Rightarrow> (c # a, b, ok)))"

text \<open>\<open>strings.Split\<close> on a one-byte separator.\<close>

fun split_on :: "char \<Rightarrow> string \<Rightarrow> string list" where
  "split_on d [] = [[]]"
| "split_on d (c # s) =
     (if c = d then [] # split_on d s
      else (case split_on d s of [] \<Rightarrow> [[c]] | w # ws \<Rightarrow> (c # w) # ws))"

text \<open>\<open>strings.Join\<close>.\<close>

fun join_with :: "string \<Rightarrow> string list \<Rightarrow> string" where
  "join_with sep [] = []"
| "join_with sep [w] = w"
| "join_with sep (w # ws) = w @ sep @ join_with sep ws"

text \<open>\<open>strings.LastIndex\<close> for one byte, as what follows it; \<open>None\<close> for no occurrence.\<close>

fun after_last :: "char \<Rightarrow> string \<Rightarrow> string option" where
  "after_last d [] = None"
| "after_last d (c # s) =
     (case after_last d s of Some r \<Rightarrow> Some r | None \<Rightarrow> if c = d then Some s else None)"

lemma after_last_free: "after_last d s = Some r \<Longrightarrow> d \<notin> set r \<and> suffix (d # r) s"
proof (induction s)
  case (Cons c s)
  show ?case
  proof (cases "after_last d s")
    case None
    moreover have "after_last d s = None \<Longrightarrow> d \<notin> set s"
      by (induction s) (auto split: option.splits if_splits)
    ultimately show ?thesis using Cons.prems by (auto split: if_splits)
  next
    case (Some r')
    with Cons show ?thesis by (auto intro: suffix_ConsI)
  qed
qed simp

section \<open>Numbers in decimal\<close>

fun digits_val :: "nat \<Rightarrow> string \<Rightarrow> nat option" where
  "digits_val acc [] = Some acc"
| "digits_val acc (c # s) =
     (let n = (of_char c :: nat) in
      if 48 \<le> n \<and> n \<le> 57 then digits_val (10 * acc + (n - 48)) s else None)"

text \<open>\<open>strconv.ParseUint(s, 10, 64)\<close> and \<open>strconv.ParseInt(s, 10, 64)\<close>; None is an error.\<close>

definition parse_uint64 :: "string \<Rightarrow> nat option" where
  "parse_uint64 s =
     (if s = [] then None
      else case digits_val 0 s of None \<Rightarrow> None | Some n \<Rightarrow> if n < 2 ^ 64 then Some n else None)"

definition parse_int64 :: "string \<Rightarrow> int option" where
  "parse_int64 s =
     (case s of [] \<Rightarrow> None
      | c # r \<Rightarrow>
          (let neg = (c = CHR ''-''); body = (if c = CHR ''-'' \<or> c = CHR ''+'' then r else s) in
           case parse_uint64 body of None \<Rightarrow> None
           | Some n \<Rightarrow> if \<not> neg \<and> 2 ^ 63 \<le> n then None
                       else if neg \<and> 2 ^ 63 < n then None
                       else Some (if neg then - int n else int n)))"

lemma parse_uint64_bound: "parse_uint64 s = Some n \<Longrightarrow> n < 2 ^ 64"
  by (auto simp: parse_uint64_def split: if_splits option.splits)

lemma parse_int64_range: "parse_int64 s = Some n \<Longrightarrow> int64_ok n"
  by (auto simp: parse_int64_def int64_ok_def Let_def split: list.splits if_splits option.splits)

text \<open>\<open>strconv.FormatInt(n, 10)\<close>.\<close>

fun show_nat :: "nat \<Rightarrow> string" where
  "show_nat n = (if n < 10 then [char_of (48 + n)] else show_nat (n div 10) @ [char_of (48 + n mod 10)])"

declare show_nat.simps [simp del]

definition show_int :: "int \<Rightarrow> string" where
  "show_int n = (if n < 0 then CHR ''-'' # show_nat (nat (- n)) else show_nat (nat n))"

lemma digits_val_append:
  "digits_val acc (s @ t) = (case digits_val acc s of None \<Rightarrow> None | Some a \<Rightarrow> digits_val a t)"
  by (induction s arbitrary: acc) (auto simp: Let_def)

lemma show_nat_nonempty [simp]: "show_nat n \<noteq> []"
  by (subst show_nat.simps) simp

lemma digits_val_show_nat: "digits_val 0 (show_nat n) = Some n"
proof (induction n rule: show_nat.induct)
  case (1 n)
  show ?case
  proof (cases "n < 10")
    case True
    then show ?thesis by (subst show_nat.simps) (simp add: Let_def of_char_of)
  next
    case False
    then have "digits_val 0 (show_nat (n div 10)) = Some (n div 10)" by (rule "1.IH")
    with False show ?thesis
      by (subst show_nat.simps) (simp add: digits_val_append Let_def of_char_of)
  qed
qed

lemma parse_show_nat: "n < 2 ^ 64 \<Longrightarrow> parse_uint64 (show_nat n) = Some n"
  by (simp add: parse_uint64_def digits_val_show_nat)

section \<open>Separators and numbers inside a text\<close>

text \<open>A byte that no space holds stops a trim.\<close>

lemma strip_stops:
  assumes "\<forall>p \<in> set ps. d \<notin> set p"
  shows "\<exists>a'. suffix a' a \<and> strip ps (a @ d # r) = a' @ d # r"
proof (induction "length a" arbitrary: a rule: less_induct)
  case less
  show ?case
  proof (cases "front_pat ps (a @ d # r)")
    case None
    then show ?thesis by (auto simp: strip_clean)
  next
    case (Some p)
    with front_pat_Some [OF Some] assms have p: "p \<noteq> []" "prefix p (a @ d # r)" "d \<notin> set p" by auto
    then have "prefix p a" by (auto simp: prefix_append prefix_Cons)
    then obtain b where b: "a = p @ b" by (auto simp: prefix_def)
    with p(1) have "length b < length a" by simp
    from less [OF this] b Some show ?thesis by (subst strip.simps) (auto intro: suffix_appendI)
  qed
qed

lemma trim_space_stops:
  assumes "\<forall>p \<in> set go_spaces. d \<notin> set p"
  shows "\<exists>a' c'. suffix a' a \<and> prefix c' c \<and> trim_space (a @ d # b @ d # c) = a' @ d # b @ d # c'"
proof -
  obtain a' where a: "suffix a' a" "trim_left (a @ d # b @ d # c) = a' @ d # b @ d # c"
    using strip_stops [OF assms, of a "b @ d # c"] by (auto simp: trim_left_def)
  have "\<forall>p \<in> set (map rev go_spaces). d \<notin> set p" using assms by auto
  from strip_stops [OF this, of "rev c" "rev (a' @ d # b)"] obtain c' where
    c: "suffix c' (rev c)" "strip (map rev go_spaces) (rev c @ d # rev (a' @ d # b)) = c' @ d # rev (a' @ d # b)" by blast
  then have "trim_right (a' @ d # b @ d # c) = a' @ d # b @ d # rev c'" by (simp add: trim_right_def)
  moreover have "prefix (rev c') c" using c(1) by (metis suffix_to_prefix rev_rev_ident)
  ultimately show ?thesis using a by (auto simp: trim_space_def)
qed

lemma split_on_nonempty [simp]: "split_on d s \<noteq> []"
  by (cases s) (auto split: list.splits)

lemma split_on_append: "split_on d (a @ d # r) = split_on d a @ split_on d r"
proof (induction a)
  case (Cons x a)
  then show ?case by (cases "split_on d a") auto
qed simp

lemma split_on_free: "d \<notin> set a \<Longrightarrow> split_on d a = [a]"
  by (induction a) auto

lemma split_on_pieces: "w \<in> set (split_on d s) \<Longrightarrow> d \<notin> set w"
  by (induction s arbitrary: w) (auto split: if_splits list.splits)

lemma digits_val_digits: "digits_val acc s = Some n \<Longrightarrow> list_all (\<lambda>c. 48 \<le> (of_char c :: nat) \<and> (of_char c :: nat) \<le> 57) s"
  by (induction s arbitrary: acc) (auto simp: Let_def split: if_splits)

lemma show_nat_digits: "list_all (\<lambda>c. 48 \<le> (of_char c :: nat) \<and> (of_char c :: nat) \<le> 57) (show_nat n)"
  by (rule digits_val_digits [OF digits_val_show_nat])

lemma show_int_plain: "plain_ends (show_int n)"
proof -
  have d: "33 \<le> (of_char c :: nat) \<and> (of_char c :: nat) < 128" if "c \<in> set (show_nat m)" for c m
    using show_nat_digits [of m] that by (fastforce simp: list_all_iff)
  have "33 \<le> (of_char (hd (show_nat m)) :: nat) \<and> (of_char (hd (show_nat m)) :: nat) < 128"
    "33 \<le> (of_char (last (show_nat m)) :: nat) \<and> (of_char (last (show_nat m)) :: nat) < 128" for m
    using d [OF hd_in_set [OF show_nat_nonempty]] d [OF last_in_set [OF show_nat_nonempty]] by blast+
  then show ?thesis by (simp add: show_int_def plain_ends_def less_trans [of _ 128])
qed

lemma parse_show_int: "int64_ok n \<Longrightarrow> parse_int64 (show_int n) = Some n"
proof (cases "n < 0")
  case True
  assume "int64_ok n"
  then have "nat (- n) < 2 ^ 64" "\<not> 2 ^ 63 < nat (- n)" using True by (auto simp: int64_ok_def)
  with True show ?thesis by (simp add: parse_int64_def show_int_def parse_show_nat)
next
  case False
  assume ok: "int64_ok n"
  then have b: "nat n < 2 ^ 64" "\<not> 2 ^ 63 \<le> nat n" using False by (auto simp: int64_ok_def)
  obtain c r where s: "show_nat (nat n) = c # r" by (cases "show_nat (nat n)") auto
  have "48 \<le> (of_char c :: nat)" using show_nat_digits [of "nat n"] by (simp add: s)
  then have "c \<noteq> CHR ''-'' \<and> c \<noteq> CHR ''+''" by auto
  then show ?thesis using False b parse_show_nat [OF b(1)] by (simp add: parse_int64_def show_int_def s)
qed

lemma show_int_free: "d \<notin> set ''-0123456789'' \<Longrightarrow> d \<notin> set (show_int n)"
proof -
  assume d: "d \<notin> set ''-0123456789''"
  have "\<forall>k \<in> set [48..<58]. (char_of (k :: nat) :: char) \<in> set ''-0123456789''" by code_simp
  then have *: "\<forall>c. (of_char c :: nat) \<in> set [48..<58] \<longrightarrow> c \<in> set ''-0123456789''"
    by (metis char_of_char)
  have digit: "c \<in> set ''-0123456789''" if "48 \<le> (of_char c :: nat) \<and> (of_char c :: nat) \<le> 57" for c
    by (rule * [rule_format], unfold set_upt) (use that in \<open>simp del: atLeastLessThan_iff add: atLeastLessThan_iff [of _ 48 58]\<close>)
  have "set (show_nat m) \<subseteq> set ''-0123456789''" for m
    using show_nat_digits [of m] digit by (auto simp only: list_all_iff subset_iff)
  with d show ?thesis by (auto simp: show_int_def)
qed

section \<open>Formatting instants\<close>

text \<open>
  Year, month and day (UTC) of an instant, by the calendar's 400-year eras counted from
  March 1 of year 0; and the two layouts the code formats instants in, RFC 3339 in seconds
  and the same with milliseconds.
\<close>

definition civil_date :: "gotime \<Rightarrow> int \<times> int \<times> int" where
  "civil_date t =
     (let z = t div (86400 * second) + 306;
          era = z div 146097;
          doe = z mod 146097;
          yoe = (doe - doe div 1460 + doe div 36524 - doe div 146096) div 365;
          doy = doe - (365 * yoe + yoe div 4 - yoe div 100);
          mp = (5 * doy + 2) div 153;
          d = doy - (153 * mp + 2) div 5 + 1;
          m = (if mp < 10 then mp + 3 else mp - 9)
      in (yoe + era * 400 + (if m \<le> 2 then 1 else 0), m, d))"

definition pad :: "nat \<Rightarrow> int \<Rightarrow> string" where
  "pad w n = (let s = show_nat (nat n) in replicate (w - length s) (CHR ''0'') @ s)"

definition format_seconds :: "gotime \<Rightarrow> string" where
  "format_seconds t =
     (case civil_date t of (y, mo, d) \<Rightarrow>
        let sod = (t div second) mod 86400 in
        pad 4 y @ ''-'' @ pad 2 mo @ ''-'' @ pad 2 d @ ''T'' @
        pad 2 (sod div 3600) @ '':'' @ pad 2 (sod div 60 mod 60) @ '':'' @ pad 2 (sod mod 60))"

definition format_rfc3339 :: "gotime \<Rightarrow> string" where
  "format_rfc3339 t = format_seconds t @ ''Z''"

definition format_millis :: "gotime \<Rightarrow> string" where
  "format_millis t = format_seconds t @ ''.'' @ pad 3 (t div millisecond mod 1000) @ ''Z''"

lemma format_epoch: "format_rfc3339 unix_epoch = ''1970-01-01T00:00:00Z''"
  by code_simp

lemma format_leap_day: "format_millis (of_unix 1709210096 + 789000000) = ''2024-02-29T12:34:56.789Z''"
  by code_simp

section \<open>Sums of errors and results\<close>

fun the_err :: "'e + 'a \<Rightarrow> 'e option" where
  "the_err (Inl e) = Some e"
| "the_err (Inr a) = None"

section \<open>Interfaces shared by the components\<close>

text \<open>
  A machine with a set of reachable states: an invariant that holds in the initial state
  and is kept by every step holds in all of them.
\<close>

inductive reach_from :: "('s \<Rightarrow> 's \<Rightarrow> bool) \<Rightarrow> 's \<Rightarrow> 's \<Rightarrow> bool" for step s0 where
  reach_start: "reach_from step s0 s0"
| reach_step: "reach_from step s0 s \<Longrightarrow> step s t \<Longrightarrow> reach_from step s0 t"

locale invariant_system =
  fixes step :: "'s \<Rightarrow> 's \<Rightarrow> bool"
    and s0 :: 's
    and inv :: "'s \<Rightarrow> bool"
  assumes inv_start: "inv s0"
    and inv_step: "inv s \<Longrightarrow> step s t \<Longrightarrow> inv t"
begin

lemma reachable_inv: "reach_from step s0 s \<Longrightarrow> inv s"
  by (induction rule: reach_from.induct) (auto intro: inv_start inv_step)

end

text \<open>
  A delay that doubles from a base up to a cap with the number of failures in a row, for as
  many failures as \<open>limit\<close> allows (\<open>None\<close>: however many).
\<close>

locale capped_doubling =
  fixes delay :: "nat \<Rightarrow> duration"
    and base :: duration
    and cap :: duration
    and good :: "nat \<Rightarrow> bool"
  assumes base_pos: "0 < base"
    and base_cap: "base \<le> cap"
    and delay_eq: "0 < n \<Longrightarrow> good n \<Longrightarrow> delay n = min (base * 2 ^ (n - 1)) cap"
begin

lemma delay_bounds: "0 < n \<Longrightarrow> good n \<Longrightarrow> base \<le> delay n \<and> delay n \<le> cap"
proof -
  assume n: "0 < n" "good n"
  have "base * 1 \<le> base * 2 ^ (n - 1)"
    using base_pos by (intro mult_left_mono) auto
  then show ?thesis using delay_eq [OF n] base_cap by auto
qed

lemma delay_mono: "0 < m \<Longrightarrow> m \<le> n \<Longrightarrow> good m \<Longrightarrow> good n \<Longrightarrow> delay m \<le> delay n"
proof -
  assume h: "0 < m" "m \<le> n" "good m" "good n"
  then have "base * 2 ^ (m - 1) \<le> base * 2 ^ (n - 1)"
    using base_pos by (intro mult_left_mono power_increasing) auto
  with h show ?thesis by (simp add: delay_eq)
qed

lemma delay_step:
  "0 < n \<Longrightarrow> good n \<Longrightarrow> good (Suc n) \<Longrightarrow> delay (Suc n) = min (2 * delay n) cap"
proof -
  assume h: "0 < n" "good n" "good (Suc n)"
  have twice: "base * 2 ^ (Suc n - 1) = 2 * (base * 2 ^ (n - 1))"
    using h(1) by (cases n) auto
  have capped: "min (2 * x) cap = min (2 * min x cap) cap" for x
    using base_pos base_cap by (simp add: min_def)
  show ?thesis
    unfolding delay_eq [OF h(1,2)] delay_eq [OF zero_less_Suc h(3)] twice by (rule capped)
qed

end

end
