(* ===== verification/Teams_Message.thy ===== *)
theory Teams_Message
  imports Go_Prelude
begin

text \<open>
  Package \<open>internal/teams/model\<close>: the message record the poller works on, what is read
  from a message's JSON properties (message.go, attachment.go, mention.go, link_preview.go,
  reply.go, forward.go), the order of sequence IDs, and consumption horizons
  (consumption_horizon.go).

  JSON arrives decoded (type \<open>json\<close>): the text parser of \<open>encoding/json\<close> is the
  parameter \<open>parse\<close> where a property holds JSON in a string.  Text that does not parse
  is \<open>None\<close>, and so is an empty property bag: every function here treats the two alike.
  Unmarshalling into a struct follows \<open>encoding/json\<close>: member names match by case
  folding, a later duplicate wins, null leaves the field alone, and a member of another
  type makes the whole call fail.
\<close>

section \<open>Data\<close>

datatype json =
    JNull
  | JBool bool
  | JNum string
  | JStr string
  | JArr "json list"
  | JObj "(string \<times> json) list"

record teams_gif =
  gif_title :: string
  gif_url :: string

record inline_image =
  img_url :: string
  img_alt :: string

record teams_mention =
  mention_user_id :: string
  mention_display_name :: string
  mention_item_id :: string

record reaction_user =
  ru_mri :: string
  ru_time_ms :: int

record message_reaction =
  emotion_key :: string
  reaction_users :: "reaction_user list"

record remote_message =
  message_id :: string
  client_message_id :: string
  sequence_id :: string
  sender_id :: string
  sender_name :: string
  im_display_name :: string
  token_display_name :: string
  msg_timestamp :: gotime
  msg_body :: string
  formatted_body :: string
  raw_content :: string
  msg_gifs :: "teams_gif list"
  inline_images :: "inline_image list"
  properties_files :: string
  properties_raw :: "json option"
  msg_reactions :: "message_reaction list"
  message_type :: string
  skype_edited_id :: string
  reply_to_id :: string
  thread_root_id :: string
  msg_mentions :: "teams_mention list"

section \<open>Unmarshalling\<close>

text \<open>The values an object gives a field, in order; \<open>None\<close> where the value is no object.\<close>

fun field_values :: "string \<Rightarrow> json \<Rightarrow> json list option" where
  "field_values f (JObj kvs) = Some (map snd (filter (\<lambda>(k, _). equal_fold k f) kvs))"
| "field_values f JNull = Some []"
| "field_values f _ = None"

text \<open>Into a string field: the last string, \<open>''''\<close> for none.\<close>

fun into_string :: "string \<Rightarrow> json list \<Rightarrow> string option" where
  "into_string cur [] = Some cur"
| "into_string cur (JStr s # vs) = into_string s vs"
| "into_string cur (JNull # vs) = into_string cur vs"
| "into_string cur (v # vs) = None"

definition string_field :: "string \<Rightarrow> json \<Rightarrow> string option" where
  "string_field f j = Option.bind (field_values f j) (into_string '''')"

text \<open>
  Into a \<open>json.RawMessage\<close> field: the last value as it stands, \<open>None\<close> where it is absent
  (length 0); a null is kept as the text null.
\<close>

definition raw_field :: "string \<Rightarrow> json \<Rightarrow> json option option" where
  "raw_field f j = map_option (\<lambda>vs. if vs = [] then None else Some (last vs)) (field_values f j)"

text \<open>Into an int64 field: the last number, which has to be an integer of 64 bits.\<close>

fun into_int64 :: "int \<Rightarrow> json list \<Rightarrow> int option" where
  "into_int64 cur [] = Some cur"
| "into_int64 cur (JNum n # vs) = Option.bind (parse_int64 n) (\<lambda>i. into_int64 i vs)"
| "into_int64 cur (JNull # vs) = into_int64 cur vs"
| "into_int64 cur (v # vs) = None"

definition int_field :: "string \<Rightarrow> json \<Rightarrow> int option" where
  "int_field f j = Option.bind (field_values f j) (into_int64 0)"

text \<open>Into a slice: the last array, none for null or absent.\<close>

fun into_slice :: "json list \<Rightarrow> json list \<Rightarrow> json list option" where
  "into_slice cur [] = Some cur"
| "into_slice cur (JArr xs # vs) = into_slice xs vs"
| "into_slice cur (JNull # vs) = into_slice [] vs"
| "into_slice cur (v # vs) = None"

definition slice_field :: "string \<Rightarrow> json \<Rightarrow> json list option" where
  "slice_field f j = Option.bind (field_values f j) (into_slice [])"

fun all_some :: "'a option list \<Rightarrow> 'a list option" where
  "all_some [] = Some []"
| "all_some (None # xs) = None"
| "all_some (Some x # xs) = map_option ((#) x) (all_some xs)"

lemma all_some_length: "all_some xs = Some ys \<Longrightarrow> length ys = length xs"
  by (induction xs arbitrary: ys rule: all_some.induct) auto

section \<open>Sender IDs\<close>

definition normalize_teams_user_id :: "string \<Rightarrow> string" where
  "normalize_teams_user_id v = trim_space v"

text \<open>The part after the last slash, unless nothing follows it.\<close>

definition extract_sender_id_value :: "string \<Rightarrow> string" where
  "extract_sender_id_value value =
     (let v = trim_space value in
      if v = [] then []
      else case after_last (CHR ''/'') v of
             None \<Rightarrow> v
           | Some r \<Rightarrow> if r = [] then v else r)"

definition extract_sender_id :: "json option \<Rightarrow> string" where
  "extract_sender_id raw =
     (case raw of
        None \<Rightarrow> []
      | Some (JStr s) \<Rightarrow> extract_sender_id_value s
      | Some JNull \<Rightarrow> extract_sender_id_value []
      | Some j \<Rightarrow> (case string_field ''id'' j of None \<Rightarrow> [] | Some i \<Rightarrow> extract_sender_id_value i))"

definition extract_sender_name :: "json option \<Rightarrow> string" where
  "extract_sender_name raw =
     (case raw of
        None \<Rightarrow> []
      | Some (JStr s) \<Rightarrow> []
      | Some JNull \<Rightarrow> []
      | Some j \<Rightarrow>
          (case (string_field ''displayName'' j, string_field ''name'' j) of
             (Some d, Some n) \<Rightarrow> if d \<noteq> [] then d else n
           | _ \<Rightarrow> []))"

section \<open>Reactions\<close>

text \<open>
  \<open>float_ms\<close> stands for \<open>int64(strconv.ParseFloat(s))\<close>, the reading of a number that is
  not an integer literal.
\<close>

definition parse_reaction_time :: "(string \<Rightarrow> int option) \<Rightarrow> json option \<Rightarrow> int" where
  "parse_reaction_time float_ms raw =
     (case raw of
        None \<Rightarrow> 0
      | Some (JStr s0) \<Rightarrow>
          (let s = trim_space s0 in
           if s = [] then 0
           else case parse_int64 s of
                  Some v \<Rightarrow> v
                | None \<Rightarrow> (case float_ms s of Some v \<Rightarrow> v | None \<Rightarrow> 0))
      | Some (JNum s) \<Rightarrow> (case float_ms s of Some v \<Rightarrow> v | None \<Rightarrow> 0)
      | Some _ \<Rightarrow> 0)"

definition decode_reaction_user :: "json \<Rightarrow> (string \<times> json option) option" where
  "decode_reaction_user j =
     (case (string_field ''mri'' j, raw_field ''time'' j) of
        (Some m, Some t) \<Rightarrow> Some (m, t)
      | _ \<Rightarrow> None)"

definition decode_emotion :: "json \<Rightarrow> (string \<times> (string \<times> json option) list) option" where
  "decode_emotion j =
     (case (string_field ''key'' j, slice_field ''users'' j) of
        (Some k, Some us) \<Rightarrow> map_option (Pair k) (all_some (map decode_reaction_user us))
      | _ \<Rightarrow> None)"

fun keep_users :: "(string \<Rightarrow> int option) \<Rightarrow> (string \<times> json option) list \<Rightarrow> reaction_user list" where
  "keep_users fl [] = []"
| "keep_users fl ((mri0, t) # us) =
     (let mri = trim_space mri0 in
      if mri = [] then keep_users fl us
      else \<lparr>ru_mri = mri, ru_time_ms = parse_reaction_time fl t\<rparr> # keep_users fl us)"

fun keep_reactions ::
  "(string \<Rightarrow> int option) \<Rightarrow> (string \<times> (string \<times> json option) list) list \<Rightarrow> message_reaction list" where
  "keep_reactions fl [] = []"
| "keep_reactions fl ((key0, us) # es) =
     (let key = trim_space key0; users = keep_users fl us in
      if key = [] \<or> us = [] then keep_reactions fl es
      else if users = [] then keep_reactions fl es
      else \<lparr>emotion_key = key, reaction_users = users\<rparr> # keep_reactions fl es)"

definition extract_reactions :: "(string \<Rightarrow> int option) \<Rightarrow> json option \<Rightarrow> message_reaction list" where
  "extract_reactions fl properties =
     (case properties of
        None \<Rightarrow> []
      | Some j \<Rightarrow>
          (case Option.bind (slice_field ''emotions'' j) (\<lambda>es. all_some (map decode_emotion es)) of
             None \<Rightarrow> []
           | Some es \<Rightarrow> keep_reactions fl es))"

definition reaction_ok :: "message_reaction \<Rightarrow> bool" where
  "reaction_ok r \<longleftrightarrow> emotion_key r \<noteq> [] \<and> trim_space (emotion_key r) = emotion_key r \<and>
     reaction_users r \<noteq> [] \<and>
     (\<forall>u \<in> set (reaction_users r). ru_mri u \<noteq> [] \<and> trim_space (ru_mri u) = ru_mri u)"

lemma keep_users_ok:
  "u \<in> set (keep_users fl us) \<Longrightarrow> ru_mri u \<noteq> [] \<and> trim_space (ru_mri u) = ru_mri u"
  by (induction fl us rule: keep_users.induct) (auto simp: Let_def split: if_splits)

lemma keep_reactions_ok: "r \<in> set (keep_reactions fl es) \<Longrightarrow> reaction_ok r"
  by (induction fl es rule: keep_reactions.induct)
     (auto simp: Let_def reaction_ok_def keep_users_ok split: if_splits)

lemma extract_reactions_ok: "r \<in> set (extract_reactions fl p) \<Longrightarrow> reaction_ok r"
  by (auto simp: extract_reactions_def keep_reactions_ok split: option.splits)

section \<open>Edits, deletions and other message properties\<close>

text \<open>\<open>IsDeleted\<close>: either member is there, whatever its value.\<close>

definition is_deleted :: "json option \<Rightarrow> bool" where
  "is_deleted properties =
     (case properties of
        None \<Rightarrow> False
      | Some j \<Rightarrow>
          (case (raw_field ''deletetime'' j, raw_field ''hardDeleteTime'' j) of
             (Some d, Some h) \<Rightarrow> d \<noteq> None \<or> h \<noteq> None
           | _ \<Rightarrow> False))"

definition extract_edit_time :: "json option \<Rightarrow> int" where
  "extract_edit_time properties =
     (case properties of
        None \<Rightarrow> 0
      | Some j \<Rightarrow>
          (case raw_field ''edittime'' j of
             Some (Some v) \<Rightarrow>
               (let text = (case v of JNum s \<Rightarrow> Some s
                            | JStr s \<Rightarrow> Some (trim_space s)
                            | JNull \<Rightarrow> Some []
                            | _ \<Rightarrow> None) in
                case Option.bind text parse_int64 of
                  None \<Rightarrow> 0
                | Some n \<Rightarrow> if n < 0 then 0 else n)
           | _ \<Rightarrow> 0))"

lemma extract_edit_time_nonneg: "0 \<le> extract_edit_time p"
  by (auto simp: extract_edit_time_def Let_def split: option.splits)

definition trimmed_string_property :: "string \<Rightarrow> json option \<Rightarrow> string" where
  "trimmed_string_property f properties =
     (case properties of
        None \<Rightarrow> []
      | Some j \<Rightarrow> (case string_field f j of None \<Rightarrow> [] | Some s \<Rightarrow> trim_space s))"

definition extract_subject :: "json option \<Rightarrow> string" where
  "extract_subject = trimmed_string_property ''subject''"

definition extract_importance :: "json option \<Rightarrow> string" where
  "extract_importance properties =
     (let i = to_lower (trimmed_string_property ''importance'' properties) in
      if i = ''high'' \<or> i = ''urgent'' then i else [])"

definition extract_thread_root_id :: "json option \<Rightarrow> string" where
  "extract_thread_root_id = trimmed_string_property ''replyChainMessageId''"

definition resolve_thread_root_id :: "string \<Rightarrow> json option \<Rightarrow> string" where
  "resolve_thread_root_id conversation_link properties =
     (case cut conversation_link '';messageid='' of (_, root0, ok) \<Rightarrow>
        (let root = trim_space root0 in
         if ok \<and> root \<noteq> [] then root else extract_thread_root_id properties))"

text \<open>
  A property that may be JSON or a string holding JSON.
\<close>

definition unquote :: "(string \<Rightarrow> json option) \<Rightarrow> json \<Rightarrow> json option" where
  "unquote parse j = (case j of JStr s \<Rightarrow> parse s | _ \<Rightarrow> Some j)"

definition decode_url_entry :: "json \<Rightarrow> string option" where
  "decode_url_entry j = string_field ''URL'' j"

definition extract_safe_links :: "(string \<Rightarrow> json option) \<Rightarrow> json option \<Rightarrow> string list" where
  "extract_safe_links parse properties =
     (case Option.bind properties (raw_field ''atp'') of
        Some (Some v) \<Rightarrow>
          (case Option.bind (unquote parse v)
                  (\<lambda>j. case j of JArr es \<Rightarrow> all_some (map decode_url_entry es)
                       | JNull \<Rightarrow> Some [] | _ \<Rightarrow> None) of
             None \<Rightarrow> []
           | Some urls \<Rightarrow> filter (\<lambda>u. u \<noteq> []) (map trim_space urls))
      | _ \<Rightarrow> [])"

record link_preview =
  lp_url :: string
  lp_title :: string
  lp_description :: string
  lp_image_url :: string
  lp_site_name :: string

definition decode_link :: "json \<Rightarrow> link_preview option" where
  "decode_link j =
     (case (string_field ''originalUrl'' j, string_field ''title'' j, string_field ''description'' j,
            string_field ''previewimage'' j, string_field ''siteName'' j) of
        (Some u, Some t, Some d, Some p, Some s) \<Rightarrow>
          Some \<lparr>lp_url = trim_space u, lp_title = trim_space t, lp_description = trim_space d,
                lp_image_url = trim_space p, lp_site_name = trim_space s\<rparr>
      | _ \<Rightarrow> None)"

definition extract_link_previews :: "json option \<Rightarrow> link_preview list" where
  "extract_link_previews properties =
     (case Option.bind properties (\<lambda>j. Option.bind (slice_field ''links'' j)
              (\<lambda>ls. all_some (map decode_link ls))) of
        None \<Rightarrow> []
      | Some ls \<Rightarrow> filter (\<lambda>l. lp_url l \<noteq> []) ls)"

section \<open>Mentions\<close>

text \<open>\<open>strconv.Itoa\<close> of a JSON number that fits an int, else a string, trimmed.\<close>

definition parse_mention_id :: "json option \<Rightarrow> string" where
  "parse_mention_id raw =
     (case raw of
        None \<Rightarrow> []
      | Some (JNum s) \<Rightarrow> (case parse_int64 s of Some n \<Rightarrow> show_int n | None \<Rightarrow> [])
      | Some JNull \<Rightarrow> show_int 0
      | Some (JStr s) \<Rightarrow> trim_space s
      | Some _ \<Rightarrow> [])"

definition decode_mention :: "json \<Rightarrow> (json option \<times> json option \<times> string) option" where
  "decode_mention j =
     (case (raw_field ''itemid'' j, raw_field ''id'' j, string_field ''mri'' j, string_field ''displayName'' j) of
        (Some it, Some i, Some m, Some d) \<Rightarrow> Some (it, i, m)
      | _ \<Rightarrow> None)"

fun mention_map :: "(json option \<times> json option \<times> string) list \<Rightarrow> (string \<rightharpoonup> string) \<Rightarrow> (string \<rightharpoonup> string)" where
  "mention_map [] m = m"
| "mention_map ((item, i, mri0) # ms) m =
     (let mri = trim_space mri0;
          by_item = parse_mention_id item;
          key = (if by_item = [] then parse_mention_id i else by_item) in
      if mri = [] then mention_map ms m
      else if key \<noteq> [] then mention_map ms (m(key \<mapsto> mri))
      else mention_map ms m)"

definition extract_mention_mris :: "(string \<Rightarrow> json option) \<Rightarrow> json option \<Rightarrow> (string \<rightharpoonup> string)" where
  "extract_mention_mris parse properties =
     (case Option.bind properties (raw_field ''mentions'') of
        Some (Some v) \<Rightarrow>
          (case Option.bind (unquote parse v)
                  (\<lambda>j. case j of JArr ms \<Rightarrow> all_some (map decode_mention ms) | _ \<Rightarrow> None) of
             None \<Rightarrow> Map.empty
           | Some ms \<Rightarrow> mention_map ms Map.empty)
      | _ \<Rightarrow> Map.empty)"

definition resolve_mentions :: "teams_mention list \<Rightarrow> (string \<rightharpoonup> string) \<Rightarrow> teams_mention list" where
  "resolve_mentions html_mentions mris =
     map (\<lambda>m. if mention_item_id m \<noteq> []
              then (case mris (mention_item_id m) of
                      Some mri \<Rightarrow> m\<lparr>mention_user_id := mri\<rparr>
                    | None \<Rightarrow> m)
              else m) html_mentions"

section \<open>The order of sequence IDs\<close>

definition compare_sequence_id :: "string \<Rightarrow> string \<Rightarrow> int" where
  "compare_sequence_id a b =
     (case (parse_uint64 a, parse_uint64 b) of
        (Some m, Some n) \<Rightarrow> if m < n then -1 else if n < m then 1 else 0
      | _ \<Rightarrow> byte_compare a b)"

definition numeric_id :: "string \<Rightarrow> bool" where
  "numeric_id s \<longleftrightarrow> parse_uint64 s \<noteq> None"

lemma compare_sequence_id_range: "compare_sequence_id a b \<in> {-1, 0, 1}"
  using byte_compare_range by (auto simp: compare_sequence_id_def split: option.splits)

lemma compare_sequence_id_swap: "compare_sequence_id b a = - compare_sequence_id a b"
  by (auto simp: compare_sequence_id_def byte_compare_swap [of a b] split: option.splits)

lemma compare_sequence_id_refl [simp]: "compare_sequence_id a a = 0"
  by (auto simp: compare_sequence_id_def split: option.splits)

lemma compare_numeric:
  "parse_uint64 a = Some m \<Longrightarrow> parse_uint64 b = Some n \<Longrightarrow>
   (compare_sequence_id a b \<le> 0 \<longleftrightarrow> m \<le> n) \<and> (0 < compare_sequence_id a b \<longleftrightarrow> n < m)"
  by (auto simp: compare_sequence_id_def)

lemma numeric_id_nonempty: "numeric_id s \<Longrightarrow> s \<noteq> []"
  by (auto simp: numeric_id_def parse_uint64_def)

text \<open>
  What the cursor code relies on: a comparison that is a total preorder on the IDs it is
  given, and the newest of a page of them.
\<close>

locale id_order =
  fixes cmp :: "'a \<Rightarrow> 'a \<Rightarrow> int"
    and good :: "'a \<Rightarrow> bool"
  assumes cmp_swap: "cmp b a = - cmp a b"
    and cmp_trans: "good a \<Longrightarrow> good b \<Longrightarrow> good c \<Longrightarrow> cmp a b \<le> 0 \<Longrightarrow> cmp b c \<le> 0 \<Longrightarrow> cmp a c \<le> 0"
begin

lemma not_newer: "\<not> 0 < cmp a b \<longleftrightarrow> cmp a b \<le> 0"
  by auto

lemma le_total: "cmp a b \<le> 0 \<or> cmp b a \<le> 0"
  using cmp_swap [of a b] by linarith

lemma less_le_trans:
  assumes "good a" "good b" "good c" "cmp a b < 0" "cmp b c \<le> 0"
  shows "cmp a c < 0"
proof (rule ccontr)
  assume "\<not> cmp a c < 0"
  then have "cmp c a \<le> 0" using cmp_swap [of a c] by linarith
  with assms have "cmp b a \<le> 0" by (blast intro: cmp_trans)
  with assms(4) show False using cmp_swap [of a b] by linarith
qed

lemma newest_upper:
  "good m \<Longrightarrow> \<forall>x \<in> set xs. good x \<Longrightarrow>
   (let r = foldl (\<lambda>m x. if 0 < cmp x m then x else m) m xs in
    r \<in> insert m (set xs) \<and> (\<forall>x \<in> insert m (set xs). cmp x r \<le> 0))"
proof (induction xs arbitrary: m)
  case Nil
  then show ?case using cmp_swap [of m m] by simp
next
  case (Cons y ys)
  define m' where "m' = (if 0 < cmp y m then y else m)"
  have gm': "good m'" using Cons.prems by (simp add: m'_def)
  define r where "r = foldl (\<lambda>m x. if 0 < cmp x m then x else m) m' ys"
  have IH: "r \<in> insert m' (set ys)" "\<forall>x \<in> insert m' (set ys). cmp x r \<le> 0"
    using Cons.IH [OF gm'] Cons.prems by (auto simp: r_def Let_def)
  have gr: "good r" using IH(1) gm' Cons.prems by auto
  have "cmp m m' \<le> 0 \<and> cmp y m' \<le> 0"
    using cmp_swap [of m y] cmp_swap [of m m] cmp_swap [of y y] by (auto simp: m'_def)
  moreover have "cmp m' r \<le> 0" using IH(2) by simp
  ultimately have "cmp m r \<le> 0" and "cmp y r \<le> 0"
    using Cons.prems gm' gr by (auto intro: cmp_trans)
  moreover have "foldl (\<lambda>m x. if 0 < cmp x m then x else m) m (y # ys) = r"
    by (simp add: r_def m'_def)
  moreover have "r \<in> insert m (set (y # ys))"
    using IH(1) by (auto simp: m'_def split: if_splits)
  ultimately show ?case using IH(2) by (auto simp: Let_def)
qed

end

interpretation seq: id_order compare_sequence_id numeric_id
proof unfold_locales
  show "compare_sequence_id b a = - compare_sequence_id a b" for a b
    by (rule compare_sequence_id_swap)
  show "compare_sequence_id a c \<le> 0"
    if "numeric_id a" "numeric_id b" "numeric_id c"
      "compare_sequence_id a b \<le> 0" "compare_sequence_id b c \<le> 0" for a b c
    using that by (auto simp: numeric_id_def compare_numeric)
qed

text \<open>Mixed IDs have no such order: the comparison of a number and a non-number is by bytes.\<close>

lemma mixed_ids_cycle:
  "compare_sequence_id ''9'' ''10'' < 0 \<and> compare_sequence_id ''10'' ''5x'' < 0 \<and>
   compare_sequence_id ''5x'' ''9'' < 0"
  by (simp add: compare_sequence_id_def parse_uint64_def Let_def)

section \<open>Consumption horizons\<close>

record consumption_horizon =
  ch_id :: string
  ch_horizon :: string
  ch_visibility_time :: int

definition parse_horizon_latest_read_ts :: "string \<Rightarrow> int option" where
  "parse_horizon_latest_read_ts horizon =
     (let parts = split_on (CHR '';'') horizon in
      if length parts < 2 then None
      else let value = trim_space (parts ! 1) in
           if value = [] then None else parse_int64 value)"

definition parse_horizon_message_id :: "string \<Rightarrow> string option" where
  "parse_horizon_message_id horizon =
     (case cut horizon '';'' of (before, _, _) \<Rightarrow>
        (let i = trim_space before in
         if parse_int64 i = None \<or> i = ''0'' then None else Some i))"

text \<open>\<open>ConsumptionHorizonNow\<close> (client/receipts.go) builds the value the parser reads back.\<close>

definition consumption_horizon_now :: "gotime \<Rightarrow> string" where
  "consumption_horizon_now now =
     (let ms = unix_milli now in show_int ms @ '';'' @ show_int ms @ '';0'')"

text \<open>\<open>ChooseLastSeenTS\<close>.\<close>

definition choose_last_seen_ts :: "gotime \<Rightarrow> gotime \<Rightarrow> gotime" where
  "choose_last_seen_ts message_ts now = (if is_zero_time message_ts then now else message_ts)"

end
