(* ===== verification/Go_Errors.thy ===== *)
theory Go_Errors
  imports Go_Prelude
begin

text \<open>
  The errors the bridge tells apart.  A Go error is a chain: \<open>errors.Is\<close> and
  \<open>errors.As\<close> walk it through \<open>Unwrap\<close>, which \<open>fmt.Errorf\<close> with \<open>%w\<close> and
  \<open>*url.Error\<close> have.  \<open>RetryableError\<close> of package client has a cause but no
  \<open>Unwrap\<close>, so the walk stops there.  The constructors:
  \<^item> \<open>Canceled\<close>, \<open>DeadlineExceeded\<close>: the context errors;
  \<^item> \<open>Superseded\<close>: \<open>errClientSuperseded\<close> (client_lifecycle.go);
  \<^item> \<open>Retryable\<close>, \<open>MessagesError\<close>: the typed errors of package client (status and
    Retry-After, status and body snippet);
  \<^item> \<open>ApiError\<close>: any of the other typed request errors (\<open>SendMessageError\<close>,
    \<open>ReactionError\<close>, \<open>GraphUploadError\<close>, \<dots>), told apart by the text of their
    \<open>Error()\<close>;
  \<^item> \<open>NetFailure\<close>: a \<open>net.Error\<close> other than \<open>*url.Error\<close>, with its
    \<open>Timeout()\<close>; \<open>DNSFailure\<close>: a \<open>*net.DNSError\<close>, one too; \<open>TLSFailure\<close>: a TLS
    or certificate error, which is none;
  \<^item> \<open>UrlError\<close>: \<open>*url.Error\<close>, a \<open>net.Error\<close> itself, with the text it puts in front;
  \<^item> \<open>Wrapped\<close>: \<open>fmt.Errorf("%w<suffix>", \<dots>)\<close>; \<open>Prefixed\<close>: \<open>fmt.Errorf("<prefix>%w", \<dots>)\<close>; \<open>Plain\<close>: any other error, by its text.
\<close>

datatype go_error =
    Canceled
  | DeadlineExceeded
  | Superseded
  | Retryable int duration "go_error option"
  | MessagesError int string
  | ApiError string int string
  | NetFailure bool string
  | DNSFailure bool string
  | TLSFailure string
  | UrlError string go_error
  | Wrapped go_error string
  | Prefixed string go_error
  | Plain string

text \<open>The error of a JSON decoder; its text is not modelled.\<close>

abbreviation "json_error \<equiv> Plain ''invalid json''"

text \<open>\<open>Error()\<close>, as far as the code reads it.\<close>

fun err_text :: "go_error \<Rightarrow> string" where
  "err_text Canceled = ''context canceled''"
| "err_text DeadlineExceeded = ''context deadline exceeded''"
| "err_text Superseded = ''client superseded by a re-login''"
| "err_text (Retryable st ra None) = ''teams request retryable error''"
| "err_text (Retryable st ra (Some c)) = err_text c"
| "err_text (MessagesError st body) =
     ''messages request failed with status '' @ show_int st @ '': '' @ body"
| "err_text (ApiError text st body) = text"
| "err_text (NetFailure t m) = m"
| "err_text (DNSFailure t m) = m"
| "err_text (TLSFailure m) = m"
| "err_text (UrlError p e) = p @ err_text e"
| "err_text (Wrapped e s) = err_text e @ s"
| "err_text (Prefixed s e) = s @ err_text e"
| "err_text (Plain m) = m"

fun unwrap :: "go_error \<Rightarrow> go_error option" where
  "unwrap (UrlError p e) = Some e"
| "unwrap (Wrapped e s) = Some e"
| "unwrap (Prefixed s e) = Some e"
| "unwrap _ = None"

text \<open>The chain an \<open>errors.As\<close> walks, outermost first.\<close>

fun chain :: "go_error \<Rightarrow> go_error list" where
  "chain (UrlError p e) = UrlError p e # chain e"
| "chain (Wrapped e s) = Wrapped e s # chain e"
| "chain (Prefixed s e) = Prefixed s e # chain e"
| "chain e = [e]"

definition is_canceled :: "go_error \<Rightarrow> bool" where
  "is_canceled e \<longleftrightarrow> Canceled \<in> set (chain e)"

definition is_deadline :: "go_error \<Rightarrow> bool" where
  "is_deadline e \<longleftrightarrow> DeadlineExceeded \<in> set (chain e)"

definition is_superseded :: "go_error \<Rightarrow> bool" where
  "is_superseded e \<longleftrightarrow> Superseded \<in> set (chain e)"

fun retryable_of :: "go_error \<Rightarrow> (int \<times> duration) option" where
  "retryable_of (Retryable st ra c) = Some (st, ra)"
| "retryable_of (UrlError p e) = retryable_of e"
| "retryable_of (Wrapped e s) = retryable_of e"
| "retryable_of (Prefixed s e) = retryable_of e"
| "retryable_of _ = None"

fun messages_error_of :: "go_error \<Rightarrow> (int \<times> string) option" where
  "messages_error_of (MessagesError st b) = Some (st, b)"
| "messages_error_of (UrlError p e) = messages_error_of e"
| "messages_error_of (Wrapped e s) = messages_error_of e"
| "messages_error_of (Prefixed s e) = messages_error_of e"
| "messages_error_of _ = None"

text \<open>
  \<open>Timeout()\<close> of one error, where it has that method: \<open>*url.Error\<close> asks the error it
  holds, directly, and \<open>context.DeadlineExceeded\<close> is a timeout.
\<close>

fun timeout_of :: "go_error \<Rightarrow> bool" where
  "timeout_of (NetFailure t m) = t"
| "timeout_of (DNSFailure t m) = t"
| "timeout_of DeadlineExceeded = True"
| "timeout_of (UrlError p e) = timeout_of e"
| "timeout_of _ = False"

text \<open>The first \<open>net.Error\<close> of the chain, by its timeout flag.\<close>

fun net_error_of :: "go_error \<Rightarrow> bool option" where
  "net_error_of (NetFailure t m) = Some t"
| "net_error_of (DNSFailure t m) = Some t"
| "net_error_of DeadlineExceeded = Some True"
| "net_error_of (UrlError p e) = Some (timeout_of e)"
| "net_error_of (Wrapped e s) = net_error_of e"
| "net_error_of (Prefixed s e) = net_error_of e"
| "net_error_of _ = None"

lemma retryable_of_chain: "retryable_of e = Some (st, ra) \<longleftrightarrow> (\<exists>c. Retryable st ra c \<in> set (chain e))"
  by (induction e) auto

lemma messages_error_of_chain: "messages_error_of e = Some (st, b) \<longleftrightarrow> MessagesError st b \<in> set (chain e)"
  by (induction e) auto

text \<open>The chain ends in one error, so an error is never of two of the typed kinds.\<close>

lemma retryable_not_messages: "retryable_of e = Some r \<Longrightarrow> messages_error_of e = None"
  by (induction e) auto

lemma canceled_not_retryable: "is_canceled e \<Longrightarrow> retryable_of e = None"
  by (induction e) (auto simp: is_canceled_def)

lemma is_canceled_simps [simp]:
  "is_canceled Canceled"
  "\<not> is_canceled DeadlineExceeded"
  "\<not> is_canceled (Retryable st ra c)"
  "\<not> is_canceled (MessagesError st b)"
  "\<not> is_canceled (ApiError x st b)"
  "\<not> is_canceled (NetFailure t m)"
  "\<not> is_canceled (Plain m)"
  "\<not> is_canceled Superseded"
  "is_canceled (UrlError p e) = is_canceled e"
  "is_canceled (Wrapped e s) = is_canceled e"
  "is_canceled (Prefixed s e) = is_canceled e"
  by (auto simp: is_canceled_def)

end
