(* ===== verification/Thread_Store.thy ===== *)
theory Thread_Store
  imports Go_Errors "HOL-Library.AList"
begin

text \<open>
  Package \<open>pkg/teamsdb\<close>: the thread table with its cursors (thread_state.go), the read
  positions (consumption_horizon.go) and the profiles (profile.go).

  A table is an association list from primary key to row, in the order of insertion; the
  bridge ID is constant within one query object, so it is not part of the key.  Every
  operation takes \<open>dberr\<close>, what the driver answers: an error leaves the table as it was.
  \<open>None\<close> in place of the table is a query object without database (\<open>errMissingDB\<close>).
\<close>

section \<open>A keyed store\<close>

text \<open>The contract of every lookup table of the bridge: a put is seen by the gets that follow.\<close>

locale kv_store =
  fixes get :: "'s \<Rightarrow> 'k \<Rightarrow> 'v option"
    and put :: "'s \<Rightarrow> 'k \<Rightarrow> 'v \<Rightarrow> 's"
    and good_key :: "'k \<Rightarrow> bool"
  assumes get_put_same: "good_key k \<Longrightarrow> get (put s k v) k = Some v"
    and get_put_other: "k' \<noteq> k \<Longrightarrow> get (put s k v) k' = get s k'"
begin

definition put_all :: "'s \<Rightarrow> ('k \<times> 'v) list \<Rightarrow> 's" where
  "put_all s kvs = foldl (\<lambda>s (k, v). put s k v) s kvs"

lemma get_put_all_other: "k \<notin> fst ` set kvs \<Longrightarrow> get (put_all s kvs) k = get s k"
  unfolding put_all_def
proof (induction kvs arbitrary: s)
  case (Cons kv kvs)
  then show ?case by (cases kv) (auto simp: get_put_other)
qed simp

text \<open>After any sequence of puts, a key holds what was last put under it.\<close>

lemma get_put_all_last:
  assumes "good_key k" and "k \<notin> fst ` set after"
  shows "get (put_all s (before @ (k, v) # after)) k = Some v"
proof -
  have "put_all s (before @ (k, v) # after) = put_all (put (put_all s before) k v) after"
    by (simp add: put_all_def)
  then show ?thesis using assms by (simp add: get_put_all_other get_put_same)
qed

end

text \<open>\<open>INSERT \<dots> ON CONFLICT (key) DO UPDATE\<close>: \<open>merge\<close> is given the row that is there.\<close>

definition table_upsert :: "('r \<Rightarrow> 'r) \<Rightarrow> 'k \<Rightarrow> 'r \<Rightarrow> ('k \<times> 'r) list \<Rightarrow> ('k \<times> 'r) list" where
  "table_upsert merge k row t =
     AList.update k (case map_of t k of None \<Rightarrow> row | Some old \<Rightarrow> merge old) t"

lemma map_of_table_upsert [simp]:
  "map_of (table_upsert merge k row t) =
     (map_of t)(k \<mapsto> (case map_of t k of None \<Rightarrow> row | Some old \<Rightarrow> merge old))"
  by (simp add: table_upsert_def update_conv')

lemma distinct_table_upsert:
  "distinct (map fst t) \<Longrightarrow> distinct (map fst (table_upsert merge k row t))"
  by (simp add: table_upsert_def distinct_update)

lemma set_AList_update: "set (AList.update k v t) \<subseteq> insert (k, v) (set t)"
  by (induction t) auto

lemma table_upsert_all:
  assumes "(k', r) \<in> set (table_upsert merge k row t)"
    and "\<And>k r. (k, r) \<in> set t \<Longrightarrow> P k r" and "P k row" and "\<And>old. P k old \<Longrightarrow> P k (merge old)"
  shows "P k' r"
proof (cases "(k', r) \<in> set t")
  case False
  with assms(1) have "k' = k" "r = (case map_of t k of None \<Rightarrow> row | Some old \<Rightarrow> merge old)"
    using set_AList_update unfolding table_upsert_def by fastforce+
  then show ?thesis
    using assms(2-) by (auto dest: map_of_SomeD split: option.splits)
qed (rule assms(2))

section \<open>Threads and their cursors\<close>

record thread_state =
  ts_thread_id :: string
  ts_conversation :: string
  ts_one_to_one :: bool
  ts_name :: string
  ts_last_seq :: string
  ts_last_ts :: int

type_synonym thread_table = "((string \<times> string) \<times> thread_state) list"

definition err_missing_db :: go_error where
  "err_missing_db = Plain ''teamsdb missing database''"

definition thread_upsert ::
  "go_error option \<Rightarrow> thread_table option \<Rightarrow> string \<Rightarrow> thread_state option \<Rightarrow> go_error option \<times> thread_table option" where
  "thread_upsert dberr db login st0 =
     (case db of
        None \<Rightarrow> (Some err_missing_db, db)
      | Some t \<Rightarrow>
          (case st0 of
             None \<Rightarrow> (Some (Plain ''thread state is nil''), db)
           | Some st1 \<Rightarrow>
               (let st = st1\<lparr>ts_thread_id := trim_space (ts_thread_id st1),
                             ts_conversation := trim_space (ts_conversation st1)\<rparr> in
                if ts_thread_id st = [] \<or> ts_conversation st = []
                then (Some (Plain ''missing thread_id or conversation_id''), db)
                else case dberr of
                       Some e \<Rightarrow> (Some e, db)
                     | None \<Rightarrow>
                         (None, Some (table_upsert
                            (\<lambda>old. old\<lparr>ts_conversation := ts_conversation st, ts_one_to_one := ts_one_to_one st,
                                       ts_name := ts_name st\<rparr>)
                            (login, ts_thread_id st) st t)))))"

definition thread_update_cursor ::
  "go_error option \<Rightarrow> thread_table option \<Rightarrow> string \<Rightarrow> string \<Rightarrow> string \<Rightarrow> int \<Rightarrow> go_error option \<times> thread_table option" where
  "thread_update_cursor dberr db login thread0 seq ts =
     (case db of
        None \<Rightarrow> (Some err_missing_db, db)
      | Some t \<Rightarrow>
          (let thread = trim_space thread0 in
           if thread = [] then (Some (Plain ''missing thread id''), db)
           else case dberr of
                  Some e \<Rightarrow> (Some e, db)
                | None \<Rightarrow>
                    (None, Some (map (\<lambda>(k, row). (k, if k = (login, thread)
                                                     then row\<lparr>ts_last_seq := seq, ts_last_ts := ts\<rparr> else row)) t))))"

definition thread_list_for_login ::
  "go_error option \<Rightarrow> thread_table option \<Rightarrow> string \<Rightarrow> go_error + thread_state list" where
  "thread_list_for_login dberr db login =
     (case db of
        None \<Rightarrow> Inl err_missing_db
      | Some t \<Rightarrow>
          (case dberr of
             Some e \<Rightarrow> Inl e
           | None \<Rightarrow> Inr (map snd (filter (\<lambda>((l, _), _). l = login) t))))"

definition thread_get ::
  "go_error option \<Rightarrow> thread_table option \<Rightarrow> string \<Rightarrow> string \<Rightarrow> go_error + thread_state option" where
  "thread_get dberr db login thread0 =
     (case db of
        None \<Rightarrow> Inl err_missing_db
      | Some t \<Rightarrow>
          (let thread = trim_space thread0 in
           if thread = [] then Inr None
           else case dberr of Some e \<Rightarrow> Inl e | None \<Rightarrow> Inr (map_of t (login, thread))))"

text \<open>
  The table as the operations build it: keys distinct, each the login and the thread ID of
  its row, thread and conversation IDs trimmed and present.
\<close>

definition row_ok :: "string \<times> string \<Rightarrow> thread_state \<Rightarrow> bool" where
  "row_ok k row \<longleftrightarrow> ts_thread_id row = snd k \<and> snd k \<noteq> [] \<and> trim_space (snd k) = snd k \<and>
     ts_conversation row \<noteq> [] \<and> trim_space (ts_conversation row) = ts_conversation row"

definition thread_table_ok :: "thread_table \<Rightarrow> bool" where
  "thread_table_ok t \<longleftrightarrow> distinct (map fst t) \<and> (\<forall>k row. (k, row) \<in> set t \<longrightarrow> row_ok k row)"

lemma thread_upsert_ok:
  assumes "thread_table_ok t" and "thread_upsert dberr (Some t) login st = (e, db)"
  shows "\<exists>t'. db = Some t' \<and> thread_table_ok t'"
proof -
  have keep: "thread_table_ok (table_upsert (\<lambda>old. old\<lparr>ts_conversation := trim_space (ts_conversation s),
      ts_one_to_one := ts_one_to_one s, ts_name := ts_name s\<rparr>) (login, trim_space (ts_thread_id s))
      (s\<lparr>ts_thread_id := trim_space (ts_thread_id s), ts_conversation := trim_space (ts_conversation s)\<rparr>) t)"
    if "trim_space (ts_thread_id s) \<noteq> []" "trim_space (ts_conversation s) \<noteq> []" for s
    using assms(1) unfolding thread_table_ok_def
    by (intro conjI distinct_table_upsert allI impI, simp)
       (erule table_upsert_all [where P = row_ok], blast, simp_all add: row_ok_def that)
  show ?thesis
    using assms keep by (auto simp: thread_upsert_def Let_def split: option.splits if_splits)
qed

lemma update_cursor_keys:
  "map fst (map (\<lambda>(k, row). (k, if k = kk then f row else row)) t) = map fst t"
  by (induction t) auto

lemma map_of_update_cursor:
  "map_of (map (\<lambda>(k, row). (k, if k = kk then f row else row)) t) =
     (\<lambda>k. if k = kk then map_option f (map_of t k) else map_of t k)"
  by (induction t) auto

lemma thread_update_cursor_ok:
  assumes "thread_table_ok t" and "thread_update_cursor dberr (Some t) login th seq ts = (e, db)"
  shows "\<exists>t'. db = Some t' \<and> thread_table_ok t'"
proof -
  have "thread_table_ok (map (\<lambda>(k, row). (k, if k = kk then row\<lparr>ts_last_seq := seq, ts_last_ts := ts\<rparr> else row)) t)"
    for kk
    using assms(1) unfolding thread_table_ok_def update_cursor_keys
    by (auto simp: row_ok_def split: if_splits)
  then show ?thesis
    using assms by (auto simp: thread_update_cursor_def Let_def split: option.splits if_splits)
qed

text \<open>The cursor a thread has in the table.\<close>

definition cursor_of :: "thread_table \<Rightarrow> string \<Rightarrow> string \<Rightarrow> (string \<times> int) option" where
  "cursor_of t login thread = map_option (\<lambda>r. (ts_last_seq r, ts_last_ts r)) (map_of t (login, thread))"

lemma cursor_of_upsert:
  assumes "thread_upsert dberr (Some t) login st = (e, Some t')" and "cursor_of t l th = Some c"
  shows "cursor_of t' l th = Some c"
  using assms
  by (auto simp: thread_upsert_def cursor_of_def Let_def split: option.splits if_splits)

lemma cursor_of_update_cursor:
  assumes "thread_update_cursor dberr (Some t) login th seq ts = (None, Some t')"
  shows "cursor_of t' login th' =
    (if th' = trim_space th then map_option (\<lambda>_. (seq, ts)) (cursor_of t login th') else cursor_of t login th')"
  using assms
  by (auto simp: thread_update_cursor_def cursor_of_def map_of_update_cursor Let_def option.map_comp comp_def
      split: option.splits if_splits)

section \<open>Read positions\<close>

type_synonym horizon_key = "string \<times> string \<times> string"
type_synonym horizon_table = "(horizon_key \<times> int) list"

definition horizon_get ::
  "go_error option \<Rightarrow> horizon_table option \<Rightarrow> horizon_key \<Rightarrow> go_error + int option" where
  "horizon_get dberr db k =
     (case db of
        None \<Rightarrow> Inl err_missing_db
      | Some t \<Rightarrow>
          (case k of (login, thread0, user0) \<Rightarrow>
             (let thread = trim_space thread0; user = trim_space user0 in
              if thread = [] \<or> user = [] then Inr None
              else case dberr of Some e \<Rightarrow> Inl e | None \<Rightarrow> Inr (map_of t (login, thread, user)))))"

definition horizon_upsert ::
  "go_error option \<Rightarrow> horizon_table option \<Rightarrow> horizon_key \<Rightarrow> int \<Rightarrow> go_error option \<times> horizon_table option" where
  "horizon_upsert dberr db k last_read =
     (case db of
        None \<Rightarrow> (Some err_missing_db, db)
      | Some t \<Rightarrow>
          (case k of (login, thread0, user0) \<Rightarrow>
             (let thread = trim_space thread0; user = trim_space user0 in
              if thread = [] \<or> user = [] then (Some (Plain ''missing thread id or teams user id''), db)
              else case dberr of
                     Some e \<Rightarrow> (Some e, db)
                   | None \<Rightarrow> (None, Some (table_upsert (\<lambda>_. last_read) (login, thread, user) last_read t)))))"

text \<open>Keys as the callers pass them: trimmed, and none of them empty.\<close>

definition horizon_key_ok :: "horizon_key \<Rightarrow> bool" where
  "horizon_key_ok k \<longleftrightarrow> (case k of (_, th, u) \<Rightarrow> trim_space th = th \<and> trim_space u = u \<and> th \<noteq> [] \<and> u \<noteq> [])"

definition horizon_lookup :: "horizon_table \<Rightarrow> horizon_key \<Rightarrow> int option" where
  "horizon_lookup t k = (case horizon_get None (Some t) k of Inr v \<Rightarrow> v | Inl _ \<Rightarrow> None)"

definition horizon_put :: "horizon_table \<Rightarrow> horizon_key \<Rightarrow> int \<Rightarrow> horizon_table" where
  "horizon_put t k v = (if horizon_key_ok k then the (snd (horizon_upsert None (Some t) k v)) else t)"

lemma horizon_put_map:
  "horizon_key_ok k \<Longrightarrow> map_of (horizon_put t k v) = (map_of t)(k \<mapsto> v)"
  by (cases k) (auto simp: horizon_put_def horizon_upsert_def horizon_key_ok_def Let_def split: option.splits)

lemma horizon_lookup_ok: "horizon_key_ok k \<Longrightarrow> horizon_lookup t k = map_of t k"
  by (cases k) (auto simp: horizon_lookup_def horizon_get_def horizon_key_ok_def Let_def)

text \<open>On trimmed keys the table is a keyed store.\<close>

definition horizon_read :: "horizon_table \<Rightarrow> horizon_key \<Rightarrow> int option" where
  "horizon_read t k = (if horizon_key_ok k then horizon_lookup t k else None)"

interpretation horizon_db: kv_store horizon_read horizon_put horizon_key_ok
proof unfold_locales
  show "horizon_read (horizon_put t k v) k = Some v" if "horizon_key_ok k" for t k v
    using that by (simp add: horizon_read_def horizon_lookup_ok horizon_put_map)
  show "horizon_read (horizon_put t k v) k' = horizon_read t k'" if "k' \<noteq> k" for t k k' v
    using that by (cases "horizon_key_ok k")
      (auto simp: horizon_read_def horizon_lookup_ok horizon_put_map, simp add: horizon_put_def)
qed

section \<open>Profiles\<close>

text \<open>Last-seen times are stored as Unix milliseconds; SQL null is no time.\<close>

record profile =
  prof_user_id :: string
  prof_name :: string
  prof_last_seen :: gotime

type_synonym profile_table = "(string \<times> (string \<times> int option)) list"

definition profile_scan :: "string \<Rightarrow> string \<times> int option \<Rightarrow> profile" where
  "profile_scan u row =
     \<lparr>prof_user_id = u, prof_name = fst row,
      prof_last_seen = (case snd row of Some ms \<Rightarrow> of_unix_milli ms | None \<Rightarrow> zero_time)\<rparr>"

definition profile_get ::
  "go_error option \<Rightarrow> profile_table option \<Rightarrow> string \<Rightarrow> go_error + profile option" where
  "profile_get dberr db user0 =
     (case db of
        None \<Rightarrow> Inl err_missing_db
      | Some t \<Rightarrow>
          (let user = trim_space user0 in
           if user = [] then Inr None
           else case dberr of Some e \<Rightarrow> Inl e
                | None \<Rightarrow> Inr (map_option (profile_scan user) (map_of t user))))"

definition profile_upsert ::
  "go_error option \<Rightarrow> profile_table option \<Rightarrow> string \<Rightarrow> string \<Rightarrow> gotime \<Rightarrow> go_error option \<times> profile_table option" where
  "profile_upsert dberr db user0 name0 seen =
     (case db of
        None \<Rightarrow> (Some err_missing_db, db)
      | Some t \<Rightarrow>
          (let user = trim_space user0; name = trim_space name0 in
           if user = [] \<or> name = [] then (None, db)
           else case dberr of
                  Some e \<Rightarrow> (Some e, db)
                | None \<Rightarrow>
                    (let row = (name, Some (unix_milli seen)) in
                     (None, Some (table_upsert (\<lambda>_. row) user row t)))))"

definition profile_list_user_ids :: "go_error option \<Rightarrow> profile_table option \<Rightarrow> go_error + string list" where
  "profile_list_user_ids dberr db =
     (case db of
        None \<Rightarrow> Inl err_missing_db
      | Some t \<Rightarrow> (case dberr of Some e \<Rightarrow> Inl e | None \<Rightarrow> Inr (filter (\<lambda>i. trim_space i \<noteq> []) (map fst t))))"

definition profile_list :: "go_error option \<Rightarrow> profile_table option \<Rightarrow> go_error + profile list" where
  "profile_list dberr db =
     (case db of
        None \<Rightarrow> Inl err_missing_db
      | Some t \<Rightarrow> (case dberr of Some e \<Rightarrow> Inl e | None \<Rightarrow> Inr (map (\<lambda>(u, row). profile_scan u row) t)))"

lemma profile_get_upsert:
  assumes "profile_upsert None (Some t) u name seen = (e, Some t')"
    and "trim_space u \<noteq> []" and "trim_space name \<noteq> []"
  shows "profile_get None (Some t') u =
    Inr (Some \<lparr>prof_user_id = trim_space u, prof_name = trim_space name,
               prof_last_seen = of_unix_milli (unix_milli seen)\<rparr>)"
  using assms
  by (auto simp: profile_upsert_def profile_get_def profile_scan_def Let_def split: option.splits)

text \<open>An empty name never replaces a stored one, and no upsert ever stores one.\<close>

lemma profile_upsert_no_name:
  "trim_space name = [] \<Longrightarrow> profile_upsert dberr (Some t) u name seen = (None, Some t)"
  by (simp add: profile_upsert_def Let_def)

section \<open>Properties\<close>

text \<open>The row an upsert of \<open>st\<close> leaves: the IDs trimmed, and the cursor of the row that was there.\<close>

definition upserted_row :: "thread_state option \<Rightarrow> thread_state \<Rightarrow> thread_state" where
  "upserted_row old st =
     (let row = st\<lparr>ts_thread_id := trim_space (ts_thread_id st), ts_conversation := trim_space (ts_conversation st)\<rparr> in
      case old of None \<Rightarrow> row | Some r \<Rightarrow> row\<lparr>ts_last_seq := ts_last_seq r, ts_last_ts := ts_last_ts r\<rparr>)"

text \<open>What is written to the thread table is read back: an upsert with both IDs keeps the table
  well formed and the row read under its ID is the one written, but for the cursor, which an upsert never
  changes on a row that exists; updating the cursor changes exactly the cursor of that row; and no
  other row changes.\<close>

lemma thread_rows_roundtrip:
  assumes "thread_table_ok t" and "trim_space (ts_thread_id st) \<noteq> []" and "trim_space (ts_conversation st) \<noteq> []"
  shows "\<exists>t1 t2. thread_upsert None (Some t) login (Some st) = (None, Some t1) \<and> thread_table_ok t1 \<and>
    thread_get None (Some t1) login (ts_thread_id st) =
      Inr (Some (upserted_row (map_of t (login, trim_space (ts_thread_id st))) st)) \<and>
    thread_update_cursor None (Some t1) login (ts_thread_id st) seq ts = (None, Some t2) \<and> thread_table_ok t2 \<and>
    thread_get None (Some t2) login (ts_thread_id st) =
      Inr (Some ((upserted_row (map_of t (login, trim_space (ts_thread_id st))) st)\<lparr>ts_last_seq := seq, ts_last_ts := ts\<rparr>)) \<and>
    (\<forall>l th. (l, trim_space th) \<noteq> (login, trim_space (ts_thread_id st)) \<longrightarrow>
       thread_get None (Some t1) l th = thread_get None (Some t) l th \<and>
       thread_get None (Some t2) l th = thread_get None (Some t) l th)"
proof -
  let ?k = "(login, trim_space (ts_thread_id st))"
  obtain t1 where up: "thread_upsert None (Some t) login (Some st) = (None, Some t1)"
    using assms(2,3) by (simp add: thread_upsert_def Let_def)
  have ok1: "thread_table_ok t1" using thread_upsert_ok [OF assms(1) up] by simp
  have m1: "map_of t1 = (map_of t)(?k \<mapsto> upserted_row (map_of t ?k) st)"
    using up assms(1-3) by (auto simp: thread_upsert_def upserted_row_def Let_def thread_table_ok_def row_ok_def
        dest!: map_of_SomeD split: option.splits if_splits)
  obtain t2 where cur: "thread_update_cursor None (Some t1) login (ts_thread_id st) seq ts = (None, Some t2)"
    using assms(2) by (simp add: thread_update_cursor_def Let_def)
  have ok2: "thread_table_ok t2" using thread_update_cursor_ok [OF ok1 cur] by simp
  have m2: "map_of t2 = (\<lambda>k. if k = ?k then map_option (\<lambda>r. r\<lparr>ts_last_seq := seq, ts_last_ts := ts\<rparr>) (map_of t1 k) else map_of t1 k)"
    using cur assms(2) by (auto simp: thread_update_cursor_def Let_def map_of_update_cursor)
  show ?thesis
    using up ok1 cur ok2 assms(2) by (auto simp: thread_get_def Let_def m1 m2)
qed

lemma thread_rows_roundtrip_example:
  "\<exists>t1. thread_upsert None (Some []) ''l''
      (Some \<lparr>ts_thread_id = ''t'', ts_conversation = ''c'', ts_one_to_one = True, ts_name = ''n'', ts_last_seq = ''1'', ts_last_ts = 1\<rparr>) =
      (None, Some t1) \<and>
    thread_get None (Some t1) ''l'' ''t'' = Inr (Some \<lparr>ts_thread_id = ''t'', ts_conversation = ''c'', ts_one_to_one = True,
      ts_name = ''n'', ts_last_seq = ''1'', ts_last_ts = 1\<rparr>)"
proof -
  have trims: "trim_space ''t'' = ''t''" "trim_space ''c'' = ''c''"
    by (simp_all add: trim_space_plain plain_ends_def)
  let ?st = "\<lparr>ts_thread_id = ''t'', ts_conversation = ''c'', ts_one_to_one = True, ts_name = ''n'', ts_last_seq = ''1'', ts_last_ts = 1\<rparr>"
  have ids: "ts_thread_id ?st = ''t''" "ts_conversation ?st = ''c''" "upserted_row None ?st = ?st"
    by (simp_all add: upserted_row_def trims)
  have "thread_table_ok []" "trim_space (ts_thread_id ?st) \<noteq> []" "trim_space (ts_conversation ?st) \<noteq> []"
    by (simp_all add: thread_table_ok_def trims)
  from thread_rows_roundtrip [OF this, of "''l''"] show ?thesis
    unfolding ids trims map_of.simps(1) by blast
qed

end
