(* ===== verification/Cursor_Commit.thy ===== *)
theory Cursor_Commit
  imports Teams_Message Thread_Store
begin

text \<open>
  Saving a thread's poll cursor once bridgev2 has handled what the poll queued
  (pkg/connector/cursor_commit.go): the positions kept in memory (\<open>threadCursors\<close>), the
  count of a page's unhandled events (\<open>cursorCommit\<close>), and the run of both against the
  thread table as events are queued, handled and dropped in any order.
\<close>

section \<open>Positions\<close>

record cursor_pos =
  cp_seq :: string
  cp_ts :: int

definition newer_than :: "cursor_pos \<Rightarrow> string \<Rightarrow> bool" where
  "newer_than p other \<longleftrightarrow> cp_seq p \<noteq> [] \<and> (other = [] \<or> 0 < compare_sequence_id (cp_seq p) other)"

record thread_cursors =
  tc_queued :: "string \<rightharpoonup> cursor_pos"
  tc_saved :: "string \<rightharpoonup> string"

definition no_cursors :: thread_cursors where
  "no_cursors = \<lparr>tc_queued = Map.empty, tc_saved = Map.empty\<rparr>"

definition cursor_pending :: "thread_cursors \<Rightarrow> string \<Rightarrow> cursor_pos option" where
  "cursor_pending tc thread = tc_queued tc thread"

definition note_queued :: "thread_cursors \<Rightarrow> string \<Rightarrow> cursor_pos \<Rightarrow> thread_cursors" where
  "note_queued tc thread pos =
     (case tc_queued tc thread of
        Some prev \<Rightarrow> if \<not> newer_than pos (cp_seq prev) then tc
                      else tc\<lparr>tc_queued := (tc_queued tc)(thread \<mapsto> pos)\<rparr>
      | None \<Rightarrow> tc\<lparr>tc_queued := (tc_queued tc)(thread \<mapsto> pos)\<rparr>)"

text \<open>A map lookup in Go gives the empty string where there is no entry.\<close>

definition saved_seq :: "thread_cursors \<Rightarrow> string \<Rightarrow> string" where
  "saved_seq tc thread = (case tc_saved tc thread of Some s \<Rightarrow> s | None \<Rightarrow> [])"

definition needs_save :: "thread_cursors \<Rightarrow> string \<Rightarrow> cursor_pos \<Rightarrow> bool" where
  "needs_save tc thread pos = newer_than pos (saved_seq tc thread)"

definition note_saved :: "thread_cursors \<Rightarrow> string \<Rightarrow> cursor_pos \<Rightarrow> thread_cursors" where
  "note_saved tc thread pos =
     (let tc1 = tc\<lparr>tc_saved := (tc_saved tc)(thread \<mapsto> cp_seq pos)\<rparr> in
      case tc_queued tc1 thread of
        Some q \<Rightarrow> if \<not> newer_than q (cp_seq pos)
                   then tc1\<lparr>tc_queued := (tc_queued tc1)(thread := None)\<rparr> else tc1
      | None \<Rightarrow> tc1)"

definition cursor_forget :: "thread_cursors \<Rightarrow> string \<Rightarrow> thread_cursors" where
  "cursor_forget tc thread =
     tc\<lparr>tc_queued := (tc_queued tc)(thread := None), tc_saved := (tc_saved tc)(thread := None)\<rparr>"

text \<open>\<open>saveCursor\<close>, for a client with its database.\<close>

definition save_cursor ::
  "go_error option \<Rightarrow> string \<Rightarrow> string \<Rightarrow> cursor_pos \<Rightarrow> thread_cursors \<times> thread_table option \<Rightarrow>
   thread_cursors \<times> thread_table option" where
  "save_cursor dberr login thread pos s =
     (case s of (tc, db) \<Rightarrow>
        if db = None then (tc, db)
        else if \<not> needs_save tc thread pos then (tc, db)
        else (case thread_update_cursor dberr db login thread (cp_seq pos) (cp_ts pos) of
                (Some e, db') \<Rightarrow> (tc, db')
              | (None, db') \<Rightarrow> (note_saved tc thread pos, db')))"

lemma saved_note_saved [simp]: "tc_saved (note_saved tc th pos) = (tc_saved tc)(th \<mapsto> cp_seq pos)"
  by (auto simp: note_saved_def Let_def split: option.splits)

lemma saved_note_queued [simp]: "tc_saved (note_queued tc th pos) = tc_saved tc"
  by (auto simp: note_queued_def split: option.splits)

lemma newer_than_self [simp]: "\<not> newer_than p (cp_seq p)"
  by (auto simp: newer_than_def)

text \<open>What is queued and not saved is newer than what is saved.\<close>

definition cursors_ok :: "thread_cursors \<Rightarrow> bool" where
  "cursors_ok tc \<longleftrightarrow>
     (\<forall>th q. tc_queued tc th = Some q \<longrightarrow> tc_saved tc th \<noteq> None \<longrightarrow> newer_than q (saved_seq tc th))"

lemma queued_note_queued:
  "tc_queued (note_queued tc th pos) =
     (if case tc_queued tc th of Some prev \<Rightarrow> newer_than pos (cp_seq prev) | None \<Rightarrow> True
      then (tc_queued tc)(th \<mapsto> pos) else tc_queued tc)"
  by (auto simp: note_queued_def split: option.splits)

lemma queued_note_saved:
  "tc_queued (note_saved tc th pos) th' =
     (if th' = th then (case tc_queued tc th of Some q \<Rightarrow> if newer_than q (cp_seq pos) then Some q else None
                        | None \<Rightarrow> None)
      else tc_queued tc th')"
  by (auto simp: note_saved_def Let_def split: option.splits)

lemma saved_seq_note_saved [simp]:
  "saved_seq (note_saved tc th pos) th' = (if th' = th then cp_seq pos else saved_seq tc th')"
  by (simp add: saved_seq_def)

lemma saved_seq_note_queued [simp]: "saved_seq (note_queued tc th pos) = saved_seq tc"
  by (rule ext) (simp add: saved_seq_def)

lemma cursors_ok_note_saved: "cursors_ok tc \<Longrightarrow> cursors_ok (note_saved tc th pos)"
  by (auto simp: cursors_ok_def queued_note_saved split: if_splits option.splits)

lemma cursors_ok_note_queued:
  "cursors_ok tc \<Longrightarrow> newer_than pos (saved_seq tc th) \<Longrightarrow> cursors_ok (note_queued tc th pos)"
  by (auto simp: cursors_ok_def queued_note_queued split: if_splits)

lemma cursors_ok_forget: "cursors_ok tc \<Longrightarrow> cursors_ok (cursor_forget tc th)"
  by (auto simp: cursors_ok_def cursor_forget_def saved_seq_def)

text \<open>A save moves the saved position forward or leaves it.\<close>

lemma save_cursor_saved:
  "save_cursor dberr login th pos (tc, db) = (tc', db') \<Longrightarrow>
   tc' = tc \<or> (needs_save tc th pos \<and> tc' = note_saved tc th pos)"
  by (auto simp: save_cursor_def split: prod.splits option.splits if_splits)

section \<open>Counting a page's events\<close>

record cursor_commit =
  cc_pending :: int
  cc_save :: "(string \<times> cursor_pos) option"

definition new_cursor_commit :: cursor_commit where
  "new_cursor_commit = \<lparr>cc_pending = 1, cc_save = None\<rparr>"

definition commit_track :: "cursor_commit \<Rightarrow> cursor_commit" where
  "commit_track cc = cc\<lparr>cc_pending := cc_pending cc + 1\<rparr>"

text \<open>
  What a \<open>done\<close> comes to: nothing yet, the page's save, or the call of a nil function,
  which would be a panic.
\<close>

datatype done_outcome = StillPending | RunSave string cursor_pos | NilSave

definition commit_done :: "cursor_commit \<Rightarrow> cursor_commit \<times> done_outcome" where
  "commit_done cc =
     (let cc' = cc\<lparr>cc_pending := cc_pending cc - 1\<rparr> in
      (cc', if cc_pending cc' = 0
            then (case cc_save cc' of Some (th, pos) \<Rightarrow> RunSave th pos | None \<Rightarrow> NilSave)
            else StillPending))"

definition commit_release :: "cursor_commit \<Rightarrow> string \<Rightarrow> cursor_pos \<Rightarrow> cursor_commit \<times> done_outcome" where
  "commit_release cc thread pos = commit_done (cc\<lparr>cc_save := Some (thread, pos)\<rparr>)"

section \<open>Pages, events and the thread table\<close>

text \<open>
  One event queued with \<open>queueForCursor\<close>: its page, whether bridgev2 took it on the
  portal's queue (\<open>res.Queued\<close>), whether its hook has run (\<open>sync.Once\<close>), and whether bridgev2 dropped it, taking it off
  the queue without ever calling the hook.
\<close>

record page_hook =
  hk_page :: nat
  hk_queued :: bool
  hk_fired :: bool
  hk_dropped :: bool

text \<open>
  The world: pages by number with their thread, the hooks in the order their events were
  queued, and a log of the saves that ran.
\<close>

record cursor_world =
  cw_cursors :: thread_cursors
  cw_db :: "thread_table option"
  cw_threads :: "string list"
  cw_commits :: "cursor_commit list"
  cw_hooks :: "page_hook list"
  cw_log :: "(nat \<times> string \<times> cursor_pos) list"
  cw_panicked :: bool

definition cursor_start :: "thread_table \<Rightarrow> cursor_world" where
  "cursor_start t = \<lparr>cw_cursors = no_cursors, cw_db = Some t, cw_threads = [], cw_commits = [],
     cw_hooks = [], cw_log = [], cw_panicked = False\<rparr>"

definition world_settle ::
  "go_error option \<Rightarrow> string \<Rightarrow> nat \<Rightarrow> cursor_commit \<times> done_outcome \<Rightarrow> cursor_world \<Rightarrow> cursor_world" where
  "world_settle dberr login p r w =
     (let w1 = w\<lparr>cw_commits := (cw_commits w)[p := fst r]\<rparr> in
      case snd r of
        StillPending \<Rightarrow> w1
      | NilSave \<Rightarrow> w1\<lparr>cw_panicked := True\<rparr>
      | RunSave th pos \<Rightarrow>
          (case save_cursor dberr login th pos (cw_cursors w1, cw_db w1) of
             (tc, db) \<Rightarrow> w1\<lparr>cw_cursors := tc, cw_db := db, cw_log := cw_log w1 @ [(p, th, pos)]\<rparr>))"

definition world_open :: "string \<Rightarrow> cursor_world \<Rightarrow> cursor_world" where
  "world_open thread w =
     w\<lparr>cw_threads := cw_threads w @ [thread], cw_commits := cw_commits w @ [new_cursor_commit]\<rparr>"

definition world_track :: "nat \<Rightarrow> bool \<Rightarrow> cursor_world \<Rightarrow> cursor_world" where
  "world_track p queued w =
     w\<lparr>cw_commits := (cw_commits w)[p := commit_track (cw_commits w ! p)],
       cw_hooks := cw_hooks w @ [\<lparr>hk_page = p, hk_queued = queued, hk_fired = False, hk_dropped = False\<rparr>]\<rparr>"

definition world_fire :: "go_error option \<Rightarrow> string \<Rightarrow> nat \<Rightarrow> cursor_world \<Rightarrow> cursor_world" where
  "world_fire dberr login h w =
     (if hk_fired (cw_hooks w ! h) then w
      else (let p = hk_page (cw_hooks w ! h);
                w1 = w\<lparr>cw_hooks := (cw_hooks w)[h := (cw_hooks w ! h)\<lparr>hk_fired := True\<rparr>]\<rparr> in
            world_settle dberr login p (commit_done (cw_commits w1 ! p)) w1))"

text \<open>\<open>queueForCursor\<close>: an event that was not queued is finished with at once.\<close>

definition queue_for_cursor :: "go_error option \<Rightarrow> string \<Rightarrow> nat \<Rightarrow> bool \<Rightarrow> cursor_world \<Rightarrow> cursor_world" where
  "queue_for_cursor dberr login p queued w =
     (let w1 = world_track p queued w in
      if queued then w1 else world_fire dberr login (length (cw_hooks w)) w1)"

text \<open>The release half of \<open>advancePageCursor\<close>.\<close>

definition world_release :: "go_error option \<Rightarrow> string \<Rightarrow> nat \<Rightarrow> cursor_pos \<Rightarrow> cursor_world \<Rightarrow> cursor_world" where
  "world_release dberr login p pos w =
     (let th = cw_threads w ! p;
          w1 = w\<lparr>cw_cursors := note_queued (cw_cursors w) th pos\<rparr> in
      world_settle dberr login p (commit_release (cw_commits w1 ! p) th pos) w1)"

definition world_drop :: "nat \<Rightarrow> cursor_world \<Rightarrow> cursor_world" where
  "world_drop h w = w\<lparr>cw_hooks := (cw_hooks w)[h := (cw_hooks w ! h)\<lparr>hk_dropped := True\<rparr>]\<rparr>"

definition world_forget :: "string \<Rightarrow> cursor_world \<Rightarrow> cursor_world" where
  "world_forget th w = w\<lparr>cw_cursors := cursor_forget (cw_cursors w) th\<rparr>"

datatype cursor_event =
    Open_Page string
  | Queue_Event nat bool "go_error option"
  | Release_Page nat cursor_pos "go_error option"
  | Handled nat "go_error option"
  | Dropped nat
  | Forget_Thread string

text \<open>
  One event, where the code allows it.  A page is opened for a thread of the thread table
  (\<open>ListForLogin\<close>).  The poll loop is the only one that opens, fills and releases pages, one after the other, so only the newest page takes events and a page is
  released once, with a position the page holds newer messages for (\<open>maxSeq\<close> is not empty).
  With \<open>fifo\<close>, a portal's event loop takes the events it was given in their order,
  which is bridgev2's default; without, in any order (\<open>bridge.async_events\<close>).  An event taken is handled, and its hook
  called, or dropped: then its hook never runs.
\<close>

definition in_turn :: "nat \<Rightarrow> cursor_world \<Rightarrow> bool" where
  "in_turn h w \<longleftrightarrow> (\<forall>h' < h. cw_threads w ! hk_page (cw_hooks w ! h') = cw_threads w ! hk_page (cw_hooks w ! h) \<longrightarrow>
     hk_fired (cw_hooks w ! h') \<or> hk_dropped (cw_hooks w ! h'))"

fun cursor_apply :: "bool \<Rightarrow> string \<Rightarrow> cursor_event \<Rightarrow> cursor_world \<Rightarrow> cursor_world option" where
  "cursor_apply fifo login (Open_Page th) w =
     (if Option.bind (cw_db w) (\<lambda>t. map_of t (login, th)) \<noteq> None then Some (world_open th w) else None)"
| "cursor_apply fifo login (Queue_Event p queued dberr) w =
     (if Suc p = length (cw_commits w) \<and> cc_save (cw_commits w ! p) = None
      then Some (queue_for_cursor dberr login p queued w) else None)"
| "cursor_apply fifo login (Release_Page p pos dberr) w =
     (if Suc p = length (cw_commits w) \<and> cc_save (cw_commits w ! p) = None \<and> cp_seq pos \<noteq> []
      then Some (world_release dberr login p pos w) else None)"
| "cursor_apply fifo login (Handled h dberr) w =
     (if h < length (cw_hooks w) \<and> \<not> hk_dropped (cw_hooks w ! h) \<and> (fifo \<longrightarrow> in_turn h w)
      then Some (world_fire dberr login h w) else None)"
| "cursor_apply fifo login (Dropped h) w =
     (if h < length (cw_hooks w) \<and> \<not> hk_fired (cw_hooks w ! h) \<and> (fifo \<longrightarrow> in_turn h w)
      then Some (world_drop h w) else None)"
| "cursor_apply fifo login (Forget_Thread th) w = Some (world_forget th w)"

fun cursor_run :: "bool \<Rightarrow> string \<Rightarrow> cursor_event list \<Rightarrow> cursor_world \<Rightarrow> cursor_world option" where
  "cursor_run fifo login [] w = Some w"
| "cursor_run fifo login (e # es) w = Option.bind (cursor_apply fifo login e w) (cursor_run fifo login es)"

inductive cursor_step :: "bool \<Rightarrow> string \<Rightarrow> cursor_world \<Rightarrow> cursor_world \<Rightarrow> bool" for fifo login where
  "cursor_apply fifo login e w = Some w' \<Longrightarrow> cursor_step fifo login w w'"

inductive_cases cursor_stepE: "cursor_step fifo login w w'"

section \<open>Every page is saved once, after its last event\<close>

definition unfired :: "cursor_world \<Rightarrow> nat \<Rightarrow> nat" where
  "unfired w p = length (filter (\<lambda>h. hk_page h = p \<and> \<not> hk_fired h) (cw_hooks w))"

definition logged :: "cursor_world \<Rightarrow> nat \<Rightarrow> nat" where
  "logged w p = length (filter (\<lambda>(q, _). q = p) (cw_log w))"

text \<open>The count of page \<open>p\<close> is off by \<open>d\<close>, and its save has run if it was due.\<close>

definition page_off :: "int \<Rightarrow> cursor_world \<Rightarrow> nat \<Rightarrow> bool" where
  "page_off d w p \<longleftrightarrow>
     cc_pending (cw_commits w ! p) = d + (if cc_save (cw_commits w ! p) = None then 1 else 0) + int (unfired w p)"

definition page_inv :: "cursor_world \<Rightarrow> nat \<Rightarrow> bool" where
  "page_inv w p \<longleftrightarrow> page_off 0 w p \<and>
     logged w p = (if cc_save (cw_commits w ! p) \<noteq> None \<and> unfired w p = 0 then 1 else 0)"

definition log_ok :: "cursor_world \<Rightarrow> bool" where
  "log_ok w \<longleftrightarrow> (\<forall>p th pos. (p, th, pos) \<in> set (cw_log w) \<longrightarrow>
     p < length (cw_commits w) \<and> cc_save (cw_commits w ! p) = Some (th, pos) \<and> th = cw_threads w ! p)"

definition hooks_ok :: "cursor_world \<Rightarrow> bool" where
  "hooks_ok w \<longleftrightarrow> length (cw_threads w) = length (cw_commits w) \<and>
     (\<forall>h \<in> set (cw_hooks w). hk_page h < length (cw_commits w)) \<and>
     sorted (map hk_page (cw_hooks w))"

definition commit_inv :: "cursor_world \<Rightarrow> bool" where
  "commit_inv w \<longleftrightarrow> \<not> cw_panicked w \<and> hooks_ok w \<and> log_ok w \<and> (\<forall>p < length (cw_commits w). page_inv w p)"

lemma filter_update_length:
  "i < length xs \<Longrightarrow> length (filter P (xs[i := y])) + (if P (xs ! i) then 1 else 0) =
     length (filter P xs) + (if P y then 1 else 0)"
proof (induction xs arbitrary: i)
  case (Cons x xs)
  then show ?case by (cases i) (auto split: if_splits)
qed simp

lemma settle_simps [simp]:
  "cw_threads (world_settle dberr login p r w) = cw_threads w"
  "cw_hooks (world_settle dberr login p r w) = cw_hooks w"
  "cw_commits (world_settle dberr login p r w) = (cw_commits w)[p := fst r]"
  "unfired (world_settle dberr login p r w) = unfired w"
  by (auto simp: world_settle_def unfired_def Let_def fun_eq_iff split: done_outcome.splits prod.splits)

lemma logged_settle:
  "logged (world_settle dberr login p r w) q =
     logged w q + (if q = p \<and> (\<exists>th pos. snd r = RunSave th pos) then 1 else 0)"
  by (cases "snd r") (simp_all add: world_settle_def logged_def Let_def split_beta)

lemma panicked_settle [simp]:
  "cw_panicked (world_settle dberr login p r w) \<longleftrightarrow> cw_panicked w \<or> snd r = NilSave"
  by (cases "snd r") (simp_all add: world_settle_def Let_def split_beta)

text \<open>
  The heart of it: a page whose count was one too high, and whose save had not run, is in
  order after \<open>done\<close>; the other pages are not touched.
\<close>

lemma settle_done_page:
  assumes "p < length (cw_commits w)" and "cw_commits w ! p = cc" and "page_off 1 w p" and "logged w p = 0"
  shows "page_inv (world_settle dberr login p (commit_done cc) w) p \<and>
         cw_panicked (world_settle dberr login p (commit_done cc) w) = cw_panicked w"
proof -
  have pend: "cc_pending cc = 1 + (if cc_save cc = None then 1 else 0) + int (unfired w p)"
    using assms(2,3) by (simp add: page_off_def)
  show ?thesis
    using assms pend
    by (cases "cc_save cc") (auto simp: page_inv_def page_off_def logged_settle commit_done_def Let_def)
qed

lemma settle_other_page:
  assumes "q \<noteq> p" and "page_inv w q"
  shows "page_inv (world_settle dberr login p r w) q"
  using assms by (auto simp: page_inv_def page_off_def logged_settle)

lemma settle_log:
  assumes "log_ok w" and "p < length (cw_commits w)" and "cw_commits w ! p = cc"
    and "cc_save cc = None \<or> (\<exists>pos. cc_save cc = Some (cw_threads w ! p, pos))"
  shows "log_ok (world_settle dberr login p (commit_done cc) w)"
  using assms
  by (auto simp: log_ok_def world_settle_def commit_done_def Let_def nth_list_update
      split: done_outcome.splits prod.splits if_splits option.splits)

lemma commit_inv_open: "commit_inv w \<Longrightarrow> commit_inv (world_open th w)"
proof -
  assume inv: "commit_inv w"
  let ?n = "length (cw_commits w)"
  have h: "\<forall>h \<in> set (cw_hooks w). hk_page h \<noteq> ?n" and l: "\<forall>(p, _) \<in> set (cw_log w). p \<noteq> ?n"
    using inv by (auto simp: commit_inv_def hooks_ok_def log_ok_def)
  have "filter (\<lambda>h. hk_page h = ?n \<and> \<not> hk_fired h) (cw_hooks w) = []"
    using h by (auto simp: filter_empty_conv)
  moreover have "filter (\<lambda>(q, _). q = ?n) (cw_log w) = []"
    using l by (auto simp: filter_empty_conv)
  ultimately have "page_inv (world_open th w) ?n"
    by (simp add: page_inv_def page_off_def world_open_def unfired_def logged_def new_cursor_commit_def)
  moreover have "page_inv (world_open th w) p" if "p < ?n" for p
    using inv that
    by (simp add: commit_inv_def page_inv_def page_off_def world_open_def unfired_def logged_def nth_append)
  ultimately show ?thesis
    using inv
    by (auto simp: commit_inv_def hooks_ok_def log_ok_def world_open_def nth_append less_Suc_eq)
qed

lemma commit_inv_track:
  assumes inv: "commit_inv w" and p: "Suc p = length (cw_commits w)" and unrel: "cc_save (cw_commits w ! p) = None"
  shows "commit_inv (world_track p queued w)"
proof -
  have "page_inv (world_track p queued w) q" if "q < length (cw_commits w)" for q
    using inv that unrel p
    by (cases "q = p")
       (auto simp: commit_inv_def page_inv_def page_off_def world_track_def unfired_def logged_def commit_track_def)
  moreover have "hooks_ok (world_track p queued w)"
    using inv p by (auto simp: commit_inv_def hooks_ok_def world_track_def sorted_append)
  moreover have "log_ok (world_track p queued w)"
    using inv p by (auto simp: commit_inv_def log_ok_def world_track_def commit_track_def nth_list_update)
  ultimately show ?thesis
    using inv by (simp add: commit_inv_def world_track_def)
qed

text \<open>A step that ends in \<open>done\<close> on page \<open>p\<close>.\<close>

lemma commit_inv_settle:
  assumes "\<not> cw_panicked w" and "hooks_ok w" and "log_ok w" and "p < length (cw_commits w)"
    and "\<And>q. q < length (cw_commits w) \<Longrightarrow> q \<noteq> p \<Longrightarrow> page_inv w q"
    and "page_off 1 w p" and "logged w p = 0" and "cw_commits w ! p = cc"
    and "cc_save cc = None \<or> (\<exists>pos. cc_save cc = Some (cw_threads w ! p, pos))"
  shows "commit_inv (world_settle dberr login p (commit_done cc) w)"
proof -
  have "page_inv (world_settle dberr login p (commit_done cc) w) q" if "q < length (cw_commits w)" for q
    using settle_done_page [OF assms(4,8,6,7)] settle_other_page assms(5) that by (cases "q = p") auto
  moreover have "hooks_ok (world_settle dberr login p (commit_done cc) w)"
    using assms(2) by (simp add: hooks_ok_def)
  moreover have "\<not> cw_panicked (world_settle dberr login p (commit_done cc) w)"
    using settle_done_page [OF assms(4,8,6,7)] assms(1) by simp
  ultimately show ?thesis
    using settle_log [OF assms(3,4,8,9)] by (simp add: commit_inv_def)
qed

definition save_ok :: "cursor_world \<Rightarrow> bool" where
  "save_ok w \<longleftrightarrow> (\<forall>p < length (cw_commits w). \<forall>th pos. cc_save (cw_commits w ! p) = Some (th, pos) \<longrightarrow>
     th = cw_threads w ! p \<and> cp_seq pos \<noteq> [])"

lemma commit_inv_fire:
  assumes inv: "commit_inv w" and save: "save_ok w" and h: "h < length (cw_hooks w)"
  shows "commit_inv (world_fire dberr login h w)"
proof (cases "hk_fired (cw_hooks w ! h)")
  case True
  then show ?thesis using inv by (simp add: world_fire_def)
next
  case False
  let ?p = "hk_page (cw_hooks w ! h)"
  let ?w = "w\<lparr>cw_hooks := (cw_hooks w)[h := (cw_hooks w ! h)\<lparr>hk_fired := True\<rparr>]\<rparr>"
  have p: "?p < length (cw_commits w)"
    using inv h by (auto simp: commit_inv_def hooks_ok_def)
  have upd: "unfired ?w q + (if q = ?p then 1 else 0) = unfired w q" for q
    using filter_update_length [OF h, where P = "\<lambda>x. hk_page x = q \<and> \<not> hk_fired x"
      and y = "(cw_hooks w ! h)\<lparr>hk_fired := True\<rparr>"] False
    by (auto simp: unfired_def)
  have pages: "map hk_page ((cw_hooks w)[h := (cw_hooks w ! h)\<lparr>hk_fired := True\<rparr>]) = map hk_page (cw_hooks w)"
    using h by (simp add: map_update list_update_same_conv)
  have "page_off 0 w ?p" "logged w ?p = (if cc_save (cw_commits w ! ?p) \<noteq> None \<and> unfired w ?p = 0 then 1 else 0)"
    using inv p by (auto simp: commit_inv_def page_inv_def)
  with upd [of ?p] have off: "page_off 1 ?w ?p" and lg: "logged ?w ?p = 0"
    by (auto simp: page_off_def logged_def)
  have hooks: "hooks_ok ?w"
    using inv p pages by (auto simp: commit_inv_def hooks_ok_def dest!: set_update_subset_insert [THEN subsetD])
  have other: "page_inv ?w q" if "q < length (cw_commits w)" "q \<noteq> ?p" for q
    using inv that upd [of q] by (auto simp: commit_inv_def page_inv_def page_off_def logged_def)
  have sv: "cc_save (cw_commits w ! ?p) = None \<or> (\<exists>pos. cc_save (cw_commits w ! ?p) = Some (cw_threads w ! ?p, pos))"
    using save p by (cases "cc_save (cw_commits w ! ?p)") (auto simp: save_ok_def split: option.splits)
  have "log_ok ?w" using inv by (simp add: commit_inv_def log_ok_def)
  then have "commit_inv (world_settle dberr login ?p (commit_done (cw_commits ?w ! ?p)) ?w)"
    using inv p hooks off lg other sv by (intro commit_inv_settle) (auto simp: commit_inv_def)
  then show ?thesis using False by (simp add: world_fire_def Let_def)
qed

lemma commit_inv_release:
  assumes inv: "commit_inv w" and p: "p < length (cw_commits w)" and unrel: "cc_save (cw_commits w ! p) = None"
  shows "commit_inv (world_release dberr login p pos w)"
proof -
  let ?th = "cw_threads w ! p"
  let ?cc = "(cw_commits w ! p)\<lparr>cc_save := Some (?th, pos)\<rparr>"
  let ?w = "w\<lparr>cw_cursors := note_queued (cw_cursors w) ?th pos, cw_commits := (cw_commits w)[p := ?cc]\<rparr>"
  have eq: "world_release dberr login p pos w = world_settle dberr login p (commit_done ?cc) ?w"
    by (auto simp: world_release_def commit_release_def world_settle_def Let_def
        split: done_outcome.splits prod.splits)
  have pi: "page_inv w p" using inv p by (simp add: commit_inv_def)
  have "commit_inv (world_settle dberr login p (commit_done ?cc) ?w)"
  proof (rule commit_inv_settle)
    show "log_ok ?w" using inv p unrel by (auto simp: commit_inv_def log_ok_def nth_list_update)
    show "page_off 1 ?w p" using pi p unrel by (simp add: page_inv_def page_off_def unfired_def)
    show "logged ?w p = 0" using pi unrel by (simp add: page_inv_def logged_def)
    show "page_inv ?w q" if "q < length (cw_commits ?w)" "q \<noteq> p" for q
      using inv that by (simp add: commit_inv_def page_inv_def page_off_def unfired_def logged_def)
  qed (use inv p in \<open>auto simp: commit_inv_def hooks_ok_def\<close>)
  then show ?thesis by (simp add: eq)
qed

lemma cc_save_done [simp]: "cc_save (fst (commit_done cc)) = cc_save cc"
  by (simp add: commit_done_def Let_def)

lemma cc_save_done_nth [simp]:
  "q < length ccs \<Longrightarrow> cc_save (ccs[p := fst (commit_done (ccs ! p))] ! q) = cc_save (ccs ! q)"
  by (cases "q = p") simp_all

lemma save_ok_settle: "save_ok w \<Longrightarrow> save_ok (world_settle dberr login p (commit_done (cw_commits w ! p)) w)"
  by (simp add: save_ok_def)

lemma save_ok_fire: "save_ok w \<Longrightarrow> save_ok (world_fire dberr login h w)"
  by (auto simp: world_fire_def Let_def intro!: save_ok_settle) (simp add: save_ok_def)

lemma save_ok_release:
  "save_ok w \<Longrightarrow> p < length (cw_commits w) \<Longrightarrow> cp_seq pos \<noteq> [] \<Longrightarrow> save_ok (world_release dberr login p pos w)"
  by (auto simp: save_ok_def world_release_def commit_release_def Let_def nth_list_update)

lemma save_ok_track: "save_ok w \<Longrightarrow> save_ok (world_track p queued w)"
proof -
  have "cc_save ((cw_commits w)[p := commit_track (cw_commits w ! p)] ! q) = cc_save (cw_commits w ! q)"
    if "q < length (cw_commits w)" for q
    using that by (cases "q = p") (simp_all add: commit_track_def)
  then show "save_ok w \<Longrightarrow> save_ok (world_track p queued w)"
    by (simp add: save_ok_def world_track_def)
qed

text \<open>The invariant of the run, and its preservation by every event.\<close>

definition world_inv :: "cursor_world \<Rightarrow> bool" where
  "world_inv w \<longleftrightarrow> commit_inv w \<and> save_ok w"

lemma world_inv_start: "world_inv (cursor_start t)"
  by (simp add: world_inv_def commit_inv_def hooks_ok_def log_ok_def save_ok_def cursor_start_def)

lemma world_inv_fire: "world_inv w \<Longrightarrow> h < length (cw_hooks w) \<Longrightarrow> world_inv (world_fire dberr login h w)"
  by (simp add: world_inv_def commit_inv_fire save_ok_fire)

lemma unfired_drop [simp]: "h < length (cw_hooks w) \<Longrightarrow> unfired (world_drop h w) p = unfired w p"
  using filter_update_length [of h "cw_hooks w" "\<lambda>x. hk_page x = p \<and> \<not> hk_fired x" "(cw_hooks w ! h)\<lparr>hk_dropped := True\<rparr>"]
  by (simp add: unfired_def world_drop_def split: if_splits)

lemma drop_simps [simp]:
  "cw_threads (world_drop h w) = cw_threads w" "cw_commits (world_drop h w) = cw_commits w"
  "cw_cursors (world_drop h w) = cw_cursors w" "cw_db (world_drop h w) = cw_db w"
  "cw_log (world_drop h w) = cw_log w" "cw_panicked (world_drop h w) = cw_panicked w"
  by (simp_all add: world_drop_def)

lemma drop_hooks:
  assumes "h < length (cw_hooks w)"
  shows "length (cw_hooks (world_drop h w)) = length (cw_hooks w)"
    "hk_page (cw_hooks (world_drop h w) ! k) = hk_page (cw_hooks w ! k)"
    "hk_queued (cw_hooks (world_drop h w) ! k) = hk_queued (cw_hooks w ! k)"
    "hk_fired (cw_hooks (world_drop h w) ! k) = hk_fired (cw_hooks w ! k)"
    "hk_dropped (cw_hooks (world_drop h w) ! k) \<longleftrightarrow> hk_dropped (cw_hooks w ! k) \<or> k = h"
  using assms by (cases "k = h"; simp add: world_drop_def)+

lemma drop_pages: "h < length (cw_hooks w) \<Longrightarrow> map hk_page (cw_hooks (world_drop h w)) = map hk_page (cw_hooks w)"
  by (intro nth_equalityI) (simp_all add: drop_hooks)

lemma world_inv_drop:
  assumes "world_inv w" and "h < length (cw_hooks w)"
  shows "world_inv (world_drop h w)"
proof -
  have "hk_page ` set (cw_hooks (world_drop h w)) = hk_page ` set (cw_hooks w)"
    using drop_pages [OF assms(2)] by (metis set_map)
  moreover have "hk_page ` set (cw_hooks w) \<subseteq> {..< length (cw_commits w)}"
    using assms(1) by (auto simp: world_inv_def commit_inv_def hooks_ok_def)
  ultimately have "\<forall>x \<in> set (cw_hooks (world_drop h w)). hk_page x < length (cw_commits w)" by blast
  then have "hooks_ok (world_drop h w)"
    using assms by (simp add: world_inv_def commit_inv_def hooks_ok_def drop_pages)
  moreover have "log_ok (world_drop h w) = log_ok w" "save_ok (world_drop h w) = save_ok w"
      "page_inv (world_drop h w) p = page_inv w p" for p
    using assms(2) by (simp_all add: log_ok_def save_ok_def page_inv_def page_off_def logged_def)
  ultimately show ?thesis using assms(1) by (simp add: world_inv_def commit_inv_def)
qed

lemma world_inv_queue:
  assumes "world_inv w" and "Suc p = length (cw_commits w)" and "cc_save (cw_commits w ! p) = None"
  shows "world_inv (queue_for_cursor dberr login p queued w)"
proof -
  have "world_inv (world_track p queued w)"
    using assms by (simp add: world_inv_def commit_inv_track save_ok_track)
  then show ?thesis
    using world_inv_fire [of "world_track p queued w" "length (cw_hooks w)" dberr login]
    by (cases queued) (simp_all add: queue_for_cursor_def world_track_def Let_def)
qed

lemma world_inv_apply: "world_inv w \<Longrightarrow> cursor_apply fifo login e w = Some w' \<Longrightarrow> world_inv w'"
proof (cases e)
  case (Open_Page th)
  assume "world_inv w" "cursor_apply fifo login e w = Some w'"
  then show ?thesis
    using Open_Page commit_inv_open [of w th]
    by (auto simp: world_inv_def split: if_splits) (auto simp: save_ok_def world_open_def nth_append new_cursor_commit_def
        commit_inv_def hooks_ok_def split: option.splits)
next
  case (Forget_Thread th)
  assume "world_inv w" "cursor_apply fifo login e w = Some w'"
  then show ?thesis
    using Forget_Thread
    by (auto simp: world_inv_def commit_inv_def hooks_ok_def log_ok_def save_ok_def world_forget_def
        page_inv_def page_off_def unfired_def logged_def)
qed (auto simp: world_inv_queue world_inv_fire world_inv_drop world_inv_def [of "world_release _ _ _ _ _"]
      commit_inv_release save_ok_release world_inv_def [of w] split: if_splits)

lemma world_inv_step: "world_inv w \<Longrightarrow> cursor_step fifo login w w' \<Longrightarrow> world_inv w'"
  by (elim cursor_stepE) (rule world_inv_apply)

interpretation cursor_sys: invariant_system "cursor_step fifo login" "cursor_start t" world_inv for fifo login t
  by unfold_locales (auto intro: world_inv_start world_inv_step)

lemma cursor_run_reach:
  "cursor_run fifo login es w = Some w' \<Longrightarrow> reach_from (cursor_step fifo login) s0 w \<Longrightarrow>
   reach_from (cursor_step fifo login) s0 w'"
proof (induction es arbitrary: w)
  case (Cons e es)
  then show ?case
    by (auto simp: bind_eq_Some_conv intro: Cons.IH reach_step cursor_step.intros)
qed simp

lemma cursor_run_append:
  "cursor_run fifo login (es @ es') w = Option.bind (cursor_run fifo login es w) (cursor_run fifo login es')"
proof (induction es arbitrary: w)
  case (Cons e es)
  then show ?case by (cases "cursor_apply fifo login e w") simp_all
qed simp

text \<open>What the invariant says of a page, in words of the run; an event is taken when it was handled or dropped.\<close>

definition released :: "cursor_world \<Rightarrow> nat \<Rightarrow> bool" where
  "released w p \<longleftrightarrow> cc_save (cw_commits w ! p) \<noteq> None"

definition all_handled :: "cursor_world \<Rightarrow> nat \<Rightarrow> bool" where
  "all_handled w p \<longleftrightarrow> (\<forall>h \<in> set (cw_hooks w). hk_page h = p \<longrightarrow> hk_fired h)"

definition all_taken :: "cursor_world \<Rightarrow> nat \<Rightarrow> bool" where
  "all_taken w p \<longleftrightarrow> (\<forall>h \<in> set (cw_hooks w). hk_page h = p \<longrightarrow> hk_fired h \<or> hk_dropped h)"

lemma unfired_zero: "unfired w p = 0 \<longleftrightarrow> all_handled w p"
  by (auto simp: unfired_def all_handled_def filter_empty_conv)

lemma world_inv_page:
  "world_inv w \<Longrightarrow> p < length (cw_commits w) \<Longrightarrow>
   logged w p = (if released w p \<and> all_handled w p then 1 else 0)"
  by (simp add: world_inv_def commit_inv_def page_inv_def released_def unfired_zero)

section \<open>Handling in order\<close>

definition fifo_inv :: "cursor_world \<Rightarrow> bool" where
  "fifo_inv w \<longleftrightarrow> (\<forall>h < length (cw_hooks w). hk_queued (cw_hooks w ! h) \<and> hk_fired (cw_hooks w ! h) \<longrightarrow> in_turn h w)"

lemma fifo_inv_drop:
  assumes "fifo_inv w" and "h < length (cw_hooks w)"
  shows "fifo_inv (world_drop h w)"
  using assms by (fastforce simp: fifo_inv_def in_turn_def drop_hooks)

lemma in_turn_settle [simp]: "in_turn h (world_settle dberr login p r w) = in_turn h w"
  by (simp add: in_turn_def)

lemma fifo_inv_fire:
  assumes "fifo_inv w" and "h < length (cw_hooks w)" and "in_turn h w \<or> \<not> hk_queued (cw_hooks w ! h)"
  shows "fifo_inv (world_fire dberr login h w)"
proof (cases "hk_fired (cw_hooks w ! h)")
  case True
  then show ?thesis using assms(1) by (simp add: world_fire_def)
next
  case False
  let ?hs = "(cw_hooks w)[h := (cw_hooks w ! h)\<lparr>hk_fired := True\<rparr>]"
  have same: "hk_page (?hs ! k) = hk_page (cw_hooks w ! k)" "hk_queued (?hs ! k) = hk_queued (cw_hooks w ! k)"
      "hk_dropped (?hs ! k) = hk_dropped (cw_hooks w ! k)"
    and mono: "hk_fired (cw_hooks w ! k) \<Longrightarrow> hk_fired (?hs ! k)" for k
    using assms(2) by (cases "k = h", simp_all)+
  have "in_turn k (w\<lparr>cw_hooks := ?hs\<rparr>)" if "in_turn k w" for k
    using that by (fastforce simp: in_turn_def same mono)
  moreover have "in_turn k w" if "k < length (cw_hooks w)" "hk_queued (?hs ! k)" "hk_fired (?hs ! k)" for k
    using that assms by (cases "k = h") (auto simp: fifo_inv_def)
  ultimately have "fifo_inv (w\<lparr>cw_hooks := ?hs\<rparr>)"
    by (simp add: fifo_inv_def)
  then have "fifo_inv (world_settle dberr login p r (w\<lparr>cw_hooks := ?hs\<rparr>))" for p r
    by (simp add: fifo_inv_def)
  then show ?thesis using False by (simp add: world_fire_def Let_def)
qed

lemma fifo_inv_track: "fifo_inv w \<Longrightarrow> fifo_inv (world_track p queued w)"
  by (auto simp: fifo_inv_def in_turn_def world_track_def nth_append less_Suc_eq)

lemma fifo_inv_queue:
  "fifo_inv w \<Longrightarrow> fifo_inv (queue_for_cursor dberr login p queued w)"
  using fifo_inv_fire [OF fifo_inv_track, of w "length (cw_hooks w)" p False dberr login]
  by (cases queued) (simp_all add: queue_for_cursor_def Let_def fifo_inv_track, simp add: world_track_def)

lemma fifo_inv_open: "hooks_ok w \<Longrightarrow> fifo_inv w \<Longrightarrow> fifo_inv (world_open th w)"
  by (simp add: fifo_inv_def in_turn_def world_open_def hooks_ok_def nth_append)

lemma fifo_inv_apply:
  assumes "world_inv w" and "fifo_inv w" and "cursor_apply True login e w = Some w'"
  shows "fifo_inv w'"
proof (cases e)
  case (Release_Page p pos dberr)
  then show ?thesis
    using assms by (fastforce simp: fifo_inv_def in_turn_def world_release_def Let_def split: if_splits)
next
  case (Forget_Thread th)
  then show ?thesis
    using assms by (fastforce simp: fifo_inv_def in_turn_def world_forget_def)
next
  case (Open_Page th)
  then show ?thesis
    using assms fifo_inv_open by (auto simp: world_inv_def commit_inv_def split: if_splits)
qed (use assms in \<open>auto simp: fifo_inv_queue fifo_inv_fire fifo_inv_drop split: if_splits\<close>)

lemma fifo_inv_start: "fifo_inv (cursor_start t)"
  by (simp add: fifo_inv_def cursor_start_def)

interpretation fifo_sys: invariant_system "cursor_step True login" "cursor_start t"
  "\<lambda>w. world_inv w \<and> fifo_inv w" for login t
  by unfold_locales
     (auto intro: world_inv_start world_inv_apply fifo_inv_start elim!: cursor_stepE dest: fifo_inv_apply)

lemma fifo_page_order:
  assumes inv: "world_inv w" "fifo_inv w" and p: "p < length (cw_commits w)" and fin: "all_handled w p"
    and q: "x \<in> set (cw_hooks w)" "hk_page x = p" "hk_queued x"
    and earlier: "p' \<le> p" "cw_threads w ! p' = cw_threads w ! p"
  shows "all_taken w p'"
  unfolding all_taken_def
proof (intro ballI impI)
  fix y assume y: "y \<in> set (cw_hooks w)" "hk_page y = p'"
  obtain h where h: "h < length (cw_hooks w)" "cw_hooks w ! h = x" using q(1) by (auto simp: in_set_conv_nth)
  obtain k where k: "k < length (cw_hooks w)" "cw_hooks w ! k = y" using y(1) by (auto simp: in_set_conv_nth)
  show "hk_fired y \<or> hk_dropped y"
  proof (cases "p' = p")
    case True
    then show ?thesis using fin y by (simp add: all_handled_def)
  next
    case False
    have "sorted (map hk_page (cw_hooks w))" using inv by (simp add: world_inv_def commit_inv_def hooks_ok_def)
    then have "k < h"
      using h k y(2) q(2) False earlier(1) sorted_nth_mono [of "map hk_page (cw_hooks w)" h k]
      by (cases "k < h") auto
    moreover have "in_turn h w"
      using inv(2) h q fin by (auto simp: fifo_inv_def all_handled_def)
    ultimately show ?thesis
      using h k y(2) q(2) earlier(2) by (auto simp: in_turn_def)
  qed
qed

section \<open>The saved position and the thread table\<close>

definition db_inv :: "string \<Rightarrow> cursor_world \<Rightarrow> bool" where
  "db_inv login w \<longleftrightarrow> (\<exists>t. cw_db w = Some t \<and> thread_table_ok t \<and>
     (\<forall>th \<in> set (cw_threads w). map_of t (login, th) \<noteq> None) \<and>
     (\<forall>th s. tc_saved (cw_cursors w) th = Some s \<longrightarrow> (\<exists>ts. cursor_of t login th = Some (s, ts))))"

lemma thread_table_trimmed: "thread_table_ok t \<Longrightarrow> map_of t (login, th) \<noteq> None \<Longrightarrow> trim_space th = th"
  by (auto simp: thread_table_ok_def row_ok_def dest!: map_of_SomeD)

lemma cursor_of_None: "cursor_of t login th = None \<longleftrightarrow> map_of t (login, th) = None"
  by (simp add: cursor_of_def)

lemma db_inv_save:
  assumes "db_inv login w" and "th \<in> set (cw_threads w)"
    and "save_cursor dberr login th pos (cw_cursors w, cw_db w) = (tc, db)"
  shows "db_inv login (w\<lparr>cw_cursors := tc, cw_db := db\<rparr>)"
proof -
  obtain t where t: "cw_db w = Some t" "thread_table_ok t"
      "\<forall>th \<in> set (cw_threads w). map_of t (login, th) \<noteq> None"
      "\<forall>th s. tc_saved (cw_cursors w) th = Some s \<longrightarrow> (\<exists>ts. cursor_of t login th = Some (s, ts))"
    using assms(1) by (auto simp: db_inv_def)
  obtain e db' where u: "thread_update_cursor dberr (Some t) login th (cp_seq pos) (cp_ts pos) = (e, db')"
    by fastforce
  obtain t' where t': "db' = Some t'" "thread_table_ok t'"
    using thread_update_cursor_ok [OF t(2) u] by auto
  have trim: "trim_space th = th" using t assms(2) by (blast intro: thread_table_trimmed)
  show ?thesis
  proof (cases "e = None")
    case False
    then have "t' = t"
      using u t'(1) by (auto simp: thread_update_cursor_def Let_def split: option.splits if_splits)
    then have "tc = cw_cursors w \<and> db = cw_db w"
      using assms(3) False t(1) t'(1) u by (auto simp: save_cursor_def split: if_splits)
    then show ?thesis using assms(1) by simp
  next
    case True
    then have c: "cursor_of t' login th' = (if th' = th then map_option (\<lambda>_. (cp_seq pos, cp_ts pos)) (cursor_of t login th')
         else cursor_of t login th')" for th'
      using cursor_of_update_cursor u t'(1) trim by metis
    have rows: "\<forall>th \<in> set (cw_threads w). map_of t' (login, th) \<noteq> None"
      using t(3) c unfolding cursor_of_None [symmetric] by auto
    have "cursor_of t login th \<noteq> None" using t(3) assms(2) by (simp add: cursor_of_None)
    then obtain sc where sc: "cursor_of t login th = Some sc" by blast
    show ?thesis
    proof (cases "needs_save (cw_cursors w) th pos")
      case False
      then have "tc = cw_cursors w \<and> db = cw_db w"
        using assms(3) by (auto simp: save_cursor_def split: if_splits)
      then show ?thesis using assms(1) by simp
    next
      case need: True
      then have "tc = note_saved (cw_cursors w) th pos" "db = Some t'"
        using assms(3) True t(1) t'(1) u by (auto simp: save_cursor_def)
      then show ?thesis using t t'(2) rows c sc by (auto simp: db_inv_def)
    qed
  qed
qed

lemma db_inv_settle:
  assumes "db_inv login w" and "\<And>th pos. snd r = RunSave th pos \<Longrightarrow> th \<in> set (cw_threads w)"
  shows "db_inv login (world_settle dberr login p r w)"
  using assms db_inv_save [of login w]
  by (auto simp: world_settle_def Let_def db_inv_def split: done_outcome.splits prod.splits)

lemma commit_done_save: "snd (commit_done cc) = RunSave th pos \<Longrightarrow> cc_save cc = Some (th, pos)"
  by (auto simp: commit_done_def Let_def split: if_splits option.splits)

lemma db_inv_cong:
  "db_inv login w \<Longrightarrow> cw_db w' = cw_db w \<Longrightarrow> set (cw_threads w') \<subseteq> set (cw_threads w) \<Longrightarrow>
   tc_saved (cw_cursors w') = tc_saved (cw_cursors w) \<Longrightarrow> db_inv login w'"
  by (auto simp: db_inv_def)

lemma db_inv_fire:
  assumes "db_inv login w" and "world_inv w" and "h < length (cw_hooks w)"
  shows "db_inv login (world_fire dberr login h w)"
proof (cases "hk_fired (cw_hooks w ! h)")
  case False
  let ?p = "hk_page (cw_hooks w ! h)"
  have "?p < length (cw_commits w)" "length (cw_threads w) = length (cw_commits w)"
    using assms(2,3) by (auto simp: world_inv_def commit_inv_def hooks_ok_def)
  then have "cc_save (cw_commits w ! ?p) = Some (th, pos) \<Longrightarrow> th \<in> set (cw_threads w)" for th pos
    using assms(2) by (auto simp: world_inv_def save_ok_def)
  then show ?thesis
    using False assms(1)
    by (auto simp: world_fire_def Let_def dest!: commit_done_save intro!: db_inv_settle intro: db_inv_cong [of login w])
qed (use assms(1) in \<open>simp add: world_fire_def\<close>)

lemma db_inv_apply:
  assumes "db_inv login w" and "world_inv w" and "cursor_apply fifo login e w = Some w'"
  shows "db_inv login w'"
proof (cases e)
  case (Open_Page th)
  then show ?thesis using assms by (auto simp: db_inv_def world_open_def split: if_splits)
next
  case (Queue_Event p queued dberr)
  then have g: "Suc p = length (cw_commits w)" "cc_save (cw_commits w ! p) = None"
    and w': "w' = queue_for_cursor dberr login p queued w" using assms(3) by (auto split: if_splits)
  have "db_inv login (world_track p queued w)"
    using assms(1) by (rule db_inv_cong) (auto simp: world_track_def)
  moreover have "world_inv (world_track p queued w)"
    using assms(2) g by (simp add: world_inv_def commit_inv_track save_ok_track)
  ultimately show ?thesis
    using db_inv_fire [of login "world_track p queued w" "length (cw_hooks w)"]
    by (auto simp: w' queue_for_cursor_def Let_def) (simp add: world_track_def)
next
  case (Release_Page p pos dberr)
  then have g: "p < length (cw_commits w)" and w': "w' = world_release dberr login p pos w"
    using assms(3) by (auto split: if_splits)
  have "cw_threads w ! p \<in> set (cw_threads w)"
    using g assms(2) by (auto simp: world_inv_def commit_inv_def hooks_ok_def)
  then show ?thesis
    using assms(1) unfolding w' world_release_def Let_def commit_release_def
    by (intro db_inv_settle) (auto dest!: commit_done_save intro: db_inv_cong [of login w])
next
  case (Handled h dberr)
  then show ?thesis using assms db_inv_fire by (auto split: if_splits)
next
  case (Dropped h)
  then show ?thesis using assms by (auto intro: db_inv_cong [of login w] split: if_splits)
next
  case (Forget_Thread th)
  then show ?thesis
    using assms by (auto simp: db_inv_def world_forget_def cursor_forget_def split: if_splits)
qed

interpretation saved_sys: invariant_system "cursor_step fifo login" "cursor_start t"
  "\<lambda>w. world_inv w \<and> (thread_table_ok t \<longrightarrow> db_inv login w)" for fifo login t
proof unfold_locales
  show "world_inv (cursor_start t) \<and> (thread_table_ok t \<longrightarrow> db_inv login (cursor_start t))"
    using world_inv_start [of t] by (auto simp: db_inv_def cursor_start_def no_cursors_def)
qed (auto intro: world_inv_apply db_inv_apply elim!: cursor_stepE)

text \<open>One step, a forget apart, moves a saved position forward or leaves it.\<close>

lemma saved_settle:
  "tc_saved (cw_cursors (world_settle dberr login p r w)) th = Some s' \<Longrightarrow>
   s' = saved_seq (cw_cursors w) th \<or> (\<exists>pos. s' = cp_seq pos \<and> newer_than pos (saved_seq (cw_cursors w) th))"
  by (auto simp: world_settle_def saved_seq_def needs_save_def Let_def dest!: save_cursor_saved
      split: done_outcome.splits prod.splits if_splits)

lemma saved_fire:
  "tc_saved (cw_cursors (world_fire dberr login h w)) th = Some s' \<Longrightarrow>
   s' = saved_seq (cw_cursors w) th \<or> (\<exists>pos. s' = cp_seq pos \<and> newer_than pos (saved_seq (cw_cursors w) th))"
  by (auto simp: world_fire_def Let_def dest!: saved_settle split: if_splits) (simp add: saved_seq_def)

lemma saved_apply:
  assumes "cursor_apply fifo login e w = Some w'" and "\<forall>th. e \<noteq> Forget_Thread th"
    and "tc_saved (cw_cursors w') th = Some s'"
  shows "s' = saved_seq (cw_cursors w) th \<or> (\<exists>pos. s' = cp_seq pos \<and> newer_than pos (saved_seq (cw_cursors w) th))"
proof (cases e)
  case (Queue_Event p queued dberr)
  then show ?thesis
    using assms saved_fire [of dberr login "length (cw_hooks w)" "world_track p queued w" th s']
    by (auto simp: queue_for_cursor_def Let_def world_track_def saved_seq_def split: if_splits)
next
  case (Release_Page p pos dberr)
  then show ?thesis
    using assms by (auto simp: world_release_def Let_def dest!: saved_settle split: if_splits)
next
  case (Handled h dberr)
  then show ?thesis using assms by (auto dest!: saved_fire split: if_splits)
qed (use assms in \<open>auto simp: world_open_def saved_seq_def split: if_splits\<close>)

lemma saved_kept_settle:
  "\<exists>s. tc_saved (cw_cursors w) th = Some s \<Longrightarrow> \<exists>s. tc_saved (cw_cursors (world_settle dberr login p r w)) th = Some s"
  by (auto simp: world_settle_def Let_def dest!: save_cursor_saved split: done_outcome.splits prod.splits)

lemma saved_kept_apply:
  assumes "cursor_apply fifo login e w = Some w'" and "\<forall>th. e \<noteq> Forget_Thread th"
    and "tc_saved (cw_cursors w) th \<noteq> None"
  shows "tc_saved (cw_cursors w') th \<noteq> None"
  using assms
  by (cases e)
     (auto simp: world_open_def world_release_def queue_for_cursor_def world_fire_def world_track_def Let_def
       intro!: saved_kept_settle split: if_splits)

lemma newer_than_compare: "newer_than pos s \<Longrightarrow> compare_sequence_id s (cp_seq pos) \<le> 0"
proof -
  assume "newer_than pos s"
  moreover have "compare_sequence_id [] (cp_seq pos) \<le> 0"
    by (cases "cp_seq pos") (simp_all add: compare_sequence_id_def parse_uint64_def)
  ultimately show ?thesis
    using compare_sequence_id_swap [of s "cp_seq pos"] unfolding newer_than_def by (cases "s = []") simp_all
qed

section \<open>Properties\<close>

text \<open>
  A thread table with one thread, and a run over it: two pages with one event each.
\<close>

definition example_table :: thread_table where
  "example_table = [((''me'', ''19:a''), \<lparr>ts_thread_id = ''19:a'', ts_conversation = ''19:a'', ts_one_to_one = False,
     ts_name = ''A'', ts_last_seq = ''5'', ts_last_ts = 0\<rparr>)]"

definition pages_run :: "cursor_event list" where
  "pages_run = [Open_Page ''19:a'', Queue_Event 0 True None, Release_Page 0 \<lparr>cp_seq = ''7'', cp_ts = 70\<rparr> None,
     Open_Page ''19:a'', Queue_Event 1 True None, Release_Page 1 \<lparr>cp_seq = ''10'', cp_ts = 100\<rparr> None]"

text \<open>The world after both pages are released and neither event handled.\<close>

definition pages_world :: cursor_world where
  "pages_world = \<lparr>cw_cursors = \<lparr>tc_queued = [''19:a'' \<mapsto> \<lparr>cp_seq = ''10'', cp_ts = 100\<rparr>], tc_saved = Map.empty\<rparr>,
     cw_db = Some example_table, cw_threads = [''19:a'', ''19:a''],
     cw_commits = [\<lparr>cc_pending = 1, cc_save = Some (''19:a'', \<lparr>cp_seq = ''7'', cp_ts = 70\<rparr>)\<rparr>,
       \<lparr>cc_pending = 1, cc_save = Some (''19:a'', \<lparr>cp_seq = ''10'', cp_ts = 100\<rparr>)\<rparr>],
     cw_hooks = [\<lparr>hk_page = 0, hk_queued = True, hk_fired = False, hk_dropped = False\<rparr>, \<lparr>hk_page = 1, hk_queued = True, hk_fired = False, hk_dropped = False\<rparr>],
     cw_log = [], cw_panicked = False\<rparr>"

lemma example_thread_trim: "trim_space ''19:a'' = ''19:a''"
  by (simp add: trim_space_plain plain_ends_def)

lemma example_table_ok: "thread_table_ok example_table"
  by (simp add: thread_table_ok_def row_ok_def example_table_def example_thread_trim)

lemmas run_eval = cursor_start_def world_open_def queue_for_cursor_def
  world_track_def new_cursor_commit_def commit_track_def world_release_def commit_release_def
  commit_done_def world_settle_def note_queued_def no_cursors_def Let_def saved_seq_def newer_than_def
  compare_sequence_id_def parse_uint64_def

lemma pages_run_world: "cursor_run fifo ''me'' pages_run (cursor_start example_table) = Some pages_world"
proof -
  have first: "cursor_run fifo ''me'' (take 3 pages_run) (cursor_start example_table) =
    Some \<lparr>cw_cursors = \<lparr>tc_queued = [''19:a'' \<mapsto> \<lparr>cp_seq = ''7'', cp_ts = 70\<rparr>], tc_saved = Map.empty\<rparr>,
     cw_db = Some example_table, cw_threads = [''19:a''],
     cw_commits = [\<lparr>cc_pending = 1, cc_save = Some (''19:a'', \<lparr>cp_seq = ''7'', cp_ts = 70\<rparr>)\<rparr>],
     cw_hooks = [\<lparr>hk_page = 0, hk_queued = True, hk_fired = False, hk_dropped = False\<rparr>], cw_log = [], cw_panicked = False\<rparr>"
    (is "_ = Some ?w")
    by (simp add: pages_run_def run_eval example_table_def)
  have second: "cursor_run fifo ''me'' (drop 3 pages_run) ?w = Some pages_world"
    by (simp add: pages_run_def run_eval example_table_def pages_world_def)
  have "cursor_run fifo ''me'' (take 3 pages_run @ drop 3 pages_run) (cursor_start example_table) = Some pages_world"
    unfolding cursor_run_append first by (simp add: second)
  then show ?thesis by simp
qed

lemma pages_reach: "reach_from (cursor_step fifo ''me'') (cursor_start example_table) pages_world"
  by (rule cursor_run_reach [OF pages_run_world reach_start])

lemma in_turn_first: "in_turn 0 w" "in_turn (Suc 0) w \<longleftrightarrow>
    (cw_threads w ! hk_page (cw_hooks w ! 0) = cw_threads w ! hk_page (cw_hooks w ! Suc 0) \<longrightarrow>
     hk_fired (cw_hooks w ! 0) \<or> hk_dropped (cw_hooks w ! 0))"
  by (auto simp: in_turn_def)

text \<open>Both events handled, in order; and only the second.\<close>

lemmas fire_eval = world_fire_def world_settle_def commit_done_def save_cursor_def needs_save_def saved_seq_def
  newer_than_def Let_def example_thread_trim thread_update_cursor_def example_table_def pages_world_def
  note_saved_def compare_sequence_id_def parse_uint64_def in_turn_first

lemma handle_second:
  "\<exists>w. cursor_apply False ''me'' (Handled 1 None) pages_world = Some w \<and>
     tc_saved (cw_cursors w) ''19:a'' = Some ''10'' \<and> length (cw_hooks w) = 2 \<and> \<not> hk_dropped (cw_hooks w ! 0)"
  by (simp add: fire_eval)

lemma handle_first:
  "\<exists>w. cursor_apply True ''me'' (Handled 0 None) pages_world = Some w \<and>
     cw_cursors w = \<lparr>tc_queued = [''19:a'' \<mapsto> \<lparr>cp_seq = ''10'', cp_ts = 100\<rparr>], tc_saved = [''19:a'' \<mapsto> ''7'']\<rparr> \<and>
     cw_db w = Some [((''me'', ''19:a''), \<lparr>ts_thread_id = ''19:a'', ts_conversation = ''19:a'', ts_one_to_one = False,
       ts_name = ''A'', ts_last_seq = ''7'', ts_last_ts = 70\<rparr>)] \<and>
     cw_hooks w = [\<lparr>hk_page = 0, hk_queued = True, hk_fired = True, hk_dropped = False\<rparr>, \<lparr>hk_page = 1, hk_queued = True, hk_fired = False, hk_dropped = False\<rparr>] \<and>
     cw_commits w = [\<lparr>cc_pending = 0, cc_save = Some (''19:a'', \<lparr>cp_seq = ''7'', cp_ts = 70\<rparr>)\<rparr>,
       \<lparr>cc_pending = 1, cc_save = Some (''19:a'', \<lparr>cp_seq = ''10'', cp_ts = 100\<rparr>)\<rparr>] \<and>
     cw_threads w = [''19:a'', ''19:a''] \<and> cw_log w = [(0, ''19:a'', \<lparr>cp_seq = ''7'', cp_ts = 70\<rparr>)]"
  by (simp add: fire_eval)

lemma handle_both:
  "\<exists>w w'. cursor_apply True ''me'' (Handled 0 None) pages_world = Some w \<and>
     cursor_apply True ''me'' (Handled 1 None) w = Some w' \<and>
     cw_hooks w' = [\<lparr>hk_page = 0, hk_queued = True, hk_fired = True, hk_dropped = False\<rparr>, \<lparr>hk_page = 1, hk_queued = True, hk_fired = True, hk_dropped = False\<rparr>] \<and>
     cw_threads w' = [''19:a'', ''19:a''] \<and> length (cw_commits w') = 2 \<and> cc_save (cw_commits w' ! 1) \<noteq> None \<and>
     (1, ''19:a'', \<lparr>cp_seq = ''10'', cp_ts = 100\<rparr>) \<in> set (cw_log w')"
proof -
  obtain w where w: "cursor_apply True ''me'' (Handled 0 None) pages_world = Some w"
    and cs: "cw_cursors w = \<lparr>tc_queued = [''19:a'' \<mapsto> \<lparr>cp_seq = ''10'', cp_ts = 100\<rparr>], tc_saved = [''19:a'' \<mapsto> ''7'']\<rparr>"
      "cw_hooks w = [\<lparr>hk_page = 0, hk_queued = True, hk_fired = True, hk_dropped = False\<rparr>, \<lparr>hk_page = 1, hk_queued = True, hk_fired = False, hk_dropped = False\<rparr>]"
      "cw_commits w = [\<lparr>cc_pending = 0, cc_save = Some (''19:a'', \<lparr>cp_seq = ''7'', cp_ts = 70\<rparr>)\<rparr>,
       \<lparr>cc_pending = 1, cc_save = Some (''19:a'', \<lparr>cp_seq = ''10'', cp_ts = 100\<rparr>)\<rparr>]"
      "cw_threads w = [''19:a'', ''19:a'']"
    using handle_first by blast
  have "cursor_apply True ''me'' (Handled 1 None) w = Some (world_fire None ''me'' 1 w)"
    using cs by (simp add: in_turn_first)
  moreover have "cw_hooks (world_fire None ''me'' 1 w) =
      [\<lparr>hk_page = 0, hk_queued = True, hk_fired = True, hk_dropped = False\<rparr>, \<lparr>hk_page = 1, hk_queued = True, hk_fired = True, hk_dropped = False\<rparr>]"
    "cw_threads (world_fire None ''me'' 1 w) = [''19:a'', ''19:a'']"
    "length (cw_commits (world_fire None ''me'' 1 w)) = 2"
    "cc_save (cw_commits (world_fire None ''me'' 1 w) ! 1) \<noteq> None"
    using cs by (simp_all add: world_fire_def Let_def)
  moreover have "(1, ''19:a'', \<lparr>cp_seq = ''10'', cp_ts = 100\<rparr>) \<in> set (cw_log (world_fire None ''me'' 1 w))"
    using cs by (simp add: world_fire_def world_settle_def commit_done_def Let_def split: prod.splits)
  ultimately show ?thesis using w by blast
qed

lemma reach_apply:
  "reach_from (cursor_step fifo login) s0 w \<Longrightarrow> cursor_apply fifo login e w = Some w' \<Longrightarrow>
   reach_from (cursor_step fifo login) s0 w'"
  by (blast intro: reach_step cursor_step.intros)

text \<open>C1: However events are queued, refused, handled (also repeatedly) and whatever the
  database answers: the save of a poll page runs exactly once as soon as the page has been
  released and every event queued from it has been handled, it does not run before, and the
  count never reaches zero while there is no save to run (which would call a nil function).\<close>

theorem page_saved_once:
  assumes "reach_from (cursor_step fifo login) (cursor_start t) w" and "p < length (cw_commits w)"
  shows "\<not> cw_panicked w \<and>
    length (filter (\<lambda>(q, _). q = p) (cw_log w)) = (if released w p \<and> all_handled w p then 1 else 0)"
  using cursor_sys.reachable_inv [OF assms(1)] world_inv_page [OF _ assms(2)]
  by (auto simp: world_inv_def commit_inv_def logged_def)

theorem page_saved_once_witness:
  "\<exists>w w'. cursor_apply True ''me'' (Handled 0 None) pages_world = Some w \<and>
     cursor_apply True ''me'' (Handled 1 None) w = Some w' \<and>
     \<not> cw_panicked w' \<and> length (filter (\<lambda>(q, _). q = 1) (cw_log w')) = 1"
proof -
  obtain w w' where w: "cursor_apply True ''me'' (Handled 0 None) pages_world = Some w"
    "cursor_apply True ''me'' (Handled 1 None) w = Some w'"
    and f: "cw_hooks w' = [\<lparr>hk_page = 0, hk_queued = True, hk_fired = True, hk_dropped = False\<rparr>, \<lparr>hk_page = 1, hk_queued = True, hk_fired = True, hk_dropped = False\<rparr>]"
      "length (cw_commits w') = 2" "cc_save (cw_commits w' ! 1) \<noteq> None"
    using handle_both by blast
  then show ?thesis
    using page_saved_once [OF reach_apply [OF reach_apply [OF pages_reach w(1)] w(2)], of 1]
    by (simp add: released_def all_handled_def)
qed

text \<open>C2: Where a portal takes its events in the order they were queued, a cursor saved by a page with at least one queued
  event covers no event that still waits: every event of that page was handled, and every event of every earlier page
  of the thread was handled, or dropped by bridgev2 without its hook.  What is dropped is thus the only thing a restart
  can miss, and it is never an event of the page that was saved.\<close>

theorem fifo_cursor_safe:
  assumes "reach_from (cursor_step True login) (cursor_start t) w"
    and "(p, th, pos) \<in> set (cw_log w)"
    and "x \<in> set (cw_hooks w)" and "hk_page x = p" and "hk_queued x"
    and "p' \<le> p" and "cw_threads w ! p' = th"
  shows "all_handled w p \<and> all_taken w p'"
proof -
  have inv: "world_inv w" "fifo_inv w" using fifo_sys.reachable_inv [OF assms(1)] by auto
  then have p: "p < length (cw_commits w)" "th = cw_threads w ! p"
    using assms(2) by (auto simp: world_inv_def commit_inv_def log_ok_def)
  have "logged w p \<noteq> 0" using assms(2) by (auto simp: logged_def filter_empty_conv)
  then have "all_handled w p" using world_inv_page [OF inv(1) p(1)] by (auto split: if_splits)
  then show ?thesis
    using fifo_page_order [OF inv p(1) _ assms(3-6)] assms(7) p(2) by simp
qed

text \<open>The event of the first page is dropped, that of the second handled.\<close>

lemma drop_then_handle:
  "\<exists>w w'. cursor_apply True ''me'' (Dropped 0) pages_world = Some w \<and>
     cursor_apply True ''me'' (Handled 1 None) w = Some w' \<and> \<not> all_handled w' 0 \<and>
     cw_hooks w' = [\<lparr>hk_page = 0, hk_queued = True, hk_fired = False, hk_dropped = True\<rparr>,
       \<lparr>hk_page = 1, hk_queued = True, hk_fired = True, hk_dropped = False\<rparr>] \<and>
     cw_threads w' = [''19:a'', ''19:a''] \<and> (1, ''19:a'', \<lparr>cp_seq = ''10'', cp_ts = 100\<rparr>) \<in> set (cw_log w')"
proof -
  let ?w = "world_drop 0 pages_world" and ?w' = "world_fire None ''me'' 1 (world_drop 0 pages_world)"
  have hooks: "cw_hooks ?w = [\<lparr>hk_page = 0, hk_queued = True, hk_fired = False, hk_dropped = True\<rparr>,
      \<lparr>hk_page = 1, hk_queued = True, hk_fired = False, hk_dropped = False\<rparr>]"
    by (simp add: world_drop_def pages_world_def)
  have "cursor_apply True ''me'' (Dropped 0) pages_world = Some ?w" by (simp add: pages_world_def in_turn_first)
  moreover have "cursor_apply True ''me'' (Handled 1 None) ?w = Some ?w'" by (simp add: hooks in_turn_first)
  moreover have "cw_hooks ?w' = [\<lparr>hk_page = 0, hk_queued = True, hk_fired = False, hk_dropped = True\<rparr>,
       \<lparr>hk_page = 1, hk_queued = True, hk_fired = True, hk_dropped = False\<rparr>]"
    by (simp add: world_fire_def hooks Let_def)
  moreover have "cw_threads ?w' = [''19:a'', ''19:a'']" by (simp add: world_fire_def Let_def pages_world_def)
  moreover have "(1, ''19:a'', \<lparr>cp_seq = ''10'', cp_ts = 100\<rparr>) \<in> set (cw_log ?w')"
  proof -
    have "cw_commits ?w = cw_commits pages_world" by simp
    also have "\<dots> = [\<lparr>cc_pending = 1, cc_save = Some (''19:a'', \<lparr>cp_seq = ''7'', cp_ts = 70\<rparr>)\<rparr>,
        \<lparr>cc_pending = 1, cc_save = Some (''19:a'', \<lparr>cp_seq = ''10'', cp_ts = 100\<rparr>)\<rparr>]" by (simp add: pages_world_def)
    finally show ?thesis by (simp add: world_fire_def hooks world_settle_def commit_done_def Let_def split: prod.splits)
  qed
  ultimately show ?thesis by (intro exI [of _ ?w] exI [of _ ?w']) (simp add: all_handled_def)
qed

theorem fifo_cursor_safe_witness:
  "\<exists>w w'. cursor_apply True ''me'' (Dropped 0) pages_world = Some w \<and>
     cursor_apply True ''me'' (Handled 1 None) w = Some w' \<and>
     (1, ''19:a'', \<lparr>cp_seq = ''10'', cp_ts = 100\<rparr>) \<in> set (cw_log w') \<and>
     all_handled w' 1 \<and> \<not> all_handled w' 0 \<and> all_taken w' 0"
proof -
  obtain w w' where w: "cursor_apply True ''me'' (Dropped 0) pages_world = Some w"
    "cursor_apply True ''me'' (Handled 1 None) w = Some w'" "\<not> all_handled w' 0"
    and f: "cw_hooks w' = [\<lparr>hk_page = 0, hk_queued = True, hk_fired = False, hk_dropped = True\<rparr>,
       \<lparr>hk_page = 1, hk_queued = True, hk_fired = True, hk_dropped = False\<rparr>]"
      "cw_threads w' = [''19:a'', ''19:a'']"
      "(1, ''19:a'', \<lparr>cp_seq = ''10'', cp_ts = 100\<rparr>) \<in> set (cw_log w')"
    using drop_then_handle by blast
  have "all_handled w' 1 \<and> all_taken w' 0"
    by (rule fifo_cursor_safe [OF reach_apply [OF reach_apply [OF pages_reach w(1)] w(2)] f(3),
          of "\<lparr>hk_page = 1, hk_queued = True, hk_fired = True, hk_dropped = False\<rparr>"]) (simp_all add: f)
  then show ?thesis using w f(3) by blast
qed

text \<open>C3: A page that queued no event (only bookkeeping that is skipped) saves its cursor as
  it is released, whatever is still unhandled of the thread's earlier pages.  After a crash
  the thread is then polled from past those events: the order of handling does not protect
  them, and the guarantee the saving is there for fails.\<close>

theorem eventless_page_saves_at_once:
  assumes "thread_table_ok t" and "reach_from (cursor_step True login) (cursor_start t) w"
    and "Suc p = length (cw_commits w)" and "cc_save (cw_commits w ! p) = None"
    and "\<forall>h \<in> set (cw_hooks w). hk_page h \<noteq> p"
    and "newer_than pos (saved_seq (cw_cursors w) (cw_threads w ! p))"
  shows "\<exists>w'. cursor_apply True login (Release_Page p pos None) w = Some w' \<and> cw_hooks w' = cw_hooks w \<and>
    cursor_of (the (cw_db w')) login (cw_threads w ! p) = Some (cp_seq pos, cp_ts pos)"
proof -
  let ?th = "cw_threads w ! p"
  have inv: "world_inv w" "db_inv login w" using saved_sys.reachable_inv [OF assms(2)] assms(1) by auto
  have "length (cw_threads w) = length (cw_commits w)"
    using inv(1) by (simp add: world_inv_def commit_inv_def hooks_ok_def)
  then have th: "?th \<in> set (cw_threads w)" using assms(3) by simp
  obtain t' where t': "cw_db w = Some t'" "thread_table_ok t'" "map_of t' (login, ?th) \<noteq> None"
    using inv(2) th by (auto simp: db_inv_def)
  obtain row where row: "map_of t' (login, ?th) = Some row" using t'(3) by blast
  then have "row_ok (login, ?th) row"
    using t'(2) map_of_SomeD [OF row] by (simp only: thread_table_ok_def)
  then have trim: "trim_space ?th = ?th" "?th \<noteq> []" by (simp_all add: row_ok_def)
  have "unfired w p = 0" using assms(5) by (auto simp: unfired_zero all_handled_def)
  moreover have "page_inv w p" using inv(1) assms(3) by (simp add: world_inv_def commit_inv_def)
  ultimately have one: "cc_pending (cw_commits w ! p) = 1"
    using assms(4) by (simp add: page_inv_def page_off_def)
  have ne: "cp_seq pos \<noteq> []" using assms(6) by (simp add: newer_than_def)
  obtain t'' where u: "thread_update_cursor None (Some t') login ?th (cp_seq pos) (cp_ts pos) = (None, Some t'')"
    using trim by (simp add: thread_update_cursor_def)
  have "cursor_of t'' login ?th = Some (cp_seq pos, cp_ts pos)"
    using cursor_of_update_cursor [OF u, of ?th] row trim by (simp add: cursor_of_def)
  moreover have "cw_db (world_release None login p pos w) = Some t''"
    using one assms(6) t'(1) u
    by (simp add: world_release_def world_settle_def commit_release_def commit_done_def save_cursor_def
        needs_save_def Let_def)
  ultimately show ?thesis
    using assms(3,4) ne by (auto simp: world_release_def Let_def)
qed

text \<open>Both pages are unhandled; page 2 has no event.\<close>

theorem eventless_page_saves_at_once_witness:
  "let w = world_open ''19:a'' pages_world in \<not> all_handled w 0 \<and> \<not> all_handled w 1 \<and>
     (\<exists>w'. cursor_apply True ''me'' (Release_Page 2 \<lparr>cp_seq = ''12'', cp_ts = 120\<rparr> None) w = Some w' \<and>
       cw_hooks w' = cw_hooks w \<and> cursor_of (the (cw_db w')) ''me'' ''19:a'' = Some (''12'', 120))"
proof -
  let ?w = "world_open ''19:a'' pages_world"
  have "cursor_apply True ''me'' (Open_Page ''19:a'') pages_world = Some ?w"
    by (simp add: pages_world_def example_table_def)
  then have r: "reach_from (cursor_step True ''me'') (cursor_start example_table) ?w"
    by (rule reach_apply [OF pages_reach])
  have "Suc 2 = length (cw_commits ?w)" "cc_save (cw_commits ?w ! 2) = None"
      "\<forall>h \<in> set (cw_hooks ?w). hk_page h \<noteq> 2" "\<not> all_handled ?w 0" "\<not> all_handled ?w 1"
      "newer_than \<lparr>cp_seq = ''12'', cp_ts = 120\<rparr> (saved_seq (cw_cursors ?w) (cw_threads ?w ! 2))"
      "cw_threads ?w ! 2 = ''19:a''"
    by (simp_all add: world_open_def pages_world_def new_cursor_commit_def all_handled_def newer_than_def saved_seq_def)
  then show ?thesis
    using eventless_page_saves_at_once [OF example_table_ok r, of 2 "\<lparr>cp_seq = ''12'', cp_ts = 120\<rparr>"]
    by (simp add: Let_def)
qed

text \<open>C4: As long as a thread is polled, the cursor this client saved in the database is the
  one it remembers, and no event moves it back, in whatever order pages are handled.\<close>

theorem saved_cursor_forward:
  assumes "thread_table_ok t" and "reach_from (cursor_step fifo login) (cursor_start t) w"
    and "cursor_apply fifo login e w = Some w'" and "\<forall>th. e \<noteq> Forget_Thread th"
    and "tc_saved (cw_cursors w) th = Some s"
  shows "\<exists>ts s' ts'. cursor_of (the (cw_db w)) login th = Some (s, ts) \<and>
    cursor_of (the (cw_db w')) login th = Some (s', ts') \<and> compare_sequence_id s s' \<le> 0"
proof -
  have inv: "world_inv w" "db_inv login w" using saved_sys.reachable_inv [OF assms(2)] assms(1) by auto
  then have inv': "db_inv login w'" using db_inv_apply assms(3) by blast
  obtain s' where s': "tc_saved (cw_cursors w') th = Some s'"
    using saved_kept_apply [OF assms(3,4), of th] assms(5) by auto
  have "compare_sequence_id s s' \<le> 0"
    using saved_apply [OF assms(3,4) s'] assms(5) newer_than_compare by (auto simp: saved_seq_def)
  moreover have "\<exists>ts. cursor_of (the (cw_db w)) login th = Some (s, ts)"
    using inv(2) assms(5) by (auto simp: db_inv_def)
  moreover have "\<exists>ts'. cursor_of (the (cw_db w')) login th = Some (s', ts')"
    using inv' s' by (auto simp: db_inv_def)
  ultimately show ?thesis by blast
qed

text \<open>The second page is handled first; then the first, whose save must not go back.\<close>

theorem saved_cursor_forward_witness:
  "\<exists>w w'. cursor_apply False ''me'' (Handled 1 None) pages_world = Some w \<and>
     cursor_apply False ''me'' (Handled 0 None) w = Some w' \<and>
     (\<exists>s' ts'. cursor_of (the (cw_db w')) ''me'' ''19:a'' = Some (s', ts') \<and> compare_sequence_id ''10'' s' \<le> 0)"
proof -
  obtain w where w: "cursor_apply False ''me'' (Handled 1 None) pages_world = Some w"
    and s: "tc_saved (cw_cursors w) ''19:a'' = Some ''10''" and l: "length (cw_hooks w) = 2" "\<not> hk_dropped (cw_hooks w ! 0)"
    using handle_second by blast
  have a: "cursor_apply False ''me'' (Handled 0 None) w = Some (world_fire None ''me'' 0 w)" using l by simp
  show ?thesis
    using saved_cursor_forward [OF example_table_ok reach_apply [OF pages_reach w] a _ s] w a by auto
qed

end
