(* ===== verification/Remote_Events.thy ===== *)
theory Remote_Events
  imports Teams_Message Thread_Store
begin

text \<open>
  What the connector hands to bridgev2: portal keys and user IDs (id.go), the remote events
  the poller queues, and the tests on thread and message IDs the poller decides by
  (message_poller.go, reactions.go).
\<close>

section \<open>Identifiers\<close>

type_synonym portal_key = "string \<times> string"

definition portal_key :: "string \<Rightarrow> string \<Rightarrow> portal_key" where
  "portal_key login thread = (trim_space thread, login)"

definition network_user_id :: "string \<Rightarrow> string" where
  "network_user_id u = trim_space u"

definition is_likely_thread_id :: "string \<Rightarrow> bool" where
  "is_likely_thread_id value =
     (let n = to_lower (trim_space value) in
      if n = [] then False
      else prefix ''19:'' n \<or> sublist ''@thread.v2'' n \<or> sublist ''@thread.tacv2'' n \<or>
           sublist ''@thread.skype'' n \<or> sublist ''@unq.gbl.spaces'' n)"

definition is_system_message_type :: "string \<Rightarrow> bool" where
  "is_system_message_type t =
     (let n = to_lower (trim_space t) in prefix ''threadactivity/'' n \<or> prefix ''control/'' n)"

definition is_non_pollable_system_stream :: "string \<Rightarrow> bool" where
  "is_non_pollable_system_stream i \<longleftrightarrow>
     sublist ''teamsstream_'' i \<and> \<not> sublist ''teamsstream_notes'' i \<and> \<not> sublist ''teamsstream_calllogs'' i"

text \<open>One leading \<open>msg/\<close> goes; an inner one stays.\<close>

definition normalize_reaction_message_id :: "string \<Rightarrow> string" where
  "normalize_reaction_message_id value =
     (let v = trim_space value in
      if v = [] then []
      else if prefix ''msg/'' v then drop 4 v
      else v)"

definition effective_remote_message_id :: "remote_message \<Rightarrow> string" where
  "effective_remote_message_id m =
     (let i = normalize_reaction_message_id (message_id m) in
      if i = [] then normalize_reaction_message_id (sequence_id m) else i)"

text \<open>A user ID is no thread ID: Teams user IDs start with 8: and hold no thread domain.\<close>

lemma is_likely_thread_id_19: "plain_ends (''19:'' @ s) \<Longrightarrow> is_likely_thread_id (''19:'' @ s)"
  by (simp add: is_likely_thread_id_def trim_space_plain to_lower_def lower_char_def Let_def)

section \<open>Events\<close>

record event_sender =
  es_sender :: string
  es_from_me :: bool
  es_login :: string

definition other_sender :: "string \<Rightarrow> event_sender" where
  "other_sender u = \<lparr>es_sender = network_user_id u, es_from_me = False, es_login = []\<rparr>"

definition no_sender :: event_sender where
  "no_sender = \<lparr>es_sender = [], es_from_me = False, es_login = []\<rparr>"

record reaction_entry =
  re_sender :: event_sender
  re_emotion :: string
  re_emoji :: string
  re_time :: gotime

type_synonym reaction_data = "(string \<times> reaction_entry list) list"

text \<open>
  The remote events, by bridgev2's kind, with portal, sender, timestamp and what else the
  connector sets.  The data of a message event is the Teams message itself: it is converted
  when bridgev2 handles the event.
\<close>

datatype remote_event =
    Typing_Event portal_key event_sender gotime duration
  | Remove_Event portal_key event_sender gotime string
  | Edit_Event portal_key event_sender gotime string string remote_message
  | Message_Event portal_key event_sender gotime int string string remote_message
  | Notice_Event portal_key event_sender gotime int string remote_message
  | Reaction_Event portal_key gotime string reaction_data
  | Receipt_Event portal_key event_sender gotime "string option"
  | Mark_Unread_Event portal_key event_sender bool

text \<open>What the sink answers: on the portal's queue, or not (handled already, or refused).\<close>

type_synonym event_sink = "remote_event \<Rightarrow> bool"

text \<open>A message and a thread the examples are made from.\<close>

definition blank_message :: remote_message where
  "blank_message = \<lparr>message_id = [], client_message_id = [], sequence_id = [], sender_id = [], sender_name = [],
     im_display_name = [], token_display_name = [], msg_timestamp = 0, msg_body = [], formatted_body = [],
     raw_content = [], msg_gifs = [], inline_images = [], properties_files = [], properties_raw = None,
     msg_reactions = [], message_type = [], skype_edited_id = [], reply_to_id = [], thread_root_id = [], msg_mentions = []\<rparr>"

definition example_thread :: thread_state where
  "example_thread = \<lparr>ts_thread_id = ''19:a@thread.v2'', ts_conversation = ''19:a@thread.v2'', ts_one_to_one = False,
     ts_name = ''A'', ts_last_seq = ''5'', ts_last_ts = 0\<rparr>"

end
