(* ===== verification/Poll_Backoff.thy ===== *)
theory Poll_Backoff
  imports Go_Errors
begin

text \<open>
  How long the bridge waits: the per-thread poll backoff (poll_backoff.go), the limits of
  poll_limits.go, the token refresh backoff and the long-poll retry delay (sync_loop.go).
  All four delays double from a base to a cap; the shared facts come from the locale
  \<open>capped_doubling\<close>, interpreted here for each of them.
\<close>

section \<open>Per-thread poll backoff\<close>

definition poll_base_delay :: duration where "poll_base_delay = 2 * second"
definition poll_idle_cap :: duration where "poll_idle_cap = 30 * second"
definition poll_failure_cap :: duration where "poll_failure_cap = 60 * second"

record poll_backoff =
  pb_failures :: nat
  pb_delay :: duration
  pb_idle_cap :: duration

definition ensure_base_delay :: "poll_backoff \<Rightarrow> poll_backoff" where
  "ensure_base_delay b = (if pb_delay b \<le> 0 then b\<lparr>pb_delay := poll_base_delay\<rparr> else b)"

definition on_success :: "poll_backoff \<Rightarrow> poll_backoff" where
  "on_success b = b\<lparr>pb_failures := 0, pb_delay := poll_base_delay\<rparr>"

definition on_idle :: "poll_backoff \<Rightarrow> poll_backoff" where
  "on_idle b0 =
     (let b = ensure_base_delay b0;
          next_delay = wrap64 (pb_delay b + poll_base_delay);
          cap = (if 0 < pb_idle_cap b then pb_idle_cap b else poll_idle_cap)
      in b\<lparr>pb_failures := 0, pb_delay := (if cap < next_delay then cap else next_delay)\<rparr>)"

text \<open>The delay after the n-th failure in a row, the shift and the product on 64 bits.\<close>

definition failure_delay :: "nat \<Rightarrow> duration" where
  "failure_delay n =
     (let d = (if 1 < n then mul64 poll_base_delay (shl64 1 (n - 1)) else poll_base_delay)
      in if poll_failure_cap < d then poll_failure_cap else d)"

definition on_failure :: "poll_backoff \<Rightarrow> poll_backoff" where
  "on_failure b = b\<lparr>pb_failures := Suc (pb_failures b), pb_delay := failure_delay (Suc (pb_failures b))\<rparr>"

definition on_retry_after :: "poll_backoff \<Rightarrow> duration \<Rightarrow> poll_backoff" where
  "on_retry_after b d =
     (if d \<le> 0 then on_failure b else b\<lparr>pb_failures := Suc (pb_failures b), pb_delay := d\<rparr>)"

datatype poll_backoff_reason =
  BackoffSuccess | BackoffIdle | BackoffRetryAfter | BackoffFailure | BackoffClient4xx

definition is_client_4xx_non_429 :: "int \<Rightarrow> bool" where
  "is_client_4xx_non_429 status \<longleftrightarrow> 400 \<le> status \<and> status < 500 \<and> status \<noteq> 429"

text \<open>\<open>ApplyPollBackoff\<close>; \<open>None\<close> for the backoff is the nil pointer, for the error nil.\<close>

definition apply_poll_backoff ::
  "poll_backoff option \<Rightarrow> int \<Rightarrow> go_error option \<Rightarrow> poll_backoff option \<times> duration \<times> poll_backoff_reason" where
  "apply_poll_backoff bo ingested err =
     (case bo of
        None \<Rightarrow> (None, poll_base_delay, BackoffFailure)
      | Some b \<Rightarrow>
          (case err of
             None \<Rightarrow>
               if 0 < ingested then (let b' = on_success b in (Some b', pb_delay b', BackoffSuccess))
               else (let b' = on_idle b in (Some b', pb_delay b', BackoffIdle))
           | Some e \<Rightarrow>
               (case retryable_of e of
                  Some (status, retry_after) \<Rightarrow>
                    if status = 429 \<and> 0 < retry_after
                    then (let b' = on_retry_after b retry_after in (Some b', pb_delay b', BackoffRetryAfter))
                    else (let b' = on_failure b in (Some b', pb_delay b', BackoffFailure))
                | None \<Rightarrow>
                    (case messages_error_of e of
                       Some (status, _) \<Rightarrow>
                         if is_client_4xx_non_429 status
                         then (let b' = b\<lparr>pb_failures := 0, pb_delay := poll_idle_cap\<rparr>
                               in (Some b', pb_delay b', BackoffClient4xx))
                         else (let b' = on_failure b in (Some b', pb_delay b', BackoffFailure))
                     | None \<Rightarrow> (let b' = on_failure b in (Some b', pb_delay b', BackoffFailure))))))"

lemmas backoff_defs =
  poll_base_delay_def poll_idle_cap_def poll_failure_cap_def
  ensure_base_delay_def on_success_def on_idle_def on_failure_def on_retry_after_def Let_def

lemma on_success_simps [simp]:
  "pb_failures (on_success b) = 0" "pb_delay (on_success b) = poll_base_delay"
  "pb_idle_cap (on_success b) = pb_idle_cap b"
  by (simp_all add: on_success_def)

lemma on_failure_simps [simp]:
  "pb_failures (on_failure b) = Suc (pb_failures b)"
  "pb_delay (on_failure b) = failure_delay (Suc (pb_failures b))"
  "pb_idle_cap (on_failure b) = pb_idle_cap b"
  by (simp_all add: on_failure_def)

text \<open>Up to 33 failures in a row the product fits; the delay is then the doubling one.\<close>

lemma failure_delay_small:
  assumes "0 < n" and "n \<le> 33"
  shows "failure_delay n = min (poll_base_delay * 2 ^ (n - 1)) poll_failure_cap"
proof -
  have "(2 :: int) ^ (n - 1) \<le> 2 ^ 32"
    using assms by (intro power_increasing) auto
  then have "int64_ok (2 * second * 2 ^ (n - 1))"
    by (rule int64_ok_mult [rotated 2]) auto
  then have "mul64 poll_base_delay (shl64 1 (n - 1)) = poll_base_delay * 2 ^ (n - 1)"
    by (simp add: mul64_shl64 poll_base_delay_def wrap64_id)
  moreover have "poll_base_delay = poll_base_delay * 2 ^ (n - 1)" if "\<not> 1 < n"
    using that assms by simp
  ultimately show ?thesis by (auto simp: failure_delay_def Let_def min_def)
qed

interpretation poll_bo: capped_doubling failure_delay poll_base_delay poll_failure_cap "\<lambda>n. n \<le> 33"
  by unfold_locales (auto simp: poll_base_delay_def poll_failure_cap_def failure_delay_small
    [unfolded poll_base_delay_def poll_failure_cap_def])

text \<open>
  Beyond that the product wraps.  \<open>2 s\<close> is \<open>5 ^ 9 * 2 ^ 10\<close> nanoseconds, so from the
  55th failure on every bit is shifted out and the delay is 0.
\<close>

lemma failure_delay_collapse:
  assumes "55 \<le> n"
  shows "failure_delay n = 0"
proof -
  have "n - 1 = 54 + (n - 55)" using assms by simp
  then have "(2 :: int) ^ (n - 1) = 2 ^ 54 * 2 ^ (n - 55)"
    by (simp only: power_add)
  then have "poll_base_delay * 2 ^ (n - 1) = 2 ^ 64 * (1953125 * 2 ^ (n - 55))"
    by (simp add: poll_base_delay_def)
  then have "(poll_base_delay * 2 ^ (n - 1)) mod 2 ^ 64 = 0"
    by simp
  then have "mul64 poll_base_delay (shl64 1 (n - 1)) = 0"
    by (simp only: mul64_shl64 wrap64_mod_zero)
  then show ?thesis using assms by (simp add: failure_delay_def poll_failure_cap_def)
qed

lemma failure_delay_34_negative: "failure_delay 34 < 0"
  by (simp add: failure_delay_def mul64_shl64 poll_base_delay_def poll_failure_cap_def wrap64_def)

text \<open>What a thread's backoff is after a run of poll outcomes.\<close>

type_synonym poll_outcome = "int \<times> go_error option"

fun backoff_run :: "poll_backoff \<Rightarrow> poll_outcome list \<Rightarrow> poll_backoff" where
  "backoff_run b [] = b"
| "backoff_run b ((n, err) # os) =
     backoff_run (case apply_poll_backoff (Some b) n err of (b', _, _) \<Rightarrow> the b') os"

definition initial_backoff :: poll_backoff where
  "initial_backoff = \<lparr>pb_failures = 0, pb_delay = poll_base_delay, pb_idle_cap = 0\<rparr>"

text \<open>An error that is neither a typed Teams answer nor a client error is a plain failure.\<close>

definition plain_failure :: "go_error \<Rightarrow> bool" where
  "plain_failure e \<longleftrightarrow> retryable_of e = None \<and>
     (\<forall>st b. messages_error_of e = Some (st, b) \<longrightarrow> \<not> is_client_4xx_non_429 st)"

lemma apply_plain_failure:
  "plain_failure e \<Longrightarrow>
   apply_poll_backoff (Some b) n (Some e) = (Some (on_failure b), pb_delay (on_failure b), BackoffFailure)"
  by (auto simp: apply_poll_backoff_def plain_failure_def Let_def split: option.splits)

lemma backoff_run_failures:
  "\<forall>(n, err) \<in> set os. \<exists>e. err = Some e \<and> plain_failure e \<Longrightarrow>
   pb_failures (backoff_run b os) = pb_failures b + length os \<and>
   (os \<noteq> [] \<longrightarrow> pb_delay (backoff_run b os) = failure_delay (pb_failures b + length os))"
proof (induction os arbitrary: b)
  case (Cons o1 os)
  obtain n e where o1: "o1 = (n, Some e)" and e: "plain_failure e" using Cons.prems by fastforce
  have "pb_failures (backoff_run (on_failure b) os) = pb_failures (on_failure b) + length os \<and>
     (os \<noteq> [] \<longrightarrow> pb_delay (backoff_run (on_failure b) os) = failure_delay (pb_failures (on_failure b) + length os))"
    using Cons.prems by (intro Cons.IH) auto
  then show ?case by (cases os) (simp_all add: o1 apply_plain_failure [OF e])
qed simp

text \<open>The delays the outcomes leave are positive as long as failures stay below the wrap.\<close>

definition backoff_ok :: "poll_backoff \<Rightarrow> bool" where
  "backoff_ok b \<longleftrightarrow> 0 < pb_delay b \<and> pb_delay b \<le> 2 ^ 62 \<and> 0 \<le> pb_idle_cap b \<and> pb_idle_cap b \<le> 2 ^ 62"

lemma on_idle_delay:
  assumes "backoff_ok b"
  shows "pb_delay (on_idle b) = min (pb_delay b + poll_base_delay) (if 0 < pb_idle_cap b then pb_idle_cap b else poll_idle_cap)"
proof -
  have "int64_ok (pb_delay b + poll_base_delay)"
    using assms by (simp add: backoff_ok_def int64_ok_def poll_base_delay_def)
  then show ?thesis
    using assms by (simp add: on_idle_def ensure_base_delay_def backoff_ok_def wrap64_id Let_def min_def)
qed

lemma on_idle_simps [simp]: "pb_failures (on_idle b) = 0" "pb_idle_cap (on_idle b) = pb_idle_cap b"
  by (simp_all add: on_idle_def ensure_base_delay_def Let_def)

lemma on_idle_ok: "backoff_ok b \<Longrightarrow> backoff_ok (on_idle b)"
  using on_idle_delay [of b]
  by (auto simp: backoff_ok_def poll_base_delay_def poll_idle_cap_def)

lemma failure_delay_ok: "0 < n \<Longrightarrow> n \<le> 33 \<Longrightarrow> 0 < failure_delay n \<and> failure_delay n \<le> poll_failure_cap"
  using poll_bo.delay_bounds [of n] poll_bo.base_pos by auto

lemma apply_poll_backoff_ok:
  assumes "backoff_ok b" and "pb_failures b < 33"
    and "\<And>e st ra. err = Some e \<Longrightarrow> retryable_of e = Some (st, ra) \<Longrightarrow> ra \<le> 2 ^ 62"
    and "apply_poll_backoff (Some b) n err = (bo, d, reason)"
  shows "\<exists>b'. bo = Some b' \<and> backoff_ok b' \<and> d = pb_delay b' \<and> pb_failures b' \<le> Suc (pb_failures b)"
proof -
  have f: "backoff_ok (on_failure b)"
    using assms(1,2) failure_delay_ok [of "Suc (pb_failures b)"]
    by (auto simp: backoff_ok_def poll_failure_cap_def)
  have s: "backoff_ok (on_success b)"
    using assms(1) by (simp add: backoff_ok_def poll_base_delay_def)
  have c: "backoff_ok (b\<lparr>pb_failures := 0, pb_delay := poll_idle_cap\<rparr>)"
    using assms(1) by (simp add: backoff_ok_def poll_idle_cap_def)
  have r: "backoff_ok (on_retry_after b ra)" "pb_failures (on_retry_after b ra) = Suc (pb_failures b)"
    if "0 < ra" "ra \<le> 2 ^ 62" for ra
    using assms(1) that by (auto simp: on_retry_after_def backoff_ok_def)
  show ?thesis
    using assms(3,4) f s c r on_idle_ok [OF assms(1)]
    by (auto simp: apply_poll_backoff_def Let_def split: option.splits if_splits prod.splits)
qed

section \<open>Limits\<close>

definition throttle_default :: duration where "throttle_default = 30 * second"
definition throttle_max :: duration where "throttle_max = 10 * minute"
definition gone_thread_recheck :: duration where "gone_thread_recheck = 6 * hour"
definition activity_failure_max :: duration where "activity_failure_max = minute"
definition activity_check_interval :: duration where "activity_check_interval = 3 * second"
definition thread_discovery_interval :: duration where "thread_discovery_interval = 30 * second"
definition discovery_interval_watched :: duration where "discovery_interval_watched = 5 * minute"
definition discovery_min_gap :: duration where "discovery_min_gap = 30 * second"

text \<open>\<open>teamsThrottle\<close>: the pause a 429 asks for.\<close>

definition teams_throttle :: "go_error option \<Rightarrow> duration option" where
  "teams_throttle err =
     (case Option.bind err retryable_of of
        None \<Rightarrow> None
      | Some (status, retry_after) \<Rightarrow>
          if status \<noteq> 429 then None
          else if retry_after \<le> 0 then Some throttle_default
          else Some (min retry_after throttle_max))"

definition is_thread_gone :: "go_error option \<Rightarrow> bool" where
  "is_thread_gone err =
     (case Option.bind err messages_error_of of
        None \<Rightarrow> False
      | Some (status, snippet) \<Rightarrow>
          status = 404 \<and> (sublist ''ThreadNotFound'' snippet \<or> sublist ''SoftDeleted'' snippet))"

text \<open>\<open>activityRetryDelay\<close>; a count of failures is never negative.\<close>

definition activity_retry_delay :: "nat \<Rightarrow> duration" where
  "activity_retry_delay n =
     (if n = 0 then activity_check_interval
      else min (shl64 activity_check_interval (min n 6)) activity_failure_max)"

definition discovery_interval :: "bool \<Rightarrow> bool \<Rightarrow> duration" where
  "discovery_interval activity_up long_poll_up =
     (if activity_up \<or> long_poll_up then discovery_interval_watched else thread_discovery_interval)"

lemma teams_throttle_bounds: "teams_throttle err = Some d \<Longrightarrow> 0 < d \<and> d \<le> throttle_max"
  by (auto simp: teams_throttle_def throttle_default_def throttle_max_def split: option.splits if_splits)

lemma teams_throttle_not_gone: "teams_throttle err = Some d \<Longrightarrow> \<not> is_thread_gone err"
  by (cases err) (auto simp: teams_throttle_def is_thread_gone_def dest: retryable_not_messages
    split: option.splits if_splits)

lemma power_cap: "k \<le> n \<Longrightarrow> 0 \<le> b \<Longrightarrow> c \<le> b * 2 ^ k \<Longrightarrow> min (b * 2 ^ n) c = (c :: int)"
proof -
  assume h: "k \<le> n" "0 \<le> b" "c \<le> b * 2 ^ k"
  have "b * 2 ^ k \<le> b * 2 ^ n" using h by (intro mult_left_mono power_increasing) auto
  then show ?thesis using h by simp
qed

lemma shl64_small: "k \<le> 10 \<Longrightarrow> 0 \<le> b \<Longrightarrow> b \<le> 2 ^ 50 \<Longrightarrow> shl64 b k = b * 2 ^ k"
proof -
  assume h: "k \<le> 10" "0 \<le> b" "b \<le> 2 ^ 50"
  have "b * 2 ^ k \<le> 2 ^ 50 * 2 ^ 10"
    using h by (intro mult_mono power_increasing) auto
  moreover have "0 \<le> b * 2 ^ k" using h by simp
  ultimately show ?thesis by (simp add: shl64_def wrap64_id int64_ok_def)
qed

lemma activity_retry_delay_eq:
  assumes "0 < n"
  shows "activity_retry_delay n = min (6 * second * 2 ^ (n - 1)) activity_failure_max"
proof -
  have "shl64 activity_check_interval (min n 6) = activity_check_interval * 2 ^ min n 6"
    by (rule shl64_small) (simp_all add: activity_check_interval_def)
  also have "min \<dots> activity_failure_max = min (6 * second * 2 ^ (n - 1)) activity_failure_max"
  proof (cases "n \<le> 6")
    case True
    then have "(2 :: int) ^ n = 2 * 2 ^ (n - 1)" using assms by (cases n) auto
    with True show ?thesis by (simp add: activity_check_interval_def min_def)
  next
    case False
    then have "min (6 * second * 2 ^ (n - 1)) activity_failure_max = activity_failure_max"
      by (intro power_cap [of 4]) (auto simp: activity_failure_max_def)
    with False show ?thesis by (simp add: activity_check_interval_def activity_failure_max_def)
  qed
  finally show ?thesis using assms by (simp add: activity_retry_delay_def)
qed

interpretation activity_bo: capped_doubling activity_retry_delay "6 * second" activity_failure_max "\<lambda>_. True"
  by unfold_locales (simp_all only: activity_retry_delay_eq, simp_all add: activity_failure_max_def)

section \<open>Long-poll retries\<close>

definition long_poll_retry_delay :: duration where "long_poll_retry_delay = 2 * second"
definition long_poll_max_retry_delay :: duration where "long_poll_max_retry_delay = 60 * second"

definition long_poll_delay :: "nat \<Rightarrow> duration" where
  "long_poll_delay n =
     (let d = shl64 long_poll_retry_delay (min (n - 1) 5)
      in if long_poll_max_retry_delay < d then long_poll_max_retry_delay else d)"

lemma long_poll_delay_eq:
  "long_poll_delay n = min (long_poll_retry_delay * 2 ^ (n - 1)) long_poll_max_retry_delay"
proof -
  have "shl64 long_poll_retry_delay (min (n - 1) 5) = long_poll_retry_delay * 2 ^ min (n - 1) 5"
    by (rule shl64_small) (simp_all add: long_poll_retry_delay_def)
  moreover have "min (long_poll_retry_delay * 2 ^ (n - 1)) long_poll_max_retry_delay = long_poll_max_retry_delay"
    if "5 < n - 1"
    using that by (intro power_cap [of 5]) (auto simp: long_poll_retry_delay_def long_poll_max_retry_delay_def)
  ultimately show ?thesis
    by (auto simp: long_poll_delay_def Let_def min_def long_poll_max_retry_delay_def long_poll_retry_delay_def)
qed

interpretation long_poll_bo: capped_doubling long_poll_delay long_poll_retry_delay long_poll_max_retry_delay "\<lambda>_. True"
  by unfold_locales (simp_all add: long_poll_delay_eq long_poll_retry_delay_def long_poll_max_retry_delay_def)

section \<open>Token refresh backoff\<close>

definition refresh_backoff_base :: duration where "refresh_backoff_base = 30 * second"
definition refresh_backoff_max :: duration where "refresh_backoff_max = 15 * minute"
definition refresh_network_backoff_max :: duration where "refresh_network_backoff_max = 2 * minute"

record refresh_failure =
  rf_failures :: nat
  rf_until :: gotime
  rf_err :: "go_error option"

definition no_refresh_failure :: refresh_failure where
  "no_refresh_failure = \<lparr>rf_failures = 0, rf_until = zero_time, rf_err = None\<rparr>"

definition is_permanent_refresh_error :: "go_error \<Rightarrow> bool" where
  "is_permanent_refresh_error e =
     (let msg = to_lower (err_text e) in
      sublist ''invalid_grant'' msg \<or> sublist ''interaction_required'' msg)"

text \<open>\<open>isTeamsNetworkError\<close> (reachability.go): the request never got an answer.\<close>

definition is_teams_network_error :: "go_error option \<Rightarrow> bool" where
  "is_teams_network_error err =
     (case err of None \<Rightarrow> False | Some e \<Rightarrow> is_deadline e \<or> net_error_of e \<noteq> None)"

definition refresh_doubling :: "nat \<Rightarrow> duration" where
  "refresh_doubling n =
     (if 1 < n then mul64 refresh_backoff_base (shl64 1 (min (n - 1) 10)) else refresh_backoff_base)"

definition refresh_record :: "refresh_failure \<Rightarrow> gotime \<Rightarrow> go_error \<Rightarrow> refresh_failure" where
  "refresh_record f now err =
     (let n = Suc (rf_failures f);
          d0 = refresh_doubling n;
          d1 = (if refresh_backoff_max < d0 \<or> is_permanent_refresh_error err then refresh_backoff_max else d0);
          d2 = (if is_teams_network_error (Some err) \<and> refresh_network_backoff_max < d1
                then refresh_network_backoff_max else d1)
      in \<lparr>rf_failures = n, rf_until = now + d2, rf_err = Some err\<rparr>)"

text \<open>\<open>blocked\<close>: the recorded error, marked as suppressed, while the window is open.\<close>

definition refresh_blocked :: "refresh_failure \<Rightarrow> gotime \<Rightarrow> go_error option" where
  "refresh_blocked f now =
     (case rf_err f of
        None \<Rightarrow> None
      | Some e \<Rightarrow> if \<not> now < rf_until f then None else Some (Wrapped e ('' (refresh suppressed until '' @ format_rfc3339 (rf_until f) @ '')'')))"

definition refresh_reset :: "refresh_failure \<Rightarrow> refresh_failure" where
  "refresh_reset f = no_refresh_failure"

lemma refresh_doubling_eq:
  "0 < n \<Longrightarrow> refresh_doubling n = refresh_backoff_base * 2 ^ min (n - 1) 10"
proof -
  assume "0 < n"
  have "(2 :: int) ^ min (n - 1) 10 \<le> 2 ^ 10" by (intro power_increasing) auto
  then have "int64_ok (refresh_backoff_base * 2 ^ min (n - 1) 10)"
    by (rule int64_ok_mult [rotated 2]) (auto simp: refresh_backoff_base_def)
  then show ?thesis
    using \<open>0 < n\<close> by (cases "n = 1") (auto simp: refresh_doubling_def mul64_shl64 wrap64_id)
qed

definition refresh_capped :: "nat \<Rightarrow> duration" where
  "refresh_capped n = min (refresh_doubling n) refresh_backoff_max"

interpretation refresh_bo: capped_doubling refresh_capped refresh_backoff_base refresh_backoff_max "\<lambda>_. True"
proof unfold_locales
  show "refresh_capped n = min (refresh_backoff_base * 2 ^ (n - 1)) refresh_backoff_max"
    if "0 < n" for n
  proof (cases "n - 1 \<le> 10")
    case True
    with that show ?thesis by (simp add: refresh_capped_def refresh_doubling_eq min_def)
  next
    case False
    then have "min (refresh_backoff_base * 2 ^ (n - 1)) refresh_backoff_max = refresh_backoff_max"
      by (intro power_cap [of 10]) (auto simp: refresh_backoff_base_def refresh_backoff_max_def)
    with False that show ?thesis
      by (simp add: refresh_capped_def refresh_doubling_eq refresh_backoff_base_def refresh_backoff_max_def)
  qed
qed (simp_all add: refresh_backoff_base_def refresh_backoff_max_def)

lemma refresh_record_simps [simp]:
  "rf_failures (refresh_record f now e) = Suc (rf_failures f)"
  "rf_err (refresh_record f now e) = Some e"
  by (simp_all add: refresh_record_def Let_def)

lemma refresh_record_until:
  "rf_until (refresh_record f now e) =
     now + (let d = (if is_permanent_refresh_error e then refresh_backoff_max
                     else refresh_capped (Suc (rf_failures f)))
            in if is_teams_network_error (Some e) then min d refresh_network_backoff_max else d)"
  by (auto simp: refresh_record_def refresh_capped_def Let_def min_def)

lemma refresh_record_window:
  "refresh_backoff_base \<le> rf_until (refresh_record f now e) - now \<and>
   rf_until (refresh_record f now e) - now \<le>
     (if is_teams_network_error (Some e) then refresh_network_backoff_max else refresh_backoff_max)"
  using refresh_bo.delay_bounds [of "Suc (rf_failures f)"]
  by (auto simp: refresh_record_until Let_def refresh_backoff_base_def refresh_backoff_max_def
      refresh_network_backoff_max_def)

end
