(* ===== verification/Caches.thy ===== *)
theory Caches
  imports Poll_Backoff "HOL-Library.AList"
begin

text \<open>
  The client's in-memory maps that suppress repeats and pace requests (client.go), the
  operations on them (message_poller.go, reaction_sync.go, edit_sync.go, poll_wake.go,
  receipt_sync.go, thread_discovery.go, handlematrix.go, chat_state.go), and their sweep
  (cache_sweep.go).

  A map is an association list; Go's \<open>delete\<close> drops the key.  Every operation takes the
  instant its clock shows.
\<close>

section \<open>The maps\<close>

record stamped_sig =
  sg_sig :: string
  sg_at :: gotime

record client_caches =
  reaction_seen :: "(string \<times> gotime) list"
  reaction_sigs :: "(string \<times> stamped_sig) list"
  edit_times :: "(string \<times> stamped_sig) list"
  chat_info_sigs :: "(string \<times> stamped_sig) list"
  typing_seen :: "(string \<times> gotime) list"
  thread_active :: "(string \<times> gotime) list"
  receipt_poll :: "(string \<times> gotime) list"
  name_lookup_miss :: "(string \<times> gotime) list"
  self_messages :: "(string \<times> gotime) list"
  unread_seen :: "(string \<times> bool) list"

definition no_caches :: client_caches where
  "no_caches = \<lparr>reaction_seen = [], reaction_sigs = [], edit_times = [], chat_info_sigs = [], typing_seen = [],
     thread_active = [], receipt_poll = [], name_lookup_miss = [], self_messages = [], unread_seen = []\<rparr>"

definition typing_dedup_window :: duration where "typing_dedup_window = 3 * second"
definition thread_active_window :: duration where "thread_active_window = 30 * minute"
definition receipt_idle_poll_interval :: duration where "receipt_idle_poll_interval = 2 * minute"
definition name_lookup_miss_ttl :: duration where "name_lookup_miss_ttl = 6 * hour"
definition reaction_state_ttl :: duration where "reaction_state_ttl = 12 * hour"
definition chat_info_ttl :: duration where "chat_info_ttl = 12 * hour"
definition self_message_ttl :: duration where "self_message_ttl = 5 * minute"
definition cache_sweep_interval :: duration where "cache_sweep_interval = 10 * minute"

lemmas window_defs = typing_dedup_window_def thread_active_window_def receipt_idle_poll_interval_def
  name_lookup_miss_ttl_def reaction_state_ttl_def chat_info_ttl_def self_message_ttl_def

section \<open>Sweeping\<close>

definition sweep_before :: "('k \<times> 'v) list \<Rightarrow> gotime \<Rightarrow> ('v \<Rightarrow> gotime) \<Rightarrow> ('k \<times> 'v) list \<times> nat" where
  "sweep_before m cutoff at_time =
     (filter (\<lambda>(_, v). \<not> at_time v < cutoff) m, length (filter (\<lambda>(_, v). at_time v < cutoff) m))"

definition sweep_caches :: "gotime \<Rightarrow> client_caches \<Rightarrow> client_caches \<times> nat" where
  "sweep_caches now c =
     (let (rsigs, n1) = sweep_before (reaction_sigs c) (now - reaction_state_ttl) sg_at;
          (rseen, n2) = sweep_before (reaction_seen c) (now - reaction_state_ttl) id;
          (edits, n3) = sweep_before (edit_times c) (now - reaction_state_ttl) sg_at;
          (infos, n4) = sweep_before (chat_info_sigs c) (now - chat_info_ttl) sg_at;
          (typing, n5) = sweep_before (typing_seen c) (now - typing_dedup_window) id;
          (active, n6) = sweep_before (thread_active c) (now - thread_active_window) id;
          (receipts, n7) = sweep_before (receipt_poll c) (now - receipt_idle_poll_interval) id;
          (misses, n8) = sweep_before (name_lookup_miss c) (now - name_lookup_miss_ttl) id
      in (c\<lparr>reaction_sigs := rsigs, reaction_seen := rseen, edit_times := edits, chat_info_sigs := infos,
            typing_seen := typing, thread_active := active, receipt_poll := receipts,
            name_lookup_miss := misses\<rparr>, n1 + n2 + n3 + n4 + n5 + n6 + n7 + n8))"

lemma sweep_before_count: "sweep_before m cutoff f = (m', n) \<Longrightarrow> length m' + n = length m"
  by (induction m arbitrary: m' n) (auto simp: sweep_before_def)

text \<open>
  An entry is in force at \<open>now\<close> when it is younger than the window it is kept for; a stored
  zero time counts as no entry where the code tests for one.
\<close>

definition in_force :: "duration \<Rightarrow> ('k \<times> gotime) list \<Rightarrow> 'k \<Rightarrow> gotime \<Rightarrow> bool" where
  "in_force window m k now = (case map_of m k of None \<Rightarrow> False | Some t \<Rightarrow> time_sub now t < window)"

lemma map_of_filter_distinct:
  "distinct (map fst m) \<Longrightarrow>
   map_of (filter (\<lambda>(_, v). P v) m) k = (case map_of m k of Some v \<Rightarrow> if P v then Some v else None | None \<Rightarrow> None)"
proof (induction m)
  case (Cons kv m)
  show ?case
  proof (cases "fst kv = k")
    case True
    then have "map_of m k = None" using Cons.prems by (auto simp: map_of_eq_None_iff)
    then show ?thesis using Cons True by (cases kv) auto
  next
    case False
    then show ?thesis using Cons by (cases kv) auto
  qed
qed simp

text \<open>
  What the maps with a window have in common: a sweep drops only entries out of force, and
  these stay out of force.
\<close>

locale windowed_cache =
  fixes entries :: "'s \<Rightarrow> (string \<times> gotime) list"
    and sweep :: "gotime \<Rightarrow> 's \<Rightarrow> 's"
    and window :: duration
  assumes sweep_entries: "entries (sweep now s) = fst (sweep_before (entries s) (now - window) id)"
    and window_small: "0 < window" "window < 2 ^ 62"
begin

lemma sweep_in_force:
  assumes "distinct (map fst (entries s))" and "now \<le> later"
  shows "in_force window (entries (sweep now s)) k later = in_force window (entries s) k later"
  using assms window_small
  by (auto simp: in_force_def sweep_entries sweep_before_def map_of_filter_distinct time_sub_less split: option.splits)

lemma sweep_distinct: "distinct (map fst (entries s)) \<Longrightarrow> distinct (map fst (entries (sweep now s)))"
  by (simp add: sweep_entries sweep_before_def distinct_map_filter)

end

abbreviation (input) swept :: "gotime \<Rightarrow> client_caches \<Rightarrow> client_caches" where
  "swept now c \<equiv> fst (sweep_caches now c)"

lemma swept_fields:
  "typing_seen (swept now c) = fst (sweep_before (typing_seen c) (now - typing_dedup_window) id)"
  "thread_active (swept now c) = fst (sweep_before (thread_active c) (now - thread_active_window) id)"
  "receipt_poll (swept now c) = fst (sweep_before (receipt_poll c) (now - receipt_idle_poll_interval) id)"
  "name_lookup_miss (swept now c) = fst (sweep_before (name_lookup_miss c) (now - name_lookup_miss_ttl) id)"
  "self_messages (swept now c) = self_messages c" "unread_seen (swept now c) = unread_seen c"
  by (simp_all add: sweep_caches_def split_beta Let_def)

interpretation typing_cache: windowed_cache typing_seen swept typing_dedup_window
  by unfold_locales (simp_all add: swept_fields window_defs)

interpretation active_cache: windowed_cache thread_active swept thread_active_window
  by unfold_locales (simp_all add: swept_fields window_defs)

interpretation receipt_cache: windowed_cache receipt_poll swept receipt_idle_poll_interval
  by unfold_locales (simp_all add: swept_fields window_defs)

interpretation miss_cache: windowed_cache name_lookup_miss swept name_lookup_miss_ttl
  by unfold_locales (simp_all add: swept_fields window_defs)

section \<open>Operations with a window\<close>

definition typing_key :: "string \<Rightarrow> string \<Rightarrow> string" where
  "typing_key thread sender = thread @ '':'' @ sender"

definition should_emit_typing :: "gotime \<Rightarrow> string \<Rightarrow> string \<Rightarrow> client_caches \<Rightarrow> bool \<times> client_caches" where
  "should_emit_typing now thread sender c =
     (let key = typing_key thread sender in
      case map_of (typing_seen c) key of
        Some last_seen \<Rightarrow>
          if time_sub now last_seen < typing_dedup_window then (False, c)
          else (True, c\<lparr>typing_seen := AList.update key now (typing_seen c)\<rparr>)
      | None \<Rightarrow> (True, c\<lparr>typing_seen := AList.update key now (typing_seen c)\<rparr>))"

definition note_thread_active :: "gotime \<Rightarrow> string \<Rightarrow> client_caches \<Rightarrow> client_caches" where
  "note_thread_active now thread c =
     c\<lparr>thread_active := AList.update thread now (thread_active c), receipt_poll := AList.delete thread (receipt_poll c)\<rparr>"

definition forget_receipt_poll :: "string \<Rightarrow> client_caches \<Rightarrow> client_caches" where
  "forget_receipt_poll thread c = c\<lparr>receipt_poll := AList.delete thread (receipt_poll c)\<rparr>"

definition thread_is_active :: "gotime \<Rightarrow> string \<Rightarrow> client_caches \<Rightarrow> bool" where
  "thread_is_active now thread c =
     (case map_of (thread_active c) thread of
        Some active \<Rightarrow> time_sub now active < thread_active_window
      | None \<Rightarrow> False)"

definition poll_backstop_idle_cap :: duration where "poll_backstop_idle_cap = 15 * minute"
definition active_thread_idle_cap :: duration where "active_thread_idle_cap = 5 * second"

definition idle_cap_for :: "bool \<Rightarrow> gotime \<Rightarrow> string \<Rightarrow> client_caches \<Rightarrow> duration" where
  "idle_cap_for watched now thread c =
     (if thread_is_active now thread c then active_thread_idle_cap
      else if watched then poll_backstop_idle_cap
      else poll_idle_cap)"

definition should_poll_receipts :: "gotime \<Rightarrow> string \<Rightarrow> client_caches \<Rightarrow> bool \<times> client_caches" where
  "should_poll_receipts now thread c =
     (let interval = (case map_of (thread_active c) thread of
                        Some active \<Rightarrow> if time_sub now active < thread_active_window then 0 else receipt_idle_poll_interval
                      | None \<Rightarrow> receipt_idle_poll_interval);
          last_poll = (case map_of (receipt_poll c) thread of Some t \<Rightarrow> t | None \<Rightarrow> zero_time)
      in if \<not> is_zero_time last_poll \<and> time_sub now last_poll < interval then (False, c)
         else (True, c\<lparr>receipt_poll := AList.update thread now (receipt_poll c)\<rparr>))"

definition recent_name_lookup_miss :: "gotime \<Rightarrow> string \<Rightarrow> client_caches \<Rightarrow> bool" where
  "recent_name_lookup_miss now user c =
     (case map_of (name_lookup_miss c) user of
        Some t \<Rightarrow> time_sub now t < name_lookup_miss_ttl
      | None \<Rightarrow> False)"

definition record_name_lookup_miss :: "gotime \<Rightarrow> string \<Rightarrow> client_caches \<Rightarrow> client_caches" where
  "record_name_lookup_miss now user c =
     c\<lparr>name_lookup_miss := AList.update user now (name_lookup_miss c)\<rparr>"

section \<open>Signatures\<close>

text \<open>
  \<open>reactionStateChanged\<close>, \<open>messageStateChanged\<close> and \<open>chatInfoChangedWithPrev\<close> share a body:
  record the signature and say whether it is news.
\<close>

definition sig_changed ::
  "gotime \<Rightarrow> string \<Rightarrow> string \<Rightarrow> (string \<times> stamped_sig) list \<Rightarrow> bool \<times> (string \<times> stamped_sig) list" where
  "sig_changed now key sig m =
     (case map_of m key of
        None \<Rightarrow> (True, AList.update key \<lparr>sg_sig = sig, sg_at = now\<rparr> m)
      | Some prev \<Rightarrow> (sg_sig prev \<noteq> sig, AList.update key \<lparr>sg_sig = sig, sg_at = now\<rparr> m))"

definition reaction_state_changed :: "gotime \<Rightarrow> string \<Rightarrow> string \<Rightarrow> client_caches \<Rightarrow> bool \<times> client_caches" where
  "reaction_state_changed now msg sig c =
     (case sig_changed now msg sig (reaction_sigs c) of (b, m) \<Rightarrow> (b, c\<lparr>reaction_sigs := m\<rparr>))"

definition message_state_changed :: "gotime \<Rightarrow> string \<Rightarrow> string \<Rightarrow> client_caches \<Rightarrow> bool \<times> client_caches" where
  "message_state_changed now msg sig c =
     (case sig_changed now msg sig (edit_times c) of (b, m) \<Rightarrow> (b, c\<lparr>edit_times := m\<rparr>))"

definition forget_message_state :: "string \<Rightarrow> client_caches \<Rightarrow> client_caches" where
  "forget_message_state msg c = c\<lparr>edit_times := AList.delete msg (edit_times c)\<rparr>"

text \<open>With the previous signature, empty when there was none.\<close>

definition chat_info_changed :: "gotime \<Rightarrow> string \<Rightarrow> string \<Rightarrow> client_caches \<Rightarrow> (string \<times> bool) \<times> client_caches" where
  "chat_info_changed now thread sig c =
     (let prev = (case map_of (chat_info_sigs c) thread of Some p \<Rightarrow> sg_sig p | None \<Rightarrow> []) in
      case sig_changed now thread sig (chat_info_sigs c) of (b, m) \<Rightarrow> ((prev, b), c\<lparr>chat_info_sigs := m\<rparr>))"

definition mark_reaction_seen :: "gotime \<Rightarrow> string \<Rightarrow> bool \<Rightarrow> client_caches \<Rightarrow> bool \<times> client_caches" where
  "mark_reaction_seen now msg seen c =
     (let exists = map_of (reaction_seen c) msg \<noteq> None in
      (exists,
       if seen then c\<lparr>reaction_seen := AList.update msg now (reaction_seen c)\<rparr>
       else if exists then c\<lparr>reaction_seen := AList.delete msg (reaction_seen c)\<rparr>
       else c))"

section \<open>Own messages and unread threads\<close>

definition cleanup_self_messages :: "gotime \<Rightarrow> client_caches \<Rightarrow> client_caches" where
  "cleanup_self_messages now c =
     c\<lparr>self_messages := filter (\<lambda>(_, ts). \<not> self_message_ttl < time_sub now ts) (self_messages c)\<rparr>"

definition record_self_message :: "gotime \<Rightarrow> string \<Rightarrow> client_caches \<Rightarrow> client_caches" where
  "record_self_message now id0 c =
     (let i = trim_space id0 in
      if i = [] then c
      else (let c1 = cleanup_self_messages now c in c1\<lparr>self_messages := AList.update i now (self_messages c1)\<rparr>))"

definition consume_self_message :: "gotime \<Rightarrow> string \<Rightarrow> client_caches \<Rightarrow> bool \<times> client_caches" where
  "consume_self_message now id0 c =
     (let i = trim_space id0 in
      if i = [] then (False, c)
      else (let c1 = cleanup_self_messages now c; exists = map_of (self_messages c1) i \<noteq> None in
            (exists, if exists then c1\<lparr>self_messages := AList.delete i (self_messages c1)\<rparr> else c1)))"

definition mark_unread :: "string \<Rightarrow> client_caches \<Rightarrow> client_caches" where
  "mark_unread thread c = c\<lparr>unread_seen := AList.update thread True (unread_seen c)\<rparr>"

definition should_send_receipt :: "string \<Rightarrow> client_caches \<Rightarrow> bool \<times> client_caches" where
  "should_send_receipt thread c =
     (if map_of (unread_seen c) thread \<noteq> Some True then (False, c)
      else (True, c\<lparr>unread_seen := AList.delete thread (unread_seen c)\<rparr>))"

section \<open>On/off states of chats\<close>

text \<open>\<open>stateTracker\<close> (chat_state.go): the pins, mutes and unread marks last seen on Teams.\<close>

type_synonym state_tracker = "(string \<times> bool) list"

definition tracker_get :: "state_tracker \<Rightarrow> string \<Rightarrow> bool \<times> bool" where
  "tracker_get p thread = (case map_of p thread of Some b \<Rightarrow> (b, True) | None \<Rightarrow> (False, False))"

definition tracker_set :: "state_tracker \<Rightarrow> string \<Rightarrow> bool \<Rightarrow> state_tracker" where
  "tracker_set p thread on = AList.update thread on p"

definition tracker_changed :: "state_tracker \<Rightarrow> string \<Rightarrow> bool \<Rightarrow> bool \<times> state_tracker" where
  "tracker_changed p thread on =
     (case tracker_get p thread of (prev, known) \<Rightarrow>
        ((on \<and> (\<not> known \<or> \<not> prev)) \<or> (\<not> on \<and> known \<and> prev), tracker_set p thread on))"

text \<open>\<open>observe\<close>: the tag to announce; bridgev2's favourite tag is m.favourite.\<close>

definition tracker_observe :: "state_tracker \<Rightarrow> string \<Rightarrow> bool \<Rightarrow> string option \<times> state_tracker" where
  "tracker_observe p thread pinned =
     (case tracker_changed p thread pinned of (b, p') \<Rightarrow>
        (if \<not> b then None else Some (if pinned then ''m.favourite'' else []), p'))"

section \<open>Sweeping changes no answer\<close>

text \<open>
  Two states answer alike from \<open>now\<close> on: the windowed maps have the same entries in force at
  every later instant, and no entry is from the future.
\<close>

definition alike :: "duration \<Rightarrow> gotime \<Rightarrow> (string \<times> gotime) list \<Rightarrow> (string \<times> gotime) list \<Rightarrow> bool" where
  "alike window now m1 m2 \<longleftrightarrow> distinct (map fst m1) \<and> distinct (map fst m2) \<and>
     (\<forall>k t. (k, t) \<in> set m1 \<union> set m2 \<longrightarrow> 0 < t \<and> t \<le> now) \<and>
     (\<forall>k later. now \<le> later \<longrightarrow> in_force window m1 k later = in_force window m2 k later)"

definition caches_alike :: "gotime \<Rightarrow> client_caches \<Rightarrow> client_caches \<Rightarrow> bool" where
  "caches_alike now c1 c2 \<longleftrightarrow>
     alike typing_dedup_window now (typing_seen c1) (typing_seen c2) \<and>
     alike thread_active_window now (thread_active c1) (thread_active c2) \<and>
     alike receipt_idle_poll_interval now (receipt_poll c1) (receipt_poll c2) \<and>
     alike name_lookup_miss_ttl now (name_lookup_miss c1) (name_lookup_miss c2)"

text \<open>
  The maps of signatures and of announced reactions have no window: an entry counts until it is swept.  A swept map
  lacks of the other one only entries that are older than 12 hours.
\<close>

definition long_ago :: "gotime \<Rightarrow> ('v \<Rightarrow> gotime) \<Rightarrow> 'v option \<Rightarrow> bool" where
  "long_ago now stamp e \<longleftrightarrow> (case e of None \<Rightarrow> False | Some v \<Rightarrow> stamp v < now - 12 * hour)"

definition outlives :: "('v \<Rightarrow> gotime) \<Rightarrow> gotime \<Rightarrow> (string \<times> 'v) list \<Rightarrow> (string \<times> 'v) list \<Rightarrow> bool" where
  "outlives stamp now m1 m2 \<longleftrightarrow> distinct (map fst m1) \<and> distinct (map fst m2) \<and>
     (\<forall>k. map_of m1 k = map_of m2 k \<or> map_of m1 k = None \<and> long_ago now stamp (map_of m2 k))"

definition records_outlive :: "gotime \<Rightarrow> client_caches \<Rightarrow> client_caches \<Rightarrow> bool" where
  "records_outlive now c1 c2 \<longleftrightarrow>
     outlives sg_at now (reaction_sigs c1) (reaction_sigs c2) \<and> outlives sg_at now (edit_times c1) (edit_times c2) \<and>
     outlives sg_at now (chat_info_sigs c1) (chat_info_sigs c2) \<and> outlives id now (reaction_seen c1) (reaction_seen c2)"

lemma long_ago_None: "\<not> long_ago now stamp None"
  by (simp add: long_ago_def)

lemma long_ago_later: "long_ago now stamp e \<Longrightarrow> now \<le> later \<Longrightarrow> long_ago later stamp e"
  by (auto simp: long_ago_def split: option.splits)

lemma outlives_later: "outlives stamp now m1 m2 \<Longrightarrow> now \<le> later \<Longrightarrow> outlives stamp later m1 m2"
  unfolding outlives_def using long_ago_later by blast

lemma outlives_update: "outlives stamp now m1 m2 \<Longrightarrow> outlives stamp now (AList.update k v m1) (AList.update k v m2)"
  by (simp add: outlives_def distinct_update update_conv')

lemma outlives_delete: "outlives stamp now m1 m2 \<Longrightarrow> outlives stamp now (AList.delete k m1) (AList.delete k m2)"
  by (simp add: outlives_def distinct_delete delete_conv')

lemma outlives_sweep:
  assumes "outlives stamp now m1 m2"
  shows "outlives stamp now (fst (sweep_before m1 (now - 12 * hour) stamp)) m2"
proof -
  have d: "distinct (map fst m1)" "distinct (map fst m2)"
    and m: "\<And>k. map_of m1 k = map_of m2 k \<or> map_of m1 k = None \<and> long_ago now stamp (map_of m2 k)"
    using assms by (auto simp: outlives_def)
  let ?swept = "fst (sweep_before m1 (now - 12 * hour) stamp)"
  have s: "map_of ?swept k = map_of m1 k \<or> map_of ?swept k = None \<and> long_ago now stamp (map_of m1 k)" for k
    using d(1) by (cases "map_of m1 k") (simp_all add: sweep_before_def map_of_filter_distinct long_ago_def not_less [symmetric])
  have "map_of ?swept k = map_of m2 k \<or> map_of ?swept k = None \<and> long_ago now stamp (map_of m2 k)" for k
    using s [of k] m [of k] long_ago_None [of now stamp] by metis
  moreover have "distinct (map fst ?swept)" using d(1) by (simp add: sweep_before_def distinct_map_filter)
  ultimately show ?thesis using d(2) unfolding outlives_def by blast
qed

lemma outlives_cases:
  assumes "outlives stamp now m1 m2"
  shows "map_of m1 k = map_of m2 k \<or> long_ago now stamp (map_of m2 k) \<and> map_of m1 k = map_of (AList.delete k m2) k"
  using assms by (auto simp: outlives_def delete_conv')

lemma alike_later: "alike window now m1 m2 \<Longrightarrow> now \<le> later \<Longrightarrow> alike window later m1 m2"
  by (fastforce simp: alike_def)

lemma alike_in_force: "alike window now m1 m2 \<Longrightarrow> in_force window m1 k now = in_force window m2 k now"
  by (simp add: alike_def)

lemma in_force_update:
  "in_force window (AList.update k t m) k' now = (if k' = k then time_sub now t < window else in_force window m k' now)"
  by (simp add: in_force_def update_conv')

lemma in_force_delete:
  "distinct (map fst m) \<Longrightarrow> in_force window (AList.delete k m) k' now = (k' \<noteq> k \<and> in_force window m k' now)"
  by (simp add: in_force_def delete_conv')

lemma set_alist_update: "(k', v') \<in> set (AList.update k v m) \<Longrightarrow> (k', v') = (k, v) \<or> (k', v') \<in> set m"
  by (induction m) (auto split: if_splits)

lemma set_alist_delete: "x \<in> set (AList.delete k m) \<Longrightarrow> x \<in> set m"
  by (auto simp: AList.delete_eq)

lemma alike_update:
  assumes "alike window now m1 m2" and "0 < now"
  shows "alike window now (AList.update k now m1) (AList.update k now m2)"
  using assms
  by (auto simp: alike_def distinct_update in_force_update dest!: set_alist_update)

lemma alike_delete:
  assumes "alike window now m1 m2"
  shows "alike window now (AList.delete k m1) (AList.delete k m2)"
  using assms
  by (auto simp: alike_def distinct_delete in_force_delete dest!: set_alist_delete)

lemma alike_sym: "alike window now m1 m2 \<Longrightarrow> alike window now m2 m1"
  by (auto simp: alike_def)

text \<open>A state is alike to itself swept, so a sweep of either of two alike states keeps them alike.\<close>

context windowed_cache
begin

lemma alike_sweep:
  assumes "alike window now (entries s) m"
  shows "alike window now (entries (sweep now s)) m"
proof -
  have d: "distinct (map fst (entries s))" using assms by (simp add: alike_def)
  have "set (entries (sweep now s)) \<subseteq> set (entries s)" by (auto simp: sweep_entries sweep_before_def)
  then show ?thesis
    using assms sweep_distinct [OF d, of now] sweep_in_force [OF d]
    unfolding alike_def by (simp add: subset_iff) blast
qed

end

lemma caches_alike_sweep: "caches_alike now c1 c2 \<Longrightarrow> caches_alike now (swept now c1) c2"
  by (simp add: caches_alike_def typing_cache.alike_sweep active_cache.alike_sweep receipt_cache.alike_sweep
      miss_cache.alike_sweep)

lemma caches_alike_later: "caches_alike now c1 c2 \<Longrightarrow> now \<le> later \<Longrightarrow> caches_alike later c1 c2"
  by (auto simp: caches_alike_def intro: alike_later)

text \<open>What a client asks of its maps, and the answer where there is one.\<close>

datatype cache_op =
    Emit_Typing string string
  | Own_Send string
  | Wake_Receipts string
  | Idle_Cap bool string
  | Poll_Receipts string
  | Name_Missed string
  | Record_Miss string
  | Reactions_Polled string string
  | Edit_Polled string string
  | Edit_Forgotten string
  | Chat_Listed string string
  | Mark_Reactions string bool
  | Sweep

datatype cache_answer = Yes_No bool | Cap duration | News string bool | Nothing

fun cache_do :: "gotime \<Rightarrow> cache_op \<Rightarrow> client_caches \<Rightarrow> cache_answer \<times> client_caches" where
  "cache_do now (Emit_Typing th u) c = (case should_emit_typing now th u c of (b, c') \<Rightarrow> (Yes_No b, c'))"
| "cache_do now (Own_Send th) c = (Nothing, note_thread_active now th c)"
| "cache_do now (Wake_Receipts th) c = (Nothing, forget_receipt_poll th c)"
| "cache_do now (Idle_Cap watched th) c = (Cap (idle_cap_for watched now th c), c)"
| "cache_do now (Poll_Receipts th) c = (case should_poll_receipts now th c of (b, c') \<Rightarrow> (Yes_No b, c'))"
| "cache_do now (Name_Missed u) c = (Yes_No (recent_name_lookup_miss now u c), c)"
| "cache_do now (Record_Miss u) c = (Nothing, record_name_lookup_miss now u c)"
| "cache_do now (Reactions_Polled i sig) c = (case reaction_state_changed now i sig c of (b, c') \<Rightarrow> (Yes_No b, c'))"
| "cache_do now (Edit_Polled i sig) c = (case message_state_changed now i sig c of (b, c') \<Rightarrow> (Yes_No b, c'))"
| "cache_do now (Edit_Forgotten i) c = (Nothing, forget_message_state i c)"
| "cache_do now (Chat_Listed th sig) c = (case chat_info_changed now th sig c of ((prev, b), c') \<Rightarrow> (News prev b, c'))"
| "cache_do now (Mark_Reactions i seen) c = (case mark_reaction_seen now i seen c of (b, c') \<Rightarrow> (Yes_No b, c'))"
| "cache_do now Sweep c = (Nothing, swept now c)"

lemma should_emit_typing_eq:
  "should_emit_typing now th u c =
     (if in_force typing_dedup_window (typing_seen c) (typing_key th u) now then (False, c)
      else (True, c\<lparr>typing_seen := AList.update (typing_key th u) now (typing_seen c)\<rparr>))"
  by (auto simp: should_emit_typing_def in_force_def Let_def split: option.splits)

lemma thread_is_active_eq: "thread_is_active now th c = in_force thread_active_window (thread_active c) th now"
  by (auto simp: thread_is_active_def in_force_def split: option.splits)

lemma recent_name_lookup_miss_eq:
  "recent_name_lookup_miss now u c = in_force name_lookup_miss_ttl (name_lookup_miss c) u now"
  by (auto simp: recent_name_lookup_miss_def in_force_def split: option.splits)

lemma should_poll_receipts_eq:
  assumes "\<forall>(k, t) \<in> set (receipt_poll c). 0 < t \<and> t \<le> now"
  shows "should_poll_receipts now th c =
     (if \<not> in_force thread_active_window (thread_active c) th now \<and>
         in_force receipt_idle_poll_interval (receipt_poll c) th now
      then (False, c) else (True, c\<lparr>receipt_poll := AList.update th now (receipt_poll c)\<rparr>))"
proof -
  have "0 < t \<and> \<not> time_sub now t < 0" if "map_of (receipt_poll c) th = Some t" for t
    using assms map_of_SomeD [OF that] by (auto simp: time_sub_def)
  then show ?thesis
    by (auto simp: should_poll_receipts_def in_force_def receipt_idle_poll_interval_def Let_def time_sub_def
        split: option.splits)
qed

text \<open>
  A request about a record last written more than 12 hours ago, and the client without that record.
\<close>

fun outdated :: "gotime \<Rightarrow> cache_op \<Rightarrow> client_caches \<Rightarrow> bool" where
  "outdated now (Reactions_Polled i sig) c = long_ago now sg_at (map_of (reaction_sigs c) i)"
| "outdated now (Edit_Polled i sig) c = long_ago now sg_at (map_of (edit_times c) i)"
| "outdated now (Chat_Listed th sig) c = long_ago now sg_at (map_of (chat_info_sigs c) th)"
| "outdated now (Mark_Reactions i seen) c = long_ago now id (map_of (reaction_seen c) i)"
| "outdated now op c = False"

fun without_record :: "cache_op \<Rightarrow> client_caches \<Rightarrow> client_caches" where
  "without_record (Reactions_Polled i sig) c = c\<lparr>reaction_sigs := AList.delete i (reaction_sigs c)\<rparr>"
| "without_record (Edit_Polled i sig) c = c\<lparr>edit_times := AList.delete i (edit_times c)\<rparr>"
| "without_record (Chat_Listed th sig) c = c\<lparr>chat_info_sigs := AList.delete th (chat_info_sigs c)\<rparr>"
| "without_record (Mark_Reactions i seen) c = c\<lparr>reaction_seen := AList.delete i (reaction_seen c)\<rparr>"
| "without_record op c = c"

definition same_answer :: "gotime \<Rightarrow> cache_op \<Rightarrow> client_caches \<Rightarrow> cache_answer \<Rightarrow> cache_answer \<Rightarrow> bool" where
  "same_answer now op c a b \<longleftrightarrow> b = a \<or> outdated now op c \<and> b = fst (cache_do now op (without_record op c))"

lemma sig_changed_parts:
  "fst (sig_changed now k sig m) = (case map_of m k of None \<Rightarrow> True | Some p \<Rightarrow> sg_sig p \<noteq> sig)"
  "snd (sig_changed now k sig m) = AList.update k \<lparr>sg_sig = sig, sg_at = now\<rparr> m"
  by (simp_all add: sig_changed_def split: option.splits)

lemma record_fields:
  "reaction_sigs (swept now c) = fst (sweep_before (reaction_sigs c) (now - 12 * hour) sg_at)"
  "edit_times (swept now c) = fst (sweep_before (edit_times c) (now - 12 * hour) sg_at)"
  "chat_info_sigs (swept now c) = fst (sweep_before (chat_info_sigs c) (now - 12 * hour) sg_at)"
  "reaction_seen (swept now c) = fst (sweep_before (reaction_seen c) (now - 12 * hour) id)"
  by (simp_all add: sweep_caches_def split_beta Let_def reaction_state_ttl_def chat_info_ttl_def)

lemma records_outlive_sweep: "records_outlive now c1 c2 \<Longrightarrow> records_outlive now (swept now c1) c2"
  by (simp add: records_outlive_def record_fields outlives_sweep [simplified])

lemma records_outlive_later: "records_outlive now c1 c2 \<Longrightarrow> now \<le> later \<Longrightarrow> records_outlive later c1 c2"
  by (auto simp: records_outlive_def intro: outlives_later)

fun about_record :: "cache_op \<Rightarrow> bool" where
  "about_record (Reactions_Polled i sig) = True"
| "about_record (Edit_Polled i sig) = True"
| "about_record (Edit_Forgotten i) = True"
| "about_record (Chat_Listed th sig) = True"
| "about_record (Mark_Reactions i seen) = True"
| "about_record op = False"

lemma records_windowed:
  "about_record op \<Longrightarrow> typing_seen (snd (cache_do now op c)) = typing_seen c \<and> thread_active (snd (cache_do now op c)) = thread_active c \<and>
     receipt_poll (snd (cache_do now op c)) = receipt_poll c \<and> name_lookup_miss (snd (cache_do now op c)) = name_lookup_miss c"
  by (cases op) (auto simp: reaction_state_changed_def message_state_changed_def forget_message_state_def chat_info_changed_def
      mark_reaction_seen_def split_beta Let_def)

lemma cache_do_windowed:
  assumes "caches_alike now c1 c2" and "0 < now" and "op \<noteq> Sweep"
  shows "caches_alike now (snd (cache_do now op c1)) (snd (cache_do now op c2)) \<and>
    (about_record op \<or> fst (cache_do now op c1) = fst (cache_do now op c2))"
proof (cases "about_record op")
  case True
  then show ?thesis using assms(1) by (simp add: caches_alike_def records_windowed)
next
  case False
  show ?thesis
  proof (cases op)
    case (Poll_Receipts th)
    have "\<forall>(k, t) \<in> set (receipt_poll c1). 0 < t \<and> t \<le> now" "\<forall>(k, t) \<in> set (receipt_poll c2). 0 < t \<and> t \<le> now"
      using assms by (auto simp: caches_alike_def alike_def)
    then show ?thesis
      using assms Poll_Receipts
      by (auto simp: should_poll_receipts_eq caches_alike_def alike_in_force intro: alike_update)
  qed (use assms False in \<open>auto simp: should_emit_typing_eq thread_is_active_eq recent_name_lookup_miss_eq idle_cap_for_def
      caches_alike_def alike_in_force note_thread_active_def forget_receipt_poll_def record_name_lookup_miss_def
      intro: alike_update alike_delete\<close>)
qed

lemma other_records:
  "\<not> about_record op \<Longrightarrow> op \<noteq> Sweep \<Longrightarrow> reaction_sigs (snd (cache_do now op c)) = reaction_sigs c \<and>
     edit_times (snd (cache_do now op c)) = edit_times c \<and> chat_info_sigs (snd (cache_do now op c)) = chat_info_sigs c \<and>
     reaction_seen (snd (cache_do now op c)) = reaction_seen c"
  by (cases op) (auto simp: should_emit_typing_eq note_thread_active_def forget_receipt_poll_def record_name_lookup_miss_def
      should_poll_receipts_def Let_def)

lemma cache_do_records:
  assumes "records_outlive now c1 c2" and "op \<noteq> Sweep"
  shows "records_outlive now (snd (cache_do now op c1)) (snd (cache_do now op c2)) \<and>
    (about_record op \<longrightarrow> same_answer now op c2 (fst (cache_do now op c2)) (fst (cache_do now op c1)))"
proof (cases op)
  case (Reactions_Polled i sig)
  then show ?thesis
    using assms(1) outlives_cases [of sg_at now "reaction_sigs c1" "reaction_sigs c2" i]
    by (auto simp: records_outlive_def reaction_state_changed_def sig_changed_parts split_beta same_answer_def intro: outlives_update)
next
  case (Edit_Polled i sig)
  then show ?thesis
    using assms(1) outlives_cases [of sg_at now "edit_times c1" "edit_times c2" i]
    by (auto simp: records_outlive_def message_state_changed_def sig_changed_parts split_beta same_answer_def intro: outlives_update)
next
  case (Chat_Listed i sig)
  then show ?thesis
    using assms(1) outlives_cases [of sg_at now "chat_info_sigs c1" "chat_info_sigs c2" i]
    by (auto simp: records_outlive_def chat_info_changed_def sig_changed_parts split_beta Let_def same_answer_def intro: outlives_update)
next
  case (Edit_Forgotten i)
  then show ?thesis
    using assms(1) by (auto simp: records_outlive_def forget_message_state_def same_answer_def intro: outlives_delete)
next
  case (Mark_Reactions i seen)
  have gone: "outlives id now m1 (AList.delete i m2)" if "outlives id now m1 m2" "map_of m1 i = None" for m1 m2 :: "(string \<times> gotime) list"
    using that by (auto simp: outlives_def distinct_delete delete_conv')
  show ?thesis
    using assms(1) outlives_cases [of id now "reaction_seen c1" "reaction_seen c2" i] Mark_Reactions
    by (auto simp: records_outlive_def mark_reaction_seen_def Let_def same_answer_def delete_conv' outlives_update outlives_delete gone)
qed (use assms other_records [of op now] in \<open>auto simp: records_outlive_def\<close>)

text \<open>
  A timed sequence of requests: each that is no sweep, the client it was made to, and the answer.
\<close>

fun cache_trace :: "client_caches \<Rightarrow> (gotime \<times> cache_op) list \<Rightarrow> (gotime \<times> cache_op \<times> client_caches \<times> cache_answer) list" where
  "cache_trace c [] = []"
| "cache_trace c ((now, op) # ops) =
     (if op = Sweep then cache_trace (snd (cache_do now op c)) ops
      else (now, op, c, fst (cache_do now op c)) # cache_trace (snd (cache_do now op c)) ops)"

definition answers_agree :: "gotime \<times> cache_op \<times> client_caches \<times> cache_answer \<Rightarrow> gotime \<times> cache_op \<times> client_caches \<times> cache_answer \<Rightarrow> bool" where
  "answers_agree x y \<longleftrightarrow>
     (case x of (now, op, c, a) \<Rightarrow> case y of (now', op', _, b) \<Rightarrow> now' = now \<and> op' = op \<and> same_answer now op c a b)"

lemma cache_traces_agree:
  assumes "caches_alike t0 c1 c2" and "records_outlive t0 c1 c2" and "0 < t0" and "sorted (t0 # map fst ops)"
  shows "list_all2 answers_agree (cache_trace c2 (filter (\<lambda>x. snd x \<noteq> Sweep) ops)) (cache_trace c1 ops)"
  using assms
proof (induction ops arbitrary: t0 c1 c2)
  case (Cons x ops)
  obtain now op where x: "x = (now, op)" by fastforce
  have now: "0 < now" "t0 \<le> now" and s: "sorted (now # map fst ops)" using Cons.prems x by auto
  have a: "caches_alike now c1 c2" using Cons.prems(1) now(2) by (rule caches_alike_later)
  have r: "records_outlive now c1 c2" using Cons.prems(2) now(2) by (rule records_outlive_later)
  show ?case
  proof (cases "op = Sweep")
    case True
    then show ?thesis
      using Cons.IH [OF caches_alike_sweep [OF a] records_outlive_sweep [OF r] now(1) s] by (simp add: x)
  next
    case False
    note w = cache_do_windowed [OF a now(1) False] and k = cache_do_records [OF r False]
    have "same_answer now op c2 (fst (cache_do now op c2)) (fst (cache_do now op c1))"
      using w k by (auto simp: same_answer_def)
    then show ?thesis
      using Cons.IH [OF conjunct1 [OF w] conjunct1 [OF k] now(1) s] False by (simp add: x answers_agree_def)
  qed
qed simp

section \<open>Properties\<close>

text \<open>C7: Sweeping forgets nothing that still counts.  For any requests at non-decreasing times to the eight swept maps, on any
  schedule of sweeps between them, a client that sweeps answers each request as one that never does: whether a
  typing event is let through, what a thread's idle cap is, whether read positions are due, whether a name lookup missed
  recently, and whether a message's reactions, its edit or a chat's information are news and reactions were announced.
  The one exception is a request about a signature or an announced mark last written more than 12 hours ago: to this a
  sweeping client may answer as if it had no such record, so that it is announced once more.\<close>

theorem sweep_transparent:
  assumes "0 < t0" and "sorted (t0 # map fst ops)"
  shows "list_all2
    (\<lambda>(now, op, c, a) (now', op', _, b). now' = now \<and> op' = op \<and>
       (b = a \<or> outdated now op c \<and> b = fst (cache_do now op (without_record op c))))
    (cache_trace no_caches (filter (\<lambda>x. snd x \<noteq> Sweep) ops)) (cache_trace no_caches ops)"
proof -
  have "caches_alike t0 no_caches no_caches" "records_outlive t0 no_caches no_caches"
    by (simp_all add: caches_alike_def alike_def records_outlive_def outlives_def no_caches_def)
  from cache_traces_agree [OF this assms] show ?thesis
    by (rule list_all2_mono) (auto simp: answers_agree_def same_answer_def)
qed

text \<open>Typing within three seconds, and a chat listed again after 13 hours with a sweep in between.\<close>

theorem sweep_transparent_witness:
  "let ops = [(5 * second, Emit_Typing ''19:a'' ''8:u''), (7 * second, Sweep), (7 * second, Emit_Typing ''19:a'' ''8:u''),
     (9 * second, Chat_Listed ''19:a'' ''x''), (13 * hour, Sweep), (13 * hour, Chat_Listed ''19:a'' ''x'')] in
   map (\<lambda>(_, _, _, a). a) (cache_trace no_caches (filter (\<lambda>x. snd x \<noteq> Sweep) ops)) = [Yes_No True, Yes_No False, News [] True, News ''x'' False] \<and>
   (\<exists>b. map (\<lambda>(_, _, _, a). a) (cache_trace no_caches ops) = [Yes_No True, Yes_No False, News [] True, b] \<and>
      (b = News ''x'' False \<or> b = News [] True))"
proof -
  let ?ops = "[(5 * second, Emit_Typing ''19:a'' ''8:u''), (7 * second, Sweep), (7 * second, Emit_Typing ''19:a'' ''8:u''),
     (9 * second, Chat_Listed ''19:a'' ''x''), (13 * hour, Sweep), (13 * hour, Chat_Listed ''19:a'' ''x'')] :: (gotime \<times> cache_op) list"
  let ?agree = "\<lambda>(now, op, c, a) (now', op', _, b). now' = now \<and> op' = op \<and>
       (b = a \<or> outdated now op c \<and> b = fst (cache_do now op (without_record op c)))"
  have agree: "list_all2 ?agree (cache_trace no_caches (filter (\<lambda>x. snd x \<noteq> Sweep) ?ops)) (cache_trace no_caches ?ops)"
    by (rule sweep_transparent [of 1]) simp_all
  let ?c = "no_caches\<lparr>typing_seen := [(typing_key ''19:a'' ''8:u'', 5 * second)], chat_info_sigs := [(''19:a'', \<lparr>sg_sig = ''x'', sg_at = 9 * second\<rparr>)]\<rparr>"
  have plain: "\<exists>c1 c2 c3. cache_trace no_caches (filter (\<lambda>x. snd x \<noteq> Sweep) ?ops) =
      [(5 * second, Emit_Typing ''19:a'' ''8:u'', c1, Yes_No True), (7 * second, Emit_Typing ''19:a'' ''8:u'', c2, Yes_No False),
       (9 * second, Chat_Listed ''19:a'' ''x'', c3, News [] True), (13 * hour, Chat_Listed ''19:a'' ''x'', ?c, News ''x'' False)] \<and>
      chat_info_sigs c3 = []"
    by (simp add: should_emit_typing_def no_caches_def typing_dedup_window_def time_sub_def typing_key_def chat_info_changed_def
        sig_changed_def Let_def)
  have "fst (cache_do (13 * hour) (Chat_Listed ''19:a'' ''x'') (without_record (Chat_Listed ''19:a'' ''x'') ?c)) = News [] True"
    by (simp add: chat_info_changed_def sig_changed_def Let_def)
  then show ?thesis
    using agree plain by (auto simp: list_all2_Cons1 long_ago_def Let_def)
qed

text \<open>
  The announcements a tracker makes of a thread while discovery reports states of any threads.
\<close>

fun tracker_announced :: "string \<Rightarrow> state_tracker \<Rightarrow> (string \<times> bool) list \<Rightarrow> bool list" where
  "tracker_announced th p [] = []"
| "tracker_announced th p ((th', on) # obs) =
     (case tracker_changed p th' on of (b, p') \<Rightarrow>
        if b \<and> th' = th then on # tracker_announced th p' obs else tracker_announced th p' obs)"

lemma tracker_changed_eq:
  "tracker_changed p th on = (on \<noteq> (map_of p th = Some True), AList.update th on p)"
  by (auto simp: tracker_changed_def tracker_get_def tracker_set_def split: option.splits)

lemma tracker_announced_eq:
  "tracker_announced th p obs =
     tl (remdups_adj ((map_of p th = Some True) # map snd (filter (\<lambda>x. fst x = th) obs)))"
proof (induction obs arbitrary: p)
  case (Cons x obs)
  obtain th' on where x: "x = (th', on)" by fastforce
  have other: "tracker_announced th (AList.update th' on p) obs =
    tl (remdups_adj ((map_of (AList.update th' on p) th = Some True) # map snd (filter (\<lambda>x. fst x = th) obs)))"
    by (rule Cons.IH)
  show ?case
    using other by (cases "th' = th") (auto simp: x tracker_changed_eq update_conv' remdups_adj_Cons split: list.splits)
qed simp

text \<open>A chat's pin, mute or unread mark is announced exactly when it changes, the first
  report counting as a change only when it is on: the announcements for a thread are the
  reported states without repeats, less a leading off, whatever is reported of other threads.\<close>

lemma tracker_announces_changes:
  "tracker_announced th [] obs = tl (remdups_adj (False # map snd (filter (\<lambda>x. fst x = th) obs)))"
  by (simp add: tracker_announced_eq)

text \<open>What a recorded message leaves: a record for its time to live, taken by the first message with its ID.\<close>

lemma recorded_then_consumed:
  assumes "trim_space i \<noteq> []" and "t \<le> t'" and "t' - t \<le> self_message_ttl"
    and "distinct (map fst (self_messages c))"
  shows "\<exists>c'. consume_self_message t' i (record_self_message t i c) = (True, c') \<and>
    fst (consume_self_message t'' i c') = False"
proof -
  let ?i = "trim_space i"
  let ?m = "AList.update ?i t (self_messages (cleanup_self_messages t c))"
  have d: "distinct (map fst ?m)"
    using assms(4) by (simp add: cleanup_self_messages_def distinct_update distinct_map_filter)
  have keep: "\<not> self_message_ttl < time_sub t' t"
    using assms(3) by (simp add: time_sub_def self_message_ttl_def)
  let ?M = "filter (\<lambda>(_, ts). \<not> self_message_ttl < time_sub t' ts) ?m"
  have "map_of ?M ?i = Some t"
    using d keep by (simp add: map_of_filter_distinct update_conv')
  moreover define c' where "c' = (cleanup_self_messages t' (record_self_message t i c))\<lparr>self_messages := AList.delete ?i ?M\<rparr>"
  ultimately have "consume_self_message t' i (record_self_message t i c) = (True, c')"
    using assms(1)
    by (simp add: consume_self_message_def record_self_message_def Let_def cleanup_self_messages_def)
  moreover have "map_of (filter (\<lambda>(_, ts). \<not> self_message_ttl < time_sub t'' ts) (AList.delete ?i ?M)) ?i = None"
    by (auto simp: map_of_eq_None_iff AList.delete_eq)
  then have "fst (consume_self_message t'' i c') = False"
    using assms(1) by (simp add: c'_def consume_self_message_def Let_def cleanup_self_messages_def)
  ultimately show ?thesis by blast
qed

text \<open>The echo of an own message is recognised once: within the time to live of its record
  the message with that client ID is taken for the echo, and a second one is not.\<close>

lemma self_echo_once:
  assumes "trim_space i \<noteq> []" and "t \<le> t'" and "t' - t \<le> self_message_ttl"
    and "distinct (map fst (self_messages c))"
  shows "\<exists>c'. consume_self_message t' i (record_self_message t i c) = (True, c') \<and>
    fst (consume_self_message t'' i c') = False"
  by (rule recorded_then_consumed [OF assms])

lemma self_echo_once_example:
  "\<exists>c'. consume_self_message (60 * second) ''17'' (record_self_message (50 * second) ''17'' no_caches) = (True, c') \<and>
     fst (consume_self_message (61 * second) ''17'' c') = False"
proof -
  have "trim_space ''17'' = ''17''" by (simp add: trim_space_plain plain_ends_def)
  then show ?thesis
    by (intro self_echo_once) (simp_all add: self_message_ttl_def no_caches_def)
qed

end
