(* ===== verification/In_Place.thy ===== *)
theory In_Place
  imports Remote_Events Caches "HOL-Library.Multiset"
begin

text \<open>
  What Teams changes on messages the poller has already passed: reactions
  (reaction_sync.go), edits and deletes in place (edit_sync.go).

  The bridge database of bridgev2, its event sink and the emoji tables are the parameters of
  \<open>bridge_env\<close>.  State is the client's maps and the events queued so far, oldest first.
\<close>

section \<open>The bridge around the client\<close>

text \<open>One bridged part of a message: the edit time in its metadata (where it has Teams
  metadata) and the Matrix user it was sent as.\<close>

record bridge_part =
  bp_edit_time :: "int option"
  bp_sender_mxid :: string

record bridge_env =
  be_login :: string
  be_self :: string
  be_user_mxid :: string
  be_emoji :: "string \<Rightarrow> string option"
  be_parts :: "string \<Rightarrow> go_error + bridge_part list"
  be_known :: "string \<Rightarrow> bool"
  be_reactions :: "string \<Rightarrow> go_error + nat"

type_synonym queue_state = "client_caches \<times> remote_event list"

definition push_event :: "remote_event \<Rightarrow> queue_state \<Rightarrow> queue_state" where
  "push_event e s = (fst s, snd s @ [e])"

definition self_id :: "bridge_env \<Rightarrow> string" where
  "self_id env = normalize_teams_user_id (be_self env)"

definition user_sender :: "bridge_env \<Rightarrow> string \<Rightarrow> event_sender" where
  "user_sender env u =
     (if self_id env \<noteq> [] \<and> u = self_id env
      then \<lparr>es_sender = network_user_id u, es_from_me = True, es_login = be_login env\<rparr>
      else other_sender u)"

section \<open>Reactions\<close>

definition reaction_parts :: "message_reaction list \<Rightarrow> string list" where
  "reaction_parts rs = concat (map (\<lambda>r. map (\<lambda>u. trim_space (emotion_key r) @ ''|'' @
     normalize_teams_user_id (ru_mri u) @ ''|'' @ show_int (ru_time_ms u)) (reaction_users r)) rs)"

definition reaction_signature :: "message_reaction list \<Rightarrow> string" where
  "reaction_signature rs = (if rs = [] then [] else join_with '';'' (sort (reaction_parts rs)))"

text \<open>Appending a reaction to its user's list, in a map keyed by the network user ID.\<close>

definition add_reaction :: "string \<Rightarrow> reaction_entry \<Rightarrow> reaction_data \<Rightarrow> reaction_data" where
  "add_reaction k r d = AList.update k (case map_of d k of Some rs \<Rightarrow> rs @ [r] | None \<Rightarrow> [r]) d"

fun add_users :: "bridge_env \<Rightarrow> string \<Rightarrow> string \<Rightarrow> reaction_user list \<Rightarrow> reaction_data \<Rightarrow> reaction_data" where
  "add_users env key emoji [] d = d"
| "add_users env key emoji (u # us) d =
     (let i = normalize_teams_user_id (ru_mri u) in
      if i = [] \<or> is_likely_thread_id i then add_users env key emoji us d
      else (let s = user_sender env i;
                t = (if ru_time_ms u \<noteq> 0 then of_unix_milli (ru_time_ms u) else zero_time) in
            add_users env key emoji us
              (add_reaction (es_sender s) \<lparr>re_sender = s, re_emotion = key, re_emoji = emoji, re_time = t\<rparr> d)))"

fun add_reactions :: "bridge_env \<Rightarrow> message_reaction list \<Rightarrow> reaction_data \<Rightarrow> reaction_data" where
  "add_reactions env [] d = d"
| "add_reactions env (r # rs) d =
     (let key = trim_space (emotion_key r) in
      if key = [] then add_reactions env rs d
      else (case be_emoji env key of
              None \<Rightarrow> add_reactions env rs d
            | Some emoji \<Rightarrow> add_reactions env rs (add_users env key emoji (reaction_users r) d)))"

definition build_reaction_sync_data :: "bridge_env \<Rightarrow> message_reaction list \<Rightarrow> reaction_data option" where
  "build_reaction_sync_data env rs =
     (let d = add_reactions env rs [] in if d = [] then None else Some d)"

definition should_send_empty_reaction_sync :: "bridge_env \<Rightarrow> gotime \<Rightarrow> string \<Rightarrow> client_caches \<Rightarrow> bool \<times> client_caches" where
  "should_send_empty_reaction_sync env now msg c =
     (case mark_reaction_seen now msg False c of (seen, c') \<Rightarrow>
        if seen then (True, c')
        else (case be_reactions env msg of Inl e \<Rightarrow> (False, c') | Inr n \<Rightarrow> (0 < n, c')))"

text \<open>\<open>addCandidate\<close> and \<open>addCanonicalAndLegacy\<close>: the plain form, then the one with msg/.\<close>

definition add_candidate :: "string \<Rightarrow> string list \<Rightarrow> string list" where
  "add_candidate value cs = (let v = trim_space value in if v = [] \<or> v \<in> set cs then cs else cs @ [v])"

definition add_canonical_and_legacy :: "string \<Rightarrow> string list \<Rightarrow> string list" where
  "add_canonical_and_legacy value cs =
     (let v = trim_space value in
      if v = [] then cs
      else (let n = normalize_reaction_message_id v; cs1 = add_candidate n cs in
            if n \<noteq> [] then add_candidate (''msg/'' @ n) cs1 else cs1))"

definition reaction_candidates :: "string \<Rightarrow> remote_message \<Rightarrow> string list" where
  "reaction_candidates msg m =
     add_canonical_and_legacy (client_message_id m) (add_canonical_and_legacy (sequence_id m)
       (add_canonical_and_legacy (message_id m) (add_canonical_and_legacy msg [])))"

definition resolve_reaction_target :: "bridge_env \<Rightarrow> string \<Rightarrow> remote_message \<Rightarrow> string" where
  "resolve_reaction_target env msg m =
     (let cs = reaction_candidates msg m in
      if cs = [] then []
      else (case find (be_known env) cs of Some c \<Rightarrow> c | None \<Rightarrow> hd cs))"

definition queue_reaction_sync ::
  "bridge_env \<Rightarrow> gotime \<Rightarrow> thread_state \<Rightarrow> remote_message \<Rightarrow> string \<Rightarrow> queue_state \<Rightarrow> queue_state" where
  "queue_reaction_sync env now th m id0 s =
     (let id1 = trim_space id0;
          i = (if id1 = [] then effective_remote_message_id m else id1) in
      if i = [] then s
      else (case reaction_state_changed now i (reaction_signature (msg_reactions m)) (fst s) of (changed, c1) \<Rightarrow>
        if \<not> changed then (c1, snd s)
        else (let target = resolve_reaction_target env i m in
              case build_reaction_sync_data env (msg_reactions m) of
                Some d \<Rightarrow>
                  push_event (Reaction_Event (portal_key (be_login env) (ts_thread_id th)) (msg_timestamp m) target d) (c1, snd s)
              | None \<Rightarrow>
                  (case should_send_empty_reaction_sync env now target c1 of (send, c2) \<Rightarrow>
                     if send
                     then push_event (Reaction_Event (portal_key (be_login env) (ts_thread_id th)) (msg_timestamp m) target []) (c2, snd s)
                     else (c2, snd s)))))"

section \<open>Edits and deletes in place\<close>

definition queue_in_place_delete :: "bridge_env \<Rightarrow> gotime \<Rightarrow> thread_state \<Rightarrow> string \<Rightarrow> queue_state \<Rightarrow> queue_state" where
  "queue_in_place_delete env now th i s =
     (if i = [] then s
      else (case message_state_changed now i ''deleted'' (fst s) of (changed, c1) \<Rightarrow>
        if \<not> changed then (c1, snd s)
        else (case be_parts env i of
                Inl e \<Rightarrow> (forget_message_state i c1, snd s)
              | Inr ps \<Rightarrow>
                  if ps = [] then (c1, snd s)
                  else push_event (Remove_Event (portal_key (be_login env) (ts_thread_id th)) no_sender now i) (c1, snd s))))"

definition already_bridged :: "int \<Rightarrow> bridge_part list \<Rightarrow> bool" where
  "already_bridged edit ps \<longleftrightarrow> (\<exists>p \<in> set ps. case bp_edit_time p of Some t \<Rightarrow> edit \<le> t | None \<Rightarrow> False)"

definition queue_in_place_edit ::
  "bridge_env \<Rightarrow> gotime \<Rightarrow> thread_state \<Rightarrow> remote_message \<Rightarrow> string \<Rightarrow> string \<Rightarrow> queue_state \<Rightarrow> queue_state" where
  "queue_in_place_edit env now th m i self s =
     (let edit = extract_edit_time (properties_raw m) in
      if i = [] then s
      else if edit \<le> 0 \<or> is_deleted (properties_raw m) then s
      else (case message_state_changed now i (show_int edit) (fst s) of (changed, c1) \<Rightarrow>
        if \<not> changed then (c1, snd s)
        else (let who = normalize_teams_user_id (sender_id m) in
          if who = [] \<or> is_likely_thread_id who \<or> is_system_message_type (message_type m) then (c1, snd s)
          else (case be_parts env i of
                  Inl e \<Rightarrow> (forget_message_state i c1, snd s)
                | Inr ps \<Rightarrow>
                    if ps = [] \<or> already_bridged edit ps then (c1, snd s)
                    else (let es = (if self \<noteq> [] \<and> who = self \<and> bp_sender_mxid (hd ps) = be_user_mxid env
                                    then \<lparr>es_sender = network_user_id who, es_from_me = True, es_login = be_login env\<rparr>
                                    else other_sender who) in
                          push_event (Edit_Event (portal_key (be_login env) (ts_thread_id th)) es (of_unix_milli edit)
                              (i @ '':edit:'' @ show_int edit) i m) (c1, snd s))))))"

definition queue_in_place_change ::
  "bridge_env \<Rightarrow> gotime \<Rightarrow> thread_state \<Rightarrow> remote_message \<Rightarrow> string \<Rightarrow> string \<Rightarrow> queue_state \<Rightarrow> queue_state" where
  "queue_in_place_change env now th m i self s =
     (if is_deleted (properties_raw m) then queue_in_place_delete env now th i s
      else queue_in_place_edit env now th m i self s)"

section \<open>Facts\<close>

lemma sig_changed_eq:
  "sig_changed now k sig m =
     ((case map_of m k of None \<Rightarrow> True | Some p \<Rightarrow> sg_sig p \<noteq> sig), AList.update k \<lparr>sg_sig = sig, sg_at = now\<rparr> m)"
  by (simp add: sig_changed_def split: option.splits)

text \<open>A signature that was just recorded is no news.\<close>

lemma sig_changed_again: "fst (sig_changed now' k sig (snd (sig_changed now k sig m))) = False"
  by (simp add: sig_changed_eq update_conv')

lemma push_event_simps [simp]: "fst (push_event e s) = fst s" "snd (push_event e s) = snd s @ [e]"
  by (simp_all add: push_event_def)

lemma join_with_cong: "xs = ys \<Longrightarrow> join_with s xs = join_with s ys"
  by simp

lemma reaction_parts_mset:
  "image_mset (\<lambda>r. (emotion_key r, mset (reaction_users r))) (mset rs) =
   image_mset (\<lambda>r. (emotion_key r, mset (reaction_users r))) (mset rs') \<Longrightarrow>
   mset (reaction_parts rs) = mset (reaction_parts rs')"
proof -
  define f where "f k u = trim_space k @ ''|'' @ normalize_teams_user_id (ru_mri u) @ ''|'' @ show_int (ru_time_ms u)" for k and u :: reaction_user
  have parts: "mset (reaction_parts rs) = \<Sum>\<^sub># (image_mset (\<lambda>(k, us). image_mset (f k) us)
      (image_mset (\<lambda>r. (emotion_key r, mset (reaction_users r))) (mset rs)))" for rs
    by (induction rs) (simp_all add: reaction_parts_def f_def)
  assume "image_mset (\<lambda>r. (emotion_key r, mset (reaction_users r))) (mset rs) =
    image_mset (\<lambda>r. (emotion_key r, mset (reaction_users r))) (mset rs')"
  then show ?thesis by (simp only: parts)
qed

lemma image_mset_empty: "image_mset f (mset xs) = image_mset f (mset ys) \<Longrightarrow> xs = [] \<longleftrightarrow> ys = []"
  by (metis image_mset_is_empty_iff mset_zero_iff)

text \<open>The data built: users are keyed once, and none is a conversation.\<close>

definition reaction_data_ok :: "reaction_data \<Rightarrow> bool" where
  "reaction_data_ok d \<longleftrightarrow> distinct (map fst d) \<and>
     (\<forall>k rs. (k, rs) \<in> set d \<longrightarrow> rs \<noteq> [] \<and> k \<noteq> [] \<and> \<not> is_likely_thread_id k \<and> (\<forall>r \<in> set rs. es_sender (re_sender r) = k))"

lemma user_sender_id [simp]: "es_sender (user_sender env u) = network_user_id u"
  by (simp add: user_sender_def other_sender_def)

lemma add_reaction_ok:
  assumes "reaction_data_ok d" and "k \<noteq> []" and "\<not> is_likely_thread_id k" and "es_sender (re_sender r) = k"
  shows "reaction_data_ok (add_reaction k r d)"
proof -
  have "es_sender (re_sender x) = k" if "map_of d k = Some rs" "x \<in> set rs" for rs x
    using assms(1) that by (auto simp: reaction_data_ok_def dest!: map_of_SomeD)
  then have new: "\<forall>x \<in> set (case map_of d k of Some rs \<Rightarrow> rs @ [r] | None \<Rightarrow> [r]). es_sender (re_sender x) = k"
    using assms(4) by (cases "map_of d k") auto
  have mem: "\<And>k' rs. (k', rs) \<in> set (add_reaction k r d) \<Longrightarrow>
      (k', rs) = (k, case map_of d k of Some rs \<Rightarrow> rs @ [r] | None \<Rightarrow> [r]) \<or> (k', rs) \<in> set d"
    unfolding add_reaction_def by (rule set_alist_update)
  have "rs \<noteq> [] \<and> k' \<noteq> [] \<and> \<not> is_likely_thread_id k' \<and> (\<forall>r \<in> set rs. es_sender (re_sender r) = k')"
    if "(k', rs) \<in> set (add_reaction k r d)" for k' rs
    using mem [OF that]
  proof
    assume "(k', rs) = (k, case map_of d k of Some rs \<Rightarrow> rs @ [r] | None \<Rightarrow> [r])"
    then show ?thesis using new assms(2,3) by (auto split: option.splits)
  next
    assume "(k', rs) \<in> set d"
    then show ?thesis using assms(1) by (simp add: reaction_data_ok_def)
  qed
  then show ?thesis
    using assms(1) by (auto simp: reaction_data_ok_def add_reaction_def distinct_update)
qed

lemma normalize_idem [simp]: "trim_space (normalize_teams_user_id u) = normalize_teams_user_id u"
  by (simp add: normalize_teams_user_id_def)

lemma network_user_id_normalized [simp]: "network_user_id (normalize_teams_user_id u) = normalize_teams_user_id u"
  by (simp add: network_user_id_def)

lemma add_users_ok: "reaction_data_ok d \<Longrightarrow> reaction_data_ok (add_users env key emoji us d)"
proof (induction us arbitrary: d)
  case (Cons u us)
  show ?case
    unfolding add_users.simps Let_def
    by (auto intro!: Cons.IH add_reaction_ok Cons.prems)
qed simp

lemma add_reactions_ok: "reaction_data_ok d \<Longrightarrow> reaction_data_ok (add_reactions env rs d)"
  by (induction env rs d rule: add_reactions.induct) (auto simp: Let_def add_users_ok split: option.splits)

lemma build_reaction_sync_data_ok: "build_reaction_sync_data env rs = Some d \<Longrightarrow> reaction_data_ok d \<and> d \<noteq> []"
  using add_reactions_ok [of "[]" env rs]
  by (auto simp: build_reaction_sync_data_def reaction_data_ok_def Let_def split: if_splits)

section \<open>Properties\<close>

text \<open>The signature of a message's reactions does not depend on the order Teams lists
  reactions or their users in: only a change of the set counts as news.\<close>

lemma reaction_signature_order:
  assumes "image_mset (\<lambda>r. (emotion_key r, mset (reaction_users r))) (mset rs) =
    image_mset (\<lambda>r. (emotion_key r, mset (reaction_users r))) (mset rs')"
  shows "reaction_signature rs = reaction_signature rs'"
proof -
  have "sort (reaction_parts rs) = sort (reaction_parts rs')"
    using reaction_parts_mset [OF assms] by (intro properties_for_sort) simp_all
  then show ?thesis using image_mset_empty [OF assms] by (simp add: reaction_signature_def)
qed

lemma reaction_signature_order_example:
  "reaction_signature [\<lparr>emotion_key = ''like'', reaction_users = [\<lparr>ru_mri = ''8:a'', ru_time_ms = 1\<rparr>, \<lparr>ru_mri = ''8:b'', ru_time_ms = 2\<rparr>]\<rparr>,
      \<lparr>emotion_key = ''heart'', reaction_users = [\<lparr>ru_mri = ''8:c'', ru_time_ms = 3\<rparr>]\<rparr>] =
   reaction_signature [\<lparr>emotion_key = ''heart'', reaction_users = [\<lparr>ru_mri = ''8:c'', ru_time_ms = 3\<rparr>]\<rparr>,
      \<lparr>emotion_key = ''like'', reaction_users = [\<lparr>ru_mri = ''8:b'', ru_time_ms = 2\<rparr>, \<lparr>ru_mri = ''8:a'', ru_time_ms = 1\<rparr>]\<rparr>]"
  by (rule reaction_signature_order) (simp add: add_mset_commute)

lemma mark_reaction_seen_sigs [simp]: "reaction_sigs (snd (mark_reaction_seen now i b c)) = reaction_sigs c"
  by (simp add: mark_reaction_seen_def Let_def)

lemma empty_sync_sigs: "should_send_empty_reaction_sync env now i c = (b, c') \<Longrightarrow> reaction_sigs c' = reaction_sigs c"
  by (auto simp: should_send_empty_reaction_sync_def mark_reaction_seen_def Let_def
      split: prod.splits if_splits sum.splits)

lemma queue_reaction_sync_records:
  assumes "trim_space i \<noteq> []"
  shows "map_of (reaction_sigs (fst (queue_reaction_sync env now th m i s))) (trim_space i) =
    Some \<lparr>sg_sig = reaction_signature (msg_reactions m), sg_at = now\<rparr>"
  using assms
  by (auto simp: queue_reaction_sync_def reaction_state_changed_def sig_changed_eq update_conv' Let_def
      dest!: empty_sync_sigs split: prod.splits option.splits if_splits)

text \<open>A poll page that carries a message again with the same reactions announces nothing:
  after one sync of a message, another with an equal signature queues no event.\<close>

lemma reactions_announced_once:
  assumes "trim_space i \<noteq> []" and "reaction_signature (msg_reactions m') = reaction_signature (msg_reactions m)"
  shows "snd (queue_reaction_sync env now' th' m' i (queue_reaction_sync env now th m i s)) =
    snd (queue_reaction_sync env now th m i s)"
  using queue_reaction_sync_records [OF assms(1), of env now th m s] assms
  by (simp add: queue_reaction_sync_def [of env now'] reaction_state_changed_def sig_changed_eq Let_def)

definition example_env :: bridge_env where
  "example_env = \<lparr>be_login = ''me'', be_self = ''8:me'', be_user_mxid = ''@me:example.org'', be_emoji = Some,
     be_parts = (\<lambda>i. if i = ''17'' then Inr [\<lparr>bp_edit_time = Some 100, bp_sender_mxid = ''@ghost:example.org''\<rparr>] else Inr []),
     be_known = (\<lambda>i. i = ''17''), be_reactions = (\<lambda>_. Inr 0)\<rparr>"

lemma reactions_announced_once_example:
  "snd (queue_reaction_sync example_env 2 example_thread blank_message ''17''
     (queue_reaction_sync example_env 1 example_thread blank_message ''17'' (no_caches, []))) =
   snd (queue_reaction_sync example_env 1 example_thread blank_message ''17'' (no_caches, []))"
  by (rule reactions_announced_once) (simp_all add: trim_space_plain plain_ends_def)

text \<open>What a reaction sync announces: every user once, each with at least one reaction of
  their own, and no conversation among them.\<close>

lemma reaction_data_wellformed:
  assumes "build_reaction_sync_data env rs = Some d"
  shows "d \<noteq> [] \<and> distinct (map fst d) \<and>
    (\<forall>(k, es) \<in> set d. es \<noteq> [] \<and> k \<noteq> [] \<and> \<not> is_likely_thread_id k \<and> (\<forall>e \<in> set es. es_sender (re_sender e) = k))"
  using build_reaction_sync_data_ok [OF assms] by (auto simp: reaction_data_ok_def)

lemma example_reaction_data:
  "build_reaction_sync_data example_env [\<lparr>emotion_key = ''like'', reaction_users = [\<lparr>ru_mri = ''8:a'', ru_time_ms = 0\<rparr>]\<rparr>] =
     Some [(''8:a'', [\<lparr>re_sender = other_sender ''8:a'', re_emotion = ''like'', re_emoji = ''like'', re_time = 0\<rparr>])]"
proof -
  have "\<not> is_likely_thread_id ''8:a''" by code_simp
  then show ?thesis
    by (simp add: build_reaction_sync_data_def example_env_def trim_space_plain plain_ends_def
        normalize_teams_user_id_def user_sender_def self_id_def add_reaction_def other_sender_def network_user_id_def Let_def)
qed

lemma reaction_data_wellformed_example:
  "\<exists>d. build_reaction_sync_data example_env
       [\<lparr>emotion_key = ''like'', reaction_users = [\<lparr>ru_mri = ''8:a'', ru_time_ms = 0\<rparr>]\<rparr>] = Some d \<and>
     d \<noteq> [] \<and> distinct (map fst d)"
  using reaction_data_wellformed [OF example_reaction_data] example_reaction_data by blast

text \<open>What a listed message says of a change in place: nothing, an edit with its time, or that it was deleted; whether the change
  is to be bridged over the bridged parts of the message; and the event that does it.\<close>

definition in_place_state :: "remote_message \<Rightarrow> string option" where
  "in_place_state m =
     (if is_deleted (properties_raw m) then Some ''deleted''
      else if 0 < extract_edit_time (properties_raw m) then Some (show_int (extract_edit_time (properties_raw m))) else None)"

definition from_person :: "remote_message \<Rightarrow> bool" where
  "from_person m \<longleftrightarrow> normalize_teams_user_id (sender_id m) \<noteq> [] \<and> \<not> is_likely_thread_id (normalize_teams_user_id (sender_id m)) \<and>
     \<not> is_system_message_type (message_type m)"

definition in_place_due :: "remote_message \<Rightarrow> bridge_part list \<Rightarrow> bool" where
  "in_place_due m ps \<longleftrightarrow> ps \<noteq> [] \<and> (is_deleted (properties_raw m) \<or>
     from_person m \<and> (\<forall>p \<in> set ps. \<forall>t. bp_edit_time p = Some t \<longrightarrow> t < extract_edit_time (properties_raw m)))"

definition in_place_event ::
  "bridge_env \<Rightarrow> gotime \<Rightarrow> thread_state \<Rightarrow> remote_message \<Rightarrow> string \<Rightarrow> string \<Rightarrow> bridge_part list \<Rightarrow> remote_event" where
  "in_place_event env now th m i self ps =
     (let chat = portal_key (be_login env) (ts_thread_id th); edit = extract_edit_time (properties_raw m);
          who = normalize_teams_user_id (sender_id m) in
      if is_deleted (properties_raw m) then Remove_Event chat no_sender now i
      else Edit_Event chat
        (if self \<noteq> [] \<and> who = self \<and> bp_sender_mxid (hd ps) = be_user_mxid env
         then \<lparr>es_sender = network_user_id who, es_from_me = True, es_login = be_login env\<rparr>
         else \<lparr>es_sender = network_user_id who, es_from_me = False, es_login = []\<rparr>)
        (of_unix_milli edit) (i @ '':edit:'' @ show_int edit) i m)"

definition in_place_news :: "remote_message \<Rightarrow> string \<Rightarrow> client_caches \<Rightarrow> bool" where
  "in_place_news m i c \<longleftrightarrow> map_option sg_sig (map_of (edit_times c) i) \<noteq> in_place_state m"

lemma already_bridged_iff: "\<not> already_bridged edit ps \<longleftrightarrow> (\<forall>p \<in> set ps. \<forall>t. bp_edit_time p = Some t \<longrightarrow> t < edit)"
  by (fastforce simp: already_bridged_def not_le split: option.splits)

lemma message_state_changed_eq:
  "message_state_changed now i sig c =
     (map_option sg_sig (map_of (edit_times c) i) \<noteq> Some sig, c\<lparr>edit_times := AList.update i \<lparr>sg_sig = sig, sg_at = now\<rparr> (edit_times c)\<rparr>)"
  by (simp add: message_state_changed_def sig_changed_eq split: option.splits)

text \<open>One page, by what the lookup in the bridge database answers.\<close>

lemma in_place_found:
  assumes "i \<noteq> []" and "in_place_state m = Some sig" and "be_parts env i = Inr ps"
  shows "queue_in_place_change env now th m i self s =
    ((fst s)\<lparr>edit_times := AList.update i \<lparr>sg_sig = sig, sg_at = now\<rparr> (edit_times (fst s))\<rparr>,
     snd s @ (if in_place_news m i (fst s) \<and> in_place_due m ps then [in_place_event env now th m i self ps] else []))"
proof (cases "is_deleted (properties_raw m)")
  case True
  then show ?thesis
    using assms
    by (auto simp: in_place_state_def queue_in_place_change_def queue_in_place_delete_def message_state_changed_eq
        in_place_news_def in_place_due_def in_place_event_def push_event_def Let_def)
next
  case False
  then have "0 < extract_edit_time (properties_raw m)" "sig = show_int (extract_edit_time (properties_raw m))"
    using assms(2) by (auto simp: in_place_state_def split: if_splits)
  then show ?thesis
    using assms False
    by (simp add: in_place_state_def queue_in_place_change_def queue_in_place_edit_def message_state_changed_eq from_person_def
        in_place_news_def in_place_due_def in_place_event_def push_event_def other_sender_def already_bridged_iff [symmetric] Let_def)
qed

lemma in_place_lookup_failed:
  assumes "i \<noteq> []" and "in_place_state m = Some sig" and "be_parts env i = Inl e"
  shows "snd (queue_in_place_change env now th m i self s) = snd s \<and>
    (in_place_news m i (fst s) \<and> (is_deleted (properties_raw m) \<or> from_person m) \<longrightarrow>
      map_of (edit_times (fst (queue_in_place_change env now th m i self s))) i = None)"
proof (cases "is_deleted (properties_raw m)")
  case True
  then show ?thesis
    using assms
    by (auto simp: in_place_state_def queue_in_place_change_def queue_in_place_delete_def message_state_changed_eq
        in_place_news_def forget_message_state_def delete_conv' Let_def)
next
  case False
  then have "0 < extract_edit_time (properties_raw m)" "sig = show_int (extract_edit_time (properties_raw m))"
    using assms(2) by (auto simp: in_place_state_def split: if_splits)
  then show ?thesis
    using assms False
    by (simp add: in_place_state_def queue_in_place_change_def queue_in_place_edit_def message_state_changed_eq from_person_def
        in_place_news_def forget_message_state_def delete_conv' Let_def)
qed

text \<open>C8: A change in place is bridged once.  A message without an edit time or a delete changes nothing.  Otherwise, when
  the change is not the one last checked and the bridge database lists the message's parts, exactly one event is queued if the change is
  due: a removal if the message has a bridged part, an edit if moreover a person sent it and no part records an edit as
  new; the event targets the message, carries the edit's own time, and is the user's own only for a part the user's
  account sent.  A change not due, or the one last checked, queues nothing.  After that the same page queues nothing again, however the
  lookup answers.  A failed lookup queues nothing and is retried: a later page whose lookup succeeds queues the event.\<close>

theorem in_place_once:
  assumes "i \<noteq> []"
  shows "(in_place_state m = None \<longrightarrow> queue_in_place_change env now th m i self s = s) \<and>
    (in_place_state m \<noteq> None \<longrightarrow> (\<forall>ps. be_parts env i = Inr ps \<longrightarrow>
      (\<forall>c evs. queue_in_place_change env now th m i self s = (c, evs) \<longrightarrow>
         evs = snd s @ (if in_place_news m i (fst s) \<and> in_place_due m ps then [in_place_event env now th m i self ps] else []) \<and>
         map_option sg_sig (map_of (edit_times c) i) = in_place_state m \<and>
         (\<forall>env2 now2. snd (queue_in_place_change env2 now2 th m i self (c, evs)) = evs)))) \<and>
    (in_place_state m \<noteq> None \<longrightarrow> (\<forall>e. be_parts env i = Inl e \<longrightarrow>
      (\<forall>c evs. queue_in_place_change env now th m i self s = (c, evs) \<longrightarrow>
         evs = snd s \<and>
         (in_place_news m i (fst s) \<longrightarrow> (\<forall>env2 now2 ps. be_parts env2 i = Inr ps \<longrightarrow>
            snd (queue_in_place_change env2 now2 th m i self (c, evs)) =
              evs @ (if in_place_due m ps then [in_place_event env2 now2 th m i self ps] else []))))))"
proof (cases "in_place_state m")
  case None
  then show ?thesis
    by (auto simp: in_place_state_def queue_in_place_change_def queue_in_place_edit_def Let_def split: if_splits)
next
  case (Some sig)
  have again: "snd (queue_in_place_change env2 now2 th m i self s2) = snd s2"
    if "map_option sg_sig (map_of (edit_times (fst s2)) i) = Some sig" for env2 now2 and s2 :: queue_state
  proof (cases "be_parts env2 i")
    case (Inl e)
    then show ?thesis using in_place_lookup_failed [OF assms Some Inl] by simp
  next
    case (Inr ps)
    then show ?thesis using in_place_found [OF assms Some Inr] that Some by (simp add: in_place_news_def)
  qed
  have found: "evs = snd s @ (if in_place_news m i (fst s) \<and> in_place_due m ps then [in_place_event env now th m i self ps] else []) \<and>
      map_option sg_sig (map_of (edit_times c) i) = in_place_state m \<and>
      (\<forall>env2 now2. snd (queue_in_place_change env2 now2 th m i self (c, evs)) = evs)"
    if "be_parts env i = Inr ps" "queue_in_place_change env now th m i self s = (c, evs)" for ps c evs
    using in_place_found [OF assms Some that(1), of now th self s] that(2) again [of "(c, evs)"] Some by (auto simp: update_conv')
  have failed: "evs = snd s \<and> (in_place_news m i (fst s) \<longrightarrow> (\<forall>env2 now2 ps. be_parts env2 i = Inr ps \<longrightarrow>
      snd (queue_in_place_change env2 now2 th m i self (c, evs)) =
        evs @ (if in_place_due m ps then [in_place_event env2 now2 th m i self ps] else [])))"
    if "be_parts env i = Inl e" "queue_in_place_change env now th m i self s = (c, evs)" for e c evs
    using in_place_lookup_failed [OF assms Some that(1), of now th self s] that(2) in_place_found [OF assms Some, of _ _ _ th self "(c, evs)"] Some
    by (auto simp: in_place_news_def in_place_due_def)
  have "in_place_state m \<noteq> None" using Some by simp
  with found failed show ?thesis by (intro conjI impI allI) metis+
qed

definition edited_message :: remote_message where
  "edited_message = blank_message\<lparr>message_id := ''17'', sequence_id := ''17'', sender_id := ''8:b'',
     properties_raw := Some (JObj [(''edittime'', JNum ''200'')]), message_type := ''RichText/Html''\<rparr>"

lemma edited_message_facts:
  "extract_edit_time (properties_raw edited_message) = 200" "\<not> is_deleted (properties_raw edited_message)"
  "sender_id edited_message = ''8:b''" "message_type edited_message = ''RichText/Html''"
  "\<not> is_likely_thread_id ''8:b''" "\<not> is_system_message_type ''RichText/Html''" "show_int 200 = ''200''"
  "normalize_teams_user_id ''8:b'' = ''8:b''"
proof -
  have p: "properties_raw edited_message = Some (JObj [(''edittime'', JNum ''200'')])" by (simp add: edited_message_def)
  show "extract_edit_time (properties_raw edited_message) = 200"
    unfolding p by (simp add: extract_edit_time_def raw_field_def equal_fold_def parse_int64_def parse_uint64_def Let_def)
  have "\<not> equal_fold ''edittime'' ''deletetime''" "\<not> equal_fold ''edittime'' ''hardDeleteTime''" by code_simp+
  then show "\<not> is_deleted (properties_raw edited_message)"
    unfolding p by (simp add: is_deleted_def raw_field_def)
  show "sender_id edited_message = ''8:b''" "message_type edited_message = ''RichText/Html''" by (simp_all add: edited_message_def)
  show "\<not> is_likely_thread_id ''8:b''" "\<not> is_system_message_type ''RichText/Html''" "show_int 200 = ''200''" by code_simp+
  show "normalize_teams_user_id ''8:b'' = ''8:b''" by (simp add: normalize_teams_user_id_def trim_space_plain plain_ends_def)
qed

text \<open>A failed lookup, the next page that queues the edit, and one more page that does not.\<close>

theorem in_place_once_witness:
  "let down = example_env\<lparr>be_parts := \<lambda>_. Inl Canceled\<rparr>;
       s1 = queue_in_place_change down 1 example_thread edited_message ''17'' ''8:me'' (no_caches, []);
       s2 = queue_in_place_change example_env 2 example_thread edited_message ''17'' ''8:me'' s1;
       s3 = queue_in_place_change example_env 3 example_thread edited_message ''17'' ''8:me'' s2 in
   snd s1 = [] \<and>
   snd s2 = [Edit_Event (portal_key ''me'' (ts_thread_id example_thread)) (other_sender ''8:b'') (of_unix_milli 200)
     ''17:edit:200'' ''17'' edited_message] \<and>
   snd s3 = snd s2"
proof -
  let ?q = "\<lambda>env t. queue_in_place_change env t example_thread edited_message ''17'' ''8:me''"
  let ?down = "example_env\<lparr>be_parts := \<lambda>_. Inl Canceled\<rparr>"
  let ?part = "\<lparr>bp_edit_time = Some 100, bp_sender_mxid = ''@ghost:example.org''\<rparr>"
  let ?edit = "Edit_Event (portal_key ''me'' (ts_thread_id example_thread)) (other_sender ''8:b'') (of_unix_milli 200)
     ''17:edit:200'' ''17'' edited_message"
  have i: "''17'' \<noteq> []" by simp
  have st: "in_place_state edited_message = Some ''200''" by (simp add: in_place_state_def edited_message_facts)
  have parts: "be_parts ?down ''17'' = Inl Canceled" "be_parts example_env ''17'' = Inr [?part]" by (simp_all add: example_env_def)
  have due: "in_place_due edited_message [?part]" by (simp add: in_place_due_def from_person_def edited_message_facts)
  have ev: "in_place_event example_env t example_thread edited_message ''17'' ''8:me'' [?part] = ?edit" for t
    by (simp add: in_place_event_def edited_message_facts other_sender_def example_env_def Let_def)
  have news: "in_place_news edited_message ''17'' no_caches" by (simp add: in_place_news_def st no_caches_def)
  obtain c1 e1 where s1: "?q ?down 1 (no_caches, []) = (c1, e1)" by fastforce
  obtain c2 e2 where s2: "?q example_env 2 (c1, e1) = (c2, e2)" by fastforce
  obtain c3 e3 where s3: "?q example_env 3 (c2, e2) = (c3, e3)" by fastforce
  have st': "in_place_state edited_message \<noteq> None" using st by simp
  note after = in_place_once [OF i, THEN conjunct2, THEN conjunct2, rule_format, OF st' parts(1) s1]
  have first: "e1 = []" using after by simp
  have retry: "snd (?q example_env 2 (c1, e1)) = e1 @ [?edit]"
    using conjunct2 [OF after, rule_format, OF _ parts(2), of 2] news due ev by simp
  have "snd (?q example_env 3 (c2, e2)) = e2"
    using in_place_once [OF i, THEN conjunct2, THEN conjunct1, rule_format, OF st' parts(2) s2, THEN conjunct2, THEN conjunct2] by blast
  then have "e3 = e2" using s3 by simp
  moreover have "e1 = []" "e2 = [?edit]" using first retry s2 by simp_all
  ultimately show ?thesis using s1 s2 s3 by (simp add: Let_def)
qed

text \<open>An edit in place is queued only for a message that is bridged, from a person, and
  when the edit is newer than every edit the bridged parts record; the event names the
  message as its target and carries the edit's own time, and it is sent as the user only for
  a part the user's own Matrix account sent.\<close>

lemma in_place_edit_sound:
  assumes "queue_in_place_edit env now th m i self s = (c', evs)" and "evs \<noteq> snd s"
  shows "\<exists>ps es. be_parts env i = Inr ps \<and> ps \<noteq> [] \<and> 0 < extract_edit_time (properties_raw m) \<and>
    (\<forall>p \<in> set ps. \<forall>t. bp_edit_time p = Some t \<longrightarrow> t < extract_edit_time (properties_raw m)) \<and>
    \<not> is_deleted (properties_raw m) \<and> \<not> is_likely_thread_id (normalize_teams_user_id (sender_id m)) \<and>
    evs = snd s @ [Edit_Event (portal_key (be_login env) (ts_thread_id th)) es
      (of_unix_milli (extract_edit_time (properties_raw m))) (i @ '':edit:'' @ show_int (extract_edit_time (properties_raw m))) i m] \<and>
    (es_from_me es \<longrightarrow> normalize_teams_user_id (sender_id m) = self \<and> bp_sender_mxid (hd ps) = be_user_mxid env)"
proof -
  let ?e = "extract_edit_time (properties_raw m)" and ?who = "normalize_teams_user_id (sender_id m)"
  have newer: "\<not> already_bridged ?e ps \<Longrightarrow> \<forall>p \<in> set ps. \<forall>t. bp_edit_time p = Some t \<longrightarrow> t < ?e" for ps
    by (fastforce simp: already_bridged_def not_le)
  have go: "i \<noteq> []" "\<not> (?e \<le> 0 \<or> is_deleted (properties_raw m))"
    "fst (message_state_changed now i (show_int ?e) (fst s))"
    "\<not> (?who = [] \<or> is_likely_thread_id ?who \<or> is_system_message_type (message_type m))"
    using assms by (auto simp: queue_in_place_edit_def Let_def split: prod.splits if_splits)
  obtain c1 where c1: "message_state_changed now i (show_int ?e) (fst s) = (True, c1)"
    using go(3) by (cases "message_state_changed now i (show_int ?e) (fst s)") auto
  show ?thesis
  proof (cases "be_parts env i")
    case (Inl e)
    then show ?thesis using assms go c1 by (simp add: queue_in_place_edit_def Let_def)
  next
    case (Inr ps)
    then have "\<not> (ps = [] \<or> already_bridged ?e ps)"
      using assms go c1 by (auto simp: queue_in_place_edit_def Let_def)
    then show ?thesis
      using assms go c1 Inr newer [of ps]
      by (auto simp: queue_in_place_edit_def Let_def push_event_def other_sender_def split: if_splits)
  qed
qed

lemma example_edit:
  "\<exists>c'. queue_in_place_edit example_env 1 th edited_message ''17'' ''8:me'' (no_caches, []) =
     (c', [Edit_Event (portal_key ''me'' (ts_thread_id th)) (other_sender ''8:b'') (of_unix_milli 200)
       ''17:edit:200'' ''17'' edited_message])"
  by (simp add: queue_in_place_edit_def message_state_changed_def sig_changed_eq no_caches_def example_env_def
      already_bridged_def push_event_def Let_def edited_message_facts)

lemma in_place_edit_sound_example:
  "snd (queue_in_place_edit example_env 1 example_thread edited_message ''17'' ''8:me'' (no_caches, [])) \<noteq> [] \<and>
   (\<exists>ps. be_parts example_env ''17'' = Inr ps \<and> ps \<noteq> [] \<and> 0 < extract_edit_time (properties_raw edited_message) \<and>
     (\<forall>p \<in> set ps. \<forall>t. bp_edit_time p = Some t \<longrightarrow> t < extract_edit_time (properties_raw edited_message)))"
  using example_edit [of example_thread]
    in_place_edit_sound [of example_env 1 example_thread edited_message "''17''" "''8:me''" "(no_caches, [])"]
  by auto

end
