(* ===== verification/Receipts.thy ===== *)
theory Receipts
  imports In_Place
begin

text \<open>
  Read positions (receipt_sync.go): what the participants of a chat have read on Teams goes
  to Matrix, the user's own position both ways (\<open>HandleMatrixReadReceipt\<close> in
  handlematrix.go).  State is the client's maps, the table of read positions and the events
  queued so far.
\<close>

section \<open>Positions of a poll\<close>

definition remote_horizons :: "consumption_horizon list \<Rightarrow> string \<Rightarrow> string \<Rightarrow> (string \<times> consumption_horizon) list" where
  "remote_horizons hs self thread =
     filter (\<lambda>(i, _). \<not> (i = [] \<or> i = self \<or> equal_fold i thread \<or> is_likely_thread_id i))
       (map (\<lambda>h. (normalize_teams_user_id (ch_id h), h)) hs)"

definition own_horizon :: "consumption_horizon list \<Rightarrow> string \<Rightarrow> consumption_horizon option" where
  "own_horizon hs self = find (\<lambda>h. normalize_teams_user_id (ch_id h) = self) hs"

type_synonym horizon_state = "horizon_table option \<times> remote_event list"

text \<open>
  What the driver answers to reads and writes of a key.
\<close>

record horizon_env =
  he_login :: string
  he_get_err :: "horizon_key \<Rightarrow> go_error option"
  he_put_err :: "horizon_key \<Rightarrow> go_error option"
  he_double_puppet :: bool

text \<open>
  \<open>syncParticipantHorizon\<close> and \<open>syncOwnHorizon\<close> share the middle: an event when the
  position is ahead of the stored one, then the write.
\<close>

definition advance_horizon ::
  "horizon_env \<Rightarrow> horizon_key \<Rightarrow> int \<Rightarrow> remote_event \<Rightarrow> horizon_state \<Rightarrow> go_error option \<times> horizon_state" where
  "advance_horizon he k latest ev s =
     (case horizon_get (he_get_err he k) (fst s) k of
        Inl e \<Rightarrow> (Some e, s)
      | Inr stored \<Rightarrow>
          if (case stored of Some v \<Rightarrow> latest \<le> v | None \<Rightarrow> False) then (None, s)
          else (case horizon_upsert (he_put_err he k) (fst s) k latest of
                  (err, db) \<Rightarrow> (err, (db, snd s @ [ev]))))"

definition sync_participant_horizon ::
  "horizon_env \<Rightarrow> string \<Rightarrow> string \<Rightarrow> consumption_horizon \<Rightarrow> horizon_state \<Rightarrow> go_error option \<times> horizon_state" where
  "sync_participant_horizon he thread remote h s =
     (if remote = [] then (None, s)
      else (case parse_horizon_latest_read_ts (ch_horizon h) of
              None \<Rightarrow> (None, s)
            | Some latest \<Rightarrow>
                if latest \<le> 0 then (None, s)
                else advance_horizon he (he_login he, thread, remote) latest
                  (Receipt_Event (portal_key (he_login he) thread) (other_sender remote)
                     (of_unix_milli latest) (parse_horizon_message_id (ch_horizon h))) s))"

definition sync_own_horizon ::
  "horizon_env \<Rightarrow> string \<Rightarrow> string \<Rightarrow> consumption_horizon option \<Rightarrow> horizon_state \<Rightarrow> go_error option \<times> horizon_state" where
  "sync_own_horizon he thread self ho s =
     (case ho of
        None \<Rightarrow> (None, s)
      | Some h \<Rightarrow>
          if \<not> he_double_puppet he then (None, s)
          else (case parse_horizon_latest_read_ts (ch_horizon h) of
                  None \<Rightarrow> (None, s)
                | Some latest \<Rightarrow>
                    if latest \<le> 0 then (None, s)
                    else advance_horizon he (he_login he, thread, self) latest
                      (Receipt_Event (portal_key (he_login he) thread)
                         \<lparr>es_sender = network_user_id self, es_from_me = True, es_login = he_login he\<rparr>
                         (of_unix_milli latest) None) s))"

text \<open>The loop over the participants; the last error is the one returned.\<close>

fun sync_participants ::
  "horizon_env \<Rightarrow> string \<Rightarrow> (string \<times> consumption_horizon) list \<Rightarrow> go_error option \<Rightarrow> horizon_state \<Rightarrow>
   go_error option \<times> horizon_state" where
  "sync_participants he thread [] err s = (err, s)"
| "sync_participants he thread ((remote, h) # rs) err s =
     (case sync_participant_horizon he thread remote h s of
        (e, s') \<Rightarrow> sync_participants he thread rs (case e of Some x \<Rightarrow> Some x | None \<Rightarrow> err) s')"

text \<open>
  \<open>pollConsumptionHorizons\<close>: \<open>answer\<close> is what \<open>GetConsumptionHorizons\<close> returns for the thread.
\<close>

definition sync_horizons ::
  "horizon_env \<Rightarrow> string \<Rightarrow> string \<Rightarrow> consumption_horizon list \<Rightarrow> horizon_state \<Rightarrow> go_error option \<times> horizon_state" where
  "sync_horizons he thread self hs s =
     (case sync_participants he thread (remote_horizons hs self thread) None s of
        (err, s1) \<Rightarrow>
          (case sync_own_horizon he thread self (own_horizon hs self) s1 of
             (e, s2) \<Rightarrow> (case e of Some x \<Rightarrow> Some x | None \<Rightarrow> err, s2)))"

definition poll_consumption_horizons ::
  "horizon_env \<Rightarrow> gotime \<Rightarrow> thread_state \<Rightarrow> string \<Rightarrow> go_error + consumption_horizon list option \<Rightarrow>
   client_caches \<times> horizon_state \<Rightarrow> go_error option \<times> client_caches \<times> horizon_state" where
  "poll_consumption_horizons he now th self0 answer s =
     (let thread = trim_space (ts_thread_id th) in
      if thread = [] then (None, s)
      else (case should_poll_receipts now thread (fst s) of (due, c1) \<Rightarrow>
        if \<not> due then (None, c1, snd s)
        else (case answer of
                Inl e \<Rightarrow> (Some e, c1, snd s)
              | Inr None \<Rightarrow> (None, c1, snd s)
              | Inr (Some hs) \<Rightarrow>
                  (let self = normalize_teams_user_id self0 in
                   if self = [] then (None, c1, snd s)
                   else (case sync_horizons he thread self hs (snd s) of (err, hst) \<Rightarrow> (err, c1, hst))))))"

section \<open>The user's own position\<close>

definition own_horizon_covers ::
  "horizon_env \<Rightarrow> string \<Rightarrow> string \<Rightarrow> gotime \<Rightarrow> horizon_table option \<Rightarrow> bool" where
  "own_horizon_covers he thread self0 read_up_to db =
     (let self = normalize_teams_user_id self0; k = (he_login he, thread, self) in
      if is_zero_time read_up_to \<or> self = [] then False
      else (case horizon_get (he_get_err he k) db k of
              Inr (Some v) \<Rightarrow> unix_milli read_up_to \<le> v
            | _ \<Rightarrow> False))"

definition record_own_horizon ::
  "horizon_env \<Rightarrow> string \<Rightarrow> string \<Rightarrow> gotime \<Rightarrow> horizon_table option \<Rightarrow> horizon_table option" where
  "record_own_horizon he thread self0 ts db =
     (let self = normalize_teams_user_id self0; k = (he_login he, thread, self) in
      if self = [] \<or> db = None then db else snd (horizon_upsert (he_put_err he k) db k (unix_milli ts)))"

text \<open>
  \<open>HandleMatrixReadReceipt\<close>, logged in and with a valid token; \<open>api\<close> is the answer of
  \<open>SetConsumptionHorizon\<close>.  The last component is the horizon that was sent, if one was.
\<close>

definition handle_matrix_read_receipt ::
  "horizon_env \<Rightarrow> gotime \<Rightarrow> string \<Rightarrow> string \<Rightarrow> gotime \<Rightarrow> go_error option \<Rightarrow>
   client_caches \<times> horizon_table option \<Rightarrow> go_error option \<times> (client_caches \<times> horizon_table option) \<times> string option" where
  "handle_matrix_read_receipt he now portal self0 read_up_to api s =
     (let thread = trim_space portal in
      if thread = [] then (Some (Plain ''missing thread id''), s, None)
      else if own_horizon_covers he thread self0 read_up_to (snd s) then (None, s, None)
      else (case should_send_receipt thread (fst s) of (send, c1) \<Rightarrow>
        if \<not> send then (None, (c1, snd s), None)
        else (case api of
                None \<Rightarrow> (None, (c1, record_own_horizon he thread self0 now (snd s)), Some (consumption_horizon_now now))
              | Some e \<Rightarrow> (Some e, (c1, snd s), Some (consumption_horizon_now now)))))"

section \<open>Facts\<close>

text \<open>With a database that answers, on trimmed keys, the position is a map lookup and update.\<close>

definition db_answers :: "horizon_env \<Rightarrow> bool" where
  "db_answers he \<longleftrightarrow> (\<forall>k. he_get_err he k = None \<and> he_put_err he k = None)"





text \<open>The order of positions: a stored one covers what is not past it.\<close>

definition covers :: "horizon_table \<Rightarrow> horizon_key \<Rightarrow> int \<Rightarrow> bool" where
  "covers t k v \<longleftrightarrow> (\<exists>w. horizon_read t k = Some w \<and> v \<le> w)"











section \<open>Properties\<close>


definition example_horizon_env :: horizon_env where
  "example_horizon_env = \<lparr>he_login = ''me'', he_get_err = (\<lambda>_. None), he_put_err = (\<lambda>_. None), he_double_puppet = True\<rparr>"


text \<open>A receipt the bridge itself sent to Matrix does not go back to Teams: once a poll has
  stored the user's own position, the Matrix receipt for it (or for anything earlier) sends
  nothing, and the unread mark stays for a receipt the user makes.\<close>

lemma own_receipt_echo_dropped:
  assumes "db_answers he" and "horizon_key_ok (he_login he, thread, normalize_teams_user_id self0)"
    and "covers t (he_login he, thread, normalize_teams_user_id self0) v"
    and "unix_milli read_up_to \<le> v" and "\<not> is_zero_time read_up_to"
  shows "handle_matrix_read_receipt he now thread self0 read_up_to api (c, Some t) = (None, (c, Some t), None)"
proof -
  let ?k = "(he_login he, thread, normalize_teams_user_id self0)"
  have e: "he_get_err he ?k = None" using assms(1) unfolding db_answers_def by blast
  have "horizon_get None (Some t) ?k = Inr (horizon_read t ?k)"
    using assms(2) by (auto simp: horizon_read_def horizon_lookup_def horizon_get_def horizon_key_ok_def Let_def)
  moreover obtain w where "horizon_read t ?k = Some w" "v \<le> w" using assms(3) by (auto simp: covers_def)
  ultimately have "own_horizon_covers he thread self0 read_up_to (Some t)"
    using assms(2,4,5) e by (simp add: own_horizon_covers_def horizon_key_ok_def Let_def)
  then show ?thesis
    using assms(2) by (simp add: handle_matrix_read_receipt_def horizon_key_ok_def Let_def)
qed

lemma own_receipt_echo_dropped_example:
  "handle_matrix_read_receipt example_horizon_env 9 ''19:a'' ''8:me'' (of_unix_milli 5) None
     (no_caches, Some [((''me'', ''19:a'', ''8:me''), 5)]) = (None, (no_caches, Some [((''me'', ''19:a'', ''8:me''), 5)]), None)"
proof (rule own_receipt_echo_dropped [where v = 5])
  have n: "normalize_teams_user_id ''8:me'' = ''8:me''" "trim_space ''19:a'' = ''19:a''" "trim_space ''8:me'' = ''8:me''"
    by (simp_all add: normalize_teams_user_id_def trim_space_plain plain_ends_def)
  show "db_answers example_horizon_env" by (simp add: db_answers_def example_horizon_env_def)
  show k: "horizon_key_ok (he_login example_horizon_env, ''19:a'', normalize_teams_user_id ''8:me'')"
    by (simp add: n horizon_key_ok_def)
  then show "covers [((''me'', ''19:a'', ''8:me''), 5)] (he_login example_horizon_env, ''19:a'', normalize_teams_user_id ''8:me'') 5"
    by (simp add: covers_def horizon_read_def horizon_lookup_ok n example_horizon_env_def)
  show "\<not> is_zero_time (of_unix_milli 5)" by (simp add: of_unix_milli_def unix_epoch_def)
qed simp

text \<open>The unread mark is used up before the answer of Teams is known: when the request
  to mark the chat read fails, the receipts that follow send nothing either (until a new
  message arrives), so the chat stays unread on Teams although the user read it on Matrix.\<close>

lemma failed_receipt_not_retried:
  assumes "handle_matrix_read_receipt he now portal self0 r (Some e) s = (Some e', s', Some horizon)"
  shows "handle_matrix_read_receipt he now' portal self0 r' api s' = (None, s', None)"
proof -
  have th: "trim_space portal \<noteq> []" and s': "fst s' = snd (should_send_receipt (trim_space portal) (fst s))"
    and sent: "fst (should_send_receipt (trim_space portal) (fst s))"
    using assms by (auto simp: handle_matrix_read_receipt_def Let_def split: if_splits prod.splits)
  have "map_of (unread_seen (fst s')) (trim_space portal) = None"
    using s' sent by (auto simp: should_send_receipt_def map_of_eq_None_iff AList.delete_eq split: if_splits)
  then have "should_send_receipt (trim_space portal) (fst s') = (False, fst s')"
    by (simp add: should_send_receipt_def)
  then show ?thesis using th by (simp add: handle_matrix_read_receipt_def Let_def)
qed

lemma failed_receipt_not_retried_example:
  "\<exists>s'. handle_matrix_read_receipt example_horizon_env 9 ''19:a'' ''8:me'' 8 (Some (Plain ''down'')) (mark_unread ''19:a'' no_caches, Some []) =
     (Some (Plain ''down''), s', Some (consumption_horizon_now 9)) \<and>
   handle_matrix_read_receipt example_horizon_env 10 ''19:a'' ''8:me'' 9 None s' = (None, s', None)"
proof -
  have n: "normalize_teams_user_id ''8:me'' = ''8:me''" "trim_space ''19:a'' = ''19:a''" "trim_space ''8:me'' = ''8:me''"
    by (simp_all add: normalize_teams_user_id_def trim_space_plain plain_ends_def)
  then obtain s' where "handle_matrix_read_receipt example_horizon_env 9 ''19:a'' ''8:me'' 8 (Some (Plain ''down'')) (mark_unread ''19:a'' no_caches, Some []) =
     (Some (Plain ''down''), s', Some (consumption_horizon_now 9))"
    by (simp add: handle_matrix_read_receipt_def own_horizon_covers_def horizon_get_def mark_unread_def no_caches_def
        should_send_receipt_def example_horizon_env_def Let_def)
  then show ?thesis using failed_receipt_not_retried by blast
qed

end
