(* ===== verification/System_Messages.thy ===== *)
theory System_Messages
  imports Remote_Events
begin

text \<open>
  Teams system messages (pkg/connector/system_messages.go): which ThreadActivity messages
  are worth a line, what they record, and the sentence that says so.

  The XML decoder is the parameter \<open>xml\<close> (text to initiator, value and targets), the JSON
  parser the parameter \<open>parse\<close>.
\<close>

record xml_target =
  xt_text :: string
  xt_id :: string
  xt_role :: string
  xt_type :: string

record xml_activity =
  xa_initiator :: string
  xa_value :: string
  xa_targets :: "xml_target list"

datatype activity_kind = Added | Removed | Joined | Role_Changed | Renamed | Described | Channels | File_Added

record system_activity =
  sa_kind :: activity_kind
  sa_initiator :: string
  sa_targets :: "string list"
  sa_names :: "(string \<times> string) list"
  sa_role :: string
  sa_old :: string
  sa_new :: string

definition blank_activity :: "activity_kind \<Rightarrow> string \<Rightarrow> system_activity" where
  "blank_activity k who =
     \<lparr>sa_kind = k, sa_initiator = who, sa_targets = [], sa_names = [], sa_role = [], sa_old = [], sa_new = []\<rparr>"

section \<open>Parsing\<close>

definition target_mri :: "xml_target \<Rightarrow> string" where
  "target_mri t =
     (let i = normalize_teams_user_id (xt_id t) in if i = [] then normalize_teams_user_id (xt_text t) else i)"

text \<open>The targets that have an MRI; the last role given among them wins.\<close>

fun collect_targets :: "xml_target list \<Rightarrow> string list \<times> string \<Rightarrow> string list \<times> string" where
  "collect_targets [] acc = acc"
| "collect_targets (t # ts) (mris, role) =
     (let mri = target_mri t in
      if mri = [] then collect_targets ts (mris, role)
      else (let r = trim_space (xt_role t) in
            collect_targets ts (mris @ [mri], if r = [] then role else to_lower r)))"

definition parse_xml_activity :: "(string \<Rightarrow> xml_activity option) \<Rightarrow> string \<Rightarrow> string \<Rightarrow> system_activity option" where
  "parse_xml_activity xml kind raw =
     (case xml raw of
        None \<Rightarrow> None
      | Some x \<Rightarrow>
          (case collect_targets (xa_targets x) ([], []) of (mris, role) \<Rightarrow>
             (let who = normalize_teams_user_id (xa_initiator x);
                  base = (\<lambda>k. (blank_activity k who)\<lparr>sa_targets := mris, sa_role := role\<rparr>) in
              if kind = ''addmember'' then (if mris = [] then None else Some (base Added))
              else if kind = ''deletemember'' then (if mris = [] then None else Some (base Removed))
              else if kind = ''roleupdate'' then (if mris = [] then None else Some (base Role_Changed))
              else if kind = ''topicupdate''
              then (let v = trim_space (xa_value x) in
                    if v = [] then None else Some ((base Renamed)\<lparr>sa_new := v\<rparr>))
              else Some ((base File_Added)\<lparr>sa_targets := [],
                     sa_new := (case xa_targets x of [] \<Rightarrow> [] | t # _ \<Rightarrow> to_lower (trim_space (xt_type t)))\<rparr>))))"

text \<open>\<open>jsonValueChange\<close>: old value, new value, user.\<close>

definition decode_value_change :: "json \<Rightarrow> (string \<times> string \<times> string) option" where
  "decode_value_change j =
     (case (string_field ''oldValue'' j, string_field ''newValue'' j, string_field ''user'' j) of
        (Some old, Some new, Some user) \<Rightarrow> Some (old, new, user)
      | _ \<Rightarrow> None)"

definition parse_space_change :: "(string \<Rightarrow> json option) \<Rightarrow> string \<Rightarrow> string \<Rightarrow> system_activity option" where
  "parse_space_change parse kind raw =
     (case Option.bind (parse raw) decode_value_change of
        None \<Rightarrow> None
      | Some (old, new, user) \<Rightarrow>
          if trim_space new = [] then None
          else Some ((blank_activity (if kind = ''spacedescriptionupdated'' then Described else Renamed)
                       (normalize_teams_user_id user))\<lparr>sa_old := trim_space old, sa_new := trim_space new\<rparr>))"

definition channel_names :: "(string \<Rightarrow> json option) \<Rightarrow> string \<Rightarrow> string list" where
  "channel_names parse list =
     (case Option.bind (parse list)
             (\<lambda>j. case j of JArr cs \<Rightarrow> all_some (map (string_field ''name'') cs) | JNull \<Rightarrow> Some [] | _ \<Rightarrow> None) of
        None \<Rightarrow> []
      | Some ns \<Rightarrow> filter (\<lambda>n. n \<noteq> []) (map trim_space ns))"

definition parse_channels_added :: "(string \<Rightarrow> json option) \<Rightarrow> string \<Rightarrow> system_activity option" where
  "parse_channels_added parse raw =
     (case Option.bind (parse raw) decode_value_change of
        None \<Rightarrow> None
      | Some (old, new, user) \<Rightarrow>
          (let before = channel_names parse old;
               added = filter (\<lambda>n. n \<notin> set before) (remdups (channel_names parse new)) in
           if added = [] then None
           else Some ((blank_activity Channels (normalize_teams_user_id user))\<lparr>sa_targets := sort added\<rparr>)))"

definition decode_member :: "json \<Rightarrow> (string \<times> string) option" where
  "decode_member j =
     (case (string_field ''id'' j, string_field ''friendlyname'' j) of
        (Some i, Some n) \<Rightarrow> Some (i, n)
      | _ \<Rightarrow> None)"

definition parse_members_joined :: "(string \<Rightarrow> json option) \<Rightarrow> string \<Rightarrow> system_activity option" where
  "parse_members_joined parse raw =
     (case Option.bind (parse raw) (\<lambda>j.
             case (string_field ''initiator'' j, Option.bind (slice_field ''members'' j) (\<lambda>ms. all_some (map decode_member ms))) of
               (Some who, Some ms) \<Rightarrow> Some (who, ms) | _ \<Rightarrow> None) of
        None \<Rightarrow> None
      | Some (who, ms) \<Rightarrow>
          (let named = filter (\<lambda>(i, _). i \<noteq> []) (map (\<lambda>(i, n). (normalize_teams_user_id i, trim_space n)) ms) in
           if named = [] then None
           else Some ((blank_activity Joined (normalize_teams_user_id who))
                  \<lparr>sa_targets := map fst named, sa_names := rev (filter (\<lambda>(_, n). n \<noteq> []) named)\<rparr>)))"

definition parse_system_message ::
  "(string \<Rightarrow> xml_activity option) \<Rightarrow> (string \<Rightarrow> json option) \<Rightarrow> string \<Rightarrow> string \<Rightarrow> system_activity option" where
  "parse_system_message xml parse msg_type raw0 =
     (let t = to_lower (trim_space msg_type); raw = trim_space raw0; p = ''threadactivity/'' in
      if \<not> prefix p t \<or> raw = [] then None
      else (let kind = drop (length p) t in
            if kind \<in> {''addmember'', ''deletemember'', ''roleupdate'', ''topicupdate'', ''fileadd''}
            then parse_xml_activity xml kind raw
            else if kind = ''spacetopicupdated'' \<or> kind = ''spacedescriptionupdated''
            then parse_space_change parse kind raw
            else if kind = ''spacethreadchanneladded'' then parse_channels_added parse raw
            else if kind = ''memberjoined'' then parse_members_joined parse raw
            else None))"

section \<open>The sentence\<close>

definition is_person_mri :: "string \<Rightarrow> bool" where
  "is_person_mri m = prefix ''8:'' m"

definition join_names :: "string list \<Rightarrow> string" where
  "join_names ns =
     (if ns = [] then ''nobody''
      else if length ns = 1 then hd ns
      else if 7 < length ns
      then join_with '', '' (take 6 ns) @ '' and '' @ show_nat (length ns - 6) @ '' others''
      else join_with '', '' (butlast ns) @ '' and '' @ last ns)"

text \<open>\<open>strings.ToUpper\<close> of the first byte, which is ASCII in every use.\<close>

definition upper_char :: "char \<Rightarrow> char" where
  "upper_char c = (let n = (of_char c :: nat) in if 97 \<le> n \<and> n \<le> 122 then char_of (n - 32) else c)"

definition capitalize_first :: "string \<Rightarrow> string" where
  "capitalize_first s = (case s of [] \<Rightarrow> [] | c # r \<Rightarrow> upper_char c # r)"

definition place_for_thread :: "string \<Rightarrow> string" where
  "place_for_thread th = (if sublist ''@thread.tacv2'' (to_lower th) then ''the channel'' else ''the chat'')"

text \<open>A string in typographic quotes, U+201C and U+201D.\<close>

definition quoted :: "string \<Rightarrow> string" where
  "quoted s = map char_of [0xE2, 0x80, 0x9C :: nat] @ s @ map char_of [0xE2, 0x80, 0x9D :: nat]"

definition name_of :: "(string \<Rightarrow> string) option \<Rightarrow> system_activity \<Rightarrow> string \<Rightarrow> string" where
  "name_of names a mri =
     (let n1 = (case names of Some f \<Rightarrow> trim_space (f mri) | None \<Rightarrow> []);
          n2 = trim_space (case map_of (sa_names a) mri of Some n \<Rightarrow> n | None \<Rightarrow> []) in
      if n1 \<noteq> [] then n1 else if n2 \<noteq> [] then n2 else ''someone'')"

definition role_words :: "string \<Rightarrow> bool \<Rightarrow> string" where
  "role_words role plural =
     (if role = ''admin'' then (if plural then ''owners'' else ''an owner'')
      else if role = ''user'' then (if plural then ''members'' else ''a member'')
      else role)"

definition system_message_text :: "system_activity \<Rightarrow> string \<Rightarrow> (string \<Rightarrow> string) option \<Rightarrow> string" where
  "system_message_text a place names =
     (let actor = (if is_person_mri (sa_initiator a) then name_of names a (sa_initiator a) else []);
          list = join_names (map (name_of names a) (sa_targets a));
          plural = 1 < length (sa_targets a);
          were = (if plural then ''were'' else ''was'');
          are = (if plural then ''are'' else ''is'');
          frm = (if sa_old a \<noteq> [] then '' from '' @ quoted (sa_old a) else []);
          to_new = '' to '' @ quoted (sa_new a) in
      case sa_kind a of
        Added \<Rightarrow>
          if actor \<noteq> [] then actor @ '' added '' @ list @ '' to '' @ place
          else list @ '' '' @ were @ '' added to '' @ place
      | Removed \<Rightarrow>
          if actor \<noteq> [] \<and> sa_targets a = [sa_initiator a] then actor @ '' left '' @ place
          else if actor \<noteq> [] then actor @ '' removed '' @ list @ '' from '' @ place
          else list @ '' '' @ were @ '' removed from '' @ place
      | Role_Changed \<Rightarrow>
          (let role = role_words (sa_role a) plural in
           if actor \<noteq> [] then actor @ '' made '' @ list @ '' '' @ role
           else list @ '' '' @ are @ '' now '' @ role)
      | Joined \<Rightarrow> list @ '' joined '' @ place
      | Renamed \<Rightarrow>
          if actor \<noteq> [] then actor @ '' renamed '' @ place @ frm @ to_new
          else capitalize_first place @ '' was renamed'' @ frm @ to_new
      | Described \<Rightarrow>
          if actor \<noteq> [] then actor @ '' changed the description'' @ frm @ to_new
          else ''The description was changed'' @ frm @ to_new
      | Channels \<Rightarrow>
          (let noun = (if plural then ''the channels'' else ''the channel'');
               qs = join_names (map quoted (sa_targets a)) in
           if actor \<noteq> [] then actor @ '' added '' @ noun @ '' '' @ qs
           else capitalize_first noun @ '' '' @ qs @ '' '' @ were @ '' added'')
      | File_Added \<Rightarrow>
          (let thing = (if sa_new a = ''loop'' then ''a Loop component'' else ''a file'') in
           if actor \<noteq> [] then actor @ '' added '' @ thing
           else capitalize_first thing @ '' was added''))"

definition system_sender_id :: string where "system_sender_id = ''teams:system''"

definition system_message_event ::
  "(string \<Rightarrow> xml_activity option) \<Rightarrow> (string \<Rightarrow> json option) \<Rightarrow> string \<Rightarrow> thread_state \<Rightarrow> remote_message \<Rightarrow> remote_event option" where
  "system_message_event xml parse login th m =
     (case parse_system_message xml parse (message_type m) (raw_content m) of
        None \<Rightarrow> None
      | Some _ \<Rightarrow>
          Some (Notice_Event (portal_key login (ts_thread_id th))
            \<lparr>es_sender = system_sender_id, es_from_me = False, es_login = []\<rparr>
            (msg_timestamp m) (unix_milli (msg_timestamp m)) (trim_space (message_id m)) m))"

section \<open>What is announced\<close>

text \<open>What each kind of activity is about is there.\<close>

definition activity_ok :: "system_activity \<Rightarrow> bool" where
  "activity_ok a \<longleftrightarrow>
     (case sa_kind a of
        Renamed \<Rightarrow> sa_new a \<noteq> []
      | Described \<Rightarrow> sa_new a \<noteq> []
      | File_Added \<Rightarrow> True
      | _ \<Rightarrow> sa_targets a \<noteq> [] \<and> [] \<notin> set (sa_targets a))"

lemma blank_activity_simps [simp]:
  "sa_kind (blank_activity k w) = k" "sa_initiator (blank_activity k w) = w" "sa_targets (blank_activity k w) = []"
  "sa_new (blank_activity k w) = []" "sa_old (blank_activity k w) = []"
  by (simp_all add: blank_activity_def)

lemma collect_targets_nonempty:
  "collect_targets ts (mris, role) = (mris', role') \<Longrightarrow> [] \<notin> set mris \<Longrightarrow> [] \<notin> set mris'"
  by (induction ts arbitrary: mris role) (auto simp: Let_def split: if_splits)

lemma parse_xml_activity_ok: "parse_xml_activity xml kind raw = Some a \<Longrightarrow> activity_ok a"
  by (auto simp: parse_xml_activity_def activity_ok_def Let_def dest: collect_targets_nonempty
      split: option.splits prod.splits if_splits)

lemma parse_space_change_ok: "parse_space_change parse kind raw = Some a \<Longrightarrow> activity_ok a"
  by (auto simp: parse_space_change_def activity_ok_def split: option.splits prod.splits if_splits)

lemma channel_names_nonempty: "[] \<notin> set (channel_names parse list)"
  by (auto simp: channel_names_def split: option.splits)

lemma sort_eq_Nil: "sort xs = [] \<longleftrightarrow> xs = []"
  by (metis set_empty set_sort)

lemma parse_channels_added_ok: "parse_channels_added parse raw = Some a \<Longrightarrow> activity_ok a"
  using channel_names_nonempty [of parse]
  by (auto simp: parse_channels_added_def activity_ok_def Let_def sort_eq_Nil split: option.splits prod.splits if_splits)

lemma parse_members_joined_ok: "parse_members_joined parse raw = Some a \<Longrightarrow> activity_ok a"
  by (auto simp: parse_members_joined_def activity_ok_def Let_def split: option.splits prod.splits if_splits)

lemma parse_system_message_ok: "parse_system_message xml parse t raw = Some a \<Longrightarrow> activity_ok a"
  by (auto simp: parse_system_message_def Let_def split: if_splits
      dest: parse_xml_activity_ok parse_space_change_ok parse_channels_added_ok parse_members_joined_ok)

lemma join_names_nonempty: "[] \<notin> set ns \<Longrightarrow> join_names ns \<noteq> []"
  by (cases ns) (auto simp: join_names_def)

lemma system_message_text_nonempty: "system_message_text a place names \<noteq> []"
  by (cases "sa_kind a") (simp_all add: system_message_text_def Let_def)

text \<open>The added channels are the new ones that were not there, each once, in order.\<close>

lemma parse_channels_added_targets:
  assumes "parse_channels_added parse raw = Some a"
  shows "\<exists>old new user. Option.bind (parse raw) decode_value_change = Some (old, new, user) \<and>
    set (sa_targets a) = set (channel_names parse new) - set (channel_names parse old) \<and>
    distinct (sa_targets a) \<and> sorted (sa_targets a)"
proof -
  obtain old new user where d: "Option.bind (parse raw) decode_value_change = Some (old, new, user)"
    using assms by (auto simp: parse_channels_added_def split: option.splits)
  have "sa_targets a = sort (filter (\<lambda>n. n \<notin> set (channel_names parse old)) (remdups (channel_names parse new)))"
    using assms d by (auto simp: parse_channels_added_def Let_def split: if_splits)
  then show ?thesis using d by auto
qed

text \<open>Names past six are counted: nobody is lost, and a short list is told in full.\<close>

lemma join_names_many: "7 < length ns \<Longrightarrow> suffix (show_nat (length ns - 6) @ '' others'') (join_names ns)"
  by (auto simp: join_names_def suffix_def)

text \<open>Of the ThreadActivity messages only those are announced whose content says what
  happened: a parsed activity names who it was done to, or the new name or description (a
  file needs neither); the notice is never empty, is posted by the Teams ghost, which no
  test takes for a person, under the message's own ID, and into the thread's portal.\<close>

lemma notice_says_something:
  assumes "system_message_event xml parse login th m = Some ev"
  shows "\<exists>a. parse_system_message xml parse (message_type m) (raw_content m) = Some a \<and> activity_ok a \<and>
    system_message_text a (place_for_thread (ts_thread_id th)) names \<noteq> [] \<and>
    (\<exists>s ts order. ev = Notice_Event (trim_space (ts_thread_id th), login) s ts order (trim_space (message_id m)) m \<and>
       \<not> is_person_mri (es_sender s) \<and> \<not> es_from_me s)"
  using assms parse_system_message_ok [of xml parse "message_type m" "raw_content m"]
  by (auto simp: system_message_event_def system_message_text_nonempty portal_key_def system_sender_id_def
      is_person_mri_def split: option.splits)

definition example_xml :: "string \<Rightarrow> xml_activity option" where
  "example_xml s = Some \<lparr>xa_initiator = ''8:a'', xa_value = [],
     xa_targets = [\<lparr>xt_text = [], xt_id = ''8:b'', xt_role = [], xt_type = []\<rparr>]\<rparr>"

lemma notice_says_something_example:
  "let m = blank_message\<lparr>message_id := ''17'', message_type := ''ThreadActivity/AddMember'', raw_content := ''xml''\<rparr> in
   \<exists>a. parse_system_message example_xml (\<lambda>_. None) (message_type m) (raw_content m) = Some a \<and>
     system_message_text a (place_for_thread (ts_thread_id example_thread)) None \<noteq> []"
proof -
  let ?m = "blank_message\<lparr>message_id := ''17'', message_type := ''ThreadActivity/AddMember'', raw_content := ''xml''\<rparr>"
  have "to_lower ''ThreadActivity/AddMember'' = ''threadactivity/addmember''" by code_simp
  then have "parse_system_message example_xml (\<lambda>_. None) (message_type ?m) (raw_content ?m) \<noteq> None"
    by (simp add: parse_system_message_def trim_space_plain plain_ends_def Let_def
        parse_xml_activity_def example_xml_def target_mri_def normalize_teams_user_id_def)
  then obtain ev where "system_message_event example_xml (\<lambda>_. None) ''me'' example_thread ?m = Some ev"
    by (auto simp: system_message_event_def)
  from notice_says_something [OF this, of None] show ?thesis by (auto simp: Let_def)
qed

text \<open>A channel-added notice lists exactly the channels of the new list that the old one
  lacks, each once and in byte order, whatever order and repeats Teams sent.\<close>

lemma channels_added_exact:
  assumes "parse_channels_added parse raw = Some a"
  shows "\<exists>old new user. Option.bind (parse raw) decode_value_change = Some (old, new, user) \<and>
    set (sa_targets a) = set (channel_names parse new) - set (channel_names parse old) \<and>
    distinct (sa_targets a) \<and> sorted (sa_targets a)"
  using parse_channels_added_targets [OF assms] .

definition example_json :: "string \<Rightarrow> json option" where
  "example_json s =
     (if s = ''x'' then Some (JObj [(''oldValue'', JStr ''o''), (''newValue'', JStr ''n''), (''user'', JStr ''8:a'')])
      else if s = ''o'' then Some (JArr [JObj [(''name'', JStr ''General'')]])
      else if s = ''n'' then Some (JArr [JObj [(''name'', JStr ''Tests'')], JObj [(''name'', JStr ''General'')], JObj [(''name'', JStr ''Code'')]])
      else None)"

lemma example_change: "Option.bind (example_json ''x'') decode_value_change = Some (''o'', ''n'', ''8:a'')"
  by code_simp

lemma name_field: "string_field ''name'' (JObj [(''name'', JStr s)]) = Some s"
  by (simp add: string_field_def equal_fold_def)

lemma example_names:
  "channel_names example_json ''o'' = [''General'']"
  "channel_names example_json ''n'' = [''Tests'', ''General'', ''Code'']"
  by (simp_all add: channel_names_def example_json_def name_field trim_space_plain plain_ends_def)

lemma example_channels:
  "parse_channels_added example_json ''x'' =
     Some ((blank_activity Channels ''8:a'')\<lparr>sa_targets := [''Code'', ''Tests'']\<rparr>)"
  by (simp add: parse_channels_added_def example_change example_names trim_space_plain plain_ends_def
      normalize_teams_user_id_def Let_def)

lemma channels_added_exact_example:
  "set [''Code'', ''Tests''] = set (channel_names example_json ''n'') - set (channel_names example_json ''o'')"
  using channels_added_exact [OF example_channels] example_change by auto

end
