(* ===== verification/Reachability.thy ===== *)
theory Reachability
  imports Poll_Backoff
begin

text \<open>
  Whether Teams answers (reachability.go) and whether the login's credentials work
  (client_lifecycle.go): what is recorded, and which bridge states are sent for it.
\<close>

section \<open>Reachability\<close>

datatype bridge_state = Connecting | Transient_Disconnect string | Connected | Bad_Credentials string

definition teams_reach_trip :: nat where "teams_reach_trip = 3"

record teams_reach =
  tr_failures :: nat
  tr_down :: bool

definition fresh_reach :: teams_reach where
  "fresh_reach = \<lparr>tr_failures = 0, tr_down = False\<rparr>"

text \<open>The error inside the first \<open>*url.Error\<close> of the chain.\<close>

fun url_inner :: "go_error \<Rightarrow> go_error option" where
  "url_inner (UrlError p e) = Some e"
| "url_inner (Wrapped e s) = url_inner e"
| "url_inner (Prefixed s e) = url_inner e"
| "url_inner _ = None"

definition short_network_error :: "go_error \<Rightarrow> string" where
  "short_network_error e = (case url_inner e of Some i \<Rightarrow> err_text i | None \<Rightarrow> err_text e)"

definition unreachable_state :: "go_error \<Rightarrow> bridge_state" where
  "unreachable_state e = Transient_Disconnect (''Teams is not answering: '' @ short_network_error e)"

definition reach_note :: "go_error option \<Rightarrow> teams_reach \<Rightarrow> bridge_state option \<times> teams_reach" where
  "reach_note err r =
     (if (case err of Some e \<Rightarrow> is_canceled e | None \<Rightarrow> False) then (None, r)
      else if is_teams_network_error err
      then (let r1 = r\<lparr>tr_failures := Suc (tr_failures r)\<rparr> in
            if tr_failures r1 < teams_reach_trip \<or> tr_down r1 then (None, r1)
            else (Some (unreachable_state (the err)), r1\<lparr>tr_down := True\<rparr>))
      else (let r1 = r\<lparr>tr_failures := 0\<rparr> in
            if \<not> tr_down r1 then (None, r1)
            else (Some Connected, r1\<lparr>tr_down := False\<rparr>)))"

definition reach_mark_down :: "go_error \<Rightarrow> teams_reach \<Rightarrow> bridge_state option \<times> teams_reach" where
  "reach_mark_down e r =
     (let r1 = r\<lparr>tr_failures := max (tr_failures r) teams_reach_trip\<rparr> in
      if tr_down r1 then (None, r1) else (Some (unreachable_state e), r1\<lparr>tr_down := True\<rparr>))"

section \<open>Credentials\<close>

definition suppressed_marker :: string where
  "suppressed_marker = '' (refresh suppressed until ''"

definition bad_credentials_key :: "go_error \<Rightarrow> string" where
  "bad_credentials_key e = (case cut (err_text e) suppressed_marker of (before, _, _) \<Rightarrow> before)"

text \<open>The outstanding failure's message, empty when there is none.\<close>

definition bad_note :: "go_error \<Rightarrow> string \<Rightarrow> (string \<times> bool) \<times> string" where
  "bad_note e b = (let msg = bad_credentials_key e in ((msg, msg \<noteq> b), msg))"

definition bad_clear :: "string \<Rightarrow> bool \<times> string" where
  "bad_clear b = (b \<noteq> [], [])"

section \<open>The client's reports\<close>

text \<open>
  What a client has recorded and the states it has sent, oldest first; \<open>superseded\<close> is
  whether a re-login has replaced it.
\<close>

record conn_state =
  cn_reach :: teams_reach
  cn_bad :: string
  cn_sent :: "bridge_state list"

definition fresh_conn :: conn_state where
  "fresh_conn = \<lparr>cn_reach = fresh_reach, cn_bad = [], cn_sent = []\<rparr>"

definition send_state :: "bridge_state option \<Rightarrow> conn_state \<Rightarrow> conn_state" where
  "send_state so c = (case so of Some s \<Rightarrow> c\<lparr>cn_sent := cn_sent c @ [s]\<rparr> | None \<Rightarrow> c)"

definition note_teams_result :: "go_error option \<Rightarrow> conn_state \<Rightarrow> conn_state" where
  "note_teams_result err c =
     (case reach_note err (cn_reach c) of (so, r) \<Rightarrow> send_state so (c\<lparr>cn_reach := r\<rparr>))"

definition report_bad_credentials :: "bool \<Rightarrow> go_error option \<Rightarrow> conn_state \<Rightarrow> conn_state" where
  "report_bad_credentials superseded err c =
     (case err of
        None \<Rightarrow> c
      | Some e \<Rightarrow>
          if superseded then c
          else (case bad_note e (cn_bad c) of ((msg, changed), b) \<Rightarrow>
                 send_state (if changed then Some (Bad_Credentials msg) else None) (c\<lparr>cn_bad := b\<rparr>)))"

definition report_token_error :: "bool \<Rightarrow> go_error \<Rightarrow> conn_state \<Rightarrow> conn_state" where
  "report_token_error superseded e c =
     (if superseded then c
      else (let c1 = note_teams_result (Some e) c in
            if \<not> is_teams_network_error (Some e) then report_bad_credentials superseded (Some e) c1 else c1))"

definition clear_bad_credentials :: "bool \<Rightarrow> conn_state \<Rightarrow> conn_state" where
  "clear_bad_credentials superseded c =
     (case bad_clear (cn_bad c) of (had, b) \<Rightarrow>
        send_state (if had \<and> \<not> superseded then Some Connected else None) (c\<lparr>cn_bad := b\<rparr>))"

section \<open>Reachability alternates\<close>

datatype reach_input = Result "go_error option" | Mark_Down go_error

fun reach_step1 :: "reach_input \<Rightarrow> teams_reach \<Rightarrow> bridge_state option \<times> teams_reach" where
  "reach_step1 (Result err) r = reach_note err r"
| "reach_step1 (Mark_Down e) r = reach_mark_down e r"

fun reach_sent :: "reach_input list \<Rightarrow> teams_reach \<Rightarrow> bridge_state list" where
  "reach_sent [] r = []"
| "reach_sent (i # is) r =
     (case reach_step1 i r of (so, r') \<Rightarrow> (case so of Some s \<Rightarrow> s # reach_sent is r' | None \<Rightarrow> reach_sent is r'))"

text \<open>Disconnects and connects in turn, a disconnect first where Teams was reachable.\<close>

fun alternates :: "bool \<Rightarrow> bridge_state list \<Rightarrow> bool" where
  "alternates down [] = True"
| "alternates down (Transient_Disconnect m # ss) = (\<not> down \<and> alternates True ss)"
| "alternates down (Connected # ss) = (down \<and> alternates False ss)"
| "alternates down (Bad_Credentials m # ss) = False"

lemma reach_step1_alternates:
  assumes "reach_step1 i r = (so, r')"
  shows "(so = None \<and> tr_down r' = tr_down r) \<or>
    (\<exists>m. so = Some (Transient_Disconnect m) \<and> \<not> tr_down r \<and> tr_down r') \<or>
    (so = Some Connected \<and> tr_down r \<and> \<not> tr_down r')"
  using assms
  by (cases i) (auto simp: reach_note_def reach_mark_down_def unreachable_state_def Let_def split: if_splits)

lemma reach_sent_alternates: "alternates (tr_down r) (reach_sent is r)"
proof (induction "is" arbitrary: r)
  case (Cons i "is")
  obtain so r' where st: "reach_step1 i r = (so, r')" by fastforce
  show ?case
    using reach_step1_alternates [OF st] Cons.IH [of r'] st by auto
qed simp

lemma reach_note_network:
  "is_teams_network_error (Some e) \<Longrightarrow> \<not> is_canceled e \<Longrightarrow>
   reach_note (Some e) r =
     (if tr_down r \<or> Suc (tr_failures r) < teams_reach_trip then (None, r\<lparr>tr_failures := Suc (tr_failures r)\<rparr>)
      else (Some (unreachable_state e), \<lparr>tr_failures = Suc (tr_failures r), tr_down = True\<rparr>))"
  by (simp add: reach_note_def Let_def)

lemma reach_note_answer:
  "\<not> is_teams_network_error err \<Longrightarrow> \<not> (\<exists>e. err = Some e \<and> is_canceled e) \<Longrightarrow>
   reach_note err r = (if tr_down r then Some Connected else None, \<lparr>tr_failures = 0, tr_down = False\<rparr>)"
  by (cases r) (auto simp: reach_note_def Let_def split: option.splits)

section \<open>The key of a failure\<close>

lemma cut_at:
  "(\<And>k. k < length s \<Longrightarrow> \<not> prefix sep (drop k (s @ sep @ r))) \<Longrightarrow> cut (s @ sep @ r) sep = (s, r, True)"
proof (induction s)
  case Nil
  then show ?case by (cases sep; cases r) simp_all
next
  case (Cons c s)
  have "\<not> prefix sep (c # s @ sep @ r)" using Cons.prems [of 0] by simp
  moreover have "cut (s @ sep @ r) sep = (s, r, True)"
    using Cons.prems [of "Suc k" for k] by (intro Cons.IH) simp
  ultimately show ?case by simp
qed

lemma cut_none: "\<not> sublist sep s \<Longrightarrow> fst (cut s sep) = s"
proof (induction s)
  case (Cons c s)
  have "\<not> prefix sep (c # s)" using Cons.prems prefix_imp_sublist by blast
  moreover have "\<not> sublist sep s" using Cons.prems by (meson sublist_Cons_right)
  ultimately show ?case using Cons.IH by (simp add: split_beta)
qed auto

definition marker_core :: string where
  "marker_core = ''(refresh suppressed until''"

lemma marker_shifts: "list_all (\<lambda>j. \<not> prefix (drop j suppressed_marker) suppressed_marker) [1..<26]"
  by code_simp

lemma marker_length: "length suppressed_marker = 27" "suppressed_marker = CHR '' '' # marker_core @ [CHR '' '']"
  by (simp_all add: suppressed_marker_def marker_core_def)

lemma marker_not_before:
  assumes "\<not> sublist marker_core s" and "k < length s"
  shows "\<not> prefix suppressed_marker (drop k (s @ suppressed_marker @ r))"
proof
  let ?M = suppressed_marker and ?u = "drop k s"
  assume p: "prefix ?M (drop k (s @ ?M @ r))"
  then have p: "prefix ?M (?u @ ?M @ r)" using assms(2) by simp
  have u: "0 < length ?u" using assms(2) by simp
  show False
  proof (cases "26 \<le> length ?u")
    case True
    obtain zs where "?u @ ?M @ r = ?M @ zs" using p by (auto simp: prefix_def)
    then have "take 26 (?u @ ?M @ r) = take 26 (?M @ zs)" by simp
    then have "take 26 ?u = take 26 ?M" using True marker_length(1) by simp
    then have "CHR '' '' # marker_core = take 26 ?u"
      by (simp add: marker_length(2) marker_core_def)
    then have "prefix (CHR '' '' # marker_core) ?u" by (metis take_is_prefix)
    then have "sublist (CHR '' '' # marker_core) s"
      by (meson prefix_imp_sublist sublist_drop sublist_order.order_trans)
    then show False using assms(1) by (meson sublist_Cons_right sublist_order.order_refl sublist_order.order_trans)
  next
    case False
    let ?j = "length ?u"
    obtain zs where "?u @ ?M @ r = ?M @ zs" using p by (auto simp: prefix_def)
    then have "drop ?j (?u @ ?M @ r) = drop ?j (?M @ zs)" by (rule arg_cong)
    then have "?M @ r = drop ?j ?M @ drop (?j - length ?M) zs" by (simp add: drop_append)
    then have "prefix (drop ?j ?M) (?M @ r)" by (simp only: prefixI)
    then have "prefix (drop ?j ?M) ?M" by (rule prefix_length_prefix) simp_all
    moreover have "?j \<in> set [1..<26]" using u False by simp
    ultimately show False using marker_shifts by (auto simp: list_all_iff)
  qed
qed

lemma key_of_suppressed:
  assumes "\<not> sublist marker_core (err_text e)"
  shows "bad_credentials_key (Wrapped e (suppressed_marker @ t)) = bad_credentials_key e"
proof -
  have "\<not> sublist suppressed_marker (err_text e)"
  proof
    assume "sublist suppressed_marker (err_text e)"
    moreover have "sublist marker_core suppressed_marker"
      unfolding marker_length(2) by (meson sublist_Cons_right sublist_append_rightI)
    ultimately show False using assms sublist_order.order_trans by blast
  qed
  moreover have "cut (err_text e @ suppressed_marker @ t) suppressed_marker = (err_text e, t, True)"
    using marker_not_before [OF assms] by (rule cut_at)
  ultimately show ?thesis using cut_none [of suppressed_marker "err_text e"]
    by (simp add: bad_credentials_key_def split_beta)
qed

lemma refresh_blocked_shape:
  "refresh_blocked f now = Some e' \<Longrightarrow> \<exists>e t. rf_err f = Some e \<and> e' = Wrapped e (suppressed_marker @ t)"
  by (auto simp: refresh_blocked_def suppressed_marker_def split: option.splits if_splits)

section \<open>Properties\<close>

text \<open>Whatever answers the requests to Teams get, and whenever a failed connection marks it
  down, the states sent for reachability alternate: a disconnect is followed by a connect
  before the next disconnect, and a connect is only sent after a disconnect.\<close>

lemma reach_states_alternate:
  "alternates False (reach_sent is fresh_reach)"
  using reach_sent_alternates [of fresh_reach "is"] by (simp add: fresh_reach_def)

text \<open>A reachable Teams is reported down by exactly the third unanswered request in a row:
  two leave it up and send nothing, any answer in between starts the count again, and the
  first answer after that reports it connected.\<close>

lemma reach_trips_at_three:
  assumes "\<And>e. e \<in> {e1, e2, e3} \<Longrightarrow> is_teams_network_error (Some e) \<and> \<not> is_canceled e"
    and "\<not> is_teams_network_error ok" and "\<not> (\<exists>e. ok = Some e \<and> is_canceled e)"
  shows "reach_sent [Result (Some e1), Result (Some e2)] fresh_reach = [] \<and>
    reach_sent [Result (Some e1), Result (Some e2), Result (Some e3)] fresh_reach = [unreachable_state e3] \<and>
    reach_sent [Result (Some e1), Result (Some e2), Result ok, Result (Some e3)] fresh_reach = [] \<and>
    reach_sent [Result (Some e1), Result (Some e2), Result (Some e3), Result ok] fresh_reach = [unreachable_state e3, Connected]"
  using assms by (simp add: reach_note_network reach_note_answer fresh_reach_def teams_reach_trip_def)

lemma reach_trips_at_three_example:
  "reach_sent [Result (Some (NetFailure True ''timeout'')), Result (Some DeadlineExceeded), Result (Some (DNSFailure False ''no host'')),
     Result None] fresh_reach = [unreachable_state (DNSFailure False ''no host''), Connected]"
proof -
  have "\<And>e. e \<in> {NetFailure True ''timeout'', DeadlineExceeded, DNSFailure False ''no host''} \<Longrightarrow>
      is_teams_network_error (Some e) \<and> \<not> is_canceled e"
    by (auto simp: is_teams_network_error_def is_canceled_def)
  moreover have "\<not> is_teams_network_error None" by (simp add: is_teams_network_error_def)
  ultimately show ?thesis
    using reach_trips_at_three [of "NetFailure True ''timeout''" DeadlineExceeded "DNSFailure False ''no host''" None] by blast
qed

text \<open>A failed token refresh is announced once: the failure the refresh backoff answers
  with until its window ends is recognised as the one already reported, so reporting it again
  (once for every thread polled meanwhile) sends no further BAD_CREDENTIALS state.\<close>

lemma suppressed_failure_silent:
  assumes "rf_err f = Some e" and "refresh_blocked f now = Some e'"
    and "\<not> sublist marker_core (err_text e)" and "\<not> is_teams_network_error (Some e)" and "\<not> is_canceled e"
  shows "let c1 = report_token_error False e c in
    cn_sent (report_token_error False e' c1) = cn_sent c1 \<and> cn_bad (report_token_error False e' c1) = cn_bad c1"
proof -
  obtain t where e': "e' = Wrapped e (suppressed_marker @ t)"
    using refresh_blocked_shape [OF assms(2)] assms(1) by auto
  have k: "bad_credentials_key e' = bad_credentials_key e" unfolding e' by (rule key_of_suppressed [OF assms(3)])
  have n: "\<not> is_teams_network_error (Some e')" "\<not> is_canceled e'"
    using assms(4,5) by (simp_all add: e' is_teams_network_error_def is_deadline_def)
  note note1 = reach_note_answer [of "Some e"] and note2 = reach_note_answer [of "Some e'"]
  show ?thesis
    using assms(4,5) n k
    by (simp add: report_token_error_def note_teams_result_def note1 note2 report_bad_credentials_def bad_note_def
        send_state_def Let_def split: option.splits)
qed

lemma suppressed_failure_silent_example:
  "let f = refresh_record no_refresh_failure 0 (Plain ''invalid_grant'');
       c1 = report_token_error False (Plain ''invalid_grant'') fresh_conn in
   cn_sent c1 = [Bad_Credentials ''invalid_grant''] \<and>
   cn_sent (report_token_error False (the (refresh_blocked f second)) c1) = cn_sent c1"
proof -
  let ?e = "Plain ''invalid_grant''" and ?f = "refresh_record no_refresh_failure 0 (Plain ''invalid_grant'')"
  have "refresh_backoff_base \<le> rf_until ?f" using refresh_record_window [of no_refresh_failure 0 ?e] by simp
  then have b: "refresh_blocked ?f second = Some (the (refresh_blocked ?f second))"
    by (simp add: refresh_blocked_def refresh_backoff_base_def)
  have s: "\<not> sublist marker_core (err_text ?e)" by code_simp
  have n: "\<not> is_teams_network_error (Some ?e)" "\<not> is_canceled ?e"
    by (simp_all add: is_teams_network_error_def is_deadline_def)
  have key: "bad_credentials_key ?e = ''invalid_grant''" by code_simp
  have "cn_sent (report_token_error False ?e fresh_conn) = [Bad_Credentials ''invalid_grant'']"
    using n key by (simp add: report_token_error_def note_teams_result_def reach_note_answer report_bad_credentials_def
        bad_note_def send_state_def fresh_conn_def fresh_reach_def Let_def)
  then show ?thesis
    using suppressed_failure_silent [OF _ b s n, of fresh_conn] by (simp add: Let_def)
qed

end
