(* ===== verification/Poll_Thread.thy ===== *)
theory Poll_Thread
  imports Cursor_Commit Receipts System_Messages Reachability
begin

text \<open>
  Polling one thread (message_poller.go: \<open>pollThread\<close> and what it calls, with
  \<open>syncGhostName\<close> of ghost_names.go): the page of messages after the cursor becomes typing
  events, notices, deletes, edits and messages, each tied to the page's cursor, and the
  messages at or below the cursor are looked at for changes in place.
\<close>

section \<open>State and environment\<close>

record ghost =
  gh_name :: string
  gh_name_set :: bool

text \<open>
  What surrounds the poll: the bridge, its event sink, the decoders, the database's errors,
  the ghosts bridgev2 has, and what the requests of this poll answer.
\<close>

record poll_env =
  pe_bridge :: bridge_env
  pe_sink :: event_sink
  pe_xml :: "string \<Rightarrow> xml_activity option"
  pe_json :: "string \<Rightarrow> json option"
  pe_ghost :: "string \<Rightarrow> go_error + ghost option"
  pe_profile_put_err :: "go_error option"
  pe_profile_get_err :: "go_error option"
  pe_save_err :: "go_error option"
  pe_token_err :: "go_error option"
  pe_list :: "string \<Rightarrow> string \<Rightarrow> go_error + remote_message list"
  pe_horizons :: "go_error + consumption_horizon list option"
  pe_horizon_env :: horizon_env
  pe_superseded :: bool

record poll_world =
  pw_caches :: client_caches
  pw_events :: "remote_event list"
  pw_cursors :: cursor_world
  pw_profiles :: "profile_table option"
  pw_horizons :: "horizon_table option"
  pw_known_users :: "string set"
  pw_renames :: "(string \<times> string) list"
  pw_pin_refreshes :: "string list"
  pw_conn :: conn_state

definition pe_login :: "poll_env \<Rightarrow> string" where
  "pe_login env = be_login (pe_bridge env)"

definition queue_remote_event :: "poll_env \<Rightarrow> remote_event \<Rightarrow> poll_world \<Rightarrow> bool \<times> poll_world" where
  "queue_remote_event env ev w = (pe_sink env ev, w\<lparr>pw_events := pw_events w @ [ev]\<rparr>)"

text \<open>Events of page \<open>p\<close> that its cursor waits for.\<close>

definition queue_tracked :: "poll_env \<Rightarrow> nat \<Rightarrow> remote_event \<Rightarrow> poll_world \<Rightarrow> poll_world" where
  "queue_tracked env p ev w =
     (case queue_remote_event env ev w of (queued, w1) \<Rightarrow>
        w1\<lparr>pw_cursors := queue_for_cursor (pe_save_err env) (pe_login env) p queued (pw_cursors w1)\<rparr>)"

text \<open>Run an operation of \<open>In_Place\<close> on the maps and events.\<close>

definition on_queue :: "(queue_state \<Rightarrow> queue_state) \<Rightarrow> poll_world \<Rightarrow> poll_world" where
  "on_queue f w = (case f (pw_caches w, pw_events w) of (c, evs) \<Rightarrow> w\<lparr>pw_caches := c, pw_events := evs\<rparr>)"

section \<open>Names\<close>

definition sync_ghost_name :: "poll_env \<Rightarrow> string \<Rightarrow> string \<Rightarrow> poll_world \<Rightarrow> poll_world" where
  "sync_ghost_name env user0 name0 w =
     (let user = trim_space user0; name = trim_space name0 in
      if user = [] \<or> name = [] \<or> name = user then w
      else (case pe_ghost env (network_user_id user) of
              Inr (Some g) \<Rightarrow> if gh_name g = name \<and> gh_name_set g then w
                              else w\<lparr>pw_renames := pw_renames w @ [(user, name)]\<rparr>
            | _ \<Rightarrow> w))"

definition track_known_user :: "string \<Rightarrow> poll_world \<Rightarrow> poll_world" where
  "track_known_user u w = (if u = [] then w else w\<lparr>pw_known_users := insert u (pw_known_users w)\<rparr>)"

definition resolve_sender_name ::
  "poll_env \<Rightarrow> gotime \<Rightarrow> string \<Rightarrow> remote_message \<Rightarrow> poll_world \<Rightarrow> string \<times> poll_world" where
  "resolve_sender_name env now sender m w =
     (let im = trim_space (im_display_name m);
          carried = (if im = [] then trim_space (token_display_name m) else im);
          (name, w1) =
            (if carried \<noteq> []
             then (carried, sync_ghost_name env sender carried
                     (w\<lparr>pw_profiles := snd (profile_upsert (pe_profile_put_err env) (pw_profiles w) sender carried now)\<rparr>))
             else (case profile_get (pe_profile_get_err env) (pw_profiles w) sender of
                     Inr (Some p) \<Rightarrow> if trim_space (prof_name p) \<noteq> [] then (trim_space (prof_name p), w) else (sender, w)
                   | _ \<Rightarrow> (sender, w)))
      in (name, track_known_user sender w1))"

section \<open>Kinds of messages\<close>

definition typing_timeout :: duration where "typing_timeout = 5 * second"
definition typing_max_age :: duration where "typing_max_age = 15 * second"
definition pinned_items_update_type :: string where "pinned_items_update_type = ''ThreadActivity/PinnedItemsUpdate''"

definition is_typing_control :: "remote_message \<Rightarrow> bool" where
  "is_typing_control m \<longleftrightarrow> equal_fold (message_type m) ''Control/Typing'' \<or>
     equal_fold (message_type m) ''Control/ClearTyping'' \<or> equal_fold (message_type m) ''Control/LiveState''"

text \<open>At or below the cursor.\<close>

definition already_seen :: "string \<Rightarrow> remote_message \<Rightarrow> bool" where
  "already_seen last_seq m \<longleftrightarrow> last_seq \<noteq> [] \<and> compare_sequence_id (trim_space (sequence_id m)) last_seq \<le> 0"

definition handle_typing_control ::
  "poll_env \<Rightarrow> gotime \<Rightarrow> gotime \<Rightarrow> thread_state \<Rightarrow> remote_message \<Rightarrow> string \<Rightarrow> string \<Rightarrow> poll_world \<Rightarrow> poll_world" where
  "handle_typing_control env now clock th m last_seq self w =
     (let sender = normalize_teams_user_id (sender_id m) in
      if already_seen last_seq m then w
      else if \<not> is_zero_time (msg_timestamp m) \<and> typing_max_age < time_sub now (msg_timestamp m) then w
      else if sender = [] \<or> sender = self \<or> is_likely_thread_id sender then w
      else (case should_emit_typing clock (ts_thread_id th) sender (pw_caches w) of (emit, c1) \<Rightarrow>
        let w1 = w\<lparr>pw_caches := c1\<rparr>;
            timeout = (if equal_fold (message_type m) ''Control/ClearTyping'' then 0 else typing_timeout) in
        if \<not> emit then w1
        else snd (queue_remote_event env
               (Typing_Event (portal_key (pe_login env) (ts_thread_id th)) (other_sender sender) (msg_timestamp m) timeout) w1)))"

definition queue_non_user_message ::
  "poll_env \<Rightarrow> thread_state \<Rightarrow> remote_message \<Rightarrow> nat \<Rightarrow> poll_world \<Rightarrow> bool \<times> poll_world" where
  "queue_non_user_message env th m p w =
     (let w1 = (if equal_fold (trim_space (message_type m)) pinned_items_update_type
                then w\<lparr>pw_pin_refreshes := pw_pin_refreshes w @ [ts_thread_id th]\<rparr> else w) in
      case system_message_event (pe_xml env) (pe_json env) (pe_login env) th m of
        Some ev \<Rightarrow> (True, queue_tracked env p ev w1)
      | None \<Rightarrow> (False, w1))"

text \<open>The user message of \<open>sender\<close>, an own one marked as such.\<close>

definition message_sender :: "poll_env \<Rightarrow> string \<Rightarrow> string \<Rightarrow> event_sender" where
  "message_sender env sender self =
     (if sender \<noteq> [] \<and> self \<noteq> [] \<and> sender = self
      then \<lparr>es_sender = network_user_id sender, es_from_me = True, es_login = pe_login env\<rparr>
      else other_sender sender)"

definition queue_user_message ::
  "poll_env \<Rightarrow> gotime \<Rightarrow> thread_state \<Rightarrow> remote_message \<Rightarrow> string \<Rightarrow> string \<Rightarrow> string \<Rightarrow> nat \<Rightarrow>
   poll_world \<Rightarrow> bool \<times> poll_world" where
  "queue_user_message env clock th m sender self effective p w0 =
     (let es = message_sender env sender self;
          w1 = (if effective \<noteq> [] \<and> msg_reactions m \<noteq> []
                then w0\<lparr>pw_caches := snd (mark_reaction_seen clock effective True (pw_caches w0))\<rparr> else w0);
          client_id = trim_space (client_message_id m);
          (echo, w2) = (if sender \<noteq> [] \<and> self \<noteq> [] \<and> sender = self
                        then (case consume_self_message clock client_id (pw_caches w1) of
                                (b, c) \<Rightarrow> (b, w1\<lparr>pw_caches := c\<rparr>))
                        else (False, w1));
          event_id = (if effective = [] then trim_space (message_id m) else effective);
          portal = portal_key (pe_login env) (ts_thread_id th);
          sync = on_queue (queue_reaction_sync (pe_bridge env) clock th m event_id) in
      if sublist ''MessageDelete'' (message_type m)
      then (False, queue_tracked env p (Remove_Event portal es (msg_timestamp m) event_id) w2)
      else if skype_edited_id m \<noteq> []
      then (False, sync (queue_tracked env p
              (Edit_Event portal es (msg_timestamp m) event_id (trim_space (skype_edited_id m)) m) w2))
      else (let w3 = sync (queue_tracked env p
                       (Message_Event portal es (msg_timestamp m) (unix_milli (msg_timestamp m)) event_id client_id m) w2) in
            (True, if \<not> echo \<and> \<not> es_from_me es \<and> trim_space (ts_thread_id th) \<noteq> []
                   then w3\<lparr>pw_caches := mark_unread (ts_thread_id th) (pw_caches w3)\<rparr> else w3)))"

section \<open>The page\<close>

text \<open>What the loop carries: the newest sequence ID and timestamp, and the messages ingested.\<close>

record page_state =
  pg_max_seq :: string
  pg_max_ts :: int
  pg_ingested :: nat

definition page_start :: page_state where
  "page_start = \<lparr>pg_max_seq = [], pg_max_ts = 0, pg_ingested = 0\<rparr>"

definition page_advance :: "remote_message \<Rightarrow> page_state \<Rightarrow> page_state" where
  "page_advance m g =
     (let s = trim_space (sequence_id m);
          g1 = (if pg_max_seq g = [] \<or> 0 < compare_sequence_id s (pg_max_seq g) then g\<lparr>pg_max_seq := s\<rparr> else g);
          ts = unix_milli (msg_timestamp m) in
      if pg_max_ts g1 < ts then g1\<lparr>pg_max_ts := ts\<rparr> else g1)"

definition page_count :: "bool \<Rightarrow> page_state \<Rightarrow> page_state" where
  "page_count b g = (if b then g\<lparr>pg_ingested := Suc (pg_ingested g)\<rparr> else g)"

text \<open>A message from no user: its sender is the thread, or its type is Teams' own.\<close>

definition is_non_user :: "thread_state \<Rightarrow> remote_message \<Rightarrow> bool" where
  "is_non_user th m \<longleftrightarrow>
     (let sender = normalize_teams_user_id (sender_id m) in
      sender = [] \<or> equal_fold sender (trim_space (ts_thread_id th)) \<or> is_likely_thread_id sender \<or>
      is_system_message_type (message_type m))"

definition poll_message ::
  "poll_env \<Rightarrow> gotime \<Rightarrow> gotime \<Rightarrow> thread_state \<Rightarrow> nat \<Rightarrow> string \<Rightarrow> string \<Rightarrow> remote_message \<Rightarrow>
   page_state \<times> poll_world \<Rightarrow> page_state \<times> poll_world" where
  "poll_message env now clock th p last_seq self m s =
     (case s of (g, w) \<Rightarrow>
        if trim_space (message_id m) = [] then (g, w)
        else if is_typing_control m then (g, handle_typing_control env now clock th m last_seq self w)
        else (let eff = effective_remote_message_id m in
              if already_seen last_seq m
              then (g, on_queue (queue_in_place_change (pe_bridge env) clock th m eff self)
                         (on_queue (queue_reaction_sync (pe_bridge env) clock th m eff) w))
              else (let g1 = page_advance m g; sender = normalize_teams_user_id (sender_id m) in
                    if is_non_user th m
                    then (case queue_non_user_message env th m p w of (b, w1) \<Rightarrow> (page_count b g1, w1))
                    else (case resolve_sender_name env now sender m w of (name, w1) \<Rightarrow>
                            case queue_user_message env clock th (m\<lparr>sender_name := name\<rparr>) sender self eff p w1 of
                              (b, w2) \<Rightarrow> (page_count b g1, w2)))))"

fun poll_messages ::
  "poll_env \<Rightarrow> gotime \<Rightarrow> gotime \<Rightarrow> thread_state \<Rightarrow> nat \<Rightarrow> string \<Rightarrow> string \<Rightarrow> remote_message list \<Rightarrow>
   page_state \<times> poll_world \<Rightarrow> page_state \<times> poll_world" where
  "poll_messages env now clock th p last_seq self [] s = s"
| "poll_messages env now clock th p last_seq self (m # ms) s =
     poll_messages env now clock th p last_seq self ms (poll_message env now clock th p last_seq self m s)"

definition advance_page_cursor ::
  "poll_env \<Rightarrow> thread_state \<Rightarrow> nat \<Rightarrow> page_state \<Rightarrow> poll_world \<Rightarrow> thread_state \<times> poll_world" where
  "advance_page_cursor env th p g w =
     (if pg_max_seq g = [] then (th, w)
      else (th\<lparr>ts_last_seq := pg_max_seq g, ts_last_ts := pg_max_ts g\<rparr>,
            w\<lparr>pw_cursors := world_release (pe_save_err env) (pe_login env) p
                \<lparr>cp_seq = pg_max_seq g, cp_ts = pg_max_ts g\<rparr> (pw_cursors w)\<rparr>))"

section \<open>The poll of a thread\<close>

definition fetch_thread_page ::
  "poll_env \<Rightarrow> thread_state \<Rightarrow> poll_world \<Rightarrow> (go_error + remote_message list) \<times> thread_state \<times> poll_world" where
  "fetch_thread_page env th w =
     (case pe_token_err env of
        Some e \<Rightarrow> (Inl e, th, w\<lparr>pw_conn := report_token_error (pe_superseded env) e (pw_conn w)\<rparr>)
      | None \<Rightarrow>
          (let th1 = (case cursor_pending (cw_cursors (pw_cursors w)) (ts_thread_id th) of
                        Some pos \<Rightarrow> if newer_than pos (trim_space (ts_last_seq th))
                                    then th\<lparr>ts_last_seq := cp_seq pos, ts_last_ts := cp_ts pos\<rparr> else th
                      | None \<Rightarrow> th);
               r = pe_list env (ts_conversation th1) (ts_last_seq th1)
           in (r, th1, w\<lparr>pw_conn := note_teams_result (the_err r) (pw_conn w)\<rparr>)))"

definition poll_receipts :: "poll_env \<Rightarrow> gotime \<Rightarrow> thread_state \<Rightarrow> poll_world \<Rightarrow> poll_world" where
  "poll_receipts env now th w =
     (case poll_consumption_horizons (pe_horizon_env env) now th (be_self (pe_bridge env)) (pe_horizons env)
             (pw_caches w, pw_horizons w, pw_events w) of
        (_, c, h, evs) \<Rightarrow> w\<lparr>pw_caches := c, pw_horizons := h, pw_events := evs\<rparr>)"

definition poll_thread ::
  "poll_env \<Rightarrow> gotime \<Rightarrow> gotime \<Rightarrow> thread_state \<Rightarrow> poll_world \<Rightarrow> (go_error + nat) \<times> thread_state \<times> poll_world" where
  "poll_thread env now clock th w =
     (if is_non_pollable_system_stream (ts_thread_id th) \<or> is_non_pollable_system_stream (ts_conversation th)
      then (Inr 0, th, w)
      else (case fetch_thread_page env th w of (r, th1, w1) \<Rightarrow>
        case r of
          Inl e \<Rightarrow> (Inl e, th1, w1)
        | Inr msgs \<Rightarrow>
            (let last_seq = trim_space (ts_last_seq th1);
                 self = normalize_teams_user_id (be_self (pe_bridge env));
                 p = length (cw_commits (pw_cursors w1));
                 w2 = w1\<lparr>pw_cursors := world_open (ts_thread_id th1) (pw_cursors w1)\<rparr>;
                 (g, w3) = poll_messages env now clock th1 p last_seq self msgs (page_start, w2);
                 (th2, w4) = advance_page_cursor env th1 p g w3
             in (Inr (pg_ingested g), th2, poll_receipts env now th2 w4))))"

section \<open>What a page delivers\<close>

text \<open>The key of a message event: its ID and transaction ID.\<close>

fun message_key :: "remote_event \<Rightarrow> (string \<times> string) option" where
  "message_key (Message_Event portal es ts order i txn m) = Some (i, txn)"
| "message_key _ = None"

definition message_keys :: "remote_event list \<Rightarrow> (string \<times> string) list" where
  "message_keys evs = List.map_filter message_key evs"

lemma message_keys_simps [simp]:
  "message_keys [] = []" "message_keys (xs @ ys) = message_keys xs @ message_keys ys"
  by (simp_all add: message_keys_def List.map_filter_def)

lemma message_keys_single: "message_keys [ev] = (case message_key ev of None \<Rightarrow> [] | Some k \<Rightarrow> [k])"
  by (auto simp: message_keys_def List.map_filter_def split: option.splits)

definition event_id_of :: "remote_message \<Rightarrow> string" where
  "event_id_of m = (let eff = effective_remote_message_id m in if eff = [] then trim_space (message_id m) else eff)"

text \<open>The messages of a page that are new and an ordinary message of a user.\<close>

definition is_new_message :: "string \<Rightarrow> remote_message \<Rightarrow> bool" where
  "is_new_message last_seq m \<longleftrightarrow>
     trim_space (message_id m) \<noteq> [] \<and> \<not> is_typing_control m \<and> \<not> already_seen last_seq m"

definition delivered :: "thread_state \<Rightarrow> string \<Rightarrow> remote_message \<Rightarrow> bool" where
  "delivered th last_seq m \<longleftrightarrow> is_new_message last_seq m \<and> \<not> is_non_user th m \<and>
     \<not> sublist ''MessageDelete'' (message_type m) \<and> skype_edited_id m = []"

definition appends :: "poll_world \<Rightarrow> poll_world \<Rightarrow> (string \<times> string) list \<Rightarrow> bool" where
  "appends w w' ks \<longleftrightarrow> (\<exists>new. pw_events w' = pw_events w @ new \<and> message_keys new = ks)"

lemma appends_refl [simp]: "appends w w []"
  by (simp add: appends_def)

lemma appends_trans: "appends w w1 ks1 \<Longrightarrow> appends w1 w2 ks2 \<Longrightarrow> appends w w2 (ks1 @ ks2)"
  by (auto simp: appends_def)

lemma appends_same: "pw_events w' = pw_events w \<Longrightarrow> appends w w' []"
  by (simp add: appends_def)

lemma queue_reaction_sync_events:
  "\<exists>new. snd (queue_reaction_sync env now th m i s) = snd s @ new \<and> message_keys new = []"
  by (auto simp: queue_reaction_sync_def Let_def message_keys_def List.map_filter_def split: prod.splits option.splits)

lemma queue_in_place_change_events:
  "\<exists>new. snd (queue_in_place_change env now th m i self s) = snd s @ new \<and> message_keys new = []"
  by (auto simp: queue_in_place_change_def queue_in_place_delete_def queue_in_place_edit_def Let_def
      message_keys_def List.map_filter_def split: prod.splits sum.splits)

lemma appends_on_queue:
  assumes "\<exists>new. snd (f (pw_caches w, pw_events w)) = pw_events w @ new \<and> message_keys new = []"
  shows "appends w (on_queue f w) []"
  using assms by (auto simp: appends_def on_queue_def split: prod.splits)

lemma appends_reaction_sync [simp]: "appends w (on_queue (queue_reaction_sync env now th m i) w) []"
  using queue_reaction_sync_events [of env now th m i "(pw_caches w, pw_events w)"] by (intro appends_on_queue) simp

lemma appends_in_place [simp]: "appends w (on_queue (queue_in_place_change env now th m i self) w) []"
  using queue_in_place_change_events [of env now th m i self "(pw_caches w, pw_events w)"]
  by (intro appends_on_queue) simp

lemma events_tracked: "pw_events (queue_tracked env p ev w) = pw_events w @ [ev]"
  by (simp add: queue_tracked_def queue_remote_event_def)

lemma appends_typing: "appends w (handle_typing_control env now clock th m last_seq self w) []"
  by (auto simp: handle_typing_control_def Let_def appends_def queue_remote_event_def message_keys_def
      List.map_filter_def split: prod.splits)

lemma events_ghost_name [simp]: "pw_events (sync_ghost_name env u n w) = pw_events w"
  by (auto simp: sync_ghost_name_def Let_def split: sum.splits option.splits)

lemma events_resolve: "pw_events (snd (resolve_sender_name env now sender m w)) = pw_events w"
  by (auto simp: resolve_sender_name_def track_known_user_def Let_def split_beta split: sum.splits option.splits)

text \<open>Whether a message without a user becomes a notice.\<close>

definition gives_notice :: "poll_env \<Rightarrow> thread_state \<Rightarrow> remote_message \<Rightarrow> bool" where
  "gives_notice env th m \<longleftrightarrow> system_message_event (pe_xml env) (pe_json env) (pe_login env) th m \<noteq> None"

lemma non_user_appends:
  assumes "queue_non_user_message env th m p w = (b, w')"
  shows "appends w w' [] \<and> b = gives_notice env th m"
proof -
  have "message_key ev = None" if "system_message_event x j l th m = Some ev" for x j l ev
    using that by (auto simp: system_message_event_def split: option.splits)
  then show ?thesis
    using assms
    by (auto simp: queue_non_user_message_def gives_notice_def appends_def events_tracked message_keys_def
        List.map_filter_def Let_def split: option.splits if_splits)
qed

lemma user_message_appends:
  assumes "queue_user_message env clock th m sender self (effective_remote_message_id m') p w = (b, w')"
    and "message_id m = message_id m'"
  shows "b = (\<not> sublist ''MessageDelete'' (message_type m) \<and> skype_edited_id m = []) \<and>
    appends w w' (if b then [(event_id_of m', trim_space (client_message_id m))] else [])"
proof -
  define w1 where "w1 = (if effective_remote_message_id m' \<noteq> [] \<and> msg_reactions m \<noteq> []
    then w\<lparr>pw_caches := snd (mark_reaction_seen clock (effective_remote_message_id m') True (pw_caches w))\<rparr> else w)"
  obtain echo w2 where e: "(echo, w2) = (if sender \<noteq> [] \<and> self \<noteq> [] \<and> sender = self
      then (case consume_self_message clock (trim_space (client_message_id m)) (pw_caches w1) of
              (b, c) \<Rightarrow> (b, w1\<lparr>pw_caches := c\<rparr>)) else (False, w1))" by (metis surj_pair)
  have ev2: "pw_events w2 = pw_events w"
    using e by (auto simp: w1_def split: if_splits prod.splits)
  let ?r = "\<lambda>ev. on_queue (queue_reaction_sync (pe_bridge env) clock th m (event_id_of m')) (queue_tracked env p ev w2)"
  have tracked: "appends w (queue_tracked env p ev w2) ks" if "message_keys [ev] = ks" for ev ks
    using that by (simp add: appends_def events_tracked ev2)
  have synced: "appends w (?r ev) ks" if "message_keys [ev] = ks" for ev ks
    using appends_trans [OF tracked [OF that] appends_reaction_sync] by simp
  have keep: "appends w (x\<lparr>pw_caches := c\<rparr>) ks" if "appends w x ks" for x ks c
    using that by (simp add: appends_def)
  have i: "(if effective_remote_message_id m' = [] then trim_space (message_id m) else effective_remote_message_id m') =
      event_id_of m'"
    using assms(2) by (simp add: event_id_of_def)
  consider (delete) "sublist ''MessageDelete'' (message_type m)"
    | (edit) "\<not> sublist ''MessageDelete'' (message_type m)" "skype_edited_id m \<noteq> []"
    | (ordinary) "\<not> sublist ''MessageDelete'' (message_type m)" "skype_edited_id m = []" by blast
  then show ?thesis
  proof cases
    case delete
    then have "\<not> b \<and> (\<exists>ev. message_key ev = None \<and> w' = queue_tracked env p ev w2)"
      using assms(1) unfolding queue_user_message_def Let_def w1_def [symmetric] e [symmetric] i
      by (auto intro!: exI [of _ "Remove_Event (portal_key (pe_login env) (ts_thread_id th))
        (message_sender env sender self) (msg_timestamp m) (event_id_of m')"])
    then show ?thesis using delete by (auto intro!: tracked simp: message_keys_single)
  next
    case edit
    then have "\<not> b \<and> (\<exists>ev. message_key ev = None \<and> w' = ?r ev)"
      using assms(1) unfolding queue_user_message_def Let_def w1_def [symmetric] e [symmetric] i
      by (auto intro!: exI [of _ "Edit_Event (portal_key (pe_login env) (ts_thread_id th))
        (message_sender env sender self) (msg_timestamp m) (event_id_of m') (trim_space (skype_edited_id m)) m"])
    then show ?thesis using edit by (auto intro!: synced simp: message_keys_single)
  next
    case ordinary
    let ?c = "trim_space (client_message_id m)"
    obtain es where "b \<and> (let w3 = ?r (Message_Event (portal_key (pe_login env) (ts_thread_id th)) es (msg_timestamp m)
        (unix_milli (msg_timestamp m)) (event_id_of m') ?c m) in w' = w3 \<or> (\<exists>c. w' = w3\<lparr>pw_caches := c\<rparr>))"
      using assms(1) ordinary unfolding queue_user_message_def Let_def w1_def [symmetric] e [symmetric] i
      by (auto split: if_splits)
    then show ?thesis using ordinary by (auto simp: message_keys_single Let_def intro!: keep synced)
  qed
qed

lemma poll_message_appends:
  assumes "poll_message env now clock th p last_seq self m (g, w) = (g', w')"
  shows "appends w w' (if delivered th last_seq m then [(event_id_of m, trim_space (client_message_id m))] else []) \<and>
    pg_ingested g' = pg_ingested g +
      (if delivered th last_seq m \<or> is_new_message last_seq m \<and> is_non_user th m \<and> gives_notice env th m then 1 else 0)"
proof -
  have adv [simp]: "pg_ingested (page_advance m g) = pg_ingested g"
    by (auto simp: page_advance_def Let_def)
  consider (blank) "trim_space (message_id m) = []"
    | (typing) "trim_space (message_id m) \<noteq> []" "is_typing_control m"
    | (seen) "trim_space (message_id m) \<noteq> []" "\<not> is_typing_control m" "already_seen last_seq m"
    | (non_user) "is_new_message last_seq m" "is_non_user th m"
    | (user) "is_new_message last_seq m" "\<not> is_non_user th m"
    by (auto simp: is_new_message_def)
  then show ?thesis
  proof cases
    case blank
    then show ?thesis using assms by (auto simp: poll_message_def delivered_def is_new_message_def)
  next
    case typing
    then show ?thesis using assms appends_typing by (auto simp: poll_message_def delivered_def is_new_message_def)
  next
    case seen
    have "appends w (on_queue f1 (on_queue f2 w)) ([] @ [])"
      if "appends w (on_queue f2 w) []" "appends (on_queue f2 w) (on_queue f1 (on_queue f2 w)) []" for f1 f2
      using that by (rule appends_trans)
    then show ?thesis using seen assms by (auto simp: poll_message_def delivered_def is_new_message_def Let_def)
  next
    case non_user
    obtain b w1 where q: "queue_non_user_message env th m p w = (b, w1)" by fastforce
    show ?thesis
      using non_user assms q non_user_appends [OF q]
      by (auto simp: poll_message_def delivered_def is_new_message_def Let_def page_count_def split: if_splits)
  next
    case user
    let ?sender = "normalize_teams_user_id (sender_id m)" and ?eff = "effective_remote_message_id m"
    obtain name w1 where r: "resolve_sender_name env now ?sender m w = (name, w1)" by fastforce
    obtain b w2 where q: "queue_user_message env clock th (m\<lparr>sender_name := name\<rparr>) ?sender self ?eff p w1 = (b, w2)"
      by fastforce
    have ev: "pw_events w1 = pw_events w" using events_resolve [of env now ?sender m w] r by simp
    have res: "g' = page_count b (page_advance m g)" "w' = w2"
      using user assms r q by (auto simp: poll_message_def is_new_message_def Let_def)
    show ?thesis
      using user_message_appends [OF q] user ev res
      by (auto simp: delivered_def page_count_def appends_def)
  qed
qed

lemma poll_messages_appends:
  assumes "poll_messages env now clock th p last_seq self ms (g, w) = (g', w')"
  shows "appends w w' (map (\<lambda>m. (event_id_of m, trim_space (client_message_id m))) (filter (delivered th last_seq) ms)) \<and>
    pg_ingested g' = pg_ingested g + length (filter (\<lambda>m. delivered th last_seq m \<or>
      is_new_message last_seq m \<and> is_non_user th m \<and> gives_notice env th m) ms)"
  using assms
proof (induction ms arbitrary: g w)
  case (Cons m ms)
  obtain g1 w1 where one: "poll_message env now clock th p last_seq self m (g, w) = (g1, w1)" by fastforce
  have rest: "poll_messages env now clock th p last_seq self ms (g1, w1) = (g', w')"
    using Cons.prems one by simp
  show ?case
    using poll_message_appends [OF one] Cons.IH [OF rest] by (auto dest: appends_trans)
qed simp

section \<open>Read positions of the poll\<close>

lemma advance_horizon_events:
  "message_key ev = None \<Longrightarrow>
   \<exists>new. snd (snd (advance_horizon he k v ev s)) = snd s @ new \<and> message_keys new = []"
  by (auto simp: advance_horizon_def message_keys_single split: sum.splits prod.splits option.splits)

lemma sync_participant_events:
  "\<exists>new. snd (snd (sync_participant_horizon he thread r h s)) = snd s @ new \<and> message_keys new = []"
  by (auto simp: sync_participant_horizon_def intro!: advance_horizon_events split: option.splits)

lemma sync_own_events:
  "\<exists>new. snd (snd (sync_own_horizon he thread self ho s)) = snd s @ new \<and> message_keys new = []"
  by (auto simp: sync_own_horizon_def intro!: advance_horizon_events split: option.splits)

lemma sync_participants_events:
  "\<exists>new. snd (snd (sync_participants he thread rs err s)) = snd s @ new \<and> message_keys new = []"
proof (induction rs arbitrary: err s)
  case (Cons x rs)
  obtain r h where x: "x = (r, h)" by fastforce
  obtain e s' where one: "sync_participant_horizon he thread r h s = (e, s')" by (metis surj_pair)
  obtain new where "snd s' = snd s @ new" "message_keys new = []"
    using sync_participant_events [of he thread r h s] one by auto
  moreover obtain new' where "snd (snd (sync_participants he thread rs (case e of Some x \<Rightarrow> Some x | None \<Rightarrow> err) s')) =
      snd s' @ new'" "message_keys new' = []"
    using Cons.IH by blast
  ultimately show ?case by (intro exI [of _ "new @ new'"]) (simp add: x one)
qed simp

lemma sync_horizons_events:
  "\<exists>new. snd (snd (sync_horizons he thread self hs s)) = snd s @ new \<and> message_keys new = []"
proof -
  obtain err s1 where one: "sync_participants he thread (remote_horizons hs self thread) None s = (err, s1)" by (metis surj_pair)
  obtain e s2 where two: "sync_own_horizon he thread self (own_horizon hs self) s1 = (e, s2)" by (metis surj_pair)
  obtain new where "snd s1 = snd s @ new" "message_keys new = []"
    using sync_participants_events [of he thread "remote_horizons hs self thread" None s] one by auto
  moreover obtain new' where "snd s2 = snd s1 @ new'" "message_keys new' = []"
    using sync_own_events [of he thread self "own_horizon hs self" s1] two by auto
  ultimately show ?thesis by (intro exI [of _ "new @ new'"]) (simp add: sync_horizons_def one two)
qed

lemma appends_receipts: "appends w (poll_receipts env now th w) []"
proof -
  have "\<exists>new. snd (snd (snd (poll_consumption_horizons he now th self a (c, s)))) = snd s @ new \<and> message_keys new = []"
    for he self a c s
    using sync_horizons_events [of he "trim_space (ts_thread_id th)" "normalize_teams_user_id self" _ s]
    by (auto simp: poll_consumption_horizons_def Let_def split: prod.splits sum.splits option.splits) (metis sndI)
  from this [of "pe_horizon_env env" "be_self (pe_bridge env)" "pe_horizons env" "pw_caches w" "(pw_horizons w, pw_events w)"]
  show ?thesis by (auto simp: poll_receipts_def appends_def split: prod.splits)
qed

section \<open>Where a page leaves the cursor\<close>

text \<open>Bookkeeping: the messages whose sequence ID moves the cursor.\<close>

definition page_ids :: "string \<Rightarrow> remote_message list \<Rightarrow> string list" where
  "page_ids last_seq ms = map (\<lambda>m. trim_space (sequence_id m)) (filter (is_new_message last_seq) ms)"

definition newest_id :: "string \<Rightarrow> string list \<Rightarrow> string" where
  "newest_id m xs = foldl (\<lambda>m x. if 0 < compare_sequence_id x m then x else m) m xs"

lemma poll_message_max_seq:
  "poll_message env now clock th p last_seq self m (g, w) = (g', w') \<Longrightarrow>
   pg_max_seq g' =
     (if is_new_message last_seq m \<and> (pg_max_seq g = [] \<or> 0 < compare_sequence_id (trim_space (sequence_id m)) (pg_max_seq g))
      then trim_space (sequence_id m) else pg_max_seq g)"
  by (auto simp: poll_message_def is_new_message_def page_advance_def page_count_def Let_def split: if_splits prod.splits)

lemma poll_messages_max_seq:
  assumes "poll_messages env now clock th p last_seq self ms (g, w) = (g', w')"
    and "\<forall>i \<in> set (page_ids last_seq ms). i \<noteq> []"
  shows "pg_max_seq g' = (case page_ids last_seq ms of [] \<Rightarrow> pg_max_seq g
     | i # is' \<Rightarrow> if pg_max_seq g = [] then newest_id i is' else newest_id (pg_max_seq g) (i # is'))"
  using assms
proof (induction ms arbitrary: g w)
  case Nil
  then show ?case by (simp add: page_ids_def)
next
  case (Cons m ms)
  obtain g1 w1 where one: "poll_message env now clock th p last_seq self m (g, w) = (g1, w1)" by fastforce
  have IH: "pg_max_seq g' = (case page_ids last_seq ms of [] \<Rightarrow> pg_max_seq g1
     | i # is' \<Rightarrow> if pg_max_seq g1 = [] then newest_id i is' else newest_id (pg_max_seq g1) (i # is'))"
    by (rule Cons.IH [of g1 w1]) (use Cons.prems one in \<open>auto simp: page_ids_def\<close>)
  note step = poll_message_max_seq [OF one]
  show ?case
    using IH step Cons.prems(2)
    by (cases "is_new_message last_seq m"; cases "pg_max_seq g = []")
       (auto simp: page_ids_def newest_id_def split: list.splits)
qed

lemma page_newest:
  assumes "poll_messages env now clock th p last_seq self ms (page_start, w) = (g, w')"
    and "\<forall>i \<in> set (page_ids last_seq ms). numeric_id i" and "page_ids last_seq ms \<noteq> []"
  shows "pg_max_seq g \<in> set (page_ids last_seq ms) \<and>
    (\<forall>i \<in> set (page_ids last_seq ms). compare_sequence_id i (pg_max_seq g) \<le> 0)"
proof -
  obtain i js where ids: "page_ids last_seq ms = i # js" using assms(3) by (cases "page_ids last_seq ms") auto
  have "pg_max_seq g = newest_id i js"
    using poll_messages_max_seq [OF assms(1)] assms(2) numeric_id_nonempty ids by (auto simp: page_start_def)
  then show ?thesis
    using seq.newest_upper [of i js] assms(2) ids by (simp add: newest_id_def Let_def)
qed

lemma advance_page_thread:
  "fst (advance_page_cursor env th p g w) =
   (if pg_max_seq g = [] then th else th\<lparr>ts_last_seq := pg_max_seq g, ts_last_ts := pg_max_ts g\<rparr>)"
  by (simp add: advance_page_cursor_def)

lemma events_advance_page: "pw_events (snd (advance_page_cursor env th p g w)) = pw_events w"
  by (simp add: advance_page_cursor_def)

lemma events_fetch_page: "fetch_thread_page env th w = (r, th', w') \<Longrightarrow> pw_events w' = pw_events w"
  by (auto simp: fetch_thread_page_def Let_def split: option.splits)

lemma poll_thread_steps:
  assumes "fetch_thread_page env th w = (Inr ms, th1, w1)"
    and "\<not> is_non_pollable_system_stream (ts_thread_id th)" "\<not> is_non_pollable_system_stream (ts_conversation th)"
  shows "\<exists>p self g w2 w3.
    poll_messages env now clock th1 p (trim_space (ts_last_seq th1)) self ms (page_start, w2) = (g, w3) \<and>
    pw_events w2 = pw_events w \<and>
    poll_thread env now clock th w = (Inr (pg_ingested g), fst (advance_page_cursor env th1 p g w3),
      poll_receipts env now (fst (advance_page_cursor env th1 p g w3)) (snd (advance_page_cursor env th1 p g w3)))"
proof -
  define w2 where "w2 = w1\<lparr>pw_cursors := world_open (ts_thread_id th1) (pw_cursors w1)\<rparr>"
  let ?p = "length (cw_commits (pw_cursors w1))" and ?self = "normalize_teams_user_id (be_self (pe_bridge env))"
  obtain g w3 where m: "poll_messages env now clock th1 ?p (trim_space (ts_last_seq th1)) ?self ms (page_start, w2) = (g, w3)"
    by fastforce
  have "pw_events w2 = pw_events w" using events_fetch_page [OF assms(1)] by (simp add: w2_def)
  moreover have "poll_thread env now clock th w = (Inr (pg_ingested g), fst (advance_page_cursor env th1 ?p g w3),
      poll_receipts env now (fst (advance_page_cursor env th1 ?p g w3)) (snd (advance_page_cursor env th1 ?p g w3)))"
    using assms m by (simp add: poll_thread_def w2_def [symmetric] Let_def split_beta)
  ultimately show ?thesis using m by blast
qed

text \<open>A poll moves past everything up to any new message of its page.\<close>

lemma poll_moves_past:
  assumes "fetch_thread_page env th w = (Inr ms, th1, w1)"
    and "\<not> is_non_pollable_system_stream (ts_thread_id th)" "\<not> is_non_pollable_system_stream (ts_conversation th)"
    and "\<forall>m \<in> set ms. numeric_id (trim_space (sequence_id m))"
    and "m \<in> set ms" and "is_new_message (trim_space (ts_last_seq th1)) m"
    and "numeric_id (trim_space (sequence_id x))"
    and "compare_sequence_id (trim_space (sequence_id x)) (trim_space (sequence_id m)) \<le> 0"
  shows "\<exists>n th' w'. poll_thread env now clock th w = (Inr n, th', w') \<and> already_seen (trim_space (ts_last_seq th')) x"
proof -
  let ?l = "trim_space (ts_last_seq th1)"
  obtain p self g w2 w3 where
    run: "poll_messages env now clock th1 p ?l self ms (page_start, w2) = (g, w3)"
    and t: "poll_thread env now clock th w = (Inr (pg_ingested g), fst (advance_page_cursor env th1 p g w3),
      poll_receipts env now (fst (advance_page_cursor env th1 p g w3)) (snd (advance_page_cursor env th1 p g w3)))"
    using poll_thread_steps [OF assms(1-3)] by blast
  have num: "\<forall>i \<in> set (page_ids ?l ms). numeric_id i" using assms(4) by (auto simp: page_ids_def)
  have mem: "trim_space (sequence_id m) \<in> set (page_ids ?l ms)" using assms(5,6) by (auto simp: page_ids_def)
  then have ids: "page_ids ?l ms \<noteq> []" by auto
  note best = page_newest [OF run num ids]
  then have nm: "numeric_id (pg_max_seq g)" using num by blast
  have tr: "trim_space (pg_max_seq g) = pg_max_seq g" using best by (auto simp: page_ids_def)
  have "compare_sequence_id (trim_space (sequence_id x)) (pg_max_seq g) \<le> 0"
    using seq.cmp_trans [OF assms(7) _ nm assms(8)] best mem num by blast
  then have "already_seen (trim_space (ts_last_seq (fst (advance_page_cursor env th1 p g w3)))) x"
    using nm numeric_id_nonempty tr by (auto simp: already_seen_def advance_page_thread)
  then show ?thesis unfolding t by blast
qed

text \<open>A poll whose answer is one new message and one that was seen, for the examples.\<close>

definition example_page :: "remote_message list" where
  "example_page =
     [blank_message\<lparr>message_id := ''6'', client_message_id := ''42'', sequence_id := ''6'', sender_id := ''8:u'',
        message_type := ''Text''\<rparr>,
      blank_message\<lparr>message_id := ''5'', sequence_id := ''5'', sender_id := ''8:u'', message_type := ''Text''\<rparr>]"

definition example_poll_env :: poll_env where
  "example_poll_env = \<lparr>pe_bridge = example_env, pe_sink = (\<lambda>_. True), pe_xml = (\<lambda>_. None), pe_json = (\<lambda>_. None),
     pe_ghost = (\<lambda>_. Inr None), pe_profile_put_err = None, pe_profile_get_err = None, pe_save_err = None,
     pe_token_err = None, pe_list = (\<lambda>_ _. Inr example_page), pe_horizons = Inr None,
     pe_horizon_env = example_horizon_env, pe_superseded = False\<rparr>"

definition example_poll_world :: poll_world where
  "example_poll_world = \<lparr>pw_caches = no_caches, pw_events = [], pw_cursors = cursor_start [], pw_profiles = None,
     pw_horizons = None, pw_known_users = {}, pw_renames = [], pw_pin_refreshes = [], pw_conn = fresh_conn\<rparr>"

lemma example_fetch:
  "\<exists>w1. fetch_thread_page example_poll_env example_thread example_poll_world = (Inr example_page, example_thread, w1)"
  by (simp add: fetch_thread_page_def example_poll_env_def example_poll_world_def cursor_start_def no_cursors_def
      cursor_pending_def Let_def)

lemma example_thread_streams:
  "\<not> is_non_pollable_system_stream (ts_thread_id example_thread)"
  "\<not> is_non_pollable_system_stream (ts_conversation example_thread)"
  by (simp_all add: example_thread_def is_non_pollable_system_stream_def) (code_simp)+

lemma example_page_ids:
  "numeric_id (trim_space ''6'')" "numeric_id (trim_space ''5'')"
  by (simp_all add: trim_space_plain plain_ends_def numeric_id_def parse_uint64_def Let_def)

section \<open>Properties\<close>

text \<open>C5: A poll hands every new message of a user to the portal once, in the order of the page,
  under its ID and client ID, and no message that is typing, a notice, a deletion, an edit or at
  or below the cursor; the count it reports is of these messages and of the notices.\<close>

theorem page_delivers_new_messages:
  assumes "fetch_thread_page env th w = (Inr ms, th1, w1)"
    and "\<not> is_non_pollable_system_stream (ts_thread_id th)" "\<not> is_non_pollable_system_stream (ts_conversation th)"
  shows "\<exists>n th' w'. poll_thread env now clock th w = (Inr n, th', w') \<and>
    message_keys (pw_events w') = message_keys (pw_events w) @
      map (\<lambda>m. (event_id_of m, trim_space (client_message_id m))) (filter (delivered th1 (trim_space (ts_last_seq th1))) ms) \<and>
    n = length (filter (\<lambda>m. delivered th1 (trim_space (ts_last_seq th1)) m \<or>
      is_new_message (trim_space (ts_last_seq th1)) m \<and> is_non_user th1 m \<and> gives_notice env th1 m) ms)"
proof -
  obtain p self g w2 w3 where
    m: "poll_messages env now clock th1 p (trim_space (ts_last_seq th1)) self ms (page_start, w2) = (g, w3)"
    and ev: "pw_events w2 = pw_events w"
    and t: "poll_thread env now clock th w = (Inr (pg_ingested g), fst (advance_page_cursor env th1 p g w3),
      poll_receipts env now (fst (advance_page_cursor env th1 p g w3)) (snd (advance_page_cursor env th1 p g w3)))"
    using poll_thread_steps [OF assms] by blast
  note run = poll_messages_appends [OF m]
  have "appends w3 (poll_receipts env now (fst (advance_page_cursor env th1 p g w3)) (snd (advance_page_cursor env th1 p g w3))) []"
    using appends_receipts [of "snd (advance_page_cursor env th1 p g w3)" env now "fst (advance_page_cursor env th1 p g w3)"]
    by (simp add: appends_def events_advance_page)
  then show ?thesis
    unfolding t using run ev by (auto simp: appends_def page_start_def)
qed

theorem page_delivers_new_messages_witness:
  "\<exists>n th' w'. poll_thread example_poll_env 1 1 example_thread example_poll_world = (Inr n, th', w') \<and>
     message_keys (pw_events w') = [(''6'', ''42'')]"
proof -
  obtain w1 where f: "fetch_thread_page example_poll_env example_thread example_poll_world = (Inr example_page, example_thread, w1)"
    using example_fetch by blast
  have "filter (delivered example_thread ''5'') example_page = [hd example_page]"
  proof -
    have trims: "trim_space ''6'' = ''6''" "trim_space ''5'' = ''5''" "trim_space ''8:u'' = ''8:u''" "trim_space ''Text'' = ''Text''"
      "trim_space ''19:a@thread.v2'' = ''19:a@thread.v2''"
      by (simp_all add: trim_space_plain plain_ends_def)
    have "to_lower ''Text'' = ''text''" by code_simp
    then have system: "\<not> is_system_message_type ''Text''" by (simp add: is_system_message_type_def trims)
    have folds: "\<not> equal_fold ''Text'' ''Control/Typing''" "\<not> equal_fold ''Text'' ''Control/ClearTyping''"
      "\<not> equal_fold ''Text'' ''Control/LiveState''" "\<not> equal_fold ''8:u'' ''19:a@thread.v2''"
      by (simp_all add: fold_eval)
    have types: "\<not> is_likely_thread_id ''8:u''" "\<not> sublist ''MessageDelete'' ''Text''"
      by code_simp+
    have order: "compare_sequence_id ''6'' ''5'' = 1" "compare_sequence_id ''5'' ''5'' = 0"
      by (simp_all add: compare_sequence_id_def parse_uint64_def)
    have sender: "normalize_teams_user_id ''8:u'' = ''8:u''"
      by (simp add: normalize_teams_user_id_def trims Let_def)
    have "delivered example_thread ''5'' (hd example_page)"
      unfolding delivered_def is_new_message_def is_typing_control_def already_seen_def is_non_user_def
      by (simp add: example_page_def blank_message_def example_thread_def folds types system trims order sender)
    moreover have "\<not> delivered example_thread ''5'' (hd (tl example_page))"
      by (simp add: delivered_def is_new_message_def already_seen_def example_page_def trims order)
    moreover have "example_page = [hd example_page, hd (tl example_page)]" by (simp add: example_page_def)
    ultimately show ?thesis by (metis filter.simps)
  qed
  moreover have "trim_space (ts_last_seq example_thread) = ''5''" "event_id_of (hd example_page) = ''6''"
    "trim_space (client_message_id (hd example_page)) = ''42''"
    by (simp_all add: example_thread_def example_page_def event_id_of_def effective_remote_message_id_def
        normalize_reaction_message_id_def trim_space_plain plain_ends_def)
  moreover have "message_keys (pw_events example_poll_world) = []" by (simp add: example_poll_world_def)
  ultimately show ?thesis
    using page_delivers_new_messages [OF f example_thread_streams, of 1 1] by auto
qed

text \<open>C6: A poll leaves nothing of its page behind: when the sequence IDs are numbers, every message
  of the page is at or below the position the poll leaves the thread at, so the next page from
  there delivers none of them again.\<close>

theorem page_leaves_nothing_new:
  assumes "fetch_thread_page env th w = (Inr ms, th1, w1)"
    and "\<not> is_non_pollable_system_stream (ts_thread_id th)" "\<not> is_non_pollable_system_stream (ts_conversation th)"
    and "\<forall>m \<in> set ms. numeric_id (trim_space (sequence_id m))"
    and "trim_space (ts_last_seq th1) = [] \<or> numeric_id (trim_space (ts_last_seq th1))"
  shows "\<exists>n th' w'. poll_thread env now clock th w = (Inr n, th', w') \<and>
    filter (is_new_message (trim_space (ts_last_seq th'))) ms = []"
proof -
  let ?l = "trim_space (ts_last_seq th1)"
  obtain p self g w2 w3 where
    m: "poll_messages env now clock th1 p ?l self ms (page_start, w2) = (g, w3)"
    and t: "poll_thread env now clock th w = (Inr (pg_ingested g), fst (advance_page_cursor env th1 p g w3),
      poll_receipts env now (fst (advance_page_cursor env th1 p g w3)) (snd (advance_page_cursor env th1 p g w3)))"
    using poll_thread_steps [OF assms(1-3)] by blast
  let ?th = "fst (advance_page_cursor env th1 p g w3)"
  have num: "\<forall>i \<in> set (page_ids ?l ms). numeric_id i" using assms(4) by (auto simp: page_ids_def)
  have "\<not> is_new_message (trim_space (ts_last_seq ?th)) x" if x: "x \<in> set ms" for x
  proof (cases "page_ids ?l ms = []")
    case True
    then have "pg_max_seq g = []"
      using poll_messages_max_seq [OF m] by (simp add: page_start_def)
    moreover have "\<not> is_new_message ?l x" using True x by (auto simp: page_ids_def filter_empty_conv)
    ultimately show ?thesis by (simp add: advance_page_thread)
  next
    case False
    let ?s = "trim_space (sequence_id x)"
    note best = page_newest [OF m num False]
    then have ne: "pg_max_seq g \<noteq> []" and nm: "numeric_id (pg_max_seq g)"
      using num numeric_id_nonempty by blast+
    have tr: "trim_space (pg_max_seq g) = pg_max_seq g" using best by (auto simp: page_ids_def)
    have "compare_sequence_id ?s (pg_max_seq g) \<le> 0" if q: "is_typing_control x = False" "trim_space (message_id x) \<noteq> []"
    proof (cases "is_new_message ?l x")
      case True
      then show ?thesis using best x by (auto simp: page_ids_def)
    next
      case old: False
      then have l: "?l \<noteq> []" "compare_sequence_id ?s ?l \<le> 0" using q by (auto simp: is_new_message_def already_seen_def)
      obtain y where y: "y \<in> set ms" "is_new_message ?l y" using False by (auto simp: page_ids_def filter_empty_conv)
      have "compare_sequence_id ?l (trim_space (sequence_id y)) \<le> 0"
        using y(2) l(1) compare_sequence_id_swap [of ?l "trim_space (sequence_id y)"]
        by (auto simp: is_new_message_def already_seen_def)
      moreover have "compare_sequence_id (trim_space (sequence_id y)) (pg_max_seq g) \<le> 0"
        using best y by (auto simp: page_ids_def)
      ultimately show ?thesis
        using seq.cmp_trans assms(4,5) l nm x y(1) by meson
    qed
    then show ?thesis using ne tr by (auto simp: advance_page_thread is_new_message_def already_seen_def)
  qed
  then show ?thesis unfolding t by (auto simp: filter_empty_conv)
qed

theorem page_leaves_nothing_new_witness:
  "\<exists>n th' w'. poll_thread example_poll_env 1 1 example_thread example_poll_world = (Inr n, th', w') \<and>
     filter (is_new_message (trim_space (ts_last_seq th'))) example_page = []"
proof -
  obtain w1 where f: "fetch_thread_page example_poll_env example_thread example_poll_world = (Inr example_page, example_thread, w1)"
    using example_fetch by blast
  show ?thesis
    by (rule page_leaves_nothing_new [OF f example_thread_streams])
       (use example_page_ids in \<open>simp_all add: example_page_def example_thread_def blank_message_def\<close>)
qed

end
