(* ===== verification/Poll_Loop.thy ===== *)
theory Poll_Loop
  imports Poll_Thread
begin

text \<open>
  The poll loop (message_poller.go: \<open>pollDueThreads\<close>, \<open>pollPass\<close>, \<open>runActivityCheck\<close>;
  poll_wake.go: \<open>checkActivity\<close>, \<open>applyWakeup\<close>; cache_sweep.go:
  \<open>forgetRemovedThreads\<close>): which thread is polled when, the pauses Teams asks for, and
  the wakeups that make a thread due at once.

  The thread list is read from the database in each pass; discovery and the hourly sync of
  teams write to it and are parameters here, functions on the state.
\<close>

section \<open>State\<close>

record poll_state =
  pt_backoff :: poll_backoff
  pt_next :: gotime
  pt_conversation :: string
  pt_gone :: bool
  pt_noticed_at :: gotime
  pt_noticed_by :: string

record poll_schedule =
  sd_next_discovery :: gotime
  sd_last_discovery :: gotime
  sd_next_team_sync :: gotime
  sd_next_activity :: gotime
  sd_activity_failures :: nat
  sd_next_sweep :: gotime
  sd_next_stats :: gotime
  sd_throttled_until :: gotime
  sd_last_seen :: "(string \<times> string) list"

record poll_wakeup =
  wk_thread :: string
  wk_receipts :: bool
  wk_at :: gotime
  wk_source :: string

text \<open>The map of poll states, the schedule, the flags of the two watches, and the rest of the client.\<close>

record loop_world =
  lw_states :: "(string \<times> poll_state) list"
  lw_sched :: poll_schedule
  lw_activity_up :: bool
  lw_long_poll_up :: bool
  lw_poll :: poll_world

text \<open>
  What a pass meets: the conversations \<open>ListRecentConversations\<close> answers (ID and newest
  message ID), the error of refreshing the Skype token, the thread list, and what discovery,
  the team sync and the poll of a thread find.
\<close>

record pass_env =
  pv_refresh :: "poll_world \<Rightarrow> go_error option \<times> poll_world"
  pv_team_sync :: "poll_world \<Rightarrow> poll_world"
  pv_token_err :: "go_error option"
  pv_recent :: "go_error + (string \<times> string) list"
  pv_threads :: "go_error + thread_state list"
  pv_poll :: "string \<Rightarrow> poll_env"
  pv_superseded :: bool
  pv_clock :: gotime

definition poll_loop_max_sleep :: duration where "poll_loop_max_sleep = 5 * second"
definition poll_loop_min_sleep :: duration where "poll_loop_min_sleep = 100 * millisecond"
definition team_sync_interval :: duration where "team_sync_interval = hour"
definition request_stats_interval :: duration where "request_stats_interval = hour"

definition fresh_backoff :: poll_backoff where
  "fresh_backoff = \<lparr>pb_failures = 0, pb_delay = poll_base_delay, pb_idle_cap = 0\<rparr>"

definition fresh_poll_state :: "gotime \<Rightarrow> poll_state" where
  "fresh_poll_state now = \<lparr>pt_backoff = fresh_backoff, pt_next = now, pt_conversation = [], pt_gone = False,
     pt_noticed_at = zero_time, pt_noticed_by = []\<rparr>"

section \<open>Pauses\<close>

definition sched_throttle :: "go_error option \<Rightarrow> gotime \<Rightarrow> poll_schedule \<Rightarrow> bool \<times> poll_schedule" where
  "sched_throttle err now s =
     (case teams_throttle err of
        None \<Rightarrow> (False, s)
      | Some d \<Rightarrow> (True, if sd_throttled_until s < now + d then s\<lparr>sd_throttled_until := now + d\<rparr> else s))"

section \<open>Wakeups\<close>

definition wakes :: "poll_wakeup \<Rightarrow> string \<times> poll_state \<Rightarrow> bool" where
  "wakes wk x \<longleftrightarrow> fst x = wk_thread wk \<or> pt_conversation (snd x) = wk_thread wk"

definition wake_state :: "poll_wakeup \<Rightarrow> poll_state \<Rightarrow> poll_state" where
  "wake_state wk p =
     (let p1 = p\<lparr>pt_next := zero_time, pt_backoff := on_success (pt_backoff p)\<rparr> in
      if \<not> is_zero_time (wk_at wk) \<and> (is_zero_time (pt_noticed_at p) \<or> wk_at wk < pt_noticed_at p)
      then p1\<lparr>pt_noticed_at := wk_at wk, pt_noticed_by := wk_source wk\<rparr> else p1)"

definition forget_receipt_polls :: "string list \<Rightarrow> client_caches \<Rightarrow> client_caches" where
  "forget_receipt_polls ths c = fold forget_receipt_poll ths c"

definition on_caches :: "(client_caches \<Rightarrow> client_caches) \<Rightarrow> loop_world \<Rightarrow> loop_world" where
  "on_caches f lw = lw\<lparr>lw_poll := (lw_poll lw)\<lparr>pw_caches := f (pw_caches (lw_poll lw))\<rparr>\<rparr>"

definition apply_wakeup :: "poll_wakeup \<Rightarrow> loop_world \<Rightarrow> bool \<times> loop_world" where
  "apply_wakeup wk lw =
     (let hit = filter (wakes wk) (lw_states lw);
          lw1 = lw\<lparr>lw_states := map (\<lambda>x. if wakes wk x then (fst x, wake_state wk (snd x)) else x) (lw_states lw)\<rparr> in
      (hit \<noteq> [], if wk_receipts wk then on_caches (forget_receipt_polls (map fst hit)) lw1 else lw1))"

text \<open>The channel of wakeups holds 256; a full one drops the request.\<close>

definition wake_queue_size :: nat where "wake_queue_size = 256"

definition request_poll ::
  "gotime \<Rightarrow> string \<Rightarrow> bool \<Rightarrow> string \<Rightarrow> poll_wakeup list \<Rightarrow> poll_wakeup list" where
  "request_poll now thread receipts source q =
     (if thread = [] then q
      else if length q < wake_queue_size
      then q @ [\<lparr>wk_thread = thread, wk_receipts = receipts, wk_at = now, wk_source = source\<rparr>]
      else q)"

section \<open>The recent-conversations check\<close>

text \<open>One conversation; the flags are \<open>watched\<close> and \<open>unknown\<close>.\<close>

definition check_conversation ::
  "gotime \<Rightarrow> bool \<Rightarrow> string \<times> string \<Rightarrow> bool \<times> bool \<times> loop_world \<Rightarrow> bool \<times> bool \<times> loop_world" where
  "check_conversation clock primed conv s =
     (case conv of (cid, newest) \<Rightarrow> case s of (watched, unknown, lw) \<Rightarrow>
        if cid = [] \<or> newest = [] then s
        else (let prev = map_of (sd_last_seen (lw_sched lw)) cid;
                  (unknown1, lw1) =
                    (if (case prev of Some p \<Rightarrow> p | None \<Rightarrow> []) \<noteq> newest \<and> (prev \<noteq> None \<or> primed)
                     then (case apply_wakeup \<lparr>wk_thread = cid, wk_receipts = False, wk_at = clock, wk_source = ''watch''\<rparr> lw of
                             (matched, lw') \<Rightarrow> (unknown \<or> \<not> matched \<and> \<not> is_non_pollable_system_stream cid, lw'))
                     else (unknown, lw))
              in (True, unknown1,
                  lw1\<lparr>lw_sched := (lw_sched lw1)\<lparr>sd_last_seen := AList.update cid newest (sd_last_seen (lw_sched lw1))\<rparr>\<rparr>)))"

definition check_activity ::
  "pass_env \<Rightarrow> loop_world \<Rightarrow> (go_error + bool) \<times> loop_world" where
  "check_activity env lw0 =
     (let lw = lw0\<lparr>lw_poll := (lw_poll lw0)\<lparr>pw_conn := note_teams_result (the_err (pv_recent env)) (pw_conn (lw_poll lw0))\<rparr>\<rparr> in
      case pv_recent env of
        Inl e \<Rightarrow> (Inl e, lw\<lparr>lw_activity_up := False\<rparr>)
      | Inr convs \<Rightarrow>
          (case fold (check_conversation (pv_clock env) (sd_last_seen (lw_sched lw) \<noteq> [])) convs (False, False, lw) of
             (watched, unknown, lw1) \<Rightarrow> (Inr unknown, lw1\<lparr>lw_activity_up := watched\<rparr>)))"

definition on_sched :: "(poll_schedule \<Rightarrow> poll_schedule) \<Rightarrow> loop_world \<Rightarrow> loop_world" where
  "on_sched f lw = lw\<lparr>lw_sched := f (lw_sched lw)\<rparr>"

definition run_activity_check :: "pass_env \<Rightarrow> gotime \<Rightarrow> loop_world \<Rightarrow> loop_world" where
  "run_activity_check env now lw =
     (let (err, lw1) =
        (case pv_token_err env of
           Some e \<Rightarrow> (Some e, lw\<lparr>lw_poll := (lw_poll lw)\<lparr>pw_conn := report_token_error (pv_superseded env) e (pw_conn (lw_poll lw))\<rparr>\<rparr>)
         | None \<Rightarrow>
             (case check_activity env lw of
                (Inl e, lw') \<Rightarrow> (Some e, lw')
              | (Inr unknown, lw') \<Rightarrow>
                  (None, if unknown \<and> discovery_min_gap \<le> time_sub now (sd_last_discovery (lw_sched lw'))
                         then on_sched (\<lambda>s. s\<lparr>sd_next_discovery := now\<rparr>) lw' else lw')));
          lw2 = (if err \<noteq> None
                 then on_sched (\<lambda>s. let s1 = snd (sched_throttle err now s) in
                        s1\<lparr>sd_activity_failures := Suc (sd_activity_failures s1)\<rparr>) lw1
                 else on_sched (\<lambda>s. s\<lparr>sd_activity_failures := 0\<rparr>) lw1)
      in on_sched (\<lambda>s. s\<lparr>sd_next_activity := now + activity_retry_delay (sd_activity_failures s)\<rparr>) lw2)"

section \<open>The threads of a pass\<close>

definition forget_removed_threads :: "string list \<Rightarrow> loop_world \<Rightarrow> loop_world" where
  "forget_removed_threads listed lw =
     (let gone = filter (\<lambda>th. th \<notin> set listed) (map fst (lw_states lw)) in
      lw\<lparr>lw_states := filter (\<lambda>x. fst x \<in> set listed) (lw_states lw),
         lw_poll := (lw_poll lw)\<lparr>pw_cursors := fold world_forget gone (pw_cursors (lw_poll lw))\<rparr>\<rparr>)"

definition put_state :: "string \<Rightarrow> poll_state \<Rightarrow> loop_world \<Rightarrow> loop_world" where
  "put_state th p lw = lw\<lparr>lw_states := AList.update th p (lw_states lw)\<rparr>"

text \<open>After a poll that was no 429: the thread's next poll.\<close>

definition after_poll :: "gotime \<Rightarrow> duration \<Rightarrow> go_error + nat \<Rightarrow> poll_state \<Rightarrow> poll_state" where
  "after_poll now idle_cap r p =
     (if is_thread_gone (the_err r) then p\<lparr>pt_gone := True, pt_next := now + gone_thread_recheck\<rparr>
      else (let b = (pt_backoff p)\<lparr>pb_idle_cap := idle_cap\<rparr>;
                n = (case r of Inr n \<Rightarrow> int n | Inl _ \<Rightarrow> 0) in
            case apply_poll_backoff (Some b) n (the_err r) of
              (bo, delay, reason) \<Rightarrow>
                (let b1 = (case bo of Some x \<Rightarrow> x | None \<Rightarrow> b) in
                 if reason = BackoffIdle \<and> idle_cap = poll_backstop_idle_cap
                 then p\<lparr>pt_gone := False, pt_backoff := b1\<lparr>pb_delay := poll_backstop_idle_cap\<rparr>,
                        pt_next := now + poll_backstop_idle_cap\<rparr>
                 else p\<lparr>pt_gone := False, pt_backoff := b1, pt_next := now + delay\<rparr>)))"

text \<open>The loop over the threads: the time of the next wake, and whether Teams asked for a pause.\<close>

fun poll_listed ::
  "pass_env \<Rightarrow> gotime \<Rightarrow> thread_state list \<Rightarrow> gotime \<Rightarrow> loop_world \<Rightarrow> bool \<times> gotime \<times> loop_world" where
  "poll_listed env now [] wake lw = (False, wake, lw)"
| "poll_listed env now (th # ths) wake lw =
     (if ts_thread_id th = [] then poll_listed env now ths wake lw
      else (let p = (case map_of (lw_states lw) (ts_thread_id th) of Some p \<Rightarrow> p | None \<Rightarrow> fresh_poll_state now)
                      \<lparr>pt_conversation := ts_conversation th\<rparr> in
            if now < pt_next p
            then poll_listed env now ths (min (pt_next p) wake) (put_state (ts_thread_id th) p lw)
            else (let p1 = p\<lparr>pt_noticed_at := zero_time, pt_noticed_by := []\<rparr> in
                  case poll_thread (pv_poll env (ts_thread_id th)) now (pv_clock env) th (lw_poll lw) of
                    (r, _, w1) \<Rightarrow>
                      (let lw1 = put_state (ts_thread_id th) p1 (lw\<lparr>lw_poll := w1\<rparr>) in
                       case sched_throttle (the_err r) now (lw_sched lw1) of
                         (True, s1) \<Rightarrow> (True, sd_throttled_until s1, lw1\<lparr>lw_sched := s1\<rparr>)
                       | (False, _) \<Rightarrow>
                           (let cap = idle_cap_for (lw_long_poll_up lw1 \<or> lw_activity_up lw1) now (ts_thread_id th) (pw_caches (lw_poll lw1));
                                p2 = after_poll now cap r p1 in
                            poll_listed env now ths
                              (if is_thread_gone (the_err r) then wake else min (pt_next p2) wake)
                              (put_state (ts_thread_id th) p2 lw1))))))"

section \<open>A pass\<close>

definition due_discovery :: "pass_env \<Rightarrow> gotime \<Rightarrow> loop_world \<Rightarrow> loop_world" where
  "due_discovery env now lw =
     (if is_zero_time (sd_next_discovery (lw_sched lw)) \<or> sd_next_discovery (lw_sched lw) \<le> now
      then (case pv_refresh env (lw_poll lw) of (err, w1) \<Rightarrow>
              (let s1 = (if err = None then lw_sched lw else snd (sched_throttle err now (lw_sched lw))) in
               lw\<lparr>lw_poll := w1, lw_sched := s1\<lparr>sd_last_discovery := now,
                  sd_next_discovery := now + discovery_interval (lw_activity_up lw) (lw_long_poll_up lw)\<rparr>\<rparr>))
      else lw)"

definition due_team_sync :: "pass_env \<Rightarrow> gotime \<Rightarrow> loop_world \<Rightarrow> loop_world" where
  "due_team_sync env now lw =
     (if sd_next_team_sync (lw_sched lw) \<le> now
      then on_sched (\<lambda>s. s\<lparr>sd_next_team_sync := now + team_sync_interval\<rparr>) (lw\<lparr>lw_poll := pv_team_sync env (lw_poll lw)\<rparr>)
      else lw)"

definition due_activity :: "pass_env \<Rightarrow> gotime \<Rightarrow> loop_world \<Rightarrow> loop_world" where
  "due_activity env now lw =
     (if sd_next_activity (lw_sched lw) \<le> now then run_activity_check env now lw else lw)"

definition due_sweep :: "gotime \<Rightarrow> loop_world \<Rightarrow> loop_world" where
  "due_sweep now lw =
     (if sd_next_sweep (lw_sched lw) \<le> now
      then on_sched (\<lambda>s. s\<lparr>sd_next_sweep := now + cache_sweep_interval\<rparr>) (on_caches (\<lambda>c. fst (sweep_caches now c)) lw)
      else lw)"

definition due_stats :: "gotime \<Rightarrow> loop_world \<Rightarrow> loop_world" where
  "due_stats now lw =
     (if is_zero_time (sd_next_stats (lw_sched lw)) \<or> sd_next_stats (lw_sched lw) \<le> now
      then on_sched (\<lambda>s. s\<lparr>sd_next_stats := now + request_stats_interval\<rparr>) lw else lw)"

definition next_wake_of :: "gotime \<Rightarrow> poll_schedule \<Rightarrow> gotime" where
  "next_wake_of now s = fold min [sd_next_activity s, sd_next_discovery s] (now + poll_loop_max_sleep)"

definition poll_pass :: "pass_env \<Rightarrow> gotime \<Rightarrow> loop_world \<Rightarrow> go_error option \<times> gotime \<times> loop_world" where
  "poll_pass env now lw =
     (let lw1 = due_activity env now (due_team_sync env now (due_discovery env now lw)) in
      if now < sd_throttled_until (lw_sched lw1) then (None, sd_throttled_until (lw_sched lw1), lw1)
      else (let wake = next_wake_of now (lw_sched lw1);
                lw2 = due_stats now (due_sweep now lw1) in
            case pv_threads env of
              Inl e \<Rightarrow> (Some e, wake, lw2)
            | Inr ths \<Rightarrow>
                (let listed = filter (\<lambda>i. i \<noteq> []) (map ts_thread_id ths) in
                 case poll_listed env now ths wake (forget_removed_threads listed lw2) of
                   (_, wake', lw3) \<Rightarrow> (None, wake', lw3))))"

section \<open>The loop\<close>

datatype loop_end = Loop_Goes_On duration | Loop_Ended go_error

text \<open>
  One turn: a pass unless Teams asked for a pause, then the sleep and the wakeups that cut it
  short, all that are queued.  \<open>wakeups\<close> is empty for a sleep that ran out.
\<close>

definition loop_turn ::
  "pass_env \<Rightarrow> go_error option \<Rightarrow> gotime \<Rightarrow> poll_wakeup list \<Rightarrow> loop_world \<Rightarrow> loop_end \<times> loop_world" where
  "loop_turn env ctx_err now wakeups lw =
     (case ctx_err of
        Some e \<Rightarrow> (Loop_Ended e, lw)
      | None \<Rightarrow>
          if pv_superseded env then (Loop_Ended Superseded, lw)
          else (case (if sd_throttled_until (lw_sched lw) \<le> now then poll_pass env now lw
                      else (None, sd_throttled_until (lw_sched lw), lw)) of
                  (Some e, _, lw1) \<Rightarrow> (Loop_Ended e, lw1)
                | (None, wake, lw1) \<Rightarrow>
                    (Loop_Goes_On (max poll_loop_min_sleep (time_sub wake (pv_clock env))),
                     fold (\<lambda>wk l. snd (apply_wakeup wk l)) wakeups lw1)))"

definition sched_zero :: poll_schedule where
  "sched_zero = \<lparr>sd_next_discovery = zero_time, sd_last_discovery = zero_time, sd_next_team_sync = zero_time,
     sd_next_activity = zero_time, sd_activity_failures = 0, sd_next_sweep = zero_time, sd_next_stats = zero_time,
     sd_throttled_until = zero_time, sd_last_seen = []\<rparr>"

definition initial_schedule :: "pass_env \<Rightarrow> bool \<Rightarrow> loop_world \<Rightarrow> poll_schedule" where
  "initial_schedule env discovered lw =
     (if discovered
      then sched_zero\<lparr>sd_next_discovery := pv_clock env + discovery_interval (lw_activity_up lw) (lw_long_poll_up lw),
             sd_next_team_sync := pv_clock env + team_sync_interval\<rparr>
      else sched_zero)"

definition initial_states :: "gotime \<Rightarrow> thread_state list \<Rightarrow> (string \<times> poll_state) list" where
  "initial_states now ths =
     fold (\<lambda>th m. if ts_thread_id th = [] then m else AList.update (ts_thread_id th) (fresh_poll_state now) m) ths []"

definition loop_init :: "pass_env \<Rightarrow> bool \<Rightarrow> loop_world \<Rightarrow> go_error + loop_world" where
  "loop_init env discovered lw =
     (case pv_threads env of
        Inl e \<Rightarrow> Inl e
      | Inr ths \<Rightarrow>
          Inr (lw\<lparr>lw_states := initial_states (pv_clock env) ths, lw_sched := initial_schedule env discovered lw\<rparr>))"

section \<open>How far ahead the loop plans\<close>

lemma on_sched_simps [simp]:
  "lw_states (on_sched f lw) = lw_states lw" "lw_sched (on_sched f lw) = f (lw_sched lw)"
  "lw_poll (on_sched f lw) = lw_poll lw" "lw_activity_up (on_sched f lw) = lw_activity_up lw"
  "lw_long_poll_up (on_sched f lw) = lw_long_poll_up lw"
  by (simp_all add: on_sched_def)

lemma on_caches_simps [simp]:
  "lw_states (on_caches f lw) = lw_states lw" "lw_sched (on_caches f lw) = lw_sched lw"
  by (simp_all add: on_caches_def)

lemma put_state_simps [simp]:
  "map_of (lw_states (put_state th p lw)) = (map_of (lw_states lw))(th \<mapsto> p)"
  "lw_sched (put_state th p lw) = lw_sched lw" "lw_poll (put_state th p lw) = lw_poll lw"
  by (simp_all add: put_state_def update_conv')

lemma map_of_filter_key: "map_of (filter (\<lambda>x. P (fst x)) xs) i = (if P i then map_of xs i else None)"
  by (induction xs) auto

lemma map_of_map_value:
  "map_of (map (\<lambda>x. if Q x then (fst x, g (snd x)) else x) xs) i =
   map_option (\<lambda>p. if Q (i, p) then g p else p) (map_of xs i)"
  by (induction xs) auto

lemma sched_throttle_none [simp]: "teams_throttle err = None \<Longrightarrow> sched_throttle err now s = (False, s)"
  by (simp add: sched_throttle_def)

lemma sched_throttle_some:
  "teams_throttle err = Some d \<Longrightarrow>
   sched_throttle err now s = (True, s\<lparr>sd_throttled_until := max (sd_throttled_until s) (now + d)\<rparr>)"
  by (simp add: sched_throttle_def max_def)

lemma fst_sched_throttle: "fst (sched_throttle err now s) \<longleftrightarrow> teams_throttle err \<noteq> None"
  by (simp add: sched_throttle_def split: option.splits)

text \<open>A thread the loop parks is polled within 6 hours, another within 15 minutes.\<close>

definition plan_of :: "bool \<Rightarrow> duration" where
  "plan_of gone = (if gone then gone_thread_recheck else poll_backstop_idle_cap)"

definition sched_within :: "gotime \<Rightarrow> poll_schedule \<Rightarrow> bool" where
  "sched_within now s \<longleftrightarrow>
     sd_throttled_until s \<le> now + throttle_max \<and> sd_next_discovery s \<le> now + discovery_interval_watched \<and>
     sd_next_team_sync s \<le> now + team_sync_interval \<and> sd_next_activity s \<le> now + activity_failure_max \<and>
     sd_next_sweep s \<le> now + cache_sweep_interval \<and> sd_next_stats s \<le> now + request_stats_interval"

definition states_within :: "gotime \<Rightarrow> loop_world \<Rightarrow> bool" where
  "states_within now lw \<longleftrightarrow>
     (\<forall>i p. map_of (lw_states lw) i = Some p \<longrightarrow> pt_next p \<le> now + plan_of (pt_gone p))"

definition plans_within :: "gotime \<Rightarrow> loop_world \<Rightarrow> bool" where
  "plans_within now lw \<longleftrightarrow> 0 \<le> now \<and> sched_within now (lw_sched lw) \<and> states_within now lw"

lemmas loop_times =
  throttle_max_def discovery_interval_watched_def thread_discovery_interval_def team_sync_interval_def
  activity_failure_max_def activity_check_interval_def cache_sweep_interval_def request_stats_interval_def
  gone_thread_recheck_def poll_backstop_idle_cap_def active_thread_idle_cap_def poll_idle_cap_def
  poll_failure_cap_def poll_base_delay_def poll_loop_max_sleep_def poll_loop_min_sleep_def

lemma plan_of_nonneg: "0 \<le> plan_of g" "poll_backstop_idle_cap \<le> plan_of g"
  by (auto simp: plan_of_def loop_times)

lemma plan_of_eq: "plan_of g = (if g then 6 * hour else 15 * minute)"
  by (simp add: plan_of_def loop_times)

lemma sched_within_later: "sched_within t s \<Longrightarrow> t \<le> now \<Longrightarrow> sched_within now s"
  by (auto simp: sched_within_def)

lemma states_within_later: "states_within t lw \<Longrightarrow> t \<le> now \<Longrightarrow> states_within now lw"
  unfolding states_within_def by (meson add_right_mono order_trans)

lemma plans_within_later: "plans_within t lw \<Longrightarrow> t \<le> now \<Longrightarrow> plans_within now lw"
  by (auto simp: plans_within_def intro: sched_within_later states_within_later)

lemma sched_throttle_within: "sched_within now s \<Longrightarrow> sched_within now (snd (sched_throttle err now s))"
  by (cases "teams_throttle err") (auto simp: sched_throttle_some sched_within_def dest: teams_throttle_bounds)

lemma discovery_interval_le: "discovery_interval a l \<le> discovery_interval_watched"
  by (simp add: discovery_interval_def loop_times)

lemma activity_retry_delay_le: "activity_retry_delay n \<le> activity_failure_max"
  by (simp add: activity_retry_delay_def loop_times)

lemma wake_state_next [simp]: "pt_next (wake_state wk p) = zero_time" "pt_gone (wake_state wk p) = pt_gone p"
  by (simp_all add: wake_state_def Let_def)

lemma apply_wakeup_states:
  "map_of (lw_states (snd (apply_wakeup wk lw))) i =
   map_option (\<lambda>p. if wakes wk (i, p) then wake_state wk p else p) (map_of (lw_states lw) i)"
  by (simp add: apply_wakeup_def Let_def map_of_map_value)

lemma apply_wakeup_sched [simp]: "lw_sched (snd (apply_wakeup wk lw)) = lw_sched lw"
  by (simp add: apply_wakeup_def Let_def)

lemma apply_wakeup_pair: "apply_wakeup wk lw = (m, lw') \<Longrightarrow> lw_sched lw' = lw_sched lw"
  by (metis apply_wakeup_sched snd_conv)

lemma apply_wakeup_within: "plans_within now lw \<Longrightarrow> plans_within now (snd (apply_wakeup wk lw))"
  using plan_of_nonneg(1) by (fastforce simp: plans_within_def states_within_def apply_wakeup_states)

lemma plans_within_cong:
  "plans_within now lw \<Longrightarrow> lw_states lw' = lw_states lw \<Longrightarrow> sched_within now (lw_sched lw') \<Longrightarrow> plans_within now lw'"
  by (simp add: plans_within_def states_within_def)

definition note_newest :: "string \<Rightarrow> string \<Rightarrow> loop_world \<Rightarrow> loop_world" where
  "note_newest cid newest = on_sched (\<lambda>s. s\<lparr>sd_last_seen := AList.update cid newest (sd_last_seen s)\<rparr>)"

text \<open>What the check of one conversation does to the loop: wake its threads or not, and note it.\<close>

lemma check_conversation_world:
  "snd (snd (check_conversation clock primed conv s)) \<in>
     {snd (snd s), note_newest (fst conv) (snd conv) (snd (snd s)),
      note_newest (fst conv) (snd conv) (snd (apply_wakeup
        \<lparr>wk_thread = fst conv, wk_receipts = False, wk_at = clock, wk_source = ''watch''\<rparr> (snd (snd s))))}"
  by (cases conv; cases s)
    (auto simp: check_conversation_def note_newest_def on_sched_def Let_def dest: apply_wakeup_pair split: prod.split)

lemma note_newest_within: "plans_within now lw \<Longrightarrow> plans_within now (note_newest cid newest lw)"
  by (simp add: note_newest_def plans_within_def sched_within_def states_within_def)

lemma check_conversation_within:
  "plans_within now (snd (snd s)) \<Longrightarrow>
   plans_within now (snd (snd (check_conversation clock primed conv s)))"
  using check_conversation_world [of clock primed conv s] note_newest_within apply_wakeup_within by auto

lemma fold_check_within:
  "plans_within now (snd (snd s)) \<Longrightarrow>
   plans_within now (snd (snd (fold (check_conversation clock primed) convs s)))"
  by (induction convs arbitrary: s) (simp_all add: check_conversation_within)

lemma check_activity_within:
  "plans_within now lw \<Longrightarrow> plans_within now (snd (check_activity env lw))"
proof -
  assume h: "plans_within now lw"
  define lw1 where "lw1 = lw\<lparr>lw_poll := (lw_poll lw)\<lparr>pw_conn := note_teams_result (the_err (pv_recent env)) (pw_conn (lw_poll lw))\<rparr>\<rparr>"
  have w1: "plans_within now lw1" using h by (rule plans_within_cong) (use h in \<open>simp_all add: lw1_def plans_within_def\<close>)
  have up: "plans_within now (l\<lparr>lw_activity_up := b\<rparr>)" if "plans_within now l" for l b
    using that by (rule plans_within_cong) (use that in \<open>simp_all add: plans_within_def\<close>)
  show ?thesis
    using fold_check_within [of now "(False, False, lw1)"] w1 up
    by (auto simp: check_activity_def Let_def lw1_def [symmetric] split: sum.splits prod.split)
      (metis snd_conv)
qed

lemma on_sched_within:
  "plans_within now lw \<Longrightarrow> (\<And>s. sched_within now s \<Longrightarrow> sched_within now (f s)) \<Longrightarrow> plans_within now (on_sched f lw)"
  by (simp add: plans_within_def states_within_def)

lemma run_activity_within:
  assumes "plans_within now lw"
  shows "plans_within now (run_activity_check env now lw)"
proof -
  have nxt: "sched_within now (s\<lparr>sd_next_activity := now + activity_retry_delay n\<rparr>)"
    and fails: "sched_within now (s\<lparr>sd_activity_failures := n\<rparr>)"
    and disc: "sched_within now (s\<lparr>sd_next_discovery := now\<rparr>)"
    if "sched_within now s" for s n
    using that activity_retry_delay_le [of n] by (auto simp: sched_within_def loop_times)
  have conn: "plans_within now (lw\<lparr>lw_poll := x\<rparr>)" for x
    using assms by (simp add: plans_within_def states_within_def)
  show ?thesis
    using assms check_activity_within [OF assms, of env]
    by (auto simp: run_activity_check_def Let_def nxt fails disc conn sched_throttle_within
        split: option.splits prod.splits sum.splits intro!: on_sched_within)
qed

lemma due_within:
  assumes "plans_within now lw"
  shows "plans_within now (due_discovery env now lw)" "plans_within now (due_team_sync env now lw)"
    "plans_within now (due_activity env now lw)" "plans_within now (due_sweep now lw)"
    "plans_within now (due_stats now lw)"
proof -
  have disc: "sched_within now (s\<lparr>sd_last_discovery := now, sd_next_discovery := now + discovery_interval a l\<rparr>)"
    if "sched_within now s" for s a l
    using that discovery_interval_le [of a l] by (auto simp: sched_within_def)
  have poll: "plans_within now (l\<lparr>lw_poll := x\<rparr>)" if "plans_within now l" for l x
    using that by (simp add: plans_within_def states_within_def)
  show "plans_within now (due_discovery env now lw)"
    using assms disc sched_throttle_within
    by (auto simp: due_discovery_def Let_def plans_within_def states_within_def split: prod.split)
  show "plans_within now (due_team_sync env now lw)"
    using assms by (auto simp: due_team_sync_def poll sched_within_def loop_times intro!: on_sched_within)
  show "plans_within now (due_activity env now lw)"
    using assms by (simp add: due_activity_def run_activity_within)
  show "plans_within now (due_sweep now lw)"
    using assms by (auto simp: due_sweep_def sched_within_def loop_times plans_within_def states_within_def)
  show "plans_within now (due_stats now lw)"
    using assms by (auto simp: due_stats_def sched_within_def loop_times intro!: on_sched_within)
qed

section \<open>The delay after a poll\<close>

lemma failure_delay_le: "failure_delay n \<le> poll_failure_cap"
  by (simp add: failure_delay_def Let_def)

lemma apply_poll_backoff_delay:
  assumes "teams_throttle err = None" and "0 < pb_idle_cap b"
  shows "\<exists>b' d r. apply_poll_backoff (Some b) n err = (Some b', d, r) \<and> d \<le> max poll_failure_cap (pb_idle_cap b)"
proof -
  have idle: "pb_delay (on_idle b) \<le> pb_idle_cap b"
    using assms(2) by (simp add: on_idle_def Let_def ensure_base_delay_def)
  have "\<not> (st = 429 \<and> 0 < ra)" if "err = Some e" "retryable_of e = Some (st, ra)" for e st ra
    using assms(1) that by (auto simp: teams_throttle_def)
  then show ?thesis
    using idle failure_delay_le [of "Suc (pb_failures b)"]
    by (auto simp: apply_poll_backoff_def Let_def loop_times max_def split: option.split prod.split)
qed

text \<open>\<open>PollBackoffRetryAfter\<close> needs a 429, which the pause has taken before.\<close>

lemma after_poll_within:
  assumes "teams_throttle (the_err r) = None" and "0 < cap" and "cap \<le> poll_backstop_idle_cap"
  shows "pt_next (after_poll now cap r p) \<le> now + plan_of (pt_gone (after_poll now cap r p))"
proof -
  obtain b' d rs where a: "apply_poll_backoff (Some ((pt_backoff p)\<lparr>pb_idle_cap := cap\<rparr>))
      (case r of Inr n \<Rightarrow> int n | Inl _ \<Rightarrow> 0) (the_err r) = (Some b', d, rs)" "d \<le> max poll_failure_cap cap"
    using apply_poll_backoff_delay [OF assms(1), of "(pt_backoff p)\<lparr>pb_idle_cap := cap\<rparr>"
        "case r of Inr n \<Rightarrow> int n | Inl _ \<Rightarrow> 0"] assms(2) by auto
  have "d \<le> poll_backstop_idle_cap" using a(2) assms(3) by (simp add: loop_times)
  then show ?thesis by (simp add: after_poll_def Let_def a(1) plan_of_def)
qed

lemma idle_cap_for_bounds: "0 < idle_cap_for w now th c" "idle_cap_for w now th c \<le> poll_backstop_idle_cap"
  by (auto simp: idle_cap_for_def loop_times)

section \<open>The loop over the threads\<close>

text \<open>The state a thread's turn starts from, and how it leaves the loop.\<close>

definition turn_state :: "gotime \<Rightarrow> thread_state \<Rightarrow> loop_world \<Rightarrow> poll_state" where
  "turn_state now th lw =
     (case map_of (lw_states lw) (ts_thread_id th) of Some p \<Rightarrow> p | None \<Rightarrow> fresh_poll_state now)
       \<lparr>pt_conversation := ts_conversation th\<rparr>"

definition noticed_taken :: "poll_state \<Rightarrow> poll_state" where
  "noticed_taken p = p\<lparr>pt_noticed_at := zero_time, pt_noticed_by := []\<rparr>"

definition poll_outcome_of :: "pass_env \<Rightarrow> gotime \<Rightarrow> thread_state \<Rightarrow> loop_world \<Rightarrow> (go_error + nat) \<times> loop_world" where
  "poll_outcome_of env now th lw =
     (case poll_thread (pv_poll env (ts_thread_id th)) now (pv_clock env) th (lw_poll lw) of
        (r, _, w1) \<Rightarrow> (r, put_state (ts_thread_id th) (noticed_taken (turn_state now th lw)) (lw\<lparr>lw_poll := w1\<rparr>)))"

definition turn_cap :: "gotime \<Rightarrow> thread_state \<Rightarrow> loop_world \<Rightarrow> duration" where
  "turn_cap now th lw1 = idle_cap_for (lw_long_poll_up lw1 \<or> lw_activity_up lw1) now (ts_thread_id th) (pw_caches (lw_poll lw1))"

lemma poll_listed_step:
  "poll_listed env now (th # ths) wake lw =
     (if ts_thread_id th = [] then poll_listed env now ths wake lw
      else if now < pt_next (turn_state now th lw)
      then poll_listed env now ths (min (pt_next (turn_state now th lw)) wake)
             (put_state (ts_thread_id th) (turn_state now th lw) lw)
      else (case poll_outcome_of env now th lw of (r, lw1) \<Rightarrow>
              (case teams_throttle (the_err r) of
                 Some d \<Rightarrow> (let s = snd (sched_throttle (the_err r) now (lw_sched lw1)) in
                            (True, sd_throttled_until s, lw1\<lparr>lw_sched := s\<rparr>))
               | None \<Rightarrow>
                  (let p2 = after_poll now (turn_cap now th lw1) r (noticed_taken (turn_state now th lw)) in
                   poll_listed env now ths
                     (if is_thread_gone (the_err r) then wake else min (pt_next p2) wake)
                     (put_state (ts_thread_id th) p2 lw1)))))"
  by (simp add: turn_state_def noticed_taken_def poll_outcome_of_def turn_cap_def Let_def sched_throttle_some
      split: prod.split option.split)

lemma poll_outcome_of_simps:
  assumes "poll_outcome_of env now th lw = (r, lw1)"
  shows "map_of (lw_states lw1) = (map_of (lw_states lw))(ts_thread_id th \<mapsto> noticed_taken (turn_state now th lw))"
    "lw_sched lw1 = lw_sched lw"
  using assms by (auto simp: poll_outcome_of_def split: prod.splits)

lemma turn_state_within:
  "states_within now lw \<Longrightarrow> pt_next (turn_state now th lw) \<le> now + plan_of (pt_gone (turn_state now th lw))"
  using plan_of_nonneg(1) by (auto simp: turn_state_def states_within_def fresh_poll_state_def split: option.split)

lemma noticed_taken_simps [simp]:
  "pt_next (noticed_taken p) = pt_next p" "pt_gone (noticed_taken p) = pt_gone p"
  "pt_backoff (noticed_taken p) = pt_backoff p" "pt_conversation (noticed_taken p) = pt_conversation p"
  by (simp_all add: noticed_taken_def)

lemma put_state_within:
  "plans_within now lw \<Longrightarrow> pt_next p \<le> now + plan_of (pt_gone p) \<Longrightarrow> plans_within now (put_state th p lw)"
  by (auto simp: plans_within_def states_within_def)

lemma after_poll_turn_within:
  "teams_throttle (the_err r) = None \<Longrightarrow>
   pt_next (after_poll now (turn_cap now th lw) r p) \<le> now + plan_of (pt_gone (after_poll now (turn_cap now th lw) r p))"
  by (intro after_poll_within) (simp_all add: turn_cap_def idle_cap_for_bounds)

lemma poll_listed_within:
  "plans_within now lw \<Longrightarrow> poll_listed env now ths wake lw = (b, wake', lw') \<Longrightarrow>
   plans_within now lw' \<and> (\<not> b \<longrightarrow> wake' \<le> wake) \<and> (b \<longrightarrow> wake' = sd_throttled_until (lw_sched lw'))"
proof (induction ths arbitrary: wake lw)
  case (Cons th ths)
  have p: "pt_next (turn_state now th lw) \<le> now + plan_of (pt_gone (turn_state now th lw))"
    using Cons.prems(1) by (simp add: plans_within_def turn_state_within)
  obtain r lw1 where o1: "poll_outcome_of env now th lw = (r, lw1)" by force
  have w1: "plans_within now lw1"
    using Cons.prems(1) p poll_outcome_of_simps [OF o1] by (auto simp: plans_within_def states_within_def)
  consider (unnamed) "ts_thread_id th = []"
    | (waits) "ts_thread_id th \<noteq> []" "now < pt_next (turn_state now th lw)"
    | (throttled) d where "ts_thread_id th \<noteq> []" "\<not> now < pt_next (turn_state now th lw)" "teams_throttle (the_err r) = Some d"
    | (polled) "ts_thread_id th \<noteq> []" "\<not> now < pt_next (turn_state now th lw)" "teams_throttle (the_err r) = None"
    by (cases "teams_throttle (the_err r)") auto
  then show ?case
  proof cases
    case unnamed
    then have "poll_listed env now ths wake lw = (b, wake', lw')" using Cons.prems(2) by simp
    then show ?thesis by (rule Cons.IH [OF Cons.prems(1)])
  next
    case waits
    then show ?thesis
      using Cons.IH [OF put_state_within [OF Cons.prems(1) p]] Cons.prems(2)
      by (fastforce simp: poll_listed_step simp del: poll_listed.simps)
  next
    case throttled
    then show ?thesis
      using Cons.prems(2) w1 sched_throttle_within [of now "lw_sched lw1" "the_err r"]
      by (auto simp: poll_listed_step o1 Let_def plans_within_def states_within_def simp del: poll_listed.simps)
  next
    case polled
    then show ?thesis
      using Cons.IH [OF put_state_within [OF w1 after_poll_turn_within [OF polled(3)]]] Cons.prems(2)
      by (fastforce simp: poll_listed_step o1 Let_def simp del: poll_listed.simps split: if_splits)
  qed
qed simp


definition listed_ids :: "thread_state list \<Rightarrow> string list" where
  "listed_ids ths = filter (\<lambda>i. i \<noteq> []) (map ts_thread_id ths)"

lemma listed_ids_simps [simp]:
  "listed_ids [] = []"
  "listed_ids (th # ths) = (if ts_thread_id th = [] then listed_ids ths else ts_thread_id th # listed_ids ths)"
  by (simp_all add: listed_ids_def)












section \<open>Passes and turns\<close>

lemma forget_removed_states:
  "map_of (lw_states (forget_removed_threads ids lw)) i = (if i \<in> set ids then map_of (lw_states lw) i else None)"
  using map_of_filter_key [of "\<lambda>k. k \<in> set ids" "lw_states lw" i]
  by (simp add: forget_removed_threads_def Let_def)

lemma forget_removed_within: "plans_within now lw \<Longrightarrow> plans_within now (forget_removed_threads ids lw)"
  by (auto simp: plans_within_def states_within_def forget_removed_states)
    (simp add: forget_removed_threads_def Let_def)

lemma next_wake_le: "next_wake_of now s \<le> now + poll_loop_max_sleep"
  by (simp add: next_wake_of_def)

text \<open>The state of the loop when a pass comes to its threads.\<close>

definition before_threads :: "pass_env \<Rightarrow> gotime \<Rightarrow> loop_world \<Rightarrow> loop_world" where
  "before_threads env now lw = due_activity env now (due_team_sync env now (due_discovery env now lw))"

definition at_threads :: "gotime \<Rightarrow> string list \<Rightarrow> loop_world \<Rightarrow> loop_world" where
  "at_threads now ids lw = forget_removed_threads ids (due_stats now (due_sweep now lw))"

lemma poll_pass_eq:
  "poll_pass env now lw =
     (let lw1 = before_threads env now lw in
      if now < sd_throttled_until (lw_sched lw1) then (None, sd_throttled_until (lw_sched lw1), lw1)
      else (case pv_threads env of
              Inl e \<Rightarrow> (Some e, next_wake_of now (lw_sched lw1), due_stats now (due_sweep now lw1))
            | Inr ths \<Rightarrow>
                (case poll_listed env now ths (next_wake_of now (lw_sched lw1)) (at_threads now (listed_ids ths) lw1) of
                   (_, wake', lw3) \<Rightarrow> (None, wake', lw3))))"
  by (simp add: poll_pass_def before_threads_def at_threads_def listed_ids_def Let_def split: sum.split)

lemma before_threads_within: "plans_within now lw \<Longrightarrow> plans_within now (before_threads env now lw)"
  by (simp add: before_threads_def due_within)

lemma at_threads_within: "plans_within now lw \<Longrightarrow> plans_within now (at_threads now ids lw)"
  by (simp add: at_threads_def forget_removed_within due_within)

lemma due_states [simp]:
  "lw_states (due_stats now lw) = lw_states lw" "lw_states (due_sweep now lw) = lw_states lw"
  "lw_states (due_discovery env now lw) = lw_states lw" "lw_states (due_team_sync env now lw) = lw_states lw"
  by (auto simp: due_stats_def due_sweep_def due_discovery_def due_team_sync_def Let_def split: prod.split)


lemma poll_pass_within:
  assumes "plans_within now lw" and "poll_pass env now lw = (None, wake, lw')"
  shows "plans_within now lw' \<and> wake \<le> now + throttle_max"
proof -
  define lw1 where "lw1 = before_threads env now lw"
  have w1: "plans_within now lw1" using assms(1) by (simp add: lw1_def before_threads_within)
  have le: "sd_throttled_until (lw_sched l) \<le> now + throttle_max" if "plans_within now l" for l
    using that by (simp add: plans_within_def sched_within_def)
  show ?thesis
  proof (cases "now < sd_throttled_until (lw_sched lw1)")
    case True
    then show ?thesis using assms(2) w1 le [OF w1] by (auto simp: poll_pass_eq lw1_def [symmetric] Let_def)
  next
    case False
    then obtain ths b where run:
      "poll_listed env now ths (next_wake_of now (lw_sched lw1)) (at_threads now (listed_ids ths) lw1) = (b, wake, lw')"
      using assms(2) by (auto simp: poll_pass_eq lw1_def [symmetric] Let_def split: sum.splits prod.splits)
    have "plans_within now lw' \<and> (\<not> b \<longrightarrow> wake \<le> next_wake_of now (lw_sched lw1)) \<and>
        (b \<longrightarrow> wake = sd_throttled_until (lw_sched lw'))"
      by (rule poll_listed_within [OF at_threads_within [OF w1] run])
    then show ?thesis
      using le [of lw'] next_wake_le [of now "lw_sched lw1"] by (cases b) (auto simp: loop_times)
  qed
qed

lemma fold_wakeups_within:
  "plans_within now lw \<Longrightarrow> plans_within now (fold (\<lambda>wk l. snd (apply_wakeup wk l)) wks lw)"
  by (induction wks arbitrary: lw) (simp_all add: apply_wakeup_within)

text \<open>The worlds the loop reaches: a start from the thread list, then turns at times that do not go back.\<close>

inductive loop_reaches :: "gotime \<Rightarrow> loop_world \<Rightarrow> bool" where
  loop_starts: "loop_init env discovered lw0 = Inr lw \<Longrightarrow> 0 \<le> pv_clock env \<Longrightarrow> loop_reaches (pv_clock env) lw"
| loop_turns: "loop_reaches t lw \<Longrightarrow> t \<le> now \<Longrightarrow>
    loop_turn env ctx now wks lw = (Loop_Goes_On d, lw') \<Longrightarrow> loop_reaches now lw'"

lemma loop_turn_within:
  assumes "plans_within now lw" and "loop_turn env ctx now wks lw = (Loop_Goes_On d, lw')"
  shows "plans_within now lw' \<and> poll_loop_min_sleep \<le> d \<and>
    (now \<le> pv_clock env \<longrightarrow> d \<le> throttle_max)"
proof -
  obtain wake lw1 where p: "(if sd_throttled_until (lw_sched lw) \<le> now then poll_pass env now lw
        else (None, sd_throttled_until (lw_sched lw), lw)) = (None, wake, lw1)"
    and e: "d = max poll_loop_min_sleep (time_sub wake (pv_clock env))" "lw' = fold (\<lambda>wk l. snd (apply_wakeup wk l)) wks lw1"
    using assms(2) by (auto simp: loop_turn_def split: option.splits if_splits prod.splits)
  have "plans_within now lw1 \<and> wake \<le> now + throttle_max"
    using p poll_pass_within [OF assms(1)] assms(1)
    by (auto simp: plans_within_def sched_within_def split: if_splits)
  then show ?thesis using e fold_wakeups_within by (auto simp: time_sub_def loop_times)
qed

lemma initial_states_map: "map_of (initial_states now ths) i \<in> {None, Some (fresh_poll_state now)}"
proof -
  have "map_of (fold (\<lambda>th m. if ts_thread_id th = [] then m
      else AList.update (ts_thread_id th) (fresh_poll_state now) m) ths acc) i \<in> {None, Some (fresh_poll_state now)}"
    if "map_of acc i \<in> {None, Some (fresh_poll_state now)}" for acc
    using that by (induction ths arbitrary: acc) (auto simp: update_conv')
  from this [of "[]"] show ?thesis by (simp add: initial_states_def)
qed

lemma initial_within:
  assumes "loop_init env discovered lw0 = Inr lw" and "0 \<le> pv_clock env"
  shows "plans_within (pv_clock env) lw"
proof -
  obtain ths where lw: "lw_states lw = initial_states (pv_clock env) ths" "lw_sched lw = initial_schedule env discovered lw0"
    using assms(1) by (auto simp: loop_init_def split: sum.splits)
  have "sched_within (pv_clock env) (initial_schedule env discovered lw0)"
    using assms(2) discovery_interval_le [of "lw_activity_up lw0" "lw_long_poll_up lw0"]
    by (auto simp: initial_schedule_def sched_zero_def sched_within_def) (simp_all add: loop_times)
  moreover have "pt_next p \<le> pv_clock env + plan_of (pt_gone p)" if "map_of (lw_states lw) i = Some p" for i p
    using that lw initial_states_map [of "pv_clock env" ths i] plan_of_nonneg(1) by (auto simp: fresh_poll_state_def)
  ultimately show ?thesis using assms(2) by (simp add: plans_within_def states_within_def lw)
qed

lemma loop_reaches_within: "loop_reaches t lw \<Longrightarrow> plans_within t lw"
proof (induction rule: loop_reaches.induct)
  case (loop_turns t lw now env ctx wks d lw')
  then show ?case using loop_turn_within plans_within_later by blast
qed (rule initial_within)





lemma poll_listed_throttled:
  "poll_listed env now ths wake lw = (True, wake', lw') \<Longrightarrow>
   \<exists>pre th post w r t d. ths = pre @ th # post \<and> ts_thread_id th \<noteq> [] \<and>
     poll_thread (pv_poll env (ts_thread_id th)) now (pv_clock env) th w = (r, t, lw_poll lw') \<and>
     teams_throttle (the_err r) = Some d \<and> now + d \<le> wake' \<and> wake' = sd_throttled_until (lw_sched lw')"
proof (induction ths arbitrary: wake lw)
  case (Cons th ths)
  obtain r lw1 where o1: "poll_outcome_of env now th lw = (r, lw1)" by force
  have o2: "\<exists>t. poll_thread (pv_poll env (ts_thread_id th)) now (pv_clock env) th (lw_poll lw) = (r, t, lw_poll lw1)"
    using o1 by (auto simp: poll_outcome_of_def split: prod.splits)
  show ?case
  proof (cases "\<exists>w l. poll_listed env now ths w l = (True, wake', lw')")
    case True
    then obtain pre t' post where "ths = pre @ t' # post" and "th # ths = (th # pre) @ t' # post"
      using Cons.IH by fastforce
    show ?thesis using True Cons.IH by (metis append_Cons)
  next
    case False
    then obtain d where d: "ts_thread_id th \<noteq> []" "teams_throttle (the_err r) = Some d"
      "lw' = lw1\<lparr>lw_sched := snd (sched_throttle (the_err r) now (lw_sched lw1))\<rparr>"
      "wake' = sd_throttled_until (lw_sched lw')"
      using Cons.prems
      by (auto simp: poll_listed_step o1 Let_def simp del: poll_listed.simps split: if_splits option.splits)
    then have "now + d \<le> wake'" "lw_poll lw' = lw_poll lw1" by (simp_all add: sched_throttle_some)
    then show ?thesis using d o2 by (metis append_Nil)
  qed
qed simp



section \<open>Pauses and 429s\<close>

definition throttled_of :: "loop_world \<Rightarrow> gotime" where
  "throttled_of lw = sd_throttled_until (lw_sched lw)"

text \<open>No request of the pass is answered 429.\<close>

definition calm :: "pass_env \<Rightarrow> gotime \<Rightarrow> bool" where
  "calm env now \<longleftrightarrow>
     (\<forall>w. teams_throttle (fst (pv_refresh env w)) = None) \<and> teams_throttle (pv_token_err env) = None \<and>
     teams_throttle (the_err (pv_recent env)) = None \<and>
     (\<forall>th w. teams_throttle (the_err (fst (poll_thread (pv_poll env (ts_thread_id th)) now (pv_clock env) th w))) = None)"

lemma throttled_of_simps [simp]:
  "throttled_of (due_team_sync env now lw) = throttled_of lw" "throttled_of (due_sweep now lw) = throttled_of lw"
  "throttled_of (due_stats now lw) = throttled_of lw" "throttled_of (forget_removed_threads ids lw) = throttled_of lw"
  "throttled_of (at_threads now ids lw) = throttled_of lw" "throttled_of (put_state th p lw) = throttled_of lw"
  "throttled_of (snd (apply_wakeup wk lw)) = throttled_of lw"
  by (simp_all add: throttled_of_def due_team_sync_def due_sweep_def due_stats_def forget_removed_threads_def at_threads_def Let_def)

lemma throttled_of_wakeups [simp]: "throttled_of (fold (\<lambda>wk l. snd (apply_wakeup wk l)) wks lw) = throttled_of lw"
  by (induction wks arbitrary: lw) simp_all

lemma sched_throttle_until:
  "sd_throttled_until s \<le> sd_throttled_until (snd (sched_throttle err now s)) \<and>
   (teams_throttle err = None \<longrightarrow> snd (sched_throttle err now s) = s)"
  by (auto simp: sched_throttle_def split: option.split)

lemma due_discovery_throttled:
  "throttled_of lw \<le> throttled_of (due_discovery env now lw) \<and>
   (calm env now \<longrightarrow> throttled_of (due_discovery env now lw) = throttled_of lw)"
proof -
  obtain err w1 where e: "pv_refresh env (lw_poll lw) = (err, w1)" by force
  have "teams_throttle err = None" if "calm env now" using that e by (auto simp: calm_def dest: spec [of _ "lw_poll lw"])
  then show ?thesis
    using sched_throttle_until [of "lw_sched lw" err now] by (auto simp: throttled_of_def due_discovery_def e Let_def)
qed

lemma fold_check_throttled:
  "throttled_of (snd (snd (fold (check_conversation clock primed) convs s))) = throttled_of (snd (snd s))"
proof (induction convs arbitrary: s)
  case (Cons c convs)
  have "throttled_of (snd (snd (check_conversation clock primed c s))) = throttled_of (snd (snd s))"
    using check_conversation_world [of clock primed c s] by (auto simp: throttled_of_def note_newest_def)
  then show ?case using Cons by simp
qed simp

lemma check_activity_throttled: "throttled_of (snd (check_activity env lw)) = throttled_of lw"
proof (cases "pv_recent env")
  case (Inr convs)
  define lw1 where "lw1 = lw\<lparr>lw_poll := (lw_poll lw)\<lparr>pw_conn := note_teams_result None (pw_conn (lw_poll lw))\<rparr>\<rparr>"
  have "throttled_of (snd (check_activity env lw)) =
      throttled_of (snd (snd (fold (check_conversation (pv_clock env) (sd_last_seen (lw_sched lw1) \<noteq> [])) convs (False, False, lw1))))"
    by (simp add: check_activity_def Let_def Inr lw1_def throttled_of_def split: prod.split)
  then show ?thesis using fold_check_throttled [of _ _ convs "(False, False, lw1)"] by (simp add: lw1_def throttled_of_def)
qed (simp add: check_activity_def throttled_of_def)

lemma check_activity_err: "check_activity env lw = (Inl e, lw') \<Longrightarrow> the_err (pv_recent env) = Some e"
  by (auto simp: check_activity_def Let_def split: sum.splits prod.splits)

lemma due_activity_throttled:
  "throttled_of lw \<le> throttled_of (due_activity env now lw) \<and>
   (calm env now \<longrightarrow> throttled_of (due_activity env now lw) = throttled_of lw)"
proof (cases "sd_next_activity (lw_sched lw) \<le> now")
  case True
  obtain res lw1 where c: "check_activity env lw = (res, lw1)" by force
  have t: "sd_throttled_until (lw_sched lw1) = sd_throttled_until (lw_sched lw)"
    using check_activity_throttled [of env lw] by (simp add: c throttled_of_def)
  show ?thesis
  proof (cases "pv_token_err env")
    case None
    then show ?thesis
      using True c t sched_throttle_until [of "lw_sched lw1" "the_err (pv_recent env)" now]
      by (cases res) (auto simp: throttled_of_def due_activity_def run_activity_check_def Let_def calm_def dest: check_activity_err)
  next
    case (Some e)
    then show ?thesis
      using True sched_throttle_until [of "lw_sched lw" "Some e" now]
      by (auto simp: throttled_of_def due_activity_def run_activity_check_def Let_def calm_def)
  qed
qed (simp add: due_activity_def)

lemma before_threads_throttled:
  "throttled_of lw \<le> throttled_of (before_threads env now lw) \<and>
   (calm env now \<longrightarrow> throttled_of (before_threads env now lw) = throttled_of lw)"
  using due_discovery_throttled [of lw env now] due_activity_throttled [of "due_team_sync env now (due_discovery env now lw)" env now]
  by (simp add: before_threads_def)






lemma poll_listed_throttle_mono:
  "poll_listed env now ths wake lw = (b, wake', lw') \<Longrightarrow>
   throttled_of lw \<le> throttled_of lw' \<and> (\<not> b \<longrightarrow> throttled_of lw' = throttled_of lw) \<and> (calm env now \<longrightarrow> \<not> b)"
proof (induction ths arbitrary: wake lw)
  case (Cons th ths)
  obtain r lw1 where o1: "poll_outcome_of env now th lw = (r, lw1)" by force
  have o2: "throttled_of lw1 = throttled_of lw"
    using poll_outcome_of_simps(2) [OF o1] by (simp add: throttled_of_def)
  have o3: "teams_throttle (the_err r) = None" if "calm env now"
  proof -
    have "\<exists>w. fst (poll_thread (pv_poll env (ts_thread_id th)) now (pv_clock env) th w) = r"
      using o1 by (auto simp: poll_outcome_of_def split: prod.splits intro!: exI [of _ "lw_poll lw"])
    then show ?thesis using that unfolding calm_def by metis
  qed
  show ?case
  proof (cases "\<exists>w l. poll_listed env now ths w l = (b, wake', lw') \<and> throttled_of l = throttled_of lw")
    case True
    then show ?thesis using Cons.IH by metis
  next
    case False
    then have no: "poll_listed env now ths w lw \<noteq> (b, wake', lw')"
        "throttled_of l = throttled_of lw \<Longrightarrow> poll_listed env now ths w (put_state i p l) \<noteq> (b, wake', lw')" for w i p l
      by (metis throttled_of_simps(6))+
    obtain d where "teams_throttle (the_err r) = Some d" "b"
      "lw' = lw1\<lparr>lw_sched := snd (sched_throttle (the_err r) now (lw_sched lw1))\<rparr>"
      using Cons.prems o2 no
      by (auto simp: poll_listed_step o1 Let_def simp del: poll_listed.simps split: if_splits option.splits)
    then show ?thesis using o2 o3 sched_throttle_until [of "lw_sched lw1" "the_err r" now] by (auto simp: throttled_of_def)
  qed
qed (simp add: throttled_of_def)

lemma poll_pass_throttled:
  assumes "poll_pass env now lw = (e, wake, lw')"
  shows "throttled_of lw \<le> throttled_of lw' \<and> (calm env now \<longrightarrow> throttled_of lw' = throttled_of lw) \<and>
    (now < throttled_of lw' \<and> e = None \<longrightarrow> wake = throttled_of lw')"
proof -
  let ?b = "before_threads env now lw"
  note mono = before_threads_throttled [of lw env now]
  consider (paused) "now < throttled_of ?b" "lw' = ?b" "wake = throttled_of ?b"
    | (failed) "\<not> now < throttled_of ?b" "lw' = due_stats now (due_sweep now ?b)" "e \<noteq> None"
    | (polled) ths b where "\<not> now < throttled_of ?b"
      "poll_listed env now ths (next_wake_of now (lw_sched ?b)) (at_threads now (listed_ids ths) ?b) = (b, wake, lw')"
    using assms by (auto simp: poll_pass_eq Let_def throttled_of_def split: if_splits sum.splits prod.splits)
  then show ?thesis
  proof cases
    case polled
    note m = poll_listed_throttle_mono [OF polled(2)]
    have "wake = throttled_of lw'" if b
      using poll_listed_throttled [of env now ths] polled(2) that unfolding throttled_of_def by simp blast
    then show ?thesis using m mono polled(1) by (cases b) auto
  qed (use mono in auto)
qed

section \<open>An example\<close>

definition example_pass :: pass_env where
  "example_pass = \<lparr>pv_refresh = (\<lambda>w. (None, w)), pv_team_sync = (\<lambda>w. w), pv_token_err = Some (Plain ''token''),
     pv_recent = Inr [], pv_threads = Inr [example_thread],
     pv_poll = (\<lambda>_. example_poll_env\<lparr>pe_token_err := Some (Plain ''token'')\<rparr>), pv_superseded = False, pv_clock = 1\<rparr>"

definition example_loop :: loop_world where
  "example_loop = \<lparr>lw_states = [], lw_sched = sched_zero, lw_activity_up = False,
     lw_long_poll_up = False, lw_poll = example_poll_world\<rparr>"

lemma example_calm: "calm example_pass now"
  by (simp add: calm_def example_pass_def teams_throttle_def poll_thread_def fetch_thread_page_def)

lemma example_starts:
  "\<exists>lw. loop_reaches 1 lw \<and> throttled_of lw = 0 \<and>
     map_of (lw_states lw) ''19:a@thread.v2'' = Some (fresh_poll_state 1)"
proof -
  obtain lw where lw: "loop_init example_pass False example_loop = Inr lw"
    by (simp add: loop_init_def example_pass_def)
  moreover have "throttled_of lw = 0"
    using lw by (simp add: loop_init_def example_pass_def throttled_of_def initial_schedule_def sched_zero_def) auto
  moreover have "map_of (lw_states lw) ''19:a@thread.v2'' = Some (fresh_poll_state 1)"
    using lw by (simp add: loop_init_def example_pass_def initial_states_def example_thread_def) auto
  ultimately show ?thesis using loop_starts [OF lw] by (auto simp: example_pass_def)
qed

lemma example_pass_result:
  "throttled_of lw = 0 \<Longrightarrow> 0 \<le> now \<Longrightarrow>
   \<exists>wake lw'. poll_pass example_pass now lw = (None, wake, lw') \<and> sd_throttled_until (lw_sched lw') \<le> now"
proof -
  assume h: "throttled_of lw = 0" "0 \<le> now"
  obtain e wake lw' where p: "poll_pass example_pass now lw = (e, wake, lw')" by (metis surj_pair)
  have "e = None"
    using p by (auto simp: poll_pass_eq Let_def example_pass_def split: if_splits prod.splits)
  then show ?thesis using p poll_pass_throttled [OF p] example_calm h by (auto simp: throttled_of_def)
qed

section \<open>Properties\<close>



text \<open>C14: The loop never plans far ahead nor spins on its own: in every turn of a reachable loop
  whose clock does not go back, the sleep is between 100 milliseconds and ten minutes, a pause ends
  within ten minutes, discovery runs within five and the watch of recent conversations within one,
  and no thread's next poll is more than fifteen minutes away, or six hours if it is reported deleted.
  In particular a failing thread is never given up.\<close>

theorem plans_bounded:
  assumes "loop_reaches t lw" and "t \<le> now" and "now \<le> pv_clock env"
    and "loop_turn env ctx now wks lw = (Loop_Goes_On d, lw')"
  shows "100 * millisecond \<le> d \<and> d \<le> 10 * minute \<and>
    sd_throttled_until (lw_sched lw') \<le> now + 10 * minute \<and>
    sd_next_discovery (lw_sched lw') \<le> now + 5 * minute \<and> sd_next_activity (lw_sched lw') \<le> now + minute \<and>
    (\<forall>i p. map_of (lw_states lw') i = Some p \<longrightarrow>
       pt_next p \<le> now + (if pt_gone p then 6 * hour else 15 * minute))"
  using loop_turn_within [OF plans_within_later [OF loop_reaches_within [OF assms(1)] assms(2)] assms(4)] assms(3)
  by (auto simp: plans_within_def sched_within_def states_within_def plan_of_eq) (simp_all add: loop_times)

theorem plans_bounded_witness:
  "\<exists>lw d lw'. loop_turn example_pass None 1 [] lw = (Loop_Goes_On d, lw') \<and> 100 * millisecond \<le> d \<and> d \<le> 10 * minute"
proof -
  obtain lw where lw: "loop_reaches 1 lw" "throttled_of lw = 0" using example_starts by blast
  obtain wake lw' where p: "poll_pass example_pass 1 lw = (None, wake, lw')"
    using example_pass_result [OF lw(2), of 1] by auto
  have s: "\<not> pv_superseded example_pass" "pv_clock example_pass = 1" by (simp_all add: example_pass_def)
  then have turn: "loop_turn example_pass None 1 [] lw = (Loop_Goes_On (max poll_loop_min_sleep (time_sub wake 1)), lw')"
    using lw(2) by (simp add: loop_turn_def p throttled_of_def)
  have "1 \<le> pv_clock example_pass" using s by simp
  then show ?thesis using plans_bounded [OF lw(1) order_refl _ turn] turn by blast
qed



text \<open>Polls of one thread that fail, one after another: the time, the idle cap and the error of each.\<close>

fun failing_polls :: "(gotime \<times> duration \<times> go_error) list \<Rightarrow> poll_state \<Rightarrow> poll_state" where
  "failing_polls [] p = p"
| "failing_polls ((now, cap, e) # os) p = failing_polls os (after_poll now cap (Inl e) (noticed_taken p))"

definition transient :: "go_error \<Rightarrow> bool" where
  "transient e \<longleftrightarrow> teams_throttle (Some e) = None \<and>
     (\<forall>st b. messages_error_of e = Some (st, b) \<longrightarrow> \<not> is_client_4xx_non_429 st)"

lemma after_poll_transient:
  assumes "transient e"
  shows "pt_next (after_poll now cap (Inl e) p) = now + failure_delay (Suc (pb_failures (pt_backoff p)))"
    and "pb_failures (pt_backoff (after_poll now cap (Inl e) p)) = Suc (pb_failures (pt_backoff p))"
proof -
  have g: "\<not> is_thread_gone (Some e)"
    using assms by (auto simp: transient_def is_thread_gone_def is_client_4xx_non_429_def split: option.splits)
  have "apply_poll_backoff (Some b) n (Some e) = (Some (on_failure b), pb_delay (on_failure b), BackoffFailure)" for b n
    using assms by (auto simp: apply_poll_backoff_def transient_def teams_throttle_def Let_def split: option.splits if_splits)
  then show "pt_next (after_poll now cap (Inl e) p) = now + failure_delay (Suc (pb_failures (pt_backoff p)))"
    "pb_failures (pt_backoff (after_poll now cap (Inl e) p)) = Suc (pb_failures (pt_backoff p))"
    by (simp_all add: after_poll_def g)
qed

lemma failing_polls_next:
  "\<forall>(now, cap, e)\<in>set os. transient e \<Longrightarrow>
   pb_failures (pt_backoff (failing_polls os p)) = pb_failures (pt_backoff p) + length os \<and>
   (os \<noteq> [] \<longrightarrow> pt_next (failing_polls os p) = fst (last os) + failure_delay (pb_failures (pt_backoff p) + length os))"
proof (induction os arbitrary: p)
  case (Cons o1 os)
  obtain now cap e where o1: "o1 = (now, cap, e)" by (metis surj_pair)
  have "transient e" using Cons.prems o1 by auto
  then show ?case
    using Cons.IH [of "after_poll now cap (Inl e) (noticed_taken p)"] Cons.prems
    by (cases os) (simp_all add: o1 after_poll_transient)
qed simp

text \<open>C16: How a thread whose polls fail is spaced, from its first failure on.  The delay after the
  n-th failure in a row doubles from two seconds to a minute for n up to 33, but the shifted product
  leaves 64 bits after that: the 34th failure plans the next poll before the failed one, and from the
  55th on the next poll is due at once, for as long as the failures last.\<close>

theorem failing_thread_delays:
  assumes "\<forall>(now, cap, e)\<in>set os. transient e" and "os \<noteq> []"
  shows "(length os \<le> 33 \<longrightarrow>
      pt_next (failing_polls os (fresh_poll_state t)) =
        fst (last os) + min (2 * second * 2 ^ (length os - 1)) (60 * second)) \<and>
    (length os = 34 \<longrightarrow> pt_next (failing_polls os (fresh_poll_state t)) < fst (last os)) \<and>
    (55 \<le> length os \<longrightarrow> pt_next (failing_polls os (fresh_poll_state t)) = fst (last os))"
proof -
  have "pt_next (failing_polls os (fresh_poll_state t)) = fst (last os) + failure_delay (length os)"
    using failing_polls_next [OF assms(1), of "fresh_poll_state t"] assms(2)
    by (simp add: fresh_poll_state_def fresh_backoff_def)
  then show ?thesis
    using failure_delay_small [of "length os"] failure_delay_34_negative failure_delay_collapse [of "length os"] assms(2)
    by (auto simp: loop_times)
qed

theorem failing_thread_delays_witness:
  "pt_next (failing_polls (replicate 55 (7, second, Plain ''timeout'')) (fresh_poll_state 0)) = 7"
  using failing_thread_delays [of "replicate 55 (7, second, Plain ''timeout'')" 0]
  by (simp add: transient_def teams_throttle_def)

end
