(* ===== verification/Html_Content.thy ===== *)
theory Html_Content
  imports Teams_Message
begin

text \<open>
  What the bridge reads from the HTML of a message (package \<open>internal/teams/model\<close>:
  message_html.go, gif.go, inline_image.go, mention.go, reply.go and \<open>ExtractContent\<close> of
  message.go): the plain and the sanitised body, GIFs, images, mentions and the replied-to
  message.

  The HTML parser is golang.org/x/net/html, a third-party package: it is the parameter
  \<open>he_parse\<close>, and a parsed document is a tree of \<open>html_node\<close>.  Of package \<open>html\<close> the
  escaping is modelled, the table of entities behind \<open>UnescapeString\<close> is a parameter; of
  package \<open>net/url\<close> the scheme is modelled, which other URLs \<open>Parse\<close> refuses and what it
  takes for the host are parameters.
\<close>

section \<open>Nodes\<close>

datatype html_node =
    Text_Node string
  | Element_Node string "(string \<times> string) list" "html_node list"
  | Other_Node "html_node list"

record html_env =
  he_parse :: "string \<Rightarrow> html_node option"
  he_unescape :: "string \<Rightarrow> string"
  he_url_err :: "string \<Rightarrow> bool"
  he_url_host :: "string \<Rightarrow> string"

definition get_attr :: "(string \<times> string) list \<Rightarrow> string \<Rightarrow> string" where
  "get_attr attrs key = (case find (\<lambda>(k, _). equal_fold k key) attrs of Some (_, v) \<Rightarrow> v | None \<Rightarrow> [])"

section \<open>Strings\<close>

text \<open>\<open>strings.ReplaceAll\<close> of a non-empty string.\<close>

fun replace_all :: "string \<Rightarrow> string \<Rightarrow> string \<Rightarrow> string" where
  "replace_all old new [] = []"
| "replace_all old new (c # s) =
     (if old \<noteq> [] \<and> prefix old (c # s) then new @ replace_all old new (drop (length old - 1) s)
      else c # replace_all old new s)"

text \<open>\<open>html.EscapeString\<close>.\<close>

definition escape_char :: "char \<Rightarrow> string" where
  "escape_char c =
     (if c = CHR ''&'' then ''&amp;'' else if c = CHR 0x27 then ''&#39;'' else if c = CHR ''<'' then ''&lt;''
      else if c = CHR ''>'' then ''&gt;'' else if c = CHR 0x22 then ''&#34;'' else [c])"

definition html_escape :: "string \<Rightarrow> string" where
  "html_escape s = concat (map escape_char s)"

text \<open>Runs of three or more newlines become two.\<close>

fun collapse_newlines :: "nat \<Rightarrow> string \<Rightarrow> string" where
  "collapse_newlines n [] = []"
| "collapse_newlines n (c # s) =
     (if c = CHR 0x0A then (if n < 2 then c # collapse_newlines (Suc n) s else collapse_newlines n s)
      else c # collapse_newlines 0 s)"

definition normalize_plain_text :: "string \<Rightarrow> string" where
  "normalize_plain_text value =
     trim_space (collapse_newlines 0 (replace_all [CHR 0x0D] [CHR 0x0A] (replace_all [CHR 0x0D, CHR 0x0A] [CHR 0x0A] value)))"

text \<open>White space of a regular expression.\<close>

definition re_space :: "char \<Rightarrow> bool" where
  "re_space c \<longleftrightarrow> c \<in> {CHR 0x09, CHR 0x0A, CHR 0x0C, CHR 0x0D, CHR 0x20}"

text \<open>
  What follows a letter of \<open>(?i)[a-z]\<close>, which has two more members: U+017F and U+212A
  fold to s and k.
\<close>

definition after_letter :: "string \<Rightarrow> string option" where
  "after_letter s =
     (case s of [] \<Rightarrow> None
      | c # r \<Rightarrow>
          if ascii_letter c then Some r
          else if prefix (map char_of [0xC5, 0xBF :: nat]) s then Some (drop 2 s)
          else if prefix (map char_of [0xE2, 0x84, 0xAA :: nat]) s then Some (drop 3 s)
          else None)"

text \<open>A match of \<open>(?i)<\s*/?\s*[a-z][^>]*>\<close> anywhere; \<open>tag_follows\<close> is what comes after the \<open><\<close>.\<close>

definition tag_follows :: "string \<Rightarrow> bool" where
  "tag_follows s =
     (let s1 = dropWhile re_space s;
          s2 = (case s1 of c # r \<Rightarrow> if c = CHR ''/'' then r else s1 | [] \<Rightarrow> []) in
      case after_letter (dropWhile re_space s2) of None \<Rightarrow> False | Some r \<Rightarrow> CHR ''>'' \<in> set r)"

fun looks_like_html :: "string \<Rightarrow> bool" where
  "looks_like_html [] = False"
| "looks_like_html (c # s) = (c = CHR ''<'' \<and> tag_follows s \<or> looks_like_html s)"

section \<open>Addresses\<close>

text \<open>\<open>getScheme\<close> of package \<open>net/url\<close>: \<open>None\<close> for the error "missing protocol scheme".\<close>

fun scheme_loop :: "string \<Rightarrow> string \<Rightarrow> string option" where
  "scheme_loop acc [] = Some []"
| "scheme_loop acc (c # s) =
     (if ascii_letter c then scheme_loop (acc @ [c]) s
      else if c \<in> set ''0123456789+-.'' then (if acc = [] then Some [] else scheme_loop (acc @ [c]) s)
      else if c = CHR '':'' then (if acc = [] then None else Some acc)
      else Some [])"

definition url_scheme :: "html_env \<Rightarrow> string \<Rightarrow> string option" where
  "url_scheme env v = (if he_url_err env v then None else map_option to_lower (scheme_loop [] v))"

definition sanitize_href :: "html_env \<Rightarrow> string \<Rightarrow> string option" where
  "sanitize_href env value =
     (let v = trim_space value in
      if v = [] then None
      else (case url_scheme env v of
              None \<Rightarrow> None
            | Some s \<Rightarrow> if s \<in> set [''http'', ''https'', ''mailto'', ''matrix''] then Some v else None))"

definition extract_safe_href :: "html_env \<Rightarrow> (string \<times> string) list \<Rightarrow> string option" where
  "extract_safe_href env attrs =
     (case find (\<lambda>(k, _). equal_fold k ''href'') attrs of Some (_, v) \<Rightarrow> sanitize_href env v | None \<Rightarrow> None)"

definition is_safe_http_url :: "html_env \<Rightarrow> string \<Rightarrow> bool" where
  "is_safe_http_url env value =
     (case url_scheme env (trim_space value) of None \<Rightarrow> False | Some s \<Rightarrow> s \<in> set [''http'', ''https''])"

definition gif_cdn_hosts :: "string list" where
  "gif_cdn_hosts = [''giphy.com'', ''tenor.com'', ''tenor.co'', ''gfycat.com'']"

definition is_gif_cdn_url :: "html_env \<Rightarrow> string \<Rightarrow> bool" where
  "is_gif_cdn_url env raw =
     (let v = trim_space raw in
      if url_scheme env v = None then False
      else (let host = to_lower (he_url_host env v) in
            list_ex (\<lambda>cdn. host = cdn \<or> suffix (''.'' @ cdn) host) gif_cdn_hosts))"

section \<open>Tags\<close>

definition allowed_formatted_tags :: "string list" where
  "allowed_formatted_tags =
     [''a'', ''b'', ''blockquote'', ''br'', ''code'', ''em'', ''i'', ''li'', ''ol'', ''p'', ''pre'', ''s'', ''strong'',
      ''table'', ''tbody'', ''td'', ''th'', ''thead'', ''tr'', ''u'', ''ul'']"

definition block_tags :: "string list" where
  "block_tags =
     [''blockquote'', ''div'', ''h1'', ''h2'', ''h3'', ''h4'', ''h5'', ''h6'', ''li'', ''ol'', ''p'', ''pre'', ''section'', ''ul'']"

definition is_unsafe_tag :: "string \<Rightarrow> bool" where
  "is_unsafe_tag tag \<longleftrightarrow>
     tag \<in> set [''script'', ''style'', ''iframe'', ''object'', ''embed'', ''meta'', ''link'', ''head'']"

definition item_type_has :: "string \<Rightarrow> (string \<times> string) list \<Rightarrow> bool" where
  "item_type_has kind attrs \<longleftrightarrow> sublist kind (to_lower (trim_space (get_attr attrs ''itemtype'')))"

definition has_giphy_item_type :: "(string \<times> string) list \<Rightarrow> bool" where
  "has_giphy_item_type attrs = item_type_has ''schema.skype.com/giphy'' attrs"

definition has_emoji_item_type :: "(string \<times> string) list \<Rightarrow> bool" where
  "has_emoji_item_type attrs = item_type_has ''schema.skype.com/emoji'' attrs"

definition emoticon_text :: "string \<Rightarrow> (string \<times> string) list \<Rightarrow> string option" where
  "emoticon_text tag attrs =
     (if \<not> equal_fold tag ''img'' \<or> \<not> has_emoji_item_type attrs then None
      else (let alt = trim_space (get_attr attrs ''alt'');
                title = trim_space (get_attr attrs ''title'');
                item = trim_space (get_attr attrs ''itemid'') in
            if alt \<noteq> [] then Some alt
            else if title \<noteq> [] then Some ('':'' @ to_lower (replace_all '' '' ''_'' title) @ '':'')
            else if item \<noteq> [] then Some ('':'' @ item @ '':'')
            else None))"

section \<open>The plain body\<close>

definition append_plain_newline :: "string \<Rightarrow> string" where
  "append_plain_newline b = (if b = [] \<or> last b = CHR 0x0A then b else b @ [CHR 0x0A])"

fun render_plain_node :: "html_node \<Rightarrow> string \<Rightarrow> string"
and render_plain_nodes :: "html_node list \<Rightarrow> string \<Rightarrow> string" where
  "render_plain_node (Text_Node s) b = b @ s"
| "render_plain_node (Element_Node tag0 attrs cs) b =
     (let tag = to_lower tag0 in
      if is_unsafe_tag tag then b
      else (case emoticon_text tag0 attrs of
              Some t \<Rightarrow> b @ t
            | None \<Rightarrow>
                if tag = ''br'' then append_plain_newline b
                else (let b1 = (if tag \<in> set block_tags then append_plain_newline b else b);
                          b2 = render_plain_nodes cs b1 in
                      if tag \<in> set block_tags then append_plain_newline b2 else b2)))"
| "render_plain_node (Other_Node cs) b = render_plain_nodes cs b"
| "render_plain_nodes [] b = b"
| "render_plain_nodes (n # ns) b = render_plain_nodes ns (render_plain_node n b)"

section \<open>The sanitised body\<close>

definition lang_char :: "char \<Rightarrow> bool" where
  "lang_char c \<longleftrightarrow> ascii_letter c \<or> c \<in> set ''0123456789_+#.-''"

fun ws_fields :: "string \<Rightarrow> string list" where
  "ws_fields [] = [[]]"
| "ws_fields (c # s) =
     (if re_space c then [] # ws_fields s
      else (case ws_fields s of [] \<Rightarrow> [[c]] | w # ws \<Rightarrow> (c # w) # ws))"

text \<open>
  \<open>(?:^|\s)language-([A-Za-z0-9_+#.-]+)(?:\s|$)\<close>: the first field of the class that is
  language- and a name.
\<close>

definition match_language :: "string \<Rightarrow> string option" where
  "match_language cls =
     map_option (drop 9)
       (find (\<lambda>f. prefix ''language-'' f \<and> drop 9 f \<noteq> [] \<and> list_all lang_char (drop 9 f)) (ws_fields cls))"

text \<open>The code element's own class, then its parent's (\<open>None\<close> where the parent is no element).\<close>

definition code_language :: "(string \<times> string) list \<Rightarrow> (string \<times> string) list option \<Rightarrow> string" where
  "code_language attrs parent =
     (let named = (\<lambda>m. let l = to_lower m in if l = ''plaintext'' \<or> l = ''text'' then [] else l) in
      case match_language (get_attr attrs ''class'') of
        Some m \<Rightarrow> named m
      | None \<Rightarrow>
          (case parent of
             None \<Rightarrow> []
           | Some pa \<Rightarrow> (case match_language (get_attr pa ''class'') of Some m \<Rightarrow> named m | None \<Rightarrow> [])))"

definition open_attributes ::
  "html_env \<Rightarrow> string \<Rightarrow> (string \<times> string) list \<Rightarrow> (string \<times> string) list option \<Rightarrow> string" where
  "open_attributes env tag attrs parent =
     (if tag = ''a''
      then (case extract_safe_href env attrs of Some h \<Rightarrow> '' href='' @ [CHR 0x22] @ html_escape h @ [CHR 0x22] | None \<Rightarrow> [])
      else if tag = ''code''
      then (let l = code_language attrs parent in
            if l = [] then [] else '' class='' @ [CHR 0x22] @ ''language-'' @ l @ [CHR 0x22])
      else [])"

text \<open>The text written, and whether a tag was rendered.\<close>

fun render_formatted_node ::
  "html_env \<Rightarrow> (string \<times> string) list option \<Rightarrow> html_node \<Rightarrow> string \<times> bool"
and render_formatted_nodes ::
  "html_env \<Rightarrow> (string \<times> string) list option \<Rightarrow> html_node list \<Rightarrow> string \<times> bool" where
  "render_formatted_node env parent (Text_Node s) = (html_escape s, False)"
| "render_formatted_node env parent (Element_Node tag0 attrs cs) =
     (let tag = to_lower tag0 in
      if is_unsafe_tag tag then ([], False)
      else (case emoticon_text tag0 attrs of
              Some t \<Rightarrow> (html_escape t, False)
            | None \<Rightarrow>
                if tag = ''br'' then (''<br>'', True)
                else if tag \<notin> set allowed_formatted_tags then render_formatted_nodes env (Some attrs) cs
                else (''<'' @ tag @ open_attributes env tag attrs parent @ ''>'' @
                      fst (render_formatted_nodes env (Some attrs) cs) @ ''</'' @ tag @ ''>'', True)))"
| "render_formatted_node env parent (Other_Node cs) = render_formatted_nodes env None cs"
| "render_formatted_nodes env parent [] = ([], False)"
| "render_formatted_nodes env parent (n # ns) =
     (case render_formatted_node env parent n of (s, b) \<Rightarrow>
      case render_formatted_nodes env parent ns of (s', b') \<Rightarrow> (s @ s', b \<or> b'))"

fun find_wrapper_div :: "html_node \<Rightarrow> ((string \<times> string) list \<times> html_node list) option"
and find_wrapper_divs :: "html_node list \<Rightarrow> ((string \<times> string) list \<times> html_node list) option" where
  "find_wrapper_div (Text_Node s) = None"
| "find_wrapper_div (Element_Node tag attrs cs) =
     (if equal_fold tag ''div'' then Some (attrs, cs) else find_wrapper_divs cs)"
| "find_wrapper_div (Other_Node cs) = find_wrapper_divs cs"
| "find_wrapper_divs [] = None"
| "find_wrapper_divs (n # ns) = (case find_wrapper_div n of Some d \<Rightarrow> Some d | None \<Rightarrow> find_wrapper_divs ns)"

definition parse_fragment :: "html_env \<Rightarrow> string \<Rightarrow> html_node option" where
  "parse_fragment env value = he_parse env (''<div>'' @ value @ ''</div>'')"

definition normalize_sanitized_html :: "string \<Rightarrow> string" where
  "normalize_sanitized_html value = trim_space value"

definition normalize_html_fragment :: "html_env \<Rightarrow> string \<Rightarrow> (string \<times> string) option" where
  "normalize_html_fragment env value =
     (case Option.bind (parse_fragment env value) find_wrapper_div of
        None \<Rightarrow> None
      | Some (attrs, nodes) \<Rightarrow>
          if nodes = [] then Some ([], [])
          else (case render_formatted_nodes env (Some attrs) nodes of
                  (s, rendered) \<Rightarrow>
                    Some (normalize_plain_text (render_plain_nodes nodes []),
                      if rendered then normalize_sanitized_html s else [])))"

record message_content =
  mc_body :: string
  mc_formatted :: string
  mc_gifs :: "teams_gif list"
  mc_images :: "inline_image list"

definition bare_content :: "string \<Rightarrow> string \<Rightarrow> message_content" where
  "bare_content body formatted = \<lparr>mc_body = body, mc_formatted = formatted, mc_gifs = [], mc_images = []\<rparr>"

definition normalize_message_body :: "html_env \<Rightarrow> string \<Rightarrow> message_content" where
  "normalize_message_body env raw =
     (let normalized = normalize_plain_text (he_unescape env raw) in
      if normalized = [] then bare_content [] []
      else if \<not> looks_like_html raw then bare_content normalized []
      else (case normalize_html_fragment env raw of
              None \<Rightarrow> bare_content normalized []
            | Some (body, formatted) \<Rightarrow>
                if body = [] then bare_content [] []
                else if formatted = [] then bare_content body []
                else bare_content body formatted))"

section \<open>GIFs and images\<close>

definition first_non_empty :: "string list \<Rightarrow> string" where
  "first_non_empty vs = (case find (\<lambda>v. v \<noteq> []) (map trim_space vs) of Some v \<Rightarrow> v | None \<Rightarrow> [])"

definition is_gif_image :: "html_env \<Rightarrow> string \<Rightarrow> (string \<times> string) list \<Rightarrow> bool" where
  "is_gif_image env tag attrs \<longleftrightarrow>
     equal_fold tag ''img'' \<and>
     (has_giphy_item_type attrs \<or> is_gif_cdn_url env (get_attr attrs ''src'') \<or>
      sublist ''(gif image)'' (to_lower (get_attr attrs ''alt'')))"

text \<open>The seen URLs are those of the GIFs so far.\<close>

definition append_single_gif ::
  "html_env \<Rightarrow> (string \<times> string) list \<Rightarrow> string \<Rightarrow> teams_gif list \<Rightarrow> teams_gif list" where
  "append_single_gif env attrs fallback gifs =
     (let src = trim_space (get_attr attrs ''src'') in
      if \<not> is_safe_http_url env src then gifs
      else if src \<in> set (map gif_url gifs) then gifs
      else gifs @ [\<lparr>gif_title = first_non_empty [trim_space (get_attr attrs ''alt''), trim_space fallback, ''GIF''],
                    gif_url = src\<rparr>])"

text \<open>\<open>appendGIFsFromImages\<close>: the images below a node, by its children.\<close>

fun append_gifs_from_image :: "html_env \<Rightarrow> string \<Rightarrow> html_node \<Rightarrow> teams_gif list \<Rightarrow> teams_gif list"
and append_gifs_from_images :: "html_env \<Rightarrow> string \<Rightarrow> html_node list \<Rightarrow> teams_gif list \<Rightarrow> teams_gif list" where
  "append_gifs_from_image env title (Text_Node s) gifs = gifs"
| "append_gifs_from_image env title (Element_Node tag attrs cs) gifs =
     append_gifs_from_images env title cs
       (if equal_fold tag ''img'' then append_single_gif env attrs title gifs else gifs)"
| "append_gifs_from_image env title (Other_Node cs) gifs = append_gifs_from_images env title cs gifs"
| "append_gifs_from_images env title [] gifs = gifs"
| "append_gifs_from_images env title (n # ns) gifs =
     append_gifs_from_images env title ns (append_gifs_from_image env title n gifs)"

definition gifs_of_element ::
  "html_env \<Rightarrow> string \<Rightarrow> (string \<times> string) list \<Rightarrow> html_node list \<Rightarrow> teams_gif list \<Rightarrow> teams_gif list" where
  "gifs_of_element env tag0 attrs cs gifs =
     (let tag = to_lower tag0 in
      if tag = ''readonly''
      then (if has_giphy_item_type attrs
            then append_gifs_from_images env (first_non_empty [get_attr attrs ''title'', get_attr attrs ''aria-label'']) cs gifs
            else gifs)
      else if tag = ''img''
      then (if is_gif_image env tag0 attrs then append_single_gif env attrs [] gifs else gifs)
      else gifs)"

fun collect_gifs :: "html_env \<Rightarrow> html_node \<Rightarrow> teams_gif list \<Rightarrow> teams_gif list"
and collect_gifs_list :: "html_env \<Rightarrow> html_node list \<Rightarrow> teams_gif list \<Rightarrow> teams_gif list" where
  "collect_gifs env (Text_Node s) gifs = gifs"
| "collect_gifs env (Element_Node tag attrs cs) gifs =
     collect_gifs_list env cs (gifs_of_element env tag attrs cs gifs)"
| "collect_gifs env (Other_Node cs) gifs = collect_gifs_list env cs gifs"
| "collect_gifs_list env [] gifs = gifs"
| "collect_gifs_list env (n # ns) gifs = collect_gifs_list env ns (collect_gifs env n gifs)"

definition parse_gifs :: "html_env \<Rightarrow> string \<Rightarrow> teams_gif list" where
  "parse_gifs env raw =
     (if \<not> looks_like_html raw then []
      else (case parse_fragment env raw of None \<Rightarrow> [] | Some doc \<Rightarrow> collect_gifs env doc []))"

definition image_of_element ::
  "html_env \<Rightarrow> string \<Rightarrow> (string \<times> string) list \<Rightarrow> inline_image list \<Rightarrow> inline_image list" where
  "image_of_element env tag0 attrs imgs =
     (if to_lower tag0 = ''img'' \<and> \<not> is_gif_image env tag0 attrs \<and> \<not> has_emoji_item_type attrs
      then (let src = trim_space (get_attr attrs ''src'') in
            if src \<noteq> [] \<and> is_safe_http_url env src \<and> src \<notin> set (map img_url imgs)
            then imgs @ [\<lparr>img_url = src, img_alt = trim_space (get_attr attrs ''alt'')\<rparr>]
            else imgs)
      else imgs)"

fun collect_inline_images :: "html_env \<Rightarrow> html_node \<Rightarrow> inline_image list \<Rightarrow> inline_image list"
and collect_inline_images_list :: "html_env \<Rightarrow> html_node list \<Rightarrow> inline_image list \<Rightarrow> inline_image list" where
  "collect_inline_images env (Text_Node s) imgs = imgs"
| "collect_inline_images env (Element_Node tag attrs cs) imgs =
     (if to_lower tag = ''readonly'' \<and> has_giphy_item_type attrs then imgs
      else collect_inline_images_list env cs (image_of_element env tag attrs imgs))"
| "collect_inline_images env (Other_Node cs) imgs = collect_inline_images_list env cs imgs"
| "collect_inline_images_list env [] imgs = imgs"
| "collect_inline_images_list env (n # ns) imgs =
     collect_inline_images_list env ns (collect_inline_images env n imgs)"

definition parse_inline_images :: "html_env \<Rightarrow> string \<Rightarrow> inline_image list" where
  "parse_inline_images env raw =
     (if \<not> looks_like_html raw then []
      else (case parse_fragment env raw of None \<Rightarrow> [] | Some doc \<Rightarrow> collect_inline_images env doc []))"

section \<open>Mentions and replies\<close>

fun extract_text_content :: "html_node \<Rightarrow> string"
and text_contents :: "html_node list \<Rightarrow> string" where
  "extract_text_content (Text_Node s) = s"
| "extract_text_content (Element_Node tag attrs cs) = trim_space (text_contents cs)"
| "extract_text_content (Other_Node cs) = trim_space (text_contents cs)"
| "text_contents [] = []"
| "text_contents (n # ns) = extract_text_content n @ text_contents ns"

definition mention_of_node :: "html_node \<Rightarrow> teams_mention option" where
  "mention_of_node n =
     (case n of
        Element_Node tag attrs cs \<Rightarrow>
          if equal_fold tag ''span'' \<and> item_type_has ''schema.skype.com/mention'' attrs \<and> extract_text_content n \<noteq> []
          then Some \<lparr>mention_user_id = [], mention_display_name = extract_text_content n,
                     mention_item_id = trim_space (get_attr attrs ''itemid'')\<rparr>
          else None
      | _ \<Rightarrow> None)"

fun collect_mentions :: "html_node \<Rightarrow> teams_mention list \<Rightarrow> teams_mention list"
and collect_mentions_list :: "html_node list \<Rightarrow> teams_mention list \<Rightarrow> teams_mention list" where
  "collect_mentions (Text_Node s) ms = ms"
| "collect_mentions (Element_Node tag attrs cs) ms =
     collect_mentions_list cs
       (case mention_of_node (Element_Node tag attrs cs) of Some m \<Rightarrow> ms @ [m] | None \<Rightarrow> ms)"
| "collect_mentions (Other_Node cs) ms = collect_mentions_list cs ms"
| "collect_mentions_list [] ms = ms"
| "collect_mentions_list (n # ns) ms = collect_mentions_list ns (collect_mentions n ms)"

definition parse_mentions :: "html_env \<Rightarrow> string \<Rightarrow> teams_mention list" where
  "parse_mentions env raw =
     (if \<not> looks_like_html raw \<or> \<not> sublist ''schema.skype.com/Mention'' raw then []
      else (case parse_fragment env raw of None \<Rightarrow> [] | Some doc \<Rightarrow> collect_mentions doc []))"

definition reply_id_of :: "string \<Rightarrow> (string \<times> string) list \<Rightarrow> string" where
  "reply_id_of tag attrs =
     (if equal_fold tag ''blockquote'' \<and> item_type_has ''schema.skype.com/reply'' attrs
      then trim_space (get_attr attrs ''itemid'') else [])"

fun find_reply_id :: "html_node \<Rightarrow> string"
and find_reply_ids :: "html_node list \<Rightarrow> string" where
  "find_reply_id (Text_Node s) = []"
| "find_reply_id (Element_Node tag attrs cs) =
     (if reply_id_of tag attrs \<noteq> [] then reply_id_of tag attrs else find_reply_ids cs)"
| "find_reply_id (Other_Node cs) = find_reply_ids cs"
| "find_reply_ids [] = []"
| "find_reply_ids (n # ns) = (if find_reply_id n \<noteq> [] then find_reply_id n else find_reply_ids ns)"

definition extract_reply_id_from_html :: "html_env \<Rightarrow> string \<Rightarrow> string" where
  "extract_reply_id_from_html env raw =
     (if \<not> looks_like_html raw \<or> \<not> sublist ''schema.skype.com/Reply'' raw then []
      else (case parse_fragment env raw of None \<Rightarrow> [] | Some doc \<Rightarrow> find_reply_id doc))"

section \<open>The content field\<close>

text \<open>The content as a string: a JSON string, or the text member of an object.\<close>

definition content_string :: "json option \<Rightarrow> string option" where
  "content_string content =
     (case content of
        None \<Rightarrow> None
      | Some (JStr s) \<Rightarrow> Some s
      | Some JNull \<Rightarrow> Some []
      | Some j \<Rightarrow> string_field ''text'' j)"

definition extract_content :: "html_env \<Rightarrow> json option \<Rightarrow> message_content" where
  "extract_content env content =
     (case content_string content of
        None \<Rightarrow> bare_content [] []
      | Some s \<Rightarrow> (normalize_message_body env s)\<lparr>mc_gifs := parse_gifs env s, mc_images := parse_inline_images env s\<rparr>)"

definition extract_body :: "html_env \<Rightarrow> json option \<Rightarrow> string" where
  "extract_body env content = mc_body (extract_content env content)"

definition extract_reply_to_id :: "html_env \<Rightarrow> json option \<Rightarrow> string" where
  "extract_reply_to_id env content =
     (case content_string content of None \<Rightarrow> [] | Some s \<Rightarrow> extract_reply_id_from_html env s)"

text \<open>\<open>json_text\<close> is the text a decoded value was read from.\<close>

definition extract_files_property :: "(json \<Rightarrow> string) \<Rightarrow> json option \<Rightarrow> string" where
  "extract_files_property json_text properties =
     (case Option.bind properties (raw_field ''files'') of
        Some (Some v) \<Rightarrow>
          (case v of
             JStr s \<Rightarrow> trim_space s
           | JArr xs \<Rightarrow> trim_space (json_text v)
           | _ \<Rightarrow> [])
      | _ \<Rightarrow> [])"

section \<open>What trimming removes\<close>

definition space_bytes :: "char set" where
  "space_bytes = \<Union> (set ` set go_spaces)"

lemma strip_removed: "\<exists>p. s = p @ strip ps s \<and> set p \<subseteq> \<Union> (set ` set ps)"
proof (induction ps s rule: strip.induct)
  case (1 ps s)
  show ?case
  proof (cases "front_pat ps s")
    case None
    then show ?thesis by (simp add: strip_clean)
  next
    case (Some q)
    then have q: "prefix q s" "q \<in> set ps" using front_pat_Some by blast+
    obtain p where p: "drop (length q) s = p @ strip ps (drop (length q) s)" "set p \<subseteq> \<Union> (set ` set ps)"
      using "1.IH" [OF Some] by blast
    have "strip ps s = strip ps (drop (length q) s)" using Some by (subst strip.simps) simp
    then have "s = (q @ p) @ strip ps s" using q(1) p(1) by (auto simp: prefix_def)
    moreover have "set (q @ p) \<subseteq> \<Union> (set ` set ps)" using p(2) q(2) by auto
    ultimately show ?thesis by blast
  qed
qed

lemma trim_space_removed:
  "\<exists>l r. s = l @ trim_space s @ r \<and> set l \<subseteq> space_bytes \<and> set r \<subseteq> space_bytes"
proof -
  obtain l where l: "s = l @ trim_left s" "set l \<subseteq> space_bytes"
    using strip_removed [of s go_spaces] by (auto simp: trim_left_def space_bytes_def)
  obtain r where r: "rev (trim_left s) = r @ strip (map rev go_spaces) (rev (trim_left s))"
    "set r \<subseteq> \<Union> (set ` set (map rev go_spaces))"
    using strip_removed [of "rev (trim_left s)" "map rev go_spaces"] by blast
  have "trim_left s = trim_space s @ rev r"
    using arg_cong [OF r(1), of rev] by (simp add: trim_space_def trim_right_def)
  moreover have "set (rev r) \<subseteq> space_bytes" using r(2) by (auto simp: space_bytes_def)
  ultimately show ?thesis using l by (metis append.assoc)
qed

section \<open>The sanitised body is safe\<close>

lemma escape_char_safe: "set (escape_char c) \<inter> {CHR ''<'', CHR ''>'', CHR 0x22, CHR 0x27} = {}"
  by (auto simp: escape_char_def)

lemma html_escape_safe: "set (html_escape s) \<inter> {CHR ''<'', CHR ''>'', CHR 0x22, CHR 0x27} = {}"
  unfolding html_escape_def set_concat set_map using escape_char_safe by blast

text \<open>Every occurrence of a character is followed by one of given strings.\<close>

definition followed_by :: "char \<Rightarrow> string list \<Rightarrow> string \<Rightarrow> bool" where
  "followed_by c qs s \<longleftrightarrow> (\<forall>pre post. s = pre @ c # post \<longrightarrow> list_ex (\<lambda>q. prefix q post) qs)"

lemma followed_by_free: "c \<notin> set s \<Longrightarrow> followed_by c qs s"
  by (auto simp: followed_by_def)

lemma followed_by_append:
  assumes "followed_by c qs a" and "followed_by c qs b"
  shows "followed_by c qs (a @ b)"
  unfolding followed_by_def
proof (intro allI impI)
  fix pre post assume "a @ b = pre @ c # post"
  then consider us where "a = pre @ c # us" "post = us @ b" | us where "b = us @ c # post"
    by (auto simp: append_eq_append_conv2 append_eq_Cons_conv Cons_eq_append_conv)
  then show "list_ex (\<lambda>q. prefix q post) qs"
  proof cases
    case (1 us)
    then have "list_ex (\<lambda>q. prefix q us) qs" using assms(1) unfolding followed_by_def by blast
    then show ?thesis unfolding 1(2) list_ex_iff using prefix_prefix by blast
  next
    case 2
    then show ?thesis using assms(2) unfolding followed_by_def by blast
  qed
qed

lemma followed_by_Cons: "list_ex (\<lambda>q. prefix q s) qs \<Longrightarrow> followed_by c qs s \<Longrightarrow> followed_by c qs (c # s)"
  by (auto simp: followed_by_def Cons_eq_append_conv)

text \<open>
  The grammar of what is rendered, written out without the definitions of the code: text in which markup is
  escaped, the allowed elements, and the two attributes an element may have: an address whose scheme is
  http, https, mailto or matrix, and the name of a language.
\<close>

definition escaped_text :: "string \<Rightarrow> bool" where
  "escaped_text s \<longleftrightarrow> set s \<inter> {CHR ''<'', CHR ''>'', CHR 0x22, CHR 0x27} = {} \<and>
     followed_by CHR ''&'' [''amp;'', ''lt;'', ''gt;'', ''#34;'', ''#39;''] s"

definition safe_address :: "string \<Rightarrow> bool" where
  "safe_address u \<longleftrightarrow> escaped_text u \<and>
     (\<exists>scheme rest. u = scheme @ '':'' @ rest \<and> to_lower scheme \<in> set [''http'', ''https'', ''mailto'', ''matrix''])"

definition language_name :: "string \<Rightarrow> bool" where
  "language_name l \<longleftrightarrow> l \<noteq> [] \<and> (\<forall>c \<in> set l. ascii_letter c \<or> c \<in> set ''0123456789_+#.-'')"

definition safe_attributes :: "string \<Rightarrow> string \<Rightarrow> bool" where
  "safe_attributes tag a \<longleftrightarrow>
     a = [] \<or>
     (tag = ''a'' \<and> (\<exists>u. safe_address u \<and> a = '' href='' @ [CHR 0x22] @ u @ [CHR 0x22])) \<or>
     (tag = ''code'' \<and> (\<exists>l. language_name l \<and> a = '' class='' @ [CHR 0x22] @ ''language-'' @ l @ [CHR 0x22]))"

definition sane_tags :: "string list" where
  "sane_tags = [''a'', ''b'', ''blockquote'', ''br'', ''code'', ''em'', ''i'', ''li'', ''ol'', ''p'', ''pre'', ''s'', ''strong'',
     ''table'', ''tbody'', ''td'', ''th'', ''thead'', ''tr'', ''u'', ''ul'']"

lemma language_name_iff: "language_name l \<longleftrightarrow> l \<noteq> [] \<and> list_all lang_char l"
  unfolding language_name_def list_all_iff lang_char_def ..

lemma escaped_no_tag: "escaped_text s \<Longrightarrow> CHR ''<'' \<notin> set s"
  by (auto simp: escaped_text_def)

lemma address_no_tag: "safe_address u \<Longrightarrow> CHR ''<'' \<notin> set u"
  by (simp add: safe_address_def escaped_no_tag)

inductive sanitized :: "string \<Rightarrow> bool" where
  Sane_Nil: "sanitized []"
| Sane_Text: "escaped_text s \<Longrightarrow> sanitized s"
| Sane_Break: "sanitized ''<br>''"
| Sane_Append: "sanitized s \<Longrightarrow> sanitized t \<Longrightarrow> sanitized (s @ t)"
| Sane_Element: "tag \<in> set sane_tags \<Longrightarrow> safe_attributes tag a \<Longrightarrow> sanitized s \<Longrightarrow>
    sanitized (''<'' @ tag @ a @ ''>'' @ s @ ''</'' @ tag @ ''>'')"

lemma escaped_text_append: "escaped_text s \<Longrightarrow> escaped_text t \<Longrightarrow> escaped_text (s @ t)"
  by (auto simp: escaped_text_def followed_by_append)

lemma escape_char_escaped: "escaped_text (escape_char c)"
proof -
  have "followed_by CHR ''&'' qs (CHR ''&'' # s)" if "list_ex (\<lambda>q. prefix q s) qs" "CHR ''&'' \<notin> set s" for qs s
    using that by (intro followed_by_Cons followed_by_free)
  then show ?thesis
    by (simp add: escaped_text_def escape_char_def followed_by_free)
qed

lemma html_escape_escaped: "escaped_text (html_escape s)"
proof (induction s)
  case (Cons c s)
  then show ?case using escaped_text_append [OF escape_char_escaped] by (simp add: html_escape_def)
qed (simp add: html_escape_def escaped_text_def followed_by_free)

lemma scheme_loop_written:
  assumes "scheme_loop acc v = Some scheme" and "scheme \<noteq> []"
  shows "\<exists>w rest. v = w @ '':'' @ rest \<and> scheme = acc @ w \<and> (\<forall>c \<in> set w. ascii_letter c \<or> c \<in> set ''0123456789+-.'')"
  using assms
proof (induction acc v rule: scheme_loop.induct)
  case (2 acc c v)
  show ?case
  proof (cases "ascii_letter c \<or> c \<in> set ''0123456789+-.'' \<and> acc \<noteq> []")
    case True
    then have "scheme_loop (acc @ [c]) v = Some scheme" using 2(3) by (auto split: if_splits)
    then obtain w rest where "v = w @ '':'' @ rest" "scheme = (acc @ [c]) @ w"
      "\<forall>c \<in> set w. ascii_letter c \<or> c \<in> set ''0123456789+-.''"
      using 2 True by (auto split: if_splits)
    then have "c # v = (c # w) @ '':'' @ rest \<and> scheme = acc @ c # w \<and> (\<forall>d \<in> set (c # w). ascii_letter d \<or> d \<in> set ''0123456789+-.'')"
      using True by auto
    then show ?thesis by blast
  next
    case False
    then have "c = CHR '':''" "scheme = acc" using 2(3,4) by (auto split: if_splits)
    then have "c # v = [] @ '':'' @ v \<and> scheme = acc @ []" by simp
    then show ?thesis by fastforce
  qed
qed simp

definition plain_char :: "char \<Rightarrow> bool" where
  "plain_char c \<longleftrightarrow> ascii_letter c \<or> c \<in> set ''0123456789+-.:''"

lemma escape_plain: "plain_char c \<Longrightarrow> escape_char c = [c]"
  by (auto simp: plain_char_def escape_char_def ascii_letter_def Let_def)

lemma html_escape_plain: "list_all plain_char s \<Longrightarrow> html_escape s = s"
  by (induction s) (simp_all add: html_escape_def escape_plain)

lemma html_escape_append: "html_escape (s @ t) = html_escape s @ html_escape t"
  by (simp add: html_escape_def)

lemma sanitize_href_safe:
  assumes "sanitize_href env v = Some h"
  shows "safe_address (html_escape h)"
proof -
  obtain sch where sch: "scheme_loop [] h = Some sch" "to_lower sch \<in> set [''http'', ''https'', ''mailto'', ''matrix'']"
    using assms by (auto simp: sanitize_href_def url_scheme_def Let_def split: if_splits option.splits)
  then have "sch \<noteq> []" by (auto simp: to_lower_def)
  then obtain rest where h: "h = sch @ '':'' @ rest" and w: "\<forall>c \<in> set sch. ascii_letter c \<or> c \<in> set ''0123456789+-.''"
    using scheme_loop_written [OF sch(1)] unfolding append_Nil by blast
  have "list_all plain_char (sch @ '':'')" using w unfolding list_all_iff plain_char_def by fastforce
  then have "html_escape h = sch @ '':'' @ html_escape rest"
    using html_escape_append [of "sch @ '':''" rest] by (simp add: h html_escape_plain)
  then show ?thesis using sch(2) html_escape_escaped unfolding safe_address_def by metis
qed

lemma lower_letter: "ascii_letter c \<Longrightarrow> ascii_letter (lower_char c)"
  by (auto simp: ascii_letter_def lower_char_def Let_def of_char_of)

lemma lower_lang_char: "lang_char c \<Longrightarrow> lang_char (lower_char c)"
proof -
  assume "lang_char c"
  moreover have "lower_char c = c" if "\<not> ascii_letter c"
    using that by (auto simp: ascii_letter_def lower_char_def Let_def)
  ultimately show ?thesis using lower_letter unfolding lang_char_def by metis
qed

lemma match_language_name: "match_language cls = Some m \<Longrightarrow> m \<noteq> [] \<and> list_all lang_char m"
  by (auto simp: match_language_def find_Some_iff)

lemma code_language_name: "list_all lang_char (code_language attrs parent)"
proof -
  have "list_all lang_char (to_lower m)" if "match_language cls = Some m" for cls m
    using match_language_name [OF that] by (auto simp: to_lower_def list_all_iff lower_lang_char)
  then show ?thesis by (auto simp: code_language_def Let_def split: option.splits)
qed

lemma open_attributes_safe: "safe_attributes tag (open_attributes env tag attrs parent)"
  using code_language_name [of attrs parent] sanitize_href_safe
  by (auto simp: safe_attributes_def open_attributes_def extract_safe_href_def language_name_iff Let_def
      split: option.splits)

lemma allowed_tags_sane: "tag \<in> set allowed_formatted_tags \<Longrightarrow> tag \<in> set sane_tags"
  by (simp add: allowed_formatted_tags_def sane_tags_def)

lemma render_formatted_sanitized:
  "sanitized (fst (render_formatted_node env parent n))"
  "sanitized (fst (render_formatted_nodes env parent ns))"
proof (induction env parent n and env parent ns rule: render_formatted_node_render_formatted_nodes.induct)
  case (2 env parent tag attrs cs)
  show ?case
    using 2 by (auto simp: Let_def intro: sanitized.intros open_attributes_safe allowed_tags_sane html_escape_escaped split: option.splits simp del: append.simps)
qed (auto intro: sanitized.intros html_escape_escaped split: prod.splits)

text \<open>Every \<open><\<close> in a text opens or closes an allowed tag.\<close>

definition tag_openers :: "string list" where
  "tag_openers =
     map (\<lambda>t. t @ ''>'') sane_tags @ map (\<lambda>t. ''/'' @ t @ ''>'') sane_tags @
     [''a href='' @ [CHR 0x22], ''code class='' @ [CHR 0x22]]"

definition opens_allowed :: "string \<Rightarrow> bool" where
  "opens_allowed post \<longleftrightarrow> list_ex (\<lambda>q. prefix q post) tag_openers"

abbreviation (input) tags_ok :: "string \<Rightarrow> bool" where
  "tags_ok s \<equiv> followed_by CHR ''<'' tag_openers s"

lemmas tags_ok_def = followed_by_def [of "CHR ''<''" tag_openers, folded opens_allowed_def]
  and tags_ok_free = followed_by_free [of "CHR ''<''" _ tag_openers]
  and tags_ok_append = followed_by_append [of "CHR ''<''" tag_openers]
  and tags_ok_Cons = followed_by_Cons [of _ tag_openers "CHR ''<''", folded opens_allowed_def]

lemma sane_tags_plain: "\<forall>t \<in> set sane_tags. CHR ''<'' \<notin> set t"
  by (simp add: sane_tags_def)

lemma lang_char_safe: "lang_char c \<Longrightarrow> c \<noteq> CHR ''<''"
  by (auto simp: lang_char_def ascii_letter_def Let_def)

lemma safe_attributes_plain: "safe_attributes tag a \<Longrightarrow> CHR ''<'' \<notin> set a"
  using lang_char_safe by (auto simp: safe_attributes_def language_name_iff list_all_iff dest: address_no_tag) blast?

lemma opens_tag:
  assumes "tag \<in> set sane_tags" and "safe_attributes tag a"
  shows "opens_allowed (tag @ a @ ''>'' @ s)" "opens_allowed (''/'' @ tag @ ''>'')"
proof -
  have p: "prefix (tag @ ''>'') (tag @ ''>'' @ s)" by simp
  have "prefix (''a href='' @ [CHR 0x22]) (tag @ a @ ''>'' @ s) \<or> prefix (''code class='' @ [CHR 0x22]) (tag @ a @ ''>'' @ s) \<or>
     prefix (tag @ ''>'') (tag @ a @ ''>'' @ s)"
    using assms(2) by (auto simp: safe_attributes_def)
  then show "opens_allowed (tag @ a @ ''>'' @ s)"
    using assms(1) unfolding opens_allowed_def list_ex_iff tag_openers_def by fastforce
  show "opens_allowed (''/'' @ tag @ ''>'')"
    using assms(1) unfolding opens_allowed_def list_ex_iff tag_openers_def by fastforce
qed

lemma sanitized_tags_ok: "sanitized s \<Longrightarrow> tags_ok s"
proof (induction rule: sanitized.induct)
  case Sane_Nil
  then show ?case by (simp add: tags_ok_free)
next
  case (Sane_Text s)
  then show ?case by (intro tags_ok_free) (auto simp: escaped_text_def)
next
  case Sane_Break
  have "opens_allowed ''br>''" by code_simp
  then have "tags_ok (CHR ''<'' # ''br>'')" by (rule tags_ok_Cons) (simp add: tags_ok_free)
  then show ?case by simp
next
  case (Sane_Append s t)
  then show ?case by (simp add: tags_ok_append)
next
  case (Sane_Element tag a s)
  have free: "CHR ''<'' \<notin> set (tag @ a @ ''>'')" "CHR ''<'' \<notin> set (''/'' @ tag @ ''>'')"
    using Sane_Element.hyps sane_tags_plain safe_attributes_plain by auto
  have "tags_ok (CHR ''<'' # ''/'' @ tag @ ''>'')"
    using free(2) opens_tag(2) Sane_Element.hyps by (blast intro: tags_ok_Cons tags_ok_free)
  then have "tags_ok (tag @ a @ ''>'' @ s @ ''</'' @ tag @ ''>'')"
    using tags_ok_append [OF tags_ok_free [OF free(1)] tags_ok_append [OF Sane_Element.IH]] by simp
  then show ?case
    using opens_tag(1) [OF Sane_Element.hyps(1,2)] by (simp add: tags_ok_Cons)
qed

text \<open>Trimming takes white space only, and no opener ends in white space.\<close>

lemma space_bytes_code: "c \<in> space_bytes \<Longrightarrow> (of_char c :: nat) < 33 \<or> 128 \<le> (of_char c :: nat)"
  by (auto simp: space_bytes_def go_spaces_def)

lemma openers_end: "\<forall>q \<in> set tag_openers. q \<noteq> [] \<and> last q \<notin> space_bytes"
proof -
  have "CHR ''>'' \<notin> space_bytes" "CHR 0x22 \<notin> space_bytes" using space_bytes_code by fastforce+
  then show ?thesis by (auto simp: tag_openers_def)
qed

lemma prefix_before_space:
  assumes "prefix q (p @ r)" and "q \<noteq> []" and "last q \<notin> set r"
  shows "prefix q p"
proof (rule ccontr)
  assume "\<not> prefix q p"
  then obtain u where "q = p @ u" "prefix u r" using assms(1) by (auto simp: prefix_append)
  moreover have ne: "u \<noteq> []" using calculation(1) \<open>\<not> prefix q p\<close> by auto
  moreover have "last u \<in> set u" using ne by (rule last_in_set)
  ultimately show False using assms(3) ne set_mono_prefix by fastforce
qed

lemma trim_tags_ok:
  assumes "tags_ok s"
  shows "tags_ok (trim_space s)"
  unfolding tags_ok_def
proof (intro allI impI)
  fix pre post assume h: "trim_space s = pre @ CHR ''<'' # post"
  obtain l r where s: "s = l @ trim_space s @ r" and r: "set r \<subseteq> space_bytes" using trim_space_removed by blast
  have "s = (l @ pre) @ CHR ''<'' # (post @ r)" using s h by simp
  then have "opens_allowed (post @ r)" using assms unfolding tags_ok_def by blast
  then obtain q where q: "q \<in> set tag_openers" "prefix q (post @ r)" by (auto simp: opens_allowed_def list_ex_iff)
  have "prefix q post" using prefix_before_space [OF q(2)] openers_end q(1) r by blast
  then show "opens_allowed post" using q(1) by (auto simp: opens_allowed_def list_ex_iff)
qed

lemma formatted_rendered:
  "mc_formatted (normalize_message_body env raw) = [] \<or>
   (\<exists>s. sanitized s \<and> mc_formatted (normalize_message_body env raw) = trim_space s)"
proof -
  have "\<exists>t. sanitized t \<and> trim_space s = trim_space t" if "render_formatted_nodes env parent ns = (s, b)" for parent ns s b
    using render_formatted_sanitized(2) [of env parent ns] that by auto
  then show ?thesis
    by (auto simp: normalize_message_body_def normalize_html_fragment_def bare_content_def normalize_sanitized_html_def
        Let_def split: option.splits prod.splits)
qed

section \<open>Walks in document order\<close>

fun preorder :: "html_node \<Rightarrow> html_node list"
and preorders :: "html_node list \<Rightarrow> html_node list" where
  "preorder (Text_Node s) = [Text_Node s]"
| "preorder (Element_Node tag attrs cs) = Element_Node tag attrs cs # preorders cs"
| "preorder (Other_Node cs) = Other_Node cs # preorders cs"
| "preorders [] = []"
| "preorders (n # ns) = preorder n @ preorders ns"

fun reply_id_of_node :: "html_node \<Rightarrow> string" where
  "reply_id_of_node (Element_Node tag attrs cs) = reply_id_of tag attrs"
| "reply_id_of_node _ = []"

lemma mention_of_node_simps [simp]:
  "mention_of_node (Text_Node s) = None" "mention_of_node (Other_Node cs) = None"
  by (simp_all add: mention_of_node_def)

lemma map_filter_append: "List.map_filter f (xs @ ys) = List.map_filter f xs @ List.map_filter f ys"
  by (simp add: List.map_filter_def)

lemma collect_mentions_preorder:
  "collect_mentions n ms = ms @ List.map_filter mention_of_node (preorder n)"
  "collect_mentions_list ns ms = ms @ List.map_filter mention_of_node (preorders ns)"
  by (induction n ms and ns ms rule: collect_mentions_collect_mentions_list.induct)
     (auto simp: map_filter_append List.map_filter_simps split: option.splits)

definition first_id :: "string list \<Rightarrow> string" where
  "first_id ids = (case filter (\<lambda>i. i \<noteq> []) ids of [] \<Rightarrow> [] | i # _ \<Rightarrow> i)"

lemma first_id_append: "first_id (xs @ ys) = (if first_id xs \<noteq> [] then first_id xs else first_id ys)"
  by (auto simp: first_id_def split: list.splits dest: filter_eq_ConsD)

lemma first_id_Cons: "first_id (x # ys) = (if x \<noteq> [] then x else first_id ys)"
  by (simp add: first_id_def)

lemma find_reply_id_preorder:
  "find_reply_id n = first_id (map reply_id_of_node (preorder n))"
  "find_reply_ids ns = first_id (map reply_id_of_node (preorders ns))"
  by (induction n and ns rule: find_reply_id_find_reply_ids.induct)
     (auto simp: first_id_append first_id_Cons, auto simp: first_id_def)

section \<open>What the lists hold\<close>

definition gifs_ok :: "html_env \<Rightarrow> teams_gif list \<Rightarrow> bool" where
  "gifs_ok env gifs \<longleftrightarrow> distinct (map gif_url gifs) \<and>
     list_all (\<lambda>g. is_safe_http_url env (gif_url g) \<and> gif_title g \<noteq> []) gifs"

lemma first_non_empty_default: "trim_space d \<noteq> [] \<Longrightarrow> first_non_empty [a, b, d] \<noteq> []"
  by (simp add: first_non_empty_def)

lemma append_single_gif_ok: "gifs_ok env gifs \<Longrightarrow> gifs_ok env (append_single_gif env attrs title gifs)"
proof -
  have "trim_space ''GIF'' \<noteq> []" by (simp add: trim_space_plain plain_ends_def)
  from first_non_empty_default [OF this] show "gifs_ok env gifs \<Longrightarrow> ?thesis"
    by (auto simp: append_single_gif_def gifs_ok_def Let_def)
qed

lemma append_gifs_from_images_ok:
  "gifs_ok env gifs \<Longrightarrow> gifs_ok env (append_gifs_from_image env title n gifs)"
  "gifs_ok env gifs \<Longrightarrow> gifs_ok env (append_gifs_from_images env title ns gifs)"
  by (induction env title n gifs and env title ns gifs rule: append_gifs_from_image_append_gifs_from_images.induct)
     (auto simp: append_single_gif_ok)

lemma collect_gifs_ok:
  "gifs_ok env gifs \<Longrightarrow> gifs_ok env (collect_gifs env n gifs)"
  "gifs_ok env gifs \<Longrightarrow> gifs_ok env (collect_gifs_list env ns gifs)"
proof (induction env n gifs and env ns gifs rule: collect_gifs_collect_gifs_list.induct)
  case (2 env tag attrs cs gifs)
  have "gifs_ok env (gifs_of_element env tag attrs cs gifs)"
    using 2 by (auto simp: gifs_of_element_def Let_def intro: append_single_gif_ok append_gifs_from_images_ok)
  then show ?case using 2 by simp
qed auto

definition images_ok :: "html_env \<Rightarrow> inline_image list \<Rightarrow> bool" where
  "images_ok env imgs \<longleftrightarrow> distinct (map img_url imgs) \<and>
     list_all (\<lambda>i. is_safe_http_url env (img_url i) \<and> img_url i \<noteq> []) imgs"

lemma collect_inline_images_ok:
  "images_ok env imgs \<Longrightarrow> images_ok env (collect_inline_images env n imgs)"
  "images_ok env imgs \<Longrightarrow> images_ok env (collect_inline_images_list env ns imgs)"
  by (induction env n imgs and env ns imgs rule: collect_inline_images_collect_inline_images_list.induct)
     (auto simp: images_ok_def image_of_element_def Let_def)

section \<open>Plain text\<close>

lemma replace_all_gone: "c \<notin> set new \<Longrightarrow> c \<notin> set (replace_all [c] new s)"
  by (induction "[c]" new s rule: replace_all.induct) auto

lemma collapse_newlines_set: "set (collapse_newlines n s) \<subseteq> set s"
  by (induction n s rule: collapse_newlines.induct) auto

lemma sublist_replicate_apart:
  assumes "sublist (replicate k c) (xs @ d # ys)" and "c \<noteq> d"
  shows "sublist (replicate k c) xs \<or> sublist (replicate k c) ys"
proof -
  obtain p r where h: "xs @ d # ys = p @ replicate k c @ r" using assms(1) by (auto simp: sublist_def)
  show ?thesis
  proof (cases "length p + k \<le> length xs")
    case True
    then have "xs = p @ replicate k c @ take (length xs - length p - k) r"
      using arg_cong [OF h, of "take (length xs)"] by simp
    then show ?thesis by (metis sublist_appendI)
  next
    case False
    have "length xs < length p"
    proof (rule ccontr)
      assume "\<not> length xs < length p"
      then have "length xs - length p < k" "\<not> length xs < length p" using False by arith+
      then have "(xs @ d # ys) ! length xs = c" unfolding h by (simp add: nth_append)
      then show False using assms(2) by simp
    qed
    then have "ys = drop (Suc (length xs)) p @ replicate k c @ r"
      using arg_cong [OF h, of "drop (Suc (length xs))"] by simp
    then show ?thesis by (metis sublist_appendI)
  qed
qed

lemma collapse_newlines_runs:
  "n \<le> 2 \<Longrightarrow> \<not> sublist (replicate 3 (CHR 0x0A)) (replicate n (CHR 0x0A) @ collapse_newlines n s)"
proof (induction n s rule: collapse_newlines.induct)
  case (1 n)
  have "\<not> sublist (replicate 3 (CHR 0x0A)) (replicate n (CHR 0x0A))"
    using 1 sublist_length_le by fastforce
  then show ?case by simp
next
  case (2 n c s)
  show ?case
  proof (cases "c = CHR 0x0A")
    case True
    show ?thesis
    proof (cases "n < 2")
      case n: True
      then show ?thesis using 2 True by (simp add: replicate_app_Cons_same)
    next
      case False
      then show ?thesis using 2 True by simp
    qed
  next
    case False
    have "\<not> sublist (replicate 3 (CHR 0x0A)) (replicate n (CHR 0x0A))"
      using "2.prems" sublist_length_le by fastforce
    moreover have "\<not> sublist (replicate 3 (CHR 0x0A)) (collapse_newlines 0 s)"
      using "2.IH" False by simp
    ultimately show ?thesis
      using False sublist_replicate_apart [of 3 "CHR 0x0A" "replicate n (CHR 0x0A)" c] by auto
  qed
qed

definition plain_text_ok :: "string \<Rightarrow> bool" where
  "plain_text_ok b \<longleftrightarrow> trim_space b = b \<and> CHR 0x0D \<notin> set b \<and> \<not> sublist (replicate 3 (CHR 0x0A)) b"

lemma normalize_plain_text_ok: "plain_text_ok (normalize_plain_text value)"
proof -
  define u where "u = replace_all [CHR 0x0D] [CHR 0x0A] (replace_all [CHR 0x0D, CHR 0x0A] [CHR 0x0A] value)"
  have cr: "CHR 0x0D \<notin> set (collapse_newlines 0 u)"
    using collapse_newlines_set [of 0 u] replace_all_gone [of "CHR 0x0D" "[CHR 0x0A]"] by (auto simp: u_def)
  have runs: "\<not> sublist (replicate 3 (CHR 0x0A)) (collapse_newlines 0 u)"
    using collapse_newlines_runs [of 0 u] by simp
  have sub: "sublist (trim_space (collapse_newlines 0 u)) (collapse_newlines 0 u)"
    using trim_space_removed by (metis sublist_appendI)
  then have "set (trim_space (collapse_newlines 0 u)) \<subseteq> set (collapse_newlines 0 u)" by (rule set_mono_sublist)
  with cr runs sub show ?thesis
    unfolding plain_text_ok_def normalize_plain_text_def u_def [symmetric]
    by (metis subsetD sublist_order.order_trans trim_space_idem)
qed

section \<open>Properties\<close>

text \<open>Whatever HTML a message holds, every tag in the formatted body is one of the allowed ones:
  each less-than sign of it opens or closes an allowed tag, without attributes but for the
  address of a link and the language of a code block.\<close>

lemma formatted_tags_allowed:
  assumes "mc_formatted (normalize_message_body env raw) = pre @ CHR ''<'' # post"
  shows "\<exists>q \<in> set tag_openers. prefix q post"
proof -
  have "tags_ok (mc_formatted (normalize_message_body env raw))"
    using formatted_rendered [of env raw] sanitized_tags_ok trim_tags_ok by (auto simp: tags_ok_free)
  then show ?thesis using assms unfolding tags_ok_def opens_allowed_def list_ex_iff by blast
qed

text \<open>A message with a script, for the examples.\<close>

definition script_env :: html_env where
  "script_env = \<lparr>he_parse = (\<lambda>_. Some (Other_Node [Element_Node ''div'' []
       [Element_Node ''b'' [(''onclick'', ''x'')] [Text_Node ''hi''], Element_Node ''script'' [] [Text_Node ''y'']]])),
     he_unescape = (\<lambda>s. s), he_url_err = (\<lambda>_. False), he_url_host = (\<lambda>_. [])\<rparr>"

lemma script_body: "mc_formatted (normalize_message_body script_env ''<b>hi</b>'') = ''<b>hi</b>''"
proof -
  have html: "looks_like_html ''<b>hi</b>''"
    by (simp add: tag_follows_def re_space_def after_letter_def ascii_letter_def Let_def)
  have fold: "equal_fold ''div'' ''div''" "\<not> equal_fold ''b'' ''img''" by (simp_all add: fold_eval)
  have plain: "trim_space ''<b>hi</b>'' = ''<b>hi</b>''" "trim_space ''hi'' = ''hi''"
    by (simp_all add: trim_space_plain plain_ends_def)
  have low: "to_lower ''b'' = ''b''" "to_lower ''script'' = ''script''"
    by (simp_all add: to_lower_def lower_char_def)
  have normal: "normalize_plain_text ''hi'' = ''hi''" "normalize_plain_text ''<b>hi</b>'' = ''<b>hi</b>''"
    by (simp_all add: normalize_plain_text_def plain)
  have "normalize_html_fragment script_env ''<b>hi</b>'' = Some (''hi'', ''<b>hi</b>'')"
    by (simp add: normalize_html_fragment_def parse_fragment_def script_env_def fold low is_unsafe_tag_def emoticon_text_def
        block_tags_def allowed_formatted_tags_def open_attributes_def html_escape_def escape_char_def normal
        normalize_sanitized_html_def plain Let_def)
  moreover have "he_unescape script_env ''<b>hi</b>'' = ''<b>hi</b>''" by (simp add: script_env_def)
  ultimately show ?thesis
    unfolding normalize_message_body_def by (simp only: normal html Let_def) (simp add: bare_content_def)
qed

lemma formatted_tags_allowed_example:
  "\<exists>q \<in> set tag_openers. prefix q ''b>hi</b>''"
  by (rule formatted_tags_allowed [of script_env "''<b>hi</b>''" "[]"]) (simp add: script_body)

text \<open>C12: The formatted body is made only of line breaks, of text without angle brackets and quotes in which every ampersand starts
  one of five entities, and of elements of 21 tags, each closed, without attributes but for the address of a
  link, escaped alike and with scheme http, https, mailto or matrix, and the language of a code
  block; up to white space at its ends.\<close>

theorem formatted_body_sanitized:
  "\<exists>s. sanitized s \<and> mc_formatted (normalize_message_body env raw) = trim_space s"
  using formatted_rendered [of env raw] Sane_Nil by fastforce

text \<open>The plain body has no white space at its ends, no carriage return and no more than two
  newlines in a row.\<close>

lemma plain_body_normal: "plain_text_ok (mc_body (normalize_message_body env raw))"
proof -
  have "plain_text_ok []" by (simp add: plain_text_ok_def)
  then show ?thesis
    using normalize_plain_text_ok
    by (auto simp: normalize_message_body_def normalize_html_fragment_def bare_content_def Let_def
        split: option.splits prod.splits)
qed

text \<open>The GIFs of a message and its pasted images have each URL once, of scheme http or https, and
  every GIF has a title.\<close>

lemma media_lists_ok: "gifs_ok env (parse_gifs env raw) \<and> images_ok env (parse_inline_images env raw)"
  using collect_gifs_ok(1) [of env "[]"] collect_inline_images_ok(1) [of env "[]"]
  by (auto simp: parse_gifs_def parse_inline_images_def gifs_ok_def images_ok_def split: option.splits)

text \<open>The walks over the document follow document order: the mentions are those of the nodes in
  order, and the replied-to message is the one the first quote with an ID names.\<close>

lemma walks_in_document_order:
  "collect_mentions doc [] = List.map_filter mention_of_node (preorder doc) \<and>
   find_reply_id doc = first_id (map reply_id_of_node (preorder doc))"
  by (simp add: collect_mentions_preorder find_reply_id_preorder)

end
