(* ===== verification/Executor.thy ===== *)
theory Executor
  imports Go_Errors
begin

text \<open>
  The request executor of internal/teams/client/executor.go: attempts, the classification
  of answers, backoff and the retry loop; and the response classifiers of packages client
  and graph, which all have the same shape.

  The HTTP client, the clock, the jitter and the body source are parameters (record
  \<open>exec_env\<close>): what the k-th attempt meets is a function of k.
\<close>

section \<open>Answers and their classification\<close>

record http_response =
  resp_status :: int
  resp_retry_after :: string
  resp_body :: string

definition max_error_body_bytes :: nat where "max_error_body_bytes = 2048"
definition max_upload_error_bytes :: nat where "max_upload_error_bytes = 1024"

text \<open>
  \<open>parseRetryAfter\<close>: seconds, or an HTTP date (\<open>http_time\<close> reads it) still ahead of
  \<open>now\<close>.
\<close>

definition parse_retry_after :: "(string \<Rightarrow> gotime option) \<Rightarrow> gotime \<Rightarrow> string \<Rightarrow> duration" where
  "parse_retry_after http_time now value =
     (if value = [] then 0
      else case (case parse_int64 value of Some s \<Rightarrow> if 0 \<le> s then Some s else None | None \<Rightarrow> None) of
             Some s \<Rightarrow> mul64 s second
           | None \<Rightarrow>
               (case http_time value of
                  Some at \<Rightarrow> if 0 < time_sub at now then time_sub at now else 0
                | None \<Rightarrow> 0))"

text \<open>
  The common classifier: \<open>text\<close> is the \<open>Error()\<close> of the endpoint's own error type,
  \<open>lim\<close> how much of the body it keeps.
\<close>

definition classify_response :: "string \<Rightarrow> nat \<Rightarrow> (string \<Rightarrow> duration) \<Rightarrow> http_response option \<Rightarrow> go_error option" where
  "classify_response text lim retry_after resp =
     (case resp of
        None \<Rightarrow> Some (Plain ''missing response'')
      | Some r \<Rightarrow>
          if 200 \<le> resp_status r \<and> resp_status r < 300 then None
          else if resp_status r = 429
               then Some (Retryable (resp_status r) (retry_after (resp_retry_after r)) None)
          else if 500 \<le> resp_status r then Some (Retryable (resp_status r) 0 None)
          else Some (ApiError text (resp_status r) (take lim (resp_body r))))"

definition classify_teams_send :: "(string \<Rightarrow> duration) \<Rightarrow> http_response option \<Rightarrow> go_error option" where
  "classify_teams_send = classify_response ''send message request failed'' max_error_body_bytes"

definition classify_teams_reaction :: "(string \<Rightarrow> duration) \<Rightarrow> http_response option \<Rightarrow> go_error option" where
  "classify_teams_reaction = classify_response ''reaction request failed'' max_error_body_bytes"

definition classify_teams_receipt :: "(string \<Rightarrow> duration) \<Rightarrow> http_response option \<Rightarrow> go_error option" where
  "classify_teams_receipt = classify_response ''receipt request failed'' max_error_body_bytes"

definition classify_teams_typing :: "(string \<Rightarrow> duration) \<Rightarrow> http_response option \<Rightarrow> go_error option" where
  "classify_teams_typing = classify_response ''typing request failed'' max_error_body_bytes"

definition classify_upload :: "(string \<Rightarrow> duration) \<Rightarrow> http_response option \<Rightarrow> go_error option" where
  "classify_upload = classify_response ''graph upload request failed'' max_upload_error_bytes"

definition classify_upload_session :: "(string \<Rightarrow> duration) \<Rightarrow> http_response option \<Rightarrow> go_error option" where
  "classify_upload_session = classify_response ''graph upload session request failed'' max_upload_error_bytes"

definition classify_get_drive_item :: "(string \<Rightarrow> duration) \<Rightarrow> http_response option \<Rightarrow> go_error option" where
  "classify_get_drive_item = classify_response ''graph drive item request failed'' max_upload_error_bytes"

definition classify_create_link :: "(string \<Rightarrow> duration) \<Rightarrow> http_response option \<Rightarrow> go_error option" where
  "classify_create_link = classify_response ''graph createLink request failed'' 1024"

definition classify_chunk_upload :: "(string \<Rightarrow> duration) \<Rightarrow> http_response option \<Rightarrow> go_error option" where
  "classify_chunk_upload = classify_response ''graph chunk upload request failed'' max_upload_error_bytes"

lemma classify_response_None:
  "classify_response text lim ra resp = None \<longleftrightarrow>
     (\<exists>r. resp = Some r \<and> 200 \<le> resp_status r \<and> resp_status r < 300)"
  by (auto simp: classify_response_def split: option.splits)

lemma classify_response_retryable:
  "(\<exists>e. classify_response text lim ra (Some r) = Some e \<and> retryable_of e \<noteq> None) \<longleftrightarrow>
     resp_status r = 429 \<or> 500 \<le> resp_status r"
  by (auto simp: classify_response_def)

section \<open>Network errors worth a retry\<close>

definition is_dns_error :: "go_error \<Rightarrow> bool" where
  "is_dns_error e \<longleftrightarrow> (\<exists>x \<in> set (chain e). case x of DNSFailure t m \<Rightarrow> True | _ \<Rightarrow> False)"

definition is_tls_error :: "go_error \<Rightarrow> bool" where
  "is_tls_error e \<longleftrightarrow> (\<exists>x \<in> set (chain e). case x of TLSFailure m \<Rightarrow> True | _ \<Rightarrow> False)"

definition is_retryable_network_error :: "go_error option \<Rightarrow> go_error \<Rightarrow> bool" where
  "is_retryable_network_error ctx_err e =
     (if is_canceled e then False
      else if is_deadline e then ctx_err = None
      else if is_tls_error e \<or> is_dns_error e then False
      else (case net_error_of e of Some t \<Rightarrow> t | None \<Rightarrow> False))"

section \<open>The executor\<close>

record executor_config =
  max_retries :: int
  base_backoff :: duration
  max_backoff :: duration

text \<open>
  The request body: none, one that cannot be read again (no \<open>GetBody\<close>), or one that can,
  where getting it the k-th time may fail.
\<close>

datatype request_body = NoBody | BodyOnce | BodyAgain "nat \<Rightarrow> go_error option"

datatype http_outcome = NoAnswer go_error | Answered http_response

record exec_env =
  env_ctx :: "nat \<Rightarrow> go_error option"
  env_ctx_after :: "nat \<Rightarrow> go_error option"
  env_send :: "nat \<Rightarrow> http_outcome"
  env_sleep :: "nat \<Rightarrow> duration \<Rightarrow> go_error option"
  env_jitter :: "nat \<Rightarrow> duration \<Rightarrow> duration"

text \<open>What \<open>Do\<close> returns, with the number of requests sent and the pauses asked for.\<close>

record exec_result =
  er_resp :: "http_response option"
  er_err :: "go_error option"
  er_sent :: nat
  er_pauses :: "duration list"

definition request_for_attempt :: "request_body \<Rightarrow> nat \<Rightarrow> go_error option" where
  "request_for_attempt rb attempt =
     (case rb of
        NoBody \<Rightarrow> None
      | BodyOnce \<Rightarrow> if attempt = 1 then None
                    else Some (Plain ''request body cannot be retried without GetBody'')
      | BodyAgain get \<Rightarrow> get attempt)"

text \<open>The backoff before jitter, then jitter.\<close>

definition raw_backoff :: "duration \<Rightarrow> duration \<Rightarrow> nat \<Rightarrow> duration" where
  "raw_backoff base mx retry =
     (let b = (if 1 < retry then mul64 base (shl64 1 (retry - 1)) else base)
      in if mx < b then mx else b)"

definition compute_backoff :: "(duration \<Rightarrow> duration) \<Rightarrow> duration \<Rightarrow> duration \<Rightarrow> nat \<Rightarrow> duration" where
  "compute_backoff jitter base mx retry = jitter (raw_backoff base mx retry)"

definition eff_retries :: "executor_config \<Rightarrow> nat" where
  "eff_retries c = (if max_retries c < 0 then 0 else nat (max_retries c))"

definition eff_base :: "executor_config \<Rightarrow> duration" where
  "eff_base c = (if base_backoff c \<le> 0 then 500 * millisecond else base_backoff c)"

definition eff_max :: "executor_config \<Rightarrow> duration" where
  "eff_max c = (if max_backoff c \<le> 0 then 10 * second else max_backoff c)"

definition finish :: "http_response option \<Rightarrow> go_error option \<Rightarrow> nat \<Rightarrow> exec_result" where
  "finish resp err sent = \<lparr>er_resp = resp, er_err = err, er_sent = sent, er_pauses = []\<rparr>"

definition pause_first :: "duration \<Rightarrow> exec_result \<Rightarrow> exec_result" where
  "pause_first d r = r\<lparr>er_pauses := d # er_pauses r\<rparr>"

text \<open>
  The loop of \<open>Do\<close>, entered with \<open>retries\<close> retries used.
\<close>

function exec_loop ::
  "executor_config \<Rightarrow> exec_env \<Rightarrow> request_body \<Rightarrow> (http_response option \<Rightarrow> go_error option) \<Rightarrow> nat \<Rightarrow> exec_result" where
  "exec_loop c env rb classify retries =
     (case env_ctx env (Suc retries) of
        Some e \<Rightarrow> finish None (Some e) retries
      | None \<Rightarrow>
      (case request_for_attempt rb (Suc retries) of
         Some e \<Rightarrow> finish None (Some e) retries
       | None \<Rightarrow>
       (case env_send env (Suc retries) of
          NoAnswer e \<Rightarrow>
            if is_retryable_network_error (env_ctx_after env (Suc retries)) e \<and> retries < eff_retries c
            then (let d = compute_backoff (env_jitter env (Suc retries)) (eff_base c) (eff_max c) (Suc retries) in
                  case env_sleep env (Suc retries) d of
                    Some e' \<Rightarrow> pause_first d (finish None (Some e') (Suc retries))
                  | None \<Rightarrow> pause_first d (exec_loop c env rb classify (Suc retries)))
            else finish None (Some e) (Suc retries)
        | Answered r \<Rightarrow>
            (case classify (Some r) of
               None \<Rightarrow> finish (Some r) None (Suc retries)
             | Some e \<Rightarrow>
                 (case retryable_of e of
                    None \<Rightarrow> finish (Some r) (Some e) (Suc retries)
                  | Some (_, retry_after) \<Rightarrow>
                      if retries < eff_retries c
                      then (let d = (if retry_after \<le> 0
                                     then compute_backoff (env_jitter env (Suc retries)) (eff_base c) (eff_max c) (Suc retries)
                                     else retry_after) in
                            case env_sleep env (Suc retries) d of
                              Some e' \<Rightarrow> pause_first d (finish None (Some e') (Suc retries))
                            | None \<Rightarrow> pause_first d (exec_loop c env rb classify (Suc retries)))
                      else finish (Some r) (Some e) (Suc retries))))))"
  by pat_completeness auto
termination
  by (relation "measure (\<lambda>(c, env, rb, classify, retries). eff_retries c - retries)") auto

declare exec_loop.simps [simp del]

text \<open>\<open>Do\<close>: \<open>None\<close> for the configuration is a nil executor or one without HTTP client.\<close>

definition executor_do ::
  "executor_config option \<Rightarrow> exec_env \<Rightarrow> request_body option \<Rightarrow>
   (http_response option \<Rightarrow> go_error option) option \<Rightarrow> exec_result" where
  "executor_do co env rbo clo =
     (case co of
        None \<Rightarrow> finish None (Some (Plain ''consumer client missing http client'')) 0
      | Some c \<Rightarrow>
          (case rbo of
             None \<Rightarrow> finish None (Some (Plain ''missing request'')) 0
           | Some rb \<Rightarrow>
               (case clo of
                  None \<Rightarrow> finish None (Some (Plain ''missing response classifier'')) 0
                | Some classify \<Rightarrow> exec_loop c env rb classify 0)))"

lemma finish_simps [simp]:
  "er_resp (finish r e n) = r" "er_err (finish r e n) = e"
  "er_sent (finish r e n) = n" "er_pauses (finish r e n) = []"
  by (simp_all add: finish_def)

lemma pause_first_simps [simp]:
  "er_resp (pause_first d x) = er_resp x" "er_err (pause_first d x) = er_err x"
  "er_sent (pause_first d x) = er_sent x" "er_pauses (pause_first d x) = d # er_pauses x"
  by (simp_all add: pause_first_def)

section \<open>Properties of the loop\<close>

text \<open>The outcome of one attempt, as the loop sees it.\<close>

datatype attempt_verdict = Succeeds http_response | Retries duration | Fails

definition verdict ::
  "executor_config \<Rightarrow> exec_env \<Rightarrow> (http_response option \<Rightarrow> go_error option) \<Rightarrow> nat \<Rightarrow> attempt_verdict" where
  "verdict c env classify k =
     (let pause = compute_backoff (env_jitter env k) (eff_base c) (eff_max c) k in
      case env_send env k of
        NoAnswer e \<Rightarrow>
          if is_retryable_network_error (env_ctx_after env k) e then Retries pause else Fails
      | Answered r \<Rightarrow>
          (case classify (Some r) of
             None \<Rightarrow> Succeeds r
           | Some e \<Rightarrow>
               (case retryable_of e of
                  None \<Rightarrow> Fails
                | Some (_, ra) \<Rightarrow> Retries (if ra \<le> 0 then pause else ra))))"

definition undisturbed :: "exec_env \<Rightarrow> request_body \<Rightarrow> bool" where
  "undisturbed env rb \<longleftrightarrow>
     (\<forall>k. env_ctx env k = None \<and> request_for_attempt rb k = None \<and> (\<forall>d. env_sleep env k d = None))"

lemma exec_loop_retry:
  assumes "undisturbed env rb" and "verdict c env classify (Suc n) = Retries d" and "n < eff_retries c"
  shows "exec_loop c env rb classify n = pause_first d (exec_loop c env rb classify (Suc n))"
  using assms
  by (subst exec_loop.simps)
     (auto simp: undisturbed_def verdict_def Let_def split: http_outcome.splits option.splits if_splits)

lemma exec_loop_success:
  assumes "undisturbed env rb" and "verdict c env classify (Suc n) = Succeeds r"
  shows "exec_loop c env rb classify n = finish (Some r) None (Suc n)"
  using assms
  by (subst exec_loop.simps)
     (auto simp: undisturbed_def verdict_def Let_def split: http_outcome.splits option.splits if_splits)

text \<open>
  One turn of the loop either ends it (\<open>ends\<close>), or is followed by a pause after which the
  context has ended or the next turn comes.
\<close>

definition ends :: "(http_response option \<Rightarrow> go_error option) \<Rightarrow> nat \<Rightarrow> exec_result \<Rightarrow> bool" where
  "ends classify n x \<longleftrightarrow> er_pauses x = [] \<and> n \<le> er_sent x \<and> er_sent x \<le> Suc n \<and>
     (er_err x = None \<longrightarrow> (\<exists>r. er_resp x = Some r \<and> classify (Some r) = None))"

definition cut_short :: "nat \<Rightarrow> exec_result \<Rightarrow> bool" where
  "cut_short n x \<longleftrightarrow> er_pauses x = [] \<and> er_sent x = Suc n \<and> er_err x \<noteq> None"

lemma ends_finish_err: "m = n \<or> m = Suc n \<Longrightarrow> ends classify n (finish r (Some e) m)"
  by (auto simp: ends_def)

lemma ends_finish_ok: "classify (Some r) = None \<Longrightarrow> ends classify n (finish (Some r) None (Suc n))"
  by (simp add: ends_def)

lemma cut_short_finish: "cut_short n (finish None (Some e) (Suc n))"
  by (simp add: cut_short_def)

lemma exec_loop_turn:
  obtains (ended) "ends classify n (exec_loop c env rb classify n)"
  | (again) d x where "n < eff_retries c" "exec_loop c env rb classify n = pause_first d x"
      "cut_short n x \<or> x = exec_loop c env rb classify (Suc n)"
proof -
  let ?X = "exec_loop c env rb classify n"
  note un = exec_loop.simps [of c env rb classify n]
  have "ends classify n ?X \<or> (n < eff_retries c \<and>
     (\<exists>d x. ?X = pause_first d x \<and> (cut_short n x \<or> x = exec_loop c env rb classify (Suc n))))"
  proof (cases "env_ctx env (Suc n) = None \<and> request_for_attempt rb (Suc n) = None")
    case False
    then show ?thesis by (auto simp: un ends_finish_err split: option.splits)
  next
    case go: True
    have slept: "\<exists>d' x. (case env_sleep env (Suc n) d of
        Some e' \<Rightarrow> pause_first d (finish None (Some e') (Suc n))
      | None \<Rightarrow> pause_first d (exec_loop c env rb classify (Suc n))) = pause_first d' x \<and>
        (cut_short n x \<or> x = exec_loop c env rb classify (Suc n))" for d
      by (cases "env_sleep env (Suc n) d") (auto intro: cut_short_finish)
    show ?thesis
    proof (cases "env_send env (Suc n)")
      case (NoAnswer e)
      then show ?thesis using go slept by (simp add: un ends_finish_err Let_def)
    next
      case (Answered r)
      show ?thesis
      proof (cases "classify (Some r)")
        case None
        with go Answered show ?thesis by (simp add: un ends_finish_ok)
      next
        case (Some e)
        show ?thesis
        proof (cases "retryable_of e = None \<or> \<not> n < eff_retries c")
          case True
          then show ?thesis using go Answered Some
            by (auto simp: un ends_finish_err Let_def split: option.splits)
        next
          case False
          then show ?thesis using go Answered Some slept
            by (auto simp: un Let_def split: option.splits)
        qed
      qed
    qed
  qed
  then show thesis using that by blast
qed

lemma exec_loop_sent:
  "n \<le> eff_retries c \<Longrightarrow>
   er_sent (exec_loop c env rb classify n) \<le> Suc (eff_retries c) \<and>
   length (er_pauses (exec_loop c env rb classify n)) + n \<le> er_sent (exec_loop c env rb classify n)"
proof (induction "eff_retries c - n" arbitrary: n)
  case 0
  then show ?case
    by (cases rule: exec_loop_turn [of classify n c env rb]) (auto simp: ends_def)
next
  case (Suc m)
  then have "er_sent (exec_loop c env rb classify (Suc n)) \<le> Suc (eff_retries c) \<and>
     length (er_pauses (exec_loop c env rb classify (Suc n))) + Suc n \<le> er_sent (exec_loop c env rb classify (Suc n))"
    by (intro Suc.hyps(1)) auto
  with Suc.prems show ?case
    by (cases rule: exec_loop_turn [of classify n c env rb]) (auto simp: ends_def cut_short_def)
qed

text \<open>A response comes back without an error only when the classifier accepted it.\<close>

lemma exec_loop_accepted:
  "n \<le> eff_retries c \<Longrightarrow> er_err (exec_loop c env rb classify n) = None \<Longrightarrow>
   \<exists>r. er_resp (exec_loop c env rb classify n) = Some r \<and> classify (Some r) = None"
proof (induction "eff_retries c - n" arbitrary: n)
  case 0
  then show ?case
    by (cases rule: exec_loop_turn [of classify n c env rb]) (auto simp: ends_def)
next
  case (Suc m)
  have IH: "er_err (exec_loop c env rb classify (Suc n)) = None \<Longrightarrow>
     \<exists>r. er_resp (exec_loop c env rb classify (Suc n)) = Some r \<and> classify (Some r) = None"
    using Suc.hyps(2) by (intro Suc.hyps(1)) auto
  show ?case
    using Suc.prems IH
    by (cases rule: exec_loop_turn [of classify n c env rb]) (auto simp: ends_def cut_short_def)
qed

lemma exec_loop_first_success:
  assumes "undisturbed env rb"
    and "\<And>k. retries < k \<Longrightarrow> k < n \<Longrightarrow> verdict c env classify k = Retries (d k)"
    and "verdict c env classify n = Succeeds r"
    and "retries < n" and "n \<le> Suc (eff_retries c)"
  shows "exec_loop c env rb classify retries =
    \<lparr>er_resp = Some r, er_err = None, er_sent = n, er_pauses = map d [Suc retries..<n]\<rparr>"
  using assms(2-)
proof (induction "n - retries" arbitrary: retries)
  case (Suc m)
  show ?case
  proof (cases "Suc retries = n")
    case True
    then show ?thesis using exec_loop_success [OF assms(1)] Suc.prems by (simp add: finish_def)
  next
    case False
    with Suc.prems(3) have lt: "Suc retries < n" by simp
    have v: "verdict c env classify (Suc retries) = Retries (d (Suc retries))"
      using Suc.prems(1) lt by simp
    have "exec_loop c env rb classify (Suc retries) =
      \<lparr>er_resp = Some r, er_err = None, er_sent = n, er_pauses = map d [Suc (Suc retries)..<n]\<rparr>"
      using Suc.prems Suc.hyps(2) lt by (intro Suc.hyps(1)) auto
    moreover have "retries < eff_retries c" using lt Suc.prems(4) by simp
    ultimately show ?thesis
      using exec_loop_retry [OF assms(1) v] lt
      by (simp add: pause_first_def upt_conv_Cons)
  qed
qed simp

text \<open>When every attempt asks for a retry, all of them are used and the last answer comes back.\<close>

lemma exec_loop_exhausted:
  assumes "undisturbed env rb"
    and "\<And>k. 0 < k \<Longrightarrow> verdict c env classify k = Retries (d k)"
    and "retries \<le> eff_retries c"
  shows "er_sent (exec_loop c env rb classify retries) = Suc (eff_retries c) \<and>
         er_pauses (exec_loop c env rb classify retries) = map d [Suc retries..<Suc (eff_retries c)] \<and>
         er_err (exec_loop c env rb classify retries) \<noteq> None"
  using assms(3)
proof (induction "eff_retries c - retries" arbitrary: retries)
  case 0
  then have eq: "retries = eff_retries c" by simp
  have v: "verdict c env classify (Suc retries) = Retries (d (Suc retries))" by (simp add: assms(2))
  show ?case
    using v assms(1) eq
    by (subst (1 2 3) exec_loop.simps)
       (auto simp: undisturbed_def verdict_def Let_def split: http_outcome.splits option.splits if_splits)
next
  case (Suc m)
  then have lt: "retries < eff_retries c" by simp
  have "er_sent (exec_loop c env rb classify (Suc retries)) = Suc (eff_retries c) \<and>
         er_pauses (exec_loop c env rb classify (Suc retries)) = map d [Suc (Suc retries)..<Suc (eff_retries c)] \<and>
         er_err (exec_loop c env rb classify (Suc retries)) \<noteq> None"
    using Suc lt by (intro Suc.hyps(1)) auto
  then show ?case
    using exec_loop_retry [OF assms(1) assms(2) lt] lt
    by (simp add: upt_conv_Cons del: upt_Suc)
qed

text \<open>The default configuration of every endpoint: four retries, 500 ms doubling to 10 s.\<close>

definition default_config :: executor_config where
  "default_config = \<lparr>max_retries = 4, base_backoff = 500 * millisecond, max_backoff = 10 * second\<rparr>"

lemma raw_backoff_eq:
  assumes "0 < n" and "n \<le> 34" and "0 < base" and "base \<le> 500 * millisecond"
  shows "raw_backoff base mx n = min (base * 2 ^ (n - 1)) mx"
proof -
  have "(2 :: int) ^ (n - 1) \<le> 2 ^ 33" using assms by (intro power_increasing) auto
  then have "int64_ok (base * 2 ^ (n - 1))"
    using assms by (intro int64_ok_mult [where y = "2 ^ 33"]) auto
  then have "mul64 base (shl64 1 (n - 1)) = base * 2 ^ (n - 1)"
    by (simp add: mul64_shl64 wrap64_id)
  moreover have "base = base * 2 ^ (n - 1)" if "\<not> 1 < n" using that assms by simp
  ultimately show ?thesis by (auto simp: raw_backoff_def Let_def min_def)
qed

interpretation exec_bo: capped_doubling "raw_backoff (eff_base default_config) (eff_max default_config)"
  "500 * millisecond" "10 * second" "\<lambda>n. n \<le> 34"
  by unfold_locales (simp_all add: default_config_def eff_base_def eff_max_def raw_backoff_eq)

section \<open>Properties\<close>

text \<open>C19: The executor ends, within its retries, and is honest: it sends at most one request more than the
  retries it is configured with, pausing at most once after each, and returns without an error only an
  answer the classifier accepts.  When nothing disturbs it, the first attempt that succeeds is the answer,
  with one pause before each retry, as long as the attempts before it may be retried; and when all may be,
  every retry is used and the result is an error.\<close>

theorem executor_attempts:
  fixes c env rb classify
  defines "x \<equiv> executor_do (Some c) env (Some rb) (Some classify)"
  shows "er_sent x \<le> Suc (eff_retries c) \<and> length (er_pauses x) \<le> er_sent x \<and>
    (er_err x = None \<longrightarrow> (\<exists>r. er_resp x = Some r \<and> classify (Some r) = None)) \<and>
    (\<forall>n r d. undisturbed env rb \<and> 0 < n \<and> n \<le> Suc (eff_retries c) \<and>
        (\<forall>k. 0 < k \<and> k < n \<longrightarrow> verdict c env classify k = Retries (d k)) \<and> verdict c env classify n = Succeeds r \<longrightarrow>
      x = \<lparr>er_resp = Some r, er_err = None, er_sent = n, er_pauses = map d [1..<n]\<rparr>) \<and>
    (\<forall>d. undisturbed env rb \<and> (\<forall>k. 0 < k \<longrightarrow> verdict c env classify k = Retries (d k)) \<longrightarrow>
      er_sent x = Suc (eff_retries c) \<and> er_pauses x = map d [1..<Suc (eff_retries c)] \<and> er_err x \<noteq> None)"
proof -
  have x: "x = exec_loop c env rb classify 0" by (simp add: x_def executor_do_def)
  have "er_sent x \<le> Suc (eff_retries c)" "length (er_pauses x) \<le> er_sent x"
    using exec_loop_sent [of 0 c env rb classify] by (simp_all add: x)
  moreover have "er_err x = None \<longrightarrow> (\<exists>r. er_resp x = Some r \<and> classify (Some r) = None)"
    using exec_loop_accepted [of 0 c env rb classify] by (simp add: x)
  moreover have "x = \<lparr>er_resp = Some r, er_err = None, er_sent = n, er_pauses = map d [1..<n]\<rparr>"
    if "undisturbed env rb" "0 < n" "n \<le> Suc (eff_retries c)"
      "\<forall>k. 0 < k \<and> k < n \<longrightarrow> verdict c env classify k = Retries (d k)" "verdict c env classify n = Succeeds r" for n r d
    using exec_loop_first_success [of env rb 0 n c classify d r] that by (simp add: x)
  moreover have "er_sent x = Suc (eff_retries c) \<and> er_pauses x = map d [1..<Suc (eff_retries c)] \<and> er_err x \<noteq> None"
    if "undisturbed env rb" "\<forall>k. 0 < k \<longrightarrow> verdict c env classify k = Retries (d k)" for d
    using exec_loop_exhausted [of env rb c classify d 0] that by (simp add: x)
  ultimately show ?thesis by blast
qed

text \<open>An endpoint that is busy once: one pause of the 500 ms the jitter leaves, then the answer.\<close>

definition busy_once :: exec_env where
  "busy_once = \<lparr>env_ctx = (\<lambda>_. None), env_ctx_after = (\<lambda>_. None),
     env_send = (\<lambda>k. Answered \<lparr>resp_status = (if k = 1 then 503 else 200), resp_retry_after = [], resp_body = []\<rparr>),
     env_sleep = (\<lambda>_ _. None), env_jitter = (\<lambda>_ d. d)\<rparr>"

theorem executor_attempts_witness:
  "er_sent (executor_do (Some default_config) busy_once (Some NoBody) (Some (classify_teams_send (\<lambda>_. 0)))) = 2"
proof -
  let ?cl = "classify_teams_send (\<lambda>_. 0)"
  have u: "undisturbed busy_once NoBody" by (simp add: undisturbed_def busy_once_def request_for_attempt_def)
  have v: "verdict default_config busy_once ?cl 1 = Retries (500 * millisecond)"
    "verdict default_config busy_once ?cl 2 = Succeeds \<lparr>resp_status = 200, resp_retry_after = [], resp_body = []\<rparr>"
    by (simp_all add: verdict_def busy_once_def classify_teams_send_def classify_response_def compute_backoff_def
        raw_backoff_def default_config_def eff_base_def eff_max_def)
  have "eff_retries default_config = 4" by (simp add: eff_retries_def default_config_def)
  then have "executor_do (Some default_config) busy_once (Some NoBody) (Some ?cl) =
      \<lparr>er_resp = Some \<lparr>resp_status = 200, resp_retry_after = [], resp_body = []\<rparr>, er_err = None, er_sent = 2,
       er_pauses = map (\<lambda>_. 500 * millisecond) [1..<2]\<rparr>"
    using executor_attempts [of default_config busy_once NoBody ?cl] u v
    by (metis (no_types, lifting) less_2_cases_iff less_Suc_eq_le numeral_le_iff less_numeral_extra(1,3)
        numeral_2_eq_2 One_nat_def Suc_leI zero_less_Suc semiring_norm(69) le_numeral_extra(4) zero_less_numeral)
  then show ?thesis by simp
qed

end
