(* ===== verification/Go_Url.thy ===== *)
theory Go_Url
  imports Go_Prelude
begin

text \<open>
  What the requests use of \<open>net/url\<close> and \<open>strings\<close> to build their addresses: the two escapes,
  \<open>url.Values.Encode\<close>, and the trims of slashes.
\<close>

text \<open>\<open>url.PathEscape\<close> and \<open>url.QueryEscape\<close>.\<close>

definition unreserved :: "char \<Rightarrow> bool" where
  "unreserved c \<longleftrightarrow> ascii_letter c \<or> c \<in> set ''0123456789-_.~''"

definition hex_digit :: "nat \<Rightarrow> char" where
  "hex_digit n = (if n < 10 then char_of (48 + n) else char_of (55 + n))"

definition percent :: "char \<Rightarrow> string" where
  "percent c = (let n = (of_char c :: nat) in [CHR ''%'', hex_digit (n div 16), hex_digit (n mod 16)])"

definition path_escape :: "string \<Rightarrow> string" where
  "path_escape s = concat (map (\<lambda>c. if unreserved c \<or> c \<in> set ''$&+=:@'' then [c] else percent c) s)"

definition query_escape :: "string \<Rightarrow> string" where
  "query_escape s =
     concat (map (\<lambda>c. if unreserved c then [c] else if c = CHR '' '' then ''+'' else percent c) s)"

definition trim_suffix :: "string \<Rightarrow> string \<Rightarrow> string" where
  "trim_suffix s t = (if suffix t s then take (length s - length t) s else s)"

definition trim_right_char :: "char \<Rightarrow> string \<Rightarrow> string" where
  "trim_right_char c s = rev (dropWhile (\<lambda>x. x = c) (rev s))"

text \<open>\<open>Encode\<close> of values with one entry for a key; the keys come sorted.\<close>

definition encode_query :: "(string \<times> string) list \<Rightarrow> string" where
  "encode_query kvs = join_with ''&'' (map (\<lambda>(k, v). query_escape k @ ''='' @ query_escape v) kvs)"

text \<open>An escape leaves nothing that ends a path segment or starts a query.\<close>

lemma percent_clean: "set (percent c) \<inter> set ''/?#'' = {}"
proof -
  have "\<forall>n \<in> set [0..<16]. hex_digit n \<notin> set ''/?#''" by code_simp
  then have "hex_digit n \<notin> set ''/?#''" if "n < 16" for n using that by simp
  moreover have "(of_char c :: nat) < 256" by simp
  then have "(of_char c :: nat) div 16 < 16" "(of_char c :: nat) mod 16 < 16" by (simp_all add: less_mult_imp_div_less)
  ultimately show ?thesis by (auto simp: percent_def Let_def)
qed

lemma path_escape_clean: "set (path_escape s) \<inter> set ''/?#'' = {}"
  using percent_clean by (fastforce simp: path_escape_def unreserved_def ascii_letter_def split: if_splits)

end
