(* ===== verification/List_Messages.thy ===== *)
theory List_Messages
  imports Html_Content Executor Remote_Events Go_Url "HOL-Library.Multiset"
begin

text \<open>
  Reading messages (internal/teams/client/messages.go): the conversion of a raw message, the
  pages of \<open>ListMessages\<close> back to the caller's cursor, the pages of
  \<open>ListMessagesPaginated\<close> for history, and the request and the answer of one page.

  What the messages endpoint answers is a parameter: a function of the page's number and of
  the start time asked for.  \<open>sort.Slice\<close> is a parameter too, as it is no stable sort.
\<close>

section \<open>Raw messages\<close>

record raw_message =
  rm_id :: string
  rm_client_id :: string
  rm_sequence :: "json option"
  rm_arrival :: string
  rm_from :: "json option"
  rm_im_name :: string
  rm_token_name :: string
  rm_content :: "json option"
  rm_properties :: "json option"
  rm_type :: string
  rm_edited :: string
  rm_compose_time :: string
  rm_link :: string

text \<open>The decoders of the standard library, and the time layouts.\<close>

record decode_env =
  de_html :: html_env
  de_json :: "string \<Rightarrow> json option"
  de_json_text :: "json \<Rightarrow> string"
  de_float :: "string \<Rightarrow> int option"
  de_time :: "string \<Rightarrow> string \<Rightarrow> gotime option"

definition layout_nano :: string where "layout_nano = ''2006-01-02T15:04:05.999999999Z07:00''"
definition layout_seconds :: string where "layout_seconds = ''2006-01-02T15:04:05Z07:00''"

definition parse_timestamp :: "decode_env \<Rightarrow> string \<Rightarrow> gotime" where
  "parse_timestamp env value =
     (if value = [] then zero_time
      else (case de_time env layout_nano value of
              Some t \<Rightarrow> t
            | None \<Rightarrow> (case de_time env layout_seconds value of Some t \<Rightarrow> t | None \<Rightarrow> zero_time)))"

text \<open>\<open>normalizeSequenceID\<close>: a string or a number as it is written; null and nothing are empty.\<close>

definition normalize_sequence_id :: "json option \<Rightarrow> go_error + string" where
  "normalize_sequence_id value =
     (case value of
        None \<Rightarrow> Inr []
      | Some (JStr s) \<Rightarrow> Inr s
      | Some JNull \<Rightarrow> Inr []
      | Some (JNum n) \<Rightarrow> Inr n
      | Some _ \<Rightarrow> Inl (Plain ''invalid sequenceId''))"

text \<open>The message, or \<open>None\<close> for a duplicate; and the IDs seen.\<close>

definition convert_remote_message ::
  "decode_env \<Rightarrow> raw_message \<Rightarrow> string list \<Rightarrow> go_error + (remote_message option \<times> string list)" where
  "convert_remote_message env msg seen =
     (let i = trim_space (rm_id msg) in
      if i \<noteq> [] \<and> i \<in> set seen then Inr (None, seen)
      else (let seen1 = (if i \<noteq> [] then i # seen else seen) in
            case normalize_sequence_id (rm_sequence msg) of
              Inl e \<Rightarrow> Inl e
            | Inr sid \<Rightarrow>
                (let content = extract_content (de_html env) (rm_content msg);
                     body_raw = (case rm_content msg of
                                   Some (JStr s) \<Rightarrow> s
                                 | Some JNull \<Rightarrow> []
                                 | _ \<Rightarrow> mc_body content);
                     mentions = resolve_mentions (parse_mentions (de_html env) body_raw)
                                  (extract_mention_mris (de_json env) (rm_properties msg)) in
                 Inr (Some \<lparr>message_id = rm_id msg, client_message_id = rm_client_id msg, sequence_id = sid,
                    sender_id = normalize_teams_user_id (extract_sender_id (rm_from msg)), sender_name = [],
                    im_display_name = rm_im_name msg, token_display_name = rm_token_name msg,
                    msg_timestamp = parse_timestamp env (rm_arrival msg),
                    msg_body = mc_body content, formatted_body = mc_formatted content, raw_content = body_raw,
                    msg_gifs = mc_gifs content, inline_images = mc_images content,
                    properties_files = extract_files_property (de_json_text env) (rm_properties msg),
                    properties_raw = rm_properties msg,
                    msg_reactions = extract_reactions (de_float env) (rm_properties msg),
                    message_type = trim_space (rm_type msg), skype_edited_id = trim_space (rm_edited msg),
                    reply_to_id = extract_reply_to_id (de_html env) (rm_content msg),
                    thread_root_id = resolve_thread_root_id (rm_link msg) (rm_properties msg),
                    msg_mentions = mentions\<rparr>, seen1))))"

section \<open>One page\<close>

definition default_messages_url :: string where
  "default_messages_url = ''https://msgapi.teams.live.com/v1/users/ME/conversations''"

definition messages_page_url :: "string \<Rightarrow> string \<Rightarrow> int \<Rightarrow> string \<Rightarrow> string" where
  "messages_page_url base0 conversation page_size start_time =
     (let base = trim_suffix (if base0 = [] then default_messages_url else base0) ''/'';
          url = base @ ''/'' @ path_escape conversation @ ''/messages?pageSize='' @ show_int page_size in
      if start_time \<noteq> [] then url @ ''&startTime='' @ query_escape start_time else url)"

text \<open>\<open>fetchJSON\<close>: \<open>decode\<close> unmarshals the body of a 2xx answer.\<close>

definition fetch_json ::
  "(string \<Rightarrow> duration) \<Rightarrow> (string \<Rightarrow> go_error + 'a) \<Rightarrow> http_outcome \<Rightarrow> go_error + 'a" where
  "fetch_json retry_after decode outcome =
     (case outcome of
        NoAnswer e \<Rightarrow> Inl e
      | Answered r \<Rightarrow>
          if resp_status r < 200 \<or> 300 \<le> resp_status r
          then Inl (if resp_status r = 429 then Retryable (resp_status r) (retry_after (resp_retry_after r)) None
                    else if 500 \<le> resp_status r then Retryable (resp_status r) 0 None
                    else MessagesError (resp_status r) (take max_error_body_bytes (resp_body r)))
          else decode (resp_body r))"

section \<open>Listing back to a cursor\<close>

text \<open>What the inner loop carries: messages, IDs seen, whether the cursor was reached, the oldest
  timestamp and how many messages of the page are new.\<close>

record page_scan =
  ps_result :: "remote_message list"
  ps_seen :: "string list"
  ps_reached :: bool
  ps_oldest :: string
  ps_batch :: nat

definition older_of :: "string \<Rightarrow> remote_message \<Rightarrow> string" where
  "older_of oldest m =
     (if is_zero_time (msg_timestamp m) then oldest
      else (let t = format_millis (msg_timestamp m) in
            if oldest = [] \<or> byte_compare t oldest < 0 then t else oldest))"

fun scan_page :: "decode_env \<Rightarrow> string \<Rightarrow> raw_message list \<Rightarrow> page_scan \<Rightarrow> go_error + page_scan" where
  "scan_page env since [] p = Inr p"
| "scan_page env since (msg # msgs) p =
     (case convert_remote_message env msg (ps_seen p) of
        Inl e \<Rightarrow> Inl e
      | Inr (None, seen) \<Rightarrow> scan_page env since msgs (p\<lparr>ps_seen := seen\<rparr>)
      | Inr (Some m, seen) \<Rightarrow>
          scan_page env since msgs
            \<lparr>ps_result = ps_result p @ [m], ps_seen = seen,
             ps_reached = (ps_reached p \<or> since \<noteq> [] \<and> compare_sequence_id (sequence_id m) since \<le> 0),
             ps_oldest = older_of (ps_oldest p) m, ps_batch = Suc (ps_batch p)\<rparr>)"

definition max_catchup_pages :: nat where "max_catchup_pages = 10"

text \<open>\<open>fuel\<close> is the pages left of \<open>listMessagesMaxCatchupPages\<close>; \<open>page\<close> the number of this one.\<close>

fun list_pages ::
  "decode_env \<Rightarrow> (nat \<Rightarrow> string \<Rightarrow> go_error + raw_message list) \<Rightarrow> string \<Rightarrow> nat \<Rightarrow> nat \<Rightarrow> nat \<Rightarrow> string \<Rightarrow>
   remote_message list \<Rightarrow> string list \<Rightarrow> go_error + remote_message list" where
  "list_pages env fetch since psize 0 page cursor result seen = Inr result"
| "list_pages env fetch since psize (Suc fuel) page cursor result seen =
     (case fetch page cursor of
        Inl e \<Rightarrow> if 0 < page then Inr result else Inl e
      | Inr payload \<Rightarrow>
          if payload = [] then Inr result
          else (case scan_page env since payload
                       \<lparr>ps_result = result, ps_seen = seen, ps_reached = (since = []), ps_oldest = [], ps_batch = 0\<rparr> of
                  Inl e \<Rightarrow> Inl e
                | Inr p \<Rightarrow>
                    if ps_reached p \<or> ps_batch p < psize \<or> ps_oldest p = [] then Inr (ps_result p)
                    else list_pages env fetch since psize fuel (Suc page) (ps_oldest p) (ps_result p) (ps_seen p)))"

text \<open>\<open>has_http\<close>: the client has one; \<open>page_size\<close> is \<open>listMessagesPageSize\<close>.\<close>

definition list_messages ::
  "decode_env \<Rightarrow> bool \<Rightarrow> string \<Rightarrow> int \<Rightarrow> (remote_message list \<Rightarrow> remote_message list) \<Rightarrow>
   (nat \<Rightarrow> string \<Rightarrow> go_error + raw_message list) \<Rightarrow> string \<Rightarrow> string \<Rightarrow> go_error + remote_message list" where
  "list_messages env has_http token page_size srt fetch conversation since0 =
     (if \<not> has_http then Inl (Plain ''consumer client missing http client'')
      else if token = [] then Inl (Plain ''consumer client missing skypetoken'')
      else if conversation = [] then Inl (Plain ''missing conversation id'')
      else (let since = trim_space since0;
                psize = (if page_size \<le> 0 then 200 else nat page_size) in
            map_sum id srt (list_pages env fetch since psize max_catchup_pages 0 [] [] [])))"

definition get_message ::
  "decode_env \<Rightarrow> bool \<Rightarrow> string \<Rightarrow> int \<Rightarrow> (remote_message list \<Rightarrow> remote_message list) \<Rightarrow>
   (nat \<Rightarrow> string \<Rightarrow> go_error + raw_message list) \<Rightarrow> string \<Rightarrow> string \<Rightarrow> go_error + remote_message" where
  "get_message env has_http token page_size srt fetch conversation0 message0 =
     (if \<not> has_http then Inl (Plain ''consumer client missing http client'')
      else if token = [] then Inl (Plain ''consumer client missing skypetoken'')
      else (let conversation = trim_space conversation0; i = trim_space message0 in
            if conversation = [] \<or> i = [] then Inl (Plain ''missing conversation or message id'')
            else (case list_messages env has_http token page_size srt fetch conversation [] of
                    Inl e \<Rightarrow> Inl e
                  | Inr ms \<Rightarrow>
                      (case find (\<lambda>m. message_id m = i) ms of
                         Some m \<Rightarrow> Inr m
                       | None \<Rightarrow> Inl (Plain (''message '' @ i @ '' not found in conversation''))))))"

section \<open>Listing history\<close>

lemma scan_page_length:
  "scan_page env since msgs p = Inr p' \<Longrightarrow>
   length (ps_result p') + ps_batch p = length (ps_result p) + ps_batch p'"
  by (induction env since msgs p rule: scan_page.induct) (fastforce split: sum.splits prod.splits option.splits)+

text \<open>
  The loop of \<open>ListMessagesPaginated\<close>: it goes on while fewer than \<open>requested\<close> messages were
  read, and each turn that goes on has read a full page.
\<close>

function history_pages ::
  "decode_env \<Rightarrow> (nat \<Rightarrow> string \<Rightarrow> go_error + raw_message list) \<Rightarrow> nat \<Rightarrow> nat \<Rightarrow> nat \<Rightarrow> string \<Rightarrow>
   remote_message list \<Rightarrow> string list \<Rightarrow> go_error + remote_message list" where
  "history_pages env fetch requested psize page cursor result seen =
     (if requested \<le> length result \<or> psize = 0 then Inr result
      else (case fetch page cursor of
              Inl e \<Rightarrow> if result \<noteq> [] then Inr result else Inl e
            | Inr payload \<Rightarrow>
                if payload = [] then Inr result
                else (case scan_page env [] payload
                             \<lparr>ps_result = result, ps_seen = seen, ps_reached = False, ps_oldest = [], ps_batch = 0\<rparr> of
                        Inl e \<Rightarrow> Inl e
                      | Inr p \<Rightarrow>
                          if ps_batch p < psize \<or> ps_oldest p = [] then Inr (ps_result p)
                          else history_pages env fetch requested psize (Suc page) (ps_oldest p) (ps_result p) (ps_seen p))))"
  by pat_completeness auto

termination
proof (relation "measure (\<lambda>(env, fetch, requested, psize, page, cursor, result, seen). requested - length result)",
    goal_cases)
  case (2 env fetch requested psize page cursor result seen payload p)
  then have "length (ps_result p) = length result + ps_batch p" "psize \<le> ps_batch p" "psize \<noteq> 0"
    using scan_page_length [OF 2(4)] by auto
  with 2(1) show ?case by auto
qed simp

declare history_pages.simps [simp del]

definition list_messages_paginated ::
  "decode_env \<Rightarrow> bool \<Rightarrow> string \<Rightarrow> (remote_message list \<Rightarrow> remote_message list) \<Rightarrow>
   (nat \<Rightarrow> string \<Rightarrow> go_error + raw_message list) \<Rightarrow> string \<Rightarrow> int \<Rightarrow> string \<Rightarrow> go_error + remote_message list" where
  "list_messages_paginated env has_http token srt fetch conversation page_size0 start_time =
     (if \<not> has_http then Inl (Plain ''consumer client missing http client'')
      else if token = [] then Inl (Plain ''consumer client missing skypetoken'')
      else if conversation = [] then Inl (Plain ''missing conversation id'')
      else (let requested = (if page_size0 \<le> 0 then 50 else nat page_size0) in
            map_sum id srt (history_pages env fetch requested (min requested 200) 0 start_time [] [])))"

section \<open>Every message once\<close>

definition ids_of :: "remote_message list \<Rightarrow> string list" where
  "ids_of ms = filter (\<lambda>i. i \<noteq> []) (map (\<lambda>m. trim_space (message_id m)) ms)"

definition scan_ok :: "remote_message list \<Rightarrow> string list \<Rightarrow> bool" where
  "scan_ok result seen \<longleftrightarrow> distinct (ids_of result) \<and> set (ids_of result) = set seen"

lemma convert_seen:
  "convert_remote_message env msg seen = Inr (None, seen') \<Longrightarrow> seen' = seen"
  by (auto simp: convert_remote_message_def Let_def split: if_splits sum.splits)

lemma convert_new:
  "convert_remote_message env msg seen = Inr (Some m, seen') \<Longrightarrow>
   message_id m = rm_id msg \<and> trim_space (rm_id msg) \<notin> set seen - {[]} \<and>
   set seen' = (if trim_space (rm_id msg) = [] then set seen else insert (trim_space (rm_id msg)) (set seen))"
  by (auto simp: convert_remote_message_def Let_def split: if_splits sum.splits)

lemma convert_type:
  "convert_remote_message env msg seen = Inr (Some m, seen') \<Longrightarrow> message_type m = trim_space (rm_type msg)"
  by (auto simp: convert_remote_message_def Let_def split: if_splits sum.splits)

lemma scan_page_ok:
  "scan_page env since msgs p = Inr p' \<Longrightarrow> scan_ok (ps_result p) (ps_seen p) \<Longrightarrow> scan_ok (ps_result p') (ps_seen p')"
proof (induction env since msgs p rule: scan_page.induct)
  case (2 env since msg msgs p)
  obtain mo seen where r: "convert_remote_message env msg (ps_seen p) = Inr (mo, seen)"
    using 2(3) by (auto split: sum.splits)
  show ?case
  proof (cases mo)
    case None
    then show ?thesis using 2(1) [OF _ refl None] 2(3,4) r convert_seen by fastforce
  next
    case (Some m)
    have "scan_ok (ps_result p @ [m]) seen"
      using convert_new [of env msg "ps_seen p" m seen] r Some 2(4) by (auto simp: scan_ok_def ids_of_def)
    then show ?thesis using 2(2) [OF r refl Some] 2(3) r Some by simp
  qed
qed simp

lemma list_pages_ok:
  "list_pages env fetch since psize fuel page cursor result seen = Inr ms \<Longrightarrow> scan_ok result seen \<Longrightarrow> distinct (ids_of ms)"
proof (induction fuel arbitrary: page cursor result seen)
  case 0
  then show ?case by (simp add: scan_ok_def)
next
  case (Suc fuel)
  show ?case
    using Suc.prems scan_page_ok Suc.IH
    by (fastforce simp: scan_ok_def split: sum.splits if_splits)
qed

lemma history_pages_ok:
  "history_pages env fetch requested psize page cursor result seen = Inr ms \<Longrightarrow> scan_ok result seen \<Longrightarrow> distinct (ids_of ms)"
proof (induction env fetch requested psize page cursor result seen rule: history_pages.induct)
  case (1 env fetch requested psize page cursor result seen)
  show ?case
  proof (cases "requested \<le> length result \<or> psize = 0")
    case True
    then show ?thesis using 1(2,3) by (subst (asm) history_pages.simps) (simp add: scan_ok_def)
  next
    case False
    show ?thesis
      using 1(2,3) 1(1) [OF False] False scan_page_ok
      by (subst (asm) history_pages.simps) (fastforce simp: scan_ok_def split: sum.splits if_splits)
  qed
qed

text \<open>What the code relies on of \<open>sort.Slice\<close>: a permutation, in order where the order is one.\<close>

definition sorts_messages :: "(remote_message list \<Rightarrow> remote_message list) \<Rightarrow> bool" where
  "sorts_messages srt \<longleftrightarrow>
     (\<forall>ms. mset (srt ms) = mset ms \<and>
       ((\<forall>m \<in> set ms. numeric_id (sequence_id m)) \<longrightarrow>
         sorted_wrt (\<lambda>a b. compare_sequence_id (sequence_id a) (sequence_id b) \<le> 0) (srt ms)))"

lemma sorts_messages_set: "sorts_messages srt \<Longrightarrow> set (srt ms) = set ms"
  unfolding sorts_messages_def by (metis set_mset_mset)

lemma sorts_messages_ids: "sorts_messages srt \<Longrightarrow> distinct (ids_of (srt ms)) = distinct (ids_of ms)"
proof -
  assume "sorts_messages srt"
  then have "mset (ids_of (srt ms)) = mset (ids_of ms)"
    by (simp add: sorts_messages_def ids_of_def mset_filter)
  then show ?thesis by (rule mset_eq_imp_distinct_iff)
qed

section \<open>Catching up with a history\<close>

text \<open>
  The messages endpoint over a history, oldest first: the newest \<open>psize\<close> messages before
  the start time (of all, where there is none), newest first.
\<close>

definition message_of :: "decode_env \<Rightarrow> raw_message \<Rightarrow> remote_message option" where
  "message_of env msg =
     (case convert_remote_message env msg [] of Inr (mo, _) \<Rightarrow> mo | Inl _ \<Rightarrow> None)"

definition stamp :: "decode_env \<Rightarrow> raw_message \<Rightarrow> string" where
  "stamp env msg = format_millis (parse_timestamp env (rm_arrival msg))"

definition server_page :: "decode_env \<Rightarrow> raw_message list \<Rightarrow> nat \<Rightarrow> string \<Rightarrow> raw_message list" where
  "server_page env hist psize start_time =
     (let older = filter (\<lambda>m. start_time = [] \<or> byte_compare (stamp env m) start_time < 0) hist in
      rev (drop (length older - psize) older))"

definition seq_of :: "raw_message \<Rightarrow> string" where
  "seq_of msg = (case normalize_sequence_id (rm_sequence msg) of Inr s \<Rightarrow> s | Inl _ \<Rightarrow> [])"

definition newer :: "string \<Rightarrow> raw_message \<Rightarrow> bool" where
  "newer since msg \<longleftrightarrow> 0 < compare_sequence_id (seq_of msg) since"

definition history_ok :: "decode_env \<Rightarrow> string \<Rightarrow> raw_message list \<Rightarrow> bool" where
  "history_ok env since hist \<longleftrightarrow>
     distinct (map (\<lambda>m. trim_space (rm_id m)) hist) \<and>
     (\<forall>m \<in> set hist. trim_space (rm_id m) \<noteq> [] \<and> \<not> is_zero_time (parse_timestamp env (rm_arrival m)) \<and>
        (\<exists>s. normalize_sequence_id (rm_sequence m) = Inr s)) \<and>
     sorted_wrt (\<lambda>a b. byte_compare (stamp env a) (stamp env b) < 0) hist \<and>
     sorted_wrt (\<lambda>a b. newer since a \<longrightarrow> newer since b) hist"

lemma convert_fresh:
  assumes "trim_space (rm_id msg) \<noteq> []" and "trim_space (rm_id msg) \<notin> set seen"
    and "normalize_sequence_id (rm_sequence msg) = Inr s"
  shows "\<exists>m. message_of env msg = Some m \<and> sequence_id m = seq_of msg \<and>
    msg_timestamp m = parse_timestamp env (rm_arrival msg) \<and>
    convert_remote_message env msg seen = Inr (Some m, trim_space (rm_id msg) # seen)"
  using assms by (simp add: message_of_def convert_remote_message_def seq_of_def Let_def)

lemma stamp_nonempty: "format_millis t \<noteq> []"
  by (simp add: format_millis_def)

definition older_stamp :: "string \<Rightarrow> string \<Rightarrow> string" where
  "older_stamp oldest t = (if oldest = [] \<or> byte_compare t oldest < 0 then t else oldest)"

lemma scan_fresh:
  assumes "distinct (map (\<lambda>m. trim_space (rm_id m)) msgs)"
    and "\<forall>m \<in> set msgs. trim_space (rm_id m) \<noteq> [] \<and> trim_space (rm_id m) \<notin> set (ps_seen p) \<and>
      \<not> is_zero_time (parse_timestamp env (rm_arrival m)) \<and> (\<exists>s. normalize_sequence_id (rm_sequence m) = Inr s)"
    and "since \<noteq> []"
  shows "\<exists>p'. scan_page env since msgs p = Inr p' \<and>
    (\<forall>m \<in> set msgs. \<exists>c \<in> set (ps_result p'). message_of env m = Some c) \<and> set (ps_result p) \<subseteq> set (ps_result p') \<and>
    set (ps_seen p') = set (ps_seen p) \<union> (\<lambda>m. trim_space (rm_id m)) ` set msgs \<and>
    (ps_reached p' \<longleftrightarrow> ps_reached p \<or> (\<exists>m \<in> set msgs. \<not> newer since m)) \<and>
    ps_batch p' = ps_batch p + length msgs \<and>
    ps_oldest p' = foldl older_stamp (ps_oldest p) (map (stamp env) msgs)"
  using assms
proof (induction msgs arbitrary: p)
  case (Cons msg msgs)
  obtain s where s: "normalize_sequence_id (rm_sequence msg) = Inr s" using Cons.prems(2) by auto
  obtain m where m: "message_of env msg = Some m" "sequence_id m = seq_of msg"
      "msg_timestamp m = parse_timestamp env (rm_arrival msg)"
      "convert_remote_message env msg (ps_seen p) = Inr (Some m, trim_space (rm_id msg) # ps_seen p)"
    using convert_fresh [of msg "ps_seen p" s env] Cons.prems(2) s by auto
  define p1 where "p1 = \<lparr>ps_result = ps_result p @ [m], ps_seen = trim_space (rm_id msg) # ps_seen p,
    ps_reached = (ps_reached p \<or> since \<noteq> [] \<and> compare_sequence_id (sequence_id m) since \<le> 0),
    ps_oldest = older_of (ps_oldest p) m, ps_batch = Suc (ps_batch p)\<rparr>"
  have step: "scan_page env since (msg # msgs) p = scan_page env since msgs p1" by (simp add: m p1_def)
  have p1: "ps_seen p1 = trim_space (rm_id msg) # ps_seen p" "ps_batch p1 = Suc (ps_batch p)"
    "ps_oldest p1 = older_stamp (ps_oldest p) (stamp env msg)"
    "ps_reached p1 = (ps_reached p \<or> \<not> newer since msg)" "ps_result p1 = ps_result p @ [m]"
    using Cons.prems(2,3) m(2,3) by (auto simp: p1_def older_of_def older_stamp_def newer_def stamp_def Let_def not_less)
  have "\<exists>p'. scan_page env since msgs p1 = Inr p' \<and>
    (\<forall>m \<in> set msgs. \<exists>c \<in> set (ps_result p'). message_of env m = Some c) \<and> set (ps_result p1) \<subseteq> set (ps_result p') \<and>
    set (ps_seen p') = set (ps_seen p1) \<union> (\<lambda>m. trim_space (rm_id m)) ` set msgs \<and>
    (ps_reached p' \<longleftrightarrow> ps_reached p1 \<or> (\<exists>m \<in> set msgs. \<not> newer since m)) \<and>
    ps_batch p' = ps_batch p1 + length msgs \<and>
    ps_oldest p' = foldl older_stamp (ps_oldest p1) (map (stamp env) msgs)"
  proof (rule Cons.IH)
    show "distinct (map (\<lambda>m. trim_space (rm_id m)) msgs)" using Cons.prems(1) by simp
    have "trim_space (rm_id msg) \<notin> (\<lambda>m. trim_space (rm_id m)) ` set msgs" using Cons.prems(1) by simp
    then have "\<forall>m \<in> set msgs. trim_space (rm_id m) \<noteq> trim_space (rm_id msg)" unfolding image_iff by metis
    then show "\<forall>m \<in> set msgs. trim_space (rm_id m) \<noteq> [] \<and> trim_space (rm_id m) \<notin> set (ps_seen p1) \<and>
      \<not> is_zero_time (parse_timestamp env (rm_arrival m)) \<and> (\<exists>s. normalize_sequence_id (rm_sequence m) = Inr s)"
      using Cons.prems(2) by (simp add: p1(1))
    show "since \<noteq> []" by (rule Cons.prems(3))
  qed
  then show ?case unfolding step p1 using m(1) by auto
qed simp

text \<open>Newest first, every stamp is older than the one before: the last is the oldest.\<close>

lemma oldest_of_sorted:
  assumes "sorted_wrt (\<lambda>a b. byte_compare (stamp env a) (stamp env b) < 0) (x # xs)"
  shows "foldl older_stamp [] (map (stamp env) (rev (x # xs))) = stamp env x"
proof (cases xs)
  case Nil
  then show ?thesis by (simp add: older_stamp_def)
next
  case (Cons y ys)
  have "foldl older_stamp [] (map (stamp env) (rev zs)) = stamp env (hd zs)"
    if "zs \<noteq> []" "sorted_wrt (\<lambda>a b. byte_compare (stamp env a) (stamp env b) < 0) zs" for zs
    using that
  proof (induction zs rule: list_nonempty_induct)
    case (cons x xs)
    then have "byte_compare (stamp env x) (stamp env (hd xs)) < 0" by simp
    then show ?case using cons by (simp add: older_stamp_def)
  qed (simp add: older_stamp_def)
  from this [of "x # xs"] assms show ?thesis by simp
qed

lemma filter_before:
  assumes "sorted_wrt (\<lambda>a b. byte_compare (stamp env a) (stamp env b) < 0) hist" and "k < length hist"
  shows "filter (\<lambda>m. byte_compare (stamp env m) (stamp env (hist ! k)) < 0) hist = take k hist"
proof -
  have "hist = take k hist @ hist ! k # drop (Suc k) hist" using assms(2) by (rule id_take_nth_drop)
  moreover have "\<forall>m \<in> set (take k hist). byte_compare (stamp env m) (stamp env (hist ! k)) < 0"
    using assms by (auto simp: sorted_wrt_iff_nth_less in_set_conv_nth)
  moreover have "\<forall>m \<in> set (drop (Suc k) hist). \<not> byte_compare (stamp env m) (stamp env (hist ! k)) < 0"
  proof
    fix m assume "m \<in> set (drop (Suc k) hist)"
    then obtain i where "i < length hist - Suc k" "m = hist ! (Suc k + i)"
      by (auto simp: in_set_conv_nth)
    then have "byte_compare (stamp env (hist ! k)) (stamp env m) < 0"
      using assms by (auto simp: sorted_wrt_iff_nth_less)
    then show "\<not> byte_compare (stamp env m) (stamp env (hist ! k)) < 0"
      using byte_compare_swap [of "stamp env (hist ! k)" "stamp env m"] by simp
  qed
  ultimately show ?thesis by (metis (no_types, lifting) append_Nil2 byte_compare_refl filter.simps(2) filter_False filter_True filter_append less_irrefl)
qed

lemma server_page_take:
  assumes "history_ok env since hist" and "k \<le> length hist"
    and "cursor = [] \<and> k = length hist \<or> k < length hist \<and> cursor = stamp env (hist ! k)"
  shows "server_page env hist psize cursor = rev (drop (k - psize) (take k hist))"
proof -
  have "filter (\<lambda>m. cursor = [] \<or> byte_compare (stamp env m) cursor < 0) hist = take k hist"
    using assms filter_before [of env hist k] stamp_nonempty by (auto simp: history_ok_def stamp_def)
  then show ?thesis using assms(2) by (simp add: server_page_def Let_def)
qed

text \<open>With \<open>k\<close> messages of the history left, what is newer than the cursor among them comes in.\<close>

lemma catchup_pages:
  assumes "history_ok env since hist" and "since \<noteq> []" and "0 < psize"
  shows "k \<le> length hist \<Longrightarrow> cursor = [] \<and> k = length hist \<or> k < length hist \<and> cursor = stamp env (hist ! k) \<Longrightarrow>
    set seen \<inter> (\<lambda>m. trim_space (rm_id m)) ` set (take k hist) = {} \<Longrightarrow>
    length (filter (newer since) (take k hist)) < fuel * psize \<Longrightarrow>
    \<exists>ms. list_pages env (\<lambda>_ c. Inr (server_page env hist psize c)) since psize fuel page cursor result seen = Inr ms \<and>
      set result \<subseteq> set ms \<and>
      (\<forall>m \<in> set (take k hist). newer since m \<longrightarrow> (\<exists>c \<in> set ms. message_of env m = Some c))"
proof (induction fuel arbitrary: k page cursor result seen)
  case (Suc fuel)
  define xs where "xs = drop (k - psize) (take k hist)"
  have page_eq: "server_page env hist psize cursor = rev xs"
    using server_page_take [OF assms(1) Suc.prems(1,2)] by (simp add: xs_def)
  have split: "take k hist = take (k - psize) hist @ xs"
    unfolding xs_def by (metis append_take_drop_id min.absorb1 diff_le_self take_take)
  have lenx: "length xs = min psize k" using Suc.prems(1) by (simp add: xs_def)
  show ?case
  proof (cases "k = 0")
    case True
    then show ?thesis using page_eq by (simp add: xs_def)
  next
    case False
    have ne: "xs \<noteq> []" using False lenx assms(3) by auto
    have sub: "set xs \<subseteq> set (take k hist)" "set (take k hist) \<subseteq> set hist"
      using split set_take_subset [of k hist] by auto
    let ?p = "\<lparr>ps_result = result, ps_seen = seen, ps_reached = (since = []), ps_oldest = [], ps_batch = 0\<rparr>"
    have dist: "distinct (map (\<lambda>m. trim_space (rm_id m)) (take k hist))"
      using assms(1) by (auto simp: history_ok_def take_map [symmetric])
    have good: "\<forall>m \<in> set (rev xs). trim_space (rm_id m) \<noteq> [] \<and> trim_space (rm_id m) \<notin> set (ps_seen ?p) \<and>
        \<not> is_zero_time (parse_timestamp env (rm_arrival m)) \<and> (\<exists>s. normalize_sequence_id (rm_sequence m) = Inr s)"
      using assms(1) sub Suc.prems(3) unfolding history_ok_def by auto
    have "distinct (map (\<lambda>m. trim_space (rm_id m)) (rev xs))"
      using dist split by (auto simp: rev_map [symmetric])
    from scan_fresh [OF this good assms(2)]
    obtain p' where p': "scan_page env since (rev xs) ?p = Inr p'"
      "\<forall>m \<in> set xs. \<exists>c \<in> set (ps_result p'). message_of env m = Some c" "set result \<subseteq> set (ps_result p')"
      "set (ps_seen p') = set seen \<union> (\<lambda>m. trim_space (rm_id m)) ` set xs"
      "ps_reached p' \<longleftrightarrow> (\<exists>m \<in> set xs. \<not> newer since m)" "ps_batch p' = length xs"
      "ps_oldest p' = foldl older_stamp [] (map (stamp env) (rev xs))"
      using assms(2) by auto
    have later: "sorted_wrt (\<lambda>a b. newer since a \<longrightarrow> newer since b) (take k hist)"
      using assms(1) by (simp add: history_ok_def sorted_wrt_take)
    have head: "ps_oldest p' = stamp env (hd xs)"
    proof -
      have "sorted_wrt (\<lambda>a b. byte_compare (stamp env a) (stamp env b) < 0) xs"
        using assms(1) by (simp add: history_ok_def xs_def sorted_wrt_take sorted_wrt_drop)
      then show ?thesis using oldest_of_sorted [of env "hd xs" "tl xs"] ne p'(7) by simp
    qed
    have loop: "list_pages env (\<lambda>_ c. Inr (server_page env hist psize c)) since psize (Suc fuel) page cursor result seen =
      (if ps_reached p' \<or> ps_batch p' < psize \<or> ps_oldest p' = [] then Inr (ps_result p')
       else list_pages env (\<lambda>_ c. Inr (server_page env hist psize c)) since psize fuel (Suc page) (ps_oldest p') (ps_result p') (ps_seen p'))"
      using ne by (simp add: page_eq p'(1))
    show ?thesis
    proof (cases "ps_reached p' \<or> ps_batch p' < psize")
      case True
      have "m \<in> set xs" if m: "m \<in> set (take k hist)" "newer since m" for m
      proof (rule ccontr)
        assume "m \<notin> set xs"
        then have early: "m \<in> set (take (k - psize) hist)" using m(1) split by auto
        then have "psize \<le> k" by (cases "k - psize") auto
        then have "\<exists>y \<in> set xs. \<not> newer since y" using True p'(5,6) lenx by auto
        then show False using later early m(2) unfolding split sorted_wrt_append by auto
      qed
      then show ?thesis using loop True p'(2,3) by auto
    next
      case False
      have full: "length xs = psize" "psize \<le> k" using False p'(6) lenx by auto
      have newx: "\<forall>m \<in> set xs. newer since m" using False p'(5) by auto
      have less: "k - psize < length hist" using full assms(3) Suc.prems(1) \<open>k \<noteq> 0\<close> by linarith
      have hdx: "hd xs = hist ! (k - psize)"
        using full Suc.prems(1) ne assms(3) by (simp add: xs_def hd_drop_conv_nth)
      have rest: "\<exists>ms. list_pages env (\<lambda>_ c. Inr (server_page env hist psize c)) since psize fuel (Suc page) (ps_oldest p') (ps_result p') (ps_seen p') = Inr ms \<and>
        set (ps_result p') \<subseteq> set ms \<and>
        (\<forall>m \<in> set (take (k - psize) hist). newer since m \<longrightarrow> (\<exists>c \<in> set ms. message_of env m = Some c))"
      proof (rule Suc.IH)
        show "k - psize \<le> length hist" using Suc.prems(1) by simp
        show "ps_oldest p' = [] \<and> k - psize = length hist \<or> k - psize < length hist \<and> ps_oldest p' = stamp env (hist ! (k - psize))"
          using head hdx less by simp
        have "(\<lambda>m. trim_space (rm_id m)) ` set xs \<inter> (\<lambda>m. trim_space (rm_id m)) ` set (take (k - psize) hist) = {}"
          using dist unfolding split by auto
        then show "set (ps_seen p') \<inter> (\<lambda>m. trim_space (rm_id m)) ` set (take (k - psize) hist) = {}"
          using Suc.prems(3) p'(4) split by auto
        have "length (filter (newer since) (take k hist)) = length (filter (newer since) (take (k - psize) hist)) + psize"
          using newx full(1) by (simp add: split)
        then show "length (filter (newer since) (take (k - psize) hist)) < fuel * psize" using Suc.prems(4) by simp
      qed
      have "ps_oldest p' \<noteq> []" using head stamp_nonempty by (simp add: stamp_def)
      with rest obtain ms where ms:
        "list_pages env (\<lambda>_ c. Inr (server_page env hist psize c)) since psize (Suc fuel) page cursor result seen = Inr ms"
        "set (ps_result p') \<subseteq> set ms"
        "\<forall>m \<in> set (take (k - psize) hist). newer since m \<longrightarrow> (\<exists>c \<in> set ms. message_of env m = Some c)"
        using loop False by auto
      have "\<exists>c \<in> set ms. message_of env m = Some c" if "m \<in> set (take k hist)" "newer since m" for m
        using that ms(2,3) p'(2) unfolding split by (metis Un_iff set_append subsetD)
      then show ?thesis using ms(1,2) p'(3) by blast
    qed
  qed
qed simp

section \<open>Client message IDs\<close>

text \<open>
  \<open>GenerateClientMessageID\<close> by steps: the counter every sender shares, the senders between
  their load and their compare-and-swap with the candidate (\<open>now\<close>) and the value loaded
  (\<open>prev\<close>), those that go around again with their bumped candidate, and the IDs given out.
\<close>

datatype id_sender = Idle_Sender | Reading int | Swapping int int

record id_state =
  id_counter :: int
  id_senders :: "nat \<Rightarrow> id_sender"
  id_issued :: "int list"

definition bump_candidate :: "int \<Rightarrow> int \<Rightarrow> int" where
  "bump_candidate now prev = (if now \<le> prev then (prev + 1) mod 2 ^ 64 else now)"

inductive id_step :: "id_state \<Rightarrow> id_state \<Rightarrow> bool" where
  Id_Clock: "id_senders s i = Idle_Sender \<Longrightarrow> 0 \<le> now \<Longrightarrow> now < 2 ^ 64 \<Longrightarrow>
    id_step s (s\<lparr>id_senders := (id_senders s)(i := Reading now)\<rparr>)"
| Id_Load: "id_senders s i = Reading now \<Longrightarrow>
    id_step s (s\<lparr>id_senders := (id_senders s)(i := Swapping (bump_candidate now (id_counter s)) (id_counter s))\<rparr>)"
| Id_Swap: "id_senders s i = Swapping now prev \<Longrightarrow> id_counter s = prev \<Longrightarrow>
    id_step s (s\<lparr>id_counter := now, id_senders := (id_senders s)(i := Idle_Sender), id_issued := id_issued s @ [now]\<rparr>)"
| Id_Lost: "id_senders s i = Swapping now prev \<Longrightarrow> id_counter s \<noteq> prev \<Longrightarrow>
    id_step s (s\<lparr>id_senders := (id_senders s)(i := Reading now)\<rparr>)"

definition id_start :: id_state where
  "id_start = \<lparr>id_counter = 0, id_senders = (\<lambda>_. Idle_Sender), id_issued = []\<rparr>"

definition max_uint64 :: int where "max_uint64 = 2 ^ 64 - 1"

text \<open>Until the largest number is given out, the IDs ascend and the counter is the last of them.\<close>

definition id_inv :: "id_state \<Rightarrow> bool" where
  "id_inv s \<longleftrightarrow> max_uint64 \<in> set (id_issued s) \<or>
     (sorted_wrt (<) (id_issued s) \<and> id_counter s = (if id_issued s = [] then 0 else last (id_issued s)) \<and>
      0 \<le> id_counter s \<and> id_counter s < max_uint64 \<and>
      (\<forall>i now. id_senders s i = Reading now \<longrightarrow> now \<le> max_uint64) \<and>
      (\<forall>i now prev. id_senders s i = Swapping now prev \<longrightarrow> prev < now \<and> now \<le> max_uint64 \<and> 0 \<le> prev))"

lemma bump_candidate_above:
  "0 \<le> prev \<Longrightarrow> prev < max_uint64 \<Longrightarrow> now \<le> max_uint64 \<Longrightarrow>
   prev < bump_candidate now prev \<and> bump_candidate now prev \<le> max_uint64"
  by (simp add: bump_candidate_def max_uint64_def)

lemma sorted_snoc: "sorted_wrt (<) xs \<Longrightarrow> xs = [] \<or> last xs < (x :: int) \<Longrightarrow> sorted_wrt (<) (xs @ [x])"
proof (cases "xs = []")
  case False
  assume h: "sorted_wrt (<) xs" "xs = [] \<or> last xs < x"
  have "xs = butlast xs @ [last xs]" using False by simp
  then have "\<forall>y \<in> set (butlast xs). y < last xs" using h(1) by (metis list.set_intros(1) sorted_wrt_append)
  then have "\<forall>y \<in> set xs. y < x"
    using h(2) False by (metis append_butlast_last_id less_trans rotate1.simps(2) set_ConsD set_rotate1)
  then show ?thesis using h(1) by (simp add: sorted_wrt_append)
qed simp

lemma id_inv_step: "id_inv s \<Longrightarrow> id_step s t \<Longrightarrow> id_inv t"
proof (erule id_step.cases, goal_cases)
  case (1 s' i now)
  then show ?case by (auto simp: id_inv_def max_uint64_def)
next
  case (2 s' i now)
  then show ?case using bump_candidate_above by (auto simp: id_inv_def)
next
  case (3 s' i now prev)
  show ?case
  proof (cases "max_uint64 \<in> set (id_issued s') \<or> now = max_uint64")
    case True
    then show ?thesis using 3 by (auto simp: id_inv_def)
  next
    case False
    then have inv: "sorted_wrt (<) (id_issued s')" "prev = (if id_issued s' = [] then 0 else last (id_issued s'))"
      "prev < now" "now \<le> max_uint64" "0 \<le> prev"
      using 3 unfolding id_inv_def by metis+
    have "sorted_wrt (<) (id_issued s' @ [now])" using inv by (intro sorted_snoc) (auto split: if_splits)
    moreover have "0 \<le> now" "now < max_uint64" using inv(3-5) False by linarith+
    ultimately show ?thesis using 3 False by (auto simp: id_inv_def)
  qed
next
  case (4 s' i now prev)
  then show ?case by (auto simp: id_inv_def)
qed

interpretation id_sys: invariant_system id_step id_start id_inv
proof unfold_locales
  show "id_inv id_start" by (simp add: id_inv_def id_start_def max_uint64_def)
qed (rule id_inv_step)

section \<open>Properties\<close>

text \<open>A decoder and a history of three messages, one per page, for the examples.\<close>

definition example_decode :: decode_env where
  "example_decode = \<lparr>de_html = script_env, de_json = (\<lambda>_. None), de_json_text = (\<lambda>_. []), de_float = (\<lambda>_. None),
     de_time = (\<lambda>_ v. map_option (\<lambda>n. of_unix (int n)) (parse_uint64 v))\<rparr>"

definition example_raw :: "string \<Rightarrow> raw_message" where
  "example_raw i = \<lparr>rm_id = i, rm_client_id = [], rm_sequence = Some (JNum i), rm_arrival = i, rm_from = None,
     rm_im_name = [], rm_token_name = [], rm_content = None, rm_properties = None, rm_type = ''Text'',
     rm_edited = [], rm_compose_time = [], rm_link = []\<rparr>"

definition example_history :: "raw_message list" where
  "example_history = map example_raw [''5'', ''6'', ''7'']"

definition by_number :: "remote_message list \<Rightarrow> remote_message list" where
  "by_number = sort_key (\<lambda>m. case parse_uint64 (sequence_id m) of Some n \<Rightarrow> n | None \<Rightarrow> 0)"

lemma by_number_sorts: "sorts_messages by_number"
proof -
  let ?k = "\<lambda>m. case parse_uint64 (sequence_id m) of Some n \<Rightarrow> n | None \<Rightarrow> 0"
  have "sorted_wrt (\<lambda>a b. compare_sequence_id (sequence_id a) (sequence_id b) \<le> 0) (sort_key ?k ms)"
    if "\<forall>m \<in> set ms. numeric_id (sequence_id m)" for ms
  proof -
    have "sorted_wrt (\<lambda>a b. ?k a \<le> ?k b) (sort_key ?k ms)"
      using sorted_sort_key [of ?k ms] by (simp add: sorted_wrt_map)
    moreover have "compare_sequence_id (sequence_id a) (sequence_id b) \<le> 0"
      if ab: "a \<in> set (sort_key ?k ms)" "b \<in> set (sort_key ?k ms)" "?k a \<le> ?k b" for a b
    proof -
      have "numeric_id (sequence_id a)" "numeric_id (sequence_id b)"
        using ab(1,2) \<open>\<forall>m \<in> set ms. numeric_id (sequence_id m)\<close> by auto
      then obtain i j where "parse_uint64 (sequence_id a) = Some i" "parse_uint64 (sequence_id b) = Some j"
        by (auto simp: numeric_id_def)
      then show ?thesis using ab(3) by (auto simp: compare_sequence_id_def)
    qed
    ultimately show ?thesis by (rule sorted_wrt_mono_rel [rotated])
  qed
  then show ?thesis unfolding sorts_messages_def by_number_def by (intro allI conjI impI) (simp, blast)
qed

lemma example_trims: "trim_space ''5'' = ''5''" "trim_space ''6'' = ''6''" "trim_space ''7'' = ''7''"
  by (simp_all add: trim_space_plain plain_ends_def)

lemma example_stamps:
  "stamp example_decode (example_raw ''5'') = ''1970-01-01T00:00:05.000Z''"
  "stamp example_decode (example_raw ''6'') = ''1970-01-01T00:00:06.000Z''"
  "stamp example_decode (example_raw ''7'') = ''1970-01-01T00:00:07.000Z''"
proof -
  have "format_millis (of_unix 5) = ''1970-01-01T00:00:05.000Z''" "format_millis (of_unix 6) = ''1970-01-01T00:00:06.000Z''"
    "format_millis (of_unix 7) = ''1970-01-01T00:00:07.000Z''" by code_simp+
  then show "stamp example_decode (example_raw ''5'') = ''1970-01-01T00:00:05.000Z''"
    "stamp example_decode (example_raw ''6'') = ''1970-01-01T00:00:06.000Z''"
    "stamp example_decode (example_raw ''7'') = ''1970-01-01T00:00:07.000Z''"
    by (simp_all add: stamp_def parse_timestamp_def example_decode_def example_raw_def parse_uint64_def)
qed

lemma example_history_ok: "history_ok example_decode ''5'' example_history"
proof -
  have "parse_timestamp example_decode ''5'' \<noteq> 0" "parse_timestamp example_decode ''6'' \<noteq> 0"
    "parse_timestamp example_decode ''7'' \<noteq> 0"
    by (simp_all add: parse_timestamp_def example_decode_def parse_uint64_def of_unix_def unix_epoch_def)
  moreover have "rm_id (example_raw i) = i" "rm_arrival (example_raw i) = i" "rm_sequence (example_raw i) = Some (JNum i)" for i
    by (simp_all add: example_raw_def)
  ultimately show ?thesis
    by (simp add: history_ok_def example_history_def example_trims normalize_sequence_id_def example_stamps newer_def
        seq_of_def compare_sequence_id_def parse_uint64_def)
qed

lemma catchup_list_pages:
  assumes "history_ok env (trim_space since) hist" and "trim_space since \<noteq> []" and "0 < psize"
    and "length (filter (newer (trim_space since)) hist) < 10 * psize"
  shows "\<exists>ms. list_pages env (\<lambda>_ c. Inr (server_page env hist psize c)) (trim_space since) psize max_catchup_pages 0 [] [] [] = Inr ms \<and>
    (\<forall>m \<in> set hist. newer (trim_space since) m \<longrightarrow> (\<exists>c \<in> set ms. message_of env m = Some c))"
proof -
  have "\<exists>ms. list_pages env (\<lambda>_ c. Inr (server_page env hist psize c)) (trim_space since) psize max_catchup_pages 0 [] [] [] = Inr ms \<and>
      set [] \<subseteq> set ms \<and>
      (\<forall>m \<in> set (take (length hist) hist). newer (trim_space since) m \<longrightarrow> (\<exists>c \<in> set ms. message_of env m = Some c))"
    by (rule catchup_pages [OF assms(1-3)]) (use assms(4) in \<open>simp_all add: max_catchup_pages_def\<close>)
  then show ?thesis by auto
qed

text \<open>What is read of a conversation, for a poll or for history, holds no message ID twice, however
  the pages overlap, and a poll's messages come in the order of their sequence IDs.\<close>

lemma listed_messages_distinct:
  assumes "sorts_messages srt"
  shows "(\<forall>ms. list_messages env has_http token page_size srt fetch conversation since = Inr ms \<longrightarrow>
      distinct (ids_of ms) \<and> ((\<forall>m \<in> set ms. numeric_id (sequence_id m)) \<longrightarrow>
        sorted_wrt (\<lambda>a b. compare_sequence_id (sequence_id a) (sequence_id b) \<le> 0) ms)) \<and>
    (\<forall>ms. list_messages_paginated env has_http token srt fetch conversation requested start = Inr ms \<longrightarrow> distinct (ids_of ms))"
proof (intro conjI allI impI)
  have start: "scan_ok [] []" by (simp add: scan_ok_def ids_of_def)
  {
    fix ms assume "list_messages env has_http token page_size srt fetch conversation since = Inr ms"
    then obtain psize ms0 where "list_pages env fetch (trim_space since) psize max_catchup_pages 0 [] [] [] = Inr ms0"
        and ms: "ms = srt ms0"
      by (auto simp: list_messages_def Let_def map_sum_def split: if_splits sum.splits)
    then have "distinct (ids_of ms0)" using list_pages_ok start by blast
    then show "distinct (ids_of ms)" using sorts_messages_ids [OF assms] ms by simp
    assume "\<forall>m \<in> set ms. numeric_id (sequence_id m)"
    then show "sorted_wrt (\<lambda>a b. compare_sequence_id (sequence_id a) (sequence_id b) \<le> 0) ms"
      using assms sorts_messages_set [OF assms] unfolding ms sorts_messages_def by simp
  next
    fix ms assume "list_messages_paginated env has_http token srt fetch conversation requested start = Inr ms"
    then show "distinct (ids_of ms)"
      using history_pages_ok [OF _ start] sorts_messages_ids [OF assms]
      by (auto simp: list_messages_paginated_def Let_def map_sum_def split: if_splits sum.splits)
  }
qed

lemma listed_messages_distinct_example:
  "\<exists>ms. list_messages example_decode True ''tok'' 1 by_number (\<lambda>_ c. Inr (server_page example_decode example_history 1 c))
       ''19:a'' ''5'' = Inr ms \<and> distinct (ids_of ms)"
proof -
  have "length (filter (newer (trim_space ''5'')) example_history) < 10 * 1" by (simp add: example_history_def)
  then obtain ms where "list_messages example_decode True ''tok'' 1 by_number
      (\<lambda>_ c. Inr (server_page example_decode example_history 1 c)) ''19:a'' ''5'' = Inr ms"
    using catchup_list_pages [of example_decode "''5''" example_history 1] example_history_ok
    by (auto simp: example_trims list_messages_def Let_def map_sum_def)
  then show ?thesis using listed_messages_distinct [OF by_number_sorts] by blast
qed

text \<open>C10: A poll catches up: when the endpoint serves a history whose messages have IDs and times of
  their own and whose order by time is that by sequence ID, every message of it newer than the
  cursor is read, as long as there are fewer of them than ten pages hold.\<close>

theorem catchup_complete:
  assumes "sorts_messages srt" and "history_ok env (trim_space since) hist" and "trim_space since \<noteq> []"
    and "token \<noteq> []" and "conversation \<noteq> []" and "0 < psize"
    and "length (filter (newer (trim_space since)) hist) < 10 * psize"
  shows "\<exists>ms. list_messages env True token (int psize) srt (\<lambda>_ c. Inr (server_page env hist psize c)) conversation since = Inr ms \<and>
    (\<forall>m \<in> set hist. newer (trim_space since) m \<longrightarrow> (\<exists>c \<in> set ms. message_of env m = Some c))"
  using catchup_list_pages [OF assms(2,3,6,7)] assms(4-6) sorts_messages_set [OF assms(1)]
  by (auto simp: list_messages_def Let_def map_sum_def)

theorem catchup_complete_witness:
  "\<exists>ms. list_messages example_decode True ''tok'' 1 by_number (\<lambda>_ c. Inr (server_page example_decode example_history 1 c))
      ''19:a'' ''5'' = Inr ms \<and>
    (\<forall>m \<in> set example_history. newer ''5'' m \<longrightarrow> (\<exists>c \<in> set ms. message_of example_decode m = Some c))"
proof -
  have "length (filter (newer ''5'') example_history) < 10 * 1" by (simp add: example_history_def)
  then show ?thesis
    using catchup_complete [OF by_number_sorts, of example_decode "''5''" example_history "''tok''" "''19:a''" 1]
      example_history_ok by (simp add: example_trims)
qed

lemma numeral_10_suc: "(10 :: nat) = Suc (Suc 8)"
  by simp

text \<open>
  A gap is not reported: when a full first page of messages newer than the cursor is read and
  the request for the next page fails, the poll gets that first page and no error, so what lies
  between the cursor and the page is missing from an answer that looks complete.
\<close>

lemma partial_catchup_is_silent:
  assumes "fetch 0 [] = Inr payload" and "payload \<noteq> []" and "trim_space since \<noteq> []"
    and "scan_page env (trim_space since) payload
      \<lparr>ps_result = [], ps_seen = [], ps_reached = False, ps_oldest = [], ps_batch = 0\<rparr> = Inr p"
    and "\<not> ps_reached p" and "psize \<le> ps_batch p" and "ps_oldest p \<noteq> []" and "fetch 1 (ps_oldest p) = Inl e"
    and "token \<noteq> []" and "conversation \<noteq> []" and "0 < psize"
  shows "list_messages env True token (int psize) srt fetch conversation since = Inr (srt (ps_result p))"
proof -
  have "list_pages env fetch (trim_space since) psize (Suc (Suc n)) 0 [] [] [] = Inr (ps_result p)" for n
    using assms by simp
  then have "list_pages env fetch (trim_space since) psize max_catchup_pages 0 [] [] [] = Inr (ps_result p)"
    by (simp only: max_catchup_pages_def numeral_10_suc)
  then show ?thesis using assms by (simp add: list_messages_def Let_def map_sum_def)
qed

lemma example_message:
  "\<exists>m. convert_remote_message example_decode (example_raw ''7'') [] = Inr (Some m, [''7'']) \<and> sequence_id m = ''7'' \<and>
     msg_timestamp m = of_unix 7 \<and> message_id m = ''7'' \<and> message_type m = ''Text''"
proof -
  obtain m where m: "convert_remote_message example_decode (example_raw ''7'') [] = Inr (Some m, [''7''])" "sequence_id m = ''7''"
      "msg_timestamp m = of_unix 7"
    using convert_fresh [of "example_raw ''7''" "[]" "''7''" example_decode]
    by (auto simp: example_raw_def example_trims normalize_sequence_id_def seq_of_def parse_timestamp_def example_decode_def
        parse_uint64_def)
  moreover have "message_id m = ''7''" "message_type m = ''Text''"
    using convert_new [OF m(1)] convert_type [OF m(1)] by (simp_all add: example_raw_def trim_space_plain plain_ends_def)
  ultimately show ?thesis by blast
qed

definition failing_fetch :: "nat \<Rightarrow> string \<Rightarrow> go_error + raw_message list" where
  "failing_fetch k c = (if k = 0 then Inr [example_raw ''7''] else Inl DeadlineExceeded)"

lemma example_scan:
  "\<exists>m. scan_page example_decode (trim_space ''5'') [example_raw ''7'']
      \<lparr>ps_result = [], ps_seen = [], ps_reached = False, ps_oldest = [], ps_batch = 0\<rparr> =
      Inr \<lparr>ps_result = [m], ps_seen = [''7''], ps_reached = False, ps_oldest = older_of [] m, ps_batch = Suc 0\<rparr> \<and>
    message_id m = ''7'' \<and> message_type m = ''Text'' \<and> sequence_id m = ''7'' \<and> older_of [] m \<noteq> []"
proof -
  obtain m where m: "convert_remote_message example_decode (example_raw ''7'') [] = Inr (Some m, [''7''])"
    "sequence_id m = ''7''" "msg_timestamp m = of_unix 7" "message_id m = ''7''" "message_type m = ''Text''"
    using example_message by blast
  have "older_of [] m \<noteq> []"
    using stamp_nonempty by (simp add: older_of_def m of_unix_def unix_epoch_def Let_def)
  then show ?thesis
    by (intro exI [of _ m]) (simp add: m example_trims compare_sequence_id_def parse_uint64_def)
qed

text \<open>Client message IDs are unique: however many senders ask for one at once and whatever the clock
  reads, the numbers given out ascend, until the largest 64-bit number has been given out.\<close>

lemma client_ids_ascend:
  assumes "reach_from id_step id_start s"
  shows "max_uint64 \<in> set (id_issued s) \<or> sorted_wrt (<) (id_issued s)"
  using id_sys.reachable_inv [OF assms] by (auto simp: id_inv_def)

text \<open>Two senders read the same clock; the slower one loses the race and goes around.\<close>

lemma client_ids_ascend_example:
  "\<exists>s. reach_from id_step id_start s \<and> id_issued s = [9, 10] \<and> sorted_wrt (<) (id_issued s)"
proof -
  let ?r = "reach_from id_step id_start"
  let ?s = "\<lambda>c f xs. \<lparr>id_counter = c, id_senders = f, id_issued = xs\<rparr>"
  let ?i = "\<lambda>_::nat. Idle_Sender"
  have step: "?r t" if "?r s" "id_step s u" "t = u" for s t u using that by (auto intro: reach_from.intros)
  have "?r (?s 0 ?i [])" using reach_from.intros(1) by (simp add: id_start_def [symmetric])
  then have "?r (?s 0 (?i(0 := Reading 9)) [])" by (rule step) (rule Id_Clock [of _ 0 9], simp_all)
  then have "?r (?s 0 (?i(0 := Reading 9, 1 := Reading 9)) [])" by (rule step) (rule Id_Clock [of _ 1 9], simp_all)
  then have "?r (?s 0 (?i(0 := Swapping 9 0, 1 := Reading 9)) [])"
    by (rule step) (rule Id_Load [of _ 0 9], simp_all add: bump_candidate_def fun_eq_iff)
  then have "?r (?s 0 (?i(0 := Swapping 9 0, 1 := Swapping 9 0)) [])"
    by (rule step) (rule Id_Load [of _ 1 9], simp_all add: bump_candidate_def fun_eq_iff)
  then have "?r (?s 9 (?i(0 := Idle_Sender, 1 := Swapping 9 0)) [9])"
    by (rule step) (rule Id_Swap [of _ 0 9 0], simp_all add: fun_eq_iff)
  then have "?r (?s 9 (?i(0 := Idle_Sender, 1 := Reading 9)) [9])"
    by (rule step) (rule Id_Lost [of _ 1 9 0], simp_all add: fun_eq_iff)
  then have "?r (?s 9 (?i(0 := Idle_Sender, 1 := Swapping 10 9)) [9])"
    by (rule step) (rule Id_Load [of _ 1 9], simp_all add: bump_candidate_def fun_eq_iff)
  then have r: "?r (?s 10 (?i(0 := Idle_Sender, 1 := Idle_Sender)) [9, 10])"
    by (rule step) (rule Id_Swap [of _ 1 10 9], simp_all add: fun_eq_iff)
  show ?thesis
    using client_ids_ascend [OF r] r by (intro exI [of _ "?s 10 (?i(0 := Idle_Sender, 1 := Idle_Sender)) [9, 10]"]) (simp add: max_uint64_def)
qed

end
