(* ===== verification/Graph_Upload.thy ===== *)
theory Graph_Upload
  imports Executor Teams_Message Go_Url "HOL-Library.While_Combinator"
begin

text \<open>
  Uploads of package \<open>internal/teams/graph\<close>: the small upload in one request and the upload
  session with its loop of chunks (upload.go, upload_session.go, chunked_upload.go,
  get_drive_item.go).  Every request goes through the executor; what its attempts meet and what
  the server is afterwards is the parameter \<open>graph_net\<close>, over a state of the server.

  The loop of chunks is \<open>while_option\<close>: \<open>None\<close> is a loop that does not end.
\<close>

section \<open>The client and its requests\<close>

record graph_client =
  gc_has_http :: bool
  gc_executor :: "executor_config option"
  gc_token :: string
  gc_base :: string
  gc_max_size :: int
  gc_small_limit :: int
  gc_chunk_size :: int

datatype graph_request =
    Put_Content string string
  | Create_Session string
  | Put_Chunk string int int int string
  | Get_Item string
  | Create_Link string

text \<open>
  For a request in a state of the server: what its attempts meet, the state after \<open>n\<close> of them
  were sent, and the error of reading the answer's body.  Then the decoders: the first JSON value
  of a body, and the body as one JSON text; and the addresses \<open>http.NewRequest\<close> refuses.
\<close>

record 's graph_net =
  gn_env :: "graph_request \<Rightarrow> 's \<Rightarrow> exec_env"
  gn_next :: "graph_request \<Rightarrow> 's \<Rightarrow> nat \<Rightarrow> 's"
  gn_read :: "graph_request \<Rightarrow> 's \<Rightarrow> go_error option"
  gn_retry_after :: "string \<Rightarrow> duration"
  gn_first :: "string \<Rightarrow> go_error + json"
  gn_whole :: "string \<Rightarrow> json option"
  gn_url_err :: "string \<Rightarrow> go_error option"

definition default_upload_endpoint :: string where
  "default_upload_endpoint = ''https://graph.microsoft.com/v1.0/me/drive/root:/Microsoft Teams Chat Files''"
definition default_max_upload_bytes :: int where "default_max_upload_bytes = 100 * 1024 * 1024"
definition default_small_file_limit :: int where "default_small_file_limit = 4 * 1024 * 1024"
definition default_chunk_size :: int where "default_chunk_size = 5 * 1024 * 1024"
definition chunk_size_align :: int where "chunk_size_align = 320 * 1024"

definition graph_executor :: "graph_client \<Rightarrow> executor_config" where
  "graph_executor c = (case gc_executor c of Some e \<Rightarrow> e | None \<Rightarrow> default_config)"

definition request_body_of :: "graph_request \<Rightarrow> request_body" where
  "request_body_of r = (case r of Get_Item _ \<Rightarrow> NoBody | _ \<Rightarrow> BodyAgain (\<lambda>_. None))"

definition request_url :: "graph_request \<Rightarrow> string" where
  "request_url r = (case r of Put_Content u _ \<Rightarrow> u | Create_Session u \<Rightarrow> u | Put_Chunk u _ _ _ _ \<Rightarrow> u | Get_Item u \<Rightarrow> u | Create_Link u \<Rightarrow> u)"

definition graph_classify :: "graph_request \<Rightarrow> (string \<Rightarrow> duration) \<Rightarrow> http_response option \<Rightarrow> go_error option" where
  "graph_classify r = (case r of Put_Content _ _ \<Rightarrow> classify_upload | Create_Session _ \<Rightarrow> classify_upload_session
     | Put_Chunk _ _ _ _ _ \<Rightarrow> classify_chunk_upload | Get_Item _ \<Rightarrow> classify_get_drive_item | Create_Link _ \<Rightarrow> classify_create_link)"

text \<open>Send a request: the answer or the error, and the server after it.\<close>

definition graph_do :: "'s graph_net \<Rightarrow> graph_client \<Rightarrow> graph_request \<Rightarrow> 's \<Rightarrow> (go_error + http_response) \<times> 's" where
  "graph_do net c r s =
     (case gn_url_err net (request_url r) of
        Some e \<Rightarrow> (Inl e, s)
      | None \<Rightarrow>
          (let x = executor_do (Some (graph_executor c)) (gn_env net r s) (Some (request_body_of r))
                     (Some (graph_classify r (gn_retry_after net)));
               s' = gn_next net r s (er_sent x)
           in case er_err x of
                Some e \<Rightarrow> (Inl e, s')
              | None \<Rightarrow> (case er_resp x of Some resp \<Rightarrow> (Inr resp, s') | None \<Rightarrow> (Inl (Plain ''missing response''), s'))))"

section \<open>Drive items\<close>

record drive_item =
  di_id :: string
  di_unique_id :: string
  di_site_url :: string
  di_name :: string
  di_size :: int

text \<open>Into a struct field: the members of all its objects in turn.\<close>

fun into_members :: "json list \<Rightarrow> (string \<times> json) list option" where
  "into_members [] = Some []"
| "into_members (JNull # vs) = into_members vs"
| "into_members (JObj kvs # vs) = map_option ((@) kvs) (into_members vs)"
| "into_members (v # vs) = None"

definition struct_field :: "string \<Rightarrow> json \<Rightarrow> json option" where
  "struct_field f j = map_option JObj (Option.bind (field_values f j) into_members)"

definition decode_drive_item :: "json \<Rightarrow> drive_item option" where
  "decode_drive_item j =
     Option.bind (string_field ''id'' j) (\<lambda>i.
     Option.bind (string_field ''name'' j) (\<lambda>n.
     Option.bind (int_field ''size'' j) (\<lambda>sz.
     Option.bind (Option.bind (struct_field ''sharepointIds'' j) (string_field ''listItemUniqueId'')) (\<lambda>u.
     Option.bind (Option.bind (Option.bind (struct_field ''parentReference'' j) (struct_field ''sharepointIds'')) (string_field ''siteUrl'')) (\<lambda>site.
       Some \<lparr>di_id = i, di_unique_id = u, di_site_url = site, di_name = n, di_size = sz\<rparr>)))))"

definition unmarshal_error :: go_error where
  "unmarshal_error = Plain ''json: cannot unmarshal value''"

definition parse_uploaded_drive_item :: "'s graph_net \<Rightarrow> string \<Rightarrow> go_error + drive_item" where
  "parse_uploaded_drive_item net body =
     (case gn_first net body of
        Inl e \<Rightarrow> Inl e
      | Inr j \<Rightarrow>
          (case decode_drive_item j of
             None \<Rightarrow> Inl unmarshal_error
           | Some d \<Rightarrow>
               if trim_space (di_id d) = [] then Inl (Plain ''upload response missing id'')
               else if trim_space (di_unique_id d) = [] then Inl (Plain ''upload response missing sharepointIds.listItemUniqueId'')
               else if trim_space (di_site_url d) = [] then Inl (Plain ''upload response missing parentReference.sharepointIds.siteUrl'')
               else Inr \<lparr>di_id = trim_space (di_id d), di_unique_id = trim_space (di_unique_id d),
                         di_site_url = trim_space (di_site_url d), di_name = trim_space (di_name d), di_size = di_size d\<rparr>))"

definition drive_item_url :: "string \<Rightarrow> string" where
  "drive_item_url i = ''https://graph.microsoft.com/v1.0/me/drive/items/'' @ path_escape (trim_space i) @ ''?'' @
     encode_query [(''$select'', ''id,name,size,sharepointIds,parentReference'')]"

definition get_drive_item :: "'s graph_net \<Rightarrow> graph_client \<Rightarrow> string \<Rightarrow> 's \<Rightarrow> (go_error + drive_item) \<times> 's" where
  "get_drive_item net c i s =
     (if \<not> gc_has_http c then (Inl (Plain ''graph client missing http client''), s)
      else if trim_space (gc_token c) = [] then (Inl (Plain ''missing graph access token''), s)
      else if trim_space i = [] then (Inl (Plain ''drive item id is empty''), s)
      else (case graph_do net c (Get_Item (drive_item_url i)) s of
              (Inl e, s') \<Rightarrow> (Inl e, s')
            | (Inr resp, s') \<Rightarrow> (parse_uploaded_drive_item net (resp_body resp), s')))"

text \<open>The item of a final answer; one with an ID but no SharePoint fields is fetched again.\<close>

definition final_item :: "'s graph_net \<Rightarrow> graph_client \<Rightarrow> string \<Rightarrow> 's \<Rightarrow> (go_error + drive_item) \<times> 's" where
  "final_item net c body s =
     (case parse_uploaded_drive_item net body of
        Inr d \<Rightarrow> (Inr d, s)
      | Inl e \<Rightarrow>
          (case Option.bind (gn_whole net body) (string_field ''id'') of
             None \<Rightarrow> (Inl e, s)
           | Some i \<Rightarrow>
               if trim_space i = [] then (Inl e, s)
               else (case get_drive_item net c i s of
                       (Inr d, s') \<Rightarrow> (Inr d, s')
                     | (Inl _, s') \<Rightarrow> (Inl e, s'))))"

section \<open>The loop of chunks\<close>

text \<open>A Go slice expression panics outside the bounds.\<close>

definition slice :: "string \<Rightarrow> int \<Rightarrow> int \<Rightarrow> string option" where
  "slice xs i j = (if 0 \<le> i \<and> i \<le> j \<and> j \<le> int (length xs) then Some (take (nat (j - i)) (drop (nat i) xs)) else None)"

datatype upload_end = Uploaded drive_item | Upload_Failed go_error | Slice_Panic

record 's upload_state =
  us_start :: int
  us_server :: 's
  us_end :: "upload_end option"

definition parse_next_expected_start :: "string \<Rightarrow> go_error + int" where
  "parse_next_expected_start value =
     (case cut (trim_space value) ''-'' of
        (before, _, found) \<Rightarrow>
          if \<not> found \<or> before = [] then Inl (Plain ''invalid nextExpectedRanges format'')
          else (case parse_int64 before of
                  Some n \<Rightarrow> if n < 0 then Inl (Plain ''invalid nextExpectedRanges format'') else Inr n
                | None \<Rightarrow> Inl (Plain ''invalid nextExpectedRanges format'')))"

text \<open>Where an intermediate answer lets the upload go on.\<close>

definition decode_ranges :: "json \<Rightarrow> string list option" where
  "decode_ranges j = Option.bind (slice_field ''nextExpectedRanges'' j)
     (\<lambda>vs. all_some (map (\<lambda>v. into_string [] [v]) vs))"

definition next_start :: "'s graph_net \<Rightarrow> string \<Rightarrow> go_error + int" where
  "next_start net body =
     (case gn_first net body of
        Inl e \<Rightarrow> Inl e
      | Inr j \<Rightarrow>
          (case decode_ranges j of
             None \<Rightarrow> Inl unmarshal_error
           | Some [] \<Rightarrow> Inl (Plain ''chunk response missing nextExpectedRanges'')
           | Some (r # _) \<Rightarrow>
               if trim_space r = [] then Inl (Plain ''chunk response missing nextExpectedRanges'')
               else parse_next_expected_start r))"

text \<open>The last byte of the chunk from \<open>start\<close>.\<close>

definition chunk_end :: "int \<Rightarrow> int \<Rightarrow> int \<Rightarrow> int" where
  "chunk_end csize tot start = (let e = wrap64 (start + csize - 1) in if tot \<le> e then tot - 1 else e)"

definition chunk_step ::
  "'s graph_net \<Rightarrow> graph_client \<Rightarrow> string \<Rightarrow> int \<Rightarrow> string \<Rightarrow> 's upload_state \<Rightarrow> 's upload_state" where
  "chunk_step net c url csize content u =
     (let tot = int (length content); start = us_start u; last = chunk_end csize tot start in
      case slice content start (last + 1) of
        None \<Rightarrow> u\<lparr>us_end := Some Slice_Panic\<rparr>
      | Some chunk \<Rightarrow>
          (let req = Put_Chunk (trim_space url) start last tot chunk in
           case graph_do net c req (us_server u) of
             (Inl e, s') \<Rightarrow> u\<lparr>us_server := s', us_end := Some (Upload_Failed e)\<rparr>
           | (Inr resp, s') \<Rightarrow>
               if resp_status resp = 202
               then (case next_start net (resp_body resp) of
                       Inl e \<Rightarrow> u\<lparr>us_server := s', us_end := Some (Upload_Failed e)\<rparr>
                     | Inr next \<Rightarrow> u\<lparr>us_server := s', us_start := next\<rparr>)
               else if 200 \<le> resp_status resp \<and> resp_status resp < 300
               then (case gn_read net req s' of
                       Some e \<Rightarrow> u\<lparr>us_server := s', us_end := Some (Upload_Failed e)\<rparr>
                     | None \<Rightarrow>
                         (case final_item net c (resp_body resp) s' of
                            (Inr d, s'') \<Rightarrow> u\<lparr>us_server := s'', us_end := Some (Uploaded d)\<rparr>
                          | (Inl e, s'') \<Rightarrow> u\<lparr>us_server := s'', us_end := Some (Upload_Failed e)\<rparr>))
               else u\<lparr>us_server := s', us_end := Some (Upload_Failed
                      (ApiError ''graph chunk upload request failed'' (resp_status resp) (take max_upload_error_bytes (resp_body resp))))\<rparr>))"

definition chunk_loop ::
  "'s graph_net \<Rightarrow> graph_client \<Rightarrow> string \<Rightarrow> int \<Rightarrow> string \<Rightarrow> 's upload_state \<Rightarrow> 's upload_state option" where
  "chunk_loop net c url csize content =
     while_option (\<lambda>u. us_end u = None \<and> us_start u < int (length content)) (chunk_step net c url csize content)"

definition upload_file_in_chunks ::
  "'s graph_net \<Rightarrow> graph_client \<Rightarrow> string \<Rightarrow> string \<Rightarrow> 's \<Rightarrow> (upload_end \<times> 's) option" where
  "upload_file_in_chunks net c url content s =
     (if \<not> gc_has_http c then Some (Upload_Failed (Plain ''graph client missing http client''), s)
      else if trim_space url = [] then Some (Upload_Failed (Plain ''upload url is empty''), s)
      else if content = [] then Some (Upload_Failed (Plain ''upload content is empty''), s)
      else (let csize = (if gc_chunk_size c \<le> 0 then default_chunk_size else gc_chunk_size c) in
            if csize mod chunk_size_align \<noteq> 0 \<or> csize \<le> 0 then Some (Upload_Failed (Plain ''invalid chunk size''), s)
            else map_option
              (\<lambda>u. (case us_end u of Some x \<Rightarrow> x | None \<Rightarrow> Upload_Failed (Plain ''chunked upload did not complete''), us_server u))
              (chunk_loop net c url csize content \<lparr>us_start = 0, us_server = s, us_end = None\<rparr>)))"

section \<open>Uploads\<close>

definition endpoint_of :: "graph_client \<Rightarrow> string \<Rightarrow> string" where
  "endpoint_of c filename =
     (let base = trim_space (gc_base c) in
      trim_right_char (CHR ''/'') (if base = [] then default_upload_endpoint else base) @ ''/'' @
      path_escape (trim_space filename))"

definition create_session_url :: "graph_client \<Rightarrow> string \<Rightarrow> string" where
  "create_session_url c filename = endpoint_of c filename @ '':/createUploadSession''"

definition upload_url :: "graph_client \<Rightarrow> string \<Rightarrow> string" where
  "upload_url c filename = endpoint_of c filename @ '':/content?'' @
     encode_query [(''$select'', ''id,name,size,sharepointIds,parentReference''), (''@microsoft.graph.conflictBehavior'', ''rename'')]"

definition create_upload_session :: "'s graph_net \<Rightarrow> graph_client \<Rightarrow> string \<Rightarrow> 's \<Rightarrow> (go_error + string) \<times> 's" where
  "create_upload_session net c filename s =
     (if \<not> gc_has_http c then (Inl (Plain ''graph client missing http client''), s)
      else if trim_space (gc_token c) = [] then (Inl (Plain ''missing graph access token''), s)
      else if trim_space filename = [] then (Inl (Plain ''upload filename is empty''), s)
      else (case graph_do net c (Create_Session (create_session_url c filename)) s of
              (Inl e, s') \<Rightarrow> (Inl e, s')
            | (Inr resp, s') \<Rightarrow>
                ((case gn_first net (resp_body resp) of
                    Inl e \<Rightarrow> Inl e
                  | Inr j \<Rightarrow>
                      (case string_field ''uploadUrl'' j of
                         None \<Rightarrow> Inl unmarshal_error
                       | Some u \<Rightarrow> if trim_space u = [] then Inl (Plain ''upload session response missing uploadUrl'')
                                   else Inr (trim_space u))), s')))"

definition upload_teams_chat_file ::
  "'s graph_net \<Rightarrow> graph_client \<Rightarrow> string \<Rightarrow> string \<Rightarrow> 's \<Rightarrow> (upload_end \<times> 's) option" where
  "upload_teams_chat_file net c filename content s =
     (if \<not> gc_has_http c then Some (Upload_Failed (Plain ''graph client missing http client''), s)
      else if trim_space (gc_token c) = [] then Some (Upload_Failed (Plain ''missing graph access token''), s)
      else if trim_space filename = [] then Some (Upload_Failed (Plain ''upload filename is empty''), s)
      else if content = [] then Some (Upload_Failed (Plain ''upload content is empty''), s)
      else if (if gc_max_size c \<le> 0 then default_max_upload_bytes else gc_max_size c) < int (length content)
      then Some (Upload_Failed (Plain ''upload content exceeds max size''), s)
      else if (if gc_small_limit c \<le> 0 then default_small_file_limit else gc_small_limit c) < int (length content)
      then (case create_upload_session net c filename s of
              (Inl e, s') \<Rightarrow> Some (Upload_Failed e, s')
            | (Inr url, s') \<Rightarrow> upload_file_in_chunks net c url content s')
      else (let req = Put_Content (upload_url c filename) content in
            case graph_do net c req s of
              (Inl e, s') \<Rightarrow> Some (Upload_Failed e, s')
            | (Inr resp, s') \<Rightarrow>
                (case gn_read net req s' of
                   Some e \<Rightarrow> Some (Upload_Failed e, s')
                 | None \<Rightarrow>
                     (case final_item net c (resp_body resp) s' of
                        (Inr d, s'') \<Rightarrow> Some (Uploaded d, s'')
                      | (Inl e, s'') \<Rightarrow> Some (Upload_Failed e, s'')))))"

section \<open>The chunks\<close>

definition effective_chunk_size :: "graph_client \<Rightarrow> int" where
  "effective_chunk_size c = (if gc_chunk_size c \<le> 0 then default_chunk_size else gc_chunk_size c)"

text \<open>Sizes for which a chunk can be cut: the content and the chunk size fit into 62 bits.\<close>

definition sizes_ok :: "graph_client \<Rightarrow> string \<Rightarrow> bool" where
  "sizes_ok c content \<longleftrightarrow> effective_chunk_size c mod chunk_size_align = 0 \<and> effective_chunk_size c \<le> 2 ^ 62 \<and>
     int (length content) \<le> 2 ^ 62"

lemma effective_chunk_size_pos: "0 < effective_chunk_size c"
  by (simp add: effective_chunk_size_def default_chunk_size_def)

lemma chunk_end_bounds:
  assumes "0 \<le> start" and "start < tot" and "tot \<le> 2 ^ 62" and "0 < csize" and "csize \<le> 2 ^ 62"
  shows "start \<le> chunk_end csize tot start \<and> chunk_end csize tot start < tot \<and> chunk_end csize tot start - start < csize"
proof -
  have "wrap64 (start + csize - 1) = start + csize - 1"
    using assms by (intro wrap64_id) (simp add: int64_ok_def)
  then show ?thesis using assms by (auto simp: chunk_end_def Let_def)
qed

lemma slice_chunk:
  assumes "0 \<le> start" and "start < int (length content)" and "int (length content) \<le> 2 ^ 62" and "0 < csize" and "csize \<le> 2 ^ 62"
  shows "\<exists>chunk. slice content start (chunk_end csize (int (length content)) start + 1) = Some chunk \<and> chunk \<noteq> [] \<and>
    chunk = take (length chunk) (drop (nat start) content) \<and> int (length chunk) \<le> csize \<and>
    chunk_end csize (int (length content)) start = start + int (length chunk) - 1"
proof -
  define e where "e = chunk_end csize (int (length content)) start"
  have e: "start \<le> e" "e < int (length content)" "e - start < csize"
    using chunk_end_bounds [OF assms] by (simp_all add: e_def)
  let ?ch = "take (nat (e + 1 - start)) (drop (nat start) content)"
  have "length ?ch = nat (e + 1 - start)" using e assms(1) by simp
  then show ?thesis
    using e assms(1) unfolding e_def [symmetric] by (auto simp: slice_def)
qed

abbreviation going :: "string \<Rightarrow> 's upload_state \<Rightarrow> bool" where
  "going content u \<equiv> us_end u = None \<and> us_start u < int (length content)"

lemma next_start_nonneg: "next_start net body = Inr n \<Longrightarrow> 0 \<le> n"
  by (auto simp: next_start_def parse_next_expected_start_def Let_def split: sum.splits option.splits list.splits prod.splits if_splits)

text \<open>Whatever the server answers, a chunk is cut inside the content.\<close>

lemma chunk_step_cases:
  assumes "going content u" and "0 \<le> us_start u" and "int (length content) \<le> 2 ^ 62" and "0 < csize" and "csize \<le> 2 ^ 62"
  shows "0 \<le> us_start (chunk_step net c url csize content u) \<and> us_end (chunk_step net c url csize content u) \<noteq> Some Slice_Panic \<and>
    (us_end (chunk_step net c url csize content u) = None \<longrightarrow>
      (\<exists>chunk resp. chunk = take (length chunk) (drop (nat (us_start u)) content) \<and> chunk \<noteq> [] \<and>
         graph_do net c (Put_Chunk (trim_space url) (us_start u) (us_start u + int (length chunk) - 1) (int (length content)) chunk) (us_server u) =
           (Inr resp, us_server (chunk_step net c url csize content u)) \<and> resp_status resp = 202 \<and>
         next_start net (resp_body resp) = Inr (us_start (chunk_step net c url csize content u))))"
proof -
  obtain chunk where c: "slice content (us_start u) (chunk_end csize (int (length content)) (us_start u) + 1) = Some chunk" "chunk \<noteq> []"
    "chunk = take (length chunk) (drop (nat (us_start u)) content)"
    "chunk_end csize (int (length content)) (us_start u) = us_start u + int (length chunk) - 1"
    using slice_chunk [of "us_start u" content csize] assms by auto
  obtain res s' where d: "graph_do net c (Put_Chunk (trim_space url) (us_start u) (us_start u + int (length chunk) - 1)
      (int (length content)) chunk) (us_server u) = (res, s')" by force
  show ?thesis
    using assms(1,2) c d next_start_nonneg
    by (cases res) (auto simp: chunk_step_def Let_def split: sum.splits option.splits prod.splits)
qed

text \<open>
  A server that keeps the bytes it was sent: it takes at least one byte of each chunk, asks for the
  next missing one, and answers the last with the item.
\<close>

definition takes_chunks :: "string graph_net \<Rightarrow> graph_client \<Rightarrow> string \<Rightarrow> string \<Rightarrow> drive_item \<Rightarrow> bool" where
  "takes_chunks net c url content item \<longleftrightarrow>
     (\<forall>r chunk. chunk \<noteq> [] \<and> prefix (r @ chunk) content \<longrightarrow>
       (\<exists>k resp. 0 < k \<and> k \<le> length chunk \<and>
          (let req = Put_Chunk url (int (length r)) (int (length r) + int (length chunk) - 1) (int (length content)) chunk in
           graph_do net c req r = (Inr resp, r @ take k chunk) \<and>
           (if length r + k < length content
            then resp_status resp = 202 \<and> next_start net (resp_body resp) = Inr (int (length r + k))
            else resp_status resp \<in> {200, 201} \<and> gn_read net req (r @ take k chunk) = None \<and>
                 parse_uploaded_drive_item net (resp_body resp) = Inr item))))"

definition assembled :: "string \<Rightarrow> drive_item \<Rightarrow> string upload_state \<Rightarrow> bool" where
  "assembled content item u \<longleftrightarrow>
     (us_end u = None \<and> 0 \<le> us_start u \<and> us_start u < int (length content) \<and> us_server u = take (nat (us_start u)) content) \<or>
     (us_end u = Some (Uploaded item) \<and> us_server u = content)"

lemma chunk_step_assembles:
  assumes "takes_chunks net c (trim_space url) content item" and "int (length content) \<le> 2 ^ 62" and "0 < csize" and "csize \<le> 2 ^ 62"
    and "assembled content item u" and "going content u"
  shows "assembled content item (chunk_step net c url csize content u) \<and>
    (us_end (chunk_step net c url csize content u) = None \<longrightarrow> us_start u < us_start (chunk_step net c url csize content u))"
proof -
  have u: "0 \<le> us_start u" "us_start u < int (length content)" "us_server u = take (nat (us_start u)) content"
    using assms(5,6) by (auto simp: assembled_def)
  let ?r = "take (nat (us_start u)) content"
  have lr: "int (length ?r) = us_start u" using u by simp
  obtain chunk where c: "slice content (us_start u) (chunk_end csize (int (length content)) (us_start u) + 1) = Some chunk" "chunk \<noteq> []"
    "chunk = take (length chunk) (drop (nat (us_start u)) content)"
    "chunk_end csize (int (length content)) (us_start u) = us_start u + int (length chunk) - 1"
    using slice_chunk [of "us_start u" content csize] u assms(2-4) by auto
  have "?r @ chunk = take (nat (us_start u) + length chunk) content"
    using c(3) by (metis take_add)
  then have pre: "prefix (?r @ chunk) content" by (metis take_is_prefix)
  let ?req = "Put_Chunk (trim_space url) (us_start u) (us_start u + int (length chunk) - 1) (int (length content)) chunk"
  obtain k resp where k: "0 < k" "k \<le> length chunk" "graph_do net c ?req ?r = (Inr resp, ?r @ take k chunk)"
    and ans: "if length ?r + k < length content
       then resp_status resp = 202 \<and> next_start net (resp_body resp) = Inr (int (length ?r + k))
       else resp_status resp \<in> {200, 201} \<and> gn_read net ?req (?r @ take k chunk) = None \<and>
            parse_uploaded_drive_item net (resp_body resp) = Inr item"
    using assms(1) [unfolded takes_chunks_def Let_def, rule_format, OF conjI [OF c(2) pre], unfolded lr] by blast
  have got: "?r @ take k chunk = take (length ?r + k) content"
    using c(3) k(2) lr u(1) by (metis (no_types, lifting) length_take min.absorb1 min_def nat_int take_add take_take)
  show ?thesis
  proof (cases "length ?r + k < length content")
    case True
    then have "chunk_step net c url csize content u = u\<lparr>us_server := ?r @ take k chunk, us_start := int (length ?r + k)\<rparr>"
      using ans c(1,4) k(3) u(3) by (simp add: chunk_step_def Let_def)
    then show ?thesis
      using True got lr k(1) u(1) assms(6) by (auto simp: assembled_def nat_add_distrib)
  next
    case False
    then have "chunk_step net c url csize content u = u\<lparr>us_server := ?r @ take k chunk, us_end := Some (Uploaded item)\<rparr>"
      using ans c(1,4) k(3) u(3) by (auto simp: chunk_step_def Let_def final_item_def)
    moreover have "?r @ take k chunk = content" using False got by simp
    ultimately show ?thesis by (simp add: assembled_def)
  qed
qed

lemma chunk_loop_terminates:
  assumes init: "P u" and step: "\<And>u. P u \<Longrightarrow> going content u \<Longrightarrow> P (chunk_step net c url csize content u) \<and>
      (us_end (chunk_step net c url csize content u) = None \<longrightarrow> us_start u < us_start (chunk_step net c url csize content u))"
  shows "\<exists>u'. chunk_loop net c url csize content u = Some u' \<and> P u' \<and> \<not> going content u'"
proof -
  have "\<exists>u'. chunk_loop net c url csize content u = Some u'"
    unfolding chunk_loop_def
  proof (rule measure_while_option_Some [where P = P and
      f = "\<lambda>u. if us_end u = None then Suc (nat (int (length content) - us_start u)) else 0"])
    fix v assume v: "P v" "going content v"
    show "P (chunk_step net c url csize content v) \<and>
        (if us_end (chunk_step net c url csize content v) = None
         then Suc (nat (int (length content) - us_start (chunk_step net c url csize content v))) else 0) <
        (if us_end v = None then Suc (nat (int (length content) - us_start v)) else 0)"
      using step [OF v] v(2) by (simp add: zless_nat_conj)
  qed (rule init)
  then obtain u' where u': "chunk_loop net c url csize content u = Some u'" by blast
  have "P u'"
    by (rule while_option_rule [OF _ u' [unfolded chunk_loop_def]]) (use init step in auto)
  moreover have "\<not> going content u'"
    by (rule while_option_stop [OF u' [unfolded chunk_loop_def]])
  ultimately show ?thesis using u' by blast
qed

lemma chunk_loop_stalls:
  assumes "going content u" and "chunk_step net c url csize content u = u"
  shows "chunk_loop net c url csize content u = None"
proof -
  have "(chunk_step net c url csize content ^^ k) u = u" for k
    by (induction k) (simp_all add: assms(2))
  then show ?thesis using assms(1) by (simp add: chunk_loop_def while_option_def)
qed

lemma upload_file_in_chunks_loop:
  assumes "gc_has_http c" and "trim_space url \<noteq> []" and "content \<noteq> []" and "sizes_ok c content"
  shows "upload_file_in_chunks net c url content s = map_option
    (\<lambda>u. (case us_end u of Some x \<Rightarrow> x | None \<Rightarrow> Upload_Failed (Plain ''chunked upload did not complete''), us_server u))
    (chunk_loop net c url (effective_chunk_size c) content \<lparr>us_start = 0, us_server = s, us_end = None\<rparr>)"
  using assms effective_chunk_size_pos [of c]
  by (simp add: upload_file_in_chunks_def effective_chunk_size_def [symmetric] sizes_ok_def Let_def)

section \<open>An example\<close>

text \<open>A server that takes the two bytes of ''ab'' one at a time: its bodies are its answers.\<close>

definition example_item :: drive_item where
  "example_item = \<lparr>di_id = ''i'', di_unique_id = ''u'', di_site_url = ''s'', di_name = ''n'', di_size = 2\<rparr>"

definition item_json :: json where
  "item_json = JObj [(''id'', JStr ''i''), (''name'', JStr ''n''), (''size'', JNum ''2''),
     (''sharepointIds'', JObj [(''listItemUniqueId'', JStr ''u'')]),
     (''parentReference'', JObj [(''sharepointIds'', JObj [(''siteUrl'', JStr ''s'')])])]"

definition example_answer :: "string \<Rightarrow> http_response" where
  "example_answer r = (if r = [] then \<lparr>resp_status = 202, resp_retry_after = [], resp_body = ''next''\<rparr>
     else \<lparr>resp_status = 201, resp_retry_after = [], resp_body = ''item''\<rparr>)"

definition example_net :: "string graph_net" where
  "example_net = \<lparr>
     gn_env = (\<lambda>req r. \<lparr>env_ctx = (\<lambda>_. None), env_ctx_after = (\<lambda>_. None), env_send = (\<lambda>_. Answered (example_answer r)),
        env_sleep = (\<lambda>_ _. None), env_jitter = (\<lambda>_ d. d)\<rparr>),
     gn_next = (\<lambda>req r n. r @ (case req of Put_Chunk _ _ _ _ chunk \<Rightarrow> take 1 chunk | _ \<Rightarrow> [])),
     gn_read = (\<lambda>_ _. None), gn_retry_after = (\<lambda>_. 0),
     gn_first = (\<lambda>body. if body = ''next'' then Inr (JObj [(''nextExpectedRanges'', JArr [JStr ''1-'']) ]) else Inr item_json),
     gn_whole = (\<lambda>_. None), gn_url_err = (\<lambda>_. None)\<rparr>"

definition example_graph :: graph_client where
  "example_graph = \<lparr>gc_has_http = True, gc_executor = None, gc_token = ''t'', gc_base = [], gc_max_size = 0,
     gc_small_limit = 1, gc_chunk_size = 0\<rparr>"

lemma example_do:
  "graph_do example_net example_graph (Put_Chunk url a b n chunk) r = (Inr (example_answer r), r @ take 1 chunk)"
  by (simp add: graph_do_def example_net_def executor_do_def exec_loop.simps request_body_of_def request_for_attempt_def
      graph_classify_def classify_chunk_upload_def classify_response_def example_answer_def)

lemma example_next: "next_start example_net ''next'' = Inr 1"
  by (simp add: next_start_def example_net_def decode_ranges_def slice_field_def fold_eval parse_next_expected_start_def
      trim_space_plain plain_ends_def parse_int64_def parse_uint64_def Let_def)

lemma example_final: "parse_uploaded_drive_item example_net ''item'' = Inr example_item"
  by (simp add: parse_uploaded_drive_item_def example_net_def item_json_def example_item_def decode_drive_item_def
      string_field_def int_field_def struct_field_def fold_eval trim_space_plain plain_ends_def parse_int64_def parse_uint64_def)

lemma example_takes: "takes_chunks example_net example_graph url ''ab'' example_item"
  unfolding takes_chunks_def
proof (intro allI impI, elim conjE)
  fix r chunk :: string assume h: "chunk \<noteq> []" "prefix (r @ chunk) ''ab''"
  then have r: "r = [] \<or> r = ''a''" by (auto simp: prefix_Cons append_eq_Cons_conv)
  show "\<exists>k resp. 0 < k \<and> k \<le> length chunk \<and>
      (let req = Put_Chunk url (int (length r)) (int (length r) + int (length chunk) - 1) (int (length ''ab'')) chunk in
       graph_do example_net example_graph req r = (Inr resp, r @ take k chunk) \<and>
       (if length r + k < length ''ab''
        then resp_status resp = 202 \<and> next_start example_net (resp_body resp) = Inr (int (length r + k))
        else resp_status resp \<in> {200, 201} \<and> gn_read example_net req (r @ take k chunk) = None \<and>
             parse_uploaded_drive_item example_net (resp_body resp) = Inr example_item))"
    using r h(1) example_next example_final
    by (intro exI [of _ 1] exI [of _ "example_answer r"])
      (auto simp: example_do example_answer_def Let_def neq_Nil_conv, simp_all add: example_net_def)
qed

lemma example_sizes: "sizes_ok example_graph ''ab''"
  by (simp add: sizes_ok_def example_graph_def effective_chunk_size_def default_chunk_size_def chunk_size_align_def)

text \<open>And one that stalls: every chunk is answered with the range from 0 on.\<close>

definition stalled_net :: "string graph_net" where
  "stalled_net = example_net\<lparr>gn_next := (\<lambda>req r n. r),
     gn_first := (\<lambda>body. Inr (JObj [(''nextExpectedRanges'', JArr [JStr ''0-'']) ]))\<rparr>"

lemma stalled_do: "graph_do stalled_net example_graph (Put_Chunk url a b n chunk) r = (Inr (example_answer r), r)"
  by (simp add: graph_do_def stalled_net_def example_net_def executor_do_def exec_loop.simps request_body_of_def request_for_attempt_def
      graph_classify_def classify_chunk_upload_def classify_response_def example_answer_def)

lemma stalled_next: "next_start stalled_net body = Inr 0"
  by (simp add: next_start_def stalled_net_def decode_ranges_def slice_field_def fold_eval parse_next_expected_start_def
      trim_space_plain plain_ends_def parse_int64_def parse_uint64_def Let_def)

section \<open>Properties\<close>

text \<open>C17: A chunked upload delivers the file: with a server that keeps what it is sent, takes at least
  one byte of each chunk and asks for the next missing one, the upload ends for every content and
  every aligned chunk size, the server then holds exactly the content, and the item it answered the last
  chunk with is returned.\<close>

theorem chunked_upload_assembles:
  assumes "gc_has_http c" and "trim_space url \<noteq> []" and "content \<noteq> []" and "sizes_ok c content"
    and "takes_chunks net c (trim_space url) content item"
  shows "upload_file_in_chunks net c url content [] = Some (Uploaded item, content)"
proof -
  have size: "int (length content) \<le> 2 ^ 62" "effective_chunk_size c \<le> 2 ^ 62"
    using assms(4) by (simp_all add: sizes_ok_def)
  have "assembled content item \<lparr>us_start = 0, us_server = [], us_end = None\<rparr>"
    using assms(3) by (simp add: assembled_def)
  then have "\<exists>u. chunk_loop net c url (effective_chunk_size c) content \<lparr>us_start = 0, us_server = [], us_end = None\<rparr> = Some u \<and>
      assembled content item u \<and> \<not> going content u"
    by (rule chunk_loop_terminates) (rule chunk_step_assembles [OF assms(5) size(1) effective_chunk_size_pos size(2)])
  then obtain u where "chunk_loop net c url (effective_chunk_size c) content \<lparr>us_start = 0, us_server = [], us_end = None\<rparr> = Some u"
    "assembled content item u" "\<not> going content u" by blast
  then show ?thesis
    using upload_file_in_chunks_loop [OF assms(1-4), of net "[]"] by (auto simp: assembled_def)
qed

theorem chunked_upload_assembles_witness:
  "upload_file_in_chunks example_net example_graph ''u'' ''ab'' [] = Some (Uploaded example_item, ''ab'')"
  using chunked_upload_assembles [OF _ _ _ example_sizes example_takes, of "''u''"]
  by (simp add: example_graph_def trim_space_plain plain_ends_def)

text \<open>The server never asks for bytes up to the first one of the chunk it was sent.\<close>

definition moves_on :: "'s graph_net \<Rightarrow> graph_client \<Rightarrow> bool" where
  "moves_on net c \<longleftrightarrow> (\<forall>url start last tot chunk s resp s' n.
     graph_do net c (Put_Chunk url start last tot chunk) s = (Inr resp, s') \<and> resp_status resp = 202 \<and>
     next_start net (resp_body resp) = Inr n \<longrightarrow> start < n)"

text \<open>C18: The loop of chunks ends when every intermediate answer moves on, whatever else the server
  answers, and it never cuts a chunk outside the content.  But the loop itself checks no progress: with a
  server that answers a chunk 202 and asks for the same range again, in the same state, it never ends.\<close>

theorem chunked_upload_ends:
  assumes "gc_has_http c" and "trim_space url \<noteq> []" and "content \<noteq> []" and "sizes_ok c content"
  shows "(moves_on net c \<longrightarrow> (\<exists>e s'. upload_file_in_chunks net c url content s = Some (e, s'))) \<and>
    (\<forall>e s'. upload_file_in_chunks net c url content s = Some (e, s') \<longrightarrow> e \<noteq> Slice_Panic) \<and>
    (\<forall>resp. (\<forall>last chunk. graph_do net c (Put_Chunk (trim_space url) 0 last (int (length content)) chunk) s = (Inr resp, s)) \<and>
        resp_status resp = 202 \<and> next_start net (resp_body resp) = Inr 0 \<longrightarrow>
      upload_file_in_chunks net c url content s = None)"
proof -
  let ?u = "\<lparr>us_start = 0, us_server = s, us_end = None\<rparr>"
  let ?P = "\<lambda>u :: 'a upload_state. 0 \<le> us_start u \<and> us_end u \<noteq> Some Slice_Panic"
  note loop = upload_file_in_chunks_loop [OF assms, of net s]
  have size: "int (length content) \<le> 2 ^ 62" "effective_chunk_size c \<le> 2 ^ 62"
    using assms(4) by (simp_all add: sizes_ok_def)
  note cut = chunk_step_cases [OF _ _ size(1) effective_chunk_size_pos size(2)]
  have ends: "\<exists>e s'. upload_file_in_chunks net c url content s = Some (e, s')" if m: "moves_on net c"
  proof -
    have "\<exists>u'. chunk_loop net c url (effective_chunk_size c) content ?u = Some u' \<and> ?P u' \<and> \<not> going content u'"
    proof (rule chunk_loop_terminates)
      fix u assume u: "?P u" "going content u"
      then show "?P (chunk_step net c url (effective_chunk_size c) content u) \<and>
          (us_end (chunk_step net c url (effective_chunk_size c) content u) = None \<longrightarrow>
           us_start u < us_start (chunk_step net c url (effective_chunk_size c) content u))"
        using cut [OF u(2), of net c url] m unfolding moves_on_def by blast
    qed simp
    then show ?thesis using loop by auto
  qed
  have safe: "e \<noteq> Slice_Panic" if r: "upload_file_in_chunks net c url content s = Some (e, s')" for e s'
  proof -
    obtain u where u: "chunk_loop net c url (effective_chunk_size c) content ?u = Some u"
      "e = (case us_end u of Some x \<Rightarrow> x | None \<Rightarrow> Upload_Failed (Plain ''chunked upload did not complete''))"
      using r loop by auto
    have "?P u"
      by (rule while_option_rule [OF _ u(1) [unfolded chunk_loop_def]]) (use cut in auto)
    then show ?thesis using u(2) by (auto split: option.splits)
  qed
  have stall: "upload_file_in_chunks net c url content s = None"
    if r: "\<And>last chunk. graph_do net c (Put_Chunk (trim_space url) 0 last (int (length content)) chunk) s = (Inr resp, s)"
      "resp_status resp = 202" "next_start net (resp_body resp) = Inr 0" for resp
  proof -
    have "\<exists>chunk. slice content 0 (chunk_end (effective_chunk_size c) (int (length content)) 0 + 1) = Some chunk"
      using slice_chunk [of 0 content "effective_chunk_size c"] assms(3) size effective_chunk_size_pos by auto
    then have "chunk_step net c url (effective_chunk_size c) content ?u = ?u"
      using r by (auto simp: chunk_step_def Let_def)
    then show ?thesis using chunk_loop_stalls [of ?u content] assms(3) loop by simp
  qed
  show ?thesis using ends safe stall by blast
qed

theorem chunked_upload_ends_witness:
  "upload_file_in_chunks stalled_net example_graph ''u'' ''ab'' [] = None"
proof -
  have "gc_has_http example_graph" "trim_space ''u'' \<noteq> []"
    by (simp_all add: example_graph_def trim_space_plain plain_ends_def)
  then show ?thesis
    using chunked_upload_ends [OF _ _ _ example_sizes, of "''u''" stalled_net "[]"] stalled_do stalled_next
    by (auto simp: example_answer_def)
qed

end
