(* ===== verification/Auth_Tokens.thy ===== *)
theory Auth_Tokens
  imports Reachability Teams_Message Executor Go_Url Thread_Store "HOL-Library.AList"
begin

text \<open>
  The tokens of a login: the OAuth client of a login (storage_extractor.go), grants at the identity
  provider and the exchange for a Skype token (internal/teams/auth), the refreshes the loops and the
  handlers ask for before every request (sync_loop.go, graph_token.go, resource_tokens.go), and the
  client's connect, logout and login state (client.go).

  The client exists with its login and metadata, as \<open>LoadUserLogin\<close> sets them up; \<open>tokenMu\<close> makes each
  refresh one step.  The identity provider, the clock, the JSON, base64 and URL parsers, the database's
  error and the profile table are the parameters of \<open>token_env\<close>.  Logging is left out.
\<close>

section \<open>Data\<close>

record login_meta =
  lm_refresh :: string
  lm_access_expires :: int
  lm_skype :: string
  lm_skype_expires :: int
  lm_graph :: string
  lm_graph_expires :: int
  lm_user_id :: string
  lm_chat_url :: string
  lm_ams_url :: string
  lm_middle_url :: string
  lm_method :: string
  lm_client_id :: string
  lm_refresh_scope :: string
  lm_tenant_id :: string
  lm_authorize :: string
  lm_token_ep :: string
  lm_skype_ep :: string
  lm_redirect :: string

definition blank_meta :: login_meta where
  "blank_meta = \<lparr>lm_refresh = [], lm_access_expires = 0, lm_skype = [], lm_skype_expires = 0, lm_graph = [],
     lm_graph_expires = 0, lm_user_id = [], lm_chat_url = [], lm_ams_url = [], lm_middle_url = [], lm_method = [],
     lm_client_id = [], lm_refresh_scope = [], lm_tenant_id = [], lm_authorize = [], lm_token_ep = [], lm_skype_ep = [],
     lm_redirect = []\<rparr>"

record teams_config =
  cf_client_id :: string
  cf_authorize :: string
  cf_token_ep :: string
  cf_skype_ep :: string
  cf_redirect :: string
  cf_graph_scope :: string

record auth_client =
  ac_authorize :: string
  ac_token_ep :: string
  ac_skype_ep :: string
  ac_client_id :: string
  ac_redirect :: string
  ac_scopes :: "string list"

record auth_state =
  as_access :: string
  as_refresh :: string
  as_expires :: int
  as_id :: string
  as_graph :: string
  as_graph_expires :: int

record skype_result =
  sk_token :: string
  sk_expires :: int
  sk_id :: string
  sk_chat_url :: string
  sk_ams_url :: string
  sk_middle_url :: string

record token_env =
  te_now :: gotime
  te_clock :: gotime
  te_config :: teams_config
  te_superseded :: bool
  te_attached :: bool
  te_save_err :: "go_error option"
  te_post :: "auth_client \<Rightarrow> (string \<times> string) list \<Rightarrow> http_outcome"
  te_exchange :: "string \<Rightarrow> string \<Rightarrow> http_outcome"
  te_json :: "string \<Rightarrow> json option"
  te_json_first :: "string \<Rightarrow> json option"
  te_base64 :: "string \<Rightarrow> string option"
  te_url :: "string \<Rightarrow> (string \<times> string) option"
  te_profile :: "string \<Rightarrow> profile option"

text \<open>What was asked of the identity provider, for what, and what it answered.\<close>

datatype purpose = For_Skype | For_Graph | For_Resource

datatype idp_call =
    Grant purpose "string list" string "go_error + auth_state"
  | Skype_Exchange string "go_error + skype_result"

record resource_token_entry =
  rt_token :: string
  rt_expiry :: gotime
  rt_refresh :: refresh_failure

text \<open>The consumer client the connector keeps: its token and addresses.\<close>

record consumer =
  co_token :: string
  co_conversations_url :: string
  co_messages_url :: string
  co_send_url :: string
  co_horizons_url :: string

record token_world =
  tw_meta :: login_meta
  tw_saved :: login_meta
  tw_logged_in :: bool
  tw_skype_fail :: refresh_failure
  tw_graph_fail :: refresh_failure
  tw_resources :: "(string \<times> resource_token_entry) list"
  tw_consumer :: "consumer option"
  tw_remote_name :: string
  tw_conn :: conn_state
  tw_calls :: "idp_call list"

section \<open>The OAuth client of a login\<close>

definition default_auth_client :: auth_client where
  "default_auth_client = \<lparr>ac_authorize = ''https://login.live.com/oauth20_authorize.srf'',
     ac_token_ep = ''https://login.microsoftonline.com/consumers/oauth2/v2.0/token'',
     ac_skype_ep = ''https://teams.live.com/api/auth/v1.0/authz/consumer'',
     ac_client_id = ''4b3e8f46-56d3-427f-b1e2-d239b2ea6bca'', ac_redirect = ''https://teams.live.com/v2'',
     ac_scopes = [''openid'', ''profile'', ''offline_access'', ''https://graph.microsoft.com/Files.ReadWrite'',
       ''https://graph.microsoft.com/Team.ReadBasic.All'', ''https://graph.microsoft.com/Channel.ReadBasic.All'']\<rparr>"

definition overridden :: "string \<Rightarrow> string \<Rightarrow> string" where
  "overridden v old = (if trim_space v \<noteq> [] then trim_space v else old)"

definition new_configured_auth_client :: "teams_config \<Rightarrow> login_meta \<Rightarrow> auth_client" where
  "new_configured_auth_client cf m =
     (let c = default_auth_client in
      \<lparr>ac_authorize = overridden (lm_authorize m) (overridden (cf_authorize cf) (ac_authorize c)),
       ac_token_ep = overridden (lm_token_ep m) (overridden (cf_token_ep cf) (ac_token_ep c)),
       ac_skype_ep = overridden (lm_skype_ep m) (overridden (cf_skype_ep cf) (ac_skype_ep c)),
       ac_client_id = overridden (lm_client_id m) (overridden (cf_client_id cf) (ac_client_id c)),
       ac_redirect = overridden (lm_redirect m) (overridden (cf_redirect cf) (ac_redirect c)),
       ac_scopes = ac_scopes c\<rparr>)"

definition tenant_token_endpoint :: "teams_config \<Rightarrow> string" where
  "tenant_token_endpoint cf =
     (let ep = trim_space (cf_token_ep cf); low = to_lower ep in
      if ep = [] \<or> sublist ''/common/'' low \<or> sublist ''/consumers/'' low then [] else ep)"

definition mbi_token_endpoint :: string where
  "mbi_token_endpoint = ''https://login.microsoftonline.com/common/oauth2/v2.0/token''"

definition mbi_token_endpoint_for :: "(string \<Rightarrow> (string \<times> string) option) \<Rightarrow> string \<Rightarrow> string" where
  "mbi_token_endpoint_for parse configured =
     (let t = trim_space configured in
      if t = [] then mbi_token_endpoint
      else case parse t of
             None \<Rightarrow> mbi_token_endpoint
           | Some (_, host) \<Rightarrow> if equal_fold host ''login.microsoftonline.com'' then mbi_token_endpoint else t)"

definition mbi_refresh_scope :: string where
  "mbi_refresh_scope = ''service::api.fl.spaces.skype.com::MBI_SSL''"

definition skype_spaces_scopes :: "string list" where
  "skype_spaces_scopes = [''https://api.spaces.skype.com/.default'', ''openid'', ''profile'', ''offline_access'']"

definition default_graph_scope :: string where
  "default_graph_scope = ''https://graph.microsoft.com/Files.ReadWrite https://graph.microsoft.com/Team.ReadBasic.All https://graph.microsoft.com/Channel.ReadBasic.All https://graph.microsoft.com/Presence.Read.All offline_access''"

definition device_code_graph_scope :: "teams_config \<Rightarrow> string" where
  "device_code_graph_scope cf = overridden (cf_graph_scope cf) default_graph_scope"

text \<open>\<open>strings.Fields\<close>: the words between white space; Unicode spaces inside a scope are not told apart.\<close>

definition scope_space :: "char \<Rightarrow> bool" where
  "scope_space c \<longleftrightarrow> (let n = (of_char c :: nat) in 9 \<le> n \<and> n \<le> 13 \<or> n = 32)"

fun words_loop :: "string \<Rightarrow> string \<Rightarrow> string list" where
  "words_loop w [] = (if w = [] then [] else [rev w])"
| "words_loop w (c # s) =
     (if scope_space c then (if w = [] then words_loop [] s else rev w # words_loop [] s) else words_loop (c # w) s)"

definition scope_words :: "string \<Rightarrow> string list" where
  "scope_words s = words_loop [] s"

section \<open>Grants\<close>

definition mbi_access_token_marker :: string where
  "mbi_access_token_marker = ''service::api.fl.spaces.skype.com::mbi_ssl''"

fun persist_loop :: "string list \<Rightarrow> bool" where
  "persist_loop [] = False"
| "persist_loop (p # ps) =
     (if sublist mbi_access_token_marker p then False
      else if sublist ''graph.microsoft.com'' p \<or> suffix ''files.readwrite'' p then True
      else persist_loop ps)"

definition should_persist_graph_token :: "string \<Rightarrow> bool" where
  "should_persist_graph_token scope =
     (let t = trim_space scope in if t = [] then True else persist_loop (scope_words (to_lower t)))"

definition unix_seconds :: "gotime \<Rightarrow> int" where
  "unix_seconds t = (t - unix_epoch) div second"

definition parse_token_response :: "token_env \<Rightarrow> string \<Rightarrow> string \<Rightarrow> go_error + auth_state" where
  "parse_token_response env body scope =
     (case te_json_first env body of
        None \<Rightarrow> Inl json_error
      | Some j \<Rightarrow>
          (case (string_field ''access_token'' j, string_field ''refresh_token'' j, int_field ''expires_in'' j, string_field ''id_token'' j) of
             (Some access, Some refresh, Some expires, Some ident) \<Rightarrow>
               if access = [] then Inl (Plain ''token response missing access_token'')
               else (let at = (if 0 < expires then unix_seconds (te_clock env + mul64 expires second) else 0);
                         keep = should_persist_graph_token scope in
                     Inr \<lparr>as_access = access, as_refresh = refresh, as_expires = at, as_id = ident,
                       as_graph = (if keep then access else []),
                       as_graph_expires = (if keep \<and> 0 < expires then at else 0)\<rparr>)
           | _ \<Rightarrow> Inl json_error))"

text \<open>The text of an answer that is not 2xx, cut off at 400 bytes.\<close>

definition endpoint_error :: "string \<Rightarrow> string \<Rightarrow> int \<Rightarrow> go_error" where
  "endpoint_error what body status =
     (let s = trim_space body; snippet = (if 400 < length s then take 400 s @ ''...(truncated)'' else s);
          base = what @ '' endpoint returned non-2xx status: '' @ show_int status in
      Plain (if snippet = [] then base else base @ '' body='' @ snippet))"

definition token_request :: "token_env \<Rightarrow> auth_client \<Rightarrow> (string \<times> string) list \<Rightarrow> go_error + auth_state" where
  "token_request env c values =
     (case te_post env c values of
        NoAnswer e \<Rightarrow> Inl e
      | Answered r \<Rightarrow>
          if resp_status r < 200 \<or> 300 \<le> resp_status r then Inl (endpoint_error ''token'' (resp_body r) (resp_status r))
          else parse_token_response env (resp_body r) (case map_of values ''scope'' of Some s \<Rightarrow> s | None \<Rightarrow> []))"

definition refresh_form :: "auth_client \<Rightarrow> string \<Rightarrow> (string \<times> string) list" where
  "refresh_form c refresh =
     [(''client_id'', ac_client_id c), (''grant_type'', ''refresh_token''), (''refresh_token'', refresh)] @
     (if ac_scopes c \<noteq> [] then [(''scope'', join_with '' '' (ac_scopes c))] else [])"

definition refresh_access_token :: "token_env \<Rightarrow> auth_client \<Rightarrow> string \<Rightarrow> go_error + auth_state" where
  "refresh_access_token env c refresh =
     (if refresh = [] then Inl (Plain ''missing refresh token'') else token_request env c (refresh_form c refresh))"

text \<open>The attempts for a Graph token, in order, with the calls they make: the first success counts.\<close>

fun first_grant ::
  "token_env \<Rightarrow> string \<Rightarrow> auth_client list \<Rightarrow> go_error list \<Rightarrow> idp_call list \<Rightarrow> (go_error list + auth_state) \<times> idp_call list" where
  "first_grant env refresh [] errs calls = (Inl (rev errs), calls)"
| "first_grant env refresh (c # cs) errs calls =
     (let r = refresh_access_token env c refresh; calls1 = calls @ [Grant For_Graph (ac_scopes c) refresh r] in
      case r of Inr st \<Rightarrow> (Inr st, calls1) | Inl e \<Rightarrow> first_grant env refresh cs (e # errs) calls1)"

definition graph_scopes :: "string list" where
  "graph_scopes = [''https://graph.microsoft.com/Files.ReadWrite'', ''https://graph.microsoft.com/Team.ReadBasic.All'',
     ''https://graph.microsoft.com/Channel.ReadBasic.All'']"

definition graph_clients :: "auth_client \<Rightarrow> auth_client list" where
  "graph_clients c = [c\<lparr>ac_scopes := graph_scopes\<rparr>, c\<lparr>ac_scopes := [''openid'', ''profile'', ''offline_access''] @ graph_scopes\<rparr>,
     c\<lparr>ac_scopes := [''https://graph.microsoft.com/.default'']\<rparr>]"

definition three_errors :: "go_error list \<Rightarrow> go_error" where
  "three_errors errs = Plain (''graph scope refresh failed ('' @ err_text (errs ! 0) @ ''); fallback scopes failed ('' @
     err_text (errs ! 1) @ ''); .default failed ('' @ err_text (errs ! 2) @ '')'')"

text \<open>A device code login or a tenant first asks for the configured Graph scope.\<close>

definition own_graph_clients :: "token_env \<Rightarrow> auth_client \<Rightarrow> login_meta \<Rightarrow> auth_client list" where
  "own_graph_clients env c m =
     (if trim_space (lm_refresh_scope m) \<noteq> [] \<or> tenant_token_endpoint (te_config env) \<noteq> []
      then [c\<lparr>ac_scopes := scope_words (device_code_graph_scope (te_config env))\<rparr>] else [])"

definition refresh_for_graph ::
  "token_env \<Rightarrow> auth_client \<Rightarrow> string \<Rightarrow> login_meta \<Rightarrow> (go_error + auth_state) \<times> idp_call list" where
  "refresh_for_graph env c refresh m =
     (let own = own_graph_clients env c m in
      case first_grant env refresh (own @ graph_clients c) [] [] of
        (Inr st, calls) \<Rightarrow> (Inr st, calls)
      | (Inl errs, calls) \<Rightarrow> (Inl (three_errors (drop (length own) errs)), calls))"

section \<open>The Skype token\<close>

record skype_inner =
  si_token :: string
  si_expires_in :: int
  si_id :: string
  si_alt :: string

definition no_inner :: skype_inner where
  "no_inner = \<lparr>si_token = [], si_expires_in = 0, si_id = [], si_alt = []\<rparr>"

text \<open>
  Two fields of \<open>skypeTokenInner\<close> differ in case only: a key that is exactly one of them goes to it, any
  other spelling to the first.
\<close>

definition keyed :: "(string \<Rightarrow> bool) \<Rightarrow> (string \<times> json) list \<Rightarrow> json list" where
  "keyed p kvs = map snd (filter (\<lambda>(k, _). p k) kvs)"

fun into_bool :: "bool \<Rightarrow> json list \<Rightarrow> bool option" where
  "into_bool cur [] = Some cur"
| "into_bool cur (JBool b # vs) = into_bool b vs"
| "into_bool cur (JNull # vs) = into_bool cur vs"
| "into_bool cur (v # vs) = None"

definition decode_inner :: "skype_inner \<Rightarrow> json \<Rightarrow> skype_inner option" where
  "decode_inner cur j =
     (case j of
        JNull \<Rightarrow> Some cur
      | JObj kvs \<Rightarrow>
          (case (into_string (si_token cur) (keyed (\<lambda>k. equal_fold k ''skypetoken'' \<and> k \<noteq> ''skypeToken'') kvs),
                 into_int64 (si_expires_in cur) (keyed (\<lambda>k. equal_fold k ''expiresIn'') kvs),
                 into_string (si_id cur) (keyed (\<lambda>k. equal_fold k ''skypeid'') kvs),
                 into_string (si_alt cur) (keyed (\<lambda>k. k = ''skypeToken'') kvs),
                 into_string [] (keyed (\<lambda>k. equal_fold k ''signinname'') kvs),
                 into_bool False (keyed (\<lambda>k. equal_fold k ''isBusinessTenant'') kvs),
                 into_string [] (keyed (\<lambda>k. equal_fold k ''tokenType'') kvs)) of
             (Some t, Some e, Some i, Some a, Some _, Some _, Some _) \<Rightarrow>
               Some \<lparr>si_token = t, si_expires_in = e, si_id = i, si_alt = a\<rparr>
           | _ \<Rightarrow> None)
      | _ \<Rightarrow> None)"

fun decode_inners :: "skype_inner \<Rightarrow> json list \<Rightarrow> skype_inner option" where
  "decode_inners cur [] = Some cur"
| "decode_inners cur (j # js) = Option.bind (decode_inner cur j) (\<lambda>c. decode_inners c js)"

text \<open>The region's addresses: chat service, AMS and middle tier.\<close>

definition decode_region :: "json list \<Rightarrow> (string \<times> string \<times> string) option" where
  "decode_region js =
     (let texts = (\<lambda>f. map (string_field f) js) in
      if list_all (\<lambda>j. list_all (\<lambda>f. string_field f j \<noteq> None) [''chatService'', ''chatServiceAfd'', ''ams'', ''amsV2'', ''middleTier'']) js
      then Some (the (into_string [] (concat (map (\<lambda>j. the (field_values ''chatService'' j)) js))),
                 the (into_string [] (concat (map (\<lambda>j. the (field_values ''ams'' j)) js))),
                 the (into_string [] (concat (map (\<lambda>j. the (field_values ''middleTier'' j)) js))))
      else None)"

definition decode_skype_response :: "json \<Rightarrow> (skype_inner \<times> skype_inner \<times> string \<times> string \<times> string) option" where
  "decode_skype_response j =
     Option.bind (field_values ''skypeToken'' j) (\<lambda>vs.
     Option.bind (decode_inners no_inner vs) (\<lambda>consumer.
     Option.bind (field_values ''tokens'' j) (\<lambda>ts.
     Option.bind (decode_inners no_inner ts) (\<lambda>tokens.
     Option.bind (field_values ''regionGtms'' j) (\<lambda>rs.
     map_option (\<lambda>(chat, ams, mt). (consumer, tokens, chat, ams, mt)) (decode_region rs))))))"

text \<open>The second part of a JWT, decoded.\<close>

definition skype_id_of_jwt :: "token_env \<Rightarrow> string \<Rightarrow> string" where
  "skype_id_of_jwt env token =
     (let parts = split_on (CHR ''.'') token in
      if length parts < 2 then []
      else case Option.bind (Option.bind (te_base64 env (parts ! 1)) (te_json env)) (string_field ''skypeid'') of
             Some i \<Rightarrow> i
           | None \<Rightarrow> [])"

definition skype_token_of :: "token_env \<Rightarrow> string \<Rightarrow> go_error + skype_result" where
  "skype_token_of env body =
     (case Option.bind (te_json env body) decode_skype_response of
        None \<Rightarrow> Inl json_error
      | Some (consumer, tokens, chat, ams, mt) \<Rightarrow>
          (let inner = (if si_token consumer = [] \<and> si_alt consumer = [] then tokens else consumer);
               token = (if si_token inner = [] then si_alt inner else si_token inner) in
           if token = [] then Inl (Plain ''skypetoken response missing token'')
           else Inr \<lparr>sk_token = token,
             sk_expires = (if 0 < si_expires_in inner then unix_seconds (te_clock env + mul64 (si_expires_in inner) second) else 0),
             sk_id = (if si_id inner = [] then skype_id_of_jwt env token else si_id inner),
             sk_chat_url = trim_space chat, sk_ams_url = trim_space ams, sk_middle_url = trim_space mt\<rparr>))"

definition acquire_skype_token :: "token_env \<Rightarrow> auth_client \<Rightarrow> string \<Rightarrow> go_error + skype_result" where
  "acquire_skype_token env c access =
     (if ac_skype_ep c = [] then Inl (Plain ''skype token endpoint not configured'')
      else if access = [] then Inl (Plain ''missing access token for skypetoken acquisition'')
      else case te_exchange env (ac_skype_ep c) access of
             NoAnswer e \<Rightarrow> Inl e
           | Answered r \<Rightarrow>
               if resp_status r < 200 \<or> 300 \<le> resp_status r
               then Inl (endpoint_error ''skypetoken'' (take 2048 (resp_body r)) (resp_status r))
               else skype_token_of env (resp_body r))"

definition normalize_auth_user_id :: "string \<Rightarrow> string" where
  "normalize_auth_user_id v =
     (let t = trim_space v in if t = [] then [] else if prefix ''8:'' t then t else ''8:'' @ t)"

section \<open>The client's tokens\<close>

definition save_login :: "token_env \<Rightarrow> token_world \<Rightarrow> go_error option \<times> token_world" where
  "save_login env w =
     (if \<not> te_attached env \<or> te_superseded env then (None, w)
      else case te_save_err env of Some e \<Rightarrow> (Some e, w) | None \<Rightarrow> (None, w\<lparr>tw_saved := tw_meta w\<rparr>))"

definition note_call :: "idp_call \<Rightarrow> token_world \<Rightarrow> token_world" where
  "note_call c w = w\<lparr>tw_calls := tw_calls w @ [c]\<rparr>"

definition skype_expiry_skew :: duration where "skype_expiry_skew = 60 * second"
definition graph_expiry_skew :: duration where "graph_expiry_skew = 60 * second"

definition skype_token_valid :: "gotime \<Rightarrow> login_meta \<Rightarrow> bool" where
  "skype_token_valid now m \<longleftrightarrow>
     lm_skype m \<noteq> [] \<and> lm_skype_expires m \<noteq> 0 \<and> now + skype_expiry_skew < of_unix (lm_skype_expires m)"

definition graph_token_valid :: "gotime \<Rightarrow> login_meta \<Rightarrow> bool" where
  "graph_token_valid now m \<longleftrightarrow>
     trim_space (lm_graph m) \<noteq> [] \<and> lm_graph_expires m \<noteq> 0 \<and> now + graph_expiry_skew < of_unix (lm_graph_expires m)"

definition get_graph_access_token :: "gotime \<Rightarrow> login_meta \<Rightarrow> go_error + string" where
  "get_graph_access_token now m =
     (if trim_space (lm_graph m) = [] then Inl (Plain ''missing graph access token'')
      else if \<not> graph_token_valid now m
      then Inl (Wrapped (Plain ''graph access token expired'') ('' (expires_at='' @ format_rfc3339 (of_unix (lm_graph_expires m)) @ '')''))
      else Inr (trim_space (lm_graph m)))"

definition apply_token_to_consumer :: "login_meta \<Rightarrow> consumer \<Rightarrow> consumer" where
  "apply_token_to_consumer m c =
     (let c1 = c\<lparr>co_token := lm_skype m\<rparr>; chat = trim_space (lm_chat_url m) in
      if chat = [] then c1
      else (let base = trim_right_char (CHR ''/'') chat; convs = base @ ''/v1/users/ME/conversations'' in
            c1\<lparr>co_conversations_url := convs, co_messages_url := convs, co_send_url := convs,
               co_horizons_url := base @ ''/v1/threads''\<rparr>))"

definition new_consumer :: "login_meta \<Rightarrow> consumer" where
  "new_consumer m = apply_token_to_consumer m
     \<lparr>co_token = [], co_conversations_url = ''https://teams.live.com/api/chatsvc/consumer/v1/users/ME/conversations'',
      co_messages_url = [], co_send_url = ''https://teams.live.com/api/chatsvc/consumer/v1/users/ME/conversations'',
      co_horizons_url = ''https://teams.live.com/api/chatsvc/consumer/v1/threads''\<rparr>"

definition remote_display_name :: "token_env \<Rightarrow> string \<Rightarrow> string" where
  "remote_display_name env i =
     (if i = [] then i
      else case te_profile env i of
             Some p \<Rightarrow> if trim_space (prof_name p) \<noteq> [] then trim_space (prof_name p) else i
           | None \<Rightarrow> i)"

text \<open>The client and scopes of a Skype refresh: the login's own scope, the tenant's, or the consumer one.\<close>

definition skype_auth_client :: "token_env \<Rightarrow> login_meta \<Rightarrow> auth_client" where
  "skype_auth_client env m =
     (let c = new_configured_auth_client (te_config env) m; scope = trim_space (lm_refresh_scope m);
          ep = tenant_token_endpoint (te_config env) in
      if scope \<noteq> [] then c\<lparr>ac_scopes := scope_words scope\<rparr>
      else if ep \<noteq> [] then c\<lparr>ac_scopes := skype_spaces_scopes, ac_token_ep := ep\<rparr>
      else c\<lparr>ac_scopes := [mbi_refresh_scope], ac_token_ep := mbi_token_endpoint_for (te_url env) (ac_token_ep c)\<rparr>)"

text \<open>The metadata after a grant and an exchange that both worked.\<close>

definition granted_meta :: "auth_state \<Rightarrow> skype_result \<Rightarrow> login_meta \<Rightarrow> login_meta" where
  "granted_meta st sk m =
     (let m1 = m\<lparr>lm_access_expires := as_expires st, lm_skype := sk_token sk, lm_skype_expires := sk_expires sk\<rparr>;
          m2 = (if trim_space (as_graph st) \<noteq> [] \<and> as_graph_expires st \<noteq> 0
                then m1\<lparr>lm_graph := trim_space (as_graph st), lm_graph_expires := as_graph_expires st\<rparr> else m1);
          m3 = m2\<lparr>lm_user_id := normalize_auth_user_id (sk_id sk)\<rparr>;
          m4 = (if sk_chat_url sk \<noteq> [] then m3\<lparr>lm_chat_url := sk_chat_url sk\<rparr> else m3);
          m5 = (if sk_middle_url sk \<noteq> [] then m4\<lparr>lm_middle_url := sk_middle_url sk\<rparr> else m4)
      in if sk_ams_url sk \<noteq> [] then m5\<lparr>lm_ams_url := sk_ams_url sk\<rparr> else m5)"

definition renewed :: "auth_state \<Rightarrow> login_meta \<Rightarrow> login_meta" where
  "renewed st m = (if trim_space (as_refresh st) \<noteq> [] then m\<lparr>lm_refresh := trim_space (as_refresh st)\<rparr> else m)"

definition refresh_skype_token :: "token_env \<Rightarrow> string \<Rightarrow> token_world \<Rightarrow> go_error option \<times> token_world" where
  "refresh_skype_token env refresh w =
     (let c = skype_auth_client env (tw_meta w); now = te_now env; r = refresh_access_token env c refresh;
          w1 = note_call (Grant For_Skype (ac_scopes c) refresh r) w in
      case r of
        Inl e \<Rightarrow> (Some e, w1\<lparr>tw_skype_fail := refresh_record (tw_skype_fail w1) now e,
                             tw_logged_in := (if is_permanent_refresh_error e then False else tw_logged_in w1)\<rparr>)
      | Inr st \<Rightarrow>
          (let w2 = w1\<lparr>tw_meta := renewed st (tw_meta w1)\<rparr>;
               rotated = (trim_space (as_refresh st) \<noteq> [] \<and> trim_space (as_refresh st) \<noteq> refresh);
               x = acquire_skype_token env c (as_access st);
               w3 = note_call (Skype_Exchange (as_access st) x) w2 in
           case x of
             Inl e \<Rightarrow> (let w4 = w3\<lparr>tw_skype_fail := refresh_record (tw_skype_fail w3) now e\<rparr> in
                       (Some e, if rotated then snd (save_login env w4) else w4))
           | Inr sk \<Rightarrow>
               (let m = granted_meta st sk (tw_meta w3);
                    w4 = w3\<lparr>tw_skype_fail := refresh_reset (tw_skype_fail w3),
                            tw_conn := clear_bad_credentials (te_superseded env) (tw_conn w3), tw_meta := m,
                            tw_remote_name := remote_display_name env (lm_user_id m),
                            tw_consumer := map_option (apply_token_to_consumer m) (tw_consumer w3)\<rparr>
                in (None, snd (save_login env w4)))))"

definition ensure_valid_skype_token :: "token_env \<Rightarrow> token_world \<Rightarrow> go_error option \<times> token_world" where
  "ensure_valid_skype_token env w =
     (if te_superseded env then (Some Superseded, w)
      else if skype_token_valid (te_now env) (tw_meta w) then (None, w)
      else case refresh_blocked (tw_skype_fail w) (te_now env) of
             Some e \<Rightarrow> (Some e, w)
           | None \<Rightarrow>
               (let refresh = trim_space (lm_refresh (tw_meta w)) in
                if refresh = [] then (Some (Plain ''missing refresh token, re-login required''), w)
                else refresh_skype_token env refresh w))"

definition no_graph_token :: go_error where
  "no_graph_token = Plain ''graph token refresh succeeded but did not return graph access token''"

definition ensure_valid_graph_token :: "token_env \<Rightarrow> token_world \<Rightarrow> go_error option \<times> token_world" where
  "ensure_valid_graph_token env w =
     (if te_superseded env then (Some Superseded, w)
      else if graph_token_valid (te_now env) (tw_meta w) then (None, w)
      else case refresh_blocked (tw_graph_fail w) (te_now env) of
             Some e \<Rightarrow> (Some e, w)
           | None \<Rightarrow>
               (let refresh = trim_space (lm_refresh (tw_meta w)) in
                if refresh = [] then (Some (Plain ''missing refresh token for graph token refresh''), w)
                else case refresh_for_graph env (new_configured_auth_client (te_config env) (tw_meta w)) refresh (tw_meta w) of
                  (r, calls) \<Rightarrow>
                    (let w1 = w\<lparr>tw_calls := tw_calls w @ calls\<rparr>;
                         failed = (\<lambda>e. (Some e, w1\<lparr>tw_graph_fail := refresh_record (tw_graph_fail w1) (te_now env) e\<rparr>)) in
                     case r of
                       Inl e \<Rightarrow> failed e
                     | Inr st \<Rightarrow>
                         if trim_space (as_graph st) = [] \<or> as_graph_expires st = 0 then failed no_graph_token
                         else save_login env (w1\<lparr>tw_graph_fail := refresh_reset (tw_graph_fail w1),
                                tw_meta := (renewed st (tw_meta w1))\<lparr>lm_graph := trim_space (as_graph st), lm_graph_expires := as_graph_expires st\<rparr>\<rparr>))))"

section \<open>Tokens for other resources\<close>

definition no_resource_token :: resource_token_entry where
  "no_resource_token = \<lparr>rt_token = [], rt_expiry = zero_time, rt_refresh = no_refresh_failure\<rparr>"

definition resource_entry :: "token_world \<Rightarrow> string \<Rightarrow> resource_token_entry" where
  "resource_entry w scope = (case map_of (tw_resources w) scope of Some e \<Rightarrow> e | None \<Rightarrow> no_resource_token)"

definition put_resource :: "string \<Rightarrow> resource_token_entry \<Rightarrow> token_world \<Rightarrow> token_world" where
  "put_resource scope e w = w\<lparr>tw_resources := AList.update scope e (tw_resources w)\<rparr>"

definition state_expiry :: "auth_state \<Rightarrow> gotime" where
  "state_expiry st = (if as_expires st = 0 then zero_time else of_unix (as_expires st))"

definition resource_token :: "token_env \<Rightarrow> string \<Rightarrow> token_world \<Rightarrow> (go_error + string \<times> bool) \<times> token_world" where
  "resource_token env scope w0 =
     (if te_superseded env then (Inl Superseded, w0)
      else (let entry = resource_entry w0 scope; w = put_resource scope entry w0; now = te_now env in
            if rt_token entry \<noteq> [] \<and> now + 5 * minute < rt_expiry entry then (Inr (rt_token entry, False), w)
            else case refresh_blocked (rt_refresh entry) now of
                   Some e \<Rightarrow> (Inl e, w)
                 | None \<Rightarrow>
                     (let refresh = trim_space (lm_refresh (tw_meta w)) in
                      if refresh = [] then (Inl (Plain ''missing refresh token''), w)
                      else (let c = (new_configured_auth_client (te_config env) (tw_meta w))
                                      \<lparr>ac_scopes := [scope, ''openid'', ''profile'', ''offline_access'']\<rparr>;
                                r = refresh_access_token env c refresh;
                                w1 = note_call (Grant For_Resource (ac_scopes c) refresh r) w in
                            case r of
                              Inl e \<Rightarrow> (Inl e, put_resource scope (entry\<lparr>rt_refresh := refresh_record (rt_refresh entry) now e\<rparr>) w1)
                            | Inr st \<Rightarrow>
                                (let token = trim_space (as_access st);
                                     w2 = put_resource scope \<lparr>rt_token = token, rt_expiry = state_expiry st, rt_refresh = refresh_reset (rt_refresh entry)\<rparr> w1;
                                     new = trim_space (as_refresh st) in
                                 (Inr (token, True),
                                  if new \<noteq> [] \<and> new \<noteq> lm_refresh (tw_meta w2)
                                  then snd (save_login env (w2\<lparr>tw_meta := (tw_meta w2)\<lparr>lm_refresh := new\<rparr>\<rparr>)) else w2))))))"

definition drop_resource_token :: "string \<Rightarrow> token_world \<Rightarrow> token_world" where
  "drop_resource_token scope w =
     (case map_of (tw_resources w) scope of
        None \<Rightarrow> w
      | Some e \<Rightarrow> put_resource scope (e\<lparr>rt_token := []\<rparr>) w)"

section \<open>Connecting\<close>

text \<open>\<open>Connect\<close>; \<open>True\<close> where it goes on to rename ghosts and to start the sync loop.\<close>

definition connect_client :: "token_env \<Rightarrow> token_world \<Rightarrow> bool \<times> token_world" where
  "connect_client env w =
     (case ensure_valid_skype_token env (w\<lparr>tw_conn := send_state (Some Connecting) (tw_conn w)\<rparr>) of
        (Some e, w1) \<Rightarrow>
          if \<not> is_teams_network_error (Some e)
          then (False, w1\<lparr>tw_logged_in := False, tw_conn := report_bad_credentials (te_superseded env) (Some e) (tw_conn w1)\<rparr>)
          else (case reach_mark_down e (cn_reach (tw_conn w1)) of
                  (so, r) \<Rightarrow> (True, w1\<lparr>tw_conn := send_state so ((tw_conn w1)\<lparr>cn_reach := r\<rparr>), tw_logged_in := True,
                                      tw_consumer := Some (new_consumer (tw_meta w1))\<rparr>))
      | (None, w1) \<Rightarrow>
          (True, w1\<lparr>tw_logged_in := True, tw_consumer := Some (new_consumer (tw_meta w1)),
                    tw_conn := send_state (Some Connected) (tw_conn w1)\<rparr>))"

definition is_logged_in :: "gotime \<Rightarrow> token_world \<Rightarrow> bool" where
  "is_logged_in now w \<longleftrightarrow> tw_logged_in w \<or> skype_token_valid now (tw_meta w)"

definition logout_remote :: "token_env \<Rightarrow> token_world \<Rightarrow> token_world" where
  "logout_remote env w = (snd (save_login env (w\<lparr>tw_meta := blank_meta\<rparr>)))\<lparr>tw_logged_in := False\<rparr>"

definition is_this_user :: "token_world \<Rightarrow> string \<Rightarrow> bool" where
  "is_this_user w user \<longleftrightarrow> trim_space user \<noteq> [] \<and> trim_space (lm_user_id (tw_meta w)) = user"

section \<open>Every grant presents the newest refresh token\<close>

datatype token_op = Need_Skype | Need_Graph | Need_Resource string | Drop_Resource string | Connect_Client

fun token_step :: "token_env \<times> token_op \<Rightarrow> token_world \<Rightarrow> token_world" where
  "token_step (env, Need_Skype) w = snd (ensure_valid_skype_token env w)"
| "token_step (env, Need_Graph) w = snd (ensure_valid_graph_token env w)"
| "token_step (env, Need_Resource scope) w = snd (resource_token env scope w)"
| "token_step (env, Drop_Resource scope) w = drop_resource_token scope w"
| "token_step (env, Connect_Client) w = snd (connect_client env w)"

definition token_run :: "(token_env \<times> token_op) list \<Rightarrow> token_world \<Rightarrow> token_world" where
  "token_run ops w = fold token_step ops w"

text \<open>The refresh token after a call: a grant that carries one replaces it.\<close>

fun next_refresh :: "string \<Rightarrow> idp_call \<Rightarrow> string" where
  "next_refresh r (Grant p sc old (Inr st)) = (if trim_space (as_refresh st) \<noteq> [] then trim_space (as_refresh st) else r)"
| "next_refresh r c = r"

definition newest_refresh :: "string \<Rightarrow> idp_call list \<Rightarrow> string" where
  "newest_refresh r calls = foldl next_refresh r calls"

fun presents :: "string \<Rightarrow> idp_call \<Rightarrow> bool" where
  "presents r (Grant p sc old res) \<longleftrightarrow> old = r"
| "presents r (Skype_Exchange a x) \<longleftrightarrow> True"

fun presents_newest :: "string \<Rightarrow> idp_call list \<Rightarrow> bool" where
  "presents_newest r [] \<longleftrightarrow> True"
| "presents_newest r (c # cs) \<longleftrightarrow> presents r c \<and> presents_newest (next_refresh r c) cs"

text \<open>A grant for Graph that answers without a usable Graph token.\<close>

fun bare_graph_grant :: "idp_call \<Rightarrow> bool" where
  "bare_graph_grant (Grant For_Graph sc old (Inr st)) \<longleftrightarrow> trim_space (as_graph st) = [] \<or> as_graph_expires st = 0"
| "bare_graph_grant c \<longleftrightarrow> False"

lemma newest_refresh_simps [simp]:
  "newest_refresh r [] = r"
  "newest_refresh r (c # cs) = newest_refresh (next_refresh r c) cs"
  "newest_refresh r (xs @ ys) = newest_refresh (newest_refresh r xs) ys"
  by (simp_all add: newest_refresh_def)

lemma presents_newest_append [simp]:
  "presents_newest r (xs @ ys) \<longleftrightarrow> presents_newest r xs \<and> presents_newest (newest_refresh r xs) ys"
  by (induction xs arbitrary: r) auto

lemma next_refresh_renewed:
  "next_refresh (trim_space (lm_refresh m)) (Grant p sc old (Inr st)) = trim_space (lm_refresh (renewed st m))"
  by (simp add: renewed_def)

text \<open>The state of the tokens since a start with \<open>r0\<close> as the refresh token and \<open>n\<close> calls.\<close>

definition tokens_ok :: "string \<Rightarrow> nat \<Rightarrow> token_world \<Rightarrow> bool" where
  "tokens_ok r0 n w \<longleftrightarrow>
     (let calls = drop n (tw_calls w) in
      n \<le> length (tw_calls w) \<and> presents_newest r0 calls \<and>
      trim_space (lm_refresh (tw_meta w)) = newest_refresh r0 calls \<and>
      trim_space (lm_refresh (tw_saved w)) = newest_refresh r0 calls)"

lemma tokens_ok_frame:
  assumes "tokens_ok r0 n w" "tw_calls w' = tw_calls w" "lm_refresh (tw_meta w') = lm_refresh (tw_meta w)"
    "lm_refresh (tw_saved w') = lm_refresh (tw_saved w)"
  shows "tokens_ok r0 n w'"
  using assms by (simp add: tokens_ok_def)

text \<open>A step that makes the calls \<open>cs\<close> and leaves the right token in both places.\<close>

lemma tokens_ok_calls:
  assumes "tokens_ok r0 n w" "tw_calls w' = tw_calls w @ cs" "r = trim_space (lm_refresh (tw_meta w))"
    "presents_newest r cs" "trim_space (lm_refresh (tw_meta w')) = newest_refresh r cs"
    "trim_space (lm_refresh (tw_saved w')) = newest_refresh r cs"
  shows "tokens_ok r0 n w'"
  using assms by (auto simp: tokens_ok_def Let_def)

definition saves_work :: "token_env \<Rightarrow> bool" where
  "saves_work env \<longleftrightarrow> te_attached env \<and> te_save_err env = None"

lemma save_login_works:
  "saves_work env \<Longrightarrow> \<not> te_superseded env \<Longrightarrow> save_login env w = (None, w\<lparr>tw_saved := tw_meta w\<rparr>)"
  by (simp add: save_login_def saves_work_def)

lemma granted_meta_refresh [simp]: "lm_refresh (granted_meta st sk m) = lm_refresh m"
  by (simp add: granted_meta_def Let_def)

lemma skype_refresh_tokens:
  assumes "tokens_ok r0 n w" "saves_work env" "\<not> te_superseded env" "refresh = trim_space (lm_refresh (tw_meta w))"
  shows "tokens_ok r0 n (snd (refresh_skype_token env refresh w))"
proof -
  have old: "trim_space (lm_refresh (tw_saved w)) = refresh"
    using assms(1,4) by (simp add: tokens_ok_def Let_def)
  show ?thesis
  proof (cases "refresh_access_token env (skype_auth_client env (tw_meta w)) refresh")
    case (Inl e)
    then show ?thesis
      by (intro tokens_ok_calls [OF assms(1), where cs = "[Grant For_Skype (ac_scopes (skype_auth_client env (tw_meta w))) refresh (Inl e)]"])
        (use old assms(4) in \<open>auto simp: refresh_skype_token_def note_call_def Let_def\<close>)
  next
    case (Inr st)
    define x where "x = acquire_skype_token env (skype_auth_client env (tw_meta w)) (as_access st)"
    show ?thesis
      by (intro tokens_ok_calls [OF assms(1), where cs = "[Grant For_Skype (ac_scopes (skype_auth_client env (tw_meta w))) refresh (Inr st), Skype_Exchange (as_access st) x]"])
        (use old assms(4) Inr in \<open>auto simp: refresh_skype_token_def note_call_def Let_def x_def save_login_works assms(2,3)
          renewed_def split: sum.splits\<close>)
  qed
qed

lemma ensure_skype_tokens:
  "tokens_ok r0 n w \<Longrightarrow> saves_work env \<Longrightarrow> tokens_ok r0 n (snd (ensure_valid_skype_token env w))"
  using skype_refresh_tokens by (auto simp: ensure_valid_skype_token_def Let_def split: option.splits)

text \<open>The attempts for Graph: all but the last fail, and every one presents the same token.\<close>

lemma first_grant_calls:
  "first_grant env refresh cs errs calls = (r, calls') \<Longrightarrow>
   (\<exists>ex. calls' = calls @ ex \<and> presents_newest refresh ex \<and>
     newest_refresh refresh ex = (case r of Inr st \<Rightarrow> next_refresh refresh (Grant For_Graph [] refresh (Inr st)) | Inl _ \<Rightarrow> refresh) \<and>
     (case r of Inr st \<Rightarrow> \<exists>sc. Grant For_Graph sc refresh (Inr st) \<in> set ex | Inl _ \<Rightarrow> True))"
proof (induction cs arbitrary: errs calls)
  case Nil
  then show ?case by auto
next
  case (Cons c cs)
  show ?case
  proof (cases "refresh_access_token env c refresh")
    case (Inl e)
    then have "first_grant env refresh cs (e # errs) (calls @ [Grant For_Graph (ac_scopes c) refresh (Inl e)]) = (r, calls')"
      using Cons.prems by (simp add: Let_def)
    from Cons.IH [OF this] obtain ex where ex: "calls' = calls @ [Grant For_Graph (ac_scopes c) refresh (Inl e)] @ ex"
      "presents_newest refresh ex"
      "newest_refresh refresh ex = (case r of Inr st \<Rightarrow> next_refresh refresh (Grant For_Graph [] refresh (Inr st)) | Inl _ \<Rightarrow> refresh)"
      "case r of Inr st \<Rightarrow> \<exists>sc. Grant For_Graph sc refresh (Inr st) \<in> set ex | Inl _ \<Rightarrow> True"
      by auto
    then show ?thesis
      by (intro exI [of _ "Grant For_Graph (ac_scopes c) refresh (Inl e) # ex"]) (auto split: sum.splits)
  next
    case (Inr st)
    then have "r = Inr st" "calls' = calls @ [Grant For_Graph (ac_scopes c) refresh (Inr st)]"
      using Cons.prems by (auto simp: Let_def)
    then show ?thesis by (auto intro!: exI [of _ "[Grant For_Graph (ac_scopes c) refresh (Inr st)]"])
  qed
qed

lemma refresh_for_graph_calls:
  assumes "refresh_for_graph env c refresh m = (r, ex)"
  shows "presents_newest refresh ex"
    and "newest_refresh refresh ex = (case r of Inr st \<Rightarrow> next_refresh refresh (Grant For_Graph [] refresh (Inr st)) | Inl _ \<Rightarrow> refresh)"
    and "r = Inr st \<Longrightarrow> \<exists>sc. Grant For_Graph sc refresh (Inr st) \<in> set ex"
proof -
  obtain r' ex' where f': "first_grant env refresh (own_graph_clients env c m @ graph_clients c) [] [] = (r', ex')" by (metis surj_pair)
  have f: "first_grant env refresh (own_graph_clients env c m @ graph_clients c) [] [] = (r', ex)"
    and r: "(\<exists>st. r = Inr st \<and> r' = Inr st) \<or> (\<exists>e es. r = Inl e \<and> r' = Inl es)"
    using assms f' by (auto simp: refresh_for_graph_def Let_def split: sum.splits)
  from first_grant_calls [OF f] r show "presents_newest refresh ex"
    "newest_refresh refresh ex = (case r of Inr st \<Rightarrow> next_refresh refresh (Grant For_Graph [] refresh (Inr st)) | Inl _ \<Rightarrow> refresh)"
    "r = Inr st \<Longrightarrow> \<exists>sc. Grant For_Graph sc refresh (Inr st) \<in> set ex"
    by auto
qed

lemma ensure_graph_tokens:
  assumes ok: "tokens_ok r0 n w" and env: "saves_work env"
    and bare: "\<not> (\<exists>c \<in> set (tw_calls (snd (ensure_valid_graph_token env w))). bare_graph_grant c)"
  shows "tokens_ok r0 n (snd (ensure_valid_graph_token env w))"
proof -
  let ?r = "trim_space (lm_refresh (tw_meta w))"
  have old: "trim_space (lm_refresh (tw_saved w)) = ?r"
    using ok by (simp add: tokens_ok_def Let_def)
  show ?thesis
  proof (cases "te_superseded env \<or> graph_token_valid (te_now env) (tw_meta w) \<or>
      refresh_blocked (tw_graph_fail w) (te_now env) \<noteq> None \<or> ?r = []")
    case True
    then show ?thesis using ok by (auto simp: ensure_valid_graph_token_def Let_def split: option.split)
  next
    case False
    obtain r ex where f: "refresh_for_graph env (new_configured_auth_client (te_config env) (tw_meta w)) ?r (tw_meta w) = (r, ex)"
      by (metis surj_pair)
    note calls = refresh_for_graph_calls [OF f]
    show ?thesis
    proof (cases r)
      case (Inl e)
      then show ?thesis
        by (intro tokens_ok_calls [OF ok, where cs = ex])
          (use False f old calls in \<open>auto simp: ensure_valid_graph_token_def Let_def\<close>)
    next
      case (Inr st)
      have all: "tw_calls (snd (ensure_valid_graph_token env w)) = tw_calls w @ ex"
        using False f Inr env by (auto simp: ensure_valid_graph_token_def Let_def save_login_works)
      have "\<not> (trim_space (as_graph st) = [] \<or> as_graph_expires st = 0)"
        using bare calls(3) [OF Inr] all by force
      then show ?thesis
        by (intro tokens_ok_calls [OF ok, where cs = ex])
          (use False f old calls Inr all env in \<open>auto simp: ensure_valid_graph_token_def Let_def save_login_works renewed_def\<close>)
    qed
  qed
qed

lemma put_resource_simps [simp]:
  "tw_calls (put_resource s e w) = tw_calls w" "tw_meta (put_resource s e w) = tw_meta w"
  "tw_saved (put_resource s e w) = tw_saved w"
  by (simp_all add: put_resource_def)

lemma trimmed_fixed: "trim_space a = b \<Longrightarrow> trim_space b = b"
  by auto

lemma resource_tokens:
  assumes ok: "tokens_ok r0 n w" and env: "saves_work env"
  shows "tokens_ok r0 n (snd (resource_token env scope w))"
proof -
  let ?r = "trim_space (lm_refresh (tw_meta w))"
  let ?c = "(new_configured_auth_client (te_config env) (tw_meta w))\<lparr>ac_scopes := [scope, ''openid'', ''profile'', ''offline_access'']\<rparr>"
  have old: "trim_space (lm_refresh (tw_saved w)) = ?r"
    using ok by (simp add: tokens_ok_def Let_def)
  let ?made = "\<not> te_superseded env \<and>
      \<not> (rt_token (resource_entry w scope) \<noteq> [] \<and> te_now env + 5 * minute < rt_expiry (resource_entry w scope)) \<and>
      refresh_blocked (rt_refresh (resource_entry w scope)) (te_now env) = None \<and> ?r \<noteq> []"
  show ?thesis
  proof (cases ?made)
    case False
    then show ?thesis
      by (intro tokens_ok_frame [OF ok]) (auto simp: resource_token_def Let_def split: option.splits)
  next
    case True
    show ?thesis
      by (intro tokens_ok_calls [OF ok, where cs = "[Grant For_Resource (ac_scopes ?c) ?r (refresh_access_token env ?c ?r)]"])
        (use True old env in \<open>auto simp: resource_token_def Let_def note_call_def save_login_works split: sum.splits dest: trimmed_fixed\<close>)
  qed
qed

lemma connect_tokens:
  "tokens_ok r0 n w \<Longrightarrow> saves_work env \<Longrightarrow> tokens_ok r0 n (snd (connect_client env w))"
  by (rule tokens_ok_frame [OF ensure_skype_tokens [of r0 n "w\<lparr>tw_conn := send_state (Some Connecting) (tw_conn w)\<rparr>"]])
    (auto simp: connect_client_def intro: tokens_ok_frame split: prod.splits option.splits)

lemma drop_resource_tokens: "tokens_ok r0 n w \<Longrightarrow> tokens_ok r0 n (drop_resource_token scope w)"
  by (auto simp: drop_resource_token_def intro: tokens_ok_frame split: option.splits)

text \<open>Calls are only added.\<close>

lemma save_login_calls [simp]: "tw_calls (snd (save_login env w)) = tw_calls w"
  by (simp add: save_login_def split: option.splits)

lemma ensure_graph_calls: "\<exists>cs. tw_calls (snd (ensure_valid_graph_token env w)) = tw_calls w @ cs"
  by (auto simp: ensure_valid_graph_token_def Let_def split: option.splits prod.splits sum.splits)

lemma ensure_skype_calls: "\<exists>cs. tw_calls (snd (ensure_valid_skype_token env w)) = tw_calls w @ cs"
  by (auto simp: ensure_valid_skype_token_def refresh_skype_token_def note_call_def Let_def split: option.splits sum.splits)

lemma token_step_calls: "\<exists>cs. tw_calls (token_step op w) = tw_calls w @ cs"
proof (cases op)
  case (Pair env o1)
  show ?thesis
  proof (cases o1)
    case (Need_Resource scope)
    then show ?thesis
      using Pair by (auto simp: resource_token_def note_call_def Let_def split: option.splits sum.splits)
  next
    case (Drop_Resource scope)
    then show ?thesis using Pair by (auto simp: drop_resource_token_def split: option.splits)
  next
    case Connect_Client
    then show ?thesis
      using Pair ensure_skype_calls [of env "w\<lparr>tw_conn := send_state (Some Connecting) (tw_conn w)\<rparr>"]
      by (auto simp: connect_client_def split: prod.splits option.splits)
  qed (use Pair ensure_graph_calls ensure_skype_calls in auto)
qed

lemma token_run_calls: "\<exists>cs. tw_calls (token_run ops w) = tw_calls w @ cs"
proof (induction ops arbitrary: w)
  case (Cons op ops)
  obtain a where "tw_calls (token_step op w) = tw_calls w @ a" using token_step_calls by blast
  moreover obtain b where "tw_calls (token_run ops (token_step op w)) = tw_calls (token_step op w) @ b"
    using Cons by blast
  ultimately show ?case by (simp add: token_run_def)
qed (simp add: token_run_def)

lemma token_step_keeps:
  assumes "tokens_ok r0 n w" "saves_work (fst op)" "\<not> (\<exists>c \<in> set (tw_calls (token_step op w)). bare_graph_grant c)"
  shows "tokens_ok r0 n (token_step op w)"
proof (cases op)
  case (Pair env o1)
  then show ?thesis
    using assms by (cases o1) (auto intro: ensure_skype_tokens ensure_graph_tokens resource_tokens drop_resource_tokens connect_tokens)
qed

lemma token_run_keeps:
  assumes "tokens_ok r0 n w" "\<forall>op \<in> set ops. saves_work (fst op)"
    "\<not> (\<exists>c \<in> set (tw_calls (token_run ops w)). bare_graph_grant c)"
  shows "tokens_ok r0 n (token_run ops w)"
  using assms
proof (induction ops arbitrary: w)
  case (Cons op ops)
  have "set (tw_calls (token_step op w)) \<subseteq> set (tw_calls (token_run (op # ops) w))"
    using token_run_calls [of ops "token_step op w"] by (auto simp: token_run_def)
  then have "tokens_ok r0 n (token_step op w)"
    using Cons.prems by (intro token_step_keeps) auto
  then show ?case using Cons by (auto simp: token_run_def)
qed (simp add: token_run_def)

text \<open>C23: The refresh token is never lost.  Take any sequence of needs for a Skype token, a Graph token or a
  resource's token, of connects and dropped resource tokens, with any clock and any answers of the
  identity provider, in a login whose saves work.  Every grant presents the newest refresh token the provider has
  given out, and in the end that token is in memory and in the database.  The one case left out is a grant for
  Graph that succeeds without a usable Graph token (lemma \<open>bare_graph_grant_loses_token\<close>).\<close>

theorem refresh_token_kept:
  assumes "trim_space (lm_refresh (tw_saved w)) = trim_space (lm_refresh (tw_meta w))"
    and "\<forall>op \<in> set ops. te_attached (fst op) \<and> te_save_err (fst op) = None"
    and "tw_calls w = []" and "\<not> (\<exists>c \<in> set (tw_calls (token_run ops w)). bare_graph_grant c)"
  shows "presents_newest (trim_space (lm_refresh (tw_meta w))) (tw_calls (token_run ops w)) \<and>
    trim_space (lm_refresh (tw_meta (token_run ops w))) =
      newest_refresh (trim_space (lm_refresh (tw_meta w))) (tw_calls (token_run ops w)) \<and>
    trim_space (lm_refresh (tw_saved (token_run ops w))) =
      newest_refresh (trim_space (lm_refresh (tw_meta w))) (tw_calls (token_run ops w))"
proof -
  have "tokens_ok (trim_space (lm_refresh (tw_meta w))) 0 w" using assms(1,3) by (simp add: tokens_ok_def)
  from token_run_keeps [OF this, of ops] show ?thesis
    using assms(2,4) by (simp add: saves_work_def tokens_ok_def Let_def)
qed

text \<open>That case: the new refresh token is thrown away, although the old one may be retired by then.\<close>

lemma bare_graph_grant_loses_token:
  assumes "refresh_for_graph env (new_configured_auth_client (te_config env) (tw_meta w))
      (trim_space (lm_refresh (tw_meta w))) (tw_meta w) = (Inr st, ex)"
    and "as_graph_expires st = 0" and "\<not> te_superseded env" "\<not> graph_token_valid (te_now env) (tw_meta w)"
    "refresh_blocked (tw_graph_fail w) (te_now env) = None" "trim_space (lm_refresh (tw_meta w)) \<noteq> []"
  shows "\<exists>w'. ensure_valid_graph_token env w = (Some no_graph_token, w') \<and> tw_meta w' = tw_meta w \<and> tw_saved w' = tw_saved w"
  using assms by (simp add: ensure_valid_graph_token_def Let_def)

section \<open>A Skype token is ready\<close>

lemma skype_exchange_gives_token: "acquire_skype_token env c access = Inr sk \<Longrightarrow> sk_token sk \<noteq> []"
  by (auto simp: acquire_skype_token_def skype_token_of_def Let_def split: if_splits http_outcome.splits option.splits)

lemma granted_meta_token [simp]:
  "lm_skype (granted_meta st sk m) = sk_token sk" "lm_skype_expires (granted_meta st sk m) = sk_expires sk"
  by (simp_all add: granted_meta_def Let_def)

lemma apply_token_token [simp]: "co_token (apply_token_to_consumer m c) = lm_skype m"
  by (simp add: apply_token_to_consumer_def Let_def)

lemma save_login_frame [simp]:
  "tw_meta (snd (save_login env w)) = tw_meta w" "tw_consumer (snd (save_login env w)) = tw_consumer w"
  "tw_skype_fail (snd (save_login env w)) = tw_skype_fail w" "tw_logged_in (snd (save_login env w)) = tw_logged_in w"
  by (simp_all add: save_login_def split: option.splits)

definition skype_refreshed :: "token_env \<Rightarrow> token_world \<Rightarrow> token_world \<Rightarrow> bool" where
  "skype_refreshed env w w' \<longleftrightarrow>
     (\<exists>sc st sk. tw_calls w' = tw_calls w @
        [Grant For_Skype sc (trim_space (lm_refresh (tw_meta w))) (Inr st), Skype_Exchange (as_access st) (Inr sk)] \<and>
      sk_token sk \<noteq> [] \<and> lm_skype (tw_meta w') = sk_token sk \<and> lm_skype_expires (tw_meta w') = sk_expires sk \<and>
      map_option co_token (tw_consumer w') = map_option (\<lambda>_. sk_token sk) (tw_consumer w) \<and>
      tw_skype_fail w' = no_refresh_failure)"

lemma refresh_skype_ok:
  assumes "refresh_skype_token env (trim_space (lm_refresh (tw_meta w))) w = (None, w')"
  shows "skype_refreshed env w w'"
proof -
  let ?c = "skype_auth_client env (tw_meta w)" and ?r = "trim_space (lm_refresh (tw_meta w))"
  obtain st where st: "refresh_access_token env ?c ?r = Inr st"
    using assms by (auto simp: refresh_skype_token_def Let_def split: sum.splits)
  obtain sk where sk: "acquire_skype_token env ?c (as_access st) = Inr sk"
    using assms st by (auto simp: refresh_skype_token_def Let_def split: sum.splits)
  show ?thesis
    unfolding skype_refreshed_def
    by (rule exI [of _ "ac_scopes ?c"], rule exI [of _ st], rule exI [of _ sk])
      (use assms st sk skype_exchange_gives_token [OF sk] in
        \<open>auto simp: refresh_skype_token_def note_call_def refresh_reset_def Let_def option.map_comp comp_def\<close>)
qed

text \<open>A refresh that fails records its error, and its token stays as it was.\<close>

lemma refresh_skype_failed:
  assumes "refresh_skype_token env r w = (Some e, w')"
  shows "tw_skype_fail w' = refresh_record (tw_skype_fail w) (te_now env) e \<and> lm_skype (tw_meta w') = lm_skype (tw_meta w) \<and>
    lm_skype_expires (tw_meta w') = lm_skype_expires (tw_meta w) \<and> tw_calls w' \<noteq> tw_calls w"
  using assms by (auto simp: refresh_skype_token_def note_call_def renewed_def Let_def split: sum.splits if_splits)

lemma recorded_failure_blocks:
  assumes "now \<le> t" "t < now + 30 * second"
  shows "\<exists>m. refresh_blocked (refresh_record f now e) t = Some (Wrapped e m)"
  using refresh_record_window [of f now e] assms
  by (auto simp: refresh_blocked_def refresh_backoff_base_def)

text \<open>C24: A request that needs the Skype token has a usable one or is told why not.  When \<open>ensureValidSkypeToken\<close>
  succeeds, either the stored token is valid for more than a minute and nothing was asked, or exactly one grant with
  the stored refresh token and one exchange were made: the token of that exchange is not empty, and it is the
  one stored, with its expiry, and the one the consumer client sends from then on.  When it fails, the stored Skype token is
  unchanged, and if the provider was asked, then for at least 30 seconds every further call returns the same error, marked as
  suppressed, and changes nothing and asks nothing.\<close>

theorem skype_token_ready:
  assumes "ensure_valid_skype_token env w = (r, w')"
  shows "(r = None \<longrightarrow> skype_token_valid (te_now env) (tw_meta w) \<and> w' = w \<or> skype_refreshed env w w') \<and>
    (\<forall>e. r = Some e \<longrightarrow> lm_skype (tw_meta w') = lm_skype (tw_meta w) \<and>
      (tw_calls w' \<noteq> tw_calls w \<longrightarrow>
        (\<forall>env2. te_now env \<le> te_now env2 \<and> te_now env2 < te_now env + 30 * second \<and> \<not> te_superseded env2 \<longrightarrow>
          (\<exists>m. ensure_valid_skype_token env2 w' = (Some (Wrapped e m), w')))))"
proof (cases "\<not> te_superseded env \<and> \<not> skype_token_valid (te_now env) (tw_meta w) \<and>
    refresh_blocked (tw_skype_fail w) (te_now env) = None \<and> trim_space (lm_refresh (tw_meta w)) \<noteq> []")
  case False
  then show ?thesis using assms by (auto simp: ensure_valid_skype_token_def Let_def split: if_splits option.splits)
next
  case True
  then have f: "refresh_skype_token env (trim_space (lm_refresh (tw_meta w))) w = (r, w')"
    using assms by (simp add: ensure_valid_skype_token_def Let_def)
  show ?thesis
  proof (cases r)
    case None
    then show ?thesis using refresh_skype_ok f by simp
  next
    case (Some e)
    have fail: "tw_skype_fail w' = refresh_record (tw_skype_fail w) (te_now env) e"
      and same: "lm_skype (tw_meta w') = lm_skype (tw_meta w)" "lm_skype_expires (tw_meta w') = lm_skype_expires (tw_meta w)"
      using refresh_skype_failed [of env _ w e w'] f Some by auto
    have "\<exists>m. ensure_valid_skype_token env2 w' = (Some (Wrapped e m), w')"
      if "te_now env \<le> te_now env2" "te_now env2 < te_now env + 30 * second" "\<not> te_superseded env2" for env2
    proof -
      have "\<not> skype_token_valid (te_now env2) (tw_meta w')"
        using True that(1) same by (auto simp: skype_token_valid_def)
      then show ?thesis
        using recorded_failure_blocks [OF that(1,2), of "tw_skype_fail w" e] that(3) fail
        by (auto simp: ensure_valid_skype_token_def)
    qed
    then show ?thesis using Some same by blast
  qed
qed

section \<open>Examples\<close>

definition example_config :: teams_config where
  "example_config = \<lparr>cf_client_id = [], cf_authorize = [], cf_token_ep = [], cf_skype_ep = [], cf_redirect = [], cf_graph_scope = []\<rparr>"

definition example_post :: "auth_client \<Rightarrow> (string \<times> string) list \<Rightarrow> http_outcome" where
  "example_post c form = Answered \<lparr>resp_status = 200, resp_retry_after = [],
     resp_body = (if map_of form ''refresh_token'' = Some ''R1'' then ''G1'' else ''G2'')\<rparr>"

definition example_answers :: "string \<Rightarrow> json option" where
  "example_answers body =
     (if body = ''G1'' then Some (JObj [(''access_token'', JStr ''A''), (''refresh_token'', JStr ''R2'')])
      else if body = ''G2'' then Some (JObj [(''access_token'', JStr ''A'')])
      else Some (JObj [(''tokens'', JObj [(''skypeToken'', JStr ''K''), (''skypeid'', JStr ''me'')])]))"

definition example_tokens :: token_env where
  "example_tokens = \<lparr>te_now = 0, te_clock = 0, te_config = example_config, te_superseded = False, te_attached = True,
     te_save_err = None, te_post = example_post,
     te_exchange = (\<lambda>_ _. Answered \<lparr>resp_status = 200, resp_retry_after = [], resp_body = ''S''\<rparr>),
     te_json = example_answers, te_json_first = example_answers, te_base64 = (\<lambda>_. None), te_url = (\<lambda>_. None),
     te_profile = (\<lambda>_. None)\<rparr>"

definition example_meta :: login_meta where
  "example_meta = blank_meta\<lparr>lm_refresh := ''R1''\<rparr>"

definition example_login :: token_world where
  "example_login = \<lparr>tw_meta = example_meta, tw_saved = example_meta, tw_logged_in = False,
     tw_skype_fail = no_refresh_failure, tw_graph_fail = no_refresh_failure, tw_resources = [], tw_consumer = None,
     tw_remote_name = [], tw_conn = fresh_conn, tw_calls = []\<rparr>"

lemma auth_trims:
  "trim_space ''R1'' = ''R1''" "trim_space ''R2'' = ''R2''" "trim_space ''A'' = ''A''" "trim_space ''me'' = ''me''"
  by (simp_all add: trim_space_plain plain_ends_def)

text \<open>A grant of the example, for a request that asks for no Graph scope.\<close>

definition example_grant :: "string \<Rightarrow> auth_state" where
  "example_grant refresh = \<lparr>as_access = ''A'', as_refresh = refresh, as_expires = 0, as_id = [], as_graph = [], as_graph_expires = 0\<rparr>"

lemma example_refresh:
  assumes "ac_scopes c \<noteq> []" "\<not> should_persist_graph_token (join_with '' '' (ac_scopes c))"
  shows "refresh_access_token example_tokens c ''R1'' = Inr (example_grant ''R2'')"
    "refresh_access_token example_tokens c ''R2'' = Inr (example_grant [])"
  using assms
  by (simp_all add: refresh_access_token_def token_request_def refresh_form_def example_tokens_def example_post_def
      parse_token_response_def example_answers_def string_field_def int_field_def fold_eval example_grant_def Let_def)

lemma example_scope: "\<not> should_persist_graph_token (join_with '' '' [''res'', ''openid'', ''profile'', ''offline_access''])"
  by code_simp

definition example_ops :: "(token_env \<times> token_op) list" where
  "example_ops = [(example_tokens, Need_Resource ''res''), (example_tokens, Need_Resource ''res'')]"

definition example_resource_calls :: "idp_call list" where
  "example_resource_calls =
     [Grant For_Resource [''res'', ''openid'', ''profile'', ''offline_access''] ''R1'' (Inr (example_grant ''R2'')),
      Grant For_Resource [''res'', ''openid'', ''profile'', ''offline_access''] ''R2'' (Inr (example_grant []))]"

lemma example_te [simp]:
  "te_now example_tokens = 0" "\<not> te_superseded example_tokens" "te_attached example_tokens" "te_save_err example_tokens = None"
  "te_config example_tokens = example_config" "te_post example_tokens = example_post"
  by (simp_all add: example_tokens_def)

lemma example_calls: "tw_calls (token_run example_ops example_login) = example_resource_calls"
proof -
  have g: "refresh_access_token example_tokens (c\<lparr>ac_scopes := [''res'', ''openid'', ''profile'', ''offline_access'']\<rparr>) ''R1'' =
      Inr (example_grant ''R2'')"
    "refresh_access_token example_tokens (c\<lparr>ac_scopes := [''res'', ''openid'', ''profile'', ''offline_access'']\<rparr>) ''R2'' =
      Inr (example_grant [])" for c
    using example_refresh [of "c\<lparr>ac_scopes := [''res'', ''openid'', ''profile'', ''offline_access'']\<rparr>"] example_scope
    by simp_all
  show ?thesis
    by (simp add: token_run_def example_ops_def resource_token_def example_login_def example_meta_def blank_meta_def
        resource_entry_def no_resource_token_def refresh_blocked_def no_refresh_failure_def auth_trims g note_call_def
        put_resource_def save_login_def example_grant_def state_expiry_def refresh_reset_def example_resource_calls_def Let_def)
qed

text \<open>Two resources one after the other: the second grant presents the token of the first.\<close>

theorem refresh_token_kept_witness:
  "tw_calls (token_run example_ops example_login) = example_resource_calls \<and>
   trim_space (lm_refresh (tw_meta (token_run example_ops example_login))) = ''R2'' \<and>
   trim_space (lm_refresh (tw_saved (token_run example_ops example_login))) = ''R2''"
proof -
  have start: "trim_space (lm_refresh (tw_meta example_login)) = ''R1''" "trim_space (lm_refresh (tw_saved example_login)) = ''R1''"
    "tw_calls example_login = []"
    by (simp_all add: example_login_def example_meta_def auth_trims)
  have ops: "\<forall>op \<in> set example_ops. te_attached (fst op) \<and> te_save_err (fst op) = None" by (simp add: example_ops_def)
  have "\<not> (\<exists>c \<in> set (tw_calls (token_run example_ops example_login)). bare_graph_grant c)"
    by (simp add: example_calls example_resource_calls_def)
  from refresh_token_kept [OF _ ops start(3) this] start show ?thesis
    by (simp add: example_calls example_resource_calls_def example_grant_def auth_trims)
qed

definition failing_tokens :: token_env where
  "failing_tokens = example_tokens\<lparr>te_post := (\<lambda>_ _. NoAnswer (Plain ''no route''))\<rparr>"

lemma failing_refresh:
  "r \<noteq> [] \<Longrightarrow> refresh_access_token failing_tokens c r = Inl (Plain ''no route'')"
  by (simp add: refresh_access_token_def token_request_def failing_tokens_def)

lemma example_no_token:
  "\<not> skype_token_valid now (tw_meta example_login)" "refresh_blocked (tw_skype_fail example_login) now = None"
  "trim_space (lm_refresh (tw_meta example_login)) = ''R1''"
  by (simp_all add: example_login_def example_meta_def blank_meta_def skype_token_valid_def refresh_blocked_def
      no_refresh_failure_def auth_trims)

lemma example_skype_client:
  "ac_scopes (skype_auth_client example_tokens (tw_meta example_login)) = [mbi_refresh_scope]"
  "ac_skype_ep (skype_auth_client example_tokens (tw_meta example_login)) \<noteq> []"
  by (simp_all add: skype_auth_client_def example_login_def example_meta_def blank_meta_def tenant_token_endpoint_def
      example_config_def new_configured_auth_client_def default_auth_client_def overridden_def Let_def)

lemma example_exchange:
  "acquire_skype_token example_tokens (skype_auth_client example_tokens (tw_meta example_login)) ''A'' =
     Inr \<lparr>sk_token = ''K'', sk_expires = 0, sk_id = ''me'', sk_chat_url = [], sk_ams_url = [], sk_middle_url = []\<rparr>"
  using example_skype_client(2)
  by (simp add: acquire_skype_token_def example_tokens_def skype_token_of_def example_answers_def
      decode_skype_response_def decode_inner_def keyed_def no_inner_def decode_region_def fold_eval Let_def)

lemma example_skype_ok: "fst (ensure_valid_skype_token example_tokens example_login) = None"
proof -
  have "\<not> should_persist_graph_token (join_with '' '' [mbi_refresh_scope])" by code_simp
  then have "refresh_access_token example_tokens (skype_auth_client example_tokens (tw_meta example_login)) ''R1'' =
      Inr (example_grant ''R2'')"
    by (intro example_refresh(1)) (simp_all add: example_skype_client)
  then show ?thesis
    by (simp add: ensure_valid_skype_token_def example_no_token refresh_skype_token_def example_exchange
        example_grant_def Let_def)
qed

theorem skype_token_ready_witness:
  "(\<exists>w'. ensure_valid_skype_token example_tokens example_login = (None, w') \<and> skype_refreshed example_tokens example_login w') \<and>
   (\<exists>w' m. ensure_valid_skype_token failing_tokens example_login = (Some (Plain ''no route''), w') \<and>
     ensure_valid_skype_token (example_tokens\<lparr>te_now := 10 * second\<rparr>) w' = (Some (Wrapped (Plain ''no route'') m), w'))"
proof (rule conjI)
  obtain w' where w': "ensure_valid_skype_token example_tokens example_login = (None, w')"
    using example_skype_ok by (metis prod.collapse)
  then show "\<exists>w'. ensure_valid_skype_token example_tokens example_login = (None, w') \<and> skype_refreshed example_tokens example_login w'"
    using skype_token_ready [OF w'] example_no_token(1) by blast
next
  have env: "te_now failing_tokens = 0" "\<not> te_superseded failing_tokens" by (simp_all add: failing_tokens_def)
  obtain w' where w': "ensure_valid_skype_token failing_tokens example_login = (Some (Plain ''no route''), w')"
    and calls: "tw_calls w' \<noteq> tw_calls example_login"
    by (simp add: ensure_valid_skype_token_def example_no_token refresh_skype_token_def failing_refresh note_call_def env Let_def)
  have "\<exists>m. ensure_valid_skype_token (example_tokens\<lparr>te_now := 10 * second\<rparr>) w' = (Some (Wrapped (Plain ''no route'') m), w')"
    using skype_token_ready [OF w'] calls by (simp add: env)
  then show "\<exists>w' m. ensure_valid_skype_token failing_tokens example_login = (Some (Plain ''no route''), w') \<and>
     ensure_valid_skype_token (example_tokens\<lparr>te_now := 10 * second\<rparr>) w' = (Some (Wrapped (Plain ''no route'') m), w')"
    using w' by blast
qed

end
