(* ===== verification/Graph_Directory.thy ===== *)
theory Graph_Directory
  imports Graph_Upload "HOL-Library.AList"
begin

text \<open>
  What the bridge reads of the organisation through Microsoft Graph (package
  \<open>internal/teams/graph\<close>): users (users.go), joined teams and their channels (teams.go).  These
  requests go to the HTTP client directly, without the executor.  The parameter \<open>dir_net\<close> says what
  the n-th request of a call meets; a body that breaks off counts as no answer.
\<close>

section \<open>Requests\<close>

record dir_net =
  dn_url_err :: "string \<Rightarrow> go_error option"
  dn_answer :: "nat \<Rightarrow> string \<Rightarrow> http_outcome"
  dn_json :: "string \<Rightarrow> json option"

definition graph_ready :: "graph_client \<Rightarrow> go_error option" where
  "graph_ready c =
     (if \<not> gc_has_http c then Some (Plain ''graph client missing http client'')
      else if trim_space (gc_token c) = [] then Some (Plain ''missing graph access token'') else None)"

definition dir_get :: "dir_net \<Rightarrow> nat \<Rightarrow> string \<Rightarrow> go_error + http_response" where
  "dir_get net n url =
     (case dn_url_err net url of
        Some e \<Rightarrow> Inl e
      | None \<Rightarrow> (case dn_answer net n url of NoAnswer e \<Rightarrow> Inl e | Answered r \<Rightarrow> Inr r))"

definition not_ok :: "http_response \<Rightarrow> bool" where
  "not_ok r \<longleftrightarrow> resp_status r < 200 \<or> 300 \<le> resp_status r"

definition graph_failure :: "string \<Rightarrow> http_response \<Rightarrow> go_error" where
  "graph_failure what r =
     Plain (what @ '' failed with status '' @ show_int (resp_status r) @ '': '' @ take max_upload_error_bytes (resp_body r))"

section \<open>Users\<close>

record graph_user =
  gu_id :: string
  gu_display_name :: string
  gu_mail :: string
  gu_upn :: string
  gu_job_title :: string
  gu_department :: string

definition decode_user :: "json \<Rightarrow> graph_user option" where
  "decode_user j =
     (case (string_field ''id'' j, string_field ''displayName'' j, string_field ''mail'' j,
            string_field ''userPrincipalName'' j, string_field ''jobTitle'' j, string_field ''department'' j) of
        (Some i, Some d, Some m, Some u, Some t, Some dep) \<Rightarrow>
          Some \<lparr>gu_id = i, gu_display_name = d, gu_mail = m, gu_upn = u, gu_job_title = t, gu_department = dep\<rparr>
      | _ \<Rightarrow> None)"

definition user_url :: "string \<Rightarrow> string" where
  "user_url email = ''https://graph.microsoft.com/v1.0/users/'' @ path_escape email @
     ''?$select=id,displayName,mail,userPrincipalName,jobTitle,department''"

definition get_user_by_email :: "dir_net \<Rightarrow> graph_client \<Rightarrow> string \<Rightarrow> go_error + graph_user option" where
  "get_user_by_email net c email0 =
     (case graph_ready c of
        Some e \<Rightarrow> Inl e
      | None \<Rightarrow>
          (let email = trim_space email0 in
           if email = [] then Inl (Plain ''empty email address'')
           else case dir_get net 0 (user_url email) of
                  Inl e \<Rightarrow> Inl e
                | Inr r \<Rightarrow>
                    if resp_status r = 404 then Inr None
                    else if not_ok r then Inl (graph_failure ''graph user lookup'' r)
                    else (case Option.bind (dn_json net (resp_body r)) decode_user of
                            None \<Rightarrow> Inl json_error
                          | Some u \<Rightarrow> Inr (Some u))))"

text \<open>A list of values under \<open>value\<close>.\<close>

definition decode_values :: "(json \<Rightarrow> 'a option) \<Rightarrow> json \<Rightarrow> 'a list option" where
  "decode_values d j = Option.bind (slice_field ''value'' j) (\<lambda>js. all_some (map d js))"

definition decode_user_page :: "json \<Rightarrow> (graph_user list \<times> string) option" where
  "decode_user_page j =
     Option.bind (decode_values decode_user j) (\<lambda>us. map_option (Pair us) (string_field ''@odata.nextLink'' j))"

definition directory_url :: string where
  "directory_url = ''https://graph.microsoft.com/v1.0/users?$select=id,displayName,mail,userPrincipalName&$top=999''"

text \<open>One page: its users and the link to the next, empty after the last.\<close>

definition directory_page :: "dir_net \<Rightarrow> nat \<Rightarrow> string \<Rightarrow> go_error + graph_user list \<times> string" where
  "directory_page net n url =
     (case dir_get net n url of
        Inl e \<Rightarrow> Inl e
      | Inr r \<Rightarrow>
          if not_ok r then Inl (graph_failure ''graph directory listing'' r)
          else (case Option.bind (dn_json net (resp_body r)) decode_user_page of
                  None \<Rightarrow> Inl json_error
                | Some p \<Rightarrow> Inr p))"

text \<open>The loop over the pages; \<open>None\<close> is a loop that does not end.\<close>

partial_function (option) directory_pages ::
  "dir_net \<Rightarrow> nat \<Rightarrow> string \<Rightarrow> graph_user list \<Rightarrow> (go_error + graph_user list) option" where
  "directory_pages net n url acc =
     (if url = [] then Some (Inr acc)
      else case directory_page net n url of
             Inl e \<Rightarrow> Some (Inl e)
           | Inr p \<Rightarrow> directory_pages net (Suc n) (snd p) (acc @ fst p))"

definition list_directory_users :: "dir_net \<Rightarrow> graph_client \<Rightarrow> (go_error + graph_user list) option" where
  "list_directory_users net c =
     (case graph_ready c of Some e \<Rightarrow> Some (Inl e) | None \<Rightarrow> directory_pages net 0 directory_url [])"

text \<open>A person found by \<open>SearchPeople\<close>, with the first scored address.\<close>

definition decode_person :: "json \<Rightarrow> graph_user option" where
  "decode_person j =
     (case (string_field ''id'' j, string_field ''displayName'' j, string_field ''userPrincipalName'' j,
            Option.bind (slice_field ''scoredEmailAddresses'' j) (\<lambda>js. all_some (map (string_field ''address'') js))) of
        (Some i, Some d, Some u, Some mails) \<Rightarrow>
          Some \<lparr>gu_id = i, gu_display_name = d, gu_mail = (case mails of [] \<Rightarrow> [] | a # _ \<Rightarrow> a), gu_upn = u,
            gu_job_title = [], gu_department = []\<rparr>
      | _ \<Rightarrow> None)"

definition people_url :: "string \<Rightarrow> string" where
  "people_url query = ''https://graph.microsoft.com/v1.0/me/people?$search=%22'' @ query_escape query @
     ''%22&$select=id,displayName,scoredEmailAddresses,userPrincipalName''"

definition search_people :: "dir_net \<Rightarrow> graph_client \<Rightarrow> string \<Rightarrow> go_error + graph_user list" where
  "search_people net c query0 =
     (case graph_ready c of
        Some e \<Rightarrow> Inl e
      | None \<Rightarrow>
          (let query = trim_space query0 in
           if query = [] then Inl (Plain ''empty search query'')
           else case dir_get net 0 (people_url query) of
                  Inl e \<Rightarrow> Inl e
                | Inr r \<Rightarrow>
                    if not_ok r then Inl (graph_failure ''graph people search'' r)
                    else (case Option.bind (dn_json net (resp_body r)) (decode_values decode_person) of
                            None \<Rightarrow> Inl json_error
                          | Some us \<Rightarrow> Inr us)))"

section \<open>Teams and channels\<close>

record team =
  tm_id :: string
  tm_name :: string

record channel =
  ch_id :: string
  ch_name :: string
  ch_description :: string

record channel_info =
  ci_channel :: string
  ci_team :: string
  ci_team_id :: string
  ci_description :: string

type_synonym channel_map = "(string \<times> channel_info) list"

definition decode_team :: "json \<Rightarrow> team option" where
  "decode_team j =
     (case (string_field ''id'' j, string_field ''displayName'' j) of
        (Some i, Some d) \<Rightarrow> Some \<lparr>tm_id = i, tm_name = d\<rparr>
      | _ \<Rightarrow> None)"

definition decode_channel :: "json \<Rightarrow> channel option" where
  "decode_channel j =
     (case (string_field ''id'' j, string_field ''displayName'' j, string_field ''description'' j) of
        (Some i, Some d, Some t) \<Rightarrow> Some \<lparr>ch_id = i, ch_name = d, ch_description = t\<rparr>
      | _ \<Rightarrow> None)"

text \<open>\<open>GraphUploadError\<close> with the status.\<close>

definition graph_list :: "dir_net \<Rightarrow> nat \<Rightarrow> string \<Rightarrow> (json \<Rightarrow> 'a option) \<Rightarrow> go_error + 'a list" where
  "graph_list net n url d =
     (case dir_get net n url of
        Inl e \<Rightarrow> Inl e
      | Inr r \<Rightarrow>
          if not_ok r
          then Inl (ApiError ''graph upload request failed'' (resp_status r) (take max_upload_error_bytes (resp_body r)))
          else (case Option.bind (dn_json net (resp_body r)) (decode_values d) of
                  None \<Rightarrow> Inl json_error
                | Some xs \<Rightarrow> Inr xs))"

definition joined_teams_url :: string where
  "joined_teams_url = ''https://graph.microsoft.com/v1.0/me/joinedTeams?$select=id,displayName''"

definition list_joined_teams :: "dir_net \<Rightarrow> nat \<Rightarrow> go_error + team list" where
  "list_joined_teams net n = graph_list net n joined_teams_url decode_team"

definition team_channels_url :: "string \<Rightarrow> string" where
  "team_channels_url i =
     ''https://graph.microsoft.com/v1.0/teams/'' @ i @ ''/channels?$select=id,displayName,description''"

definition list_team_channels :: "dir_net \<Rightarrow> nat \<Rightarrow> string \<Rightarrow> go_error + channel list" where
  "list_team_channels net n i = graph_list net n (team_channels_url i) decode_channel"

definition info_of :: "team \<Rightarrow> channel \<Rightarrow> channel_info" where
  "info_of t ch = \<lparr>ci_channel = trim_space (ch_name ch), ci_team = trim_space (tm_name t), ci_team_id = tm_id t,
     ci_description = trim_space (ch_description ch)\<rparr>"

definition add_channel :: "team \<Rightarrow> channel \<Rightarrow> channel_map \<Rightarrow> channel_map" where
  "add_channel t ch m = (if trim_space (ch_id ch) = [] then m else AList.update (trim_space (ch_id ch)) (info_of t ch) m)"

fun channels_of_teams :: "dir_net \<Rightarrow> nat \<Rightarrow> team list \<Rightarrow> channel_map \<Rightarrow> channel_map" where
  "channels_of_teams net n [] m = m"
| "channels_of_teams net n (t # ts) m =
     channels_of_teams net (Suc n) ts
       (case list_team_channels net n (tm_id t) of Inl _ \<Rightarrow> m | Inr chs \<Rightarrow> fold (add_channel t) chs m)"

definition list_joined_teams_and_channels :: "dir_net \<Rightarrow> graph_client \<Rightarrow> go_error + channel_map" where
  "list_joined_teams_and_channels net c =
     (case graph_ready c of
        Some e \<Rightarrow> Inl e
      | None \<Rightarrow>
          (case list_joined_teams net 0 of
             Inl e \<Rightarrow> Inl e
           | Inr teams \<Rightarrow> Inr (channels_of_teams net 1 teams [])))"

section \<open>The pages of the directory\<close>

text \<open>A server that serves the pages \<open>ps\<close>, each with the link to the next.\<close>

fun serves_pages :: "dir_net \<Rightarrow> nat \<Rightarrow> string \<Rightarrow> (graph_user list \<times> string) list \<Rightarrow> bool" where
  "serves_pages net n url [] \<longleftrightarrow> url = []"
| "serves_pages net n url (p # ps) \<longleftrightarrow>
     url \<noteq> [] \<and> directory_page net n url = Inr p \<and> serves_pages net (Suc n) (snd p) ps"

lemma directory_pages_served:
  "serves_pages net n url ps \<Longrightarrow> directory_pages net n url acc = Some (Inr (acc @ concat (map fst ps)))"
proof (induction ps arbitrary: n url acc)
  case Nil
  then show ?case by (simp add: directory_pages.simps)
next
  case (Cons p ps)
  then show ?case by (subst directory_pages.simps) simp
qed

text \<open>A server whose links never end keeps the loop going for ever.\<close>

lemma directory_pages_endless:
  assumes "\<forall>k. \<exists>us. directory_page net k (link k) = Inr (us, link (Suc k)) \<and> link k \<noteq> []"
  shows "directory_pages net n (link n) acc = None"
proof (rule ccontr)
  assume "directory_pages net n (link n) acc \<noteq> None"
  then obtain y where "directory_pages net n (link n) acc = Some y" by blast
  moreover have "net' = net \<longrightarrow> url \<noteq> link n'" if "directory_pages net' n' url acc' = Some y" for net' n' url acc' y
    using that
  proof (induction rule: directory_pages.raw_induct [rotated 1, consumes 1])
    case (1 f net' n' url acc' y)
    show ?case
    proof (intro impI notI)
      assume l: "net' = net" "url = link n'"
      then obtain us where "directory_page net n' url = Inr (us, link (Suc n'))" "url \<noteq> []" using assms by blast
      then show False using 1(1) [of net "Suc n'" "link (Suc n')"] 1(2) l by auto
    qed
  qed
  ultimately show False by blast
qed

section \<open>The map of channels\<close>

text \<open>The channels read, with their teams, in order; a team whose channels cannot be read has none.\<close>

fun channels_read :: "dir_net \<Rightarrow> nat \<Rightarrow> team list \<Rightarrow> (team \<times> channel) list" where
  "channels_read net n [] = []"
| "channels_read net n (t # ts) =
     (case list_team_channels net n (tm_id t) of Inl _ \<Rightarrow> [] | Inr chs \<Rightarrow> map (Pair t) chs) @ channels_read net (Suc n) ts"

lemma channels_of_teams_fold:
  "channels_of_teams net n ts m = fold (\<lambda>(t, ch). add_channel t ch) (channels_read net n ts) m"
  by (induction net n ts m rule: channels_of_teams.induct) (auto simp: fold_map comp_def split: sum.splits)

definition channel_key :: "team \<times> channel \<Rightarrow> string" where
  "channel_key x = trim_space (ch_id (snd x))"

text \<open>An entry of the map: the last channel read with that ID.\<close>

lemma add_channels_entry:
  "k \<noteq> [] \<Longrightarrow> map_of (fold (\<lambda>(t, ch). add_channel t ch) xs m) k =
     (case filter (\<lambda>x. channel_key x = k) xs of
        [] \<Rightarrow> map_of m k | ys \<Rightarrow> Some (info_of (fst (last ys)) (snd (last ys))))"
proof (induction xs rule: rev_induct)
  case (snoc x xs)
  then show ?case
    by (auto simp: add_channel_def channel_key_def update_conv' split: prod.splits list.splits)
qed simp

lemma channel_map_entry:
  assumes "list_joined_teams_and_channels net c = Inr m" and "k \<noteq> []"
  shows "\<exists>teams. list_joined_teams net 0 = Inr teams \<and>
    map_of m k = (case filter (\<lambda>x. channel_key x = k) (channels_read net 1 teams) of
      [] \<Rightarrow> None | ys \<Rightarrow> Some (info_of (fst (last ys)) (snd (last ys))))"
proof -
  obtain teams where t: "list_joined_teams net 0 = Inr teams" and m: "m = channels_of_teams net 1 teams []"
    using assms(1) by (auto simp: list_joined_teams_and_channels_def split: option.splits sum.splits)
  show ?thesis
    by (rule exI [of _ teams]) (simp add: t m channels_of_teams_fold add_channels_entry [OF assms(2)] split: list.split)
qed

end
