(* ===== verification/Conversations.thy ===== *)
theory Conversations
  imports Teams_Message
begin

text \<open>
  Conversations as Teams lists them (internal/teams/model/conversation.go): the thread a conversation
  stands for, the name of its room, the guess that it is a chat of two, and the user's own state of a
  chat (muted, marked unread).

  \<open>lower\<close> stands for \<open>strings.ToLower\<close> with its Unicode tables; it is applied to names and IDs.
\<close>

section \<open>Data\<close>

record thread_properties =
  tp_original_thread_id :: string
  tp_product_thread_type :: string
  tp_created_at :: string
  tp_is_creator :: bool
  tp_topic :: string
  tp_thread_topic :: string
  tp_title :: string
  tp_display_name :: string
  tp_name :: string

record conversation_member =
  cm_id :: string
  cm_mri :: string
  cm_display_name :: string
  cm_name :: string
  cm_is_self :: bool
  cm_is_current_user :: bool

record conversation_properties =
  cp_topic :: string
  cp_thread_topic :: string
  cp_title :: string
  cp_display_name :: string
  cp_name :: string
  cp_alerts :: string
  cp_horizon :: string
  cp_bookmark :: string

record remote_conversation =
  rc_id :: string
  rc_thread_properties :: thread_properties
  rc_topic :: string
  rc_title :: string
  rc_display_name :: string
  rc_name :: string
  rc_properties :: conversation_properties
  rc_members :: "conversation_member list"
  rc_participants :: "conversation_member list"
  rc_consumers :: "conversation_member list"
  rc_last_message_id :: string
  rc_metadata_version :: string

record thread =
  td_id :: string
  td_conversation_id :: string
  td_type :: string
  td_created_at :: string
  td_is_creator :: bool
  td_is_one_to_one :: bool
  td_room_name :: string

text \<open>\<open>LooseString.UnmarshalJSON\<close>: a string, or a number or boolean as written, else empty.\<close>

fun loose_string :: "json \<Rightarrow> string" where
  "loose_string (JStr s) = s"
| "loose_string (JBool b) = (if b then ''true'' else ''false'')"
| "loose_string (JNum n) = n"
| "loose_string _ = []"

section \<open>The user's own state of a chat\<close>

definition muted :: "conversation_properties \<Rightarrow> bool" where
  "muted p \<longleftrightarrow> equal_fold (trim_space (cp_alerts p)) ''false''"

text \<open>\<open>horizonTime\<close>: the second field, when it is a positive number.\<close>

definition horizon_time :: "string \<Rightarrow> int option" where
  "horizon_time value =
     (let fields = split_on (CHR '';'') (trim_space value) in
      if length fields < 2 then None
      else case parse_int64 (trim_space (fields ! 1)) of
             None \<Rightarrow> None
           | Some t \<Rightarrow> if 0 < t then Some t else None)"

definition marked_unread :: "conversation_properties \<Rightarrow> bool" where
  "marked_unread p =
     (case horizon_time (cp_bookmark p) of
        None \<Rightarrow> False
      | Some marked \<Rightarrow> (case horizon_time (cp_horizon p) of None \<Rightarrow> True | Some read \<Rightarrow> read < marked))"

section \<open>Members\<close>

definition all_members :: "remote_conversation \<Rightarrow> conversation_member list" where
  "all_members c = concat [rc_members c, rc_participants c, rc_consumers c]"

definition member_id :: "conversation_member \<Rightarrow> string" where
  "member_id m = (if trim_space (cm_id m) \<noteq> [] then trim_space (cm_id m) else trim_space (cm_mri m))"

definition member_name :: "conversation_member \<Rightarrow> string" where
  "member_name m = (if trim_space (cm_display_name m) \<noteq> [] then trim_space (cm_display_name m) else trim_space (cm_name m))"

definition digit :: "char \<Rightarrow> bool" where
  "digit c \<longleftrightarrow> (let n = (of_char c :: nat) in 48 \<le> n \<and> n \<le> 57)"

text \<open>The loop of \<open>normalizeParticipantID\<close>: number prefixes (\<open>8:\<close>) go, unless nothing would be left.\<close>

definition after_number :: "string \<Rightarrow> string option" where
  "after_number i =
     (let pre = takeWhile (\<lambda>c. c \<noteq> CHR '':'') i; rest = drop (length pre) i in
      if pre = [] \<or> rest = [] \<or> tl rest = [] \<or> \<not> list_all digit pre then None else Some (tl rest))"

lemma after_number_shorter: "after_number i = Some r \<Longrightarrow> length r < length i"
proof -
  assume a: "after_number i = Some r"
  let ?d = "drop (length (takeWhile (\<lambda>c. c \<noteq> CHR '':'') i)) i"
  from a have r: "r = tl ?d" "?d \<noteq> []" by (auto simp: after_number_def Let_def split: if_splits)
  then have "length r < length ?d" by (cases ?d) auto
  then show ?thesis by simp
qed

function strip_numbers :: "string \<Rightarrow> string" where
  "strip_numbers i = (case after_number i of None \<Rightarrow> i | Some r \<Rightarrow> strip_numbers r)"
  by pat_completeness auto
termination
  by (relation "measure length") (auto simp: after_number_shorter)

declare strip_numbers.simps [simp del]

definition normalize_participant_id :: "(string \<Rightarrow> string) \<Rightarrow> string \<Rightarrow> string" where
  "normalize_participant_id lower raw = strip_numbers (lower (trim_space raw))"

definition is_explicit_self_member ::
  "(string \<Rightarrow> string) \<Rightarrow> conversation_member \<Rightarrow> string \<Rightarrow> string \<Rightarrow> string \<Rightarrow> bool" where
  "is_explicit_self_member lower m mid self self_norm \<longleftrightarrow>
     cm_is_self m \<or> cm_is_current_user m \<or>
     (self \<noteq> [] \<and> mid \<noteq> [] \<and> equal_fold mid self) \<or>
     (self_norm \<noteq> [] \<and> normalize_participant_id lower mid = self_norm)"

definition is_likely_teams_bot_id :: "(string \<Rightarrow> string) \<Rightarrow> string \<Rightarrow> bool" where
  "is_likely_teams_bot_id lower raw \<longleftrightarrow>
     (let i = trim_space (lower raw) in i \<noteq> [] \<and> (prefix ''28:'' i \<or> sublist ''teamsbot'' i))"

definition self_names ::
  "(string \<Rightarrow> string) \<Rightarrow> remote_conversation \<Rightarrow> string \<Rightarrow> string \<Rightarrow> string list" where
  "self_names lower c self self_norm =
     map (\<lambda>m. lower (member_name m))
       (filter (\<lambda>m. is_explicit_self_member lower m (member_id m) self self_norm \<and> member_name m \<noteq> []) (all_members c))"

section \<open>Names\<close>

fun first_named :: "string list \<Rightarrow> string" where
  "first_named [] = []"
| "first_named (s # ss) = (if trim_space s \<noteq> [] then trim_space s else first_named ss)"

definition resolve_thread_name :: "remote_conversation \<Rightarrow> string" where
  "resolve_thread_name c =
     (let t = rc_thread_properties c; p = rc_properties c in
      first_named [tp_topic t, tp_thread_topic t, tp_title t, tp_display_name t, tp_name t,
        cp_topic p, cp_thread_topic p, cp_title p, cp_display_name p, cp_name p,
        rc_topic c, rc_title c, rc_display_name c, rc_name c])"

definition resolve_topic :: "remote_conversation \<Rightarrow> string" where
  "resolve_topic c =
     first_named [tp_topic (rc_thread_properties c), tp_thread_topic (rc_thread_properties c),
       cp_topic (rc_properties c), cp_thread_topic (rc_properties c), rc_topic c]"

text \<open>The loop of \<open>resolveDMName\<close>: \<open>other\<close> are the members that are neither the user nor a bot.\<close>

fun dm_name_loop ::
  "(string \<Rightarrow> string) \<Rightarrow> (conversation_member \<Rightarrow> bool) \<Rightarrow> string list \<Rightarrow> conversation_member list \<Rightarrow> string \<Rightarrow> string" where
  "dm_name_loop lower other names [] fallback = fallback"
| "dm_name_loop lower other names (m # ms) fallback =
     (if \<not> other m \<or> member_name m = [] then dm_name_loop lower other names ms fallback
      else (let fallback1 = (if fallback = [] then member_name m else fallback) in
            if lower (member_name m) \<in> set names then dm_name_loop lower other names ms fallback1
            else member_name m))"

definition is_other :: "(string \<Rightarrow> string) \<Rightarrow> string \<Rightarrow> conversation_member \<Rightarrow> bool" where
  "is_other lower self m \<longleftrightarrow>
     \<not> is_explicit_self_member lower m (member_id m) self (normalize_participant_id lower self) \<and>
     \<not> is_likely_teams_bot_id lower (member_id m)"

definition resolve_dm_name :: "(string \<Rightarrow> string) \<Rightarrow> remote_conversation \<Rightarrow> string \<Rightarrow> string" where
  "resolve_dm_name lower c self0 =
     (let self = trim_space self0; names = self_names lower c self (normalize_participant_id lower self) in
      dm_name_loop lower (is_other lower self) names (all_members c) [])"

section \<open>A chat of two\<close>

text \<open>What \<open>isLikelyOneToOne\<close> counts a member as, if it does.\<close>

definition other_key :: "(string \<Rightarrow> string) \<Rightarrow> string \<Rightarrow> string list \<Rightarrow> conversation_member \<Rightarrow> string option" where
  "other_key lower self names m =
     (if \<not> is_other lower self m then None
      else if member_name m \<noteq> [] \<and> lower (member_name m) \<in> set names then None
      else (let k = normalize_participant_id lower (member_id m);
                key = (if k = [] then lower (member_name m) else k)
            in if key = [] then None else Some key))"

text \<open>The loop, with its early return.\<close>

fun count_others :: "(conversation_member \<Rightarrow> string option) \<Rightarrow> conversation_member list \<Rightarrow> string list \<Rightarrow> bool" where
  "count_others key [] others = (length others = 1)"
| "count_others key (m # ms) others =
     (case key m of
        None \<Rightarrow> count_others key ms others
      | Some k \<Rightarrow> (let others1 = List.insert k others in
                   if 1 < length others1 then False else count_others key ms others1))"

definition is_likely_one_to_one :: "(string \<Rightarrow> string) \<Rightarrow> remote_conversation \<Rightarrow> string \<Rightarrow> bool" where
  "is_likely_one_to_one lower c self0 =
     (if resolve_thread_name c \<noteq> [] then False
      else (let self = trim_space self0; names = self_names lower c self (normalize_participant_id lower self) in
            count_others (other_key lower self names) (all_members c) []))"

section \<open>The thread\<close>

definition default_room_name :: string where "default_room_name = ''Chat''"

definition resolve_room_name :: "(string \<Rightarrow> string) \<Rightarrow> remote_conversation \<Rightarrow> bool \<Rightarrow> string \<Rightarrow> string" where
  "resolve_room_name lower c one_to_one self =
     (if one_to_one then resolve_dm_name lower c self
      else if resolve_thread_name c \<noteq> [] then resolve_thread_name c
      else default_room_name)"

definition normalize_for_self :: "(string \<Rightarrow> string) \<Rightarrow> remote_conversation \<Rightarrow> string \<Rightarrow> thread option" where
  "normalize_for_self lower c self =
     (let t = rc_thread_properties c; i = trim_space (tp_original_thread_id t) in
      if i = [] then None
      else (let ty = trim_space (tp_product_thread_type t);
                dm = (ty = ''OneToOneChat'' \<or> is_likely_one_to_one lower c (trim_space self)) in
            Some \<lparr>td_id = i, td_conversation_id = trim_space (rc_id c), td_type = ty,
              td_created_at = tp_created_at t, td_is_creator = tp_is_creator t, td_is_one_to_one = dm,
              td_room_name = resolve_room_name lower c dm (trim_space self)\<rparr>))"

definition normalize_conversation :: "(string \<Rightarrow> string) \<Rightarrow> remote_conversation \<Rightarrow> thread option" where
  "normalize_conversation lower c = normalize_for_self lower c []"

section \<open>Pinned messages\<close>

fun pinned_ids :: "json list \<Rightarrow> string list option" where
  "pinned_ids [] = Some []"
| "pinned_ids (j # js) =
     (case (string_field ''itemId'' j, string_field ''itemType'' j, pinned_ids js) of
        (Some i, Some ty, Some is) \<Rightarrow>
          Some (if trim_space i \<noteq> [] \<and> (ty = [] \<or> ty = ''Message'') then trim_space i # is else is)
      | _ \<Rightarrow> None)"

definition parse_pinned_items :: "(string \<Rightarrow> json option) \<Rightarrow> string \<Rightarrow> string list" where
  "parse_pinned_items parse raw0 =
     (let raw = trim_space raw0 in
      if raw = [] then []
      else case parse raw of
             Some (JArr js) \<Rightarrow> (case pinned_ids js of Some ids \<Rightarrow> ids | None \<Rightarrow> [])
           | _ \<Rightarrow> [])"

section \<open>Facts\<close>

text \<open>The loops as searches: how many others there are, and whose name a chat of two takes.\<close>

lemma count_others_card:
  "distinct others \<Longrightarrow> length others \<le> 1 \<Longrightarrow>
   count_others key ms others \<longleftrightarrow> card (set others \<union> {k. \<exists>m \<in> set ms. key m = Some k}) = 1"
proof (induction ms arbitrary: others)
  case Nil
  then show ?case by (simp add: distinct_card)
next
  case (Cons m ms)
  show ?case
  proof (cases "key m")
    case None
    then show ?thesis using Cons by (simp add: Collect_disj_eq)
  next
    case (Some k)
    let ?K = "{k. \<exists>m \<in> set ms. key m = Some k}" and ?o = "List.insert k others"
    have all: "set others \<union> {k. \<exists>m \<in> set (m # ms). key m = Some k} = set ?o \<union> ?K" using Some by auto
    have d: "distinct ?o" using Cons.prems by simp
    have fin: "finite ?K"
      by (rule finite_subset [of _ "(\<lambda>m. the (key m)) ` set ms"]) force+
    show ?thesis
    proof (cases "length ?o \<le> 1")
      case True
      then have "count_others key (m # ms) others = count_others key ms ?o" using Some by (simp add: Let_def)
      then show ?thesis by (simp only: all Cons.IH [OF d True])
    next
      case False
      then have "2 \<le> card (set ?o)" unfolding distinct_card [OF d] by simp
      also have "\<dots> \<le> card (set ?o \<union> ?K)" using fin by (intro card_mono) auto
      finally have "card (set ?o \<union> ?K) \<noteq> 1" by simp
      moreover have "\<not> count_others key (m # ms) others" using False Some by (simp add: Let_def)
      ultimately show ?thesis unfolding all by simp
    qed
  qed
qed

definition named_others :: "(string \<Rightarrow> string) \<Rightarrow> remote_conversation \<Rightarrow> string \<Rightarrow> conversation_member list" where
  "named_others lower c self = filter (\<lambda>m. is_other lower self m \<and> member_name m \<noteq> []) (all_members c)"

definition first_name :: "conversation_member list \<Rightarrow> string" where
  "first_name ms = (case ms of [] \<Rightarrow> [] | m # _ \<Rightarrow> member_name m)"

lemma dm_name_loop_search:
  "dm_name_loop lower other names ms fallback =
     (let named = filter (\<lambda>m. other m \<and> member_name m \<noteq> []) ms in
      case find (\<lambda>m. lower (member_name m) \<notin> set names) named of
        Some m \<Rightarrow> member_name m
      | None \<Rightarrow> if fallback = [] then first_name named else fallback)"
  by (induction ms arbitrary: fallback) (auto simp: Let_def first_name_def split: option.splits list.splits)

lemma first_named_member: "first_named ss \<noteq> [] \<Longrightarrow> \<exists>s \<in> set ss. first_named ss = trim_space s"
  by (induction ss) (auto split: if_splits)

lemma first_named_empty: "first_named ss = [] \<longleftrightarrow> (\<forall>s \<in> set ss. trim_space s = [])"
  by (induction ss) auto

section \<open>Unread marks\<close>

lemma semicolon_free: "\<forall>p \<in> set go_spaces. CHR '';'' \<notin> set p"
  by code_simp

lemma horizon_time_second:
  assumes "CHR '';'' \<notin> set a" and "CHR '';'' \<notin> set b"
  shows "horizon_time (a @ CHR '';'' # b @ CHR '';'' # c) =
    (case parse_int64 (trim_space b) of None \<Rightarrow> None | Some t \<Rightarrow> if 0 < t then Some t else None)"
proof -
  obtain a' c' where t: "suffix a' a" "trim_space (a @ CHR '';'' # b @ CHR '';'' # c) = a' @ CHR '';'' # b @ CHR '';'' # c'"
    using trim_space_stops [OF semicolon_free] by blast
  with assms(1) have "CHR '';'' \<notin> set a'" by (auto simp: suffix_def)
  then show ?thesis using assms(2) by (simp add: horizon_time_def t(2) split_on_append split_on_free Let_def)
qed

section \<open>Properties\<close>

text \<open>What a conversation becomes.  Its thread has a trimmed, non-empty ID.  It is a chat of two
  exactly when Teams types it so, or no name is given and its member lists, taken together, hold one
  participant besides the user and the bots, counted by normalised ID or else by name, and leaving out
  those with one of the user's own names.  A chat of two is named after the first member who is
  neither the user nor a bot and has no name of the user's, else after the first such member with a
  name; any other room has a name.\<close>

lemma conversation_thread:
  fixes lower c self0
  defines "self \<equiv> trim_space self0"
  defines "names \<equiv> self_names lower c self (normalize_participant_id lower self)"
  assumes "normalize_for_self lower c self0 = Some t"
  shows "td_id t \<noteq> [] \<and> trim_space (td_id t) = td_id t \<and>
    (td_is_one_to_one t \<longleftrightarrow> td_type t = ''OneToOneChat'' \<or>
       resolve_thread_name c = [] \<and> card {k. \<exists>m \<in> set (all_members c). other_key lower self names m = Some k} = 1) \<and>
    td_room_name t =
      (if td_is_one_to_one t
       then (case find (\<lambda>m. lower (member_name m) \<notin> set names) (named_others lower c self) of
               Some m \<Rightarrow> member_name m | None \<Rightarrow> first_name (named_others lower c self))
       else if resolve_thread_name c \<noteq> [] then resolve_thread_name c else ''Chat'')"
proof -
  have one: "is_likely_one_to_one lower c self \<longleftrightarrow>
      resolve_thread_name c = [] \<and> card {k. \<exists>m \<in> set (all_members c). other_key lower self names m = Some k} = 1"
    by (simp add: is_likely_one_to_one_def Let_def count_others_card names_def self_def)
  have dm: "resolve_dm_name lower c self =
      (case find (\<lambda>m. lower (member_name m) \<notin> set names) (named_others lower c self) of
         Some m \<Rightarrow> member_name m | None \<Rightarrow> first_name (named_others lower c self))"
    unfolding named_others_def names_def self_def by (simp add: resolve_dm_name_def Let_def dm_name_loop_search)
  have "trim_space self0 = self" by (simp add: self_def)
  with assms(3) show ?thesis
    by (auto simp: normalize_for_self_def Let_def one dm resolve_room_name_def default_room_name_def split: if_splits)
qed

text \<open>The user and one other member, who is listed twice under two forms of an ID.\<close>

definition blank_member :: conversation_member where
  "blank_member = \<lparr>cm_id = [], cm_mri = [], cm_display_name = [], cm_name = [], cm_is_self = False, cm_is_current_user = False\<rparr>"

definition two_members :: remote_conversation where
  "two_members = \<lparr>rc_id = ''19:a@unq.gbl.spaces'',
     rc_thread_properties = \<lparr>tp_original_thread_id = ''19:a@unq.gbl.spaces'', tp_product_thread_type = [], tp_created_at = [],
       tp_is_creator = False, tp_topic = [], tp_thread_topic = [], tp_title = [], tp_display_name = [], tp_name = []\<rparr>,
     rc_topic = [], rc_title = [], rc_display_name = [], rc_name = [],
     rc_properties = \<lparr>cp_topic = [], cp_thread_topic = [], cp_title = [], cp_display_name = [], cp_name = [], cp_alerts = [],
       cp_horizon = [], cp_bookmark = []\<rparr>,
     rc_members = [blank_member\<lparr>cm_id := ''8:me'', cm_display_name := ''Me''\<rparr>, blank_member\<lparr>cm_id := ''8:bo'', cm_display_name := ''Bo''\<rparr>],
     rc_participants = [blank_member\<lparr>cm_mri := ''bo''\<rparr>], rc_consumers = [], rc_last_message_id = [], rc_metadata_version = []\<rparr>"

lemma conversation_thread_example:
  "\<exists>t. normalize_for_self to_lower two_members ''8:me'' = Some t \<and> td_is_one_to_one t \<and> td_room_name t = ''Bo''"
proof -
  have trims: "trim_space ''8:me'' = ''8:me''" "trim_space ''8:bo'' = ''8:bo''" "trim_space ''bo'' = ''bo''"
    "trim_space ''Me'' = ''Me''" "trim_space ''Bo'' = ''Bo''" "trim_space ''19:a@unq.gbl.spaces'' = ''19:a@unq.gbl.spaces''"
    by (simp_all add: trim_space_plain plain_ends_def)
  have strips: "strip_numbers ''8:me'' = ''me''" "strip_numbers ''8:bo'' = ''bo''" "strip_numbers ''bo'' = ''bo''"
    by (simp_all add: strip_numbers.simps after_number_def digit_def Let_def)
  have folds: "\<not> equal_fold ''8:bo'' ''8:me''" "\<not> equal_fold ''bo'' ''8:me''" by (simp_all add: fold_eval)
  have lows: "to_lower ''8:me'' = ''8:me''" "to_lower ''8:bo'' = ''8:bo''" "to_lower ''bo'' = ''bo''" "to_lower ''Me'' = ''me''" "to_lower ''Bo'' = ''bo''"
    by code_simp+
  have bots: "\<not> sublist ''teamsbot'' ''8:me''" "\<not> sublist ''teamsbot'' ''8:bo''" "\<not> sublist ''teamsbot'' ''bo''"
    by (auto dest: sublist_length_le)
  obtain t where t: "normalize_for_self to_lower two_members ''8:me'' = Some t"
    by (auto simp: normalize_for_self_def Let_def two_members_def trims)
  let ?ns = "self_names to_lower two_members ''8:me'' ''me''"
  have members: "all_members two_members = [blank_member\<lparr>cm_id := ''8:me'', cm_display_name := ''Me''\<rparr>,
      blank_member\<lparr>cm_id := ''8:bo'', cm_display_name := ''Bo''\<rparr>, blank_member\<lparr>cm_mri := ''bo''\<rparr>]"
    by (simp add: all_members_def two_members_def)
  note eval = members blank_member_def member_id_def member_name_def is_explicit_self_member_def normalize_participant_id_def
    is_likely_teams_bot_id_def is_other_def trims strips folds lows bots Let_def
  have ns: "?ns = [''me'']" by (simp add: self_names_def eval)
  have key: "{k. \<exists>m \<in> set (all_members two_members). other_key to_lower ''8:me'' [''me''] m = Some k} = {''bo''}"
    by (auto simp: other_key_def eval)
  have nm: "named_others to_lower two_members ''8:me'' = [blank_member\<lparr>cm_id := ''8:bo'', cm_display_name := ''Bo''\<rparr>]"
    by (simp add: named_others_def eval)
  have "resolve_thread_name two_members = []" by (simp add: resolve_thread_name_def two_members_def Let_def)
  moreover have "normalize_participant_id to_lower ''8:me'' = ''me''" by (simp add: eval)
  ultimately have "td_is_one_to_one t \<and> td_room_name t = ''Bo''"
    using conversation_thread [OF t] ns key nm by (simp add: trims blank_member_def member_name_def lows)
  with t show ?thesis by blast
qed

end
