(* ===== verification/Room_Names.thy ===== *)
theory Room_Names
  imports Remote_Events Graph_Directory Conversations
begin

text \<open>
  The names of rooms (thread_discovery.go): prefixes, placeholders, the names of channels, group
  chats and system streams, and the choice between the name the conversation list reports and the one
  stored.  Thread IDs are lower-cased as ASCII.
\<close>

section \<open>Prefixes\<close>

definition type_prefixes :: "string list" where
  "type_prefixes = [''DM: '', ''Group: '', ''Meeting: '', ''[DM] '', ''[Channel] '', ''[Group] '', ''[Meeting] '']"

definition has_type_prefix :: "string \<Rightarrow> bool" where
  "has_type_prefix name \<longleftrightarrow> list_ex (\<lambda>p. prefix p name) type_prefixes"

fun strip_first_prefix :: "string list \<Rightarrow> string \<Rightarrow> string" where
  "strip_first_prefix [] name = name"
| "strip_first_prefix (p # ps) name = (if prefix p name then drop (length p) name else strip_first_prefix ps name)"

definition strip_type_prefix :: "string \<Rightarrow> string" where
  "strip_type_prefix name = strip_first_prefix type_prefixes name"

definition is_generic_chat_name :: "string \<Rightarrow> bool" where
  "is_generic_chat_name name \<longleftrightarrow> trim_space name = [] \<or> trim_space name = ''Chat''"

definition placeholder_dm_prefix :: string where
  "placeholder_dm_prefix = ''DM: unknown user ''"

definition trim_prefix :: "string \<Rightarrow> string \<Rightarrow> string" where
  "trim_prefix p s = (if prefix p s then drop (length p) s else s)"

text \<open>Up to the first \<open>c\<close>, unless that is at the start.\<close>

definition before_char :: "char \<Rightarrow> string \<Rightarrow> string" where
  "before_char c s = (let b = takeWhile (\<lambda>x. x \<noteq> c) s in if b = [] then s else b)"

definition placeholder_dm_name :: "string \<Rightarrow> string" where
  "placeholder_dm_name user =
     (let i = trim_prefix ''8:orgid:'' (trim_space user) in
      if i = [] then [] else placeholder_dm_prefix @ before_char (CHR ''-'') i)"

definition is_placeholder_dm_name :: "string \<Rightarrow> bool" where
  "is_placeholder_dm_name name \<longleftrightarrow> prefix placeholder_dm_prefix name"

definition choose_stored_name :: "string \<Rightarrow> string \<Rightarrow> string" where
  "choose_stored_name api existing =
     (if existing = [] then api
      else if is_generic_chat_name api \<and> \<not> is_generic_chat_name existing then existing
      else if has_type_prefix existing \<and> \<not> is_placeholder_dm_name existing \<and> api = strip_type_prefix existing then existing
      else if suffix ('' / '' @ api) existing then existing
      else api)"

section \<open>Kinds of threads\<close>

definition is_channel_thread :: "string \<Rightarrow> bool" where
  "is_channel_thread i \<longleftrightarrow> sublist ''@thread.tacv2'' i"

definition is_group_chat_thread :: "string \<Rightarrow> bool" where
  "is_group_chat_thread i0 \<longleftrightarrow>
     (let i = to_lower (trim_space i0) in
      suffix ''@thread.v2'' i \<and> \<not> sublist ''meeting_'' i \<and> \<not> sublist ''teamsstream_'' i)"

definition system_stream_name :: "string \<Rightarrow> string" where
  "system_stream_name i =
     (if sublist ''teamsstream_notes'' i then ''Notes''
      else if sublist ''teamsstream_notifications'' i then ''Notifications''
      else if sublist ''teamsstream_calllogs'' i then ''Call Log''
      else if sublist ''teamsstream_annotations'' i then ''Annotations''
      else if sublist ''teamsstream_threads'' i then ''Threads''
      else if sublist ''teamsstream_drafts'' i then ''Drafts''
      else if sublist ''teamsstream_mentions'' i then ''Mentions''
      else [])"

definition team_portal_id :: "string \<Rightarrow> string" where
  "team_portal_id team = ''team:'' @ trim_space team"

text \<open>The other member of an enterprise DM, from the thread ID \<open>19:a_b@unq.gbl.spaces\<close>.\<close>

definition dm_counterpart :: "string \<Rightarrow> string \<Rightarrow> string" where
  "dm_counterpart self thread =
     (let i = before_char (CHR ''@'') (trim_prefix ''19:'' (trim_space thread)) in
      case cut i ''_'' of
        (a, b, found) \<Rightarrow>
          if \<not> found then []
          else (let own = (case after_last (CHR '':'') self of Some s \<Rightarrow> s | None \<Rightarrow> self);
                    other = (if equal_fold a own then b else a) in
                if other = [] then [] else ''8:orgid:'' @ other))"

text \<open>Each member of a direct chat finds the other.\<close>

lemma dm_counterpart_example:
  "dm_counterpart ''8:orgid:a'' ''19:a_b@unq.gbl.spaces'' = ''8:orgid:b''"
  "dm_counterpart ''8:orgid:b'' ''19:a_b@unq.gbl.spaces'' = ''8:orgid:a''"
proof -
  have t: "trim_space ''19:a_b@unq.gbl.spaces'' = ''19:a_b@unq.gbl.spaces''" by (simp add: trim_space_plain plain_ends_def)
  show "dm_counterpart ''8:orgid:a'' ''19:a_b@unq.gbl.spaces'' = ''8:orgid:b''"
    "dm_counterpart ''8:orgid:b'' ''19:a_b@unq.gbl.spaces'' = ''8:orgid:a''"
    by (simp_all add: dm_counterpart_def t trim_prefix_def before_char_def fold_eval)
qed

section \<open>Names of channels and group chats\<close>

definition channel_room_name :: "channel_map \<Rightarrow> string \<Rightarrow> string \<Rightarrow> string" where
  "channel_room_name m thread base =
     (case map_of m thread of
        None \<Rightarrow> if base \<noteq> [] then base else thread
      | Some info \<Rightarrow>
          (let team = ci_team info; channel = (if ci_channel info = [] then base else ci_channel info) in
           if team \<noteq> [] \<and> channel \<noteq> [] then team @ '' / '' @ channel
           else if channel \<noteq> [] then channel
           else if team \<noteq> [] then team
           else if base \<noteq> [] then base
           else thread))"

definition join_group_names :: "string list \<Rightarrow> string" where
  "join_group_names names0 =
     (if names0 = [] then []
      else (let names = sort names0 in
            if 4 < length names then join_with '', '' (take 3 names) @ '' +'' @ show_nat (length names - 3) @ '' others''
            else join_with '', '' names))"

text \<open>\<open>structuredRoomName\<close>, given the name and the ID of the other member of a DM, where they are needed.\<close>

definition base_name :: "string \<Rightarrow> string" where
  "base_name stored = (if stored = [] \<or> stored = ''Chat'' then [] else stored)"

definition structured_room_name ::
  "bool \<Rightarrow> string \<Rightarrow> string \<Rightarrow> string \<Rightarrow> string \<Rightarrow> channel_map \<Rightarrow> string" where
  "structured_room_name one_to_one stored thread other_name other_id m =
     (let base = base_name stored in
      if one_to_one then
        (if base = [] then (if other_name = [] then placeholder_dm_name other_id else ''DM: '' @ other_name)
         else ''DM: '' @ base)
      else if sublist ''meeting_'' thread then ''Meeting: '' @ (if base = [] then ''Meeting'' else base)
      else if is_channel_thread thread then channel_room_name m thread base
      else if base = [] then []
      else ''Group: '' @ base)"

section \<open>Discovery's choice\<close>

lemma generic_names [simp]: "is_generic_chat_name []" "is_generic_chat_name ''Chat''"
  by (simp_all add: is_generic_chat_name_def trim_space_plain plain_ends_def)

lemma strip_first_prefix_length: "length (strip_first_prefix ps s) \<le> length s"
  by (induction ps) auto

text \<open>The choice is made once: with the same name reported again, nothing changes.\<close>

lemma choose_stored_twice:
  "choose_stored_name api (choose_stored_name api existing) = choose_stored_name api existing"
  by (auto simp: choose_stored_name_def suffix_def)

lemma has_type_prefix_strip: "has_type_prefix n \<Longrightarrow> \<exists>p. p \<in> set type_prefixes \<and> n = p @ strip_type_prefix n"
proof -
  have "list_ex (\<lambda>p. prefix p n) ps \<Longrightarrow> \<exists>p. p \<in> set ps \<and> n = p @ strip_first_prefix ps n" for ps
    by (induction ps) (auto simp: prefix_def)
  then show "has_type_prefix n \<Longrightarrow> \<exists>p. p \<in> set type_prefixes \<and> n = p @ strip_type_prefix n"
    by (simp add: has_type_prefix_def strip_type_prefix_def)
qed

lemma prefixed_raw:
  "has_type_prefix (''DM: '' @ n)" "strip_type_prefix (''DM: '' @ n) = n"
  "has_type_prefix (''Group: '' @ n)" "strip_type_prefix (''Group: '' @ n) = n"
  "has_type_prefix (''Meeting: '' @ n)" "strip_type_prefix (''Meeting: '' @ n) = n"
  by (simp_all add: has_type_prefix_def strip_type_prefix_def type_prefixes_def)

lemmas prefixed_names [simp] = prefixed_raw [unfolded append.simps]

section \<open>Naming settles\<close>

text \<open>The name after the naming pass, for a thread that is stored under \<open>n\<close>.\<close>

definition named :: "bool \<Rightarrow> string \<Rightarrow> string \<Rightarrow> string \<Rightarrow> channel_map \<Rightarrow> string \<Rightarrow> string" where
  "named one thread other_name other_id m n =
     (let s = (if sublist ''teamsstream_'' thread then system_stream_name thread
               else if has_type_prefix n then n
               else structured_room_name one n thread other_name other_id m) in
      if s = [] then n else s)"

text \<open>
  The names that do not settle are left out: a person called "unknown user ", a stream or a channel
  which the conversation list and the naming pass name differently, a channel without a name.
\<close>

definition settling :: "string \<Rightarrow> bool \<Rightarrow> string \<Rightarrow> channel_map \<Rightarrow> bool" where
  "settling api one thread m \<longleftrightarrow>
     (if sublist ''teamsstream_'' thread then api = [] \<or> api = ''Chat'' \<or> api = system_stream_name thread
      else if one then \<not> prefix ''unknown user '' api
      else if sublist ''meeting_'' thread \<or> \<not> is_channel_thread thread then True
      else case map_of m thread of
             None \<Rightarrow> True
           | Some info \<Rightarrow> \<not> is_generic_chat_name (ci_channel info) \<and>
               (api = [] \<or> api = ''Chat'' \<or> api = ci_channel info))"

lemma generic_trimmed: "trim_space n = n \<Longrightarrow> is_generic_chat_name n \<longleftrightarrow> n = [] \<or> n = ''Chat''"
  by (simp add: is_generic_chat_name_def)

lemma choose_same [simp]: "choose_stored_name api api = api"
  by (auto simp: choose_stored_name_def suffix_def)

text \<open>A name with one of the characters that no generic name has.\<close>

lemma trim_space_keeps:
  assumes "d \<in> set s" "\<forall>p \<in> set go_spaces. d \<notin> set p"
  shows "d \<in> set (trim_space s)"
proof -
  obtain a r where s: "s = a @ d # r" using assms(1) by (metis in_set_conv_decomp)
  obtain a' where l: "trim_left s = a' @ d # r" using strip_stops [OF assms(2), of a r] s by (auto simp: trim_left_def)
  have "\<forall>p \<in> set (map rev go_spaces). d \<notin> set p" using assms(2) by auto
  from strip_stops [OF this, of "rev r" "rev a'"] show ?thesis
    using l by (auto simp: trim_space_def trim_right_def)
qed

lemma marked_not_generic:
  assumes "d \<in> set s" "d \<in> set '':/@''"
  shows "\<not> is_generic_chat_name s"
proof -
  have "\<forall>c \<in> set '':/@''. \<forall>p \<in> set go_spaces. c \<notin> set p" by code_simp
  then have "d \<in> set (trim_space s)" using trim_space_keeps assms by blast
  then show ?thesis using assms(2) by (auto simp: is_generic_chat_name_def)
qed

lemma chosen_cases:
  assumes "\<not> has_type_prefix (choose_stored_name api old)"
  shows "is_generic_chat_name api \<or> choose_stored_name api old = api \<or> suffix ('' / '' @ api) (choose_stored_name api old)"
  using assms by (auto simp: choose_stored_name_def)

lemma unnamed_chosen:
  assumes "base_name (choose_stored_name api old) = []"
  shows "is_generic_chat_name api"
proof -
  have n: "choose_stored_name api old = [] \<or> choose_stored_name api old = ''Chat''"
    using assms by (simp add: base_name_def split: if_splits)
  then have "\<not> has_type_prefix (choose_stored_name api old)" "\<not> suffix ('' / '' @ api) (choose_stored_name api old)"
    by (auto simp: has_type_prefix_def type_prefixes_def suffix_def Cons_eq_append_conv)
  then show ?thesis using chosen_cases [of api old] n by auto
qed

lemma generic_keeps: "is_generic_chat_name api \<Longrightarrow> \<not> is_generic_chat_name p \<Longrightarrow> choose_stored_name api p = p"
  by (auto simp: choose_stored_name_def)

lemma suffix_keeps: "suffix ('' / '' @ api) p \<Longrightarrow> choose_stored_name api p = p"
  by (auto simp: choose_stored_name_def)

text \<open>A prefixed form of the chosen name is kept.\<close>

lemma prefixed_kept:
  assumes "n = choose_stored_name api old" "\<not> has_type_prefix n"
    "has_type_prefix (pre @ n)" "strip_type_prefix (pre @ n) = n" "\<not> is_placeholder_dm_name (pre @ api)" "CHR '':'' \<in> set pre"
  shows "choose_stored_name api (pre @ n) = pre @ n"
proof -
  have g: "\<not> is_generic_chat_name (pre @ n)" by (rule marked_not_generic [of "CHR '':''"]) (use assms(6) in auto)
  then have ne: "pre @ n \<noteq> []" by auto
  consider "is_generic_chat_name api" | "n = api" | "suffix ('' / '' @ api) n"
    using chosen_cases [of api old] assms(1,2) by blast
  then show ?thesis
  proof cases
    case 1
    then show ?thesis using g by (rule generic_keeps)
  next
    case 2
    then show ?thesis using assms(3-5) ne by (simp add: choose_stored_name_def)
  next
    case 3
    then have "suffix ('' / '' @ api) (pre @ n)" by (metis suffix_appendI)
    then show ?thesis by (rule suffix_keeps)
  qed
qed

lemma stream_name_cases:
  "system_stream_name i \<noteq> [] \<Longrightarrow> \<not> is_generic_chat_name (system_stream_name i)"
  by (simp add: system_stream_name_def is_generic_chat_name_def trim_space_plain plain_ends_def split: if_splits)

lemma dm_prefixed:
  "\<not> has_type_prefix n \<Longrightarrow> n = choose_stored_name api old \<Longrightarrow> \<not> prefix ''unknown user '' api \<Longrightarrow>
   choose_stored_name api (''DM: '' @ n) = ''DM: '' @ n"
  by (rule prefixed_kept [where old = old]) (simp_all add: is_placeholder_dm_name_def placeholder_dm_prefix_def)

lemma group_prefixed:
  "\<not> has_type_prefix n \<Longrightarrow> n = choose_stored_name api old \<Longrightarrow> choose_stored_name api (''Group: '' @ n) = ''Group: '' @ n"
  by (rule prefixed_kept [where old = old]) (simp_all add: is_placeholder_dm_name_def placeholder_dm_prefix_def)

lemma meeting_prefixed:
  "\<not> has_type_prefix n \<Longrightarrow> n = choose_stored_name api old \<Longrightarrow> choose_stored_name api (''Meeting: '' @ n) = ''Meeting: '' @ n"
  by (rule prefixed_kept [where old = old]) (simp_all add: is_placeholder_dm_name_def placeholder_dm_prefix_def)

lemma placeholder_prefixed: "placeholder_dm_name u \<noteq> [] \<Longrightarrow> has_type_prefix (placeholder_dm_name u) \<and> CHR '':'' \<in> set (placeholder_dm_name u)"
  by (simp add: placeholder_dm_name_def placeholder_dm_prefix_def Let_def split: if_splits)

lemma base_name_id: "base_name n \<noteq> [] \<Longrightarrow> base_name n = n"
  by (simp add: base_name_def split: if_splits)

text \<open>The name of a chat, by its kind.\<close>

lemma chat_settles:
  assumes "s = structured_room_name one n thread oname oid m" "s \<noteq> []" "n = choose_stored_name api old" "\<not> has_type_prefix n"
    and "one \<or> sublist ''meeting_'' thread \<or> \<not> is_channel_thread thread" "one \<longrightarrow> \<not> prefix ''unknown user '' api"
  shows "choose_stored_name api s = s \<and> has_type_prefix s"
proof (cases "base_name n = []")
  case True
  then have g: "is_generic_chat_name api" using unnamed_chosen assms(3) by simp
  have "has_type_prefix s \<and> CHR '':'' \<in> set s"
    using assms(1,2,5) True placeholder_prefixed [of oid]
    by (auto simp: structured_room_name_def Let_def split: if_splits)
  then show ?thesis using generic_keeps [OF g marked_not_generic [of "CHR '':''"]] by simp
next
  case False
  note b = base_name_id [OF False]
  consider "one" "s = ''DM: '' @ n" | "s = ''Meeting: '' @ n" | "s = ''Group: '' @ n"
    using assms(1,5) b False by (auto simp: structured_room_name_def Let_def split: if_splits)
  then show ?thesis
  proof cases
    case 1
    then show ?thesis using dm_prefixed [OF assms(4,3)] assms(6) by simp
  next
    case 2
    then show ?thesis using meeting_prefixed [OF assms(4,3)] by simp
  next
    case 3
    then show ?thesis using group_prefixed [OF assms(4,3)] by simp
  qed
qed

lemma channel_settles:
  assumes "s = channel_room_name m thread (base_name n)" "s \<noteq> n" "n = choose_stored_name api old" "is_channel_thread thread"
    and "case map_of m thread of None \<Rightarrow> True | Some info \<Rightarrow> \<not> is_generic_chat_name (ci_channel info) \<and>
      (api = [] \<or> api = ''Chat'' \<or> api = ci_channel info)"
  shows "choose_stored_name api s = s \<and> channel_room_name m thread (base_name s) = s"
proof (cases "map_of m thread")
  case None
  then have b: "base_name n = []" "s = thread" using assms(1,2) base_name_id by (auto simp: channel_room_name_def split: if_splits)
  have at: "CHR ''@'' \<in> set thread" using assms(4) by (auto simp: is_channel_thread_def sublist_def)
  have "is_generic_chat_name api" using b(1) unnamed_chosen assms(3) by simp
  then show ?thesis
    using generic_keeps marked_not_generic [OF at] b(2) None at
    by (auto simp: channel_room_name_def base_name_def)
next
  case (Some info)
  then have ch: "ci_channel info \<noteq> []" "\<not> is_generic_chat_name (ci_channel info)" using assms(5) by auto
  have s: "s = (if ci_team info \<noteq> [] then ci_team info @ '' / '' @ ci_channel info else ci_channel info)"
    using Some ch(1) assms(1) by (simp add: channel_room_name_def Let_def)
  have g: "\<not> is_generic_chat_name s" using ch(2) marked_not_generic [of "CHR ''/''" s] s by auto
  have "choose_stored_name api s = s"
  proof (cases "api = ci_channel info")
    case True
    then show ?thesis using s suffix_keeps [of api s] choose_same [of api] by (auto simp: suffix_def split: if_splits)
  next
    case False
    then have "is_generic_chat_name api" using Some assms(5) by auto
    then show ?thesis using g by (rule generic_keeps)
  qed
  then show ?thesis using Some ch(1) s by (simp add: channel_room_name_def Let_def)
qed

lemma named_settles:
  assumes "settling api one thread m" and "n = choose_stored_name api old" and "p = named one thread oname oid m n"
  shows "choose_stored_name api p = p \<and> named one thread oname oid m p = p"
proof (cases "p = n")
  case True
  then show ?thesis using assms(2,3) choose_stored_twice by metis
next
  case False
  show ?thesis
  proof (cases "sublist ''teamsstream_'' thread")
    case stream: True
    then have "p = system_stream_name thread" "p \<noteq> []"
      using False assms(3) by (auto simp: named_def Let_def split: if_splits)
    then show ?thesis
      using assms(1) stream generic_keeps stream_name_cases [of thread]
      by (auto simp: settling_def named_def)
  next
    case nostream: False
    then have p: "p = structured_room_name one n thread oname oid m" "p \<noteq> []" "\<not> has_type_prefix n"
      using False assms(3) by (auto simp: named_def Let_def split: if_splits)
    show ?thesis
    proof (cases "one \<or> sublist ''meeting_'' thread \<or> \<not> is_channel_thread thread")
      case True
      then have "one \<longrightarrow> \<not> prefix ''unknown user '' api" using assms(1) nostream by (simp add: settling_def)
      from chat_settles [OF p(1,2) assms(2) p(3) True this] show ?thesis
        using nostream by (simp add: named_def Let_def)
    next
      case channel: False
      then have e: "structured_room_name one x thread oname oid m = channel_room_name m thread (base_name x)" for x
        by (simp add: structured_room_name_def Let_def)
      have "choose_stored_name api p = p \<and> channel_room_name m thread (base_name p) = p"
        using channel_settles [of p m thread n api old] p(1) False assms(1,2) channel nostream
        by (auto simp: e settling_def)
      then show ?thesis using nostream by (simp add: named_def e Let_def)
    qed
  qed
qed

text \<open>Two names that do not settle.  A channel the conversation list and Graph name differently has
  either name in turn, and a chat renamed to the end of its name after a slash keeps the old one.\<close>

lemma channel_name_flips:
  assumes "c = \<lparr>ci_channel = ''General'', ci_team = ''T'', ci_team_id = ''t'', ci_description = []\<rparr>"
  shows "named False ''19:a@thread.tacv2'' [] [] [(''19:a@thread.tacv2'', c)] ''Allgemein'' = ''T / General''"
    "choose_stored_name ''Allgemein'' ''T / General'' = ''Allgemein''"
proof -
  have "\<not> sublist ''teamsstream_'' ''19:a@thread.tacv2''" "\<not> sublist ''meeting_'' ''19:a@thread.tacv2''"
    "sublist ''@thread.tacv2'' ''19:a@thread.tacv2''" by code_simp+
  then show "named False ''19:a@thread.tacv2'' [] [] [(''19:a@thread.tacv2'', c)] ''Allgemein'' = ''T / General''"
    by (simp add: assms named_def structured_room_name_def is_channel_thread_def channel_room_name_def base_name_def
        has_type_prefix_def type_prefixes_def)
  have "\<not> suffix '' / Allgemein'' ''T / General''" by code_simp
  then show "choose_stored_name ''Allgemein'' ''T / General'' = ''Allgemein''"
    by (simp add: choose_stored_name_def is_generic_chat_name_def trim_space_plain plain_ends_def has_type_prefix_def type_prefixes_def)
qed

lemma rename_to_tail_lost: "choose_stored_name ''Alpha'' ''Group: Project / Alpha'' = ''Group: Project / Alpha''"
proof -
  have "suffix ('' / '' @ ''Alpha'') ''Group: Project / Alpha''" by code_simp
  then show ?thesis by (rule suffix_keeps)
qed

end
