(* ===== verification/Teams_Requests.thy ===== *)
theory Teams_Requests
  imports Executor Html_Content Go_Url "HOL-Library.AList"
begin

text \<open>
  What the bridge asks of Teams on the user's behalf (package \<open>internal/teams/client\<close>): sending,
  editing, deleting and forwarding messages (messages.go), reactions (reactions.go), typing
  (typing.go) and read positions (receipts.go).

  A request is its method, address, token and JSON payload; the text of the payload is not modelled.
  New messages, reactions, typing and read positions go through the executor, the others are sent once.
  What a request meets is the parameter \<open>teams_net\<close>: each attempt of the executor, or the one answer,
  the \<open>Location\<close> of the answer, and the error of an address that does not parse.
\<close>

section \<open>Requests\<close>

record teams_client =
  tc_has_http :: bool
  tc_token :: string
  tc_send_url :: string
  tc_messages_url :: string
  tc_executor :: "executor_config option"

record teams_request =
  tr_method :: string
  tr_url :: string
  tr_token :: string
  tr_payload :: "json option"

record teams_net =
  tn_attempts :: "teams_request \<Rightarrow> exec_env"
  tn_answer :: "teams_request \<Rightarrow> http_outcome"
  tn_location :: "teams_request \<Rightarrow> string"
  tn_url_err :: "string \<Rightarrow> go_error option"
  tn_retry_after :: "string \<Rightarrow> duration"

text \<open>The outcome of an operation: the status, the error, and every request that was sent.\<close>

record sent =
  sn_status :: int
  sn_err :: "go_error option"
  sn_requests :: "teams_request list"

definition refused :: "go_error \<Rightarrow> sent" where
  "refused e = \<lparr>sn_status = 0, sn_err = Some e, sn_requests = []\<rparr>"

abbreviation "missing_http \<equiv> Plain ''consumer client missing http client''"
abbreviation "missing_token \<equiv> Plain ''consumer client missing skypetoken''"

definition default_send_messages_url :: string where
  "default_send_messages_url = ''https://teams.live.com/api/chatsvc/consumer/v1/users/ME/conversations''"

definition send_base :: "teams_client \<Rightarrow> string" where
  "send_base c = trim_suffix (if tc_send_url c = [] then default_send_messages_url else tc_send_url c) ''/''"

text \<open>The first place a substring is at.\<close>

definition before_sub :: "string \<Rightarrow> string \<Rightarrow> string option" where
  "before_sub s sep = (case cut s sep of (a, _, found) \<Rightarrow> if found then Some a else None)"

definition derive_base_url :: "string \<Rightarrow> string" where
  "derive_base_url full =
     (let t = trim_suffix (trim_space full) ''/'' in
      case before_sub t ''/v1/users/ME'' of
        Some a \<Rightarrow> a
      | None \<Rightarrow> (case before_sub t ''/v1/threads'' of Some a \<Rightarrow> a | None \<Rightarrow> trim_right_char (CHR ''/'') t))"

definition make_request :: "teams_client \<Rightarrow> string \<Rightarrow> string \<Rightarrow> json option \<Rightarrow> teams_request" where
  "make_request c meth url payload = \<lparr>tr_method = meth, tr_url = url, tr_token = tc_token c, tr_payload = payload\<rparr>"

definition client_executor :: "teams_client \<Rightarrow> executor_config" where
  "client_executor c = (case tc_executor c of Some e \<Rightarrow> e | None \<Rightarrow> default_config)"

definition send_retrying ::
  "teams_net \<Rightarrow> teams_client \<Rightarrow> ((string \<Rightarrow> duration) \<Rightarrow> http_response option \<Rightarrow> go_error option) \<Rightarrow> teams_request \<Rightarrow> sent" where
  "send_retrying net c classify req =
     (case tn_url_err net (tr_url req) of
        Some e \<Rightarrow> refused e
      | None \<Rightarrow>
          (let x = executor_do (Some (client_executor c)) (tn_attempts net req) (Some (BodyAgain (\<lambda>_. None)))
                     (Some (classify (tn_retry_after net)))
           in \<lparr>sn_status = (case er_resp x of Some r \<Rightarrow> resp_status r | None \<Rightarrow> 0), sn_err = er_err x,
               sn_requests = replicate (er_sent x) req\<rparr>))"

text \<open>Sent once: \<open>bad\<close> is the error of an answer that is not 2xx.\<close>

definition ok_status :: "http_response \<Rightarrow> bool" where
  "ok_status r \<longleftrightarrow> 200 \<le> resp_status r \<and> resp_status r < 300"

definition send_once :: "teams_net \<Rightarrow> (http_response \<Rightarrow> go_error) \<Rightarrow> teams_request \<Rightarrow> sent" where
  "send_once net bad req =
     (case tn_url_err net (tr_url req) of
        Some e \<Rightarrow> refused e
      | None \<Rightarrow>
          (case tn_answer net req of
             NoAnswer e \<Rightarrow> \<lparr>sn_status = 0, sn_err = Some e, sn_requests = [req]\<rparr>
           | Answered r \<Rightarrow> \<lparr>sn_status = resp_status r, sn_err = (if ok_status r then None else Some (bad r)), sn_requests = [req]\<rparr>))"

definition failed_with :: "string \<Rightarrow> nat \<Rightarrow> http_response \<Rightarrow> go_error" where
  "failed_with what lim r = Plain (what @ '' failed with status '' @ show_int (resp_status r) @ '': '' @ take lim (resp_body r))"

text \<open>\<open>time.RFC3339Nano\<close>: the fraction without trailing zeros.\<close>

definition format_nano :: "gotime \<Rightarrow> string" where
  "format_nano t =
     (let ns = t mod second in
      format_seconds t @ (if ns = 0 then [] else ''.'' @ trim_right_char (CHR ''0'') (pad 9 ns)) @ ''Z'')"

section \<open>Sending messages\<close>

definition validate_send_args ::
  "teams_client \<Rightarrow> string \<Rightarrow> string \<Rightarrow> string \<Rightarrow> string \<Rightarrow> bool \<Rightarrow> go_error + string" where
  "validate_send_args c thread0 content from_id cmid allow_empty =
     (if \<not> tc_has_http c then Inl missing_http
      else if tc_token c = [] then Inl missing_token
      else if trim_space thread0 = [] then Inl (Plain ''missing thread id'')
      else if \<not> allow_empty \<and> trim_space content = [] then Inl (Plain ''missing message content'')
      else if trim_space from_id = [] then Inl (Plain ''missing from user id'')
      else if cmid = [] then Inl (Plain ''missing client message id'')
      else Inr (trim_space thread0))"

text \<open>The properties a context carries, and their addition to a message's own (\<open>None\<close> for nil).\<close>

type_synonym ctx_props = "(string \<times> string) list"

definition with_context_property :: "string \<Rightarrow> string \<Rightarrow> ctx_props \<Rightarrow> ctx_props" where
  "with_context_property name value old = AList.update name value old"

definition with_importance :: "string \<Rightarrow> ctx_props \<Rightarrow> ctx_props" where
  "with_importance v ctx = (if v = [] then ctx else with_context_property ''importance'' v ctx)"

definition with_subject :: "string \<Rightarrow> ctx_props \<Rightarrow> ctx_props" where
  "with_subject v ctx = (if v = [] then ctx else with_context_property ''subject'' v ctx)"

definition with_context_properties :: "ctx_props \<Rightarrow> (string \<times> json) list option \<Rightarrow> (string \<times> json) list option" where
  "with_context_properties extra props =
     (if extra = [] then props
      else Some (fold (\<lambda>(k, v). AList.update k (JStr v)) extra (case props of None \<Rightarrow> [] | Some p \<Rightarrow> p)))"

definition rich_text_payload ::
  "ctx_props \<Rightarrow> gotime \<Rightarrow> string \<Rightarrow> string \<Rightarrow> string \<Rightarrow> string \<Rightarrow> (string \<times> json) list option \<Rightarrow> (string \<times> json) list" where
  "rich_text_payload ctx now thread content from_id cmid props =
     (let at = format_nano now;
          base = [(''type'', JStr ''Message''), (''conversationid'', JStr thread), (''content'', JStr content),
            (''messagetype'', JStr ''RichText/Html''), (''contenttype'', JStr ''Text''), (''clientmessageid'', JStr cmid),
            (''composetime'', JStr at), (''originalarrivaltime'', JStr at), (''from'', JStr from_id), (''fromUserId'', JStr from_id)]
      in case with_context_properties ctx props of None \<Rightarrow> base | Some p \<Rightarrow> base @ [(''properties'', JObj p)])"

definition post_rich_text_message ::
  "teams_net \<Rightarrow> teams_client \<Rightarrow> ctx_props \<Rightarrow> gotime \<Rightarrow> string \<Rightarrow> string \<Rightarrow> string \<Rightarrow> string \<Rightarrow> (string \<times> json) list option \<Rightarrow> sent" where
  "post_rich_text_message net c ctx now thread content from_id cmid props =
     send_retrying net c classify_teams_send
       (make_request c ''POST'' (send_base c @ ''/'' @ path_escape thread @ ''/messages'')
         (Some (JObj (rich_text_payload ctx now thread content from_id cmid props))))"

definition send_rich_text_with_id ::
  "teams_net \<Rightarrow> teams_client \<Rightarrow> ctx_props \<Rightarrow> gotime \<Rightarrow> string \<Rightarrow> string \<Rightarrow> string \<Rightarrow> string \<Rightarrow> string \<Rightarrow> bool \<Rightarrow> sent" where
  "send_rich_text_with_id net c ctx now thread0 content files from_id cmid allow_empty =
     (case validate_send_args c thread0 content from_id cmid allow_empty of
        Inl e \<Rightarrow> refused e
      | Inr thread \<Rightarrow> post_rich_text_message net c ctx now thread content from_id cmid
          (if trim_space files \<noteq> [] then Some [(''files'', JStr files)] else None))"

definition send_html_with_id ::
  "teams_net \<Rightarrow> teams_client \<Rightarrow> ctx_props \<Rightarrow> gotime \<Rightarrow> string \<Rightarrow> string \<Rightarrow> string \<Rightarrow> string \<Rightarrow> sent" where
  "send_html_with_id net c ctx now thread content from_id cmid =
     send_rich_text_with_id net c ctx now thread content [] from_id cmid False"

definition send_attachment_with_id ::
  "teams_net \<Rightarrow> teams_client \<Rightarrow> ctx_props \<Rightarrow> gotime \<Rightarrow> string \<Rightarrow> string \<Rightarrow> string \<Rightarrow> string \<Rightarrow> string \<Rightarrow> sent" where
  "send_attachment_with_id net c ctx now thread content files from_id cmid =
     (if trim_space files = [] then refused (Plain ''missing files property'')
      else send_rich_text_with_id net c ctx now thread content files from_id cmid True)"

definition send_rich_text_with_mentions ::
  "teams_net \<Rightarrow> teams_client \<Rightarrow> ctx_props \<Rightarrow> gotime \<Rightarrow> string \<Rightarrow> string \<Rightarrow> string \<Rightarrow> string \<Rightarrow> json list \<Rightarrow> sent" where
  "send_rich_text_with_mentions net c ctx now thread0 content from_id cmid mentions =
     (case validate_send_args c thread0 content from_id cmid False of
        Inl e \<Rightarrow> refused e
      | Inr thread \<Rightarrow> post_rich_text_message net c ctx now thread content from_id cmid (Some [(''mentions'', JArr mentions)]))"

definition send_reply ::
  "teams_net \<Rightarrow> teams_client \<Rightarrow> ctx_props \<Rightarrow> gotime \<Rightarrow> string \<Rightarrow> string \<Rightarrow> string \<Rightarrow> string \<Rightarrow> string \<Rightarrow> json list \<Rightarrow> sent" where
  "send_reply net c ctx now thread0 content from_id cmid reply0 mentions =
     (case validate_send_args c thread0 content from_id cmid False of
        Inl e \<Rightarrow> refused e
      | Inr thread \<Rightarrow>
          (let reply = trim_space reply0 in
           if reply = [] then refused (Plain ''missing reply-to message id'')
           else post_rich_text_message net c ctx now thread content from_id cmid
             (Some ((''replyChainMessageId'', JStr reply) # (if mentions \<noteq> [] then [(''mentions'', JArr mentions)] else [])))))"

definition send_formatted_message ::
  "teams_net \<Rightarrow> teams_client \<Rightarrow> ctx_props \<Rightarrow> gotime \<Rightarrow> string \<Rightarrow> string \<Rightarrow> string \<Rightarrow> string \<Rightarrow> string \<Rightarrow> json list \<Rightarrow> sent" where
  "send_formatted_message net c ctx now thread content from_id cmid reply mentions =
     (if trim_space reply \<noteq> [] then send_reply net c ctx now thread content from_id cmid reply mentions
      else if mentions \<noteq> [] then send_rich_text_with_mentions net c ctx now thread content from_id cmid mentions
      else send_html_with_id net c ctx now thread content from_id cmid)"

section \<open>Content\<close>

definition format_html_content :: "string \<Rightarrow> string" where
  "format_html_content text_in =
     ''<p>'' @ replace_all [CHR 0x0A] ''<br>''
       (html_escape (replace_all [CHR 0x0D] [CHR 0x0A] (replace_all [CHR 0x0D, CHR 0x0A] [CHR 0x0A] text_in))) @ ''</p>''"

definition attr_value :: "string \<Rightarrow> string" where
  "attr_value v = [CHR 0x22] @ v @ [CHR 0x22]"

definition format_gif_content :: "string \<Rightarrow> string \<Rightarrow> string" where
  "format_gif_content url0 title =
     (let url = trim_space url0;
          label = (if trim_space title = [] then ''GIF'' else trim_space title) @ '' (GIF Image)'';
          giphy = attr_value ''http://schema.skype.com/Giphy''
      in ''<p>&nbsp;</p><readonly title='' @ attr_value (html_escape label) @ '' itemtype='' @ giphy @
         '' contenteditable='' @ attr_value ''false'' @ '' aria-label='' @ attr_value (html_escape label) @ ''><img style='' @
         attr_value ''height:auto;margin-top:4px;max-width:100%;'' @ '' alt='' @ attr_value (html_escape label) @
         '' height='' @ attr_value ''250'' @ '' width='' @ attr_value ''350'' @ '' src='' @ attr_value (html_escape url) @
         '' itemtype='' @ giphy @ ''></readonly><p>&nbsp;</p>'')"

definition send_message_with_id where
  "send_message_with_id net c ctx now thread body from_id cmid =
     send_html_with_id net c ctx now thread (format_html_content body) from_id cmid"

definition send_message_with_mentions where
  "send_message_with_mentions net c ctx now thread body from_id cmid mentions =
     send_rich_text_with_mentions net c ctx now thread (format_html_content body) from_id cmid mentions"

definition send_reply_with_id where
  "send_reply_with_id net c ctx now thread body from_id cmid reply =
     send_reply net c ctx now thread (format_html_content body) from_id cmid reply []"

definition send_reply_with_mentions where
  "send_reply_with_mentions net c ctx now thread body from_id cmid reply mentions =
     send_reply net c ctx now thread (format_html_content body) from_id cmid reply mentions"

definition send_gif_with_id where
  "send_gif_with_id net c ctx now thread url title from_id cmid =
     send_html_with_id net c ctx now thread (format_gif_content url title) from_id cmid"

section \<open>Changing messages\<close>

definition message_url :: "teams_client \<Rightarrow> string \<Rightarrow> string \<Rightarrow> string" where
  "message_url c thread message = send_base c @ ''/'' @ path_escape thread @ ''/messages/'' @ path_escape message"

definition edit_message ::
  "teams_net \<Rightarrow> teams_client \<Rightarrow> gotime \<Rightarrow> string \<Rightarrow> string \<Rightarrow> string \<Rightarrow> string \<Rightarrow> json list \<Rightarrow> sent" where
  "edit_message net c now thread0 message0 content from_id mentions =
     (let thread = trim_space thread0; message = trim_space message0 in
      if \<not> tc_has_http c then refused missing_http
      else if tc_token c = [] then refused missing_token
      else if thread = [] \<or> message = [] then refused (Plain ''missing thread or message id'')
      else send_once net (failed_with ''edit message'' 512) (make_request c ''PUT'' (message_url c thread message)
        (Some (JObj ([(''type'', JStr ''Message''), (''conversationid'', JStr thread), (''content'', JStr content),
          (''messagetype'', JStr ''RichText/Html''), (''contenttype'', JStr ''Text''), (''composetime'', JStr (format_nano now)),
          (''skypeeditedid'', JStr message), (''from'', JStr from_id), (''fromUserId'', JStr from_id)] @
          (if mentions \<noteq> [] then [(''properties'', JObj [(''mentions'', JArr mentions)])] else []))))))"

definition delete_message :: "teams_net \<Rightarrow> teams_client \<Rightarrow> gotime \<Rightarrow> string \<Rightarrow> string \<Rightarrow> string \<Rightarrow> sent" where
  "delete_message net c now thread0 message0 from_id =
     (let thread = trim_space thread0; message = trim_space message0 in
      if \<not> tc_has_http c then refused missing_http
      else if tc_token c = [] then refused missing_token
      else if thread = [] \<or> message = [] then refused (Plain ''missing thread or message id'')
      else send_once net (failed_with ''delete message'' 512) (make_request c ''DELETE'' (message_url c thread message)
        (Some (JObj [(''type'', JStr ''Message''), (''conversationid'', JStr thread), (''content'', JStr []),
          (''messagetype'', JStr ''RichText/Html''), (''contenttype'', JStr ''Text''), (''skypeeditedid'', JStr message),
          (''from'', JStr from_id), (''fromUserId'', JStr from_id),
          (''properties'', JObj [(''deletetime'', JStr (format_nano now))])]))))"

definition forward_messages :: "teams_net \<Rightarrow> teams_client \<Rightarrow> string \<Rightarrow> string list \<Rightarrow> string \<Rightarrow> sent" where
  "forward_messages net c source ids target =
     (if \<not> tc_has_http c then refused missing_http
      else if tc_token c = [] then refused missing_token
      else send_once net
        (\<lambda>r. Plain (''forward failed with status '' @ show_int (resp_status r) @ '': '' @ trim_space (take max_error_body_bytes (resp_body r))))
        (make_request c ''POST'' (send_base c @ ''/'' @ path_escape source @ ''/messages/forward'')
          (Some (JObj [(''targetThreadIds'', JArr [JStr target]), (''messageIds'', JArr (map JStr ids)),
            (''templateId'', JStr ''basic_forward_message_template'')]))))"

section \<open>Reactions, typing, read positions\<close>

definition send_reaction :: "teams_net \<Rightarrow> teams_client \<Rightarrow> string \<Rightarrow> string \<Rightarrow> string \<Rightarrow> (string \<times> json) list \<Rightarrow> sent" where
  "send_reaction net c meth thread message emotion =
     send_retrying net c classify_teams_reaction
       (make_request c meth (message_url c thread message @ ''/properties?name=emotions'') (Some (JObj [(''emotions'', JObj emotion)])))"

definition reaction_args :: "teams_client \<Rightarrow> string \<Rightarrow> string \<Rightarrow> string \<Rightarrow> go_error option" where
  "reaction_args c thread0 message0 key =
     (if \<not> tc_has_http c then Some missing_http
      else if tc_token c = [] then Some missing_token
      else if trim_space thread0 = [] then Some (Plain ''missing thread id'')
      else if trim_space message0 = [] then Some (Plain ''missing teams message id'')
      else if trim_space key = [] then Some (Plain ''missing emotion key'')
      else None)"

definition put_reaction :: "teams_net \<Rightarrow> teams_client \<Rightarrow> string \<Rightarrow> string \<Rightarrow> string \<Rightarrow> int \<Rightarrow> sent" where
  "put_reaction net c thread message key at =
     (case reaction_args c thread message key of
        Some e \<Rightarrow> refused e
      | None \<Rightarrow> if at = 0 then refused (Plain ''missing applied timestamp'')
                else send_reaction net c ''PUT'' (trim_space thread) (trim_space message) [(''key'', JStr key), (''value'', JNum (show_int at))])"

definition delete_reaction :: "teams_net \<Rightarrow> teams_client \<Rightarrow> string \<Rightarrow> string \<Rightarrow> string \<Rightarrow> sent" where
  "delete_reaction net c thread message key =
     (case reaction_args c thread message key of
        Some e \<Rightarrow> refused e
      | None \<Rightarrow> send_reaction net c ''DELETE'' (trim_space thread) (trim_space message) [(''key'', JStr key)])"

definition send_typing_indicator :: "teams_net \<Rightarrow> teams_client \<Rightarrow> gotime \<Rightarrow> string \<Rightarrow> string \<Rightarrow> string \<Rightarrow> sent" where
  "send_typing_indicator net c now cmid thread0 from0 =
     (let thread = trim_space thread0; from_id = trim_space from0; at = format_nano now in
      if \<not> tc_has_http c then refused missing_http
      else if tc_token c = [] then refused missing_token
      else if thread = [] then refused (Plain ''missing thread id'')
      else if from_id = [] then refused (Plain ''missing from user id'')
      else send_retrying net c classify_teams_typing
        (make_request c ''POST'' (send_base c @ ''/'' @ path_escape thread @ ''/messages'')
          (Some (JObj [(''type'', JStr ''Message''), (''conversationid'', JStr thread), (''messagetype'', JStr ''Control/Typing''),
            (''contenttype'', JStr ''Text''), (''clientmessageid'', JStr cmid), (''composetime'', JStr at),
            (''originalarrivaltime'', JStr at), (''from'', JStr from_id), (''fromUserId'', JStr from_id)]))))"

definition set_consumption_horizon :: "teams_net \<Rightarrow> teams_client \<Rightarrow> string \<Rightarrow> string \<Rightarrow> sent" where
  "set_consumption_horizon net c thread0 horizon0 =
     (let thread = trim_space thread0; horizon = trim_space horizon0 in
      if \<not> tc_has_http c then refused missing_http
      else if tc_token c = [] then refused missing_token
      else if thread = [] then refused (Plain ''missing thread id'')
      else if horizon = [] then refused (Plain ''missing consumption horizon'')
      else send_retrying net c classify_teams_receipt
        (make_request c ''PUT'' (send_base c @ ''/'' @ path_escape thread @ ''/properties?name=consumptionhorizon'')
          (Some (JObj [(''consumptionhorizon'', JStr horizon)]))))"

section \<open>What a send sends\<close>

definition payload_field :: "string \<Rightarrow> teams_request \<Rightarrow> json option" where
  "payload_field k req = (case tr_payload req of Some (JObj kvs) \<Rightarrow> map_of kvs k | _ \<Rightarrow> None)"

definition payload_property :: "string \<Rightarrow> teams_request \<Rightarrow> json option" where
  "payload_property k req = (case payload_field ''properties'' req of Some (JObj kvs) \<Rightarrow> map_of kvs k | _ \<Rightarrow> None)"

text \<open>The context the connector sends with: an importance and a subject, each possibly empty.\<close>

definition message_context :: "string \<Rightarrow> string \<Rightarrow> ctx_props" where
  "message_context importance subject = with_subject subject (with_importance importance [])"

definition given :: "string \<Rightarrow> json option" where
  "given v = (if v = [] then None else Some (JStr v))"

lemma message_context_map_of: "map_of (message_context i s) = (\<lambda>k. if k = ''importance'' \<and> i \<noteq> [] then Some i
    else if k = ''subject'' \<and> s \<noteq> [] then Some s else None)"
  by (auto simp: message_context_def with_importance_def with_subject_def with_context_property_def fun_eq_iff)

lemma map_of_fold_update:
  "distinct (map fst xs) \<Longrightarrow> map_of (fold (\<lambda>(k, v). AList.update k (f v)) xs cur) k =
     (case map_of xs k of Some v \<Rightarrow> Some (f v) | None \<Rightarrow> map_of cur k)"
  by (induction xs arbitrary: cur) (auto simp: update_conv' split: option.splits dest: map_of_SomeD intro: rev_image_eqI)

text \<open>The properties of a message with this context.\<close>

lemma context_properties:
  "(case with_context_properties (message_context i s) props of None \<Rightarrow> None | Some p \<Rightarrow> map_of p k) =
     (if k = ''importance'' \<and> i \<noteq> [] then Some (JStr i)
      else if k = ''subject'' \<and> s \<noteq> [] then Some (JStr s)
      else case props of None \<Rightarrow> None | Some p \<Rightarrow> map_of p k)"
proof -
  have "distinct (map fst (message_context i s))"
    by (simp add: message_context_def with_importance_def with_subject_def with_context_property_def)
  then have "(case with_context_properties (message_context i s) props of None \<Rightarrow> None | Some p \<Rightarrow> map_of p k) =
      (case map_of (message_context i s) k of Some v \<Rightarrow> Some (JStr v) | None \<Rightarrow> case props of None \<Rightarrow> None | Some p \<Rightarrow> map_of p k)"
    by (simp add: with_context_properties_def map_of_fold_update split: option.split)
  then show ?thesis by (simp add: message_context_map_of)
qed

text \<open>A request through the executor: copies of one request, at most one more than the retries.\<close>

lemma send_retrying_ok:
  assumes "sn_requests (send_retrying net c cl req) \<noteq> []"
  shows "\<exists>n. n \<le> eff_retries (client_executor c) \<and> sn_requests (send_retrying net c cl req) = replicate (Suc n) req"
proof -
  let ?x = "executor_do (Some (client_executor c)) (tn_attempts net req) (Some (BodyAgain (\<lambda>_. None))) (Some (cl (tn_retry_after net)))"
  from assms have "sn_requests (send_retrying net c cl req) = replicate (er_sent ?x) req" "er_sent ?x \<noteq> 0"
    by (auto simp: send_retrying_def refused_def Let_def split: option.splits)
  moreover have "er_sent ?x \<le> Suc (eff_retries (client_executor c))"
    using exec_loop_sent [of 0] by (simp add: executor_do_def)
  ultimately show ?thesis by (metis Suc_le_mono not0_implies_Suc)
qed

lemma send_retrying_accepted:
  assumes "sn_err (send_retrying net c (classify_response t lim) req) = None"
  shows "200 \<le> sn_status (send_retrying net c (classify_response t lim) req) \<and> sn_status (send_retrying net c (classify_response t lim) req) < 300"
proof -
  let ?x = "executor_do (Some (client_executor c)) (tn_attempts net req) (Some (BodyAgain (\<lambda>_. None))) (Some (classify_response t lim (tn_retry_after net)))"
  from assms have "tn_url_err net (tr_url req) = None" "er_err ?x = None"
    by (auto simp: send_retrying_def refused_def Let_def split: option.splits)
  with exec_loop_accepted [of 0 "client_executor c" "tn_attempts net req" "BodyAgain (\<lambda>_. None)" "classify_response t lim (tn_retry_after net)"]
  obtain r where "er_resp ?x = Some r" "classify_response t lim (tn_retry_after net) (Some r) = None"
    by (auto simp: executor_do_def)
  with \<open>tn_url_err net (tr_url req) = None\<close> show ?thesis
    by (auto simp: send_retrying_def Let_def classify_response_None)
qed


lemma rich_text_fields:
  assumes "tr_payload req = Some (JObj (rich_text_payload ctx now thread content from_id cmid props))"
  shows "payload_field ''conversationid'' req = Some (JStr thread)" "payload_field ''content'' req = Some (JStr content)"
    "payload_field ''messagetype'' req = Some (JStr ''RichText/Html'')"
    "payload_field ''clientmessageid'' req = Some (JStr cmid)" "payload_field ''from'' req = Some (JStr from_id)"
    "payload_property k req = (case with_context_properties ctx props of None \<Rightarrow> None | Some p \<Rightarrow> map_of p k)"
  using assms by (auto simp: payload_field_def payload_property_def rich_text_payload_def Let_def split: option.split)

text \<open>The properties a send asks for itself.\<close>

definition own_properties :: "string \<Rightarrow> json list \<Rightarrow> (string \<times> json) list option" where
  "own_properties reply mentions =
     (if trim_space reply \<noteq> []
      then Some ((''replyChainMessageId'', JStr (trim_space reply)) # (if mentions \<noteq> [] then [(''mentions'', JArr mentions)] else []))
      else if mentions \<noteq> [] then Some [(''mentions'', JArr mentions)] else None)"

lemma send_formatted_message_post:
  "send_formatted_message net c ctx now thread0 content from_id cmid reply mentions =
     (case validate_send_args c thread0 content from_id cmid False of
        Inl e \<Rightarrow> refused e
      | Inr thread \<Rightarrow> post_rich_text_message net c ctx now thread content from_id cmid (own_properties reply mentions))"
  by (auto simp: send_formatted_message_def send_reply_def send_rich_text_with_mentions_def send_html_with_id_def
      send_rich_text_with_id_def own_properties_def Let_def split: sum.split)

lemma validate_send_args_Inr:
  "validate_send_args c thread0 content from_id cmid False = Inr thread \<longleftrightarrow>
     thread = trim_space thread0 \<and> tc_has_http c \<and> tc_token c \<noteq> [] \<and> thread \<noteq> [] \<and> trim_space content \<noteq> [] \<and>
     trim_space from_id \<noteq> [] \<and> cmid \<noteq> []"
  by (auto simp: validate_send_args_def)

section \<open>Properties\<close>

text \<open>The properties written, as a list without repeats that is never empty when it is there.\<close>

lemma distinct_fold_update: "distinct (map fst cur) \<Longrightarrow> distinct (map fst (fold (\<lambda>(k, v). AList.update k (f v)) xs cur))"
  by (induction xs arbitrary: cur) (auto simp: distinct_update)

lemma fold_update_nonempty: "cur \<noteq> [] \<or> xs \<noteq> [] \<Longrightarrow> fold (\<lambda>(k, v). AList.update k (f v)) xs cur \<noteq> []"
proof (induction xs arbitrary: cur)
  case (Cons x xs)
  have "AList.update (fst x) (f (snd x)) cur \<noteq> []" by (cases cur) auto
  then show ?case using Cons.IH by (simp add: split_beta)
qed simp

lemma written_properties:
  assumes "with_context_properties (message_context i s) (own_properties reply mentions) = Some p"
  shows "p \<noteq> [] \<and> distinct (map fst p)"
  using assms
  by (auto simp: with_context_properties_def own_properties_def distinct_fold_update fold_update_nonempty split: if_splits)

lemma rich_text_written:
  "\<exists>ps. rich_text_payload (message_context importance subject) now t content from_id cmid (own_properties reply mentions) =
      [(''type'', JStr ''Message''), (''conversationid'', JStr t), (''content'', JStr content),
       (''messagetype'', JStr ''RichText/Html''), (''contenttype'', JStr ''Text''), (''clientmessageid'', JStr cmid),
       (''composetime'', JStr (format_nano now)), (''originalarrivaltime'', JStr (format_nano now)),
       (''from'', JStr from_id), (''fromUserId'', JStr from_id)] @ (if ps = [] then [] else [(''properties'', JObj ps)]) \<and>
     distinct (map fst ps) \<and>
     (\<forall>k. map_of ps k =
       (if k = ''importance'' then given importance else if k = ''subject'' then given subject
        else if k = ''replyChainMessageId'' then given (trim_space reply)
        else if k = ''mentions'' then (if mentions = [] then None else Some (JArr mentions)) else None))"
proof -
  let ?wp = "with_context_properties (message_context importance subject) (own_properties reply mentions)"
  define ps where "ps = (case ?wp of None \<Rightarrow> [] | Some p \<Rightarrow> p)"
  have "map_of ps k = (case ?wp of None \<Rightarrow> None | Some p \<Rightarrow> map_of p k)" for k by (simp add: ps_def split: option.split)
  then have m: "map_of ps k =
       (if k = ''importance'' then given importance else if k = ''subject'' then given subject
        else if k = ''replyChainMessageId'' then given (trim_space reply)
        else if k = ''mentions'' then (if mentions = [] then None else Some (JArr mentions)) else None)" for k
    unfolding context_properties by (auto simp: own_properties_def given_def)
  have "distinct (map fst ps)" "?wp = (if ps = [] then None else Some ps)"
    using written_properties [of importance subject reply mentions] by (auto simp: ps_def split: option.split)
  then show ?thesis using m by (intro exI [of _ ps]) (simp add: rich_text_payload_def Let_def)
qed

text \<open>C20: A send says what it was asked to, and nothing else.  Whenever \<open>SendFormattedMessage\<close> makes a
  request, every argument it needs was there, and all its requests are copies of one POST to the messages
  of the trimmed thread, at most one more than the retries, under one client message ID.  The POST's payload is
  ten fixed fields with the content unchanged, and the properties, which are exactly the importance and the
  subject of its context, the message replied to and the mentions, each only when it was given and no
  other, whichever way of sending it took.  It returns without an error only with a 2xx status.\<close>

theorem formatted_send:
  fixes net c now thread content from_id cmid reply mentions importance subject
  defines "x \<equiv> send_formatted_message net c (message_context importance subject) now thread content from_id cmid reply mentions"
  assumes "sn_requests x \<noteq> []"
  shows "tc_token c \<noteq> [] \<and> trim_space thread \<noteq> [] \<and> trim_space content \<noteq> [] \<and> trim_space from_id \<noteq> [] \<and> cmid \<noteq> [] \<and>
    (\<exists>req n ps. n \<le> eff_retries (client_executor c) \<and> sn_requests x = replicate (Suc n) req \<and>
      tr_method req = ''POST'' \<and> tr_url req = send_base c @ ''/'' @ path_escape (trim_space thread) @ ''/messages'' \<and>
      tr_token req = tc_token c \<and>
      tr_payload req = Some (JObj (
        [(''type'', JStr ''Message''), (''conversationid'', JStr (trim_space thread)), (''content'', JStr content),
         (''messagetype'', JStr ''RichText/Html''), (''contenttype'', JStr ''Text''), (''clientmessageid'', JStr cmid),
         (''composetime'', JStr (format_nano now)), (''originalarrivaltime'', JStr (format_nano now)),
         (''from'', JStr from_id), (''fromUserId'', JStr from_id)] @ (if ps = [] then [] else [(''properties'', JObj ps)]))) \<and>
      distinct (map fst ps) \<and>
      (\<forall>k. map_of ps k =
        (if k = ''importance'' then given importance else if k = ''subject'' then given subject
         else if k = ''replyChainMessageId'' then given (trim_space reply)
         else if k = ''mentions'' then (if mentions = [] then None else Some (JArr mentions)) else None))) \<and>
    (sn_err x = None \<longrightarrow> 200 \<le> sn_status x \<and> sn_status x < 300)"
proof -
  let ?ctx = "message_context importance subject" and ?props = "own_properties reply mentions"
  from assms(2) obtain t where v: "validate_send_args c thread content from_id cmid False = Inr t"
    by (auto simp: x_def send_formatted_message_post refused_def split: sum.splits)
  let ?req = "make_request c ''POST'' (send_base c @ ''/'' @ path_escape t @ ''/messages'')
    (Some (JObj (rich_text_payload ?ctx now t content from_id cmid ?props)))"
  have x: "x = send_retrying net c classify_teams_send ?req"
    by (simp add: x_def send_formatted_message_post v post_rich_text_message_def)
  have args: "t = trim_space thread" "tc_token c \<noteq> []" "t \<noteq> []" "trim_space content \<noteq> []" "trim_space from_id \<noteq> []" "cmid \<noteq> []"
    using v by (auto simp: validate_send_args_Inr)
  obtain n where n: "n \<le> eff_retries (client_executor c)" "sn_requests x = replicate (Suc n) ?req"
    using send_retrying_ok [OF assms(2) [unfolded x]] by (auto simp: x)
  note written = rich_text_written [of importance subject now t content from_id cmid reply mentions]
  have req: "tr_method ?req = ''POST''" "tr_url ?req = send_base c @ ''/'' @ path_escape t @ ''/messages''" "tr_token ?req = tc_token c"
    "tr_payload ?req = Some (JObj (rich_text_payload ?ctx now t content from_id cmid ?props))"
    by (simp_all add: make_request_def)
  have "sn_err x = None \<longrightarrow> 200 \<le> sn_status x \<and> sn_status x < 300"
    using send_retrying_accepted by (auto simp: x classify_teams_send_def)
  then show ?thesis
    using n args written req unfolding args(1) [symmetric] by (elim exE conjE) (intro conjI exI [of _ ?req] exI [of _ n] exI, assumption?, simp_all)
qed

definition send_client :: teams_client where
  "send_client = \<lparr>tc_has_http = True, tc_token = ''tok'', tc_send_url = [], tc_messages_url = [], tc_executor = None\<rparr>"

definition send_net :: teams_net where
  "send_net = \<lparr>tn_attempts = (\<lambda>_. busy_once\<lparr>env_send := \<lambda>_. Answered \<lparr>resp_status = 201, resp_retry_after = [], resp_body = []\<rparr>\<rparr>), tn_answer = (\<lambda>_. NoAnswer Canceled), tn_location = (\<lambda>_. []),
     tn_url_err = (\<lambda>_. None), tn_retry_after = (\<lambda>_. 0)\<rparr>"

theorem formatted_send_witness:
  "\<exists>req n ps. sn_requests (send_formatted_message send_net send_client (message_context ''high'' []) 1 ''19:a@thread.v2'' ''<p>hi</p>'' ''8:me'' ''77'' [] []) =
      replicate (Suc n) req \<and> payload_field ''content'' req = Some (JStr ''<p>hi</p>'') \<and>
      payload_field ''properties'' req = Some (JObj ps) \<and> map_of ps = [''importance'' \<mapsto> JStr ''high'']"
proof -
  have trims: "trim_space ''19:a@thread.v2'' = ''19:a@thread.v2''" "trim_space ''<p>hi</p>'' = ''<p>hi</p>''" "trim_space ''8:me'' = ''8:me''"
    by (simp_all add: trim_space_plain plain_ends_def)
  let ?x = "send_formatted_message send_net send_client (message_context ''high'' []) 1 ''19:a@thread.v2'' ''<p>hi</p>'' ''8:me'' ''77'' [] []"
  have "er_sent (exec_loop c (tn_attempts send_net req) (BodyAgain (\<lambda>_. None)) (classify_teams_send ra) 0) \<noteq> 0" for c req ra
    by (subst exec_loop.simps) (simp add: send_net_def busy_once_def request_for_attempt_def classify_teams_send_def classify_response_def)
  moreover have "tn_url_err send_net u = None" for u by (simp add: send_net_def)
  ultimately have "sn_requests ?x \<noteq> []"
    by (simp add: send_formatted_message_post validate_send_args_def send_client_def trims post_rich_text_message_def send_retrying_def
        Let_def executor_do_def)
  note sent = formatted_send [OF this, unfolded trims]
  obtain req n ps where req: "sn_requests ?x = replicate (Suc n) req"
    "tr_payload req = Some (JObj (
        [(''type'', JStr ''Message''), (''conversationid'', JStr ''19:a@thread.v2''), (''content'', JStr ''<p>hi</p>''),
         (''messagetype'', JStr ''RichText/Html''), (''contenttype'', JStr ''Text''), (''clientmessageid'', JStr ''77''),
         (''composetime'', JStr (format_nano 1)), (''originalarrivaltime'', JStr (format_nano 1)),
         (''from'', JStr ''8:me''), (''fromUserId'', JStr ''8:me'')] @ (if ps = [] then [] else [(''properties'', JObj ps)])))"
    and k: "\<forall>k. map_of ps k =
        (if k = ''importance'' then given ''high'' else if k = ''subject'' then given []
         else if k = ''replyChainMessageId'' then given (trim_space []) else if k = ''mentions'' then None else None)"
    using sent by auto
  have m: "map_of ps = [''importance'' \<mapsto> JStr ''high'']"
    using k by (auto simp: fun_eq_iff given_def)
  have "map_of ps ''importance'' \<noteq> None" unfolding m by simp
  then have "ps \<noteq> []" by auto
  then show ?thesis using req m by (intro exI [of _ req] exI [of _ n] exI [of _ ps]) (simp add: payload_field_def)
qed

end
