(* ===== verification/Chat_State.thy ===== *)
theory Chat_State
  imports Teams_Requests Conversations List_Messages
begin

text \<open>
  The chats themselves (package \<open>internal/teams/client\<close>, conversations.go): the list of
  conversations, thread properties and members, new chats; and the user's own state of a chat
  (chat_state.go): pins, which are one property written whole, mutes and unread marks.

  The JSON text is behind the parameters \<open>de_json\<close> and \<open>de_json_text\<close>.  A decoder's error
  is \<open>json_error\<close>.
\<close>

section \<open>Reading conversations and threads\<close>

definition default_conversations_url :: string where
  "default_conversations_url = ''https://teams.live.com/api/chatsvc/consumer/v1/users/ME/conversations''"

definition conversations_url :: "string \<Rightarrow> int \<Rightarrow> string" where
  "conversations_url base page_size =
     (let url = (if base = [] then default_conversations_url else base) in
      if 0 < page_size
      then url @ (if CHR ''?'' \<in> set url then ''&'' else ''?'') @ ''pageSize='' @ show_int page_size
      else url)"

text \<open>The answer of the list: a rate limit is the only error that is retryable.\<close>

definition list_conversations ::
  "(string \<Rightarrow> duration) \<Rightarrow> (string \<Rightarrow> go_error + 'a list) \<Rightarrow> http_outcome \<Rightarrow> go_error + 'a list" where
  "list_conversations retry_after decode outcome =
     (case outcome of
        NoAnswer e \<Rightarrow> Inl e
      | Answered r \<Rightarrow>
          if resp_status r < 200 \<or> 300 \<le> resp_status r
          then Inl (if resp_status r = 429 then Retryable (resp_status r) (retry_after (resp_retry_after r)) None
                    else ApiError ''conversations request failed'' (resp_status r) (take max_error_body_bytes (resp_body r)))
          else decode (resp_body r))"

definition thread_args :: "teams_client \<Rightarrow> string \<Rightarrow> go_error option" where
  "thread_args c thread0 =
     (if \<not> tc_has_http c then Some missing_http
      else if tc_token c = [] then Some missing_token
      else if trim_space thread0 = [] then Some (Plain ''missing thread id'')
      else None)"

definition messages_base :: "teams_client \<Rightarrow> string" where
  "messages_base c = derive_base_url (if tc_messages_url c = [] then default_messages_url else tc_messages_url c)"

definition send_threads_base :: "teams_client \<Rightarrow> string" where
  "send_threads_base c = derive_base_url (if tc_send_url c = [] then default_send_messages_url else tc_send_url c)"

text \<open>The JSON of a thread, by \<open>fetchJSON\<close>; with the request it makes.\<close>

definition fetch_thread ::
  "teams_net \<Rightarrow> decode_env \<Rightarrow> teams_client \<Rightarrow> string \<Rightarrow> (go_error + json) \<times> teams_request list" where
  "fetch_thread net env c thread0 =
     (case thread_args c thread0 of
        Some e \<Rightarrow> (Inl e, [])
      | None \<Rightarrow>
          (let req = make_request c ''GET''
             (messages_base c @ ''/v1/threads/'' @ path_escape (trim_space thread0) @ ''?view=msnp24Equivalent'') None in
           case tn_url_err net (tr_url req) of
             Some e \<Rightarrow> (Inl e, [])
           | None \<Rightarrow> (fetch_json (tn_retry_after net)
               (\<lambda>body. case de_json env body of None \<Rightarrow> Inl json_error | Some j \<Rightarrow> Inr j) (tn_answer net req), [req])))"

text \<open>A struct's field that is a \<open>map[string]json.RawMessage\<close>: objects are merged, null empties.\<close>

fun into_raw_map :: "(string \<times> json) list \<Rightarrow> json list \<Rightarrow> (string \<times> json) list option" where
  "into_raw_map cur [] = Some cur"
| "into_raw_map cur (JObj kvs # vs) = into_raw_map (fold (\<lambda>(k, v). AList.update k v) kvs cur) vs"
| "into_raw_map cur (JNull # vs) = into_raw_map [] vs"
| "into_raw_map cur (v # vs) = None"

definition property_texts :: "decode_env \<Rightarrow> (string \<times> json) list \<Rightarrow> (string \<times> string) list" where
  "property_texts env props =
     map (\<lambda>(k, j). (k, case j of JStr s \<Rightarrow> s | _ \<Rightarrow> de_json_text env j)) (filter (\<lambda>(k, j). j \<noteq> JNull) props)"

definition get_thread_properties ::
  "teams_net \<Rightarrow> decode_env \<Rightarrow> teams_client \<Rightarrow> string \<Rightarrow> go_error + (string \<times> string) list" where
  "get_thread_properties net env c thread =
     (case fst (fetch_thread net env c thread) of
        Inl e \<Rightarrow> Inl e
      | Inr j \<Rightarrow> (case Option.bind (field_values ''properties'' j) (into_raw_map []) of
                    None \<Rightarrow> Inl json_error
                  | Some props \<Rightarrow> Inr (property_texts env props)))"

definition get_thread_pinned_items ::
  "teams_net \<Rightarrow> decode_env \<Rightarrow> teams_client \<Rightarrow> string \<Rightarrow> go_error + string" where
  "get_thread_pinned_items net env c thread =
     (case get_thread_properties net env c thread of
        Inl e \<Rightarrow> Inl e
      | Inr props \<Rightarrow> Inr (case map_of props ''pinnedItems'' of None \<Rightarrow> [] | Some s \<Rightarrow> s))"

definition get_thread_members ::
  "teams_net \<Rightarrow> decode_env \<Rightarrow> teams_client \<Rightarrow> string \<Rightarrow> go_error + string list" where
  "get_thread_members net env c thread =
     (case fst (fetch_thread net env c thread) of
        Inl e \<Rightarrow> Inl e
      | Inr j \<Rightarrow> (case Option.bind (slice_field ''members'' j) (\<lambda>ms. all_some (map (string_field ''id'') ms)) of
                    None \<Rightarrow> Inl json_error
                  | Some ids \<Rightarrow> Inr (filter (\<lambda>i. i \<noteq> []) (map trim_space ids))))"

section \<open>Changing threads\<close>

definition set_thread_property :: "teams_net \<Rightarrow> teams_client \<Rightarrow> string \<Rightarrow> string \<Rightarrow> string \<Rightarrow> sent" where
  "set_thread_property net c thread0 name value =
     (case thread_args c thread0 of
        Some e \<Rightarrow> refused e
      | None \<Rightarrow> send_once net
          (\<lambda>r. Plain (''setting thread property '' @ name @ '' failed with status '' @ show_int (resp_status r) @ '': '' @
             take max_error_body_bytes (resp_body r)))
          (make_request c ''PUT''
            (derive_base_url (send_base c) @ ''/v1/threads/'' @ path_escape (trim_space thread0) @ ''/properties?name='' @ query_escape name)
            (Some (JObj [(name, JStr value)]))))"

definition update_conversation_topic :: "teams_net \<Rightarrow> teams_client \<Rightarrow> string \<Rightarrow> string \<Rightarrow> sent" where
  "update_conversation_topic net c thread topic = set_thread_property net c thread ''topic'' topic"

definition set_pinned_items :: "teams_net \<Rightarrow> decode_env \<Rightarrow> teams_client \<Rightarrow> string \<Rightarrow> string list \<Rightarrow> sent" where
  "set_pinned_items net env c thread ids =
     set_thread_property net c thread ''pinnedItems''
       (de_json_text env (JArr (map (\<lambda>i. JObj [(''itemId'', JStr i), (''itemType'', JStr ''Message'')]) ids)))"

definition change_member ::
  "string \<Rightarrow> json option \<Rightarrow> string \<Rightarrow> teams_net \<Rightarrow> teams_client \<Rightarrow> string \<Rightarrow> string \<Rightarrow> sent" where
  "change_member meth payload what net c thread0 member0 =
     (let thread = trim_space thread0; member = trim_space member0 in
      if \<not> tc_has_http c then refused missing_http
      else if tc_token c = [] then refused missing_token
      else if thread = [] \<or> member = [] then refused (Plain ''missing thread id or member MRI'')
      else send_once net (failed_with what max_error_body_bytes) (make_request c meth
        (send_threads_base c @ ''/v1/threads/'' @ path_escape thread @ ''/members/'' @ path_escape member) payload))"

definition add_member :: "teams_net \<Rightarrow> teams_client \<Rightarrow> string \<Rightarrow> string \<Rightarrow> sent" where
  "add_member = change_member ''PUT'' (Some (JObj [(''role'', JStr ''User'')])) ''add member''"

definition remove_member :: "teams_net \<Rightarrow> teams_client \<Rightarrow> string \<Rightarrow> string \<Rightarrow> sent" where
  "remove_member = change_member ''DELETE'' None ''remove member''"

definition member_json :: "nat \<Rightarrow> string \<Rightarrow> json" where
  "member_json i mri = JObj [(''id'', JStr mri), (''role'', JStr (if i = 0 then ''Admin'' else ''User''))]"

definition location_thread :: "string \<Rightarrow> go_error + string" where
  "location_thread location =
     (if location = [] then Inl (Plain ''create conversation response missing Location header'')
      else (let i = last (split_on (CHR ''/'') (trim_right_char (CHR ''/'') location)) in
            if i = [] then Inl (Plain ''could not extract thread ID from Location header'') else Inr i))"

definition create_conversation_with_topic ::
  "teams_net \<Rightarrow> teams_client \<Rightarrow> string \<Rightarrow> string list \<Rightarrow> (go_error + string) \<times> teams_request list" where
  "create_conversation_with_topic net c topic mris =
     (if \<not> tc_has_http c then (Inl missing_http, [])
      else if tc_token c = [] then (Inl missing_token, [])
      else if mris = [] then (Inl (Plain ''at least one participant is required''), [])
      else (let req = make_request c ''POST'' (send_threads_base c @ ''/v1/threads'')
                  (Some (JObj [(''members'', JArr (map (\<lambda>(i, m). member_json i m) (enumerate 0 mris))),
                     (''properties'', JObj ((''threadType'', JStr ''chat'') #
                        (if trim_space topic \<noteq> [] then [(''topic'', JStr topic)] else [])))]));
                x = send_once net (failed_with ''create conversation'' max_error_body_bytes) req in
            (case sn_err x of Some e \<Rightarrow> Inl e | None \<Rightarrow> location_thread (tn_location net req), sn_requests x)))"

section \<open>The user's properties\<close>

text \<open>\<open>userPropertiesJSON\<close>: the body of a 2xx answer.\<close>

definition user_properties_call :: "teams_net \<Rightarrow> teams_request \<Rightarrow> (go_error + string) \<times> teams_request list" where
  "user_properties_call net req =
     (case tn_url_err net (tr_url req) of
        Some e \<Rightarrow> (Inl e, [])
      | None \<Rightarrow>
          (case tn_answer net req of
             NoAnswer e \<Rightarrow> Inl e
           | Answered r \<Rightarrow>
               (case classify_response (''user properties request failed with status '' @ show_int (resp_status r))
                       max_error_body_bytes (tn_retry_after net) (Some r) of
                  Some e \<Rightarrow> Inl e
                | None \<Rightarrow> Inr (resp_body r)), [req]))"

definition user_properties_url :: "teams_client \<Rightarrow> string \<Rightarrow> string" where
  "user_properties_url c name =
     messages_base c @ ''/v1/users/ME/properties'' @ (if name \<noteq> [] then ''?name='' @ name else [])"

text \<open>Into a \<open>map[string]int\<close>: null makes the map nil, a null value is a zero.\<close>

definition into_int :: "json \<Rightarrow> int option" where
  "into_int j = (case j of JNum n \<Rightarrow> parse_int64 n | JNull \<Rightarrow> Some 0 | _ \<Rightarrow> None)"

type_synonym pins = "(string \<times> int) list option"

definition into_int_map :: "json \<Rightarrow> pins option" where
  "into_int_map j =
     (case j of
        JNull \<Rightarrow> Some None
      | JObj kvs \<Rightarrow> map_option (\<lambda>ns. Some (fold (\<lambda>(k, n). AList.update k n) (zip (map fst kvs) ns) []))
                     (all_some (map (\<lambda>(k, v). into_int v) kvs))
      | _ \<Rightarrow> None)"

definition parse_favorites :: "decode_env \<Rightarrow> json option \<Rightarrow> go_error + pins" where
  "parse_favorites env raw =
     (case raw of
        None \<Rightarrow> Inr (Some [])
      | Some JNull \<Rightarrow> Inr (Some [])
      | Some (JStr encoded) \<Rightarrow>
          if trim_space encoded = [] then Inr (Some [])
          else (case Option.bind (de_json env encoded) into_int_map of None \<Rightarrow> Inl json_error | Some m \<Rightarrow> Inr m)
      | Some j \<Rightarrow> (case into_int_map j of None \<Rightarrow> Inl json_error | Some m \<Rightarrow> Inr m))"

text \<open>The decoded answer: a \<open>map[string]json.RawMessage\<close>, of which \<open>favorites\<close> is read.\<close>

definition favorites_of :: "decode_env \<Rightarrow> string \<Rightarrow> go_error + pins" where
  "favorites_of env body =
     (case de_json env body of
        Some JNull \<Rightarrow> parse_favorites env None
      | Some (JObj kvs) \<Rightarrow> parse_favorites env (map_of (rev kvs) ''favorites'')
      | _ \<Rightarrow> Inl json_error)"

definition get_pinned_chats :: "teams_net \<Rightarrow> decode_env \<Rightarrow> teams_client \<Rightarrow> (go_error + pins) \<times> teams_request list" where
  "get_pinned_chats net env c =
     (if \<not> tc_has_http c then (Inl missing_http, [])
      else if tc_token c = [] then (Inl missing_token, [])
      else (case user_properties_call net (make_request c ''GET'' (user_properties_url c []) None) of
              (Inl e, reqs) \<Rightarrow> (Inl e, reqs)
            | (Inr body, reqs) \<Rightarrow> (favorites_of env body, reqs)))"

text \<open>Writing to a nil map panics.\<close>

datatype call_end = Returned "go_error option" | Nil_Map_Panic

definition last_position :: "(string \<times> int) list \<Rightarrow> int" where
  "last_position fs = fold (\<lambda>(_, p) last. max last p) fs 0"

definition favorites_json :: "(string \<times> int) list \<Rightarrow> json" where
  "favorites_json fs = JObj (map (\<lambda>(k, p). (k, JNum (show_int p))) (sort_key fst fs))"

definition set_chat_pinned ::
  "teams_net \<Rightarrow> decode_env \<Rightarrow> teams_client \<Rightarrow> string \<Rightarrow> bool \<Rightarrow> call_end \<times> teams_request list" where
  "set_chat_pinned net env c conv0 pinned =
     (let conv = trim_space conv0 in
      if conv = [] then (Returned (Some (Plain ''missing conversation id'')), [])
      else case get_pinned_chats net env c of
        (Inl e, reqs) \<Rightarrow> (Returned (Some e), reqs)
      | (Inr favs, reqs) \<Rightarrow>
          (let fs = (case favs of None \<Rightarrow> [] | Some m \<Rightarrow> m) in
           if (map_of fs conv \<noteq> None) = pinned then (Returned None, reqs)
           else if pinned \<and> favs = None then (Nil_Map_Panic, reqs)
           else (let fs1 = (if pinned then AList.update conv (wrap64 (last_position fs + 1)) fs else AList.delete conv fs);
                     put = make_request c ''PUT'' (user_properties_url c ''favorites'')
                       (Some (JObj [(''favorites'', JStr (de_json_text env (favorites_json fs1)))])) in
                 case user_properties_call net put of
                   (Inl e, reqs1) \<Rightarrow> (Returned (Some e), reqs @ reqs1)
                 | (Inr _, reqs1) \<Rightarrow> (Returned None, reqs @ reqs1))))"

section \<open>Properties of a conversation\<close>

definition conversation_property_url :: "teams_client \<Rightarrow> string \<Rightarrow> string \<Rightarrow> string" where
  "conversation_property_url c conv name =
     messages_base c @ ''/v1/users/ME/conversations/'' @ path_escape conv @ ''/properties?name='' @ query_escape name"

definition set_conversation_property ::
  "teams_net \<Rightarrow> teams_client \<Rightarrow> string \<Rightarrow> string \<Rightarrow> string \<Rightarrow> go_error option \<times> teams_request list" where
  "set_conversation_property net c conv name value =
     (if \<not> tc_has_http c then (Some missing_http, [])
      else if tc_token c = [] then (Some missing_token, [])
      else (case user_properties_call net (make_request c ''PUT'' (conversation_property_url c conv name) (Some (JObj [(name, JStr value)]))) of
              (r, reqs) \<Rightarrow> (the_err r, reqs)))"

definition set_chat_muted :: "teams_net \<Rightarrow> teams_client \<Rightarrow> string \<Rightarrow> bool \<Rightarrow> go_error option \<times> teams_request list" where
  "set_chat_muted net c conv m = set_conversation_property net c conv ''alerts'' (if m then ''false'' else ''true'')"

definition unread_bookmark :: "string \<Rightarrow> gotime \<Rightarrow> string" where
  "unread_bookmark horizon now =
     (let fields = split_on (CHR '';'') (trim_space horizon);
          (readt, readm) = (if length fields = 3 then (fields ! 0, fields ! 2) else (''0'', ''0''))
      in readt @ '';'' @ show_int (unix_milli now) @ '';'' @ readm)"

definition mark_chat_unread :: "teams_net \<Rightarrow> teams_client \<Rightarrow> string \<Rightarrow> string \<Rightarrow> gotime \<Rightarrow> go_error option \<times> teams_request list" where
  "mark_chat_unread net c conv horizon now =
     set_conversation_property net c conv ''consumptionHorizonBookmark'' (unread_bookmark horizon now)"

section \<open>Facts\<close>

lemma set_conversation_property_sends:
  assumes "tc_has_http c" and "tc_token c \<noteq> []" and "tn_url_err net (conversation_property_url c conv name) = None"
  shows "snd (set_conversation_property net c conv name value) =
    [make_request c ''PUT'' (conversation_property_url c conv name) (Some (JObj [(name, JStr value)]))]"
  using assms by (simp add: set_conversation_property_def user_properties_call_def make_request_def split: prod.split)

lemma unread_bookmark_time:
  assumes "0 < unix_milli now" and "int64_ok (unix_milli now)"
  shows "horizon_time (unread_bookmark horizon now) = Some (unix_milli now)"
proof -
  let ?fs = "split_on (CHR '';'') (trim_space horizon)"
  obtain a b where ab: "unread_bookmark horizon now = a @ CHR '';'' # show_int (unix_milli now) @ CHR '';'' # b" and a: "CHR '';'' \<notin> set a"
  proof (cases "length ?fs = 3")
    case True
    then have "?fs ! 0 \<in> set ?fs" by (intro nth_mem) simp
    then have "CHR '';'' \<notin> set (?fs ! 0)" by (rule split_on_pieces)
    with True that show ?thesis by (simp add: unread_bookmark_def Let_def)
  next
    case False
    then show ?thesis using that [of "''0''" "''0''"] by (simp add: unread_bookmark_def Let_def)
  qed
  have "CHR '';'' \<notin> set (show_int (unix_milli now))" by (rule show_int_free) simp
  from horizon_time_second [OF a this] show ?thesis
    using assms by (simp add: ab trim_space_plain [OF show_int_plain] parse_show_int)
qed

text \<open>Pins as a finite map, and their text read back.\<close>

lemma distinct_fst_sort_key: "distinct (map fst xs) \<Longrightarrow> distinct (map fst (sort_key fst xs))"
  by (metis distinct_map distinct_sort set_sort)

lemma map_of_sort_key: "distinct (map fst xs) \<Longrightarrow> map_of (sort_key fst xs) = map_of xs"
  by (simp add: map_of_inject_set distinct_fst_sort_key)

lemma fold_update_keys:
  "distinct (map fst cur @ map fst xs) \<Longrightarrow> fold (\<lambda>(k, n). AList.update k n) xs cur = cur @ xs"
proof (induction xs arbitrary: cur)
  case (Cons x xs)
  obtain k n where x: "x = (k, n)" by fastforce
  have "AList.update k n cur = cur @ [(k, n)]"
    using Cons.prems by (induction cur) (auto simp: x)
  then show ?case using Cons by (simp add: x)
qed simp

lemma all_some_map_Some: "all_some (map Some xs) = Some xs"
  by (induction xs) auto

lemma into_int_map_favorites:
  assumes "distinct (map fst fs)" and "\<forall>(k, p) \<in> set fs. int64_ok p"
  shows "into_int_map (favorites_json fs) = Some (Some (sort_key fst fs))"
proof -
  let ?s = "sort_key fst fs"
  have "map (\<lambda>(k, v). into_int v) (map (\<lambda>(k, p). (k, JNum (show_int p))) ?s) = map Some (map snd ?s)"
    using assms(2) by (auto simp: into_int_def parse_show_int)
  then have "all_some (map (\<lambda>(k, v). into_int v) (map (\<lambda>(k, p). (k, JNum (show_int p))) ?s)) = Some (map snd ?s)"
    by (simp only: all_some_map_Some)
  moreover have "zip (map fst (map (\<lambda>(k, p). (k, JNum (show_int p))) ?s)) (map snd ?s) = ?s"
    by (simp add: comp_def case_prod_unfold zip_map_fst_snd)
  moreover have "fold (\<lambda>(k, n). AList.update k n) ?s [] = ?s"
    using fold_update_keys [of "[]" ?s] distinct_fst_sort_key [OF assms(1)] by simp
  ultimately show ?thesis by (simp add: into_int_map_def favorites_json_def)
qed

lemma fold_update_ok:
  assumes "distinct (map fst cur)" and "\<forall>(k, p) \<in> set cur. P p" and "\<forall>(k, p) \<in> set xs. P p"
  shows "distinct (map fst (fold (\<lambda>(k, n). AList.update k n) xs cur)) \<and>
    (\<forall>(k, p) \<in> set (fold (\<lambda>(k, n). AList.update k n) xs cur). P p)"
  using assms
proof (induction xs arbitrary: cur)
  case (Cons x xs)
  obtain k n where x: "x = (k, n)" by fastforce
  have "set (AList.update k n cur) \<subseteq> insert (k, n) (set cur)" by (induction cur) auto
  then have "\<forall>(k, p) \<in> set (AList.update k n cur). P p" using Cons.prems by (fastforce simp: x)
  then show ?case using Cons.IH [of "AList.update k n cur"] Cons.prems by (simp add: x distinct_update)
qed simp

lemma all_some_members: "all_some xs = Some ys \<Longrightarrow> y \<in> set ys \<Longrightarrow> Some y \<in> set xs"
  by (induction xs arbitrary: ys rule: all_some.induct) auto

lemma into_int_map_ok:
  assumes "into_int_map j = Some (Some fs)"
  shows "distinct (map fst fs) \<and> (\<forall>(k, p) \<in> set fs. int64_ok p)"
proof -
  from assms obtain kvs ns where ns: "all_some (map (\<lambda>(k, v). into_int v) kvs) = Some ns"
    and fs: "fs = fold (\<lambda>(k, n). AList.update k n) (zip (map fst kvs) ns) []"
    by (auto simp: into_int_map_def split: json.splits)
  have "int64_ok n" if "n \<in> set ns" for n
  proof -
    from all_some_members [OF ns that] obtain v where "into_int v = Some n" by auto
    then show ?thesis by (auto simp: into_int_def int64_ok_def dest: parse_int64_range split: json.splits)
  qed
  then have "\<forall>(k, p) \<in> set (zip (map fst kvs) ns). int64_ok p" by (auto dest: set_zip_rightD)
  then show ?thesis unfolding fs by (intro fold_update_ok) auto
qed

lemma favorites_ok: "favorites_of env body = Inr (Some fs) \<Longrightarrow> distinct (map fst fs) \<and> (\<forall>(k, p) \<in> set fs. int64_ok p)"
  by (auto simp: favorites_of_def parse_favorites_def Option.bind_eq_Some_conv dest: into_int_map_ok
      split: option.splits json.splits if_splits)

lemma last_position_upper: "(k, p) \<in> set fs \<Longrightarrow> p \<le> last_position fs"
proof -
  have le: "x \<le> fold (\<lambda>(_ :: string, p) last. max last p) fs x" for x :: int and fs
    by (induction fs arbitrary: x) (auto intro: order_trans [OF max.cobounded1])
  have "(k, p) \<in> set fs \<Longrightarrow> p \<le> fold (\<lambda>(_, p) last. max last p) fs x" for x
    by (induction fs arbitrary: x) (auto intro: order_trans [OF max.cobounded2 le])
  then show "(k, p) \<in> set fs \<Longrightarrow> p \<le> last_position fs" by (simp add: last_position_def)
qed

text \<open>The text \<open>null\<close> makes a nil map, and a pin then writes to it.\<close>

lemma null_favorites_panic:
  assumes "tc_has_http c" and "tc_token c \<noteq> []" and "tn_url_err net (user_properties_url c []) = None"
    and "tn_answer net (make_request c ''GET'' (user_properties_url c []) None) = Answered r" and "ok_status r"
    and "de_json env (resp_body r) = Some (JObj [(''favorites'', JStr ''null'')])" and "de_json env ''null'' = Some JNull"
    and "trim_space conv \<noteq> []"
  shows "fst (set_chat_pinned net env c conv True) = Nil_Map_Panic"
proof -
  have "trim_space ''null'' = ''null''" by (simp add: trim_space_plain plain_ends_def)
  then have "favorites_of env (resp_body r) = Inr None"
    using assms(6,7) by (simp add: favorites_of_def parse_favorites_def into_int_map_def)
  then have "fst (get_pinned_chats net env c) = Inr None"
    using assms by (simp add: get_pinned_chats_def user_properties_call_def make_request_def classify_response_def ok_status_def)
  then show ?thesis using assms(8)
    by (auto simp: set_chat_pinned_def Let_def split: prod.splits)
qed

lemma last_position_nonneg: "0 \<le> last_position fs"
proof -
  have "x \<le> fold (\<lambda>(_ :: string, p) last. max last p) fs x" for x :: int
    by (induction fs arbitrary: x) (auto intro: order_trans [OF max.cobounded1])
  then show ?thesis by (simp add: last_position_def)
qed

section \<open>Properties\<close>

text \<open>C21: Pins are written whole, and only the one asked for changes.  Where the list of pins could be read
  and the chat is pinned already (or not, for an unpin) the call ends with no second request.  Otherwise
  the one PUT carries a text that is read back as the same list, but for the chat: it is below every
  other pin, or gone.\<close>

theorem chat_pins_rewritten:
  fixes net env c conv0 pinned fs
  defines "conv \<equiv> trim_space conv0"
  defines "get \<equiv> make_request c ''GET'' (user_properties_url c []) None"
  defines "gs \<equiv> if pinned then AList.update conv (wrap64 (last_position fs + 1)) fs else AList.delete conv fs"
  assumes client: "tc_has_http c" "tc_token c \<noteq> []" "tn_url_err net = (\<lambda>_. None)" "conv \<noteq> []"
    and read: "tn_answer net get = Answered r" "ok_status r" "favorites_of env (resp_body r) = Inr (Some fs)"
    and room: "last_position fs < 2 ^ 63 - 1"
    and json: "de_json env (de_json_text env (favorites_json gs)) = Some (favorites_json gs)"
      "trim_space (de_json_text env (favorites_json gs)) \<noteq> []"
  shows "if (map_of fs conv \<noteq> None) = pinned then set_chat_pinned net env c conv0 pinned = (Returned None, [get])
    else (\<exists>put enc hs. snd (set_chat_pinned net env c conv0 pinned) = [get, put] \<and>
      tr_method put = ''PUT'' \<and> tr_url put = user_properties_url c ''favorites'' \<and>
      tr_payload put = Some (JObj [(''favorites'', JStr enc)]) \<and> parse_favorites env (Some (JStr enc)) = Inr (Some hs) \<and>
      map_of hs = (map_of fs)(conv := if pinned then Some (last_position fs + 1) else None) \<and>
      (\<forall>p \<in> ran (map_of fs). p < last_position fs + 1))"
proof -
  have fok: "distinct (map fst fs)" "\<forall>(k, p) \<in> set fs. int64_ok p" using favorites_ok [OF read(3)] by auto
  have w: "wrap64 (last_position fs + 1) = last_position fs + 1"
    using room last_position_nonneg [of fs] by (intro wrap64_id) (simp add: int64_ok_def)
  have get: "get_pinned_chats net env c = (Inr (Some fs), [get])"
    using client(1-3) read by (simp add: get_pinned_chats_def user_properties_call_def get_def classify_response_def ok_status_def)
  have gok: "distinct (map fst gs)" "\<forall>(k, p) \<in> set gs. int64_ok p"
  proof -
    show "distinct (map fst gs)" using fok by (simp add: gs_def distinct_update distinct_delete)
    have "set (AList.update k v xs) \<subseteq> insert (k, v) (set xs)" for k v and xs :: "(string \<times> int) list" by (induction xs) auto
    moreover have "set (AList.delete k xs) \<subseteq> set xs" for k and xs :: "(string \<times> int) list" by (auto simp: AList.delete_eq)
    moreover have "int64_ok (wrap64 (last_position fs + 1))" by (rule wrap64_range)
    ultimately show "\<forall>(k, p) \<in> set gs. int64_ok p" using fok(2) by (fastforce simp: gs_def split: if_splits)
  qed
  let ?put = "make_request c ''PUT'' (user_properties_url c ''favorites'') (Some (JObj [(''favorites'', JStr (de_json_text env (favorites_json gs)))]))"
  have reads: "parse_favorites env (Some (JStr (de_json_text env (favorites_json gs)))) = Inr (Some (sort_key fst gs))"
    using json into_int_map_favorites [OF gok] by (simp add: parse_favorites_def)
  have map: "map_of (sort_key fst gs) = (map_of fs)(conv := if pinned then Some (last_position fs + 1) else None)"
    unfolding map_of_sort_key [OF gok(1)] by (simp add: gs_def w update_conv' delete_conv')
  have low: "\<forall>p \<in> ran (map_of fs). p < last_position fs + 1"
    using last_position_upper by (fastforce simp: ran_def dest: map_of_SomeD)
  show ?thesis
  proof (cases "(map_of fs conv \<noteq> None) = pinned")
    case True
    then show ?thesis using get client(4) by (simp add: set_chat_pinned_def conv_def [symmetric] Let_def)
  next
    case False
    have "snd (user_properties_call net ?put) = [?put]"
      using client(3) by (simp add: user_properties_call_def make_request_def)
    then obtain a where "user_properties_call net ?put = (a, [?put])" by (metis prod.collapse)
    with False have "snd (set_chat_pinned net env c conv0 pinned) = [get, ?put]"
      using get client(4) by (simp add: set_chat_pinned_def conv_def [symmetric] gs_def [symmetric] Let_def split: sum.splits)
    with False reads map low show ?thesis by (auto simp: make_request_def)
  qed
qed

definition pin_env :: decode_env where
  "pin_env = \<lparr>de_html = script_env,
     de_json = (\<lambda>s. if s = ''B'' then Some (JObj [(''favorites'', JStr ''F'')]) else if s = ''F'' then Some (favorites_json [(''a'', 1)])
                else if s = ''G'' then Some (favorites_json [(''a'', 1), (''b'', 2)]) else None),
     de_json_text = (\<lambda>_. ''G''), de_float = (\<lambda>_. None), de_time = (\<lambda>_ _. None)\<rparr>"

definition pin_client :: teams_client where
  "pin_client = \<lparr>tc_has_http = True, tc_token = ''tok'', tc_send_url = [], tc_messages_url = [], tc_executor = None\<rparr>"

definition quiet_net :: "string \<Rightarrow> teams_net" where
  "quiet_net body = \<lparr>tn_attempts = (\<lambda>_. busy_once), tn_answer = (\<lambda>_. Answered \<lparr>resp_status = 200, resp_retry_after = [], resp_body = body\<rparr>),
     tn_location = (\<lambda>_. []), tn_url_err = (\<lambda>_. None), tn_retry_after = (\<lambda>_. 0)\<rparr>"

theorem chat_pins_rewritten_witness:
  "\<exists>get put enc. snd (set_chat_pinned (quiet_net ''B'') pin_env pin_client ''b'' True) = [get, put] \<and>
     tr_payload put = Some (JObj [(''favorites'', JStr enc)]) \<and>
     (\<exists>hs. parse_favorites pin_env (Some (JStr enc)) = Inr (Some hs) \<and> map_of hs = [''a'' \<mapsto> 1, ''b'' \<mapsto> 2])"
proof -
  have trims: "trim_space ''b'' = ''b''" "trim_space ''F'' = ''F''" "trim_space ''G'' = ''G''"
    by (simp_all add: trim_space_plain plain_ends_def)
  have im: "into_int_map (favorites_json [(''a'', 1)]) = Some (Some [(''a'', 1)])"
    using into_int_map_favorites [of "[(''a'', 1)]"] by (simp add: int64_ok_def)
  have f: "favorites_of pin_env ''B'' = Inr (Some [(''a'', 1)])"
    by (simp add: favorites_of_def parse_favorites_def pin_env_def trims im)
  have up: "AList.update ''b'' (wrap64 (last_position [(''a'', 1)] + 1)) [(''a'', 1)] = [(''a'', 1), (''b'', 2)]"
    by (simp add: last_position_def wrap64_def)
  have d: "de_json pin_env (de_json_text pin_env (favorites_json [(''a'', 1), (''b'', 2)])) = Some (favorites_json [(''a'', 1), (''b'', 2)])"
    "de_json_text pin_env (favorites_json [(''a'', 1), (''b'', 2)]) = ''G''"
    by (simp_all add: pin_env_def)
  let ?get = "make_request pin_client ''GET'' (user_properties_url pin_client []) None"
  let ?r = "\<lparr>resp_status = 200, resp_retry_after = [], resp_body = ''B''\<rparr>"
  have n: "tn_url_err (quiet_net ''B'') = (\<lambda>_. None)" "tn_answer (quiet_net ''B'') ?get = Answered ?r"
    "tc_has_http pin_client" "tc_token pin_client \<noteq> []" by (simp_all add: quiet_net_def pin_client_def)
  have last: "last_position [(''a'', 1)] = 1" and wrap2: "wrap64 2 = 2" by (simp_all add: last_position_def wrap64_def)
  have "if (map_of [(''a'', 1 :: int)] (trim_space ''b'') \<noteq> None) = True
    then set_chat_pinned (quiet_net ''B'') pin_env pin_client ''b'' True = (Returned None, [?get])
    else (\<exists>put enc hs. snd (set_chat_pinned (quiet_net ''B'') pin_env pin_client ''b'' True) = [?get, put] \<and>
      tr_method put = ''PUT'' \<and> tr_url put = user_properties_url pin_client ''favorites'' \<and>
      tr_payload put = Some (JObj [(''favorites'', JStr enc)]) \<and> parse_favorites pin_env (Some (JStr enc)) = Inr (Some hs) \<and>
      map_of hs = (map_of [(''a'', 1)])(trim_space ''b'' := if True then Some (last_position [(''a'', 1)] + 1) else None) \<and>
      (\<forall>p \<in> ran (map_of [(''a'', 1)]). p < last_position [(''a'', 1)] + 1))"
    by (rule chat_pins_rewritten [where r = ?r]) (use n f in \<open>simp_all add: trims up d d(1) [unfolded d(2)] ok_status_def last wrap2\<close>)
  then have "\<exists>put enc hs. snd (set_chat_pinned (quiet_net ''B'') pin_env pin_client ''b'' True) = [?get, put] \<and>
      tr_payload put = Some (JObj [(''favorites'', JStr enc)]) \<and> parse_favorites pin_env (Some (JStr enc)) = Inr (Some hs) \<and>
      map_of hs = (map_of [(''a'', 1)])(''b'' := Some 2)"
    by (auto simp: trims last)
  then show ?thesis by (auto simp: fun_upd_twist)
qed

text \<open>C22: The user's state of a chat is read as it was set.  Each call makes one request; the value it sets for
  \<open>alerts\<close> is read as muted exactly when it was asked to mute, and the bookmark it sets for an unread mark
  is read as an unread mark exactly while the read position of the chat is older than the mark,
  whatever the horizon it was made from.\<close>

theorem chat_state_read_back:
  assumes client: "tc_has_http c" "tc_token c \<noteq> []" "tn_url_err net = (\<lambda>_. None)"
    and clock: "0 < unix_milli now" "int64_ok (unix_milli now)"
  shows "(\<exists>v. snd (set_chat_muted net c conv m) =
        [make_request c ''PUT'' (conversation_property_url c conv ''alerts'') (Some (JObj [(''alerts'', JStr v)]))] \<and>
      muted (p\<lparr>cp_alerts := loose_string (JStr v)\<rparr>) = m) \<and>
    (\<exists>v. snd (mark_chat_unread net c conv horizon now) =
        [make_request c ''PUT'' (conversation_property_url c conv ''consumptionHorizonBookmark'')
           (Some (JObj [(''consumptionHorizonBookmark'', JStr v)]))] \<and>
      marked_unread (p\<lparr>cp_bookmark := loose_string (JStr v)\<rparr>) =
        (case horizon_time (cp_horizon p) of None \<Rightarrow> True | Some read \<Rightarrow> read < unix_milli now))"
proof -
  have words: "trim_space ''false'' = ''false''" "trim_space ''true'' = ''true''" "equal_fold ''false'' ''false''" "\<not> equal_fold ''true'' ''false''"
    by (simp_all add: trim_space_plain plain_ends_def fold_eval)
  have url: "tn_url_err net (conversation_property_url c conv name) = None" for name by (simp add: client(3))
  note sends = set_conversation_property_sends [OF client(1,2) url]
  let ?v = "if m then ''false'' else ''true''" and ?b = "unread_bookmark horizon now"
  have "snd (set_chat_muted net c conv m) =
      [make_request c ''PUT'' (conversation_property_url c conv ''alerts'') (Some (JObj [(''alerts'', JStr ?v)]))]"
    by (simp only: set_chat_muted_def sends)
  moreover have "muted (p\<lparr>cp_alerts := loose_string (JStr ?v)\<rparr>) = m" by (simp add: muted_def words)
  moreover have "snd (mark_chat_unread net c conv horizon now) =
      [make_request c ''PUT'' (conversation_property_url c conv ''consumptionHorizonBookmark'')
         (Some (JObj [(''consumptionHorizonBookmark'', JStr ?b)]))]"
    by (simp only: mark_chat_unread_def sends)
  moreover have "marked_unread (p\<lparr>cp_bookmark := loose_string (JStr ?b)\<rparr>) =
      (case horizon_time (cp_horizon p) of None \<Rightarrow> True | Some read \<Rightarrow> read < unix_milli now)"
    by (simp add: marked_unread_def unread_bookmark_time [OF clock])
  ultimately show ?thesis by blast
qed

theorem chat_state_read_back_witness:
  "\<exists>v. snd (mark_chat_unread (quiet_net []) pin_client ''19:a@thread.v2'' ''5;6;7'' (of_unix 1709210096)) =
      [make_request pin_client ''PUT'' (conversation_property_url pin_client ''19:a@thread.v2'' ''consumptionHorizonBookmark'')
         (Some (JObj [(''consumptionHorizonBookmark'', JStr v)]))] \<and>
    marked_unread ((rc_properties two_members)\<lparr>cp_bookmark := loose_string (JStr v)\<rparr>)"
proof -
  have clock: "0 < unix_milli (of_unix 1709210096)" "int64_ok (unix_milli (of_unix 1709210096))"
    by (simp_all add: unix_milli_def of_unix_def int64_ok_def)
  have "horizon_time (cp_horizon (rc_properties two_members)) = None"
    by (simp add: two_members_def horizon_time_def)
  then show ?thesis
    using chat_state_read_back [of pin_client "quiet_net []" "of_unix 1709210096" "''19:a@thread.v2''" True
        "rc_properties two_members" "''5;6;7''"] clock
    by (simp add: pin_client_def quiet_net_def)
qed

end
