(* ===== verification/Discovery.thy ===== *)
theory Discovery
  imports Room_Names Poll_Thread Chat_State
begin

text \<open>
  Thread discovery (thread_discovery.go) with the chat state it announces (chat_state.go): the pass
  over the conversation list, the naming passes of a full sync and the spaces of teams.  What the
  requests answer is in \<open>disco_env\<close>; a pass sees one answer of each.  The events queued are recorded
  in order.

  Left out: pins and saved messages (\<open>ensurePinnable\<close>, \<open>syncSavedMessages\<close>, \<open>noteVersion\<close>), the
  parents of channels (\<open>syncChannelParents\<close>, which works on bridgev2's portals), logging.
\<close>

section \<open>Data\<close>

datatype room_type = Room_Default | Room_DM | Room_Space

record chat_info =
  nf_name :: "string option"
  nf_topic :: "string option"
  nf_type :: "room_type option"
  nf_members :: "(string \<times> event_sender) list option"
  nf_tag :: "string option"
  nf_muted :: "bool option"
  nf_parent :: "string option"

definition no_info :: chat_info where
  "no_info = \<lparr>nf_name = None, nf_topic = None, nf_type = None, nf_members = None, nf_tag = None, nf_muted = None, nf_parent = None\<rparr>"

text \<open>The room of a chat sync, whether the sync may create it, and its info.\<close>

datatype disco_event =
    Chat_Resync portal_key bool chat_info
  | Marked_Unread portal_key event_sender bool

record disco_env =
  de_poll :: poll_env
  de_now :: gotime
  de_lower :: "string \<Rightarrow> string"
  de_convs :: "go_error + remote_conversation list"
  de_pins :: "pins option"
  de_row_get_err :: "go_error option"
  de_row_put_err :: "go_error option"
  de_rows_err :: "go_error option"
  de_graph_up :: bool
  de_user :: "string \<Rightarrow> go_error + graph_user option"
  de_members :: "string \<Rightarrow> go_error + string list"
  de_senders :: "string \<Rightarrow> go_error + string list"
  de_teams :: "team list option"
  de_channels :: "channel_map option"

record disco_world =
  dw_poll :: poll_world
  dw_pins :: state_tracker
  dw_mutes :: state_tracker
  dw_unreads :: state_tracker
  dw_horizon_raw :: "(string \<times> string) list"
  dw_team_names :: "(string \<times> string) list"
  dw_channel_teams :: channel_map
  dw_events :: "disco_event list"

definition de_login :: "disco_env \<Rightarrow> string" where
  "de_login env = pe_login (de_poll env)"

definition de_self :: "disco_env \<Rightarrow> string" where
  "de_self env = be_self (pe_bridge (de_poll env))"

definition thread_rows :: "disco_world \<Rightarrow> thread_table option" where
  "thread_rows w = cw_db (pw_cursors (dw_poll w))"

definition put_rows :: "thread_table option \<Rightarrow> disco_world \<Rightarrow> disco_world" where
  "put_rows t w = w\<lparr>dw_poll := (dw_poll w)\<lparr>pw_cursors := (pw_cursors (dw_poll w))\<lparr>cw_db := t\<rparr>\<rparr>\<rparr>"

definition on_poll :: "(poll_world \<Rightarrow> poll_world) \<Rightarrow> disco_world \<Rightarrow> disco_world" where
  "on_poll f w = w\<lparr>dw_poll := f (dw_poll w)\<rparr>"

definition queue_disco :: "disco_event \<Rightarrow> disco_world \<Rightarrow> disco_world" where
  "queue_disco e w = w\<lparr>dw_events := dw_events w @ [e]\<rparr>"

section \<open>Names of users\<close>

text \<open>
  \<open>lookupUserDisplayName\<close>: the name in the profile table, else the one Graph gives (a user it does not
  know is remembered); and whether it is new from Graph.
\<close>

definition profile_name :: "disco_env \<Rightarrow> string \<Rightarrow> disco_world \<Rightarrow> string option" where
  "profile_name env user w =
     (case profile_get (pe_profile_get_err (de_poll env)) (pw_profiles (dw_poll w)) user of
        Inr (Some p) \<Rightarrow> if trim_space (prof_name p) \<noteq> [] \<and> trim_space (prof_name p) \<noteq> user
                        then Some (trim_space (prof_name p)) else None
      | _ \<Rightarrow> None)"

definition object_id :: "string \<Rightarrow> string" where
  "object_id user = (if prefix ''8:orgid:'' user then drop 8 user else [])"

definition may_ask_graph :: "disco_env \<Rightarrow> string \<Rightarrow> disco_world \<Rightarrow> bool" where
  "may_ask_graph env user w \<longleftrightarrow>
     object_id user \<noteq> [] \<and> \<not> recent_name_lookup_miss (de_now env) user (pw_caches (dw_poll w)) \<and> de_graph_up env"

definition graph_name :: "disco_env \<Rightarrow> string \<Rightarrow> string option" where
  "graph_name env user =
     (case de_user env (object_id user) of
        Inl e \<Rightarrow> None
      | Inr u \<Rightarrow> Some (case u of Some g \<Rightarrow> trim_space (gu_display_name g) | None \<Rightarrow> []))"

definition lookup_user_display_name :: "disco_env \<Rightarrow> string \<Rightarrow> disco_world \<Rightarrow> (string \<times> bool) \<times> disco_world" where
  "lookup_user_display_name env user0 w =
     (let user = trim_space user0 in
      if user = [] then (([], False), w)
      else case profile_name env user w of
             Some name \<Rightarrow> ((name, False), w)
           | None \<Rightarrow>
               if \<not> may_ask_graph env user w then (([], False), w)
               else case graph_name env user of
                      None \<Rightarrow> (([], False), w)
                    | Some name \<Rightarrow>
                        if name = []
                        then (([], False), on_poll (\<lambda>p. p\<lparr>pw_caches := record_name_lookup_miss (de_now env) user (pw_caches p)\<rparr>) w)
                        else ((name, True), on_poll (\<lambda>p. p\<lparr>pw_profiles :=
                                snd (profile_upsert (pe_profile_put_err (de_poll env)) (pw_profiles p) user name (de_now env))\<rparr>) w))"

definition resolve_user_display_name :: "disco_env \<Rightarrow> string \<Rightarrow> disco_world \<Rightarrow> string \<times> disco_world" where
  "resolve_user_display_name env user w =
     (case lookup_user_display_name env user w of
        ((name, from_graph), w1) \<Rightarrow> (name, if from_graph then on_poll (sync_ghost_name (de_poll env) user name) w1 else w1))"

definition resolve_dm_name_from_thread_id :: "disco_env \<Rightarrow> string \<Rightarrow> disco_world \<Rightarrow> string \<times> disco_world" where
  "resolve_dm_name_from_thread_id env thread w =
     (let other = dm_counterpart (de_self env) thread in
      if other = [] then ([], w) else resolve_user_display_name env other w)"

section \<open>Members\<close>

text \<open>The map of members, by their ID in the room; a later member of the same ID replaces the entry.\<close>

type_synonym member_map = "(string \<times> event_sender) list"

definition set_member :: "event_sender \<Rightarrow> member_map \<Rightarrow> member_map" where
  "set_member es m = AList.update (es_sender es) es m"

definition own_member :: "disco_env \<Rightarrow> string \<Rightarrow> event_sender" where
  "own_member env i = \<lparr>es_sender = network_user_id i, es_from_me = True, es_login = de_login env\<rparr>"

definition member_sender :: "disco_env \<Rightarrow> string \<Rightarrow> event_sender" where
  "member_sender env raw =
     (let self = normalize_teams_user_id (de_self env) in
      if self \<noteq> [] \<and> normalize_teams_user_id raw = self then own_member env raw else other_sender raw)"

definition raw_member_id :: "conversation_member \<Rightarrow> string" where
  "raw_member_id m = (if trim_space (cm_id m) = [] then trim_space (cm_mri m) else trim_space (cm_id m))"

definition listed_members :: "remote_conversation \<Rightarrow> string list" where
  "listed_members c =
     filter (\<lambda>i. i \<noteq> [] \<and> \<not> prefix ''28:'' (to_lower i)) (map raw_member_id (all_members c))"

definition build_chat_member_list :: "disco_env \<Rightarrow> remote_conversation \<Rightarrow> disco_world \<Rightarrow> member_map option \<times> disco_world" where
  "build_chat_member_list env c w =
     (let ids = listed_members c; m = fold (\<lambda>i. set_member (member_sender env i)) ids [] in
      (if m = [] then None else Some m,
       fold (\<lambda>i. on_poll (track_known_user (normalize_teams_user_id i))) ids w))"

definition dm_member_list_from_thread_id :: "disco_env \<Rightarrow> string \<Rightarrow> disco_world \<Rightarrow> member_map option \<times> disco_world" where
  "dm_member_list_from_thread_id env thread w =
     (let other = dm_counterpart (de_self env) thread in
      if other = [] then (None, w)
      else (Some (set_member (other_sender other) (set_member (own_member env (normalize_teams_user_id (de_self env))) [])),
            on_poll (track_known_user other) w))"

section \<open>Chat state\<close>

definition pin_signature :: "bool \<Rightarrow> string" where
  "pin_signature pinned = (if pinned then CHR 0x00 # ''pinned'' else [])"

text \<open>The tag to announce, if any, and the pin part of the signature.\<close>

definition chat_pin_state :: "thread \<Rightarrow> pins option \<Rightarrow> disco_world \<Rightarrow> (string option \<times> string) \<times> disco_world" where
  "chat_pin_state th pins w =
     (case pins of
        None \<Rightarrow> ((None, pin_signature (fst (tracker_get (dw_pins w) (td_id th)))), w)
      | Some m \<Rightarrow>
          (let entries = (case m of Some kvs \<Rightarrow> map fst kvs | None \<Rightarrow> []);
               pinned = (td_conversation_id th \<in> set entries \<or> td_id th \<in> set entries) in
           case tracker_observe (dw_pins w) (td_id th) pinned of
             (tag, p) \<Rightarrow> ((tag, pin_signature pinned), w\<lparr>dw_pins := p\<rparr>)))"

text \<open>The mute to announce (\<open>True\<close> for ever, \<open>False\<close> for unmuted), and the mute part of the signature.\<close>

definition chat_mute_state :: "thread \<Rightarrow> conversation_properties \<Rightarrow> disco_world \<Rightarrow> (bool option \<times> string) \<times> disco_world" where
  "chat_mute_state th props w =
     (let on = muted props; sig = (if on then CHR 0x00 # ''muted'' else []) in
      case tracker_changed (dw_mutes w) (td_id th) on of
        (news, p) \<Rightarrow> ((if news then Some on else None, sig), w\<lparr>dw_mutes := p\<rparr>))"

definition queue_marked_unread :: "disco_env \<Rightarrow> thread \<Rightarrow> conversation_properties \<Rightarrow> disco_world \<Rightarrow> disco_world" where
  "queue_marked_unread env th props w =
     (let on = marked_unread props in
      case tracker_changed (dw_unreads w) (td_id th) on of
        (news, p) \<Rightarrow>
          (let w1 = w\<lparr>dw_unreads := p\<rparr> in
           if news then queue_disco (Marked_Unread (portal_key (de_login env) (td_id th)) (own_member env (de_self env)) on) w1
           else w1))"

section \<open>Discovery\<close>

definition type_text :: "room_type \<Rightarrow> string" where
  "type_text t = (case t of Room_Default \<Rightarrow> [] | Room_DM \<Rightarrow> ''dm'' | Room_Space \<Rightarrow> ''space'')"

definition chat_info_signature :: "chat_info \<Rightarrow> string" where
  "chat_info_signature i =
     (case nf_name i of Some n \<Rightarrow> n | None \<Rightarrow> []) @ CHR 0x00 #
     (case nf_topic i of Some t \<Rightarrow> t | None \<Rightarrow> []) @ CHR 0x00 #
     (case nf_type i of Some t \<Rightarrow> type_text t | None \<Rightarrow> []) @ CHR 0x00 #
     (case nf_members i of Some m \<Rightarrow> join_with '','' (sort (map fst m)) | None \<Rightarrow> [])"

definition room_type_of :: "bool \<Rightarrow> room_type" where
  "room_type_of one_to_one = (if one_to_one then Room_DM else Room_Default)"

text \<open>The thread of a conversation, unless it is skipped, with the name the conversation list gives it.\<close>

definition discovered :: "disco_env \<Rightarrow> remote_conversation \<Rightarrow> thread option" where
  "discovered env conv =
     (case normalize_for_self (de_lower env) conv (de_self env) of
        None \<Rightarrow> None
      | Some th \<Rightarrow>
          if trim_space (td_id th) = [] \<or> trim_space (td_conversation_id th) = [] \<or> is_non_pollable_system_stream (td_id th)
          then None else Some th)"

definition listed_name :: "disco_env \<Rightarrow> thread \<Rightarrow> disco_world \<Rightarrow> string \<times> disco_world" where
  "listed_name env th w =
     (if td_is_one_to_one th \<and> td_room_name th = [] then resolve_dm_name_from_thread_id env (td_id th) w
      else (td_room_name th, w))"

definition stored_row :: "disco_env \<Rightarrow> string \<Rightarrow> disco_world \<Rightarrow> thread_state option" where
  "stored_row env i w =
     (case thread_get (de_row_get_err env) (thread_rows w) (de_login env) i of Inr row \<Rightarrow> row | Inl _ \<Rightarrow> None)"

definition save_row :: "disco_env \<Rightarrow> thread_state \<Rightarrow> disco_world \<Rightarrow> disco_world" where
  "save_row env row w = put_rows (snd (thread_upsert (de_row_put_err env) (thread_rows w) (de_login env) (Some row))) w"

text \<open>The part of a turn that works out the info: members, pin, mute.\<close>

definition members_of :: "disco_env \<Rightarrow> remote_conversation \<Rightarrow> thread \<Rightarrow> disco_world \<Rightarrow> member_map option \<times> disco_world" where
  "members_of env conv th w =
     (case build_chat_member_list env conv w of
        (Some m, w1) \<Rightarrow> (Some m, w1)
      | (None, w1) \<Rightarrow> if td_is_one_to_one th then dm_member_list_from_thread_id env (td_id th) w1 else (None, w1))"

definition announce :: "disco_env \<Rightarrow> string \<Rightarrow> string \<Rightarrow> chat_info \<Rightarrow> disco_world \<Rightarrow> disco_world" where
  "announce env i sig info w =
     (case chat_info_changed (de_now env) i sig (pw_caches (dw_poll w)) of
        ((prev, news), c) \<Rightarrow>
          (let w1 = on_poll (\<lambda>p. p\<lparr>pw_caches := c\<rparr>) w in
           if news then queue_disco (Chat_Resync (portal_key (de_login env) i) True info) w1 else w1))"

definition discover_thread :: "disco_env \<Rightarrow> remote_conversation \<Rightarrow> thread \<Rightarrow> disco_world \<Rightarrow> disco_world" where
  "discover_thread env conv th w =
     (case listed_name env th w of (api, w1) \<Rightarrow>
      (let name = (case stored_row env (td_id th) w1 of Some old \<Rightarrow> choose_stored_name api (ts_name old) | None \<Rightarrow> api);
           w2 = save_row env \<lparr>ts_thread_id = td_id th, ts_conversation = td_conversation_id th,
                  ts_one_to_one = td_is_one_to_one th, ts_name = name, ts_last_seq = [], ts_last_ts = 0\<rparr> w1 in
       case members_of env conv th w2 of (members, w3) \<Rightarrow>
       (case chat_pin_state th (de_pins env) w3 of ((tag, pin_sig), w4) \<Rightarrow>
       (case chat_mute_state th (rc_properties conv) w4 of ((mute, mute_sig), w5) \<Rightarrow>
       (let info = \<lparr>nf_name = (if is_generic_chat_name name then None else Some name),
                    nf_topic = (if is_channel_thread (td_id th) then None else Some []),
                    nf_type = Some (room_type_of (td_is_one_to_one th)), nf_members = members,
                    nf_tag = tag, nf_muted = mute, nf_parent = None\<rparr>;
            w6 = queue_marked_unread env th (rc_properties conv) w5;
            w7 = w6\<lparr>dw_horizon_raw := AList.update (td_id th) (cp_horizon (rc_properties conv)) (dw_horizon_raw w6)\<rparr> in
        announce env (td_id th) (chat_info_signature info @ pin_sig @ mute_sig) info w7)))))"

definition discover_conversation :: "disco_env \<Rightarrow> remote_conversation \<Rightarrow> disco_world \<Rightarrow> disco_world" where
  "discover_conversation env conv w =
     (case discovered env conv of None \<Rightarrow> w | Some th \<Rightarrow> discover_thread env conv th w)"

definition on_conn :: "(conn_state \<Rightarrow> conn_state) \<Rightarrow> disco_world \<Rightarrow> disco_world" where
  "on_conn f w = on_poll (\<lambda>p. p\<lparr>pw_conn := f (pw_conn p)\<rparr>) w"

definition refresh_threads :: "disco_env \<Rightarrow> disco_world \<Rightarrow> go_error option \<times> disco_world" where
  "refresh_threads env w =
     (case pe_token_err (de_poll env) of
        Some e \<Rightarrow> (Some e, on_conn (report_token_error (pe_superseded (de_poll env)) e) w)
      | None \<Rightarrow>
          (case de_convs env of
             Inl e \<Rightarrow> (Some e, on_conn (note_teams_result (Some e)) w)
           | Inr convs \<Rightarrow> (None, fold (discover_conversation env) convs (on_conn (note_teams_result None) w))))"

section \<open>Naming passes\<close>

definition rename_room :: "disco_env \<Rightarrow> thread_state \<Rightarrow> string \<Rightarrow> chat_info \<Rightarrow> disco_world \<Rightarrow> disco_world" where
  "rename_room env th name info w =
     queue_disco (Chat_Resync (portal_key (de_login env) (ts_thread_id th)) False (info\<lparr>nf_name := Some name\<rparr>))
       (save_row env (th\<lparr>ts_name := name\<rparr>) w)"

text \<open>The profile names of those who have written in a group chat, without the user.\<close>

definition build_group_chat_name :: "disco_env \<Rightarrow> string \<Rightarrow> disco_world \<Rightarrow> string" where
  "build_group_chat_name env thread w =
     (case de_senders env thread of
        Inl e \<Rightarrow> []
      | Inr senders \<Rightarrow>
          join_group_names (concat (map (\<lambda>s.
            if de_lower env (trim_space s) = de_lower env (trim_space (de_self env)) then []
            else case profile_get (pe_profile_get_err (de_poll env)) (pw_profiles (dw_poll w)) s of
                   Inr (Some p) \<Rightarrow> if trim_space (prof_name p) = [] then [] else [prof_name p]
                 | _ \<Rightarrow> []) senders)))"

fun name_members ::
  "disco_env \<Rightarrow> string list \<Rightarrow> member_map \<Rightarrow> string list \<Rightarrow> disco_world \<Rightarrow> (member_map \<times> string list) \<times> disco_world" where
  "name_members env [] m names w = ((m, names), w)"
| "name_members env (raw # ids) m names w =
     (let i = normalize_teams_user_id raw in
      if i = [] \<or> prefix ''28:'' (to_lower i) then name_members env ids m names w
      else if i = normalize_teams_user_id (de_self env) then name_members env ids (set_member (own_member env i) m) names w
      else (case resolve_user_display_name env i (on_poll (track_known_user i) w) of
              (name, w1) \<Rightarrow> name_members env ids (set_member (other_sender i) m) (if name = [] then names else names @ [name]) w1))"

definition group_chat_name_and_members ::
  "disco_env \<Rightarrow> string \<Rightarrow> disco_world \<Rightarrow> (string \<times> member_map option) \<times> disco_world" where
  "group_chat_name_and_members env thread w =
     (case de_members env thread of
        Inl e \<Rightarrow> (([], None), w)
      | Inr ids \<Rightarrow>
          (case name_members env ids [] [] w of
             ((m, names), w1) \<Rightarrow> ((join_group_names names, if m = [] then None else Some m), w1)))"

definition resolve_unnamed_group_chat :: "disco_env \<Rightarrow> thread_state \<Rightarrow> disco_world \<Rightarrow> disco_world" where
  "resolve_unnamed_group_chat env th w =
     (if ts_one_to_one th \<or> \<not> is_generic_chat_name (ts_name th) \<or> \<not> is_group_chat_thread (ts_thread_id th) then w
      else (let built = build_group_chat_name env (ts_thread_id th) w in
            case (if built = [] then group_chat_name_and_members env (ts_thread_id th) w else ((built, None), w)) of
              ((name, members), w1) \<Rightarrow>
                if name = [] \<or> name = ts_name th then w1
                else rename_room env th name (no_info\<lparr>nf_members := members\<rparr>) w1))"

definition listed_rows :: "disco_env \<Rightarrow> disco_world \<Rightarrow> go_error + thread_state list" where
  "listed_rows env w = thread_list_for_login (de_rows_err env) (thread_rows w) (de_login env)"

definition resolve_unnamed_group_chats :: "disco_env \<Rightarrow> disco_world \<Rightarrow> disco_world" where
  "resolve_unnamed_group_chats env w =
     (case listed_rows env w of Inl _ \<Rightarrow> w | Inr rows \<Rightarrow> fold (resolve_unnamed_group_chat env) rows w)"

definition rename_system_stream :: "disco_env \<Rightarrow> thread_state \<Rightarrow> string \<Rightarrow> disco_world \<Rightarrow> disco_world" where
  "rename_system_stream env th thread w =
     (let name = system_stream_name thread in
      if name = [] \<or> name = ts_name th then w else rename_room env th name no_info w)"

text \<open>What a DM without a name asks for: the name of the other member.\<close>

definition room_name_for :: "disco_env \<Rightarrow> thread_state \<Rightarrow> string \<Rightarrow> channel_map \<Rightarrow> disco_world \<Rightarrow> string \<times> disco_world" where
  "room_name_for env th thread m w =
     (case (if ts_one_to_one th \<and> base_name (ts_name th) = [] then resolve_dm_name_from_thread_id env thread w else ([], w)) of
        (other, w1) \<Rightarrow>
          (structured_room_name (ts_one_to_one th) (ts_name th) thread other (dm_counterpart (de_self env) thread) m, w1))"

definition channel_parts :: "string \<Rightarrow> channel_map \<Rightarrow> chat_info" where
  "channel_parts thread m =
     (if \<not> is_channel_thread thread then no_info
      else case map_of m thread of
             None \<Rightarrow> no_info
           | Some info \<Rightarrow>
               no_info\<lparr>nf_parent := (if ci_team_id info \<noteq> [] then Some (team_portal_id (ci_team_id info)) else None),
                 nf_topic := (if trim_space (ci_description info) \<noteq> [] then Some (trim_space (ci_description info)) else None)\<rparr>)"

definition structure_room_name :: "disco_env \<Rightarrow> channel_map \<Rightarrow> thread_state \<Rightarrow> disco_world \<Rightarrow> disco_world" where
  "structure_room_name env m th w =
     (let thread = trim_space (ts_thread_id th) in
      if thread = [] then w
      else if sublist ''teamsstream_'' thread then rename_system_stream env th thread w
      else if has_type_prefix (ts_name th) then w
      else (case room_name_for env th thread m w of
              (name, w1) \<Rightarrow> if name = [] \<or> name = ts_name th then w1
                            else rename_room env th name (channel_parts thread m) w1))"

definition apply_structured_room_names :: "disco_env \<Rightarrow> channel_map \<Rightarrow> disco_world \<Rightarrow> disco_world" where
  "apply_structured_room_names env m w =
     (case listed_rows env w of Inl _ \<Rightarrow> w | Inr rows \<Rightarrow> fold (structure_room_name env m) rows w)"

section \<open>Teams\<close>

text \<open>The names of the teams by ID: from the joined teams, then from the channels where a name is missing.\<close>

definition team_name_of :: "(string \<times> string) list \<Rightarrow> string \<Rightarrow> string" where
  "team_name_of names i = (case map_of names i of Some n \<Rightarrow> n | None \<Rightarrow> [])"

definition note_team :: "team \<Rightarrow> (string \<times> string) list \<Rightarrow> (string \<times> string) list" where
  "note_team t names =
     (let i = trim_space (tm_id t); n = trim_space (tm_name t) in
      if i = [] then names
      else if n \<noteq> [] then AList.update i n names
      else if map_of names i = None then AList.update i [] names else names)"

definition note_channel_team :: "channel_info \<Rightarrow> (string \<times> string) list \<Rightarrow> (string \<times> string) list" where
  "note_channel_team info names =
     (let i = trim_space (ci_team_id info); n = trim_space (ci_team info) in
      if i \<noteq> [] \<and> team_name_of names i = [] \<and> n \<noteq> [] then AList.update i n names else names)"

definition cache_team_names :: "(string \<times> string) list \<Rightarrow> disco_world \<Rightarrow> disco_world" where
  "cache_team_names names w =
     w\<lparr>dw_team_names := fold (\<lambda>(i, n) m. if trim_space n \<noteq> [] then AList.update i n m else m) names (dw_team_names w)\<rparr>"

definition sync_team_spaces :: "disco_env \<Rightarrow> channel_map \<Rightarrow> disco_world \<Rightarrow> disco_world" where
  "sync_team_spaces env m w =
     (let names1 = (case de_teams env of Some ts \<Rightarrow> fold note_team ts [] | None \<Rightarrow> []);
          names = fold (\<lambda>(_, info). note_channel_team info) m names1 in
      if names = [] then w
      else fold (\<lambda>(i, n). queue_disco (Chat_Resync (team_portal_id i, []) True
             (no_info\<lparr>nf_name := Some (if n = [] then ''Team'' else n), nf_type := Some Room_Space\<rparr>)))
             names (cache_team_names names w))"

text \<open>\<open>syncTeams\<close>; the map is empty when it could not be fetched, and then the one kept stays.\<close>

definition sync_teams :: "disco_env \<Rightarrow> disco_world \<Rightarrow> disco_world" where
  "sync_teams env w =
     (let m = (case de_channels env of Some m \<Rightarrow> m | None \<Rightarrow> []);
          w1 = (case de_channels env of Some m \<Rightarrow> w\<lparr>dw_channel_teams := m\<rparr> | None \<Rightarrow> w) in
      apply_structured_room_names env m (sync_team_spaces env m w1))"

section \<open>What a turn of discovery leaves alone\<close>

text \<open>Names of users depend on the profiles and the names Graph does not know.\<close>

definition name_base :: "disco_world \<Rightarrow> profile_table option \<times> (string \<times> gotime) list" where
  "name_base w = (pw_profiles (dw_poll w), name_lookup_miss (pw_caches (dw_poll w)))"

definition user_name :: "disco_env \<Rightarrow> string \<Rightarrow> disco_world \<Rightarrow> string" where
  "user_name env u w = fst (fst (lookup_user_display_name env u w))"

lemma user_name_eq:
  "user_name env u w =
     (if trim_space u = [] then []
      else case profile_name env (trim_space u) w of
             Some n \<Rightarrow> n
           | None \<Rightarrow> if may_ask_graph env (trim_space u) w
                     then (case graph_name env (trim_space u) of Some n \<Rightarrow> n | None \<Rightarrow> []) else [])"
  by (simp add: user_name_def lookup_user_display_name_def Let_def split: option.splits)

lemma name_parts_base:
  assumes "name_base w = name_base w'"
  shows "profile_name env u w = profile_name env u w'" "may_ask_graph env u w = may_ask_graph env u w'"
  using assms by (simp_all add: name_base_def profile_name_def may_ask_graph_def recent_name_lookup_miss_def)

lemma user_name_base: "name_base w = name_base w' \<Longrightarrow> user_name env u w = user_name env u w'"
  using name_parts_base [of w w' env "trim_space u"] by (simp add: user_name_eq)

lemma sync_ghost_name_base [simp]:
  "pw_profiles (sync_ghost_name env u n p) = pw_profiles p" "pw_caches (sync_ghost_name env u n p) = pw_caches p"
  "pw_cursors (sync_ghost_name env u n p) = pw_cursors p"
  by (simp_all add: sync_ghost_name_def Let_def split: sum.splits option.splits)

lemma track_known_user_base [simp]:
  "pw_profiles (track_known_user u p) = pw_profiles p" "pw_caches (track_known_user u p) = pw_caches p"
  "pw_cursors (track_known_user u p) = pw_cursors p"
  by (simp_all add: track_known_user_def)

lemma on_poll_simps [simp]:
  "dw_poll (on_poll f w) = f (dw_poll w)" "dw_pins (on_poll f w) = dw_pins w" "dw_mutes (on_poll f w) = dw_mutes w"
  "dw_unreads (on_poll f w) = dw_unreads w" "dw_events (on_poll f w) = dw_events w"
  by (simp_all add: on_poll_def)

text \<open>After the answer of Graph is stored, the profile gives the same name, or none as before.\<close>

lemma profile_upsert_get:
  assumes "trim_space u = u" "u \<noteq> []" "n \<noteq> []" "trim_space n = n"
  shows "profile_get ge (snd (profile_upsert pe db u n t)) v =
    (if trim_space v = u \<and> pe = None \<and> db \<noteq> None \<and> ge = None
     then Inr (Some (profile_scan u (n, Some (unix_milli t)))) else profile_get ge db v)"
  using assms by (auto simp: profile_get_def profile_upsert_def Let_def split: option.splits)

lemma lookup_keeps_names: "user_name env v (snd (lookup_user_display_name env u w)) = user_name env v w"
proof -
  let ?u = "trim_space u" and ?v = "trim_space v"
  consider (same) "snd (lookup_user_display_name env u w) = w"
    | (miss) "?u \<noteq> []" "profile_name env ?u w = None" "may_ask_graph env ?u w" "graph_name env ?u = Some []"
    | (found) n where "?u \<noteq> []" "profile_name env ?u w = None" "may_ask_graph env ?u w" "graph_name env ?u = Some n" "n \<noteq> []"
    by (fastforce simp: lookup_user_display_name_def Let_def split: option.splits if_splits)
  then show ?thesis
  proof cases
    case same
    then show ?thesis by simp
  next
    case miss
    let ?w = "on_poll (\<lambda>p. p\<lparr>pw_caches := record_name_lookup_miss (de_now env) ?u (pw_caches p)\<rparr>) w"
    have w: "snd (lookup_user_display_name env u w) = ?w" using miss by (simp add: lookup_user_display_name_def Let_def)
    have "profile_name env x ?w = profile_name env x w" for x by (simp add: profile_name_def)
    moreover have "x \<noteq> ?u \<Longrightarrow> may_ask_graph env x ?w = may_ask_graph env x w" for x
      by (simp add: may_ask_graph_def recent_name_lookup_miss_def record_name_lookup_miss_def update_conv')
    ultimately show ?thesis unfolding w using miss by (cases "?v = ?u") (simp_all add: user_name_eq)
  next
    case (found n)
    define w' where "w' = on_poll (\<lambda>p. p\<lparr>pw_profiles :=
      snd (profile_upsert (pe_profile_put_err (de_poll env)) (pw_profiles p) ?u n (de_now env))\<rparr>) w"
    have n: "trim_space n = n" using found(4) by (auto simp: graph_name_def split: sum.splits option.splits)
    have w: "snd (lookup_user_display_name env u w) = w'" using found by (simp add: lookup_user_display_name_def w'_def Let_def)
    have ask: "may_ask_graph env x w' = may_ask_graph env x w" for x by (simp add: may_ask_graph_def w'_def)
    have prof: "profile_name env x w' = (if trim_space x = ?u \<and> pe_profile_put_err (de_poll env) = None \<and>
        pw_profiles (dw_poll w) \<noteq> None \<and> pe_profile_get_err (de_poll env) = None
      then (if n = x then None else Some n) else profile_name env x w)" for x
      using found(5) n
      by (cases "pw_profiles (dw_poll w)") (simp_all add: profile_name_def profile_upsert_get found(1) profile_scan_def w'_def)
    show ?thesis unfolding w using found by (cases "?v = ?u") (simp_all add: user_name_eq ask prof)
  qed
qed

lemma resolve_keeps_names [simp]: "user_name env v (snd (resolve_user_display_name env u w)) = user_name env v w"
proof -
  have "name_base (snd (resolve_user_display_name env u w)) = name_base (snd (lookup_user_display_name env u w))"
    by (simp add: resolve_user_display_name_def name_base_def split: prod.splits)
  from user_name_base [OF this] show ?thesis by (simp add: lookup_keeps_names)
qed

lemma resolve_user_name [simp]: "fst (resolve_user_display_name env u w) = user_name env u w"
  by (simp add: resolve_user_display_name_def user_name_def split: prod.splits)

text \<open>Asking for a name changes profiles, misses and ghosts only.\<close>

lemma lookup_frame:
  "pw_cursors (dw_poll (snd (lookup_user_display_name env u w))) = pw_cursors (dw_poll w)"
  "chat_info_sigs (pw_caches (dw_poll (snd (lookup_user_display_name env u w)))) = chat_info_sigs (pw_caches (dw_poll w))"
  "dw_pins (snd (lookup_user_display_name env u w)) = dw_pins w" "dw_mutes (snd (lookup_user_display_name env u w)) = dw_mutes w"
  "dw_unreads (snd (lookup_user_display_name env u w)) = dw_unreads w" "dw_events (snd (lookup_user_display_name env u w)) = dw_events w"
  by (simp_all add: lookup_user_display_name_def record_name_lookup_miss_def Let_def split: option.splits)

lemma resolve_frame [simp]:
  "pw_cursors (dw_poll (snd (resolve_user_display_name env u w))) = pw_cursors (dw_poll w)"
  "chat_info_sigs (pw_caches (dw_poll (snd (resolve_user_display_name env u w)))) = chat_info_sigs (pw_caches (dw_poll w))"
  "dw_pins (snd (resolve_user_display_name env u w)) = dw_pins w" "dw_mutes (snd (resolve_user_display_name env u w)) = dw_mutes w"
  "dw_unreads (snd (resolve_user_display_name env u w)) = dw_unreads w" "dw_events (snd (resolve_user_display_name env u w)) = dw_events w"
  using lookup_frame [of env u w] by (simp_all add: resolve_user_display_name_def split_beta)

lemma put_rows_simps [simp]:
  "thread_rows (put_rows t w) = t" "name_base (put_rows t w) = name_base w" "pw_caches (dw_poll (put_rows t w)) = pw_caches (dw_poll w)"
  "dw_pins (put_rows t w) = dw_pins w" "dw_mutes (put_rows t w) = dw_mutes w"
  "dw_unreads (put_rows t w) = dw_unreads w" "dw_events (put_rows t w) = dw_events w"
  by (simp_all add: put_rows_def thread_rows_def name_base_def)

lemma fold_track [simp]:
  "pw_profiles (dw_poll (fold (\<lambda>i. on_poll (track_known_user (f i))) ids w)) = pw_profiles (dw_poll w)"
  "pw_caches (dw_poll (fold (\<lambda>i. on_poll (track_known_user (f i))) ids w)) = pw_caches (dw_poll w)"
  "pw_cursors (dw_poll (fold (\<lambda>i. on_poll (track_known_user (f i))) ids w)) = pw_cursors (dw_poll w)"
  "dw_pins (fold (\<lambda>i. on_poll (track_known_user (f i))) ids w) = dw_pins w"
  "dw_mutes (fold (\<lambda>i. on_poll (track_known_user (f i))) ids w) = dw_mutes w"
  "dw_unreads (fold (\<lambda>i. on_poll (track_known_user (f i))) ids w) = dw_unreads w"
  "dw_events (fold (\<lambda>i. on_poll (track_known_user (f i))) ids w) = dw_events w"
  by (induction ids arbitrary: w) simp_all

definition the_members :: "disco_env \<Rightarrow> remote_conversation \<Rightarrow> thread \<Rightarrow> member_map option" where
  "the_members env conv th = fst (members_of env conv th (undefined :: disco_world))"

lemma members_frame [simp]:
  "pw_profiles (dw_poll (snd (members_of env conv th w))) = pw_profiles (dw_poll w)"
  "pw_caches (dw_poll (snd (members_of env conv th w))) = pw_caches (dw_poll w)"
  "pw_cursors (dw_poll (snd (members_of env conv th w))) = pw_cursors (dw_poll w)"
  "dw_pins (snd (members_of env conv th w)) = dw_pins w" "dw_mutes (snd (members_of env conv th w)) = dw_mutes w"
  "dw_unreads (snd (members_of env conv th w)) = dw_unreads w" "dw_events (snd (members_of env conv th w)) = dw_events w"
  by (simp_all add: members_of_def build_chat_member_list_def dm_member_list_from_thread_id_def Let_def)

lemma members_fst [simp]: "fst (members_of env conv th w) = the_members env conv th"
  by (simp add: the_members_def members_of_def build_chat_member_list_def dm_member_list_from_thread_id_def Let_def)

definition pinned_in :: "disco_env \<Rightarrow> thread \<Rightarrow> bool option" where
  "pinned_in env th = map_option (\<lambda>m. let entries = (case m of Some kvs \<Rightarrow> map fst kvs | None \<Rightarrow> []) in
     td_conversation_id th \<in> set entries \<or> td_id th \<in> set entries) (de_pins env)"

definition pinned_now :: "disco_env \<Rightarrow> thread \<Rightarrow> disco_world \<Rightarrow> bool" where
  "pinned_now env th w = (case pinned_in env th of Some b \<Rightarrow> b | None \<Rightarrow> fst (tracker_get (dw_pins w) (td_id th)))"

lemma pin_state_eq:
  "chat_pin_state th (de_pins env) w =
     ((case pinned_in env th of Some b \<Rightarrow> fst (tracker_observe (dw_pins w) (td_id th) b) | None \<Rightarrow> None, pin_signature (pinned_now env th w)),
      w\<lparr>dw_pins := (case pinned_in env th of Some b \<Rightarrow> AList.update (td_id th) b (dw_pins w) | None \<Rightarrow> dw_pins w)\<rparr>)"
  by (cases "de_pins env") (simp_all add: chat_pin_state_def pinned_in_def pinned_now_def tracker_observe_def tracker_changed_eq Let_def)

lemma mute_state_eq:
  "chat_mute_state th props w =
     ((if fst (tracker_changed (dw_mutes w) (td_id th) (muted props)) then Some (muted props) else None,
       if muted props then CHR 0x00 # ''muted'' else []),
      w\<lparr>dw_mutes := AList.update (td_id th) (muted props) (dw_mutes w)\<rparr>)"
  by (simp add: chat_mute_state_def tracker_changed_eq)

section \<open>A turn of discovery\<close>

definition row_name :: "disco_env \<Rightarrow> string \<Rightarrow> disco_world \<Rightarrow> string option" where
  "row_name env i w = map_option ts_name (stored_row env i w)"

definition api_name :: "disco_env \<Rightarrow> thread \<Rightarrow> disco_world \<Rightarrow> string" where
  "api_name env th w = fst (listed_name env th w)"

lemma api_name_eq:
  "api_name env th w =
     (if td_is_one_to_one th \<and> td_room_name th = []
      then (if dm_counterpart (de_self env) (td_id th) = [] then []
            else user_name env (dm_counterpart (de_self env) (td_id th)) w)
      else td_room_name th)"
  by (simp add: api_name_def listed_name_def resolve_dm_name_from_thread_id_def Let_def)

lemma listed_name_frame [simp]:
  "user_name env v (snd (listed_name env th w)) = user_name env v w"
  "pw_cursors (dw_poll (snd (listed_name env th w))) = pw_cursors (dw_poll w)"
  "chat_info_sigs (pw_caches (dw_poll (snd (listed_name env th w)))) = chat_info_sigs (pw_caches (dw_poll w))"
  "dw_pins (snd (listed_name env th w)) = dw_pins w" "dw_mutes (snd (listed_name env th w)) = dw_mutes w"
  "dw_unreads (snd (listed_name env th w)) = dw_unreads w" "dw_events (snd (listed_name env th w)) = dw_events w"
  by (simp_all add: listed_name_def resolve_dm_name_from_thread_id_def Let_def)

lemma row_name_cong: "thread_rows w = thread_rows w' \<Longrightarrow> row_name env i w = row_name env i w'"
  by (simp add: row_name_def stored_row_def)

definition chosen_name :: "disco_env \<Rightarrow> thread \<Rightarrow> disco_world \<Rightarrow> string" where
  "chosen_name env th w =
     (case row_name env (td_id th) w of Some old \<Rightarrow> choose_stored_name (api_name env th w) old | None \<Rightarrow> api_name env th w)"

text \<open>Whether rows are saved at all.\<close>

definition rows_saved :: "disco_env \<Rightarrow> disco_world \<Rightarrow> bool" where
  "rows_saved env w \<longleftrightarrow> de_row_put_err env = None \<and> de_row_get_err env = None \<and> thread_rows w \<noteq> None"

lemma save_row_name:
  assumes "trim_space (ts_thread_id row) \<noteq> []" "trim_space (ts_conversation row) \<noteq> []" "trim_space i = i" "i \<noteq> []"
  shows "row_name env i (save_row env row w) =
    (if trim_space (ts_thread_id row) = i \<and> rows_saved env w then Some (ts_name row) else row_name env i w)"
  using assms
  by (auto simp: row_name_def stored_row_def save_row_def rows_saved_def thread_get_def thread_upsert_def Let_def
      split: option.splits)

lemma save_row_frame [simp]:
  "name_base (save_row env row w) = name_base w" "pw_caches (dw_poll (save_row env row w)) = pw_caches (dw_poll w)"
  "dw_pins (save_row env row w) = dw_pins w" "dw_mutes (save_row env row w) = dw_mutes w"
  "dw_unreads (save_row env row w) = dw_unreads w" "dw_events (save_row env row w) = dw_events w"
  by (simp_all add: save_row_def)

lemma save_row_profiles [simp]: "pw_profiles (dw_poll (save_row env row w)) = pw_profiles (dw_poll w)"
  by (simp add: save_row_def put_rows_def)

lemma save_row_rows: "thread_rows (save_row env row w) \<noteq> None \<longleftrightarrow> thread_rows w \<noteq> None"
  by (auto simp: save_row_def thread_upsert_def Let_def split: option.splits)

definition turn_info :: "disco_env \<Rightarrow> remote_conversation \<Rightarrow> thread \<Rightarrow> disco_world \<Rightarrow> chat_info" where
  "turn_info env conv th w =
     \<lparr>nf_name = (if is_generic_chat_name (chosen_name env th w) then None else Some (chosen_name env th w)),
      nf_topic = (if is_channel_thread (td_id th) then None else Some []),
      nf_type = Some (room_type_of (td_is_one_to_one th)), nf_members = the_members env conv th,
      nf_tag = (case pinned_in env th of Some b \<Rightarrow> fst (tracker_observe (dw_pins w) (td_id th) b) | None \<Rightarrow> None),
      nf_muted = (if fst (tracker_changed (dw_mutes w) (td_id th) (muted (rc_properties conv)))
                  then Some (muted (rc_properties conv)) else None), nf_parent = None\<rparr>"

definition turn_sig :: "disco_env \<Rightarrow> remote_conversation \<Rightarrow> thread \<Rightarrow> disco_world \<Rightarrow> string" where
  "turn_sig env conv th w =
     chat_info_signature (turn_info env conv th w) @ pin_signature (pinned_now env th w) @
     (if muted (rc_properties conv) then CHR 0x00 # ''muted'' else [])"

definition unread_events :: "disco_env \<Rightarrow> remote_conversation \<Rightarrow> thread \<Rightarrow> disco_world \<Rightarrow> disco_event list" where
  "unread_events env conv th w =
     (if fst (tracker_changed (dw_unreads w) (td_id th) (marked_unread (rc_properties conv)))
      then [Marked_Unread (portal_key (de_login env) (td_id th)) (own_member env (de_self env)) (marked_unread (rc_properties conv))]
      else [])"

definition resync_events :: "disco_env \<Rightarrow> remote_conversation \<Rightarrow> thread \<Rightarrow> disco_world \<Rightarrow> disco_event list" where
  "resync_events env conv th w =
     (if map_option sg_sig (map_of (chat_info_sigs (pw_caches (dw_poll w))) (td_id th)) = Some (turn_sig env conv th w) then []
      else [Chat_Resync (portal_key (de_login env) (td_id th)) True (turn_info env conv th w)])"

definition turn_row :: "disco_env \<Rightarrow> thread \<Rightarrow> disco_world \<Rightarrow> thread_state" where
  "turn_row env th w = \<lparr>ts_thread_id = td_id th, ts_conversation = td_conversation_id th,
     ts_one_to_one = td_is_one_to_one th, ts_name = chosen_name env th w, ts_last_seq = [], ts_last_ts = 0\<rparr>"

text \<open>The world a turn leaves, part by part.\<close>

lemma announce_simps:
  "dw_pins (announce env i sig info w) = dw_pins w" "dw_mutes (announce env i sig info w) = dw_mutes w"
  "dw_unreads (announce env i sig info w) = dw_unreads w" "name_base (announce env i sig info w) = name_base w"
  "pw_cursors (dw_poll (announce env i sig info w)) = pw_cursors (dw_poll w)"
  "chat_info_sigs (pw_caches (dw_poll (announce env i sig info w))) =
     AList.update i \<lparr>sg_sig = sig, sg_at = de_now env\<rparr> (chat_info_sigs (pw_caches (dw_poll w)))"
  "dw_events (announce env i sig info w) = dw_events w @
     (if map_option sg_sig (map_of (chat_info_sigs (pw_caches (dw_poll w))) i) = Some sig then []
      else [Chat_Resync (portal_key (de_login env) i) True info])"
  by (simp_all add: announce_def chat_info_changed_def sig_changed_def queue_disco_def name_base_def Let_def split: option.split)

lemma unread_simps:
  "dw_pins (queue_marked_unread env th props w) = dw_pins w" "dw_mutes (queue_marked_unread env th props w) = dw_mutes w"
  "dw_poll (queue_marked_unread env th props w) = dw_poll w"
  "dw_unreads (queue_marked_unread env th props w) = AList.update (td_id th) (marked_unread props) (dw_unreads w)"
  "dw_events (queue_marked_unread env th props w) = dw_events w @
     (if fst (tracker_changed (dw_unreads w) (td_id th) (marked_unread props))
      then [Marked_Unread (portal_key (de_login env) (td_id th)) (own_member env (de_self env)) (marked_unread props)] else [])"
  by (simp_all add: queue_marked_unread_def tracker_changed_eq queue_disco_def Let_def)

lemma listed_rows_same [simp]: "thread_rows (snd (listed_name env th w)) = thread_rows w"
  by (simp add: thread_rows_def)

lemma discover_thread_eq:
  defines "w2 \<equiv> \<lambda>env conv th w. snd (members_of env conv th (save_row env (turn_row env th w) (snd (listed_name env th w))))"
  shows "discover_thread env conv th w =
    (let v = w2 env conv th w;
         v1 = v\<lparr>dw_pins := (case pinned_in env th of Some b \<Rightarrow> AList.update (td_id th) b (dw_pins v) | None \<Rightarrow> dw_pins v)\<rparr>;
         v2 = v1\<lparr>dw_mutes := AList.update (td_id th) (muted (rc_properties conv)) (dw_mutes v1)\<rparr>;
         v3 = queue_marked_unread env th (rc_properties conv) v2
     in announce env (td_id th) (turn_sig env conv th w) (turn_info env conv th w)
          (v3\<lparr>dw_horizon_raw := AList.update (td_id th) (cp_horizon (rc_properties conv)) (dw_horizon_raw v3)\<rparr>))"
proof -
  have row: "stored_row env i (snd (listed_name env th w)) = stored_row env i w" for i
    by (simp add: stored_row_def)
  have name: "(case stored_row env (td_id th) w of Some old \<Rightarrow> choose_stored_name (fst (listed_name env th w)) (ts_name old)
      | None \<Rightarrow> fst (listed_name env th w)) = chosen_name env th w"
    by (simp add: chosen_name_def row_name_def api_name_def split: option.split)
  show ?thesis
    unfolding w2_def discover_thread_def split_beta Let_def row name pin_state_eq mute_state_eq fst_conv snd_conv
    by (cases "pinned_in env th"; cases "de_pins env") (simp_all add: turn_sig_def turn_info_def turn_row_def pinned_now_def cong: if_cong)
qed

lemma discover_thread_simps:
  "dw_pins (discover_thread env conv th w) =
     (case pinned_in env th of Some b \<Rightarrow> AList.update (td_id th) b (dw_pins w) | None \<Rightarrow> dw_pins w)"
  "dw_mutes (discover_thread env conv th w) = AList.update (td_id th) (muted (rc_properties conv)) (dw_mutes w)"
  "dw_unreads (discover_thread env conv th w) = AList.update (td_id th) (marked_unread (rc_properties conv)) (dw_unreads w)"
  "chat_info_sigs (pw_caches (dw_poll (discover_thread env conv th w))) =
     AList.update (td_id th) \<lparr>sg_sig = turn_sig env conv th w, sg_at = de_now env\<rparr> (chat_info_sigs (pw_caches (dw_poll w)))"
  "thread_rows (discover_thread env conv th w) = thread_rows (save_row env (turn_row env th w) w)"
  "user_name env v (discover_thread env conv th w) = user_name env v w"
  "dw_events (discover_thread env conv th w) = dw_events w @ unread_events env conv th w @ resync_events env conv th w"
proof -
  have base: "name_base (discover_thread env conv th w) = name_base (snd (listed_name env th w))"
    by (simp add: discover_thread_eq announce_simps Let_def) (simp add: name_base_def unread_simps)
  show "user_name env v (discover_thread env conv th w) = user_name env v w"
    using user_name_base [OF base] by simp
  show "dw_pins (discover_thread env conv th w) =
     (case pinned_in env th of Some b \<Rightarrow> AList.update (td_id th) b (dw_pins w) | None \<Rightarrow> dw_pins w)"
    by (simp add: discover_thread_eq announce_simps unread_simps Let_def split: option.split)
  show "thread_rows (discover_thread env conv th w) = thread_rows (save_row env (turn_row env th w) w)"
    by (simp add: discover_thread_eq announce_simps unread_simps thread_rows_def save_row_def put_rows_def Let_def)
qed (simp_all add: discover_thread_eq announce_simps unread_simps unread_events_def resync_events_def Let_def)

section \<open>A second pass\<close>

text \<open>What the choice of a thread's name reads.\<close>

lemma chosen_name_cong:
  assumes "row_name env (td_id th) w = row_name env (td_id th) w'" "\<And>u. user_name env u w = user_name env u w'"
  shows "chosen_name env th w = chosen_name env th w'"
  using assms by (simp add: chosen_name_def api_name_eq split: option.split)

lemma turn_sig_cong:
  assumes "chosen_name env th w = chosen_name env th w'" "pinned_now env th w = pinned_now env th w'"
  shows "turn_sig env conv th w = turn_sig env conv th w'"
  using assms by (simp add: turn_sig_def chat_info_signature_def turn_info_def)

definition thread_ok :: "thread \<Rightarrow> bool" where
  "thread_ok th \<longleftrightarrow> td_id th \<noteq> [] \<and> trim_space (td_id th) = td_id th \<and> trim_space (td_conversation_id th) \<noteq> []"

lemma discovered_ok: "discovered env conv = Some th \<Longrightarrow> thread_ok th"
  by (auto simp: discovered_def thread_ok_def normalize_for_self_def Let_def split: option.splits if_splits)

lemma turn_row_name:
  assumes "thread_ok th" "thread_ok th'"
  shows "row_name env (td_id th) (discover_thread env conv' th' w) =
    (if td_id th' = td_id th \<and> rows_saved env w then Some (chosen_name env th' w) else row_name env (td_id th) w)"
proof -
  have "row_name env (td_id th) (discover_thread env conv' th' w) = row_name env (td_id th) (save_row env (turn_row env th' w) w)"
    by (rule row_name_cong) (rule discover_thread_simps)
  also have "\<dots> = (if td_id th' = td_id th \<and> rows_saved env w then Some (chosen_name env th' w) else row_name env (td_id th) w)"
    using assms by (subst save_row_name) (auto simp: thread_ok_def turn_row_def)
  finally show ?thesis .
qed

lemma chosen_kept:
  assumes "thread_ok th" "thread_ok th'" "td_id th' = td_id th \<Longrightarrow> th' = th"
  shows "chosen_name env th (discover_thread env conv' th' w) = chosen_name env th w"
proof -
  have api: "api_name env th (discover_thread env conv' th' w) = api_name env th w"
    by (simp add: api_name_eq discover_thread_simps)
  show ?thesis
  proof (cases "td_id th' = td_id th \<and> rows_saved env w")
    case True
    then have "th' = th" using assms(3) by simp
    then have "row_name env (td_id th) (discover_thread env conv' th' w) = Some (chosen_name env th w)"
      using turn_row_name [OF assms(1,2), of env conv' w] True by simp
    then show ?thesis
      by (simp add: chosen_name_def api choose_stored_twice split: option.split)
  next
    case False
    then show ?thesis
      using turn_row_name [OF assms(1,2), of env conv' w] by (simp add: chosen_name_def api del: de_Morgan_conj split: option.split)
  qed
qed

lemma pinned_kept: "td_id th' = td_id th \<longrightarrow> th' = th \<Longrightarrow> pinned_now env th (discover_thread env conv' th' w) = pinned_now env th w"
  by (auto simp: pinned_now_def discover_thread_simps tracker_get_def update_conv' split: option.split)

text \<open>All a turn would announce of the thread is known already.\<close>

definition known_thread :: "disco_env \<Rightarrow> remote_conversation \<Rightarrow> thread \<Rightarrow> disco_world \<Rightarrow> bool" where
  "known_thread env conv th w \<longleftrightarrow>
     map_option sg_sig (map_of (chat_info_sigs (pw_caches (dw_poll w))) (td_id th)) = Some (turn_sig env conv th w) \<and>
     map_of (dw_unreads w) (td_id th) = Some (marked_unread (rc_properties conv))"

lemma known_after_turn:
  assumes "thread_ok th"
  shows "known_thread env conv th (discover_thread env conv th w)"
  using turn_sig_cong [OF chosen_kept [OF assms assms] pinned_kept]
  by (simp add: known_thread_def discover_thread_simps update_conv')

lemma known_kept:
  assumes "known_thread env conv th w" "thread_ok th" "thread_ok th'" "td_id th' = td_id th \<longrightarrow> th' = th \<and> conv' = conv"
  shows "known_thread env conv th (discover_thread env conv' th' w)"
proof -
  have "turn_sig env conv th (discover_thread env conv' th' w) = turn_sig env conv th w"
    using assms(4) by (intro turn_sig_cong chosen_kept [OF assms(2,3)] pinned_kept) auto
  then show ?thesis using assms(1,4) by (auto simp: known_thread_def discover_thread_simps update_conv')
qed

lemma known_quiet: "known_thread env conv th w \<Longrightarrow> dw_events (discover_thread env conv th w) = dw_events w"
  by (simp add: known_thread_def discover_thread_simps unread_events_def resync_events_def tracker_changed_eq)

text \<open>The same over the list of conversations.\<close>

definition turn_ids :: "disco_env \<Rightarrow> remote_conversation \<Rightarrow> string list" where
  "turn_ids env c = (case discovered env c of Some th \<Rightarrow> [td_id th] | None \<Rightarrow> [])"

definition distinct_threads :: "disco_env \<Rightarrow> remote_conversation list \<Rightarrow> bool" where
  "distinct_threads env convs \<longleftrightarrow> distinct (concat (map (turn_ids env) convs))"

definition all_known :: "disco_env \<Rightarrow> remote_conversation list \<Rightarrow> disco_world \<Rightarrow> bool" where
  "all_known env convs w \<longleftrightarrow> (\<forall>c \<in> set convs. \<forall>th. discovered env c = Some th \<longrightarrow> known_thread env c th w)"

lemma distinct_threads_same:
  assumes "distinct_threads env convs" "c \<in> set convs" "c' \<in> set convs" "discovered env c = Some th" "discovered env c' = Some th'"
    "td_id th' = td_id th"
  shows "th' = th \<and> c' = c"
proof -
  have ids: "turn_ids env c = [td_id th]" "turn_ids env c' = [td_id th]" using assms(4-6) by (simp_all add: turn_ids_def)
  have "distinct (concat (map f xs)) \<Longrightarrow> a \<in> set xs \<Longrightarrow> b \<in> set xs \<Longrightarrow> f a = [i] \<Longrightarrow> f b = [i] \<Longrightarrow> a = b"
    for f :: "remote_conversation \<Rightarrow> string list" and xs a b i
    by (induction xs) force+
  then have "c = c'" using assms(1-3) ids unfolding distinct_threads_def by blast
  then show ?thesis using assms(4,5) by simp
qed

lemma all_known_kept:
  assumes "distinct_threads env convs" "set cs \<subseteq> set convs" "set ds \<subseteq> set convs" "all_known env ds w"
  shows "all_known env (cs @ ds) (fold (discover_conversation env) cs w)"
  using assms(2,3,4)
proof (induction cs arbitrary: w ds rule: rev_induct)
  case (snoc c cs)
  let ?w = "fold (discover_conversation env) cs w"
  have IH: "all_known env (cs @ ds) ?w" using snoc by auto
  show ?case
  proof (cases "discovered env c")
    case None
    then have "discover_conversation env c v = v" for v by (simp add: discover_conversation_def)
    then show ?thesis using IH None by (auto simp: all_known_def)
  next
    case (Some th)
    have "known_thread env x y (discover_thread env c th ?w)"
      if "x \<in> set cs \<union> {c} \<union> set ds" "discovered env x = Some y" for x y
    proof (cases "x = c")
      case True
      then show ?thesis using that Some known_after_turn discovered_ok by fastforce
    next
      case False
      then have "known_thread env x y ?w" using IH that by (auto simp: all_known_def)
      moreover have "td_id th = td_id y \<longrightarrow> th = y \<and> c = x"
        using distinct_threads_same [OF assms(1), of x c y th] that snoc.prems Some by auto
      ultimately show ?thesis using known_kept discovered_ok [OF Some] discovered_ok [OF that(2)] by blast
    qed
    moreover have "discover_conversation env c v = discover_thread env c th v" for v using Some by (simp add: discover_conversation_def)
    ultimately show ?thesis by (auto simp: all_known_def)
  qed
qed simp

lemma all_known_quiet:
  assumes "distinct_threads env convs" "all_known env convs w" "set cs \<subseteq> set convs"
  shows "dw_events (fold (discover_conversation env) cs w) = dw_events w"
  using assms(3)
proof (induction cs rule: rev_induct)
  case (snoc c cs)
  let ?w = "fold (discover_conversation env) cs w"
  have "all_known env (cs @ convs) ?w" using all_known_kept [OF assms(1) _ subset_refl assms(2)] snoc.prems by simp
  then have "dw_events (discover_conversation env c ?w) = dw_events ?w"
    using snoc.prems known_quiet by (auto simp: discover_conversation_def all_known_def split: option.split)
  then show ?case using snoc by simp
qed simp

text \<open>C25: Discovery announces news only.  When a pass of discovery succeeds and its conversations are of
  different threads, a second pass over the same answers queues no event at all: no chat sync (the name, topic,
  type, members, pin and mute of every thread have been announced) and no change of an unread mark.  This holds for any table of threads, with failing
  queries too, and with any profiles and answers of Graph for the names of DMs.\<close>

theorem discovery_announces_once:
  assumes "refresh_threads env w = (None, w1)" and "de_convs env = Inr convs" and "distinct_threads env convs"
  shows "\<exists>w2. refresh_threads env w1 = (None, w2) \<and> dw_events w2 = dw_events w1"
proof -
  have tok: "pe_token_err (de_poll env) = None" using assms(1) by (simp add: refresh_threads_def split: option.splits)
  then have w1: "w1 = fold (discover_conversation env) convs (on_conn (note_teams_result None) w)"
    using assms(1,2) by (simp add: refresh_threads_def)
  have known: "all_known env convs w1"
    using all_known_kept [OF assms(3) subset_refl, of "[]"] w1 by (simp add: all_known_def)
  have same: "all_known env convs (on_conn f w1)" for f
  proof -
    have "name_base (on_conn f w1) = name_base w1" "thread_rows (on_conn f w1) = thread_rows w1"
      by (simp_all add: on_conn_def name_base_def thread_rows_def)
    then have "chosen_name env th (on_conn f w1) = chosen_name env th w1" for th
      by (intro chosen_name_cong row_name_cong user_name_base)
    moreover have "pinned_now env th (on_conn f w1) = pinned_now env th w1" for th
      by (simp add: pinned_now_def on_conn_def split: option.split)
    ultimately have "turn_sig env c th (on_conn f w1) = turn_sig env c th w1" for c th by (intro turn_sig_cong)
    then show ?thesis using known by (simp add: all_known_def known_thread_def on_conn_def)
  qed
  have "dw_events (fold (discover_conversation env) convs (on_conn (note_teams_result None) w1)) = dw_events w1"
    using all_known_quiet [OF assms(3) same subset_refl] by (simp add: on_conn_def)
  then show ?thesis using tok assms(2) by (simp add: refresh_threads_def)
qed

section \<open>Discovery and naming together\<close>

text \<open>A working database: no query fails, and the table is as the operations build it.\<close>

definition rows_work :: "disco_env \<Rightarrow> disco_world \<Rightarrow> bool" where
  "rows_work env w \<longleftrightarrow> de_row_put_err env = None \<and> de_row_get_err env = None \<and> de_rows_err env = None \<and>
     (\<exists>t. thread_rows w = Some t \<and> thread_table_ok t)"

lemma rows_work_saved: "rows_work env w \<Longrightarrow> rows_saved env w"
  by (auto simp: rows_work_def rows_saved_def)

lemma rows_work_save_row:
  assumes "rows_work env w"
  shows "rows_work env (save_row env row w)"
proof -
  obtain t where t: "thread_rows w = Some t" "thread_table_ok t" using assms by (auto simp: rows_work_def)
  obtain e db where u: "thread_upsert (de_row_put_err env) (Some t) (de_login env) (Some row) = (e, db)" by (metis surj_pair)
  show ?thesis using thread_upsert_ok [OF t(2) u] assms t u by (simp add: rows_work_def save_row_def)
qed

lemma rows_work_cong: "thread_rows w = thread_rows w' \<Longrightarrow> rows_work env w \<Longrightarrow> rows_work env w'"
  by (simp add: rows_work_def)

lemma stored_row_eq:
  assumes "rows_work env w" "trim_space i = i" "i \<noteq> []"
  shows "stored_row env i w = map_of (the (thread_rows w)) (de_login env, i)"
  using assms by (auto simp: rows_work_def stored_row_def thread_get_def)

lemma stored_row_cong: "thread_rows w = thread_rows w' \<Longrightarrow> stored_row env i w = stored_row env i w'"
  by (simp add: stored_row_def)

lemma stored_row_ok:
  assumes "rows_work env w" "stored_row env i w = Some r" "trim_space i = i" "i \<noteq> []"
  shows "ts_thread_id r = i \<and> trim_space (ts_conversation r) \<noteq> []"
  using assms stored_row_eq [OF assms(1,3,4)] by (auto simp: rows_work_def thread_table_ok_def row_ok_def dest!: map_of_SomeD)

text \<open>A saved row is read back with its name and kind; no other row changes.\<close>

lemma stored_row_save:
  assumes "rows_work env w" "trim_space (ts_thread_id row) = ts_thread_id row" "ts_thread_id row \<noteq> []"
    "trim_space (ts_conversation row) \<noteq> []"
  shows "\<exists>r. stored_row env (ts_thread_id row) (save_row env row w) = Some r \<and> ts_name r = ts_name row \<and>
    ts_one_to_one r = ts_one_to_one row"
    and "trim_space i = i \<Longrightarrow> i \<noteq> [] \<Longrightarrow> i \<noteq> ts_thread_id row \<Longrightarrow> stored_row env i (save_row env row w) = stored_row env i w"
  using assms
  by (auto simp: stored_row_def thread_get_def rows_work_def save_row_def thread_upsert_def Let_def split: option.splits)

text \<open>A turn of the naming pass names its row, and no other.\<close>

definition new_name :: "disco_env \<Rightarrow> channel_map \<Rightarrow> thread_state \<Rightarrow> disco_world \<Rightarrow> string" where
  "new_name env m r w =
     named (ts_one_to_one r) (ts_thread_id r)
       (if dm_counterpart (de_self env) (ts_thread_id r) = [] then []
        else user_name env (dm_counterpart (de_self env) (ts_thread_id r)) w)
       (dm_counterpart (de_self env) (ts_thread_id r)) m (ts_name r)"

lemma room_name_for_simps:
  "user_name env u (snd (room_name_for env r i m w)) = user_name env u w"
  "thread_rows (snd (room_name_for env r i m w)) = thread_rows w"
  "fst (room_name_for env r i m w) =
     structured_room_name (ts_one_to_one r) (ts_name r) i
       (if dm_counterpart (de_self env) i = [] then [] else user_name env (dm_counterpart (de_self env) i) w)
       (dm_counterpart (de_self env) i) m"
  by (auto simp: room_name_for_def resolve_dm_name_from_thread_id_def structured_room_name_def split_beta thread_rows_def Let_def)

lemma rename_room_rows:
  "thread_rows (rename_room env r n info w) = thread_rows (save_row env (r\<lparr>ts_name := n\<rparr>) w)"
  "name_base (rename_room env r n info w) = name_base w"
  by (simp_all add: rename_room_def queue_disco_def thread_rows_def save_row_def put_rows_def name_base_def)

text \<open>A turn saves the row under its new name, or leaves the rows as they are where the name is the same.\<close>

lemma structure_turn:
  assumes "trim_space (ts_thread_id r) = ts_thread_id r" "ts_thread_id r \<noteq> []"
  shows "thread_rows (structure_room_name env m r w) =
      (if new_name env m r w = ts_name r then thread_rows w
       else thread_rows (save_row env (r\<lparr>ts_name := new_name env m r w\<rparr>) w))"
    and "user_name env u (structure_room_name env m r w) = user_name env u w"
proof -
  have rows: "thread_rows w = thread_rows w' \<Longrightarrow> thread_rows (save_row env x w) = thread_rows (save_row env x w')" for x w w'
    by (simp add: save_row_def)
  show "thread_rows (structure_room_name env m r w) =
      (if new_name env m r w = ts_name r then thread_rows w
       else thread_rows (save_row env (r\<lparr>ts_name := new_name env m r w\<rparr>) w))"
    using assms rows [OF room_name_for_simps(2)]
    by (auto simp: structure_room_name_def rename_system_stream_def new_name_def named_def split_beta room_name_for_simps
        rename_room_rows Let_def)
  show "user_name env u (structure_room_name env m r w) = user_name env u w"
    using user_name_base [OF rename_room_rows(2)]
    by (auto simp: structure_room_name_def rename_system_stream_def split_beta room_name_for_simps Let_def)
qed

lemma structure_turn_works:
  assumes "rows_work env w" "trim_space (ts_thread_id r) = ts_thread_id r" "ts_thread_id r \<noteq> []"
  shows "rows_work env (structure_room_name env m r w)"
  using structure_turn(1) [OF assms(2,3), of env m w] rows_work_save_row [OF assms(1)] assms(1)
  by (simp add: rows_work_def split: if_splits)

lemma structure_turn_row:
  assumes "rows_work env w" "stored_row env (ts_thread_id r) w = Some r" "trim_space (ts_thread_id r) = ts_thread_id r" "ts_thread_id r \<noteq> []"
  shows "\<exists>r'. stored_row env (ts_thread_id r) (structure_room_name env m r w) = Some r' \<and>
      ts_name r' = new_name env m r w \<and> ts_one_to_one r' = ts_one_to_one r"
    and "trim_space i = i \<Longrightarrow> i \<noteq> [] \<Longrightarrow> i \<noteq> ts_thread_id r \<Longrightarrow>
      stored_row env i (structure_room_name env m r w) = stored_row env i w"
proof -
  note turn = structure_turn(1) [OF assms(3,4), of env m w]
  let ?n = "new_name env m r w"
  have conv: "trim_space (ts_conversation r) \<noteq> []" using stored_row_ok [OF assms] by simp
  have save: "\<exists>r'. stored_row env (ts_thread_id r) (save_row env (r\<lparr>ts_name := ?n\<rparr>) w) = Some r' \<and>
      ts_name r' = ?n \<and> ts_one_to_one r' = ts_one_to_one r"
    "trim_space i = i \<Longrightarrow> i \<noteq> [] \<Longrightarrow> i \<noteq> ts_thread_id r \<Longrightarrow>
      stored_row env i (save_row env (r\<lparr>ts_name := ?n\<rparr>) w) = stored_row env i w"
    using stored_row_save(1) [OF assms(1), of "r\<lparr>ts_name := ?n\<rparr>"]
      stored_row_save(2) [OF assms(1), of "r\<lparr>ts_name := ?n\<rparr>" i] assms(3,4) conv by simp_all
  show "\<exists>r'. stored_row env (ts_thread_id r) (structure_room_name env m r w) = Some r' \<and>
      ts_name r' = ?n \<and> ts_one_to_one r' = ts_one_to_one r"
    using save(1) assms(2) turn stored_row_cong [of "structure_room_name env m r w" w env "ts_thread_id r"]
      stored_row_cong [of "structure_room_name env m r w" "save_row env (r\<lparr>ts_name := ?n\<rparr>) w" env "ts_thread_id r"]
    by (cases "?n = ts_name r") auto
  show "trim_space i = i \<Longrightarrow> i \<noteq> [] \<Longrightarrow> i \<noteq> ts_thread_id r \<Longrightarrow>
      stored_row env i (structure_room_name env m r w) = stored_row env i w"
    using save(2) turn stored_row_cong [of "structure_room_name env m r w" w env i]
      stored_row_cong [of "structure_room_name env m r w" "save_row env (r\<lparr>ts_name := ?n\<rparr>) w" env i]
    by (cases "?n = ts_name r") auto
qed

definition rows_listed :: "disco_env \<Rightarrow> thread_state list \<Rightarrow> disco_world \<Rightarrow> bool" where
  "rows_listed env rs w \<longleftrightarrow> distinct (map ts_thread_id rs) \<and>
     (\<forall>r \<in> set rs. stored_row env (ts_thread_id r) w = Some r \<and> trim_space (ts_thread_id r) = ts_thread_id r \<and> ts_thread_id r \<noteq> [])"

lemma naming_pass_rows:
  assumes "rows_work env w" "rows_listed env rs w"
  shows "rows_work env (fold (structure_room_name env m) rs w) \<and>
    user_name env u (fold (structure_room_name env m) rs w) = user_name env u w \<and>
    (\<forall>r \<in> set rs. \<exists>r'. stored_row env (ts_thread_id r) (fold (structure_room_name env m) rs w) = Some r' \<and>
      ts_name r' = new_name env m r w \<and> ts_one_to_one r' = ts_one_to_one r) \<and>
    (\<forall>i. trim_space i = i \<longrightarrow> i \<noteq> [] \<longrightarrow> i \<notin> ts_thread_id ` set rs \<longrightarrow>
      stored_row env i (fold (structure_room_name env m) rs w) = stored_row env i w)"
  using assms
proof (induction rs arbitrary: w)
  case Nil
  then show ?case by simp
next
  case (Cons r rs)
  let ?w = "structure_room_name env m r w"
  have r: "stored_row env (ts_thread_id r) w = Some r" "trim_space (ts_thread_id r) = ts_thread_id r" "ts_thread_id r \<noteq> []"
    and "distinct (map ts_thread_id (r # rs))"
    using Cons.prems(2) unfolding rows_listed_def by simp_all
  then have other: "\<forall>x \<in> set rs. ts_thread_id x \<noteq> ts_thread_id r" by (simp add: image_iff) metis
  note turn = structure_turn_row [OF Cons.prems(1) r]
  have listed: "rows_listed env rs ?w"
    unfolding rows_listed_def
  proof (intro conjI ballI)
    show "distinct (map ts_thread_id rs)" using Cons.prems(2) by (simp add: rows_listed_def)
    fix x assume x: "x \<in> set rs"
    then show "trim_space (ts_thread_id x) = ts_thread_id x" "ts_thread_id x \<noteq> []"
      using Cons.prems(2) by (simp_all add: rows_listed_def)
    then show "stored_row env (ts_thread_id x) ?w = Some x"
      using turn(2) [of "ts_thread_id x"] other x Cons.prems(2) by (simp add: rows_listed_def)
  qed
  have names: "user_name env v ?w = user_name env v w" for v by (rule structure_turn(2) [OF r(2,3)])
  then have new: "new_name env m x ?w = new_name env m x w" for x by (simp add: new_name_def)
  note IH = Cons.IH [OF structure_turn_works [OF Cons.prems(1) r(2,3)] listed]
  have "ts_thread_id r \<notin> ts_thread_id ` set rs" using other by auto
  then have "stored_row env (ts_thread_id r) (fold (structure_room_name env m) rs ?w) = stored_row env (ts_thread_id r) ?w"
    using IH r(2,3) by blast
  then have "\<exists>r'. stored_row env (ts_thread_id r) (fold (structure_room_name env m) rs ?w) = Some r' \<and>
      ts_name r' = new_name env m r w \<and> ts_one_to_one r' = ts_one_to_one r"
    using turn(1) by simp
  then show ?case using IH turn(2) names new by auto
qed

lemma listed_rows_listed:
  assumes "rows_work env w"
  shows "\<exists>rs. listed_rows env w = Inr rs \<and> rows_listed env rs w \<and>
    (\<forall>i r. trim_space i = i \<longrightarrow> i \<noteq> [] \<longrightarrow> stored_row env i w = Some r \<longrightarrow> r \<in> set rs)"
proof -
  obtain t where t: "thread_rows w = Some t" "thread_table_ok t" and e: "de_rows_err env = None"
    using assms by (auto simp: rows_work_def)
  let ?rs = "map snd (filter (\<lambda>((l, _), _). l = de_login env) t)"
  have ok: "(k, r) \<in> set t \<Longrightarrow> row_ok k r" for k r using t(2) unfolding thread_table_ok_def by blast
  have map: "(k, r) \<in> set t \<Longrightarrow> map_of t k = Some r" for k r using t(2) unfolding thread_table_ok_def by simp
  have ids: "map ts_thread_id ?rs = map (snd \<circ> fst) (filter (\<lambda>((l, _), _). l = de_login env) t)"
    using ok by (auto simp: row_ok_def)
  have "distinct (map (snd \<circ> fst) (filter (\<lambda>((l, _), _). l = de_login env) t'))" if "distinct (map fst t')" for t' :: thread_table
    using that by (induction t') (force simp: image_iff)+
  then have "distinct (map (snd \<circ> fst) (filter (\<lambda>((l, _), _). l = de_login env) t))" using t(2) by (simp add: thread_table_ok_def)
  then have "distinct (map ts_thread_id ?rs)" unfolding ids .
  moreover have "stored_row env (ts_thread_id r) w = Some r \<and> trim_space (ts_thread_id r) = ts_thread_id r \<and> ts_thread_id r \<noteq> []"
    if r: "r \<in> set ?rs" for r
  proof -
    obtain i where "((de_login env, i), r) \<in> set t" using r by auto
    then show ?thesis using ok map stored_row_eq [OF assms] t(1) by (fastforce simp: row_ok_def)
  qed
  ultimately have "rows_listed env ?rs w" by (simp add: rows_listed_def)
  moreover have "r \<in> set ?rs" if "trim_space i = i" "i \<noteq> []" "stored_row env i w = Some r" for i r
    using that stored_row_eq [OF assms that(1,2)] t(1) by (force dest: map_of_SomeD)
  ultimately show ?thesis using t(1) e by (auto simp: listed_rows_def thread_list_for_login_def)
qed

text \<open>A turn of discovery, and a naming pass over all threads.\<close>

definition disco_cycle :: "disco_env \<Rightarrow> channel_map \<Rightarrow> remote_conversation \<Rightarrow> disco_world \<Rightarrow> disco_world" where
  "disco_cycle env m conv w = apply_structured_room_names env m (discover_conversation env conv w)"

lemma disco_row:
  assumes "rows_work env w" "thread_ok th"
  shows "rows_work env (discover_thread env conv th w)"
    and "\<exists>r. stored_row env (td_id th) (discover_thread env conv th w) = Some r \<and> ts_name r = chosen_name env th w \<and>
      ts_one_to_one r = td_is_one_to_one th"
proof -
  have rows: "thread_rows (discover_thread env conv th w) = thread_rows (save_row env (turn_row env th w) w)"
    by (rule discover_thread_simps)
  show "rows_work env (discover_thread env conv th w)"
    using rows_work_cong [OF rows [symmetric] rows_work_save_row [OF assms(1)]] .
  show "\<exists>r. stored_row env (td_id th) (discover_thread env conv th w) = Some r \<and> ts_name r = chosen_name env th w \<and>
      ts_one_to_one r = td_is_one_to_one th"
    using stored_row_save(1) [OF assms(1), of "turn_row env th w"] assms(2) stored_row_cong [OF rows]
    by (simp add: thread_ok_def turn_row_def)
qed

lemma naming_row:
  assumes "rows_work env w" "stored_row env i w = Some r" "trim_space i = i" "i \<noteq> []"
  shows "rows_work env (apply_structured_room_names env m w)"
    and "user_name env u (apply_structured_room_names env m w) = user_name env u w"
    and "\<exists>r'. stored_row env i (apply_structured_room_names env m w) = Some r' \<and> ts_name r' = new_name env m r w \<and>
      ts_one_to_one r' = ts_one_to_one r"
proof -
  obtain rs where rs: "listed_rows env w = Inr rs" "rows_listed env rs w" "r \<in> set rs"
    using listed_rows_listed [OF assms(1)] assms(2-4) by blast
  have i: "ts_thread_id r = i" using stored_row_ok [OF assms] by simp
  have w: "apply_structured_room_names env m w = fold (structure_room_name env m) rs w"
    by (simp add: apply_structured_room_names_def rs(1))
  note pass = naming_pass_rows [OF assms(1) rs(2), of m u]
  show "rows_work env (apply_structured_room_names env m w)"
    "user_name env u (apply_structured_room_names env m w) = user_name env u w"
    "\<exists>r'. stored_row env i (apply_structured_room_names env m w) = Some r' \<and> ts_name r' = new_name env m r w \<and>
      ts_one_to_one r' = ts_one_to_one r"
    unfolding w using pass rs(3) i by blast+
qed

lemma chosen_name_choice:
  "chosen_name env th w = choose_stored_name (api_name env th w) (case row_name env (td_id th) w of Some old \<Rightarrow> old | None \<Rightarrow> [])"
  by (simp add: chosen_name_def choose_stored_name_def split: option.split)

text \<open>The name a thread comes to: the chosen one, named by its kind.\<close>

definition settled_name :: "disco_env \<Rightarrow> channel_map \<Rightarrow> thread \<Rightarrow> disco_world \<Rightarrow> string" where
  "settled_name env m th w =
     (let other = dm_counterpart (de_self env) (td_id th) in
      named (td_is_one_to_one th) (td_id th) (if other = [] then [] else user_name env other w) other m (chosen_name env th w))"

text \<open>C26: The name of a room settles.  Take a client with a working thread table and a conversation whose names
  can settle: not a stream or channel that the conversation list and the naming pass name differently, no channel without a
  name, no DM with someone called "unknown user \<dots>".  After one turn of discovery and one naming pass over all threads the
  stored name is the chosen name in the form of its kind (DM, group, meeting, channel of a team, stream), whatever was stored
  before; and neither another turn of discovery nor another round of both changes it.\<close>

theorem stored_names_settle:
  assumes "rows_work env w" and "discovered env conv = Some th"
    and "settling (api_name env th w) (td_is_one_to_one th) (td_id th) m" and "w1 = disco_cycle env m conv w"
  shows "row_name env (td_id th) w1 = Some (settled_name env m th w) \<and>
    row_name env (td_id th) (discover_conversation env conv w1) = Some (settled_name env m th w) \<and>
    row_name env (td_id th) (disco_cycle env m conv w1) = Some (settled_name env m th w)"
proof -
  have th: "thread_ok th" by (rule discovered_ok [OF assms(2)])
  then have i: "trim_space (td_id th) = td_id th" "td_id th \<noteq> []" by (simp_all add: thread_ok_def)
  define other where "other = dm_counterpart (de_self env) (td_id th)"
  define oname where "oname = (if other = [] then [] else user_name env other w)"
  let ?n = "\<lambda>v. named (td_is_one_to_one th) (td_id th) oname other m v"
  have disc: "discover_conversation env conv v = discover_thread env conv th v" for v
    using assms(2) by (simp add: discover_conversation_def)
  text \<open>What one round does to the row, in a world with the same names of users.\<close>
  have round1: "rows_work env (discover_thread env conv th v) \<and> rows_work env (disco_cycle env m conv v) \<and>
      row_name env (td_id th) (discover_thread env conv th v) = Some (chosen_name env th v) \<and>
      row_name env (td_id th) (disco_cycle env m conv v) = Some (?n (chosen_name env th v)) \<and>
      (\<forall>u. user_name env u (disco_cycle env m conv v) = user_name env u w)"
    if v: "rows_work env v" "\<forall>u. user_name env u v = user_name env u w" for v
  proof -
    let ?d = "discover_thread env conv th v"
    have names: "user_name env u ?d = user_name env u w" for u using v(2) by (simp add: discover_thread_simps)
    obtain r where r: "stored_row env (td_id th) ?d = Some r" "ts_name r = chosen_name env th v" "ts_one_to_one r = td_is_one_to_one th"
      using disco_row(2) [OF v(1) th] by blast
    note naming = naming_row [OF disco_row(1) [OF v(1) th] r(1) i, where m = m]
    have "ts_thread_id r = td_id th" using stored_row_ok [OF disco_row(1) [OF v(1) th] r(1) i] by simp
    then have "new_name env m r ?d = ?n (chosen_name env th v)"
      using r names by (simp add: new_name_def other_def oname_def)
    then show ?thesis
      using naming names disco_row(1) [OF v(1) th] r by (auto simp: disco_cycle_def disc row_name_def)
  qed
  have first: "rows_work env w1" "\<forall>u. user_name env u w1 = user_name env u w" "row_name env (td_id th) w1 = Some (?n (chosen_name env th w))"
    using round1 [OF assms(1)] assms(4) by simp_all
  note second = round1 [OF first(1,2)]
  have api: "api_name env th w1 = api_name env th w" using first(2) by (simp add: api_name_eq)
  have settle: "choose_stored_name (api_name env th w) (?n (chosen_name env th w)) = ?n (chosen_name env th w) \<and>
      ?n (?n (chosen_name env th w)) = ?n (chosen_name env th w)"
    by (rule named_settles [OF assms(3) chosen_name_choice refl])
  then have "chosen_name env th w1 = ?n (chosen_name env th w)" by (simp add: chosen_name_def api first(3))
  moreover have "settled_name env m th w = ?n (chosen_name env th w)" by (simp add: settled_name_def other_def oname_def Let_def)
  ultimately show ?thesis using first(3) second settle disc by simp
qed

section \<open>Examples\<close>

text \<open>A group chat called Foo, discovered by a client that knows no thread.\<close>

definition example_group :: remote_conversation where
  "example_group = two_members\<lparr>rc_id := ''19:g@thread.v2'',
     rc_thread_properties := (rc_thread_properties two_members)\<lparr>tp_original_thread_id := ''19:g@thread.v2'', tp_topic := ''Foo''\<rparr>\<rparr>"

definition example_disco :: disco_env where
  "example_disco = \<lparr>de_poll = example_poll_env, de_now = 0, de_lower = to_lower, de_convs = Inr [example_group], de_pins = None,
     de_row_get_err = None, de_row_put_err = None, de_rows_err = None, de_graph_up = False, de_user = (\<lambda>_. Inr None),
     de_members = (\<lambda>_. Inr []), de_senders = (\<lambda>_. Inr []), de_teams = None, de_channels = None\<rparr>"

definition example_disco_world :: disco_world where
  "example_disco_world = \<lparr>dw_poll = example_poll_world, dw_pins = [], dw_mutes = [], dw_unreads = [], dw_horizon_raw = [],
     dw_team_names = [], dw_channel_teams = [], dw_events = []\<rparr>"

definition example_group_thread :: thread where
  "example_group_thread = \<lparr>td_id = ''19:g@thread.v2'', td_conversation_id = ''19:g@thread.v2'', td_type = [], td_created_at = [],
     td_is_creator = False, td_is_one_to_one = False, td_room_name = ''Foo''\<rparr>"

lemma example_discovered: "discovered example_disco example_group = Some example_group_thread"
proof -
  have "trim_space ''19:g@thread.v2'' = ''19:g@thread.v2''" "trim_space ''Foo'' = ''Foo''"
    by (simp_all add: trim_space_plain plain_ends_def)
  moreover have "\<not> is_non_pollable_system_stream ''19:g@thread.v2''" by code_simp
  ultimately show ?thesis
    by (simp add: discovered_def normalize_for_self_def example_disco_def example_group_def example_group_thread_def two_members_def
        is_likely_one_to_one_def resolve_thread_name_def resolve_room_name_def Let_def)
qed

theorem discovery_announces_once_witness:
  "\<exists>w1 w2. refresh_threads example_disco example_disco_world = (None, w1) \<and> dw_events w1 \<noteq> [] \<and>
     refresh_threads example_disco w1 = (None, w2) \<and> dw_events w2 = dw_events w1"
proof -
  have convs: "de_convs example_disco = Inr [example_group]" and tok: "pe_token_err (de_poll example_disco) = None"
    by (simp_all add: example_disco_def example_poll_env_def)
  have w1: "refresh_threads example_disco example_disco_world =
      (None, discover_thread example_disco example_group example_group_thread (on_conn (note_teams_result None) example_disco_world))"
    by (simp add: refresh_threads_def convs tok discover_conversation_def example_discovered)
  moreover have "dw_events (discover_thread example_disco example_group example_group_thread
      (on_conn (note_teams_result None) example_disco_world)) \<noteq> []"
    by (simp add: discover_thread_simps resync_events_def on_conn_def example_disco_world_def example_poll_world_def no_caches_def)
  moreover have "distinct_threads example_disco [example_group]"
    by (simp add: distinct_threads_def turn_ids_def example_discovered)
  ultimately show ?thesis using discovery_announces_once [OF w1 convs] by blast
qed

theorem stored_names_settle_witness:
  "row_name example_disco ''19:g@thread.v2'' (disco_cycle example_disco [] example_group example_disco_world) = Some ''Group: Foo'' \<and>
   row_name example_disco ''19:g@thread.v2''
     (disco_cycle example_disco [] example_group (disco_cycle example_disco [] example_group example_disco_world)) = Some ''Group: Foo''"
proof -
  have rows: "rows_work example_disco example_disco_world"
    by (simp add: rows_work_def example_disco_def example_disco_world_def example_poll_world_def thread_rows_def cursor_start_def
        thread_table_ok_def)
  have kinds: "\<not> sublist ''teamsstream_'' ''19:g@thread.v2''" "\<not> sublist ''meeting_'' ''19:g@thread.v2''"
    "\<not> is_channel_thread ''19:g@thread.v2''" "\<not> has_type_prefix ''Foo''" by code_simp+
  have old: "row_name example_disco ''19:g@thread.v2'' example_disco_world = None"
    using stored_row_eq [OF rows, of "''19:g@thread.v2''"]
    by (simp add: row_name_def example_disco_world_def example_poll_world_def thread_rows_def cursor_start_def
        trim_space_plain plain_ends_def)
  have api: "api_name example_disco example_group_thread example_disco_world = ''Foo''"
    by (simp add: api_name_eq example_group_thread_def)
  have "settled_name example_disco [] example_group_thread example_disco_world = ''Group: Foo''"
    using old api kinds
    by (simp add: settled_name_def chosen_name_def named_def structured_room_name_def base_name_def example_group_thread_def Let_def)
  moreover have "settling (api_name example_disco example_group_thread example_disco_world) False ''19:g@thread.v2'' []"
    using kinds by (simp add: settling_def)
  ultimately show ?thesis
    using stored_names_settle [OF rows example_discovered, of "[]"] by (simp add: example_group_thread_def)
qed

end
