(* ===== verification/Emoji_Reactions.thy ===== *)
theory Emoji_Reactions
  imports Go_Errors "HOL-Library.AList" "HOL-Library.List_Lexorder" "HOL-Library.Char_ord"
begin

text \<open>
  The emoji of reactions (reactions.go): the key Teams has for an emoji, and the emoji a key stands for.

  The two generated tables of emoji/ and \<open>variationselector.FullyQualify\<close>, of another module, are
  parameters; the hand-written table, the aliases and every look-up are the code's.  Text is bytes of
  UTF-8.  The code inverts the hand-written table in the order a Go map iterates in, so the choice it makes
  there is proved not to depend on that order.
\<close>

section \<open>Tables\<close>

record emoji_tables =
  em_qualify :: "string \<Rightarrow> string"
  em_pairs :: "(string \<times> string) list"
  em_names :: "(string \<times> string) list"

text \<open>Of several pairs with one key the last counts, of several keys with one emoji the first.\<close>

definition teams_key_to_emoji :: "emoji_tables \<Rightarrow> string \<rightharpoonup> string" where
  "teams_key_to_emoji tb = map_of (rev (map (\<lambda>(k, e). (k, em_qualify tb e)) (em_pairs tb)))"

definition teams_emoji_to_key :: "emoji_tables \<Rightarrow> string \<rightharpoonup> string" where
  "teams_emoji_to_key tb = map_of (map (\<lambda>(k, e). (em_qualify tb e, k)) (em_pairs tb))"

definition unicode_name_to_emoji :: "emoji_tables \<Rightarrow> string \<rightharpoonup> string" where
  "unicode_name_to_emoji tb = map_of (map (\<lambda>(n, e). (n, em_qualify tb e)) (em_names tb))"

definition emotion_key_aliases :: "(string \<times> string) list" where
  "emotion_key_aliases =
    [(''yes'', [CHR 0xF0, CHR 0x9F, CHR 0x91, CHR 0x8D]),
     (''no'', [CHR 0xF0, CHR 0x9F, CHR 0x91, CHR 0x8E]),
     (''handsinair'', [CHR 0xF0, CHR 0x9F, CHR 0x99, CHR 0x8C]),
     (''laughcry'', [CHR 0xF0, CHR 0x9F, CHR 0x98, CHR 0x82]),
     (''fistbump'', [CHR 0xF0, CHR 0x9F, CHR 0x91, CHR 0x8A])]"

text \<open>The hand-written table, as written: an entry replaces an earlier one for the same emoji.\<close>

definition emotion_table :: "(string \<times> string) list" where
  "emotion_table =
    [([CHR 0xF0, CHR 0x9F, CHR 0x91, CHR 0x8D, CHR 0xF0, CHR 0x9F, CHR 0x8F, CHR 0xBB], ''like''),
     ([CHR 0xF0, CHR 0x9F, CHR 0x91, CHR 0x8C, CHR 0xF0, CHR 0x9F, CHR 0x8F, CHR 0xBB], ''ok''),
     ([CHR 0xF0, CHR 0x9F, CHR 0x94, CHR 0xA5], ''fire''),
     ([CHR 0xF0, CHR 0x9F, CHR 0x92, CHR 0x99], ''heartblue''),
     ([CHR 0xF0, CHR 0x9F, CHR 0x99, CHR 0x82], ''smile''),
     ([CHR 0xF0, CHR 0x9F, CHR 0x98, CHR 0x84], ''laugh''),
     ([CHR 0xE2, CHR 0x9D, CHR 0xA4, CHR 0xEF, CHR 0xB8, CHR 0x8F], ''heart''),
     ([CHR 0xF0, CHR 0x9F, CHR 0x98, CHR 0x98], ''kiss''),
     ([CHR 0xE2, CHR 0x98, CHR 0xB9, CHR 0xEF, CHR 0xB8, CHR 0x8F], ''sad''),
     ([CHR 0xF0, CHR 0x9F, CHR 0x98, CHR 0x9B], ''tongueout''),
     ([CHR 0xF0, CHR 0x9F, CHR 0x98, CHR 0x89], ''wink''),
     ([CHR 0xF0, CHR 0x9F, CHR 0x98, CHR 0xA2], ''cry''),
     ([CHR 0xF0, CHR 0x9F, CHR 0x98, CHR 0x8D], ''inlove''),
     ([CHR 0xF0, CHR 0x9F, CHR 0xA4, CHR 0x97], ''hug''),
     ([CHR 0xF0, CHR 0x9F, CHR 0x98, CHR 0x82], ''cwl''),
     ([CHR 0xF0, CHR 0x9F, CHR 0x92, CHR 0x8B], ''lips''),
     ([CHR 0xF0, CHR 0x9F, CHR 0x98, CHR 0x8A], ''blush''),
     ([CHR 0xF0, CHR 0x9F, CHR 0x98, CHR 0xAE], ''surprised''),
     ([CHR 0xF0, CHR 0x9F, CHR 0x90, CHR 0xA7], ''penguin''),
     ([CHR 0xF0, CHR 0x9F, CHR 0x91, CHR 0x8D], ''like''),
     ([CHR 0xF0, CHR 0x9F, CHR 0x98, CHR 0x8E], ''cool''),
     ([CHR 0xF0, CHR 0x9F, CHR 0xA4, CHR 0xA3], ''rofl''),
     ([CHR 0xF0, CHR 0x9F, CHR 0x90, CHR 0xB1], ''cat''),
     ([CHR 0xF0, CHR 0x9F, CHR 0x90, CHR 0xB5], ''monkey''),
     ([CHR 0xF0, CHR 0x9F, CHR 0x91, CHR 0x8B], ''hi''),
     ([CHR 0xE2, CHR 0x9D, CHR 0x84, CHR 0xEF, CHR 0xB8, CHR 0x8F], ''snowangel''),
     ([CHR 0xF0, CHR 0x9F, CHR 0x8C, CHR 0xB8], ''flower''),
     ([CHR 0xF0, CHR 0x9F, CHR 0x98, CHR 0x81], ''giggle''),
     ([CHR 0xF0, CHR 0x9F, CHR 0x98, CHR 0x88], ''devil''),
     ([CHR 0xF0, CHR 0x9F, CHR 0xA5, CHR 0xB3], ''party''),
     ([CHR 0xF0, CHR 0x9F, CHR 0x98, CHR 0x9F], ''worry''),
     ([CHR 0xF0, CHR 0x9F, CHR 0x8D, CHR 0xBE], ''champagne''),
     ([CHR 0xE2, CHR 0x98, CHR 0x80, CHR 0xEF, CHR 0xB8, CHR 0x8F], ''sun''),
     ([CHR 0xE2, CHR 0xAD, CHR 0x90], ''star''),
     ([CHR 0xF0, CHR 0x9F, CHR 0x90, CHR 0xBB, CHR 0xE2, CHR 0x80, CHR 0x8D, CHR 0xE2, CHR 0x9D, CHR 0x84, CHR 0xEF, CHR 0xB8, CHR 0x8F], ''polarbear''),
     ([CHR 0xF0, CHR 0x9F, CHR 0x99, CHR 0x84], ''eyeroll''),
     ([CHR 0xF0, CHR 0x9F, CHR 0x98, CHR 0xB6], ''speechless''),
     ([CHR 0xF0, CHR 0x9F, CHR 0xA4, CHR 0x94], ''wonder''),
     ([CHR 0xF0, CHR 0x9F, CHR 0x98, CHR 0xA0], ''angry''),
     ([CHR 0xF0, CHR 0x9F, CHR 0xA4, CHR 0xAE], ''puke''),
     ([CHR 0xF0, CHR 0x9F, CHR 0xA4, CHR 0xA6], ''facepalm''),
     ([CHR 0xF0, CHR 0x9F, CHR 0x98, CHR 0x93], ''sweat''),
     ([CHR 0xF0, CHR 0x9F, CHR 0xA4, CHR 0xA1], ''holidayspirit''),
     ([CHR 0xF0, CHR 0x9F, CHR 0x98, CHR 0xB4], ''sleepy''),
     ([CHR 0xF0, CHR 0x9F, CHR 0x99, CHR 0x87], ''bow''),
     ([CHR 0xF0, CHR 0x9F, CHR 0x92, CHR 0x84], ''makeup''),
     ([CHR 0xF0, CHR 0x9F, CHR 0x92, CHR 0xB5], ''cash''),
     ([CHR 0xF0, CHR 0x9F, CHR 0xA4, CHR 0x90], ''lipssealed''),
     ([CHR 0xF0, CHR 0x9F, CHR 0xA5, CHR 0xB6], ''shivering''),
     ([CHR 0xF0, CHR 0x9F, CHR 0x8E, CHR 0x82], ''cake''),
     ([CHR 0xF0, CHR 0x9F, CHR 0xA4, CHR 0x95], ''headbang''),
     ([CHR 0xF0, CHR 0x9F, CHR 0x92, CHR 0x83], ''dance''),
     ([CHR 0xF0, CHR 0x9F, CHR 0x98, CHR 0xB3], ''wasntme''),
     ([CHR 0xF0, CHR 0x9F, CHR 0xA4, CHR 0xA2], ''hungover''),
     ([CHR 0xF0, CHR 0x9F, CHR 0xA5, CHR 0xB1], ''yawn''),
     ([CHR 0xF0, CHR 0x9F, CHR 0x8E, CHR 0x81], ''gift''),
     ([CHR 0xF0, CHR 0x9F, CHR 0x98, CHR 0x87], ''angel''),
     ([CHR 0xF0, CHR 0x9F, CHR 0x8E, CHR 0x84], ''xmastree''),
     ([CHR 0xF0, CHR 0x9F, CHR 0x92, CHR 0x94], ''brokenheart''),
     ([CHR 0xF0, CHR 0x9F, CHR 0xA4, CHR 0x94], ''think''),
     ([CHR 0xF0, CHR 0x9F, CHR 0x91, CHR 0x8F], ''clap''),
     ([CHR 0xF0, CHR 0x9F, CHR 0x91, CHR 0x8A], ''punch''),
     ([CHR 0xF0, CHR 0x9F, CHR 0x98, CHR 0x92], ''envy''),
     ([CHR 0xF0, CHR 0x9F, CHR 0xA4, CHR 0x9D], ''handshake''),
     ([CHR 0xF0, CHR 0x9F, CHR 0x99, CHR 0x82], ''nod''),
     ([CHR 0xF0, CHR 0x9F, CHR 0xA4, CHR 0x93], ''nerdy''),
     ([CHR 0xF0, CHR 0x9F, CHR 0x96, CHR 0xA4], ''emo''),
     ([CHR 0xF0, CHR 0x9F, CHR 0x92, CHR 0xAA], ''muscle''),
     ([CHR 0xF0, CHR 0x9F, CHR 0x98, CHR 0x8B], ''mmm''),
     ([CHR 0xF0, CHR 0x9F, CHR 0x99, CHR 0x8C], ''highfive''),
     ([CHR 0xF0, CHR 0x9F, CHR 0xA6, CHR 0x83], ''turkey''),
     ([CHR 0xF0, CHR 0x9F, CHR 0x93, CHR 0x9E], ''call''),
     ([CHR 0xF0, CHR 0x9F, CHR 0xA7, CHR 0x94], ''movember''),
     ([CHR 0xF0, CHR 0x9F, CHR 0x90, CHR 0xB6], ''dog''),
     ([CHR 0xE2, CHR 0x98, CHR 0x95], ''coffee''),
     ([CHR 0xF0, CHR 0x9F, CHR 0x91, CHR 0x89], ''poke''),
     ([CHR 0xF0, CHR 0x9F, CHR 0xA4, CHR 0xAC], ''swear''),
     ([CHR 0xF0, CHR 0x9F, CHR 0x98, CHR 0x91], ''donttalktome''),
     ([CHR 0xF0, CHR 0x9F, CHR 0xA4, CHR 0x9E], ''fingerscrossed''),
     ([CHR 0xF0, CHR 0x9F, CHR 0x8C, CHR 0x88], ''rainbow''),
     ([CHR 0xF0, CHR 0x9F, CHR 0x8E, CHR 0xA7], ''headphones''),
     ([CHR 0xE2, CHR 0x8F, CHR 0xB3], ''waiting''),
     ([CHR 0xF0, CHR 0x9F, CHR 0x8E, CHR 0x89], ''festiveparty''),
     ([CHR 0xF0, CHR 0x9F, CHR 0xA5, CHR 0xB7], ''bandit''),
     ([CHR 0xF0, CHR 0x9F, CHR 0x90, CHR 0xBF, CHR 0xEF, CHR 0xB8, CHR 0x8F], ''heidy''),
     ([CHR 0xF0, CHR 0x9F, CHR 0x8D, CHR 0xBA], ''beer''),
     ([CHR 0xF0, CHR 0x9F, CHR 0xA4, CHR 0xA6, CHR 0xE2, CHR 0x80, CHR 0x8D, CHR 0xE2, CHR 0x99, CHR 0x82, CHR 0xEF, CHR 0xB8, CHR 0x8F], ''doh''),
     ([CHR 0xF0, CHR 0x9F, CHR 0x92, CHR 0xA3], ''bomb''),
     ([CHR 0xF0, CHR 0x9F, CHR 0x98, CHR 0x80], ''happy''),
     ([CHR 0xF0, CHR 0x9F, CHR 0xA5, CHR 0xB7], ''ninja'')]"

text \<open>The entries of the Go map, each emoji once.\<close>

definition emotion_entries :: "emoji_tables \<Rightarrow> (string \<times> string) list" where
  "emotion_entries tb = AList.clearjunk (rev (map (\<lambda>(e, k). (em_qualify tb e, k)) emotion_table))"

definition emoji_to_emotion_key :: "emoji_tables \<Rightarrow> string \<rightharpoonup> string" where
  "emoji_to_emotion_key tb = map_of (emotion_entries tb)"

section \<open>Skin tones\<close>

definition skin_tone_suffixes :: "(string \<times> string) list" where
  "skin_tone_suffixes =
    [(''tone1'', [CHR 0xF0, CHR 0x9F, CHR 0x8F, CHR 0xBB]),
     (''tone2'', [CHR 0xF0, CHR 0x9F, CHR 0x8F, CHR 0xBC]),
     (''tone3'', [CHR 0xF0, CHR 0x9F, CHR 0x8F, CHR 0xBD]),
     (''tone4'', [CHR 0xF0, CHR 0x9F, CHR 0x8F, CHR 0xBE]),
     (''tone5'', [CHR 0xF0, CHR 0x9F, CHR 0x8F, CHR 0xBF])]"

text \<open>\<open>strings.LastIndex\<close>.\<close>

fun last_index :: "string \<Rightarrow> string \<Rightarrow> nat option" where
  "last_index sub [] = (if sub = [] then Some 0 else None)"
| "last_index sub (c # s) =
     (case last_index sub s of
        Some i \<Rightarrow> Some (Suc i)
      | None \<Rightarrow> if prefix sub (c # s) then Some 0 else None)"

definition split_skin_tone :: "string \<Rightarrow> string \<times> string" where
  "split_skin_tone key =
     (case last_index ''-tone'' key of
        None \<Rightarrow> (key, [])
      | Some i \<Rightarrow>
          if i = 0 then (key, [])
          else case map_of skin_tone_suffixes (drop (Suc i) key) of
                 Some tone \<Rightarrow> (take i key, tone)
               | None \<Rightarrow> (key, []))"

definition tone_at :: "string \<Rightarrow> bool" where
  "tone_at s \<longleftrightarrow> (\<exists>(_, t) \<in> set skin_tone_suffixes. prefix t s)"

fun strip_skin_tones :: "string \<Rightarrow> string" where
  "strip_skin_tones [] = []"
| "strip_skin_tones (c # s) =
     (if tone_at (c # s) then strip_skin_tones (drop 3 s) else c # strip_skin_tones s)"

fun has_skin_tone_modifier :: "string \<Rightarrow> bool" where
  "has_skin_tone_modifier [] = False"
| "has_skin_tone_modifier (c # s) = (tone_at (c # s) \<or> has_skin_tone_modifier s)"

section \<open>The inverse of the hand-written table\<close>

text \<open>One turn of the loop, for the emoji of one key.\<close>

definition pick_step :: "string \<Rightarrow> string option \<Rightarrow> string option" where
  "pick_step emoji best =
     (case best of
        None \<Rightarrow> Some emoji
      | Some b \<Rightarrow>
          let better = (has_skin_tone_modifier b \<and> \<not> has_skin_tone_modifier emoji);
              same = (has_skin_tone_modifier b = has_skin_tone_modifier emoji)
          in if better \<or> same \<and> emoji < b then Some emoji else Some b)"

definition pick_emoji :: "string list \<Rightarrow> string option" where
  "pick_emoji es = fold pick_step es None"

definition emotion_key_to_emoji :: "emoji_tables \<Rightarrow> string \<rightharpoonup> string" where
  "emotion_key_to_emoji tb key = pick_emoji (map fst (filter (\<lambda>(_, k). k = key) (emotion_entries tb)))"

section \<open>Keys that carry code points\<close>

definition hex_val :: "char \<Rightarrow> nat option" where
  "hex_val c =
     (let n = (of_char c :: nat) in
      if 48 \<le> n \<and> n \<le> 57 then Some (n - 48)
      else if 97 \<le> n \<and> n \<le> 102 then Some (n - 87)
      else if 65 \<le> n \<and> n \<le> 70 then Some (n - 55)
      else None)"

fun hex_digits :: "nat \<Rightarrow> string \<Rightarrow> nat option" where
  "hex_digits acc [] = Some acc"
| "hex_digits acc (c # s) = (case hex_val c of Some d \<Rightarrow> hex_digits (16 * acc + d) s | None \<Rightarrow> None)"

text \<open>A rune as UTF-8; half of a surrogate pair becomes U+FFFD.\<close>

definition utf8 :: "nat \<Rightarrow> string" where
  "utf8 n =
     (if n < 0x80 then bs [n]
      else if n < 0x800 then bs [0xC0 + n div 64, 0x80 + n mod 64]
      else if 0xD800 \<le> n \<and> n < 0xE000 then bs [0xEF, 0xBF, 0xBD]
      else if n < 0x10000 then bs [0xE0 + n div 4096, 0x80 + n div 64 mod 64, 0x80 + n mod 64]
      else bs [0xF0 + n div 262144, 0x80 + n div 4096 mod 64, 0x80 + n div 64 mod 64, 0x80 + n mod 64])"

fun code_points :: "string list \<Rightarrow> nat list" where
  "code_points [] = []"
| "code_points (p # ps) =
     (if length p < 2 \<or> 6 < length p then []
      else case hex_digits 0 p of
             Some n \<Rightarrow> if n < 0x20 \<or> 0x10FFFF < n then [] else n # code_points ps
           | None \<Rightarrow> [])"

definition emoji_from_codepoint_key :: "emoji_tables \<Rightarrow> string \<Rightarrow> string option" where
  "emoji_from_codepoint_key tb key =
     (let parts = split_on CHR ''_'' key; runes = code_points parts in
      if runes = [] \<or> length runes = length parts then None
      else Some (em_qualify tb (concat (map utf8 runes))))"

section \<open>Both directions\<close>

definition is_unicode_emoji :: "string \<Rightarrow> bool" where
  "is_unicode_emoji s0 =
     (let s = trim_space s0 in
      s \<noteq> [] \<and> length s \<le> 20 \<and> list_all (\<lambda>c. 0x80 \<le> (of_char c :: nat) \<or> c = CHR '' '') s)"

definition map_emoji_to_emotion_key :: "emoji_tables \<Rightarrow> string \<Rightarrow> string option" where
  "map_emoji_to_emotion_key tb emoji =
     (if trim_space emoji = [] then None
      else let normalized = em_qualify tb emoji;
               fallback = (case teams_emoji_to_key tb normalized of
                             Some key \<Rightarrow> Some key
                           | None \<Rightarrow> if is_unicode_emoji normalized then Some normalized else None)
           in case emoji_to_emotion_key tb normalized of
                None \<Rightarrow> fallback
              | Some key \<Rightarrow>
                  (let drawn = (case teams_key_to_emoji tb key of Some e \<Rightarrow> e | None \<Rightarrow> []) in
                   if drawn = [] \<or> drawn = strip_skin_tones normalized then Some key else fallback))"

definition map_emotion_key_to_emoji :: "emoji_tables \<Rightarrow> string \<Rightarrow> string option" where
  "map_emotion_key_to_emoji tb key0 =
     (let key = trim_space key0 in
      if key = [] then None
      else case split_skin_tone key of (base, tone) \<Rightarrow>
        (case teams_key_to_emoji tb base of
           Some e \<Rightarrow> Some (e @ tone)
         | None \<Rightarrow>
        (case emotion_key_to_emoji tb base of
           Some e \<Rightarrow> Some (e @ tone)
         | None \<Rightarrow>
        (case map_of emotion_key_aliases base of
           Some e \<Rightarrow> Some (em_qualify tb e @ tone)
         | None \<Rightarrow>
        (case emoji_from_codepoint_key tb base of
           Some e \<Rightarrow> Some (e @ tone)
         | None \<Rightarrow>
        (case unicode_name_to_emoji tb base of
           Some e \<Rightarrow> Some (e @ tone)
         | None \<Rightarrow> if is_unicode_emoji key then Some key else Some (CHR '':'' # key @ '':'')))))))"

section \<open>The choice of an emoji does not depend on the order of the map\<close>

text \<open>Emoji by preference: without a skin tone first, then by bytes.\<close>

datatype ranked_emoji = Ranked (rank_emoji: string)

instantiation ranked_emoji :: linorder
begin

definition less_eq_ranked_emoji :: "ranked_emoji \<Rightarrow> ranked_emoji \<Rightarrow> bool" where
  "less_eq_ranked_emoji x y \<longleftrightarrow>
     \<not> has_skin_tone_modifier (rank_emoji x) \<and> has_skin_tone_modifier (rank_emoji y) \<or>
     has_skin_tone_modifier (rank_emoji x) = has_skin_tone_modifier (rank_emoji y) \<and> rank_emoji x \<le> rank_emoji y"

definition less_ranked_emoji :: "ranked_emoji \<Rightarrow> ranked_emoji \<Rightarrow> bool" where
  "less_ranked_emoji x y \<longleftrightarrow> x \<le> y \<and> \<not> y \<le> x"

instance
  by standard (auto simp: less_eq_ranked_emoji_def less_ranked_emoji_def ranked_emoji.expand)

end

lemma pick_step_min: "pick_step e (Some b) = Some (rank_emoji (min (Ranked e) (Ranked b)))"
  by (auto simp: pick_step_def Let_def min_def less_eq_ranked_emoji_def)

lemma pick_fold: "fold pick_step es (Some b) = Some (rank_emoji (fold min (map Ranked es) (Ranked b)))"
  by (induction es arbitrary: b) (auto simp: pick_step_min)

lemma pick_emoji_Min:
  "pick_emoji es = (if es = [] then None else Some (rank_emoji (Min (Ranked ` set es))))"
proof (cases es)
  case (Cons e es')
  have "pick_emoji es = Some (rank_emoji (fold min (map Ranked es') (Ranked e)))"
    by (simp add: pick_emoji_def Cons pick_fold) (simp add: pick_step_def pick_fold)
  also have "fold min (map Ranked es') (Ranked e) = Min (set (map Ranked es))"
    by (simp add: Cons Min.set_eq_fold [of "Ranked e" "map Ranked es'", simplified])
  finally show ?thesis by (simp add: Cons)
qed (simp add: pick_emoji_def)

lemma pick_emoji_some: "pick_emoji es = Some e \<Longrightarrow> e \<in> set es"
proof -
  assume "pick_emoji es = Some e"
  then have "es \<noteq> []" "e = rank_emoji (Min (Ranked ` set es))" by (auto simp: pick_emoji_Min split: if_splits)
  moreover from this have "Min (Ranked ` set es) \<in> Ranked ` set es" by (intro Min_in) auto
  then obtain x where "x \<in> set es" "Min (Ranked ` set es) = Ranked x" by blast
  ultimately show ?thesis by simp
qed

text \<open>Which emoji a key of the hand-written table stands for does not depend on the order the Go map is
  read in.  Any two listings of the same entries give the same emoji for the key, one of those with the key,
  and one without a skin tone whenever there is one.\<close>

lemma emotion_choice_order_free:
  assumes "set es = set es'" and "pick_emoji es = Some e"
  shows "pick_emoji es' = Some e \<and> e \<in> set es \<and>
    (has_skin_tone_modifier e \<longrightarrow> (\<forall>x \<in> set es. has_skin_tone_modifier x \<and> e \<le> x))"
proof -
  have "es \<noteq> []" using assms(2) by (auto simp: pick_emoji_def)
  then have "es' \<noteq> []" using assms(1) by auto
  have "rank_emoji (Min (Ranked ` set es)) = e" using assms(2) \<open>es \<noteq> []\<close> by (simp add: pick_emoji_Min)
  then have least: "Ranked e \<le> Ranked x" if "x \<in> set es" for x
    using that by (metis Min_le finite_imageI finite_set imageI ranked_emoji.collapse)
  have "pick_emoji es' = Some e" using assms \<open>es \<noteq> []\<close> \<open>es' \<noteq> []\<close> by (simp add: pick_emoji_Min)
  with pick_emoji_some [OF assms(2)] least show ?thesis by (auto simp: less_eq_ranked_emoji_def)
qed


lemma emotion_choice_order_free_example:
  "pick_emoji [[CHR 0xF0, CHR 0x9F, CHR 0x91, CHR 0x8D, CHR 0xF0, CHR 0x9F, CHR 0x8F, CHR 0xBB], [CHR 0xF0, CHR 0x9F, CHR 0x91, CHR 0x8D]] = Some [CHR 0xF0, CHR 0x9F, CHR 0x91, CHR 0x8D]"
proof -
  let ?toned = "[CHR 0xF0, CHR 0x9F, CHR 0x91, CHR 0x8D, CHR 0xF0, CHR 0x9F, CHR 0x8F, CHR 0xBB]" and ?plain = "[CHR 0xF0, CHR 0x9F, CHR 0x91, CHR 0x8D]"
  have "pick_emoji [?plain, ?toned] = Some ?plain" by code_simp
  from emotion_choice_order_free [OF _ this, of "[?toned, ?plain]"] show ?thesis by (simp only: list.set insert_commute)
qed

section \<open>A reaction comes back as it was\<close>

text \<open>What the generated tables have: keys of plain ASCII without spaces or skin tones, each once, \<open>like\<close> among
  them, and an emoji for each.\<close>

definition clean_key :: "string \<Rightarrow> bool" where
  "clean_key k \<longleftrightarrow> k \<noteq> [] \<and> trim_space k = k \<and> list_all (\<lambda>c. (of_char c :: nat) < 128 \<and> c \<noteq> CHR '' '') k \<and> split_skin_tone k = (k, [])"

definition tables_ok :: "emoji_tables \<Rightarrow> bool" where
  "tables_ok tb \<longleftrightarrow>
     distinct (map fst (em_pairs tb)) \<and> list_all (\<lambda>(k, e). clean_key k \<and> em_qualify tb e \<noteq> []) (em_pairs tb) \<and>
     list_all (\<lambda>(n, _). clean_key n) (em_names tb) \<and> ''like'' \<in> fst ` set (em_pairs tb)"

text \<open>The keys of the hand-written table.\<close>

definition hand_keys :: "string list" where
  "hand_keys =
    [''like'', ''ok'', ''fire'', ''heartblue'', ''smile'', ''laugh'', ''heart'', ''kiss'', ''sad'', ''tongueout'', ''wink'',
      ''cry'', ''inlove'', ''hug'', ''cwl'', ''lips'', ''blush'', ''surprised'', ''penguin'', ''like'', ''cool'', ''rofl'',
      ''cat'', ''monkey'', ''hi'', ''snowangel'', ''flower'', ''giggle'', ''devil'', ''party'', ''worry'', ''champagne'',
      ''sun'', ''star'', ''polarbear'', ''eyeroll'', ''speechless'', ''wonder'', ''angry'', ''puke'', ''facepalm'',
      ''sweat'', ''holidayspirit'', ''sleepy'', ''bow'', ''makeup'', ''cash'', ''lipssealed'', ''shivering'', ''cake'',
      ''headbang'', ''dance'', ''wasntme'', ''hungover'', ''yawn'', ''gift'', ''angel'', ''xmastree'', ''brokenheart'',
      ''think'', ''clap'', ''punch'', ''envy'', ''handshake'', ''nod'', ''nerdy'', ''emo'', ''muscle'', ''mmm'',
      ''highfive'', ''turkey'', ''call'', ''movember'', ''dog'', ''coffee'', ''poke'', ''swear'', ''donttalktome'',
      ''fingerscrossed'', ''rainbow'', ''headphones'', ''waiting'', ''festiveparty'', ''bandit'', ''heidy'', ''beer'',
      ''doh'', ''bomb'', ''happy'', ''ninja'']"

lemma hand_keys_of_table: "map snd emotion_table = hand_keys"
  by (simp only: emotion_table_def hand_keys_def list.map snd_conv)

lemma hand_keys_plain:
  "list_all (\<lambda>k. k \<noteq> [] \<and> plain_ends k \<and> list_all (\<lambda>c. (of_char c :: nat) < 128 \<and> c \<noteq> CHR '' '') k \<and> CHR ''-'' \<notin> set k) hand_keys"
  by code_simp

lemma last_index_none: "sub \<noteq> [] \<Longrightarrow> hd sub \<notin> set s \<Longrightarrow> last_index sub s = None"
  by (induction s) (auto simp: prefix_Cons neq_Nil_conv)

lemma untoned_key: "CHR ''-'' \<notin> set k \<Longrightarrow> split_skin_tone k = (k, [])"
  by (simp add: split_skin_tone_def last_index_none)

lemma hand_keys_clean:
  assumes "(e, k) \<in> set emotion_table"
  shows "clean_key k"
proof -
  have "k \<in> set hand_keys" using assms by (force simp: hand_keys_of_table [symmetric])
  then show ?thesis using hand_keys_plain by (auto simp: clean_key_def list_all_iff trim_space_plain untoned_key)
qed

lemma hand_keys_once:
  assumes "(e, k) \<in> set emotion_table" and "(e', k) \<in> set emotion_table" and "k \<noteq> ''like''"
  shows "e = e'"
proof -
  have d: "distinct (tl hand_keys)" "hd hand_keys = ''like''" by code_simp+
  obtain x xs where t: "emotion_table = x # xs" using assms(1) by (cases emotion_table) auto
  have "map snd (x # xs) = hand_keys" using hand_keys_of_table by (simp only: t)
  then have "distinct (map snd xs)" "snd x = ''like''" using d by (metis list.sel(1,3) list.map(2))+
  moreover have "(y, k) \<in> set xs" if "(y, k) \<in> set emotion_table" for y
    using that assms(3) calculation(2) unfolding t by (metis set_ConsD snd_conv)
  ultimately show ?thesis using assms(1,2) by (metis distinct_map inj_onD prod.inject snd_conv)
qed

lemma emotion_entries_iff: "(n, k) \<in> set (emotion_entries tb) \<longleftrightarrow> emoji_to_emotion_key tb n = Some k"
  unfolding emoji_to_emotion_key_def
  by (rule map_of_eq_Some_iff [symmetric]) (simp only: emotion_entries_def distinct_clearjunk)

lemma emotion_entries_hand:
  assumes "(n, k) \<in> set (emotion_entries tb)"
  shows "\<exists>e. (e, k) \<in> set emotion_table \<and> n = em_qualify tb e"
proof -
  have "map_of (rev (map (\<lambda>(e, k). (em_qualify tb e, k)) emotion_table)) n = Some k"
    using assms by (simp add: emotion_entries_iff emoji_to_emotion_key_def) (simp add: emotion_entries_def map_of_clearjunk)
  then show ?thesis by (auto dest!: map_of_SomeD)
qed

lemma inverse_of_hand_key:
  assumes "emoji_to_emotion_key tb n = Some k" and "k \<noteq> ''like''"
  shows "emotion_key_to_emoji tb k = Some n"
proof -
  let ?es = "map fst (filter (\<lambda>(_, k'). k' = k) (emotion_entries tb))"
  obtain e where e: "(e, k) \<in> set emotion_table" "n = em_qualify tb e"
    using assms(1) emotion_entries_hand [of n k tb] by (auto simp: emotion_entries_iff)
  have all: "x = n" if "x \<in> set ?es" for x
    using that emotion_entries_hand [of x k tb] hand_keys_once [OF e(1) _ assms(2)] e(2) by auto
  have "(n, k) \<in> set (filter (\<lambda>(_, k'). k' = k) (emotion_entries tb))" using assms(1) by (simp add: emotion_entries_iff)
  then have "filter (\<lambda>(_, k'). k' = k) (emotion_entries tb) \<noteq> []" by (metis empty_iff list.set(1))
  then have "?es \<noteq> []" by simp
  then obtain x where "pick_emoji ?es = Some x" by (simp add: pick_emoji_Min)
  with pick_emoji_some [OF this] all show ?thesis by (simp add: emotion_key_to_emoji_def)
qed

lemma split_on_none: "d \<notin> set s \<Longrightarrow> split_on d s = [s]"
  by (induction s) auto

text \<open>An emoji that is its own key is in no table.\<close>

lemma passthrough_key:
  assumes "tables_ok tb" and "trim_space n = n" and "is_unicode_emoji n"
  shows "map_emotion_key_to_emoji tb n = Some n"
proof -
  have n: "n \<noteq> []" "list_all (\<lambda>c. 0x80 \<le> (of_char c :: nat) \<or> c = CHR '' '') n"
    using assms(2,3) by (auto simp: is_unicode_emoji_def Let_def)
  have apart: "n \<noteq> k" if "clean_key k" for k
    using that n by (cases n) (auto simp: clean_key_def)
  have "CHR ''-'' \<notin> set n" "CHR ''_'' \<notin> set n" using n(2) by (auto simp: list_all_iff)
  then have plain: "split_skin_tone n = (n, [])" "split_on CHR ''_'' n = [n]" by (simp_all add: untoned_key split_on_none)
  have "teams_key_to_emoji tb n = None" "unicode_name_to_emoji tb n = None"
    using assms(1) apart by (force simp: teams_key_to_emoji_def unicode_name_to_emoji_def tables_ok_def list_all_iff map_of_eq_None_iff)+
  moreover have "filter (\<lambda>(_, k). k = n) (emotion_entries tb) = []"
    using apart hand_keys_clean emotion_entries_hand by (fastforce simp: filter_empty_conv)
  then have "emotion_key_to_emoji tb n = None" by (simp add: emotion_key_to_emoji_def pick_emoji_def)
  moreover have "n \<notin> set (map fst emotion_key_aliases)"
  proof -
    have "list_all (\<lambda>k. k \<noteq> [] \<and> (of_char (hd k) :: nat) < 128 \<and> hd k \<noteq> CHR '' '') (map fst emotion_key_aliases)"
      by code_simp
    moreover have "\<not> ((of_char (hd n) :: nat) < 128 \<and> hd n \<noteq> CHR '' '')" using n by (cases n) auto
    ultimately show ?thesis unfolding list_all_iff by blast
  qed
  then have "map_of emotion_key_aliases n = None" by (simp add: map_of_eq_None_iff)
  moreover have "emoji_from_codepoint_key tb n = None"
    by (auto simp: emoji_from_codepoint_key_def plain Let_def split: option.split)
  ultimately show ?thesis using assms(2,3) n(1) by (simp add: map_emotion_key_to_emoji_def plain Let_def)
qed

lemma teams_key_first:
  assumes "tables_ok tb" and "teams_emoji_to_key tb n = Some k"
  shows "teams_key_to_emoji tb k = Some n \<and> clean_key k"
proof -
  from assms(2) obtain e where e: "(k, e) \<in> set (em_pairs tb)" "em_qualify tb e = n"
    by (auto simp: teams_emoji_to_key_def dest!: map_of_SomeD)
  have "distinct (map fst (rev (map (\<lambda>(k, e). (k, em_qualify tb e)) (em_pairs tb))))"
    using assms(1) by (simp add: tables_ok_def rev_map [symmetric] comp_def case_prod_beta)
  moreover have "(k, n) \<in> set (rev (map (\<lambda>(k, e). (k, em_qualify tb e)) (em_pairs tb)))" using e by force
  ultimately have "teams_key_to_emoji tb k = Some n" by (simp only: teams_key_to_emoji_def map_of_is_SomeI)
  moreover have "clean_key k" using assms(1) e(1) by (auto simp: tables_ok_def list_all_iff)
  ultimately show ?thesis by simp
qed

lemma clean_key_drawn:
  assumes "clean_key k"
  shows "teams_key_to_emoji tb k = Some e \<Longrightarrow> map_emotion_key_to_emoji tb k = Some e"
    "teams_key_to_emoji tb k = None \<Longrightarrow> emotion_key_to_emoji tb k = Some e \<Longrightarrow> map_emotion_key_to_emoji tb k = Some e"
  using assms by (auto simp: map_emotion_key_to_emoji_def clean_key_def Let_def)

lemma fallback_round_trip:
  assumes "tables_ok tb" and "trim_space n = n"
    and "(case teams_emoji_to_key tb n of Some k \<Rightarrow> Some k | None \<Rightarrow> if is_unicode_emoji n then Some n else None) = Some k"
  shows "map_emotion_key_to_emoji tb k = Some n"
  using assms(3) passthrough_key [OF assms(1,2)] teams_key_first [OF assms(1)] clean_key_drawn(1)
  by (auto split: option.splits if_splits)

text \<open>C28: A reaction comes back as the emoji it was sent with.  With the generated tables, the key the bridge sends to
  Teams for a Matrix emoji is one it reads back as the same emoji, fully qualified, but for its skin tone, which
  goes only when Teams draws the key's emoji without one.\<close>

theorem reaction_round_trip:
  assumes "tables_ok tb" and "trim_space (em_qualify tb e) = em_qualify tb e" and "map_emoji_to_emotion_key tb e = Some k"
  shows "map_emotion_key_to_emoji tb k = Some (em_qualify tb e) \<or>
    map_emotion_key_to_emoji tb k = Some (strip_skin_tones (em_qualify tb e)) \<and>
      teams_key_to_emoji tb k = Some (strip_skin_tones (em_qualify tb e))"
proof (cases "emoji_to_emotion_key tb (em_qualify tb e)")
  case None
  then show ?thesis
    using fallback_round_trip [OF assms(1,2)] assms(3) by (auto simp: map_emoji_to_emotion_key_def Let_def split: if_splits)
next
  case (Some k')
  let ?n = "em_qualify tb e"
  let ?drawn = "case teams_key_to_emoji tb k' of Some x \<Rightarrow> x | None \<Rightarrow> []"
  have clean: "clean_key k'"
    using Some emotion_entries_hand [of ?n k' tb] hand_keys_clean by (auto simp: emotion_entries_iff)
  show ?thesis
  proof (cases "?drawn = [] \<or> ?drawn = strip_skin_tones ?n")
    case False
    then show ?thesis
      using fallback_round_trip [OF assms(1,2)] assms(3) Some by (auto simp: map_emoji_to_emotion_key_def Let_def split: if_splits)
  next
    case True
    then have k: "k = k'" using assms(3) Some by (auto simp: map_emoji_to_emotion_key_def Let_def split: if_splits)
    show ?thesis
    proof (cases "teams_key_to_emoji tb k'")
      case None
      then have "k' \<noteq> ''like''"
        using assms(1) by (auto simp: teams_key_to_emoji_def tables_ok_def map_of_eq_None_iff image_iff)
      then show ?thesis using clean_key_drawn(2) [OF clean None] inverse_of_hand_key [OF Some] k by blast
    next
      case drawn: (Some x)
      then have "x \<noteq> []" using assms(1) by (fastforce simp: teams_key_to_emoji_def tables_ok_def list_all_iff dest!: map_of_SomeD)
      then show ?thesis using True drawn clean_key_drawn(1) [OF clean drawn] k by simp
    qed
  qed
qed


definition example_tables :: emoji_tables where
  "example_tables = \<lparr>em_qualify = \<lambda>s. s, em_pairs = [(''like'', [CHR 0xF0, CHR 0x9F, CHR 0x91, CHR 0x8D])], em_names = []\<rparr>"

lemma example_tables_ok: "tables_ok example_tables"
proof -
  have "split_skin_tone ''like'' = (''like'', [])" by (simp add: untoned_key)
  then show ?thesis by (simp add: tables_ok_def example_tables_def clean_key_def trim_space_plain plain_ends_def)
qed

lemma emoji_to_emotion_key_eq:
  "emoji_to_emotion_key tb = map_of (rev (map (\<lambda>(e, k). (em_qualify tb e, k)) emotion_table))"
  by (simp add: emoji_to_emotion_key_def emotion_entries_def map_of_clearjunk)

theorem reaction_round_trip_witness:
  "map_emotion_key_to_emoji example_tables ''like'' = Some [CHR 0xF0, CHR 0x9F, CHR 0x91, CHR 0x8D]"
proof -
  let ?thumb = "[CHR 0xF0, CHR 0x9F, CHR 0x91, CHR 0x8D]"
  have ends: "trim_space ?thumb = ?thumb" by code_simp
  have "map_of (rev (map (\<lambda>(e, k). (e, k)) emotion_table)) ?thumb = Some ''like''" by code_simp
  then have "emoji_to_emotion_key example_tables ?thumb = Some ''like''"
    unfolding emoji_to_emotion_key_eq by (simp only: example_tables_def emoji_tables.simps)
  moreover have strip: "strip_skin_tones ?thumb = ?thumb" by code_simp
  moreover have "teams_key_to_emoji example_tables ''like'' = Some ?thumb" by (simp add: teams_key_to_emoji_def example_tables_def)
  ultimately have "map_emoji_to_emotion_key example_tables ?thumb = Some ''like''"
    by (simp add: map_emoji_to_emotion_key_def ends example_tables_def)
  moreover have "em_qualify example_tables ?thumb = ?thumb" by (simp only: example_tables_def emoji_tables.simps)
  ultimately show ?thesis using reaction_round_trip [of example_tables ?thumb "''like''"] example_tables_ok ends strip by metis
qed

end
