(* ===== verification/Outbound_Text.thy ===== *)
theory Outbound_Text
  imports Teams_Requests
begin

text \<open>
  What a Matrix message becomes on its way to Teams: the text of a message or an edit
  (outbound_text.go, and its helpers in convert.go), a GIF sent by its address (gif.go), and the
  quote in front of a reply (handlematrix.go).

  Three regular expressions of the code are matchers here: \<open>scan_with\<close> runs one over a string the way
  \<open>regexp\<close> does, leftmost matches that do not overlap, and keeps what is between them.  Their matches
  are deterministic or, in \<open>mxReplyRe\<close> and \<open>underlineSpanRe\<close>, the shortest.  \<open>url.Parse\<close>, \<open>URL.String\<close>,
  \<open>html.UnescapeString\<close> and the bridge's table of ghosts are parameters.
\<close>

section \<open>Matrix messages\<close>

datatype matrix_type =
    M_Text | M_Notice | M_Emote | M_Location | M_Image | M_File | M_Video | M_Audio | M_Other string

record matrix_content =
  mx_type :: matrix_type
  mx_body :: string
  mx_format :: string
  mx_formatted :: string
  mx_file_name :: string
  mx_url :: string
  mx_encrypted :: "string option"
  mx_mime :: "string option"
  mx_geo :: string

definition outbound_msg_type_supported :: "matrix_type \<Rightarrow> bool" where
  "outbound_msg_type_supported t = (case t of M_Other _ \<Rightarrow> False | _ \<Rightarrow> True)"

definition format_html :: string where
  "format_html = ''org.matrix.custom.html''"

text \<open>The bridge's ghosts: the Teams user a Matrix ID stands for, if it does; no bridge, no ghosts.\<close>

record ghost_env =
  gh_html :: html_env
  gh_parse_mxid :: "(string \<Rightarrow> string option) option"

section \<open>Matchers\<close>

text \<open>A matcher says what it found at the front of a string and how long it is.\<close>

type_synonym 'm matcher = "string \<Rightarrow> ('m \<times> nat) option"

fun scan_with :: "'m matcher \<Rightarrow> string \<Rightarrow> (char + 'm) list" where
  "scan_with m [] = []"
| "scan_with m (c # s) =
     (case m (c # s) of
        Some (v, n) \<Rightarrow> Inr v # scan_with m (drop (n - 1) s)
      | None \<Rightarrow> Inl c # scan_with m s)"

definition put_pieces :: "('m \<Rightarrow> string) \<Rightarrow> (char + 'm) list \<Rightarrow> string" where
  "put_pieces f ps = concat (map (\<lambda>p. case p of Inl c \<Rightarrow> [c] | Inr v \<Rightarrow> f v) ps)"

text \<open>A literal under \<open>(?i)\<close>: two code points beyond ASCII fold to s and k.\<close>

fun lit_ci :: "string \<Rightarrow> string \<Rightarrow> string option" where
  "lit_ci [] s = Some s"
| "lit_ci (p # ps) [] = None"
| "lit_ci (p # ps) (c # s) =
     (if lower_char c = p then lit_ci ps s
      else if p = CHR ''s'' \<and> prefix (bs [0xC5, 0xBF]) (c # s) then lit_ci ps (drop 1 s)
      else if p = CHR ''k'' \<and> prefix (bs [0xE2, 0x84, 0xAA]) (c # s) then lit_ci ps (drop 2 s)
      else None)"

text \<open>\<open>.*?\<close> under \<open>(?s)\<close>, up to the first place a literal is at.\<close>

fun until_ci :: "string \<Rightarrow> string \<Rightarrow> (string \<times> string) option" where
  "until_ci p [] = map_option (\<lambda>r. ([], r)) (lit_ci p [])"
| "until_ci p (c # s) =
     (case lit_ci p (c # s) of
        Some r \<Rightarrow> Some ([], r)
      | None \<Rightarrow> map_option (\<lambda>(a, r). (c # a, r)) (until_ci p s))"

definition span_match :: "string \<Rightarrow> string \<Rightarrow> string matcher" where
  "span_match op cl s =
     (case lit_ci op s of
        None \<Rightarrow> None
      | Some r \<Rightarrow> map_option (\<lambda>(a, r'). (a, length s - length r')) (until_ci cl r))"

definition mx_reply_re :: "string matcher" where
  "mx_reply_re = span_match ''<mx-reply>'' ''</mx-reply>''"

definition underline_span_re :: "string matcher" where
  "underline_span_re = span_match (''<span class='' @ attr_value ''underline'' @ ''>'') ''</span>''"

text \<open>\<open>matrixMentionPillRe\<close>: the Matrix ID and the name of a pill, with the text of it.\<close>

record pill =
  pl_text :: string
  pl_mxid :: string
  pl_name :: string

definition after_prefix :: "string \<Rightarrow> string \<Rightarrow> string option" where
  "after_prefix p s = (if prefix p s then Some (drop (length p) s) else None)"

definition matrix_mention_pill_re :: "pill matcher" where
  "matrix_mention_pill_re s =
     (case after_prefix ''<a'' s of
        None \<Rightarrow> None
      | Some r0 \<Rightarrow>
          let r1 = dropWhile re_space r0 in
          if r1 = r0 then None
          else case after_prefix (''href='' @ [CHR 0x22] @ ''https://matrix.to/#/'') r1 of
                 None \<Rightarrow> None
               | Some r2 \<Rightarrow>
                   let mxid = takeWhile (\<lambda>c. c \<noteq> CHR 0x22) r2 in
                   if length mxid < 2 \<or> hd mxid \<notin> set ''@!'' then None
                   else case after_prefix ([CHR 0x22] @ ''>'') (drop (length mxid) r2) of
                          None \<Rightarrow> None
                        | Some r3 \<Rightarrow>
                            let name = takeWhile (\<lambda>c. c \<noteq> CHR ''<'') r3 in
                            if name = [] then None
                            else case after_prefix ''</a>'' (drop (length name) r3) of
                                   None \<Rightarrow> None
                                 | Some r4 \<Rightarrow>
                                     let n = length s - length r4 in
                                     Some (\<lparr>pl_text = take n s, pl_mxid = mxid, pl_name = name\<rparr>, n))"

text \<open>
  \<open>roomMentionRe\<close>: \<open>@room\<close> as a word of its own; \<open>prev\<close> is the character in front.  \<open>None\<close> is a mention,
  \<open>Some\<close> a character that is kept.
\<close>

definition word_char :: "char \<Rightarrow> bool" where
  "word_char c \<longleftrightarrow> ascii_letter c \<or> c \<in> set ''0123456789_''"

definition room_mention_at :: "char option \<Rightarrow> string \<Rightarrow> bool" where
  "room_mention_at prev s \<longleftrightarrow>
     prefix ''@room'' s \<and> (case prev of None \<Rightarrow> True | Some c \<Rightarrow> \<not> word_char c \<and> c \<notin> set ''@./:-'') \<and>
     (case drop 5 s of [] \<Rightarrow> True | c # _ \<Rightarrow> \<not> word_char c)"

fun room_pieces :: "char option \<Rightarrow> string \<Rightarrow> char option list" where
  "room_pieces prev [] = []"
| "room_pieces prev (c # s) =
     (if room_mention_at prev (c # s) then None # room_pieces (Some CHR ''m'') (drop 4 s)
      else Some c # room_pieces (Some c) s)"

section \<open>Text to Teams HTML\<close>

definition plaintext_to_teams_html :: "string \<Rightarrow> string" where
  "plaintext_to_teams_html t =
     ''<p>'' @ replace_all [CHR 0x0A] ''<br>''
       (html_escape (replace_all [CHR 0x0D] [CHR 0x0A] (replace_all [CHR 0x0D, CHR 0x0A] [CHR 0x0A] t))) @ ''</p>''"

definition matrix_html_to_teams_html :: "string \<Rightarrow> string" where
  "matrix_html_to_teams_html s =
     (let unquoted = put_pieces (\<lambda>_. []) (scan_with mx_reply_re s);
          underlined = put_pieces (\<lambda>a. ''<u>'' @ a @ ''</u>'') (scan_with underline_span_re unquoted)
      in trim_space underlined)"

text \<open>\<open>strings.Count\<close> of a non-empty string.\<close>

fun count_sub :: "string \<Rightarrow> string \<Rightarrow> nat" where
  "count_sub sub [] = 0"
| "count_sub sub (c # s) =
     (if sub \<noteq> [] \<and> prefix sub (c # s) then Suc (count_sub sub (drop (length sub - 1) s)) else count_sub sub s)"

definition emote_html :: "string \<Rightarrow> string" where
  "emote_html body =
     (if prefix ''<p>'' body \<and> count_sub ''<p>'' body = 1 \<and> suffix ''</p>'' (drop 3 body)
      then ''<p><em>'' @ trim_suffix (drop 3 body) ''</p>'' @ ''</em></p>''
      else ''<em>'' @ body @ ''</em>'')"

definition geo_uri_to_map_link :: "string \<Rightarrow> string" where
  "geo_uri_to_map_link geo =
     (case after_prefix ''geo:'' (trim_space geo) of
        None \<Rightarrow> []
      | Some c \<Rightarrow>
          (case cut (fst (cut c '';'')) '','' of (lat, lon, ok) \<Rightarrow>
             if \<not> ok \<or> lat = [] \<or> lon = [] then []
             else ''https://www.openstreetmap.org/?mlat='' @ lat @ ''&mlon='' @ lon @ ''#map=16/'' @ lat @ ''/'' @ lon))"

definition location_html :: "string \<Rightarrow> string \<Rightarrow> string" where
  "location_html geo body =
     (let link = geo_uri_to_map_link geo in
      if link = [] then body
      else body @ ''<p><a href='' @ attr_value (html_escape link) @ ''>'' @ html_escape link @ ''</a></p>'')"

section \<open>Mentions to Teams\<close>

definition mention_open :: "string \<Rightarrow> nat \<Rightarrow> string" where
  "mention_open extra i =
     ''<span itemtype='' @ attr_value ''http://schema.skype.com/Mention'' @ extra @ '' itemid='' @ attr_value (show_nat i) @ ''>''"

definition mention_span :: "string \<Rightarrow> nat \<Rightarrow> string \<Rightarrow> string" where
  "mention_span extra i name = mention_open extra i @ name @ ''</span>''"

definition everyone_scope :: string where
  "everyone_scope = '' itemscope='' @ attr_value []"

definition pill_mention :: "html_env \<Rightarrow> nat \<Rightarrow> string \<Rightarrow> string \<Rightarrow> json" where
  "pill_mention env i mri name =
     JObj [(''id'', JNum (show_nat i)), (''mri'', JStr mri), (''displayName'', JStr (he_unescape env name))]"

text \<open>The pills of ghosts, numbered in order; any other pill stays as it is.\<close>

fun convert_pills ::
  "html_env \<Rightarrow> (string \<Rightarrow> string option) \<Rightarrow> nat \<Rightarrow> (char + pill) list \<Rightarrow> string \<times> json list" where
  "convert_pills env ghost i [] = ([], [])"
| "convert_pills env ghost i (Inl c # ps) = (case convert_pills env ghost i ps of (b, ms) \<Rightarrow> (c # b, ms))"
| "convert_pills env ghost i (Inr p # ps) =
     (case ghost (he_unescape env (pl_mxid p)) of
        None \<Rightarrow> (case convert_pills env ghost i ps of (b, ms) \<Rightarrow> (pl_text p @ b, ms))
      | Some mri \<Rightarrow>
          (case convert_pills env ghost (Suc i) ps of (b, ms) \<Rightarrow>
             (mention_span [] i (''@'' @ html_escape (pl_name p)) @ b, pill_mention env i mri (pl_name p) # ms)))"

definition convert_matrix_mentions_to_teams :: "ghost_env \<Rightarrow> string \<Rightarrow> string \<times> json list" where
  "convert_matrix_mentions_to_teams env body =
     (case gh_parse_mxid env of
        None \<Rightarrow> (body, [])
      | Some ghost \<Rightarrow>
          (case convert_pills (gh_html env) ghost 0 (scan_with matrix_mention_pill_re body) of (b, ms) \<Rightarrow>
             if ms = [] then (body, []) else (b, ms)))"

definition everyone_mention :: "nat \<Rightarrow> string \<Rightarrow> json" where
  "everyone_mention i thread =
     JObj [(''@type'', JStr ''http://schema.skype.com/Mention''), (''id'', JNum (show_nat i)), (''itemid'', JNum (show_nat i)),
       (''mri'', JStr thread), (''mentionType'', JStr ''everyone''), (''displayName'', JStr ''Everyone'')]"

fun put_everyone :: "string \<Rightarrow> nat \<Rightarrow> char option list \<Rightarrow> string \<times> json list" where
  "put_everyone thread i [] = ([], [])"
| "put_everyone thread i (Some c # ps) = (case put_everyone thread i ps of (b, ms) \<Rightarrow> (c # b, ms))"
| "put_everyone thread i (None # ps) =
     (case put_everyone thread (Suc i) ps of (b, ms) \<Rightarrow>
        (mention_span everyone_scope i ''Everyone'' @ b, everyone_mention i thread # ms))"

definition convert_room_mention_to_teams :: "string \<Rightarrow> json list \<Rightarrow> string \<Rightarrow> string \<times> json list" where
  "convert_room_mention_to_teams body mentions thread0 =
     (let thread = trim_space thread0 in
      if \<not> suffix ''@thread.v2'' thread \<or> \<not> sublist ''@room'' body then (body, mentions)
      else (case put_everyone thread (length mentions) (room_pieces None body) of (b, ms) \<Rightarrow> (b, mentions @ ms)))"

definition outbound_body :: "matrix_content \<Rightarrow> string" where
  "outbound_body m =
     (let body = (if mx_format m = format_html \<and> mx_formatted m \<noteq> [] then matrix_html_to_teams_html (mx_formatted m)
                  else plaintext_to_teams_html (mx_body m))
      in case mx_type m of
           M_Emote \<Rightarrow> emote_html body
         | M_Location \<Rightarrow> location_html (mx_geo m) body
         | _ \<Rightarrow> body)"

definition outbound_text_html :: "ghost_env \<Rightarrow> matrix_content \<Rightarrow> string \<Rightarrow> string \<times> json list" where
  "outbound_text_html env m thread =
     (case convert_matrix_mentions_to_teams env (outbound_body m) of (body, mentions) \<Rightarrow>
        convert_room_mention_to_teams body mentions thread)"

section \<open>GIFs\<close>

text \<open>An address as \<open>url.Parse\<close> takes it apart; \<open>ul_string\<close> is \<open>String()\<close>.\<close>

record parsed_url =
  pu_scheme :: string
  pu_host :: string
  pu_path :: string
  pu_rest :: string

record url_lib =
  ul_parse :: "string \<Rightarrow> parsed_url option"
  ul_string :: "parsed_url \<Rightarrow> string"

definition parse_direct_gif_url :: "url_lib \<Rightarrow> string \<Rightarrow> string option" where
  "parse_direct_gif_url ul value =
     (case ul_parse ul (trim_space value) of
        None \<Rightarrow> None
      | Some u \<Rightarrow>
          if to_lower (pu_scheme u) \<in> {''http'', ''https''} \<and> suffix ''.gif'' (to_lower (pu_path u))
          then Some (ul_string ul u) else None)"

definition looks_like_gif_message :: "url_lib \<Rightarrow> matrix_content \<Rightarrow> bool" where
  "looks_like_gif_message ul m \<longleftrightarrow>
     (case mx_mime m of Some t \<Rightarrow> equal_fold (trim_space t) ''image/gif'' | None \<Rightarrow> False) \<or>
     suffix ''.gif'' (to_lower (trim_space (mx_file_name m))) \<or>
     suffix ''.gif'' (to_lower (trim_space (mx_body m))) \<or>
     parse_direct_gif_url ul (trim_space (mx_url m)) \<noteq> None"

definition extract_outbound_gif :: "url_lib \<Rightarrow> matrix_content \<Rightarrow> (string \<times> string) option" where
  "extract_outbound_gif ul m =
     (if \<not> looks_like_gif_message ul m then None
      else let named = trim_space (mx_file_name m); said = trim_space (mx_body m);
               title = (if named \<noteq> [] then named else if said \<noteq> [] then said else ''GIF'')
           in case parse_direct_gif_url ul (trim_space (mx_url m)) of
                Some u \<Rightarrow> Some (title, u)
              | None \<Rightarrow> map_option (\<lambda>u. (title, u)) (parse_direct_gif_url ul said))"

section \<open>The quote of a reply\<close>

definition rune_start :: "char \<Rightarrow> bool" where
  "rune_start c \<longleftrightarrow> (of_char c :: nat) div 64 \<noteq> 2"

fun rune_cut :: "string \<Rightarrow> nat \<Rightarrow> nat" where
  "rune_cut s 0 = 0"
| "rune_cut s (Suc n) = (if rune_start (s ! Suc n) then Suc n else rune_cut s n)"

definition truncate_snippet :: "string \<Rightarrow> nat \<Rightarrow> string" where
  "truncate_snippet s limit = (if length s \<le> limit then s else take (rune_cut s limit) s @ ''...'')"

definition reply_snippet :: "remote_message \<Rightarrow> string" where
  "reply_snippet m =
     (let said = (if msg_body m \<noteq> [] then msg_body m else formatted_body m) in
      if said \<noteq> [] then said
      else if inline_images m \<noteq> [] then bs [0xF0, 0x9F, 0x93, 0xB7]
      else if properties_files m \<noteq> [] then bs [0xF0, 0x9F, 0x93, 0x8E]
      else if msg_gifs m \<noteq> [] then ''GIF'' else [])"

definition reply_quote :: "string \<Rightarrow> string \<Rightarrow> string" where
  "reply_quote reply inside =
     ''<blockquote itemtype='' @ attr_value ''http://schema.skype.com/Reply'' @ '' itemid='' @ attr_value (html_escape reply) @
     ''>'' @ inside @ ''</blockquote>''"

text \<open>\<open>get\<close> is what \<open>GetMessage\<close> answers for the message replied to.\<close>

definition build_teams_reply_html :: "(go_error + remote_message option) \<Rightarrow> string \<Rightarrow> string \<Rightarrow> string" where
  "build_teams_reply_html get reply body =
     (case get of
        Inr (Some m) \<Rightarrow>
          (let sender = (if im_display_name m \<noteq> [] then im_display_name m else token_display_name m) in
           reply_quote reply (''<strong>'' @ html_escape sender @ ''</strong><br>'' @
             html_escape (truncate_snippet (reply_snippet m) 200)) @ body)
      | _ \<Rightarrow> reply_quote reply [] @ body)"

section \<open>Mentions are numbered\<close>

definition mention_number :: "json \<Rightarrow> json option" where
  "mention_number j = (case j of JObj kvs \<Rightarrow> map_of kvs ''id'' | _ \<Rightarrow> None)"

lemma mention_number_simps [simp]:
  "mention_number (pill_mention env i mri name) = Some (JNum (show_nat i))"
  "mention_number (everyone_mention i thread) = Some (JNum (show_nat i))"
  by (simp_all add: mention_number_def pill_mention_def everyone_mention_def)

text \<open>A list of mentions numbered from \<open>k\<close>, each with an opening tag of its number in the text.\<close>

definition numbered :: "string \<Rightarrow> nat \<Rightarrow> string \<Rightarrow> json list \<Rightarrow> bool" where
  "numbered extra k b ms \<longleftrightarrow>
     (\<forall>i < length ms. mention_number (ms ! i) = Some (JNum (show_nat (k + i))) \<and> sublist (mention_open extra (k + i)) b)"

lemma numbered_Nil [simp]: "numbered extra k b []"
  by (simp add: numbered_def)

lemma numbered_put:
  assumes "numbered extra k b ms"
  shows "numbered extra k (a @ b) ms"
  using assms by (auto simp: numbered_def sublist_append)

lemma numbered_put_Cons: "numbered extra k b ms \<Longrightarrow> numbered extra k (c # b) ms"
  using numbered_put [of extra k b ms "[c]"] by simp

lemma numbered_span:
  assumes "numbered extra (Suc k) b ms" and "mention_number j = Some (JNum (show_nat k))"
  shows "numbered extra k (mention_span extra k name @ b) (j # ms)"
proof -
  have "sublist (mention_open extra k) (mention_span extra k name @ b)"
    by (simp add: mention_span_def sublist_appendI [where xs = "[]", simplified])
  moreover have "numbered extra (Suc k) (mention_span extra k name @ b) ms" using assms(1) by (rule numbered_put)
  ultimately show ?thesis using assms(2) by (auto simp: numbered_def nth_Cons split: nat.split)
qed

lemma convert_pills_numbered:
  "convert_pills env ghost k ps = (b, ms) \<Longrightarrow> numbered [] k b ms"
proof (induction env ghost k ps arbitrary: b ms rule: convert_pills.induct)
  case (1 env ghost i)
  then show ?case by simp
next
  case (2 env ghost i c ps)
  then show ?case by (auto intro: numbered_put_Cons split: prod.splits)
next
  case (3 env ghost i p ps)
  then show ?case by (auto intro: numbered_put numbered_span split: prod.splits option.splits)
qed

lemma put_everyone_numbered:
  "put_everyone thread k ps = (b, ms) \<Longrightarrow> numbered everyone_scope k b ms"
proof (induction thread k ps arbitrary: b ms rule: put_everyone.induct)
  case (1 thread i)
  then show ?case by simp
next
  case (2 thread i c ps)
  then show ?case by (auto intro: numbered_put_Cons split: prod.splits)
next
  case (3 thread i ps)
  then show ?case by (auto intro: numbered_span split: prod.splits)
qed

text \<open>Replacing \<open>@room\<close> leaves any text alone that has no \<open>@\<close> and does not begin inside a mention.\<close>

lemma room_pieces_free:
  "CHR ''@'' \<notin> set t \<Longrightarrow> \<exists>prev'. room_pieces prev (t @ c) = map Some t @ room_pieces prev' c"
proof (induction t arbitrary: prev)
  case (Cons x t)
  then have "\<not> room_mention_at prev (x # t @ c)" by (simp add: room_mention_at_def)
  with Cons show ?case by simp
qed auto

lemma room_pieces_keep:
  assumes "CHR ''@'' \<notin> set t" and "t \<noteq> []" and "hd t \<notin> set ''@room''"
  shows "\<exists>ps qs. room_pieces prev (a @ t @ c) = ps @ map Some t @ qs"
proof (induction "length a" arbitrary: a prev rule: less_induct)
  case less
  show ?case
  proof (cases a)
    case Nil
    with room_pieces_free [OF assms(1), of prev c] show ?thesis by (metis append_Nil)
  next
    case (Cons x a')
    show ?thesis
    proof (cases "room_mention_at prev (x # a' @ t @ c)")
      case True
      then have p: "prefix ''room'' (a' @ t @ c)" by (simp add: room_mention_at_def)
      have "4 \<le> length a'"
      proof (rule ccontr)
        assume short: "\<not> 4 \<le> length a'"
        from p have "take 4 (a' @ t @ c) = ''room''" by (auto simp: prefix_def simp del: take_append append_assoc)
        moreover have "(take 4 (a' @ t @ c)) ! length a' = hd t"
          using short assms(2) by (simp add: nth_append hd_conv_nth)
        ultimately have "hd t = ''room'' ! length a'" by simp
        moreover have "''room'' ! length a' \<in> set ''room''" using short by (intro nth_mem) simp
        ultimately show False using assms(3) by auto
      qed
      then have "drop 4 (a' @ t @ c) = drop 4 a' @ t @ c" by simp
      moreover obtain ps qs where "room_pieces (Some CHR ''m'') (drop 4 a' @ t @ c) = ps @ map Some t @ qs"
        using less [of "drop 4 a'" "Some CHR ''m''"] Cons by (auto simp: less_Suc_eq_le)
      ultimately have "room_pieces prev (a @ t @ c) = (None # ps) @ map Some t @ qs" using True Cons by simp
      then show ?thesis by blast
    next
      case False
      obtain ps qs where "room_pieces (Some x) (a' @ t @ c) = ps @ map Some t @ qs" using less [of a' "Some x"] Cons by auto
      with False Cons have "room_pieces prev (a @ t @ c) = (Some x # ps) @ map Some t @ qs" by simp
      then show ?thesis by blast
    qed
  qed
qed

lemma put_everyone_append:
  "\<exists>k'. fst (put_everyone thread k (ps @ qs)) = fst (put_everyone thread k ps) @ fst (put_everyone thread k' qs)"
proof (induction thread k ps rule: put_everyone.induct)
  case (2 thread i c ps)
  then show ?case by (auto split: prod.split)
next
  case (3 thread i ps)
  then show ?case by (auto split: prod.split)
qed auto

lemma put_everyone_text: "fst (put_everyone thread k (map Some t)) = t"
  by (induction t) (auto split: prod.split)

lemma put_everyone_keep:
  assumes "CHR ''@'' \<notin> set t" and "t \<noteq> []" and "hd t \<notin> set ''@room''" and "sublist t s"
  shows "sublist t (fst (put_everyone thread k (room_pieces prev s)))"
proof -
  from assms(4) obtain a c where "s = a @ t @ c" by (auto simp: sublist_def)
  then obtain ps qs where "room_pieces prev s = ps @ map Some t @ qs" using room_pieces_keep [OF assms(1-3)] by blast
  moreover obtain k1 where "fst (put_everyone thread k (ps @ map Some t @ qs)) =
      fst (put_everyone thread k ps) @ fst (put_everyone thread k1 (map Some t @ qs))" using put_everyone_append by blast
  moreover obtain k2 where "fst (put_everyone thread k1 (map Some t @ qs)) = t @ fst (put_everyone thread k2 qs)"
    using put_everyone_append [of thread k1 "map Some t" qs] by (metis put_everyone_text)
  ultimately show ?thesis by simp
qed

lemma show_nat_no_at: "CHR ''@'' \<notin> set (show_nat n)"
  using show_nat_digits [of n] by (auto simp: list_all_iff)

lemma mention_open_plain:
  "CHR ''@'' \<notin> set (mention_open [] i)" "mention_open [] i \<noteq> []" "hd (mention_open [] i) \<notin> set ''@room''"
  using show_nat_no_at [of i] by (simp_all add: mention_open_def attr_value_def)

text \<open>C27: Every mention a message or an edit sends is in its text.  The mentions are numbered from 0 in order,
  first those of bridged users, then \<open>@Everyone\<close>, and for each number the text has the opening tag of a
  mention with that item ID, which turning \<open>@room\<close> into \<open>@Everyone\<close> afterwards does not break.  Outside
  group chats, or with no ghost to mention, the list has no entry of that kind.\<close>

theorem mentions_numbered:
  assumes "outbound_text_html env m thread = (b, ms)"
  shows "(\<forall>i < length ms. mention_number (ms ! i) = Some (JNum (show_nat i)) \<and>
      (sublist (mention_open [] i) b \<or> sublist (mention_open everyone_scope i) b)) \<and>
    (gh_parse_mxid env = None \<and> \<not> suffix ''@thread.v2'' (trim_space thread) \<longrightarrow> ms = [])"
proof -
  obtain b1 ms1 where c: "convert_matrix_mentions_to_teams env (outbound_body m) = (b1, ms1)" by fastforce
  have n1: "numbered [] 0 b1 ms1"
    using c by (auto simp: convert_matrix_mentions_to_teams_def dest: convert_pills_numbered split: option.splits prod.splits if_splits)
  have none: "gh_parse_mxid env = None \<Longrightarrow> ms1 = []" using c by (auto simp: convert_matrix_mentions_to_teams_def)
  have r: "convert_room_mention_to_teams b1 ms1 thread = (b, ms)" using assms c by (simp add: outbound_text_html_def)
  show ?thesis
  proof (cases "\<not> suffix ''@thread.v2'' (trim_space thread) \<or> \<not> sublist ''@room'' b1")
    case True
    with r n1 none show ?thesis by (auto simp: convert_room_mention_to_teams_def Let_def numbered_def)
  next
    case False
    obtain ms2 where p: "put_everyone (trim_space thread) (length ms1) (room_pieces None b1) = (b, ms2)" "ms = ms1 @ ms2"
      using r False by (auto simp: convert_room_mention_to_teams_def Let_def split: prod.splits)
    have "numbered everyone_scope (length ms1) b ms2" by (rule put_everyone_numbered [OF p(1)])
    moreover have "sublist (mention_open [] i) b" if "i < length ms1" for i
    proof -
      have "sublist (mention_open [] i) b1" using n1 that by (simp add: numbered_def)
      from put_everyone_keep [OF mention_open_plain this, of "trim_space thread" "length ms1" None] show ?thesis by (simp only: p(1) fst_conv)
    qed
    moreover have "mention_number (ms ! i) = Some (JNum (show_nat i)) \<and>
        (sublist (mention_open [] i) b \<or> sublist (mention_open everyone_scope i) b)" if "i < length ms" for i
    proof (cases "i < length ms1")
      case True
      with n1 calculation(2) show ?thesis by (simp add: p(2) numbered_def nth_append)
    next
      case over: False
      with that have "i - length ms1 < length ms2" "length ms1 + (i - length ms1) = i" by (simp_all add: p(2))
      with over calculation(1) show ?thesis by (auto simp: p(2) numbered_def nth_append)
    qed
    ultimately show ?thesis using False by blast
  qed
qed


definition example_ghosts :: ghost_env where
  "example_ghosts = \<lparr>gh_html = \<lparr>he_parse = \<lambda>_. None, he_unescape = \<lambda>s. s, he_url_err = \<lambda>_. False, he_url_host = \<lambda>_. []\<rparr>,
     gh_parse_mxid = Some (\<lambda>u. if u = ''@teams_bo:x'' then Some ''8:bo'' else None)\<rparr>"

definition example_outbound :: matrix_content where
  "example_outbound = \<lparr>mx_type = M_Text, mx_body = ''Bo @room'', mx_format = format_html,
     mx_formatted = ''<a href='' @ attr_value ''https://matrix.to/#/@teams_bo:x'' @ ''>Bo</a> @room'', mx_file_name = [], mx_url = [],
     mx_encrypted = None, mx_mime = None, mx_geo = []\<rparr>"

lemma example_outbound_html:
  "outbound_text_html example_ghosts example_outbound ''19:g@thread.v2'' =
     (mention_span [] 0 ''@Bo'' @ '' '' @ mention_span everyone_scope 1 ''Everyone'',
      [pill_mention (gh_html example_ghosts) 0 ''8:bo'' ''Bo'', everyone_mention 1 ''19:g@thread.v2''])"
  by code_simp


theorem mentions_numbered_witness:
  "\<exists>b ms. outbound_text_html example_ghosts example_outbound ''19:g@thread.v2'' = (b, ms) \<and> length ms = 2 \<and>
     mention_number (ms ! 1) = Some (JNum (show_nat 1)) \<and>
     (sublist (mention_open [] 1) b \<or> sublist (mention_open everyone_scope 1) b)"
  using mentions_numbered [OF example_outbound_html] by (simp add: example_outbound_html)

end
