(* ===== verification/Matrix_Files.thy ===== *)
theory Matrix_Files
  imports Graph_Upload Outbound_Text
begin

text \<open>
  Files from Matrix to Teams: the download of a Matrix file (matrix_media.go), what a file message
  holds (internal/bridge/matrix_file_handler.go), and the three steps of sending it, upload to the
  user's OneDrive, sharing link and Teams message (internal/bridge/send_attachment.go,
  graph/create_link.go), with the \<open>files\<close> property that describes a file to Teams
  (attachments/files_builder.go) and its reader (model/attachment.go).

  A byte string is a file's content.  The Matrix server, the decryption, mautrix's reading of a file
  name and caption, and the JSON text are parameters.  \<open>None\<close> is a send that does not return, for the
  loop of chunks of Graph_Upload.
\<close>

definition max_attachment_bytes :: int where "max_attachment_bytes = 100 * 1024 * 1024"

section \<open>Downloads from Matrix\<close>

text \<open>The answer of the media download: \<open>ma_body\<close> is what reading its body gives.\<close>

record media_answer =
  ma_status :: int
  ma_length :: int
  ma_body :: "go_error + string"

record media_env =
  md_client_err :: "go_error option"
  md_parse :: "string \<Rightarrow> go_error + string"
  md_download :: "string \<Rightarrow> go_error + media_answer option"
  md_decrypt :: "matrix_content \<Rightarrow> string \<Rightarrow> go_error + string"
  md_file_name :: "matrix_content \<Rightarrow> string"
  md_caption :: "matrix_content \<Rightarrow> string"

definition download_matrix_media :: "media_env \<Rightarrow> string \<Rightarrow> matrix_content option \<Rightarrow> go_error + string" where
  "download_matrix_media me url0 file =
     (let url = trim_space url0; too_big = Plain ''attachment exceeds max size'' in
      if url = [] then Inl (Plain ''missing mxc url'')
      else case md_client_err me of
        Some e \<Rightarrow> Inl e
      | None \<Rightarrow>
     (case md_parse me url of
        Inl e \<Rightarrow> Inl e
      | Inr _ \<Rightarrow>
     (case md_download me url of
        Inl e \<Rightarrow> Inl e
      | Inr None \<Rightarrow> Inl (Plain ''download returned empty response'')
      | Inr (Some a) \<Rightarrow>
          if max_attachment_bytes < ma_length a then Inl too_big
          else case map_sum id (take (nat (max_attachment_bytes + 1))) (ma_body a) of
            Inl e \<Rightarrow> Inl e
          | Inr data \<Rightarrow>
              if max_attachment_bytes < int (length data) then Inl too_big
              else if data = [] \<and> 200 \<le> ma_status a \<and> ma_status a < 300 then Inl (Plain ''downloaded media is empty'')
              else case file of None \<Rightarrow> Inr data | Some m \<Rightarrow> md_decrypt me m data)))"

record matrix_file_info =
  fi_url :: string
  fi_name :: string
  fi_caption :: string
  fi_encrypted :: bool

text \<open>The last resort for a file name is the ID in its address.\<close>

definition extract_matrix_file_info :: "media_env \<Rightarrow> matrix_content \<Rightarrow> go_error + matrix_file_info" where
  "extract_matrix_file_info me m =
     (if mx_type m \<notin> {M_File, M_Image, M_Video, M_Audio} then Inl (Plain ''not a file message'')
      else let url = trim_space (case mx_encrypted m of Some u \<Rightarrow> u | None \<Rightarrow> mx_url m) in
           if url = [] then Inl (Plain ''missing mxc url'')
           else let named = trim_space (md_file_name me m);
                    by_id = (case md_parse me url of Inr i \<Rightarrow> trim_space i | Inl _ \<Rightarrow> [])
                in Inr \<lparr>fi_url = url, fi_name = (if named \<noteq> [] then named else if by_id \<noteq> [] then by_id else ''file''),
                       fi_caption = trim_space (md_caption me m), fi_encrypted = (mx_encrypted m \<noteq> None)\<rparr>)"

section \<open>The files property\<close>

record share_link =
  sl_id :: string
  sl_url :: string

definition file_descriptor :: "drive_item \<Rightarrow> share_link \<Rightarrow> string \<Rightarrow> string \<Rightarrow> json" where
  "file_descriptor d l filename ext0 =
     (let name = trim_space filename; unique = trim_space (di_unique_id d); site = trim_space (di_site_url d);
          url = trim_right_char CHR ''/'' site @ ''/Documents/Microsoft Teams Chat Files/'' @ path_escape name;
          ext = (case trim_space ext0 of [] \<Rightarrow> [] | c # r \<Rightarrow> if c = CHR ''.'' then r else c # r)
      in JObj [(''itemid'', JStr unique), (''fileName'', JStr name), (''fileType'', JStr ext),
           (''fileInfo'', JObj [(''itemId'', JStr (trim_space (di_id d))), (''fileUrl'', JStr url), (''siteUrl'', JStr site),
              (''serverRelativeUrl'', JStr []), (''shareUrl'', JStr (trim_space (sl_url l))), (''shareId'', JStr (trim_space (sl_id l)))]),
           (''fileChicletState'', JObj [(''serviceName'', JStr ''p2p''), (''state'', JStr ''active'')]),
           (''@type'', JStr ''http://schema.skype.com/File''), (''version'', JNum ''2''), (''id'', JStr unique), (''baseUrl'', JStr site),
           (''objectUrl'', JStr url), (''type'', JStr ext), (''title'', JStr name), (''state'', JStr ''active'')])"

definition build_teams_attachment_files_property ::
  "(json \<Rightarrow> string) \<Rightarrow> drive_item \<Rightarrow> share_link \<Rightarrow> string \<Rightarrow> string \<Rightarrow> go_error + string" where
  "build_teams_attachment_files_property json_text d l filename ext =
     (if trim_space filename = [] then Inl (Plain ''filename is empty'')
      else if trim_space (di_unique_id d) = [] then Inl (Plain ''uploaded list item unique id is empty'')
      else if trim_space (di_id d) = [] then Inl (Plain ''uploaded drive item id is empty'')
      else Inr (json_text (JArr [file_descriptor d l filename ext])))"

text \<open>Its reader.\<close>

record teams_attachment =
  ta_filename :: string
  ta_drive_item :: string
  ta_share_url :: string
  ta_download_url :: string
  ta_file_type :: string

definition decode_file :: "json \<Rightarrow> teams_attachment option" where
  "decode_file j =
     Option.bind (string_field ''fileName'' j) (\<lambda>name.
     Option.bind (struct_field ''fileInfo'' j) (\<lambda>info.
     Option.bind (string_field ''itemId'' info) (\<lambda>item.
     Option.bind (string_field ''shareUrl'' info) (\<lambda>share.
     Option.bind (string_field ''fileUrl'' info) (\<lambda>url.
     Option.bind (string_field ''fileType'' j) (\<lambda>type.
     Option.bind (string_field ''objectUrl'' j) (\<lambda>object.
       Some \<lparr>ta_filename = trim_space name, ta_drive_item = trim_space item,
             ta_share_url = (if trim_space share \<noteq> [] then trim_space share
                             else if trim_space object \<noteq> [] then trim_space object else trim_space url),
             ta_download_url = trim_space url, ta_file_type = trim_space type\<rparr>)))))))"

definition usable_attachment :: "teams_attachment \<Rightarrow> bool" where
  "usable_attachment a \<longleftrightarrow> ta_filename a \<noteq> [] \<and> (ta_share_url a \<noteq> [] \<or> ta_drive_item a \<noteq> [])"

text \<open>No attachments is the code's \<open>nil, false\<close>.\<close>

definition parse_attachments :: "(string \<Rightarrow> json option) \<Rightarrow> string \<Rightarrow> teams_attachment list" where
  "parse_attachments parse raw =
     (let t0 = trim_space raw;
          t = (if prefix [CHR 0x22] t0 then (case parse t0 of Some (JStr s) \<Rightarrow> trim_space s | _ \<Rightarrow> t0) else t0)
      in if t0 = [] \<or> t0 = ''[]'' \<or> t = [] \<or> t = ''[]'' then []
         else case Option.bind (parse t) (\<lambda>j. case j of JArr es \<Rightarrow> all_some (map decode_file es) | JNull \<Rightarrow> Some [] | _ \<Rightarrow> None) of
                None \<Rightarrow> []
              | Some as \<Rightarrow> filter usable_attachment as)"

section \<open>Sending a file\<close>

definition create_link_url :: "string \<Rightarrow> string" where
  "create_link_url i = ''https://graph.microsoft.com/v1.0/me/drive/items/'' @ i @ ''/createLink''"

definition create_share_link :: "'s graph_net \<Rightarrow> graph_client \<Rightarrow> string \<Rightarrow> 's \<Rightarrow> (go_error + share_link) \<times> 's" where
  "create_share_link net c i s =
     (if \<not> gc_has_http c then (Inl (Plain ''graph client missing http client''), s)
      else if trim_space (gc_token c) = [] then (Inl (Plain ''missing graph access token''), s)
      else if trim_space i = [] then (Inl (Plain ''listItemUniqueID is empty''), s)
      else (case graph_do net c (Create_Link (create_link_url i)) s of
              (Inl e, s') \<Rightarrow> (Inl e, s')
            | (Inr resp, s') \<Rightarrow>
                ((case gn_first net (resp_body resp) of
                    Inl e \<Rightarrow> Inl e
                  | Inr j \<Rightarrow>
                      (case (string_field ''shareId'' j, Option.bind (struct_field ''link'' j) (string_field ''webUrl'')) of
                         (Some i, Some u) \<Rightarrow>
                           if trim_space i = [] then Inl (Plain ''createLink response missing shareId'')
                           else if trim_space u = [] then Inl (Plain ''createLink response missing link.webUrl'')
                           else Inr \<lparr>sl_id = trim_space i, sl_url = trim_space u\<rparr>
                       | _ \<Rightarrow> Inl unmarshal_error)), s')))"

text \<open>\<open>filepath.Ext\<close>.\<close>

definition file_ext :: "string \<Rightarrow> string" where
  "file_ext name =
     (let t = takeWhile (\<lambda>c. c \<noteq> CHR ''/'' \<and> c \<noteq> CHR ''.'') (rev name) in
      case drop (length t) (rev name) of c # _ \<Rightarrow> if c = CHR ''.'' then CHR ''.'' # rev t else [] | [] \<Rightarrow> [])"

record 's file_sender =
  fs_graph :: "'s graph_net"
  fs_client :: graph_client
  fs_teams :: teams_net
  fs_api :: teams_client
  fs_json :: "json \<Rightarrow> string"
  fs_from :: string
  fs_max :: int

text \<open>What is left of a send: the error or the client message ID, the Teams requests it made, the drive after it.\<close>

type_synonym 's file_sent = "((go_error + string) \<times> teams_request list \<times> 's) option"

definition send_attachment_message ::
  "'s file_sender \<Rightarrow> ctx_props \<Rightarrow> gotime \<Rightarrow> string \<Rightarrow> string \<Rightarrow> string \<Rightarrow> string \<Rightarrow> string \<Rightarrow> 's \<Rightarrow> 's file_sent" where
  "send_attachment_message fs ctx now cmid thread filename content caption s =
     (let most = (if fs_max fs \<le> 0 then max_attachment_bytes else fs_max fs); from_id = trim_space (fs_from fs);
          failed = (\<lambda>e s'. Some (Inl e, [], s'))
      in if trim_space thread = [] then failed (Plain ''missing thread id'') s
         else if trim_space filename = [] then failed (Plain ''missing filename'') s
         else if content = [] then failed (Plain ''missing content'') s
         else if most < int (length content) then failed (Plain ''attachment exceeds max size'') s
         else if from_id = [] then failed (Plain ''missing from user id'') s
         else case upload_teams_chat_file (fs_graph fs) (fs_client fs) filename content s of
           None \<Rightarrow> None
         | Some (Slice_Panic, s1) \<Rightarrow> None
         | Some (Upload_Failed e, s1) \<Rightarrow> failed e s1
         | Some (Uploaded d, s1) \<Rightarrow>
        (case create_share_link (fs_graph fs) (fs_client fs) (di_id d) s1 of
           (Inl e, s2) \<Rightarrow> failed e s2
         | (Inr l, s2) \<Rightarrow>
        (case build_teams_attachment_files_property (fs_json fs) d l filename (file_ext filename) of
           Inl e \<Rightarrow> failed e s2
         | Inr files \<Rightarrow>
             (let html = (if trim_space caption \<noteq> [] then format_html_content caption else []);
                  x = send_attachment_with_id (fs_teams fs) (fs_api fs) ctx now thread html files from_id cmid
              in Some (case sn_err x of Some e \<Rightarrow> Inl e | None \<Rightarrow> Inr cmid, sn_requests x, s2)))))"

text \<open>\<open>HandleOutboundMatrixFile\<close>, over the send of a file with its name, content and caption.\<close>

definition handle_outbound_matrix_file ::
  "media_env \<Rightarrow> (string \<Rightarrow> string \<Rightarrow> string \<Rightarrow> 'w \<Rightarrow> (go_error option \<times> 'w) option) \<Rightarrow> matrix_content \<Rightarrow> 'w \<Rightarrow> (go_error option \<times> 'w) option" where
  "handle_outbound_matrix_file me send m w =
     (case extract_matrix_file_info me m of
        Inl e \<Rightarrow> Some (Some e, w)
      | Inr info \<Rightarrow>
          (case download_matrix_media me (fi_url info) (if fi_encrypted info then Some m else None) of
             Inl e \<Rightarrow> Some (Some e, w)
           | Inr data \<Rightarrow>
               if max_attachment_bytes < int (length data)
               then Some (Some (Plain (''attachment exceeds max size: '' @ show_int (int (length data)) @ '' > '' @ show_int max_attachment_bytes)), w)
               else send (fi_name info) data (fi_caption info) w))"

section \<open>A sent file is read back\<close>

text \<open>The JSON text of a list of files: an array, which the decoder reads back.\<close>

definition json_round :: "(string \<Rightarrow> json option) \<Rightarrow> (json \<Rightarrow> string) \<Rightarrow> json \<Rightarrow> bool" where
  "json_round parse json_text j \<longleftrightarrow>
     parse (json_text j) = Some j \<and> trim_space (json_text j) = json_text j \<and> prefix ''['' (json_text j) \<and> json_text j \<noteq> ''[]''"

definition file_url :: "drive_item \<Rightarrow> string \<Rightarrow> string" where
  "file_url d filename =
     trim_right_char CHR ''/'' (trim_space (di_site_url d)) @ ''/Documents/Microsoft Teams Chat Files/'' @ path_escape (trim_space filename)"

definition described :: "drive_item \<Rightarrow> share_link \<Rightarrow> string \<Rightarrow> string \<Rightarrow> teams_attachment" where
  "described d l filename ext0 =
     \<lparr>ta_filename = trim_space filename, ta_drive_item = trim_space (di_id d),
      ta_share_url = (if trim_space (sl_url l) \<noteq> [] then trim_space (sl_url l) else trim_space (file_url d filename)),
      ta_download_url = trim_space (file_url d filename),
      ta_file_type = trim_space (case trim_space ext0 of [] \<Rightarrow> [] | c # r \<Rightarrow> if c = CHR ''.'' then r else c # r)\<rparr>"

lemma decode_file_descriptor: "decode_file (file_descriptor d l filename ext0) = Some (described d l filename ext0)"
  by (simp add: file_descriptor_def decode_file_def described_def file_url_def Let_def string_field_def struct_field_def fold_eval)


lemma parse_described:
  assumes "json_round parse json_text (JArr [file_descriptor d l filename ext0])"
    and "usable_attachment (described d l filename ext0)"
  shows "parse_attachments parse (json_text (JArr [file_descriptor d l filename ext0])) = [described d l filename ext0]"
proof -
  let ?t = "json_text (JArr [file_descriptor d l filename ext0])"
  from assms(1) have t: "parse ?t = Some (JArr [file_descriptor d l filename ext0])" "trim_space ?t = ?t" "prefix ''['' ?t" "?t \<noteq> ''[]''"
    by (auto simp: json_round_def)
  then have "\<not> prefix [CHR 0x22] ?t" "?t \<noteq> []" by (auto simp: prefix_def)
  with t assms(2) show ?thesis by (simp add: parse_attachments_def Let_def decode_file_descriptor)
qed

lemma create_share_link_ok: "create_share_link net c i s = (Inr l, s') \<Longrightarrow> trim_space (sl_url l) \<noteq> [] \<and> trim_space i \<noteq> []"
  by (auto simp: create_share_link_def split: if_splits sum.splits prod.splits option.splits)

lemma files_of_payload:
  assumes "tr_payload req = Some (JObj (rich_text_payload (message_context i sj) now thread content from_id cmid (Some [(''files'', JStr f)])))"
  shows "payload_property ''files'' req = Some (JStr f)"
  unfolding rich_text_fields(6) [OF assms] context_properties by simp

text \<open>C29: A file the bridge sends is one it can read.  When sending a file makes any request to Teams, the file was
  uploaded to the drive and has a sharing link, and all requests are copies of one message: the caption as its
  content, and the file as its \<open>files\<close> property.  Reading that property back, as for a message that comes in,
  gives one attachment, with the trimmed name of the file, the ID of the uploaded item and the sharing link.\<close>

theorem sent_file_read_back:
  assumes "send_attachment_message fs (message_context i sj) now cmid thread filename content caption s = Some (r, reqs, s')"
    and "reqs \<noteq> []"
  shows "\<exists>d s1 l files req n. upload_teams_chat_file (fs_graph fs) (fs_client fs) filename content s = Some (Uploaded d, s1) \<and>
    create_share_link (fs_graph fs) (fs_client fs) (di_id d) s1 = (Inr l, s') \<and>
    reqs = replicate (Suc n) req \<and> n \<le> eff_retries (client_executor (fs_api fs)) \<and>
    payload_field ''content'' req = Some (JStr (if trim_space caption \<noteq> [] then format_html_content caption else [])) \<and>
    payload_property ''files'' req = Some (JStr files) \<and>
    trim_space filename \<noteq> [] \<and> trim_space (di_id d) \<noteq> [] \<and> trim_space (sl_url l) \<noteq> [] \<and>
    (json_round parse (fs_json fs) (JArr [file_descriptor d l filename (file_ext filename)]) \<longrightarrow>
       (\<exists>a. parse_attachments parse files = [a] \<and> ta_filename a = trim_space filename \<and>
          ta_drive_item a = trim_space (di_id d) \<and> ta_share_url a = trim_space (sl_url l)))"
proof -
  obtain d s1 where up: "upload_teams_chat_file (fs_graph fs) (fs_client fs) filename content s = Some (Uploaded d, s1)"
    and name: "trim_space filename \<noteq> []"
    using assms by (auto simp: send_attachment_message_def Let_def split: if_splits option.splits prod.splits upload_end.splits)
  obtain l where link: "create_share_link (fs_graph fs) (fs_client fs) (di_id d) s1 = (Inr l, s')"
    using assms up by (auto simp: send_attachment_message_def Let_def split: if_splits prod.splits sum.splits)
  obtain files where files: "build_teams_attachment_files_property (fs_json fs) d l filename (file_ext filename) = Inr files"
    using assms up link by (auto simp: send_attachment_message_def Let_def split: if_splits sum.splits)
  let ?html = "if trim_space caption \<noteq> [] then format_html_content caption else []"
  let ?x = "send_attachment_with_id (fs_teams fs) (fs_api fs) (message_context i sj) now thread ?html files (trim_space (fs_from fs)) cmid"
  have x: "reqs = sn_requests ?x"
    using assms up link files by (auto simp: send_attachment_message_def Let_def split: if_splits)
  then have sends: "sn_requests ?x \<noteq> []" using assms(2) by simp
  then have "trim_space files \<noteq> []" by (auto simp: send_attachment_with_id_def refused_def split: if_splits)
  with sends obtain t where "?x = post_rich_text_message (fs_teams fs) (fs_api fs) (message_context i sj) now t ?html
      (trim_space (fs_from fs)) cmid (Some [(''files'', JStr files)])"
    by (auto simp: send_attachment_with_id_def send_rich_text_with_id_def refused_def split: sum.splits)
  then obtain req where post: "?x = send_retrying (fs_teams fs) (fs_api fs) classify_teams_send req"
    and payload: "tr_payload req = Some (JObj (rich_text_payload (message_context i sj) now t ?html
      (trim_space (fs_from fs)) cmid (Some [(''files'', JStr files)])))"
    by (auto simp: post_rich_text_message_def make_request_def)
  obtain n where n: "n \<le> eff_retries (client_executor (fs_api fs))" "reqs = replicate (Suc n) req"
    using send_retrying_ok [OF sends [unfolded post]] x post by auto
  have fs: "files = fs_json fs (JArr [file_descriptor d l filename (file_ext filename)])" "trim_space (di_id d) \<noteq> []"
    using files by (auto simp: build_teams_attachment_files_property_def split: if_splits)
  let ?a = "described d l filename (file_ext filename)"
  have a: "ta_filename ?a = trim_space filename" "ta_drive_item ?a = trim_space (di_id d)" "ta_share_url ?a = trim_space (sl_url l)"
    "trim_space (sl_url l) \<noteq> []" using create_share_link_ok [OF link] by (simp_all add: described_def)
  then have "usable_attachment ?a" using name by (simp add: usable_attachment_def)
  then have "json_round parse (fs_json fs) (JArr [file_descriptor d l filename (file_ext filename)]) \<Longrightarrow> parse_attachments parse files = [?a]"
    unfolding fs(1) by (rule parse_described [rotated])
  then show ?thesis
    using up link n a fs(2) name rich_text_fields(2) [OF payload] files_of_payload [OF payload] by (intro exI conjI impI) simp_all
qed


definition example_link :: share_link where
  "example_link = \<lparr>sl_id = ''u!1'', sl_url = ''h''\<rparr>"

definition file_net :: "string graph_net" where
  "file_net = example_net\<lparr>
     gn_env := (\<lambda>req r. \<lparr>env_ctx = (\<lambda>_. None), env_ctx_after = (\<lambda>_. None),
        env_send = (\<lambda>_. Answered \<lparr>resp_status = 201, resp_retry_after = [], resp_body = (case req of Create_Link _ \<Rightarrow> ''link'' | _ \<Rightarrow> ''item'')\<rparr>),
        env_sleep = (\<lambda>_ _. None), env_jitter = (\<lambda>_ d. d)\<rparr>),
     gn_first := (\<lambda>body. if body = ''link'' then Inr (JObj [(''shareId'', JStr ''u!1''), (''link'', JObj [(''webUrl'', JStr ''h'')])]) else Inr item_json)\<rparr>"

definition example_sender :: "string file_sender" where
  "example_sender = \<lparr>fs_graph = file_net, fs_client = example_graph, fs_teams = send_net, fs_api = send_client,
     fs_json = (\<lambda>_. ''[x]''), fs_from = ''8:me'', fs_max = 0\<rparr>"

definition example_parse :: "string \<Rightarrow> json option" where
  "example_parse _ = Some (JArr [file_descriptor example_item example_link ''n.txt'' ''.txt''])"

lemma file_net_do:
  "graph_do file_net example_graph (Put_Content u b) r = (Inr \<lparr>resp_status = 201, resp_retry_after = [], resp_body = ''item''\<rparr>, r)"
  "graph_do file_net example_graph (Create_Link u) r = (Inr \<lparr>resp_status = 201, resp_retry_after = [], resp_body = ''link''\<rparr>, r)"
  by (simp_all add: graph_do_def file_net_def example_net_def executor_do_def exec_loop.simps request_body_of_def request_for_attempt_def
      graph_classify_def classify_upload_def classify_create_link_def classify_response_def)

lemma file_net_upload: "upload_teams_chat_file file_net example_graph ''n.txt'' ''a'' [] = Some (Uploaded example_item, [])"
proof -
  have "parse_uploaded_drive_item file_net ''item'' = parse_uploaded_drive_item example_net ''item''"
    by (simp add: parse_uploaded_drive_item_def file_net_def example_net_def)
  moreover have "trim_space ''n.txt'' = ''n.txt''" "trim_space ''t'' = ''t''" by (simp_all add: trim_space_plain plain_ends_def)
  moreover have "gn_read file_net q r = None" for q r by (simp add: file_net_def example_net_def)
  moreover have "gc_has_http example_graph" "gc_token example_graph = ''t''" "gc_max_size example_graph = 0" "gc_small_limit example_graph = 1"
    by (simp_all add: example_graph_def)
  ultimately show ?thesis
    by (simp add: upload_teams_chat_file_def file_net_do final_item_def example_final default_max_upload_bytes_def Let_def)
qed

lemma file_net_link: "create_share_link file_net example_graph ''i'' [] = (Inr example_link, [])"
proof -
  have "trim_space ''u!1'' = ''u!1''" "trim_space ''h'' = ''h''" "trim_space ''t'' = ''t''" "trim_space ''i'' = ''i''"
    by (simp_all add: trim_space_plain plain_ends_def)
  moreover have "gn_first file_net ''link'' = Inr (JObj [(''shareId'', JStr ''u!1''), (''link'', JObj [(''webUrl'', JStr ''h'')])])"
    by (simp add: file_net_def)
  moreover have "gc_has_http example_graph" "gc_token example_graph = ''t''" by (simp_all add: example_graph_def)
  ultimately show ?thesis
    by (simp add: create_share_link_def file_net_do string_field_def struct_field_def fold_eval example_link_def)
qed

lemma example_sender_sends:
  "\<exists>r reqs. send_attachment_message example_sender (message_context [] []) 1 ''7'' ''19:a@thread.v2'' ''n.txt'' ''a'' [] [] = Some (r, reqs, []) \<and> reqs \<noteq> []"
proof -
  have trims: "trim_space ''19:a@thread.v2'' = ''19:a@thread.v2''" "trim_space ''n.txt'' = ''n.txt''" "trim_space ''8:me'' = ''8:me''"
    "trim_space ''[x]'' = ''[x]''" "trim_space ''u'' = ''u''" "trim_space ''i'' = ''i''"
    by (simp_all add: trim_space_plain plain_ends_def)
  let ?x = "send_attachment_with_id send_net send_client (message_context [] []) 1 ''19:a@thread.v2'' [] ''[x]'' ''8:me'' ''7''"
  have "er_sent (exec_loop c (tn_attempts send_net req) (BodyAgain (\<lambda>_. None)) (classify_teams_send ra) 0) \<noteq> 0" for c req ra
    by (subst exec_loop.simps) (simp add: send_net_def busy_once_def request_for_attempt_def classify_teams_send_def classify_response_def)
  moreover have "tn_url_err send_net u = None" for u by (simp add: send_net_def)
  ultimately have "sn_requests ?x \<noteq> []"
    by (simp add: send_attachment_with_id_def send_rich_text_with_id_def validate_send_args_def send_client_def trims post_rich_text_message_def
        send_retrying_def Let_def executor_do_def)
  moreover have "di_id example_item = ''i''" "di_unique_id example_item = ''u''" by (simp_all add: example_item_def)
  ultimately show ?thesis
    by (simp add: send_attachment_message_def example_sender_def trims file_net_upload file_net_link Let_def
        build_teams_attachment_files_property_def max_attachment_bytes_def)
qed

theorem sent_file_read_back_witness:
  "\<exists>files a. parse_attachments example_parse files = [a] \<and> ta_filename a = ''n.txt'' \<and> ta_drive_item a = ''i'' \<and> ta_share_url a = ''h''"
proof -
  have trims: "trim_space ''n.txt'' = ''n.txt''" "trim_space ''i'' = ''i''" "trim_space ''h'' = ''h''" "trim_space ''[x]'' = ''[x]''"
    by (simp_all add: trim_space_plain plain_ends_def)
  have ext: "file_ext ''n.txt'' = ''.txt''" by (simp add: file_ext_def Let_def)
  have fields: "fs_graph example_sender = file_net" "fs_client example_sender = example_graph" "fs_json example_sender = (\<lambda>_. ''[x]'')"
    by (simp_all add: example_sender_def)
  obtain r reqs where "send_attachment_message example_sender (message_context [] []) 1 ''7'' ''19:a@thread.v2'' ''n.txt'' ''a'' [] [] = Some (r, reqs, [])"
    "reqs \<noteq> []" using example_sender_sends by blast
  from sent_file_read_back [OF this, of example_parse] obtain d s1 l files where
    up: "upload_teams_chat_file file_net example_graph ''n.txt'' ''a'' [] = Some (Uploaded d, s1)"
    and link: "create_share_link file_net example_graph (di_id d) s1 = (Inr l, [])"
    and read: "json_round example_parse (\<lambda>_. ''[x]'') (JArr [file_descriptor d l ''n.txt'' ''.txt'']) \<longrightarrow>
      (\<exists>a. parse_attachments example_parse files = [a] \<and> ta_filename a = trim_space ''n.txt'' \<and>
         ta_drive_item a = trim_space (di_id d) \<and> ta_share_url a = trim_space (sl_url l))"
    unfolding ext fields by blast
  have "d = example_item" "s1 = []" using up file_net_upload by auto
  moreover from this have "l = example_link" using link file_net_link by (simp add: example_item_def)
  moreover have "json_round example_parse (\<lambda>_. ''[x]'') (JArr [file_descriptor example_item example_link ''n.txt'' ''.txt''])"
    by (simp add: json_round_def example_parse_def trims)
  ultimately show ?thesis using read by (auto simp: trims example_item_def example_link_def)
qed

end
