(* ===== verification/Go_Text.thy ===== *)
theory Go_Text
  imports Go_Prelude "HOL-Library.Multiset"
begin

text \<open>
  What the connector does with texts a person wrote: the words of a text (\<open>strings.Fields\<close>), its runes, a text cut to a number
  of runes, and a text without tags.
\<close>

section \<open>Words and runes\<close>

text \<open>\<open>strings.Fields\<close>: \<open>n\<close> bytes of a space are still to pass, \<open>cur\<close> is the word so far.\<close>

fun go_fields_from :: "nat \<Rightarrow> string \<Rightarrow> string \<Rightarrow> string list" where
  "go_fields_from n cur [] = (if cur = [] then [] else [cur])"
| "go_fields_from (Suc n) cur (c # s) = go_fields_from n cur s"
| "go_fields_from 0 cur (c # s) =
     (case front_pat go_spaces (c # s) of
        Some p \<Rightarrow> (if cur = [] then [] else [cur]) @ go_fields_from (length p - 1) [] s
      | None \<Rightarrow> go_fields_from 0 (cur @ [c]) s)"

definition go_fields :: "string \<Rightarrow> string list" where "go_fields s = go_fields_from 0 [] s"

text \<open>How many bytes the rune at the front of a text has, 0 for a byte that begins none.\<close>

definition rune_width :: "string \<Rightarrow> nat" where
  "rune_width s =
     (let b = (\<lambda>i. if i < length s then of_char (s ! i) else (0 :: nat)); cont = (\<lambda>i. 0x80 \<le> b i \<and> b i \<le> 0xBF) in
      if b 0 < 0x80 then 1
      else if 0xC2 \<le> b 0 \<and> b 0 \<le> 0xDF \<and> cont 1 then 2
      else if b 0 = 0xE0 \<and> 0xA0 \<le> b 1 \<and> b 1 \<le> 0xBF \<and> cont 2 then 3
      else if b 0 = 0xED \<and> 0x80 \<le> b 1 \<and> b 1 \<le> 0x9F \<and> cont 2 then 3
      else if 0xE1 \<le> b 0 \<and> b 0 \<le> 0xEF \<and> b 0 \<noteq> 0xED \<and> cont 1 \<and> cont 2 then 3
      else if b 0 = 0xF0 \<and> 0x90 \<le> b 1 \<and> b 1 \<le> 0xBF \<and> cont 2 \<and> cont 3 then 4
      else if 0xF1 \<le> b 0 \<and> b 0 \<le> 0xF3 \<and> cont 1 \<and> cont 2 \<and> cont 3 then 4
      else if b 0 = 0xF4 \<and> 0x80 \<le> b 1 \<and> b 1 \<le> 0x8F \<and> cont 2 \<and> cont 3 then 4
      else 0)"

text \<open>\<open>[]rune\<close>, each rune as its bytes; U+FFFD for a byte that begins none.\<close>

fun go_runes_from :: "nat \<Rightarrow> string \<Rightarrow> string list" where
  "go_runes_from n [] = []"
| "go_runes_from (Suc n) (c # s) = go_runes_from n s"
| "go_runes_from 0 (c # s) =
     (let w = rune_width (c # s) in
      if w = 0 then [CHR 0xEF, CHR 0xBF, CHR 0xBD] # go_runes_from 0 s
      else take w (c # s) # go_runes_from (w - 1) s)"

definition ellipsis :: string where "ellipsis = [CHR 0xE2, CHR 0x80, CHR 0xA6]"

definition truncate_runes :: "string \<Rightarrow> nat \<Rightarrow> string" where
  "truncate_runes s n =
     (let r = go_runes_from 0 s in if length r \<le> n then s else concat (take (n - 1) r) @ ellipsis)"

text \<open>\<open><[^>]*>\<close> replaced by a space; \<open>inside\<close> a tag everything up to its end is passed over.\<close>

fun strip_tags_from :: "bool \<Rightarrow> string \<Rightarrow> string" where
  "strip_tags_from inside [] = []"
| "strip_tags_from True (c # s) = (if c = CHR ''>'' then strip_tags_from False s else strip_tags_from True s)"
| "strip_tags_from False (c # s) =
     (if c = CHR ''<'' \<and> CHR ''>'' \<in> set s then CHR '' '' # strip_tags_from True s else c # strip_tags_from False s)"

definition strip_tags :: "string \<Rightarrow> string" where "strip_tags s = strip_tags_from False s"

section \<open>Stable sorting\<close>

text \<open>\<open>sort.SliceStable\<close> with the \<open>less\<close> it is given: each one in front of all those it does not come after.\<close>

fun insert_stable :: "('a \<Rightarrow> 'a \<Rightarrow> bool) \<Rightarrow> 'a \<Rightarrow> 'a list \<Rightarrow> 'a list" where
  "insert_stable lt x [] = [x]"
| "insert_stable lt x (y # ys) = (if lt y x then y # insert_stable lt x ys else x # y # ys)"

definition stable_sort :: "('a \<Rightarrow> 'a \<Rightarrow> bool) \<Rightarrow> 'a list \<Rightarrow> 'a list" where
  "stable_sort lt xs = foldr (insert_stable lt) xs []"

section \<open>Facts\<close>

text \<open>No word is empty, and a text short enough is not cut.\<close>

lemma go_fields_nonempty: "[] \<notin> set (go_fields_from n cur s)"
  by (induction n cur s rule: go_fields_from.induct) (auto split: option.splits)

lemma truncated_runes: "length (go_runes_from 0 s) \<le> n \<Longrightarrow> truncate_runes s n = s"
  by (simp add: truncate_runes_def)

lemma mset_stable_sort [simp]: "mset (stable_sort lt xs) = mset xs"
proof -
  have "mset (insert_stable lt x ys) = add_mset x (mset ys)" for x ys by (induction ys) auto
  then show ?thesis unfolding stable_sort_def by (induction xs) auto
qed

text \<open>With a strict weak order nothing stands before what comes before it.\<close>

lemma sorted_stable_sort:
  assumes "\<And>x y. lt x y \<Longrightarrow> \<not> lt y x" and "\<And>x y z. \<not> lt x y \<Longrightarrow> \<not> lt y z \<Longrightarrow> \<not> lt x z"
  shows "sorted_wrt (\<lambda>x y. \<not> lt y x) (stable_sort lt xs)"
proof -
  have ins: "sorted_wrt (\<lambda>x y. \<not> lt y x) (insert_stable lt x ys)" if "sorted_wrt (\<lambda>x y. \<not> lt y x) ys" for x ys
    using that
  proof (induction ys)
    case (Cons y ys)
    have "set (insert_stable lt x ys) = insert x (set ys)" by (induction ys) auto
    moreover have "\<not> lt z x" if "\<not> lt y x" and "z \<in> set ys" for z
      using assms(2) [of z y x] Cons.prems that by simp
    ultimately show ?case using Cons assms(1) [of y x] by simp
  qed simp
  show ?thesis unfolding stable_sort_def by (induction xs) (simp_all add: ins)
qed

end
