(* ===== verification/Saved_Messages.thy ===== *)
theory Saved_Messages
  imports Chat_State Thread_Store Go_Text Graph_Upload Room_Names
begin

text \<open>
  Saved messages, both ways: what Teams keeps of them in each conversation (internal/teams/client/saved_messages.go), and
  the list of all of them the connector publishes (pkg/connector/saved_messages.go).

  The list is mapped to rooms and events by what the bridge knows, the parameter \<open>saved_env\<close>, which also has the orders
  in which Go walks its maps.  Requests to Teams and published lists are recorded.
\<close>

section \<open>Reading and writing them in Teams\<close>

record saved_message =
  sm_message :: string
  sm_root :: string
  sm_at :: int

definition rc_metadata_url :: "teams_client \<Rightarrow> string \<Rightarrow> string \<Rightarrow> string" where
  "rc_metadata_url c conv rest =
     messages_base c @ ''/v1/users/ME/conversations/'' @ path_escape conv @ ''/rcmetadata'' @ rest"

text \<open>The grammar of a JSON number, which a quoted one has to match too.\<close>

definition digits1 :: "string \<Rightarrow> string option" where
  "digits1 s = (case s of c # r \<Rightarrow> if c \<in> set ''0123456789'' then Some (dropWhile (\<lambda>d. d \<in> set ''0123456789'') r) else None
                | [] \<Rightarrow> None)"

definition exponent_ok :: "string \<Rightarrow> bool" where
  "exponent_ok s =
     (case s of [] \<Rightarrow> True
      | c # r \<Rightarrow> c \<in> set ''eE'' \<and>
          digits1 (case r of d # r' \<Rightarrow> if d \<in> set ''+-'' then r' else r | [] \<Rightarrow> []) = Some [])"

definition fraction_ok :: "string \<Rightarrow> bool" where
  "fraction_ok s =
     (case s of CHR ''.'' # r \<Rightarrow> (case digits1 r of Some r' \<Rightarrow> exponent_ok r' | None \<Rightarrow> False) | _ \<Rightarrow> exponent_ok s)"

definition valid_number :: "string \<Rightarrow> bool" where
  "valid_number s0 =
     (let s = (case s0 of CHR ''-'' # r \<Rightarrow> r | _ \<Rightarrow> s0) in
      case s of CHR ''0'' # r \<Rightarrow> fraction_ok r
      | _ \<Rightarrow> (case digits1 s of Some r \<Rightarrow> fraction_ok r | None \<Rightarrow> False))"

fun into_number :: "string \<Rightarrow> json list \<Rightarrow> string option" where
  "into_number cur [] = Some cur"
| "into_number cur (JNum n # vs) = into_number n vs"
| "into_number cur (JStr s # vs) = (if valid_number s then into_number s vs else None)"
| "into_number cur (JNull # vs) = into_number cur vs"
| "into_number cur (v # vs) = None"

text \<open>\<open>Number.Int64\<close> with its error dropped: 0 for no integer, the nearest one for one out of range.\<close>

definition number_int64 :: "string \<Rightarrow> int" where
  "number_int64 n =
     (case parse_int64 n of
        Some i \<Rightarrow> i
      | None \<Rightarrow> (case n of
           [] \<Rightarrow> 0
         | c # r \<Rightarrow> (let body = (if c = CHR ''-'' \<or> c = CHR ''+'' then r else n) in
             if body = [] \<or> digits_val 0 body = None then 0 else if c = CHR ''-'' then - (2 ^ 63) else 2 ^ 63 - 1)))"

definition decode_rc_entry :: "json \<Rightarrow> (string \<times> string \<times> int \<times> string list) option" where
  "decode_rc_entry j =
     Option.bind (struct_field ''rcMetadata'' j) (\<lambda>m.
     (case (Option.bind (field_values ''rootMessageId'' j) (into_number []), Option.bind (field_values ''lu'' m) (into_number []),
            int_field ''s'' m, Option.bind (slice_field ''sl2'' m) (\<lambda>xs. all_some (map (\<lambda>x. into_number [] [x]) xs))) of
        (Some root, Some lu, Some s, Some ids) \<Rightarrow> Some (root, lu, s, ids)
      | _ \<Rightarrow> None))"

definition decode_rc_list :: "json \<Rightarrow> (string \<times> string \<times> int \<times> string list) list option" where
  "decode_rc_list j = Option.bind (slice_field ''rcMetadataList'' j) (\<lambda>xs. all_some (map decode_rc_entry xs))"

definition saved_of_entry :: "string \<times> string \<times> int \<times> string list \<Rightarrow> saved_message list" where
  "saved_of_entry e =
     (case e of (root, lu, s, ids) \<Rightarrow>
       (if s = 1 \<and> root \<noteq> [] then [\<lparr>sm_message = root, sm_root = root, sm_at = number_int64 lu\<rparr>] else []) @
       map (\<lambda>i. \<lparr>sm_message = i, sm_root = root, sm_at = number_int64 lu\<rparr>) (filter (\<lambda>i. i \<noteq> [] \<and> i \<noteq> root) ids))"

definition parse_saved_messages :: "(string \<times> string \<times> int \<times> string list) list \<Rightarrow> saved_message list" where
  "parse_saved_messages es = sort_key (\<lambda>m. - sm_at m) (concat (map saved_of_entry es))"

definition get_saved_messages ::
  "teams_net \<Rightarrow> decode_env \<Rightarrow> teams_client \<Rightarrow> string \<Rightarrow> (go_error + saved_message list) \<times> teams_request list" where
  "get_saved_messages net env c conv0 =
     (let conv = trim_space conv0 in
      if \<not> tc_has_http c then (Inl missing_http, [])
      else if tc_token c = [] then (Inl missing_token, [])
      else if conv = [] then (Inl (Plain ''missing conversation id''), [])
      else (case user_properties_call net (make_request c ''GET'' (rc_metadata_url c conv ''?startTime=0&pageSize=500'') None) of
              (Inl e, reqs) \<Rightarrow> ((case e of ApiError _ st _ \<Rightarrow> if st = 404 then Inr [] else Inl e | _ \<Rightarrow> Inl e), reqs)
            | (Inr body, reqs) \<Rightarrow>
                ((case Option.bind (de_json env body) decode_rc_list of
                    None \<Rightarrow> Inl json_error
                  | Some es \<Rightarrow> Inr (parse_saved_messages es)), reqs)))"

definition set_message_saved ::
  "teams_net \<Rightarrow> teams_client \<Rightarrow> string \<Rightarrow> string \<Rightarrow> string \<Rightarrow> bool \<Rightarrow> go_error option \<times> teams_request list" where
  "set_message_saved net c conv0 root0 msg saved =
     (let conv = trim_space conv0; root = (if trim_space root0 = [] then msg else root0) in
      if \<not> tc_has_http c then (Some missing_http, [])
      else if tc_token c = [] then (Some missing_token, [])
      else case parse_int64 (trim_space msg) of
        None \<Rightarrow> (Some (Plain ''missing conversation or bad message id''), [])
      | Some mid \<Rightarrow>
          if conv = [] then (Some (Plain ''missing conversation or bad message id''), [])
          else (case user_properties_call net (make_request c ''PUT'' (rc_metadata_url c conv (''/'' @ path_escape (trim_space root)))
                       (Some (JObj [(''s'', JNum (if saved then ''1'' else ''0'')), (''mid'', JNum (show_int mid))]))) of
                  (r, reqs) \<Rightarrow> (the_err r, reqs)))"

section \<open>What the connector knows of them\<close>

record saved_item =
  si_thread :: string
  si_message :: string
  si_saved_ts :: int
  si_room :: string
  si_event :: string
  si_sender :: string
  si_who :: string
  si_preview :: string
  si_ts :: int

record saved_chat =
  sc_thread :: string
  sc_conversation :: string
  sc_version :: string

text \<open>The sender, their name, the text and the time of an event.\<close>

type_synonym saved_preview = "string \<times> string \<times> string \<times> int"

record saved_tracker =
  sv_versions :: "(string \<times> string) list"
  sv_saved :: "(string \<times> saved_message list) list"
  sv_previews :: "(string \<times> saved_preview) list"
  sv_pending :: "(string \<times> saved_chat) list"
  sv_published :: string
  sv_incomplete :: bool

record saved_env =
  se_chat_order :: "saved_chat list \<Rightarrow> saved_chat list"
  se_saved_order :: "(string \<times> saved_message list) list \<Rightarrow> (string \<times> saved_message list) list"
  se_room :: "string \<Rightarrow> string option"
  se_event :: "string \<Rightarrow> string option"
  se_get_event :: "string \<Rightarrow> string \<Rightarrow> (string \<times> int \<times> string) option"
  se_self :: string
  se_ghost_name :: "string \<Rightarrow> string"
  se_publish_err :: "saved_item list \<Rightarrow> go_error option"

definition empty_saved :: saved_tracker where
  "empty_saved = \<lparr>sv_versions = [], sv_saved = [], sv_previews = [], sv_pending = [], sv_published = [], sv_incomplete = False\<rparr>"

definition version_read :: "string \<Rightarrow> saved_tracker \<Rightarrow> string" where
  "version_read thread t = (case map_of (sv_versions t) thread of None \<Rightarrow> [] | Some v \<Rightarrow> v)"

definition note_version :: "string \<Rightarrow> string \<Rightarrow> string \<Rightarrow> saved_tracker \<Rightarrow> saved_tracker" where
  "note_version thread conv version t =
     (if version = [] \<or> version = ''0'' \<or> version_read thread t = version then t
      else t\<lparr>sv_pending := AList.update thread \<lparr>sc_thread = thread, sc_conversation = conv, sc_version = version\<rparr> (sv_pending t)\<rparr>)"

definition take_pending :: "saved_env \<Rightarrow> saved_tracker \<Rightarrow> saved_chat list \<times> saved_tracker" where
  "take_pending env t = (se_chat_order env (map snd (sv_pending t)), t\<lparr>sv_pending := []\<rparr>)"

definition store_saved :: "saved_chat \<Rightarrow> saved_message list \<Rightarrow> saved_tracker \<Rightarrow> saved_tracker" where
  "store_saved chat ms t =
     t\<lparr>sv_versions := AList.update (sc_thread chat) (sc_version chat) (sv_versions t),
       sv_saved := (if ms = [] then AList.delete (sc_thread chat) (sv_saved t) else AList.update (sc_thread chat) ms (sv_saved t))\<rparr>"

section \<open>Previews\<close>

definition saved_preview_length :: nat where "saved_preview_length = 200"

definition fetch_saved_preview :: "saved_env \<Rightarrow> string \<Rightarrow> string \<Rightarrow> saved_preview option" where
  "fetch_saved_preview env room event =
     (case se_get_event env room event of
        None \<Rightarrow> None
      | Some (sender, ts, body) \<Rightarrow>
          Some (sender, if sender = se_self env then ''You'' else se_ghost_name env sender,
            if body = [] then [] else truncate_runes (join_with '' '' (go_fields body)) saved_preview_length, ts))"

definition fill_saved_preview ::
  "saved_env \<Rightarrow> saved_item \<Rightarrow> (string \<times> saved_preview) list \<Rightarrow> saved_item \<times> (string \<times> saved_preview) list" where
  "fill_saved_preview env i cache =
     (case (case map_of cache (si_event i) of
              Some p \<Rightarrow> Some (p, cache)
            | None \<Rightarrow> map_option (\<lambda>p. (p, AList.update (si_event i) p cache)) (fetch_saved_preview env (si_room i) (si_event i))) of
        None \<Rightarrow> (i, cache)
      | Some ((sender, who, preview, ts), cache1) \<Rightarrow>
          (i\<lparr>si_sender := sender, si_who := who, si_preview := preview, si_ts := ts\<rparr>, cache1))"

section \<open>The published list\<close>

definition saved_before :: "saved_item \<Rightarrow> saved_item \<Rightarrow> bool" where
  "saved_before a b \<longleftrightarrow>
     (if si_saved_ts a \<noteq> si_saved_ts b then si_saved_ts b < si_saved_ts a else 0 < byte_compare (si_message a) (si_message b))"

definition bare_item :: "string \<Rightarrow> saved_message \<Rightarrow> saved_item" where
  "bare_item thread m =
     \<lparr>si_thread = thread, si_message = sm_message m, si_saved_ts = sm_at m, si_room = [], si_event = [], si_sender = [],
      si_who = [], si_preview = [], si_ts = 0\<rparr>"

definition saved_items :: "saved_env \<Rightarrow> saved_tracker \<Rightarrow> saved_item list" where
  "saved_items env t =
     stable_sort saved_before (concat (map (\<lambda>(thread, ms). map (bare_item thread) ms) (se_saved_order env (sv_saved t))))"

definition map_item ::
  "saved_env \<Rightarrow> saved_item \<Rightarrow> (string \<times> saved_preview) list \<Rightarrow> saved_item \<times> (string \<times> saved_preview) list" where
  "map_item env i cache =
     (case se_room env (si_thread i) of
        None \<Rightarrow> (i, cache)
      | Some room \<Rightarrow>
          (case se_event env (si_message i) of
             None \<Rightarrow> (i\<lparr>si_room := room\<rparr>, cache)
           | Some event \<Rightarrow> fill_saved_preview env (i\<lparr>si_room := room, si_event := event\<rparr>) cache))"

fun map_items ::
  "saved_env \<Rightarrow> saved_item list \<Rightarrow> (string \<times> saved_preview) list \<Rightarrow> saved_item list \<times> (string \<times> saved_preview) list" where
  "map_items env [] cache = ([], cache)"
| "map_items env (i # is) cache =
     (case map_item env i cache of (i1, c1) \<Rightarrow> (case map_items env is c1 of (is1, c2) \<Rightarrow> (i1 # is1, c2)))"

definition saved_sig :: "saved_item list \<Rightarrow> string" where
  "saved_sig is = ''v1'' @ concat (map (\<lambda>i. CHR 0x00 # si_thread i @ ''/'' @ si_message i @ ''/'' @ si_event i) is)"

text \<open>With the lists published, also those that could not be.\<close>

definition publish_saved_messages :: "saved_env \<Rightarrow> saved_tracker \<Rightarrow> saved_tracker \<times> saved_item list list" where
  "publish_saved_messages env t =
     (case map_items env (saved_items env t) (sv_previews t) of (is, cache) \<Rightarrow>
      (let t1 = t\<lparr>sv_previews := cache, sv_incomplete := list_ex (\<lambda>i. si_event i = []) is\<rparr> in
       if saved_sig is = sv_published t then (t1, [])
       else (if se_publish_err env is = None then t1\<lparr>sv_published := saved_sig is\<rparr> else t1, [is])))"

definition read_saved ::
  "teams_net \<Rightarrow> decode_env \<Rightarrow> teams_client \<Rightarrow> saved_chat \<Rightarrow> saved_tracker \<Rightarrow> saved_tracker \<times> teams_request list" where
  "read_saved net dec c chat t =
     (case get_saved_messages net dec c (sc_conversation chat) of
        (Inl _, reqs) \<Rightarrow> (t, reqs)
      | (Inr ms, reqs) \<Rightarrow> (store_saved chat ms t, reqs))"

fun read_all_saved ::
  "teams_net \<Rightarrow> decode_env \<Rightarrow> teams_client \<Rightarrow> saved_chat list \<Rightarrow> saved_tracker \<Rightarrow> saved_tracker \<times> teams_request list" where
  "read_all_saved net dec c [] t = (t, [])"
| "read_all_saved net dec c (chat # chats) t =
     (case read_saved net dec c chat t of (t1, reqs) \<Rightarrow>
      (case read_all_saved net dec c chats t1 of (t2, reqs2) \<Rightarrow> (t2, reqs @ reqs2)))"

definition sync_saved_messages ::
  "saved_env \<Rightarrow> teams_net \<Rightarrow> decode_env \<Rightarrow> teams_client \<Rightarrow> saved_tracker \<Rightarrow>
   saved_tracker \<times> teams_request list \<times> saved_item list list" where
  "sync_saved_messages env net dec c t0 =
     (case take_pending env t0 of (chats, t) \<Rightarrow>
      if chats = [] \<and> sv_published t \<noteq> [] \<and> \<not> sv_incomplete t then (t, [], [])
      else (case read_all_saved net dec c chats t of (t1, reqs) \<Rightarrow>
            (case publish_saved_messages env t1 of (t2, pubs) \<Rightarrow> (t2, reqs, pubs))))"

section \<open>The commands\<close>

definition conversation_of :: "thread_state option \<Rightarrow> string \<Rightarrow> string" where
  "conversation_of row thread =
     (case row of Some r \<Rightarrow> if trim_space (ts_conversation r) \<noteq> [] then trim_space (ts_conversation r) else thread | None \<Rightarrow> thread)"

text \<open>The conversation whose chat can be pinned: there is none for channels and team spaces.\<close>

definition pinnable_conversation_id :: "thread_state option \<Rightarrow> string \<Rightarrow> string option" where
  "pinnable_conversation_id row thread =
     (if is_channel_thread thread then None else case row of None \<Rightarrow> None | Some _ \<Rightarrow> Some (conversation_of row thread))"

text \<open>\<open>save\<close> and \<open>unsave\<close> of a message that was bridged, after which its chat is read again; with the error to tell.\<close>

definition save_command ::
  "saved_env \<Rightarrow> teams_net \<Rightarrow> decode_env \<Rightarrow> teams_client \<Rightarrow> thread_state option \<Rightarrow> bool \<Rightarrow> string \<Rightarrow> string \<Rightarrow> string \<Rightarrow> saved_tracker \<Rightarrow>
   go_error option \<times> saved_tracker \<times> teams_request list \<times> saved_item list list" where
  "save_command env net dec c row save thread root msg t =
     (let conv = conversation_of row thread in
      case set_message_saved net c conv root msg save of
        (Some e, reqs) \<Rightarrow> (Some e, t, reqs, [])
      | (None, reqs) \<Rightarrow>
          (case get_saved_messages net dec c conv of
             (Inl _, reqs2) \<Rightarrow> (None, t, reqs @ reqs2, [])
           | (Inr ms, reqs2) \<Rightarrow>
               (case publish_saved_messages env (store_saved \<lparr>sc_thread = thread, sc_conversation = conv, sc_version = []\<rparr> ms t) of
                  (t1, pubs) \<Rightarrow> (None, t1, reqs @ reqs2, pubs))))"

section \<open>Facts\<close>

lemma note_version_keeps [simp]:
  "sv_versions (note_version th cv v t) = sv_versions t" "sv_saved (note_version th cv v t) = sv_saved t"
  "version_read x (note_version th cv v t) = version_read x t"
  by (simp_all add: note_version_def version_read_def)

lemma version_read_pending [simp]: "version_read x (t\<lparr>sv_pending := p\<rparr>) = version_read x t"
  by (simp add: version_read_def)

lemma note_version_known: "v = [] \<or> v = ''0'' \<or> version_read th t = v \<Longrightarrow> note_version th cv v t = t"
  by (auto simp: note_version_def)

definition note_versions :: "(string \<times> string \<times> string) list \<Rightarrow> saved_tracker \<Rightarrow> saved_tracker" where
  "note_versions vs t = fold (\<lambda>(th, cv, v). note_version th cv v) vs t"

lemma note_versions_known:
  "\<forall>(th, cv, v) \<in> set vs. v = [] \<or> v = ''0'' \<or> version_read th t = v \<Longrightarrow> note_versions vs t = t"
  unfolding note_versions_def by (induction vs) (auto simp: note_version_known)

text \<open>A chat to be read is one that was noted, at the version that was noted.\<close>

lemma note_versions_pending:
  assumes "distinct (map fst vs)"
  shows "map_of (sv_pending (note_versions vs t)) th =
    (case map_of vs th of
       Some (cv, v) \<Rightarrow> if v = [] \<or> v = ''0'' \<or> version_read th t = v then map_of (sv_pending t) th
         else Some \<lparr>sc_thread = th, sc_conversation = cv, sc_version = v\<rparr>
     | None \<Rightarrow> map_of (sv_pending t) th)"
  using assms unfolding note_versions_def
proof (induction vs arbitrary: t)
  case (Cons x vs)
  obtain a cv v where x: "x = (a, cv, v)" by (cases x)
  have "map_of vs a = None" using Cons.prems by (auto simp: x map_of_eq_None_iff)
  then show ?case using Cons by (auto simp: x note_version_def update_conv' split: option.split)
qed simp

lemma note_versions_read [simp]: "version_read th (note_versions vs t) = version_read th t"
  unfolding note_versions_def by (induction vs arbitrary: t) auto

lemma note_versions_distinct: "distinct (map fst (sv_pending t)) \<Longrightarrow> distinct (map fst (sv_pending (note_versions vs t)))"
  unfolding note_versions_def by (induction vs arbitrary: t) (auto simp: note_version_def distinct_update)

lemma read_saved_version:
  "fst (get_saved_messages net dec c (sc_conversation chat)) = Inr ms \<Longrightarrow>
   version_read th (fst (read_saved net dec c chat t)) = (if th = sc_thread chat then sc_version chat else version_read th t)"
  by (auto simp: read_saved_def store_saved_def version_read_def update_conv' split: prod.splits)

lemma read_all_version:
  assumes "\<forall>chat \<in> set chats. \<exists>ms. fst (get_saved_messages net dec c (sc_conversation chat)) = Inr ms"
    and "\<forall>chat \<in> set chats. sc_thread chat = th \<longrightarrow> sc_version chat = v"
    and "th \<in> sc_thread ` set chats \<or> version_read th t = v"
  shows "version_read th (fst (read_all_saved net dec c chats t)) = v"
  using assms
proof (induction chats arbitrary: t)
  case (Cons chat chats)
  obtain ms where ms: "fst (get_saved_messages net dec c (sc_conversation chat)) = Inr ms" using Cons.prems(1) by auto
  have "version_read th (fst (read_all_saved net dec c chats (fst (read_saved net dec c chat t)))) = v"
    using Cons.prems by (intro Cons.IH) (auto simp: read_saved_version [OF ms])
  then show ?case by (auto split: prod.splits)
qed simp

lemma read_saved_keeps: "sv_pending (fst (read_saved net dec c chat t)) = sv_pending t"
  by (auto simp: read_saved_def store_saved_def split: prod.splits sum.splits)

lemma read_all_keeps: "sv_pending (fst (read_all_saved net dec c chats t)) = sv_pending t"
proof (induction chats arbitrary: t)
  case (Cons chat chats)
  show ?case using Cons.IH [of "fst (read_saved net dec c chat t)"] by (auto simp: read_saved_keeps split: prod.splits)
qed simp

lemma publish_keeps:
  "sv_pending (fst (publish_saved_messages env t)) = sv_pending t"
  "version_read th (fst (publish_saved_messages env t)) = version_read th t"
  by (auto simp: publish_saved_messages_def version_read_def Let_def split: prod.splits)

lemma publish_published: "\<forall>l. se_publish_err env l = None \<Longrightarrow> sv_published (fst (publish_saved_messages env t)) \<noteq> []"
  by (auto simp: publish_saved_messages_def saved_sig_def Let_def split: prod.splits if_splits)

text \<open>What a pass of \<open>syncSavedMessages\<close> leaves.\<close>

lemma sync_saved_leaves:
  assumes "\<forall>l. se_publish_err env l = None"
  shows "sv_pending (fst (sync_saved_messages env net dec c t)) = []"
    and "sv_published (fst (sync_saved_messages env net dec c t)) \<noteq> []"
proof -
  let ?chats = "se_chat_order env (map snd (sv_pending t))" and ?t = "t\<lparr>sv_pending := []\<rparr>"
  obtain t1 reqs where r: "read_all_saved net dec c ?chats ?t = (t1, reqs)" by fastforce
  obtain t2 pubs where p: "publish_saved_messages env t1 = (t2, pubs)" by fastforce
  have e: "sv_pending t2 = []" using publish_keeps(1) [of env t1] read_all_keeps [of net dec c ?chats ?t] p r by simp
  have pub: "sv_published t2 \<noteq> []" using publish_published [OF assms(1), of t1] p by simp
  show "sv_pending (fst (sync_saved_messages env net dec c t)) = []"
    and "sv_published (fst (sync_saved_messages env net dec c t)) \<noteq> []"
    using e pub by (auto simp: sync_saved_messages_def take_pending_def r p)
qed

lemma sync_saved_read:
  assumes "\<forall>xs. set (se_chat_order env xs) = set xs"
    and "\<forall>chat \<in> snd ` set (sv_pending t). \<exists>ms. fst (get_saved_messages net dec c (sc_conversation chat)) = Inr ms"
    and "\<forall>chat \<in> snd ` set (sv_pending t). sc_thread chat = th \<longrightarrow> sc_version chat = v"
    and "th \<in> sc_thread ` snd ` set (sv_pending t) \<or> version_read th t = v"
  shows "version_read th (fst (sync_saved_messages env net dec c t)) = v"
proof -
  let ?chats = "se_chat_order env (map snd (sv_pending t))" and ?t = "t\<lparr>sv_pending := []\<rparr>"
  obtain t1 reqs where r: "read_all_saved net dec c ?chats ?t = (t1, reqs)" by fastforce
  obtain t2 pubs where p: "publish_saved_messages env t1 = (t2, pubs)" by fastforce
  have set: "set ?chats = snd ` set (sv_pending t)" using assms(1) by simp
  have "version_read th t1 = v"
    using read_all_version [of ?chats net dec c th v ?t] assms(2-4) unfolding set r by simp
  then have v: "version_read th t2 = v" using publish_keeps(2) [of th env t1] p by simp
  moreover have "?chats = [] \<Longrightarrow> version_read th t = v" using assms(4) set by auto
  ultimately show ?thesis by (auto simp: sync_saved_messages_def take_pending_def r p)
qed

section \<open>Properties\<close>

text \<open>C39: Saved messages are read and published once.  Discovery notes the versions of the chats and the saved messages are
  synchronised: when every chat to be read can be read, the list can be published and every message of it is one
  that was bridged, then noting the same versions and synchronising again asks Teams nothing, publishes nothing and
  changes nothing.\<close>

theorem saved_settles:
  assumes "sv_pending t0 = []" and "distinct (map fst vs)"
    and "sync_saved_messages env net dec c (note_versions vs t0) = (t1, reqs, pubs)" and "\<not> sv_incomplete t1"
    and "\<forall>l. se_publish_err env l = None" and "\<forall>xs. set (se_chat_order env xs) = set xs"
    and "\<forall>(th, cv, v) \<in> set vs. \<exists>ms. fst (get_saved_messages net dec c cv) = Inr ms"
  shows "sync_saved_messages env net dec c (note_versions vs t1) = (t1, [], [])"
proof -
  let ?t = "note_versions vs t0"
  have pending: "map_of (sv_pending ?t) th = (case map_of vs th of
       Some (cv, v) \<Rightarrow> if v = [] \<or> v = ''0'' \<or> version_read th t0 = v then None else Some \<lparr>sc_thread = th, sc_conversation = cv, sc_version = v\<rparr>
     | None \<Rightarrow> None)" for th
    using note_versions_pending [OF assms(2), of t0 th] by (simp add: assms(1) split: option.split)
  have d: "distinct (map fst (sv_pending ?t))" by (rule note_versions_distinct) (simp add: assms(1))
  have chat: "\<exists>th cv v. chat = \<lparr>sc_thread = th, sc_conversation = cv, sc_version = v\<rparr> \<and> map_of vs th = Some (cv, v)"
    if "chat \<in> snd ` set (sv_pending ?t)" for chat
  proof -
    from that obtain th where "(th, chat) \<in> set (sv_pending ?t)" by force
    then have "map_of (sv_pending ?t) th = Some chat" using d by simp
    then show ?thesis using pending [of th] by (auto split: option.splits if_splits)
  qed
  have readable: "\<forall>chat \<in> snd ` set (sv_pending ?t). \<exists>ms. fst (get_saved_messages net dec c (sc_conversation chat)) = Inr ms"
    using chat assms(7) by (fastforce dest: map_of_SomeD)
  have left: "sv_pending t1 = []" "sv_published t1 \<noteq> []"
    using sync_saved_leaves [OF assms(5), of net dec c ?t] by (simp_all add: assms(3))
  have "v = [] \<or> v = ''0'' \<or> version_read th t1 = v" if mem: "(th, cv, v) \<in> set vs" for th cv v
  proof (cases "v = [] \<or> v = ''0''")
    case False
    have vs: "map_of vs th = Some (cv, v)" using mem assms(2) by simp
    have "\<forall>chat \<in> snd ` set (sv_pending ?t). sc_thread chat = th \<longrightarrow> sc_version chat = v" using chat vs by fastforce
    moreover have "th \<in> sc_thread ` snd ` set (sv_pending ?t) \<or> version_read th ?t = v"
    proof (cases "version_read th t0 = v")
      case new: False
      then have "(th, \<lparr>sc_thread = th, sc_conversation = cv, sc_version = v\<rparr>) \<in> set (sv_pending ?t)"
        using pending [of th] vs False by (auto dest: map_of_SomeD)
      then show ?thesis by force
    qed simp
    ultimately have "version_read th (fst (sync_saved_messages env net dec c ?t)) = v"
      by (rule sync_saved_read [OF assms(6) readable])
    then show ?thesis by (simp add: assms(3))
  qed blast
  then have read: "\<forall>(th, cv, v) \<in> set vs. v = [] \<or> v = ''0'' \<or> version_read th t1 = v" by blast
  have "note_versions vs t1 = t1" by (rule note_versions_known [OF read])
  moreover have "se_chat_order env [] = []" using assms(6) by (metis empty_set set_empty)
  ultimately show ?thesis using left assms(4) by (simp add: sync_saved_messages_def take_pending_def)
qed

text \<open>Two chats, one with a saved message that was bridged, one whose saved messages were never written (404).\<close>

definition saved_client :: teams_client where
  "saved_client = \<lparr>tc_has_http = True, tc_token = ''tok'', tc_send_url = [], tc_messages_url = ''https://h'', tc_executor = None\<rparr>"

definition saved_net :: teams_net where
  "saved_net =
     \<lparr>tn_attempts = undefined,
      tn_answer = (\<lambda>r. Answered (if sublist ''19:a'' (tr_url r) then \<lparr>resp_status = 200, resp_retry_after = [], resp_body = ''a''\<rparr>
        else \<lparr>resp_status = 404, resp_retry_after = [], resp_body = []\<rparr>)),
      tn_location = (\<lambda>_. []), tn_url_err = (\<lambda>_. None), tn_retry_after = (\<lambda>_. 0)\<rparr>"

definition saved_json :: json where
  "saved_json = JObj [(''rcMetadataList'', JArr [JObj [(''rootMessageId'', JNum ''17''),
     (''rcMetadata'', JObj [(''lu'', JNum ''99''), (''s'', JNum ''1'')])]])]"

definition saved_dec :: decode_env where
  "saved_dec =
     \<lparr>de_html = undefined, de_json = (\<lambda>_. Some saved_json),
      de_json_text = (\<lambda>_. []), de_float = (\<lambda>_. None), de_time = (\<lambda>_ _. None)\<rparr>"

definition example_saved_env :: saved_env where
  "example_saved_env =
     \<lparr>se_chat_order = (\<lambda>xs. xs), se_saved_order = (\<lambda>xs. xs), se_room = (\<lambda>_. Some ''!r''), se_event = (\<lambda>i. Some (CHR ''$'' # i)),
      se_get_event = (\<lambda>_ _. None), se_self = ''@me'', se_ghost_name = (\<lambda>_. []), se_publish_err = (\<lambda>_. None)\<rparr>"

definition example_versions :: "(string \<times> string \<times> string) list" where
  "example_versions = [(''a'', ''19:a'', ''7''), (''b'', ''19:b'', ''8'')]"

lemma example_saved_fields [simp]:
  "tc_has_http saved_client" "tc_token saved_client \<noteq> []" "tn_url_err saved_net u = None"
  "tn_answer saved_net q = Answered (if sublist ''19:a'' (tr_url q) then \<lparr>resp_status = 200, resp_retry_after = [], resp_body = ''a''\<rparr>
     else \<lparr>resp_status = 404, resp_retry_after = [], resp_body = []\<rparr>)"
  "tr_url (make_request saved_client m u p) = u"
  "trim_space ''19:a'' = ''19:a''" "trim_space ''19:b'' = ''19:b''"
  by (simp_all add: saved_client_def saved_net_def make_request_def trim_space_plain plain_ends_def)

lemma example_saved_urls [simp]:
  "sublist ''19:a'' (rc_metadata_url saved_client ''19:a'' ''?startTime=0&pageSize=500'')"
  "\<not> sublist ''19:a'' (rc_metadata_url saved_client ''19:b'' ''?startTime=0&pageSize=500'')"
proof -
  have base: "messages_base saved_client = ''https://h''" by code_simp
  show "sublist ''19:a'' (rc_metadata_url saved_client ''19:a'' ''?startTime=0&pageSize=500'')"
    and "\<not> sublist ''19:a'' (rc_metadata_url saved_client ''19:b'' ''?startTime=0&pageSize=500'')"
    by (simp_all add: rc_metadata_url_def base) code_simp+
qed

lemma example_saved_numbers: "parse_int64 ''99'' = Some 99" "parse_int64 ''1'' = Some 1"
  by (simp_all add: parse_int64_def parse_uint64_def)

lemma example_saved_list: "decode_rc_list saved_json = Some [(''17'', ''99'', 1, [])]"
  by (simp add: saved_json_def decode_rc_list_def decode_rc_entry_def slice_field_def struct_field_def int_field_def fold_eval example_saved_numbers)

lemma example_saved_json [simp]: "de_json saved_dec b = Some saved_json"
  by (simp add: saved_dec_def)

lemma example_saved_read:
  "\<exists>reqs. get_saved_messages saved_net saved_dec saved_client ''19:a'' = (Inr [\<lparr>sm_message = ''17'', sm_root = ''17'', sm_at = 99\<rparr>], reqs)"
  "\<exists>reqs. get_saved_messages saved_net saved_dec saved_client ''19:b'' = (Inr [], reqs)"
proof -
  show "\<exists>reqs. get_saved_messages saved_net saved_dec saved_client ''19:a'' = (Inr [\<lparr>sm_message = ''17'', sm_root = ''17'', sm_at = 99\<rparr>], reqs)"
    by (simp add: get_saved_messages_def user_properties_call_def classify_response_def example_saved_list
        parse_saved_messages_def saved_of_entry_def number_int64_def example_saved_numbers Let_def)
  show "\<exists>reqs. get_saved_messages saved_net saved_dec saved_client ''19:b'' = (Inr [], reqs)"
    by (simp add: get_saved_messages_def user_properties_call_def classify_response_def Let_def)
qed

lemma example_saved_synced:
  "\<exists>t1 reqs pubs. sync_saved_messages example_saved_env saved_net saved_dec saved_client (note_versions example_versions empty_saved) = (t1, reqs, pubs) \<and>
     \<not> sv_incomplete t1 \<and> length pubs = 1"
proof -
  obtain qa qb where q: "get_saved_messages saved_net saved_dec saved_client ''19:a'' = (Inr [\<lparr>sm_message = ''17'', sm_root = ''17'', sm_at = 99\<rparr>], qa)"
    "get_saved_messages saved_net saved_dec saved_client ''19:b'' = (Inr [], qb)" using example_saved_read by blast
  show ?thesis
    by (simp add: sync_saved_messages_def take_pending_def note_versions_def note_version_def example_versions_def empty_saved_def
        version_read_def example_saved_env_def read_saved_def q store_saved_def publish_saved_messages_def saved_items_def stable_sort_def
        bare_item_def map_item_def fill_saved_preview_def fetch_saved_preview_def saved_sig_def Let_def)
qed

theorem saved_settles_witness:
  "\<exists>t1 reqs pubs. sync_saved_messages example_saved_env saved_net saved_dec saved_client (note_versions example_versions empty_saved) = (t1, reqs, pubs) \<and>
     length pubs = 1 \<and> sync_saved_messages example_saved_env saved_net saved_dec saved_client (note_versions example_versions t1) = (t1, [], [])"
proof -
  obtain t1 reqs pubs where s: "sync_saved_messages example_saved_env saved_net saved_dec saved_client (note_versions example_versions empty_saved) = (t1, reqs, pubs)"
      "\<not> sv_incomplete t1" "length pubs = 1" using example_saved_synced by blast
  have e: "sv_pending empty_saved = []" "distinct (map fst example_versions)"
      "\<forall>l. se_publish_err example_saved_env l = None" "\<forall>xs. set (se_chat_order example_saved_env xs) = set xs"
    by (simp_all add: empty_saved_def example_versions_def example_saved_env_def)
  have r: "\<forall>(th, cv, v) \<in> set example_versions. \<exists>ms. fst (get_saved_messages saved_net saved_dec saved_client cv) = Inr ms"
    using example_saved_read by (auto simp: example_versions_def)
  show ?thesis using s(1,3) saved_settles [OF e(1,2) s(1,2) e(3,4) r] by blast
qed

end
