(* ===== verification/Pinned_Messages.thy ===== *)
theory Pinned_Messages
  imports Chat_State
begin

text \<open>
  Pinned messages, both ways (pkg/connector/pinned_messages.go).  The pins of a chat are a property of its thread, a list
  of message IDs written whole; the pins of its room are a state event, a list of Matrix events.  The connector keeps
  the list it saw or wrote last, as a text, and changes a room only when Teams' list differs from it.

  The requests to Teams are those of Chat_State.  What the bridge knows of rooms and messages is the parameter
  \<open>pin_env\<close>; the state events sent are recorded, also those that fail.
\<close>

section \<open>State and environment\<close>

record pin_tracker =
  pk_sigs :: "(string \<times> string) list"
  pk_pinnable :: "string list"

datatype pin_event = Set_Pins string "string list" | Open_Pins string

text \<open>The room of a thread, if there is one; the event of a message and the message of an event, if it was bridged; the power
  level pins need in a room; the errors of state events; what is known of who sent an event.\<close>

record pin_env =
  pn_room :: "string \<Rightarrow> string option"
  pn_thread_of :: "string \<Rightarrow> string option"
  pn_event :: "string \<Rightarrow> string option"
  pn_message :: "string \<Rightarrow> string option"
  pn_level :: "string \<Rightarrow> int option"
  pn_send_err :: "pin_event \<Rightarrow> go_error option"
  pn_bridge_user :: "string \<Rightarrow> bool"
  pn_logged_in :: "string \<Rightarrow> bool"

definition empty_pins :: pin_tracker where "empty_pins = \<lparr>pk_sigs = [], pk_pinnable = []\<rparr>"

section \<open>The list of pins as text\<close>

definition pin_sig :: "string list \<Rightarrow> string" where "pin_sig ids = join_with '','' ids"

definition split_pinned_sig :: "string \<Rightarrow> string list" where
  "split_pinned_sig sig = (if sig = [] then [] else split_on (CHR '','') sig)"

text \<open>Messages newly pinned first, the last of them foremost, then those that stay, in Teams' order.\<close>

definition merge_pinned_items :: "string list \<Rightarrow> string list \<Rightarrow> string list" where
  "merge_pinned_items current wanted =
     filter (\<lambda>i. i \<notin> set current) (rev wanted) @ filter (\<lambda>i. i \<in> set wanted) current"

section \<open>From Teams to Matrix\<close>

definition mark_pinnable :: "string \<Rightarrow> pin_tracker \<Rightarrow> bool \<times> pin_tracker" where
  "mark_pinnable room t =
     (if room \<in> set (pk_pinnable t) then (False, t) else (True, t\<lparr>pk_pinnable := room # pk_pinnable t\<rparr>))"

definition note_pins :: "string \<Rightarrow> string \<Rightarrow> pin_tracker \<Rightarrow> pin_tracker" where
  "note_pins thread sig t = t\<lparr>pk_sigs := AList.update thread sig (pk_sigs t)\<rparr>"

definition ensure_pinnable :: "pin_env \<Rightarrow> string \<Rightarrow> pin_tracker \<Rightarrow> pin_tracker \<times> pin_event list" where
  "ensure_pinnable env thread t =
     (case pn_room env thread of
        None \<Rightarrow> (t, [])
      | Some room \<Rightarrow>
          (case mark_pinnable room t of
             (False, t1) \<Rightarrow> (t1, [])
           | (True, t1) \<Rightarrow>
               (case pn_level env room of
                  None \<Rightarrow> (t1, [])
                | Some l \<Rightarrow> if l \<le> 0 then (t1, []) else (t1, [Open_Pins room]))))"

definition sync_pinned_messages ::
  "pin_env \<Rightarrow> (string \<Rightarrow> json option) \<Rightarrow> string \<Rightarrow> string \<Rightarrow> pin_tracker \<Rightarrow> pin_tracker \<times> pin_event list" where
  "sync_pinned_messages env parse thread raw t0 =
     (let ids = parse_pinned_items parse raw; sig = pin_sig ids in
      case ensure_pinnable env thread t0 of (t, evs) \<Rightarrow>
      let known = map_of (pk_sigs t) thread in
      if known = Some sig then (t, evs)
      else if known = None \<and> sig = [] then (note_pins thread sig t, evs)
      else (case pn_room env thread of
              None \<Rightarrow> (t, evs)
            | Some room \<Rightarrow>
                (let ev = Set_Pins room (List.map_filter (pn_event env) ids) in
                 (if pn_send_err env ev = None then note_pins thread sig t else t, evs @ [ev]))))"

definition refresh_pinned_messages ::
  "pin_env \<Rightarrow> teams_net \<Rightarrow> decode_env \<Rightarrow> teams_client \<Rightarrow> string \<Rightarrow> pin_tracker \<Rightarrow> pin_tracker \<times> pin_event list" where
  "refresh_pinned_messages env net dec c thread t =
     (case get_thread_pinned_items net dec c thread of
        Inl _ \<Rightarrow> (t, [])
      | Inr raw \<Rightarrow> sync_pinned_messages env (de_json dec) thread raw t)"

text \<open>All threads of the login, but the spaces of teams and those without a room.\<close>

fun refresh_all_pinned_messages ::
  "pin_env \<Rightarrow> teams_net \<Rightarrow> decode_env \<Rightarrow> teams_client \<Rightarrow> string list \<Rightarrow> pin_tracker \<Rightarrow> pin_tracker \<times> pin_event list" where
  "refresh_all_pinned_messages env net dec c [] t = (t, [])"
| "refresh_all_pinned_messages env net dec c (thread # threads) t =
     (if prefix ''team:'' thread \<or> pn_room env thread = None
      then refresh_all_pinned_messages env net dec c threads t
      else (case refresh_pinned_messages env net dec c thread t of
              (t1, evs) \<Rightarrow> (case refresh_all_pinned_messages env net dec c threads t1 of (t2, evs2) \<Rightarrow> (t2, evs @ evs2))))"

section \<open>From Matrix to Teams\<close>

text \<open>The messages of the events a room has pinned, each once; events that are no bridged message are passed over.\<close>

definition wanted_pins :: "pin_env \<Rightarrow> string list \<Rightarrow> string list" where
  "wanted_pins env events = rev (remdups (rev (List.map_filter (pn_message env) events)))"

definition handle_matrix_pinned_events ::
  "pin_env \<Rightarrow> teams_net \<Rightarrow> decode_env \<Rightarrow> teams_client \<Rightarrow> string \<Rightarrow> string \<Rightarrow> string list \<Rightarrow> pin_tracker \<Rightarrow> pin_tracker \<times> teams_request list" where
  "handle_matrix_pinned_events env net dec c sender room events t =
     (if pn_bridge_user env sender then (t, [])
      else case pn_thread_of env room of
        None \<Rightarrow> (t, [])
      | Some thread \<Rightarrow>
          if \<not> pn_logged_in env sender then (t, [])
          else (let prev = (case map_of (pk_sigs t) thread of None \<Rightarrow> [] | Some s \<Rightarrow> s);
                    ids = merge_pinned_items (split_pinned_sig prev) (wanted_pins env events);
                    x = set_pinned_items net dec c thread ids in
                (if sn_err x = None then note_pins thread (pin_sig ids) t else t, sn_requests x)))"

section \<open>Facts\<close>

text \<open>An ID that survives being written: not empty, without spaces around it and without the comma.\<close>

definition pin_id_ok :: "string \<Rightarrow> bool" where
  "pin_id_ok i \<longleftrightarrow> i \<noteq> [] \<and> trim_space i = i \<and> CHR '','' \<notin> set i"

lemma wanted_pins_set: "set (wanted_pins env events) = {i. \<exists>e \<in> set events. pn_message env e = Some i}"
  by (induction events) (auto simp: wanted_pins_def List.map_filter_def)

lemma wanted_pins_distinct: "distinct (wanted_pins env events)"
  by (simp add: wanted_pins_def)

lemma merged_pins_set: "set (merge_pinned_items current wanted) = set wanted"
  by (auto simp: merge_pinned_items_def)

lemma merged_pins_distinct: "distinct current \<Longrightarrow> distinct wanted \<Longrightarrow> distinct (merge_pinned_items current wanted)"
  by (auto simp: merge_pinned_items_def)

lemma join_split:
  assumes "\<forall>w \<in> set ws. w \<noteq> [] \<and> CHR '','' \<notin> set w"
  shows "split_pinned_sig (pin_sig ws) = ws"
proof -
  have "split_on (CHR '','') (join_with '','' ws) = ws" if "ws \<noteq> []"
    using that assms
  proof (induction ws rule: induct_list012)
    case (3 w v ws)
    have "split_on (CHR '','') (w @ CHR '','' # join_with '','' (v # ws)) = split_on (CHR '','') w @ split_on (CHR '','') (join_with '','' (v # ws))"
      by (rule split_on_append)
    then show ?case using 3 by (simp add: split_on_free)
  qed (auto simp: split_on_free)
  moreover have "join_with '','' ws \<noteq> []" if "ws \<noteq> []" using that assms by (cases ws rule: remdups_adj.cases) auto
  ultimately show ?thesis by (cases "ws = []") (simp_all add: split_pinned_sig_def pin_sig_def)
qed

text \<open>The property as it is written, and as it is read.\<close>

definition pins_json :: "string list \<Rightarrow> json" where
  "pins_json ids = JArr (map (\<lambda>i. JObj [(''itemId'', JStr i), (''itemType'', JStr ''Message'')]) ids)"

lemma pinned_ids_written:
  "list_all (\<lambda>i. i \<noteq> [] \<and> trim_space i = i) ids \<Longrightarrow>
   pinned_ids (map (\<lambda>i. JObj [(''itemId'', JStr i), (''itemType'', JStr ''Message'')]) ids) = Some ids"
  by (induction ids) (auto simp: string_field_def equal_fold_def)

lemma pins_read_back:
  assumes "parse text = Some (pins_json ids)" and "trim_space text = text" and "text \<noteq> []"
    and "list_all (\<lambda>i. i \<noteq> [] \<and> trim_space i = i) ids"
  shows "parse_pinned_items parse text = ids"
  using assms by (simp add: parse_pinned_items_def pins_json_def pinned_ids_written Let_def)

lemma written_pins:
  assumes "\<not> pn_bridge_user env sender" and "pn_logged_in env sender" and "pn_thread_of env room = Some thread"
    and "thread_args c thread = None" and "tn_url_err net = (\<lambda>_. None)"
  shows "\<exists>ids r. ids = merge_pinned_items (split_pinned_sig (case map_of (pk_sigs t) thread of None \<Rightarrow> [] | Some s \<Rightarrow> s)) (wanted_pins env events) \<and>
    tr_payload r = Some (JObj [(''pinnedItems'', JStr (de_json_text dec (pins_json ids)))]) \<and>
    handle_matrix_pinned_events env net dec c sender room events t =
      (if sn_err (set_pinned_items net dec c thread ids) = None then note_pins thread (pin_sig ids) t else t, [r]) \<and>
    sn_err (set_pinned_items net dec c thread ids) =
      (case tn_answer net r of NoAnswer e \<Rightarrow> Some e | Answered a \<Rightarrow>
         if ok_status a then None
         else Some (Plain (''setting thread property pinnedItems failed with status '' @ show_int (resp_status a) @ '': '' @
             take max_error_body_bytes (resp_body a))))"
  using assms
  by (auto simp: handle_matrix_pinned_events_def set_pinned_items_def set_thread_property_def send_once_def make_request_def
      pins_json_def Let_def split: http_outcome.split)

section \<open>Properties\<close>

text \<open>C38: The pins of a room are written to Teams whole.  When a user changes the pins of a room whose thread had the pins
  \<open>cur\<close> when the bridge last saw or wrote them, Teams is sent one list: the messages of the pinned events, each once,
  new ones first, and those pinned before in the order Teams had them.  A pin of Teams on a message that was never
  bridged, which no pinned event stands for, is therefore taken off by any change in Matrix.\<close>

theorem pins_written:
  assumes "\<not> pn_bridge_user env sender" and "pn_logged_in env sender" and "pn_thread_of env room = Some thread"
    and "thread_args c thread = None" and "tn_url_err net = (\<lambda>_. None)"
    and "map_of (pk_sigs t) thread = Some (pin_sig cur)" and "list_all pin_id_ok cur" and "distinct cur"
  shows "\<exists>new ids r. snd (handle_matrix_pinned_events env net dec c sender room events t) = [r] \<and>
    tr_payload r = Some (JObj [(''pinnedItems'', JStr (de_json_text dec (pins_json ids)))]) \<and>
    ids = new @ filter (\<lambda>i. i \<in> set ids) cur \<and> set new \<inter> set cur = {} \<and> distinct ids \<and>
    set ids = {i. \<exists>e \<in> set events. pn_message env e = Some i}"
proof -
  define ids where "ids = merge_pinned_items cur (wanted_pins env events)"
  have cur: "split_pinned_sig (pin_sig cur) = cur"
    using assms(7) by (intro join_split) (auto simp: list_all_iff pin_id_ok_def)
  obtain r where r: "tr_payload r = Some (JObj [(''pinnedItems'', JStr (de_json_text dec (pins_json ids)))])"
      "snd (handle_matrix_pinned_events env net dec c sender room events t) = [r]"
    using written_pins [OF assms(1-5), of t events dec] by (auto simp: assms(6) cur ids_def)
  have set: "set ids = set (wanted_pins env events)" by (simp add: ids_def merged_pins_set)
  then have "ids = filter (\<lambda>i. i \<notin> set cur) (rev (wanted_pins env events)) @ filter (\<lambda>i. i \<in> set ids) cur"
    by (simp add: ids_def [unfolded merge_pinned_items_def])
  moreover have "distinct ids" using merged_pins_distinct [OF assms(8) wanted_pins_distinct] by (simp add: ids_def)
  moreover have "set (filter (\<lambda>i. i \<notin> set cur) (rev (wanted_pins env events))) \<inter> set cur = {}" by auto
  ultimately show ?thesis using r set unfolding wanted_pins_set by blast
qed

text \<open>A change of pins does not come back.  When Teams took the pins a user changed in Matrix, and the pins of the thread are then read
  as they were written, the bridge sets no pins in any room and its record of the thread stays as it was.\<close>

lemma pins_settle:
  assumes "\<not> pn_bridge_user env sender" and "pn_logged_in env sender" and "pn_thread_of env room = Some thread"
    and "thread_args c thread = None" and "tn_url_err net = (\<lambda>_. None)"
    and "\<forall>e \<in> set events. \<forall>i. pn_message env e = Some i \<longrightarrow> pin_id_ok i"
    and "handle_matrix_pinned_events env net dec c sender room events t = (t1, [r])"
    and "tn_answer net r = Answered a" and "ok_status a"
    and "tr_payload r = Some (JObj [(''pinnedItems'', JStr text)])" and "get_thread_pinned_items net2 dec2 c2 thread = Inr text"
    and "\<forall>j. de_json_text dec j = text \<longrightarrow> de_json dec2 text = Some j" and "trim_space text = text" and "text \<noteq> []"
    and "refresh_pinned_messages env2 net2 dec2 c2 thread t1 = (t2, evs)"
  shows "pk_sigs t2 = pk_sigs t1 \<and> (\<nexists>rm ids. Set_Pins rm ids \<in> set evs)"
proof -
  obtain ids r' where w: "ids = merge_pinned_items (split_pinned_sig (case map_of (pk_sigs t) thread of None \<Rightarrow> [] | Some s \<Rightarrow> s)) (wanted_pins env events)"
      "tr_payload r' = Some (JObj [(''pinnedItems'', JStr (de_json_text dec (pins_json ids)))])"
      "handle_matrix_pinned_events env net dec c sender room events t =
        (if sn_err (set_pinned_items net dec c thread ids) = None then note_pins thread (pin_sig ids) t else t, [r'])"
      "sn_err (set_pinned_items net dec c thread ids) =
        (case tn_answer net r' of NoAnswer e \<Rightarrow> Some e | Answered a \<Rightarrow>
           if ok_status a then None
           else Some (Plain (''setting thread property pinnedItems failed with status '' @ show_int (resp_status a) @ '': '' @
             take max_error_body_bytes (resp_body a))))"
    using written_pins [OF assms(1-5), of t events dec] by blast
  have r: "r' = r" and t1: "t1 = note_pins thread (pin_sig ids) t" using w(3,4) assms(7-9) by (auto split: if_splits)
  have "de_json_text dec (pins_json ids) = text" using w(2) assms(10) r by simp
  then have parse: "de_json dec2 text = Some (pins_json ids)" using assms(12) by simp
  have "list_all (\<lambda>i. i \<noteq> [] \<and> trim_space i = i) ids"
    using assms(6) unfolding w(1) list_all_iff merged_pins_set wanted_pins_set by (auto simp: pin_id_ok_def)
  then have again: "parse_pinned_items (de_json dec2) text = ids"
    using pins_read_back [of "de_json dec2" "text" ids] parse assms(13,14) by blast
  have same: "pk_sigs (fst (ensure_pinnable env2 thread t1)) = pk_sigs t1"
    by (auto simp: ensure_pinnable_def mark_pinnable_def split: option.splits prod.splits bool.splits)
  have calm: "Set_Pins rm ps \<notin> set (snd (ensure_pinnable env2 thread t1))" for rm ps
    by (auto simp: ensure_pinnable_def mark_pinnable_def split: option.splits prod.splits bool.splits)
  obtain t3 evs3 where e: "ensure_pinnable env2 thread t1 = (t3, evs3)" by fastforce
  have "pk_sigs t3 = pk_sigs t1" using same e by simp
  then have known: "map_of (pk_sigs t3) thread = Some (pin_sig ids)" by (simp add: t1 note_pins_def update_conv')
  have "refresh_pinned_messages env2 net2 dec2 c2 thread t1 = (t3, evs3)"
    using known by (simp add: refresh_pinned_messages_def assms(11) sync_pinned_messages_def again e Let_def)
  then show ?thesis using assms(15) same calm by (simp add: e)
qed

text \<open>A chat with the pins 1 and 2, of which 2 was never bridged; the user pins 3 too.\<close>

definition example_pin_env :: pin_env where
  "example_pin_env =
     \<lparr>pn_room = (\<lambda>_. Some ''!r''), pn_thread_of = (\<lambda>_. Some ''19:t''), pn_event = (\<lambda>i. if i = ''2'' then None else Some (CHR ''$'' # i)),
      pn_message = (\<lambda>e. if e = ''$2'' then None else Some (tl e)), pn_level = (\<lambda>_. None), pn_send_err = (\<lambda>_. None),
      pn_bridge_user = (\<lambda>_. False), pn_logged_in = (\<lambda>_. True)\<rparr>"

definition example_pin_client :: teams_client where
  "example_pin_client =
     \<lparr>tc_has_http = True, tc_token = ''tok'', tc_send_url = ''https://h/v1/users/ME/conversations'', tc_messages_url = ''https://h'', tc_executor = None\<rparr>"

definition example_pins :: pin_tracker where "example_pins = \<lparr>pk_sigs = [(''19:t'', ''1,2'')], pk_pinnable = []\<rparr>"

lemma example_pin_values:
  "thread_args example_pin_client ''19:t'' = None"
  "map_of (pk_sigs example_pins) ''19:t'' = Some (pin_sig [''1'', ''2''])"
  "list_all pin_id_ok [''1'', ''2'']"
proof -
  have t: "trim_space s = s" if "plain_ends s" for s by (rule trim_space_plain [OF that])
  show "thread_args example_pin_client ''19:t'' = None"
    by (simp add: thread_args_def example_pin_client_def t plain_ends_def)
  show "list_all pin_id_ok [''1'', ''2'']" by (simp add: pin_id_ok_def t plain_ends_def)
qed (simp add: example_pins_def pin_sig_def)

definition pin_net :: "http_response \<Rightarrow> teams_net" where
  "pin_net r = \<lparr>tn_attempts = undefined, tn_answer = (\<lambda>_. Answered r), tn_location = (\<lambda>_. []), tn_url_err = (\<lambda>_. None), tn_retry_after = (\<lambda>_. 0)\<rparr>"

definition ok_answer :: "string \<Rightarrow> http_response" where
  "ok_answer body = \<lparr>resp_status = 200, resp_retry_after = [], resp_body = body\<rparr>"

definition pin_dec :: decode_env where
  "pin_dec =
     \<lparr>de_html = undefined,
      de_json = (\<lambda>s. if s = ''[3,1]'' then Some (pins_json [''3'', ''1''])
        else Some (JObj [(''properties'', JObj [(''pinnedItems'', JStr ''[3,1]'')])])),
      de_json_text = (\<lambda>j. if j = pins_json [''3'', ''1''] then ''[3,1]'' else ''x''),
      de_float = (\<lambda>_. None), de_time = (\<lambda>_ _. None)\<rparr>"

theorem pins_written_witness:
  "\<exists>ids. set ids = {''1'', ''3''} \<and>
     map tr_payload (snd (handle_matrix_pinned_events example_pin_env (pin_net (ok_answer [])) pin_dec example_pin_client ''@u'' ''!r'' [''$1'', ''$2'', ''$3''] example_pins)) =
       [Some (JObj [(''pinnedItems'', JStr (de_json_text pin_dec (pins_json ids)))])]"
proof -
  have env: "\<not> pn_bridge_user example_pin_env ''@u''" "pn_logged_in example_pin_env ''@u''" "pn_thread_of example_pin_env ''!r'' = Some ''19:t''"
    and set: "{i. \<exists>e \<in> set [''$1'', ''$2'', ''$3'']. pn_message example_pin_env e = Some i} = {''1'', ''3''}"
    by (auto simp: example_pin_env_def)
  have url: "tn_url_err (pin_net (ok_answer [])) = (\<lambda>_. None)" by (simp add: pin_net_def)
  have "distinct [''1'', ''2'']" by simp
  from pins_written [OF env example_pin_values(1) url example_pin_values(2,3) this, where events = "[''$1'', ''$2'', ''$3'']" and dec = pin_dec]
  obtain ids r where r: "snd (handle_matrix_pinned_events example_pin_env (pin_net (ok_answer [])) pin_dec example_pin_client ''@u'' ''!r'' [''$1'', ''$2'', ''$3''] example_pins) = [r]"
      "tr_payload r = Some (JObj [(''pinnedItems'', JStr (de_json_text pin_dec (pins_json ids)))])"
      "set ids = {i. \<exists>e \<in> set [''$1'', ''$2'', ''$3'']. pn_message example_pin_env e = Some i}"
    by (elim exE conjE) (rule that; assumption)
  have "set ids = {''1'', ''3''}" using r(3) by (simp only: set)
  with r(1,2) show ?thesis by (intro exI [of _ ids]) (simp only: list.map simp_thms)
qed

lemma pins_settle_example:
  "\<exists>t1 r t2 evs. handle_matrix_pinned_events example_pin_env (pin_net (ok_answer [])) pin_dec example_pin_client ''@u'' ''!r'' [''$1'', ''$3''] example_pins = (t1, [r]) \<and>
     refresh_pinned_messages example_pin_env (pin_net (ok_answer ''{}'')) pin_dec example_pin_client ''19:t'' t1 = (t2, evs) \<and>
     pk_sigs t2 = pk_sigs t1 \<and> (\<nexists>rm ids. Set_Pins rm ids \<in> set evs)"
proof -
  have trim: "trim_space s = s" if "plain_ends s" for s by (rule trim_space_plain [OF that])
  have env: "\<not> pn_bridge_user example_pin_env ''@u''" "pn_logged_in example_pin_env ''@u''" "pn_thread_of example_pin_env ''!r'' = Some ''19:t''"
    and url: "tn_url_err (pin_net (ok_answer [])) = (\<lambda>_. None)"
    and ids: "\<forall>e \<in> set [''$1'', ''$3'']. \<forall>i. pn_message example_pin_env e = Some i \<longrightarrow> pin_id_ok i"
    by (auto simp: example_pin_env_def pin_net_def pin_id_ok_def trim plain_ends_def)
  have "split_pinned_sig ''1,2'' = [''1'', ''2'']" by (simp add: split_pinned_sig_def)
  moreover have "wanted_pins example_pin_env [''$1'', ''$3''] = [''1'', ''3'']" by (simp add: wanted_pins_def List.map_filter_def example_pin_env_def)
  ultimately have m: "merge_pinned_items (split_pinned_sig ''1,2'') (wanted_pins example_pin_env [''$1'', ''$3'']) = [''3'', ''1'']"
    by (simp add: merge_pinned_items_def)
  obtain r t1 where w: "handle_matrix_pinned_events example_pin_env (pin_net (ok_answer [])) pin_dec example_pin_client ''@u'' ''!r'' [''$1'', ''$3''] example_pins = (t1, [r])"
      "tr_payload r = Some (JObj [(''pinnedItems'', JStr ''[3,1]'')])"
    using written_pins [OF env example_pin_values(1) url, of example_pins "[''$1'', ''$3'']" pin_dec]
    by (auto simp: example_pins_def m pin_dec_def)
  obtain t2 evs where f: "refresh_pinned_messages example_pin_env (pin_net (ok_answer ''{}'')) pin_dec example_pin_client ''19:t'' t1 = (t2, evs)"
    by fastforce
  have ok: "tn_answer (pin_net (ok_answer [])) r = Answered (ok_answer [])" "ok_status (ok_answer [])"
    by (simp_all add: pin_net_def ok_answer_def ok_status_def)
  have g: "get_thread_pinned_items (pin_net (ok_answer ''{}'')) pin_dec example_pin_client ''19:t'' = Inr ''[3,1]''"
    by (simp add: get_thread_pinned_items_def get_thread_properties_def fetch_thread_def example_pin_values(1) fetch_json_def
        pin_net_def ok_answer_def pin_dec_def property_texts_def equal_fold_def make_request_def Let_def)
  have j: "\<forall>j. de_json_text pin_dec j = ''[3,1]'' \<longrightarrow> de_json pin_dec ''[3,1]'' = Some j" by (simp add: pin_dec_def)
  have t: "trim_space ''[3,1]'' = ''[3,1]''" "''[3,1]'' \<noteq> ([] :: string)" by (simp_all add: trim plain_ends_def)
  show ?thesis
    using w(1) f pins_settle [OF env example_pin_values(1) url ids w(1) ok w(2) g j t f] by blast
qed

end
