(* ===== verification/Matrix_Handlers.thy ===== *)
theory Matrix_Handlers
  imports Auth_Tokens Chat_State Receipts Poll_Loop Room_Names Emoji_Reactions Matrix_Files
    Saved_Messages Pinned_Messages
begin

text \<open>
  What happens when the user does something in Matrix (handlematrix.go, send_attachment.go, and the handlers of
  chat_state.go and pinned_messages.go): messages, reactions, typing, read receipts, edits, deletions, names, topics,
  members, avatars, tags and pins.  Every handler but that of pins first needs a login and a valid Skype token, of
  Auth_Tokens, and then makes its requests with the client that holds the token, of Teams_Requests and Chat_State.

  The state is the connector's: tokens, caches, wake-ups of the poll loop, the trackers of pins, the tables, and the pending
  messages bridgev2 keeps for it; with the requests made to the chat service, in order, and the tokens of the Graph clients
  made.  What the handlers meet are parameters: time, the generated message ID, the networks, the decoders of answers, the
  Matrix media server.
\<close>

section \<open>The connector as the handlers see it\<close>

record 's matrix_env =
  me_now :: gotime
  me_later :: gotime
  me_cmid :: string
  me_tokens :: token_env
  me_net :: teams_net
  me_executor :: "executor_config option"
  me_ghosts :: ghost_env
  me_urls :: url_lib
  me_emoji :: emoji_tables
  me_decode :: decode_env
  me_messages :: "string \<Rightarrow> go_error + raw_message list"
  me_sort :: "remote_message list \<Rightarrow> remote_message list"
  me_login :: string
  me_thread_err :: "go_error option"
  me_horizons :: horizon_env
  me_media :: media_env
  me_graph :: "'s graph_net"
  me_json :: "json \<Rightarrow> string"
  me_put_photo :: "string \<Rightarrow> string \<Rightarrow> http_outcome"
  me_pins :: pin_env

record 's matrix_world =
  mw_tokens :: token_world
  mw_caches :: client_caches
  mw_wakeups :: "poll_wakeup list"
  mw_pending :: "string list"
  mw_threads :: "thread_table option"
  mw_horizons :: "horizon_table option"
  mw_drive :: 's
  mw_tags :: state_tracker
  mw_pinned :: pin_tracker
  mw_requests :: "teams_request list"
  mw_graph :: "string list"

text \<open>The status bridgev2 reports of a message it could not send; no text is the error's own.\<close>

datatype status_reason = Generic_Error | Network_Error | Unsupported_Event

record message_status =
  ms_err :: go_error
  ms_text :: "string option"
  ms_certain :: bool
  ms_notice :: bool
  ms_reason :: status_reason

datatype matrix_error = Bare go_error | With_Status message_status

abbreviation "not_logged_in \<equiv> Bare (Plain ''not logged in'')"
abbreviation "unsupported_message \<equiv> Bare (Plain ''unsupported message type'')"
abbreviation "no_thread \<equiv> Bare (Plain ''missing thread id'')"

type_synonym ('s, 'r) handled = "(matrix_error + 'r) \<times> 's matrix_world"

text \<open>\<open>getAPI\<close>: the client the connector keeps, or one made from the stored token.\<close>

definition get_api :: "'s matrix_env \<Rightarrow> 's matrix_world \<Rightarrow> teams_client" where
  "get_api env w =
     (let c = (case tw_consumer (mw_tokens w) of Some c \<Rightarrow> c | None \<Rightarrow> new_consumer (tw_meta (mw_tokens w)))
      in \<lparr>tc_has_http = True, tc_token = co_token c, tc_send_url = co_send_url c, tc_messages_url = co_messages_url c,
          tc_executor = me_executor env\<rparr>)"

definition self_teams_user_id :: "'s matrix_world \<Rightarrow> string" where
  "self_teams_user_id w = lm_user_id (tw_meta (mw_tokens w))"

text \<open>The guards every handler starts with.\<close>

definition with_token ::
  "'s matrix_env \<Rightarrow> ('s matrix_world \<Rightarrow> ('s, 'r) handled) \<Rightarrow> 's matrix_world \<Rightarrow> ('s, 'r) handled" where
  "with_token env k w =
     (if \<not> is_logged_in (te_now (me_tokens env)) (mw_tokens w) then (Inl not_logged_in, w)
      else case ensure_valid_skype_token (me_tokens env) (mw_tokens w) of
             (Some e, tw) \<Rightarrow> (Inl (Bare e), w\<lparr>mw_tokens := tw\<rparr>)
           | (None, tw) \<Rightarrow> k (w\<lparr>mw_tokens := tw\<rparr>))"

definition log_requests :: "teams_request list \<Rightarrow> 's matrix_world \<Rightarrow> 's matrix_world" where
  "log_requests rs w = w\<lparr>mw_requests := mw_requests w @ rs\<rparr>"

text \<open>A call whose only result is its error.\<close>

definition finish_call :: "sent \<Rightarrow> 'r \<Rightarrow> 's matrix_world \<Rightarrow> ('s, 'r) handled" where
  "finish_call x r w =
     (case sn_err x of None \<Rightarrow> Inr r | Some e \<Rightarrow> Inl (Bare e), log_requests (sn_requests x) w)"

section \<open>Messages\<close>

record matrix_message =
  mm_portal :: string
  mm_content :: "matrix_content option"
  mm_thread_root :: string
  mm_reply :: "(string \<times> string) option"
  mm_importance :: string
  mm_subject :: string

text \<open>The message replied to is its ID and the root of its thread, each possibly empty.\<close>

definition resolve_teams_thread_root :: "matrix_message \<Rightarrow> string" where
  "resolve_teams_thread_root m =
     (if mm_thread_root m \<noteq> [] then mm_thread_root m
      else case mm_reply m of None \<Rightarrow> [] | Some (i, root) \<Rightarrow> if root \<noteq> [] then root else i)"

definition send_message_error :: "go_error \<Rightarrow> bool" where
  "send_message_error e \<longleftrightarrow> (\<exists>x \<in> set (chain e). case x of ApiError t _ _ \<Rightarrow> t = ''send message request failed'' | _ \<Rightarrow> False)"

definition wrap_teams_send_error :: "go_error \<Rightarrow> message_status" where
  "wrap_teams_send_error e =
     (if send_message_error e
      then \<lparr>ms_err = e, ms_text = None, ms_certain = True, ms_notice = True, ms_reason = Generic_Error\<rparr>
      else if retryable_of e \<noteq> None
      then \<lparr>ms_err = e, ms_text = Some ''Teams API temporarily unavailable, please retry'', ms_certain = False,
            ms_notice = True, ms_reason = Generic_Error\<rparr>
      else if net_error_of e \<noteq> None \<or> is_deadline e
      then \<lparr>ms_err = e, ms_text = Some ''Could not reach Teams, please retry'', ms_certain = False,
            ms_notice = True, ms_reason = Network_Error\<rparr>
      else \<lparr>ms_err = e, ms_text = None, ms_certain = False, ms_notice = True, ms_reason = Generic_Error\<rparr>)"

text \<open>The quote of a reply names the conversation the thread's row has.\<close>

definition reply_conversation :: "'s matrix_env \<Rightarrow> string \<Rightarrow> 's matrix_world \<Rightarrow> string" where
  "reply_conversation env thread w =
     (case thread_get (me_thread_err env) (mw_threads w) (me_login env) thread of
        Inr (Some row) \<Rightarrow> if ts_conversation row \<noteq> [] then ts_conversation row else thread
      | _ \<Rightarrow> thread)"

definition outbound_context :: "matrix_message \<Rightarrow> string \<Rightarrow> ctx_props" where
  "outbound_context m thread =
     message_context (if mm_importance m \<in> {''high'', ''urgent''} then mm_importance m else [])
       (if trim_space (mm_subject m) \<noteq> [] \<and> is_channel_thread thread \<and> resolve_teams_thread_root m = []
        then trim_space (mm_subject m) else [])"

text \<open>\<open>GetMessage\<close> for the message replied to: what it answers, and its one request, for the newest page of the conversation.\<close>

definition reply_original ::
  "'s matrix_env \<Rightarrow> teams_client \<Rightarrow> string \<Rightarrow> string \<Rightarrow> (go_error + remote_message option) \<times> teams_request list" where
  "reply_original env c conversation i =
     (let net = me_net env;
          req = make_request c ''GET'' (messages_page_url (tc_messages_url c) (trim_space conversation) 200 []) None;
          outcome = (case tn_url_err net (tr_url req) of Some e \<Rightarrow> NoAnswer e | None \<Rightarrow> tn_answer net req);
          asked = (tc_has_http c \<and> tc_token c \<noteq> [] \<and> trim_space conversation \<noteq> [] \<and> trim_space i \<noteq> [] \<and>
            tn_url_err net (tr_url req) = None)
      in (map_sum id Some (get_message (me_decode env) (tc_has_http c) (tc_token c) 200 (me_sort env)
            (\<lambda>_ _. fetch_json (tn_retry_after net) (me_messages env) outcome) conversation i),
          if asked then [req] else []))"

text \<open>What a message of text replies to, its body, and what was asked of Teams for the quote.\<close>

definition outbound_reply ::
  "'s matrix_env \<Rightarrow> matrix_message \<Rightarrow> string \<Rightarrow> string \<Rightarrow> 's matrix_world \<Rightarrow> string \<times> string \<times> teams_request list" where
  "outbound_reply env m thread body w =
     (if is_channel_thread thread then (resolve_teams_thread_root m, body, [])
      else case mm_reply m of
             Some (i, _) \<Rightarrow>
               if i = [] then ([], body, [])
               else (case reply_original env (get_api env w) (reply_conversation env thread w) i of
                       (original, asked) \<Rightarrow> (i, build_teams_reply_html original i body, asked))
           | None \<Rightarrow> ([], body, []))"

definition send_text ::
  "'s matrix_env \<Rightarrow> ctx_props \<Rightarrow> matrix_message \<Rightarrow> matrix_content \<Rightarrow> string \<Rightarrow> 's matrix_world \<Rightarrow> sent" where
  "send_text env ctx m content thread w =
     (case outbound_text_html (me_ghosts env) content thread of
        (body0, mentions) \<Rightarrow>
          (case outbound_reply env m thread body0 w of
             (reply, body, asked) \<Rightarrow>
               (let x = send_formatted_message (me_net env) (get_api env w) ctx (me_now env) thread body (self_teams_user_id w)
                          (me_cmid env) reply mentions
                in x\<lparr>sn_requests := asked @ sn_requests x\<rparr>)))"

definition graph_client_for :: "string \<Rightarrow> graph_client" where
  "graph_client_for token = \<lparr>gc_has_http = True, gc_executor = None, gc_token = token, gc_base = default_upload_endpoint,
     gc_max_size = default_max_upload_bytes, gc_small_limit = default_small_file_limit, gc_chunk_size = default_chunk_size\<rparr>"

definition record_own :: "gotime \<Rightarrow> string \<Rightarrow> 's matrix_world \<Rightarrow> 's matrix_world" where
  "record_own now i w = w\<lparr>mw_caches := record_self_message now i (mw_caches w)\<rparr>"

text \<open>\<open>sendAttachmentMessageWithClientMessageID\<close>.\<close>

definition send_attachment ::
  "'s matrix_env \<Rightarrow> ctx_props \<Rightarrow> string \<Rightarrow> string \<Rightarrow> string \<Rightarrow> string \<Rightarrow> string \<Rightarrow> 's matrix_world \<Rightarrow>
   ((go_error + string) \<times> 's matrix_world) option" where
  "send_attachment env ctx thread0 filename0 content caption cmid w0 =
     (if \<not> is_logged_in (te_now (me_tokens env)) (mw_tokens w0) then Some (Inl (Plain ''not logged in''), w0)
      else case ensure_valid_skype_token (me_tokens env) (mw_tokens w0) of
        (Some e, tw) \<Rightarrow> Some (Inl e, w0\<lparr>mw_tokens := tw\<rparr>)
      | (None, tw) \<Rightarrow>
          (let w = w0\<lparr>mw_tokens := tw\<rparr>; thread = trim_space thread0; filename = trim_space filename0;
               i = (if trim_space cmid \<noteq> [] then trim_space cmid else me_cmid env) in
           if thread = [] then Some (Inl (Plain ''missing thread id''), w)
           else if filename = [] then Some (Inl (Plain ''missing filename''), w)
           else if content = [] then Some (Inl (Plain ''missing content''), w)
           else if max_attachment_bytes < int (length content) then Some (Inl (Plain ''attachment exceeds max size''), w)
           else case get_graph_access_token (te_now (me_tokens env)) (tw_meta tw) of
             Inl e \<Rightarrow> Some (Inl e, w)
           | Inr token \<Rightarrow>
               (let fs = \<lparr>fs_graph = me_graph env, fs_client = graph_client_for token, fs_teams = me_net env, fs_api = get_api env w,
                          fs_json = me_json env, fs_from = trim_space (self_teams_user_id w), fs_max = max_attachment_bytes\<rparr>
                in map_option (\<lambda>(r, reqs, s).
                     let w1 = log_requests reqs w\<lparr>mw_drive := s, mw_graph := mw_graph w @ [token]\<rparr>
                     in (r, case r of Inr sent_id \<Rightarrow> record_own (me_later env) sent_id w1 | Inl _ \<Rightarrow> w1))
                   (send_attachment_message fs ctx (me_now env) i thread filename content caption (mw_drive w)))))"

definition send_outbound_attachment ::
  "'s matrix_env \<Rightarrow> ctx_props \<Rightarrow> matrix_content \<Rightarrow> string \<Rightarrow> 's matrix_world \<Rightarrow> (go_error option \<times> 's matrix_world) option" where
  "send_outbound_attachment env ctx content thread w =
     handle_outbound_matrix_file (me_media env)
       (\<lambda>name data caption w. map_option (\<lambda>(r, w1). (the_err r, w1))
          (send_attachment env ctx (trim_space thread) name data caption (me_cmid env) w))
       content w"

text \<open>The switch on the message type: the error, and the state after.\<close>

definition deliver ::
  "'s matrix_env \<Rightarrow> matrix_message \<Rightarrow> matrix_content \<Rightarrow> string \<Rightarrow> 's matrix_world \<Rightarrow> (go_error option \<times> 's matrix_world) option" where
  "deliver env m content thread w =
     (let ctx = outbound_context m thread;
          called = (\<lambda>x. Some (sn_err x, log_requests (sn_requests x) w)) in
      if mx_type content \<in> {M_Text, M_Notice, M_Emote, M_Location} then called (send_text env ctx m content thread w)
      else case (mx_type content, extract_outbound_gif (me_urls env) content) of
             (M_Image, Some (title, url)) \<Rightarrow>
               called (send_gif_with_id (me_net env) (get_api env w) ctx (me_now env) thread url title (self_teams_user_id w) (me_cmid env))
           | _ \<Rightarrow> send_outbound_attachment env ctx content thread w)"

definition note_result :: "go_error option \<Rightarrow> 's matrix_world \<Rightarrow> 's matrix_world" where
  "note_result err w =
     w\<lparr>mw_tokens := (mw_tokens w)\<lparr>tw_conn := note_teams_result err (tw_conn (mw_tokens w))\<rparr>\<rparr>"

definition add_pending :: "string \<Rightarrow> 's matrix_world \<Rightarrow> 's matrix_world" where
  "add_pending i w = w\<lparr>mw_pending := mw_pending w @ [i]\<rparr>"

definition remove_pending :: "string \<Rightarrow> 's matrix_world \<Rightarrow> 's matrix_world" where
  "remove_pending i w = w\<lparr>mw_pending := filter (\<lambda>j. j \<noteq> i) (mw_pending w)\<rparr>"

definition wake_poll :: "gotime \<Rightarrow> string \<Rightarrow> string \<Rightarrow> 's matrix_world \<Rightarrow> 's matrix_world" where
  "wake_poll now thread source w = w\<lparr>mw_wakeups := request_poll now thread False source (mw_wakeups w)\<rparr>"

text \<open>After the send: the pending entry goes on a failure; the answer is the ID and the stream order.\<close>

definition settle_send ::
  "'s matrix_env \<Rightarrow> string \<Rightarrow> go_error option \<Rightarrow> 's matrix_world \<Rightarrow> ('s, string \<times> int) handled" where
  "settle_send env thread err w0 =
     (let w = note_result err w0; i = me_cmid env in
      case err of
        Some e \<Rightarrow> (Inl (With_Status (wrap_teams_send_error e)), remove_pending i w)
      | None \<Rightarrow>
          (let w1 = record_own (me_later env) i w;
               w2 = w1\<lparr>mw_caches := note_thread_active (me_now env) thread (mw_caches w1)\<rparr>
           in (Inr (i, unix_milli (me_now env)), wake_poll (me_later env) thread ''send'' w2)))"

text \<open>\<open>HandleMatrixMessage\<close>; \<open>None\<close> is a handler that does not return, for an upload of Graph_Upload.\<close>

definition message_args :: "matrix_message \<Rightarrow> matrix_error + matrix_content \<times> string" where
  "message_args m =
     (case mm_content m of
        None \<Rightarrow> Inl unsupported_message
      | Some content \<Rightarrow>
          (let thread = trim_space (mm_portal m) in
           if thread = [] then Inl no_thread
           else if \<not> outbound_msg_type_supported (mx_type content) then Inl unsupported_message
           else Inr (content, thread)))"

definition handle_matrix_message :: "'s matrix_env \<Rightarrow> matrix_message \<Rightarrow> 's matrix_world \<Rightarrow> ('s, string \<times> int) handled option" where
  "handle_matrix_message env m w0 =
     (if \<not> is_logged_in (te_now (me_tokens env)) (mw_tokens w0) then Some (Inl not_logged_in, w0)
      else case ensure_valid_skype_token (me_tokens env) (mw_tokens w0) of
        (Some e, tw) \<Rightarrow> Some (Inl (Bare e), w0\<lparr>mw_tokens := tw\<rparr>)
      | (None, tw) \<Rightarrow>
          (let w = w0\<lparr>mw_tokens := tw\<rparr> in
           case message_args m of
             Inl e \<Rightarrow> Some (Inl e, w)
           | Inr (content, thread) \<Rightarrow>
               map_option (\<lambda>(err, w1). settle_send env thread err w1)
                 (deliver env m content thread (add_pending (me_cmid env) w))))"

section \<open>Reactions\<close>

definition unsupported_reaction :: matrix_error where
  "unsupported_reaction = With_Status
     \<lparr>ms_err = Plain ''unsupported reaction emoji'', ms_text = None, ms_certain = True, ms_notice = True, ms_reason = Unsupported_Event\<rparr>"

text \<open>The key of a reaction is absent when the event has no content.\<close>

definition pre_handle_matrix_reaction ::
  "'s matrix_env \<Rightarrow> string option \<Rightarrow> 's matrix_world \<Rightarrow> ('s, string \<times> string \<times> string) handled" where
  "pre_handle_matrix_reaction env key =
     with_token env (\<lambda>w.
       (case key of
          None \<Rightarrow> Inl (Bare (Plain ''missing reaction content''))
        | Some k \<Rightarrow>
            if trim_space (self_teams_user_id w) = [] then Inl (Bare (Plain ''missing teams user id''))
            else case map_emoji_to_emotion_key (me_emoji env) (trim_space k) of
                   None \<Rightarrow> Inl unsupported_reaction
                 | Some e \<Rightarrow> Inr (trim_space (self_teams_user_id w), e, trim_space k), w))"

record matrix_reaction =
  mr_portal :: string
  mr_key :: "string option"
  mr_target :: string
  mr_pre :: "(string \<times> string) option"

text \<open>The Teams key and the emoji: what \<open>PreHandle\<close> found, else the mapping again.\<close>

definition reaction_key :: "'s matrix_env \<Rightarrow> string \<Rightarrow> (string \<times> string) option \<Rightarrow> (string \<times> string) option" where
  "reaction_key env key pre =
     (case pre of
        Some (k, e) \<Rightarrow>
          if k \<noteq> [] then Some (k, if e \<noteq> [] then e else trim_space key)
          else map_option (\<lambda>k. (k, trim_space key)) (map_emoji_to_emotion_key (me_emoji env) (trim_space key))
      | None \<Rightarrow> map_option (\<lambda>k. (k, trim_space key)) (map_emoji_to_emotion_key (me_emoji env) (trim_space key)))"

definition handle_matrix_reaction ::
  "'s matrix_env \<Rightarrow> matrix_reaction \<Rightarrow> 's matrix_world \<Rightarrow> ('s, string \<times> string) handled" where
  "handle_matrix_reaction env m =
     with_token env (\<lambda>w.
       case mr_key m of
         None \<Rightarrow> (Inl (Bare (Plain ''missing reaction content'')), w)
       | Some key \<Rightarrow>
           if mr_target m = [] then (Inl (Bare (Plain ''target message not found'')), w)
           else if trim_space (mr_portal m) = [] then (Inl no_thread, w)
           else case reaction_key env key (mr_pre m) of
             None \<Rightarrow> (Inl unsupported_reaction, w)
           | Some (k, e) \<Rightarrow>
               (let message = normalize_reaction_message_id (mr_target m) in
                if message = [] then (Inl (Bare (Plain (''missing teams message id for reaction target '' @ mr_target m))), w)
                else finish_call (put_reaction (me_net env) (get_api env w) (trim_space (mr_portal m)) message k (unix_milli (me_now env)))
                       (k, e) w))"

text \<open>The reaction removed: the ID of its emoji, its emoji and its message.\<close>

definition handle_matrix_reaction_remove ::
  "'s matrix_env \<Rightarrow> string \<Rightarrow> (string \<times> string \<times> string) option \<Rightarrow> 's matrix_world \<Rightarrow> ('s, unit) handled" where
  "handle_matrix_reaction_remove env portal target =
     with_token env (\<lambda>w.
       case target of
         None \<Rightarrow> (Inr (), w)
       | Some (emoji_id, emoji, message0) \<Rightarrow>
           (let thread = trim_space portal; message = normalize_reaction_message_id message0 in
            if thread = [] then (Inl no_thread, w)
            else case (if trim_space emoji_id \<noteq> [] then Some (trim_space emoji_id) else map_emoji_to_emotion_key (me_emoji env) emoji) of
              None \<Rightarrow> (Inr (), w)
            | Some key \<Rightarrow>
                if message = [] then (Inl (Bare (Plain ''missing teams message id for reaction removal'')), w)
                else finish_call (delete_reaction (me_net env) (get_api env w) thread message key) () w))"

section \<open>Typing, receipts, edits and deletions\<close>

definition handle_matrix_typing :: "'s matrix_env \<Rightarrow> string \<Rightarrow> bool \<Rightarrow> 's matrix_world \<Rightarrow> ('s, unit) handled" where
  "handle_matrix_typing env portal is_typing =
     with_token env (\<lambda>w.
       if \<not> is_typing then (Inr (), w)
       else if trim_space portal = [] then (Inl no_thread, w)
       else finish_call (send_typing_indicator (me_net env) (get_api env w) (me_now env) (me_cmid env) (trim_space portal)
              (self_teams_user_id w)) () w)"

text \<open>The read receipt of Receipts, with the request it makes.\<close>

definition handle_read_receipt :: "'s matrix_env \<Rightarrow> string \<Rightarrow> gotime \<Rightarrow> 's matrix_world \<Rightarrow> ('s, unit) handled" where
  "handle_read_receipt env portal read_up_to =
     with_token env (\<lambda>w.
       let x = set_consumption_horizon (me_net env) (get_api env w) (trim_space portal) (consumption_horizon_now (me_now env)) in
       case handle_matrix_read_receipt (me_horizons env) (me_now env) portal (self_teams_user_id w) read_up_to (sn_err x)
              (mw_caches w, mw_horizons w) of
         (err, (caches, db), horizon) \<Rightarrow>
           (case err of None \<Rightarrow> Inr () | Some e \<Rightarrow> Inl (Bare e),
            log_requests (if horizon = None then [] else sn_requests x) (w\<lparr>mw_caches := caches, mw_horizons := db\<rparr>)))"

definition handle_matrix_edit ::
  "'s matrix_env \<Rightarrow> string \<Rightarrow> matrix_content option \<Rightarrow> string option \<Rightarrow> 's matrix_world \<Rightarrow> ('s, unit) handled" where
  "handle_matrix_edit env portal content target =
     with_token env (\<lambda>w.
       case (content, target) of
         (Some m, Some i) \<Rightarrow>
           (let thread = trim_space portal in
            if thread = [] then (Inl no_thread, w)
            else if i = [] then (Inl (Bare (Plain ''missing teams message id for edit target'')), w)
            else case outbound_text_html (me_ghosts env) m thread of
                   (body, mentions) \<Rightarrow>
                     finish_call (edit_message (me_net env) (get_api env w) (me_now env) thread i body (self_teams_user_id w) mentions) () w)
       | _ \<Rightarrow> (Inl (Bare (Plain ''missing edit content or target'')), w))"

definition handle_matrix_message_remove ::
  "'s matrix_env \<Rightarrow> string \<Rightarrow> string option \<Rightarrow> 's matrix_world \<Rightarrow> ('s, unit) handled" where
  "handle_matrix_message_remove env portal target =
     with_token env (\<lambda>w.
       case target of
         None \<Rightarrow> (Inl (Bare (Plain ''missing redaction target'')), w)
       | Some i \<Rightarrow>
           if trim_space portal = [] then (Inl no_thread, w)
           else if i = [] then (Inl (Bare (Plain ''missing teams message id for delete target'')), w)
           else finish_call (delete_message (me_net env) (get_api env w) (me_now env) (trim_space portal) i (self_teams_user_id w)) () w)"

section \<open>Rooms\<close>

text \<open>The content of a name or topic event is the new text; the answer is whether Teams took it.\<close>

definition handle_room_text ::
  "string \<Rightarrow> 's matrix_env \<Rightarrow> string \<Rightarrow> string option \<Rightarrow> 's matrix_world \<Rightarrow> ('s, bool) handled" where
  "handle_room_text what env portal content =
     with_token env (\<lambda>w.
       case content of
         None \<Rightarrow> (Inl (Bare (Plain what)), w)
       | Some text \<Rightarrow>
           if trim_space portal = [] then (Inl no_thread, w)
           else finish_call (update_conversation_topic (me_net env) (get_api env w) (trim_space portal) text) True w)"

definition handle_matrix_room_name where
  "handle_matrix_room_name = handle_room_text ''missing room name content''"

definition handle_matrix_room_topic where
  "handle_matrix_room_topic = handle_room_text ''missing room topic content''"

datatype membership_change = Invite | Kick | Other_Change

text \<open>The ghost a change is about, if it is about one.\<close>

definition handle_matrix_membership ::
  "'s matrix_env \<Rightarrow> string \<Rightarrow> membership_change \<Rightarrow> string option \<Rightarrow> 's matrix_world \<Rightarrow> ('s, unit) handled" where
  "handle_matrix_membership env portal change ghost =
     with_token env (\<lambda>w.
       let thread = trim_space portal in
       if thread = [] then (Inl no_thread, w)
       else if change = Other_Change then (Inr (), w)
       else case ghost of
              None \<Rightarrow> (Inr (), w)
            | Some mri \<Rightarrow>
                if mri = [] then (Inl (Bare (Plain ''missing target user ID'')), w)
                else finish_call
                  ((if change = Invite then add_member else remove_member) (me_net env) (get_api env w) thread mri) () w)"

text \<open>Avatars go to Graph: \<open>SetChatPhoto\<close>, and the handler.\<close>

definition set_chat_photo :: "'s matrix_env \<Rightarrow> string \<Rightarrow> string \<Rightarrow> string \<Rightarrow> go_error option" where
  "set_chat_photo env token chat0 data =
     (if trim_space token = [] then Some (Plain ''missing graph access token'')
      else if trim_space chat0 = [] then Some (Plain ''missing chat ID'')
      else case me_put_photo env (''https://graph.microsoft.com/v1.0/chats/'' @ trim_space chat0 @ ''/photo/$value'') data of
             NoAnswer e \<Rightarrow> Some e
           | Answered r \<Rightarrow>
               if ok_status r then None
               else Some (Plain (''set chat photo failed with status '' @ show_int (resp_status r) @ '': '' @
                      take max_upload_error_bytes (resp_body r))))"

definition handle_matrix_room_avatar ::
  "'s matrix_env \<Rightarrow> string \<Rightarrow> string option \<Rightarrow> 's matrix_world \<Rightarrow> ('s, bool) handled" where
  "handle_matrix_room_avatar env portal url w0 =
     (if \<not> is_logged_in (te_now (me_tokens env)) (mw_tokens w0) then (Inl not_logged_in, w0)
      else case ensure_valid_graph_token (me_tokens env) (mw_tokens w0) of
        (Some e, tw) \<Rightarrow> (Inl (Bare (Prefixed ''graph token required for avatar: '' e)), w0\<lparr>mw_tokens := tw\<rparr>)
      | (None, tw) \<Rightarrow>
          (let w = w0\<lparr>mw_tokens := tw\<rparr>; thread = trim_space portal in
           case url of
              None \<Rightarrow> (Inl (Bare (Plain ''missing room avatar content'')), w)
            | Some u \<Rightarrow>
                if thread = [] then (Inl no_thread, w)
                else if u = [] then (Inl (Bare (Plain ''missing avatar URL'')), w)
                else case download_matrix_media (me_media env) u None of
                  Inl e \<Rightarrow> (Inl (Bare (Prefixed ''failed to download avatar: '' e)), w)
                | Inr data \<Rightarrow>
                    if data = [] then (Inl (Bare (Plain ''failed to download avatar: %!w(<nil>)'')), w)
                    else case get_graph_access_token (te_now (me_tokens env)) (tw_meta tw) of
                      Inl _ \<Rightarrow> (Inl (Bare (Plain ''no graph access token available'')), w)
                    | Inr token \<Rightarrow>
                        (case set_chat_photo env token thread data of None \<Rightarrow> Inr True | Some e \<Rightarrow> Inl (Bare e),
                         w\<lparr>mw_graph := mw_graph w @ [token]\<rparr>)))"

section \<open>Tags and pins\<close>

text \<open>\<open>HandleRoomTag\<close>: the favourite tag pins the chat on Teams.  The tags of the room are given by their names, as they are
  and, if known, as they were.  A client made for this call is made before the token is refreshed.\<close>

definition has_favourite_tag :: "string list \<Rightarrow> bool" where
  "has_favourite_tag tags \<longleftrightarrow> ''m.favourite'' \<in> set tags"

definition write_room_tag :: "'s matrix_env \<Rightarrow> string \<Rightarrow> string \<Rightarrow> bool \<Rightarrow> 's matrix_world \<Rightarrow> call_end \<times> 's matrix_world" where
  "write_room_tag env thread conv pinned w0 =
     (case ensure_valid_skype_token (me_tokens env) (mw_tokens w0) of
        (Some e, tw) \<Rightarrow> (Returned (Some e), w0\<lparr>mw_tokens := tw\<rparr>)
      | (None, tw) \<Rightarrow>
          (let w = w0\<lparr>mw_tokens := tw\<rparr>; api = get_api env (if tw_consumer (mw_tokens w0) = None then w0 else w) in
           case set_chat_pinned (me_net env) (me_decode env) api conv pinned of
             (r, reqs) \<Rightarrow>
               (r, log_requests reqs
                     (if r = Returned None then w\<lparr>mw_tags := tracker_set (mw_tags w) thread pinned\<rparr> else w))))"

definition handle_room_tag ::
  "'s matrix_env \<Rightarrow> string \<Rightarrow> string list option \<Rightarrow> string list option \<Rightarrow> 's matrix_world \<Rightarrow> call_end \<times> 's matrix_world" where
  "handle_room_tag env portal content prev w =
     (if \<not> is_logged_in (te_now (me_tokens env)) (mw_tokens w) then (Returned (Some (Plain ''not logged in'')), w)
      else case content of
        None \<Rightarrow> (Returned (Some (Plain ''missing room tag content'')), w)
      | Some tags \<Rightarrow>
          (let pinned = has_favourite_tag tags; thread = trim_space portal;
               row = (case thread_get (me_thread_err env) (mw_threads w) (me_login env) thread of Inr row \<Rightarrow> row | Inl _ \<Rightarrow> None) in
           if map_option has_favourite_tag prev = Some pinned then (Returned None, w)
           else if thread = [] then (Returned (Some (Plain ''missing thread id'')), w)
           else if tracker_get (mw_tags w) thread = (pinned, True) then (Returned None, w)
           else case pinnable_conversation_id row thread of
             None \<Rightarrow> (Returned None, w)
           | Some conv \<Rightarrow> write_room_tag env thread conv pinned w))"

text \<open>The event handler of pinned events, of Pinned_Messages: it asks for no login and refreshes no token.\<close>

definition handle_pinned_events :: "'s matrix_env \<Rightarrow> string \<Rightarrow> string \<Rightarrow> string list \<Rightarrow> 's matrix_world \<Rightarrow> 's matrix_world" where
  "handle_pinned_events env sender room events w =
     (case handle_matrix_pinned_events (me_pins env) (me_net env) (me_decode env) (get_api env w) sender room events (mw_pinned w) of
        (t, reqs) \<Rightarrow> log_requests reqs (w\<lparr>mw_pinned := t\<rparr>))"

section \<open>Every request carries the token of the login\<close>

text \<open>\<open>bears c x\<close>: the requests of a call carry the token of its client, which is not empty.\<close>

named_theorems bearer

definition bears :: "teams_client \<Rightarrow> teams_request list \<Rightarrow> bool" where
  "bears c rs \<longleftrightarrow> (\<forall>r \<in> set rs. tr_token r = tc_token c \<and> tc_token c \<noteq> [])"

lemma bears_refused [bearer]: "bears c (sn_requests (refused e))"
  by (simp add: bears_def refused_def)

lemma bears_once [bearer]: "tc_token c \<noteq> [] \<Longrightarrow> bears c (sn_requests (send_once net bad (make_request c m u p)))"
  by (simp add: bears_def send_once_def refused_def make_request_def split: option.split http_outcome.split)

lemma bears_retrying [bearer]: "tc_token c \<noteq> [] \<Longrightarrow> bears c (sn_requests (send_retrying net c cl (make_request c m u p)))"
  by (simp add: bears_def send_retrying_def refused_def make_request_def Let_def split: option.split)

lemma validated_token: "validate_send_args c t b f i e = Inr x \<Longrightarrow> tc_token c \<noteq> []"
  by (auto simp: validate_send_args_def split: if_splits)

lemma bears_rich [bearer]: "bears c (sn_requests (send_rich_text_with_id net c ctx now thread b files f i e))"
  unfolding send_rich_text_with_id_def post_rich_text_message_def
  by (cases "validate_send_args c thread b f i e") (auto simp: bearer dest: validated_token)

lemma bears_formatted [bearer]: "bears c (sn_requests (send_formatted_message net c ctx now thread b f i reply ms))"
  unfolding send_formatted_message_def send_reply_def send_rich_text_with_mentions_def send_html_with_id_def
    post_rich_text_message_def Let_def
  by (cases "validate_send_args c thread b f i False") (auto simp: bearer dest: validated_token)

lemma bears_gif [bearer]: "bears c (sn_requests (send_gif_with_id net c ctx now thread u t f i))"
  unfolding send_gif_with_id_def send_html_with_id_def by (rule bears_rich)

lemma bears_attachment [bearer]: "bears c (sn_requests (send_attachment_with_id net c ctx now thread b files f i))"
  by (simp add: send_attachment_with_id_def bearer)

lemma bears_edit [bearer]: "bears c (sn_requests (edit_message net c now thread i b f ms))"
  by (simp add: edit_message_def Let_def bearer)

lemma bears_delete [bearer]: "bears c (sn_requests (delete_message net c now thread i f))"
  by (simp add: delete_message_def Let_def bearer)

lemma bears_put [bearer]: "bears c (sn_requests (put_reaction net c thread i k at))"
  by (auto simp: put_reaction_def send_reaction_def reaction_args_def bearer split: option.split)

lemma bears_unreact [bearer]: "bears c (sn_requests (delete_reaction net c thread i k))"
  by (auto simp: delete_reaction_def send_reaction_def reaction_args_def bearer split: option.split)

lemma bears_typing [bearer]: "bears c (sn_requests (send_typing_indicator net c now i thread f))"
  by (simp add: send_typing_indicator_def Let_def bearer)

lemma bears_horizon [bearer]: "bears c (sn_requests (set_consumption_horizon net c thread h))"
  by (simp add: set_consumption_horizon_def Let_def bearer)

lemma bears_topic [bearer]: "bears c (sn_requests (update_conversation_topic net c thread t))"
  by (auto simp: update_conversation_topic_def set_thread_property_def thread_args_def bearer split: option.split)

lemma bears_member [bearer]: "bears c (sn_requests (change_member m p what net c thread i))"
  by (simp add: change_member_def Let_def bearer)

lemma bears_append: "bears c rs \<Longrightarrow> bears c rs' \<Longrightarrow> bears c (rs @ rs')"
  by (auto simp: bears_def)

lemma bears_user_properties: "tc_token c \<noteq> [] \<Longrightarrow> user_properties_call net (make_request c m u p) = (x, rs) \<Longrightarrow> bears c rs"
  by (auto simp: user_properties_call_def bears_def make_request_def split: option.splits http_outcome.splits)

lemma bears_pinned_chats: "get_pinned_chats net dec c = (x, rs) \<Longrightarrow> bears c rs"
  by (auto simp: get_pinned_chats_def bears_def [of _ "[]"] bears_user_properties split: if_splits prod.splits sum.splits)

lemma bears_chat_pinned: "set_chat_pinned net dec c conv pinned = (x, rs) \<Longrightarrow> bears c rs"
proof -
  assume p: "set_chat_pinned net dec c conv pinned = (x, rs)"
  obtain y rs1 where g: "get_pinned_chats net dec c = (y, rs1)" by force
  have b1: "bears c rs1" by (rule bears_pinned_chats [OF g])
  have t: "tc_token c \<noteq> []" if "y = Inr m" for m using g that by (auto simp: get_pinned_chats_def split: if_splits)
  show ?thesis
    using p b1
    by (auto simp: set_chat_pinned_def g Let_def bears_def [of _ "[]"] split: if_splits sum.splits prod.splits
        intro!: bears_append dest: t bears_user_properties [OF t])
qed

lemma bears_pins: "bears c (snd (handle_matrix_pinned_events env net dec c sender room events t))"
  by (auto simp: handle_matrix_pinned_events_def set_pinned_items_def set_thread_property_def thread_args_def bearer Let_def
      bears_def [of _ "[]"] split: option.split)

lemma bears_original: "reply_original env c conv i = (x, rs) \<Longrightarrow> bears c rs"
  by (auto simp: reply_original_def bears_def make_request_def Let_def)

lemma bears_text: "bears (get_api env w) (sn_requests (send_text env ctx m content thread w))"
  by (auto simp: send_text_def outbound_reply_def Let_def bears_def [of _ "[]"] bearer bears_original intro!: bears_append
      split: prod.split option.split)

text \<open>The client the connector keeps has the token the database has.\<close>

definition consumer_current :: "token_world \<Rightarrow> bool" where
  "consumer_current w \<longleftrightarrow> (case tw_consumer w of None \<Rightarrow> True | Some c \<Rightarrow> co_token c = lm_skype (tw_meta w))"

lemma renewed_token [simp]: "lm_skype (renewed st m) = lm_skype m"
  by (simp add: renewed_def)

lemma refresh_skype_current: "consumer_current w \<Longrightarrow> consumer_current (snd (refresh_skype_token env r w))"
  by (auto simp: refresh_skype_token_def consumer_current_def note_call_def Let_def split: sum.split option.splits)

lemma ensure_skype_current: "consumer_current w \<Longrightarrow> consumer_current (snd (ensure_valid_skype_token env w))"
  by (simp add: ensure_valid_skype_token_def Let_def refresh_skype_current split: option.split)

lemma ensure_graph_current: "consumer_current w \<Longrightarrow> consumer_current (snd (ensure_valid_graph_token env w))"
  by (auto simp: ensure_valid_graph_token_def Let_def consumer_current_def split: option.splits prod.split sum.split)

lemma connect_current: "consumer_current (snd (connect_client env w)) \<or> \<not> fst (connect_client env w)"
  by (auto simp: connect_client_def consumer_current_def new_consumer_def split: prod.split option.split)

lemma get_api_token: "consumer_current (mw_tokens w) \<Longrightarrow> tc_token (get_api env w) = lm_skype (tw_meta (mw_tokens w))"
  by (auto simp: get_api_def consumer_current_def new_consumer_def Let_def split: option.splits)

lemma get_api_cong: "mw_tokens w1 = mw_tokens w2 \<Longrightarrow> get_api env w1 = get_api env w2"
  by (simp only: get_api_def)

text \<open>\<open>unasked w w'\<close>: nothing was asked from \<open>w\<close> to \<open>w'\<close>; \<open>carried w w'\<close>: what was asked carries the tokens \<open>w'\<close> has.\<close>

definition unasked :: "'s matrix_world \<Rightarrow> 's matrix_world \<Rightarrow> bool" where
  "unasked w w' \<longleftrightarrow> mw_requests w' = mw_requests w \<and> mw_graph w' = mw_graph w"

definition graph_token_of :: "'s matrix_world \<Rightarrow> string" where
  "graph_token_of w = trim_space (lm_graph (tw_meta (mw_tokens w)))"

definition carried :: "'s matrix_world \<Rightarrow> 's matrix_world \<Rightarrow> bool" where
  "carried w w' \<longleftrightarrow> consumer_current (mw_tokens w') \<and>
     (\<exists>rs. mw_requests w' = mw_requests w @ rs \<and> (\<forall>r \<in> set rs. tr_token r = lm_skype (tw_meta (mw_tokens w')) \<and> tr_token r \<noteq> [])) \<and>
     (\<exists>gs. mw_graph w' = mw_graph w @ gs \<and> (\<forall>g \<in> set gs. g = graph_token_of w' \<and> g \<noteq> []))"

lemma carried_here: "consumer_current (mw_tokens w1) \<Longrightarrow> unasked w w1 \<Longrightarrow> carried w w1"
  by (simp add: carried_def unasked_def)

lemma carried_refl: "consumer_current (mw_tokens w) \<Longrightarrow> carried w w"
  by (simp add: carried_def)

lemma unasked_simps [simp]:
  "unasked w w" "unasked w (w1\<lparr>mw_tokens := tw\<rparr>) = unasked w w1" "unasked w (w1\<lparr>mw_caches := c\<rparr>) = unasked w w1"
  "unasked w (w1\<lparr>mw_tags := p\<rparr>) = unasked w w1" "unasked w (w1\<lparr>mw_pinned := k\<rparr>) = unasked w w1"
  by (simp_all add: unasked_def)

lemma carried_log:
  assumes "consumer_current (mw_tokens w)" and "bears (get_api env w) rs" and "unasked w0 w"
  shows "carried w0 (log_requests rs w)"
  using assms get_api_token [OF assms(1)] by (auto simp: carried_def log_requests_def bears_def unasked_def)

lemma carried_graph:
  assumes "carried w0 w" and "get_graph_access_token now (tw_meta (mw_tokens w)) = Inr g"
  shows "carried w0 (w\<lparr>mw_graph := mw_graph w @ [g]\<rparr>)"
  using assms by (auto simp: carried_def graph_token_of_def get_graph_access_token_def split: if_splits)

text \<open>The frame of \<open>with_token\<close>.\<close>

lemma with_token_carried:
  assumes "consumer_current (mw_tokens w)"
    and "\<And>w1. consumer_current (mw_tokens w1) \<Longrightarrow> unasked w w1 \<Longrightarrow> carried w (snd (k w1))"
  shows "carried w (snd (with_token env k w))"
proof (cases "is_logged_in (te_now (me_tokens env)) (mw_tokens w)")
  case False
  then show ?thesis using assms(1) by (simp add: with_token_def carried_refl)
next
  case True
  obtain r tw where e: "ensure_valid_skype_token (me_tokens env) (mw_tokens w) = (r, tw)" by force
  have c: "consumer_current tw" using ensure_skype_current [OF assms(1), of "me_tokens env"] e by simp
  then have "carried w (w\<lparr>mw_tokens := tw\<rparr>)" by (simp add: carried_here)
  moreover have "carried w (snd (k (w\<lparr>mw_tokens := tw\<rparr>)))" by (rule assms(2)) (simp_all add: c)
  ultimately show ?thesis using True e by (simp add: with_token_def split: option.split)
qed

lemma finish_call_carried:
  assumes "consumer_current (mw_tokens w)" and "unasked w0 w" and "bears (get_api env w) (sn_requests x)"
  shows "carried w0 (snd (finish_call x r w))"
  using carried_log [OF assms(1,3,2)] by (simp add: finish_call_def)

lemma carried_frame:
  assumes "carried w w1" and "tw_consumer (mw_tokens w2) = tw_consumer (mw_tokens w1)"
    and "tw_meta (mw_tokens w2) = tw_meta (mw_tokens w1)" and "unasked w1 w2"
  shows "carried w w2"
  using assms unfolding carried_def consumer_current_def unasked_def graph_token_of_def by (simp split: option.splits)

lemma carried_start: "carried w w1 \<Longrightarrow> unasked w0 w \<Longrightarrow> carried w0 w1"
  by (simp add: carried_def unasked_def)

lemma send_file_bears: "send_attachment_message fs ctx now i thread f b c s = Some (r, reqs, s1) \<Longrightarrow> bears (fs_api fs) reqs"
  by (auto simp: send_attachment_message_def Let_def bearer bears_def [of _ "[]"]
    split: if_splits option.splits prod.splits upload_end.splits sum.splits)

lemma send_attachment_carried:
  assumes "consumer_current (mw_tokens w)" and "send_attachment env ctx thread name b c i w = Some (r, w1)"
  shows "carried w w1"
proof (cases "is_logged_in (te_now (me_tokens env)) (mw_tokens w)")
  case False
  then show ?thesis using assms by (simp add: send_attachment_def carried_refl)
next
  case True
  obtain e tw where e: "ensure_valid_skype_token (me_tokens env) (mw_tokens w) = (e, tw)" by force
  have c: "consumer_current tw" using ensure_skype_current [OF assms(1), of "me_tokens env"] e by simp
  let ?w = "w\<lparr>mw_tokens := tw\<rparr>"
  have quiet: "carried w ?w" using c by (simp add: carried_here)
  show ?thesis
  proof (cases "w1 = ?w")
    case False
    have "\<exists>fs ctx' i' t n r' reqs s g. send_attachment_message fs ctx' (me_now env) i' t n b c (mw_drive ?w) = Some (r', reqs, s) \<and>
        fs_api fs = get_api env ?w \<and> get_graph_access_token (te_now (me_tokens env)) (tw_meta tw) = Inr g \<and>
        w1 = (let w2 = log_requests reqs ?w\<lparr>mw_drive := s, mw_graph := mw_graph ?w @ [g]\<rparr> in
          case r' of Inr j \<Rightarrow> record_own (me_later env) j w2 | Inl _ \<Rightarrow> w2)"
      using assms(2) True e False
      by (cases r) (force simp: send_attachment_def Let_def split: option.splits if_splits sum.splits)+
    then obtain fs ctx' i' t n r' reqs s g where
      call: "send_attachment_message fs ctx' (me_now env) i' t n b c (mw_drive ?w) = Some (r', reqs, s)"
      and api: "fs_api fs = get_api env ?w" and g: "get_graph_access_token (te_now (me_tokens env)) (tw_meta tw) = Inr g"
      and w1: "w1 = (let w2 = log_requests reqs ?w\<lparr>mw_drive := s, mw_graph := mw_graph ?w @ [g]\<rparr> in
          case r' of Inr j \<Rightarrow> record_own (me_later env) j w2 | Inl _ \<Rightarrow> w2)"
      by blast
    have "carried w (log_requests reqs ?w)"
      by (rule carried_log) (use c send_file_bears [OF call] api in simp_all)
    then have "carried w ((log_requests reqs ?w)\<lparr>mw_graph := mw_graph (log_requests reqs ?w) @ [g]\<rparr>)"
      by (rule carried_graph) (use g in \<open>simp add: log_requests_def\<close>)
    then show ?thesis by (rule carried_frame) (simp_all add: w1 Let_def record_own_def log_requests_def unasked_def split: sum.split)
  qed (use quiet in simp)
qed

lemma outbound_file_carried:
  assumes "consumer_current (mw_tokens w)" and "send_outbound_attachment env ctx content thread w = Some (r, w1)"
  shows "carried w w1"
  using assms(2) carried_refl [OF assms(1)] send_attachment_carried [OF assms(1)]
  by (auto simp: send_outbound_attachment_def handle_outbound_matrix_file_def Let_def split: sum.splits if_splits)

lemma deliver_carried:
  assumes c: "consumer_current (mw_tokens w)" and d: "deliver env m content thread w = Some (r, w1)"
  shows "carried w w1"
proof -
  have log: "carried w (log_requests (sn_requests x) w)" if "bears (get_api env w) (sn_requests x)" for x
    by (rule carried_log [OF c that]) simp
  have as_file: "carried w w1" if "send_outbound_attachment env ctx content thread w = Some (r, w1)" for ctx
    by (rule outbound_file_carried [OF c that])
  consider (words) "mx_type content \<in> {M_Text, M_Notice, M_Emote, M_Location}"
    | (gif) t u where "mx_type content = M_Image" "extract_outbound_gif (me_urls env) content = Some (t, u)"
    | (sent) "deliver env m content thread w = send_outbound_attachment env (outbound_context m thread) content thread w"
    by (cases "mx_type content"; cases "extract_outbound_gif (me_urls env) content") (auto simp: deliver_def Let_def)
  then show ?thesis
  proof cases
    case words
    then show ?thesis using d by (auto simp: deliver_def Let_def intro!: log bears_text)
  next
    case gif
    then show ?thesis using d by (auto simp: deliver_def Let_def intro!: log bearer)
  next
    case sent
    then show ?thesis using d as_file by simp
  qed
qed

lemma settle_frame [simp]:
  "tw_consumer (mw_tokens (snd (settle_send env thread err w))) = tw_consumer (mw_tokens w)"
  "tw_meta (mw_tokens (snd (settle_send env thread err w))) = tw_meta (mw_tokens w)"
  "mw_requests (snd (settle_send env thread err w)) = mw_requests w" "mw_graph (snd (settle_send env thread err w)) = mw_graph w"
  by (simp_all add: settle_send_def note_result_def record_own_def wake_poll_def remove_pending_def Let_def split: option.split)

lemma message_carried:
  assumes "consumer_current (mw_tokens w)" and "handle_matrix_message env m w = Some (r, w1)"
  shows "carried w w1"
proof (cases "is_logged_in (te_now (me_tokens env)) (mw_tokens w)")
  case False
  then show ?thesis using assms by (simp add: handle_matrix_message_def carried_refl)
next
  case True
  obtain e tw where e: "ensure_valid_skype_token (me_tokens env) (mw_tokens w) = (e, tw)" by force
  have c: "consumer_current tw" using ensure_skype_current [OF assms(1), of "me_tokens env"] e by simp
  let ?w = "w\<lparr>mw_tokens := tw\<rparr>"
  have quiet: "carried w ?w" using c by (simp add: carried_here)
  show ?thesis
  proof (cases "w1 = ?w")
    case False
    with assms(2) True e obtain content thread err w2 where
      d: "deliver env m content thread (add_pending (me_cmid env) ?w) = Some (err, w2)"
      and w1: "w1 = snd (settle_send env thread err w2)"
      by (auto simp: handle_matrix_message_def Let_def split: option.splits if_splits sum.splits prod.splits)
    have "carried (add_pending (me_cmid env) ?w) w2" by (rule deliver_carried [OF _ d]) (simp add: add_pending_def c)
    then have "carried w w2" by (rule carried_start) (simp add: add_pending_def unasked_def)
    then show ?thesis by (rule carried_frame) (simp_all add: w1 unasked_def)
  qed (use quiet in simp)
qed

section \<open>What a message sent leaves\<close>

lemma record_self_distinct:
  "distinct (map fst (self_messages c)) \<Longrightarrow> distinct (map fst (self_messages (record_self_message now i c)))"
  by (simp add: record_self_message_def cleanup_self_messages_def Let_def distinct_update distinct_map_filter)

lemma consume_self_cong:
  "self_messages c = self_messages c' \<Longrightarrow> fst (consume_self_message t i c) = fst (consume_self_message t i c')"
  by (simp add: consume_self_message_def cleanup_self_messages_def Let_def)

text \<open>\<open>quiet i at w w'\<close>: only the own-message records differ, by records of \<open>i\<close> at \<open>at\<close>.\<close>

definition quiet :: "string \<Rightarrow> gotime \<Rightarrow> 's matrix_world \<Rightarrow> 's matrix_world \<Rightarrow> bool" where
  "quiet i at w w' \<longleftrightarrow> mw_pending w' = mw_pending w \<and> mw_wakeups w' = mw_wakeups w \<and>
     (mw_caches w' = mw_caches w \<or> mw_caches w' = record_self_message at i (mw_caches w))"

lemma send_attachment_message_id:
  "send_attachment_message fs ctx now i thread f b c s = Some (Inr j, reqs, s1) \<Longrightarrow> j = i"
  by (auto simp: send_attachment_message_def Let_def
    split: if_splits option.splits prod.splits upload_end.splits sum.splits)

lemma send_attachment_quiet:
  assumes "send_attachment env ctx thread name b c i w = Some (r, w1)" and "trim_space i = i" and "i \<noteq> []"
  shows "quiet i (me_later env) w w1 \<and> (the_err r \<noteq> None \<longrightarrow> mw_caches w1 = mw_caches w)"
  using assms
  by (cases r) (auto simp: send_attachment_def quiet_def log_requests_def record_own_def Let_def
      split: if_splits option.splits sum.splits prod.splits dest!: send_attachment_message_id)

lemma deliver_quiet:
  assumes "deliver env m content thread w = Some (err, w1)" and "trim_space (me_cmid env) = me_cmid env" and "me_cmid env \<noteq> []"
  shows "quiet (me_cmid env) (me_later env) w w1 \<and> (err \<noteq> None \<longrightarrow> mw_caches w1 = mw_caches w)"
proof -
  have called: "quiet i t w (log_requests rs w) \<and> mw_caches (log_requests rs w) = mw_caches w" for i t rs
    by (simp add: quiet_def log_requests_def)
  have same: "quiet i t w w" for i t by (simp add: quiet_def)
  have as_file: "quiet (me_cmid env) (me_later env) w w1 \<and> (err \<noteq> None \<longrightarrow> mw_caches w1 = mw_caches w)"
    if "send_outbound_attachment env ctx content thread w = Some (err, w1)" for ctx
    using that same
    by (auto dest!: send_attachment_quiet [OF _ assms(2,3)] simp: send_outbound_attachment_def handle_outbound_matrix_file_def Let_def split: sum.splits if_splits)
  show ?thesis
    using assms(1) called as_file
    by (cases "mx_type content"; cases "extract_outbound_gif (me_urls env) content") (auto simp: deliver_def Let_def)
qed


text \<open>C30: Sending a message settles.  When \<open>HandleMatrixMessage\<close> returns an error, the pending messages, the wake-ups of
  the poll loop and the records of own messages are as before.  When it succeeds, the message was one it supports and the
  answer is its client message ID and time; that ID, and nothing else, was added to the pending messages, a poll of the thread was
  asked for, the thread counts as active, and the echo Teams will list is recognised as the user's own, for as long as the record lives.\<close>

theorem matrix_message_settles:
  assumes "handle_matrix_message env m w = Some (r, w')"
    and "trim_space (me_cmid env) = me_cmid env" and "me_cmid env \<noteq> []" and "me_cmid env \<notin> set (mw_pending w)"
    and "distinct (map fst (self_messages (mw_caches w)))"
  shows "case r of
      Inl e \<Rightarrow> mw_pending w' = mw_pending w \<and> mw_wakeups w' = mw_wakeups w \<and> mw_caches w' = mw_caches w
    | Inr (i, at) \<Rightarrow>
        (\<exists>content thread. message_args m = Inr (content, thread) \<and>
           mw_wakeups w' = request_poll (me_later env) thread False ''send'' (mw_wakeups w) \<and>
           map_of (thread_active (mw_caches w')) thread = Some (me_now env)) \<and>
        i = me_cmid env \<and> at = unix_milli (me_now env) \<and> mw_pending w' = mw_pending w @ [i] \<and>
        (\<forall>t. me_later env \<le> t \<and> t - me_later env \<le> self_message_ttl \<longrightarrow> fst (consume_self_message t i (mw_caches w')))"
proof (cases r)
  case (Inl e)
  have fresh: "filter (\<lambda>j. j \<noteq> me_cmid env) (mw_pending w) = mw_pending w"
    using assms(4) by (auto simp: filter_id_conv)
  show ?thesis
    using assms(1) Inl fresh
    by (auto simp: handle_matrix_message_def settle_send_def note_result_def remove_pending_def add_pending_def quiet_def Let_def
        split: if_splits option.splits sum.splits prod.splits dest!: deliver_quiet [OF _ assms(2,3)])
next
  case (Inr a)
  obtain tw content thread w1 where args: "message_args m = Inr (content, thread)"
    and d: "deliver env m content thread (add_pending (me_cmid env) (w\<lparr>mw_tokens := tw\<rparr>)) = Some (None, w1)"
    and s: "(Inr a, w') = settle_send env thread None w1"
    using assms(1) Inr
    by (auto simp: handle_matrix_message_def settle_send_def Let_def split: if_splits option.splits sum.splits prod.splits)
  from deliver_quiet [OF d assms(2,3)] have q: "quiet (me_cmid env) (me_later env) (add_pending (me_cmid env) (w\<lparr>mw_tokens := tw\<rparr>)) w1"
    by blast
  let ?c = "record_self_message (me_later env) (me_cmid env) (mw_caches w1)"
  have "distinct (map fst (self_messages (mw_caches w1)))"
    using q assms(5) by (auto simp: quiet_def add_pending_def record_self_distinct)
  then have "fst (consume_self_message t (me_cmid env) ?c)" if "me_later env \<le> t" "t - me_later env \<le> self_message_ttl" for t
    using recorded_then_consumed [where i = "me_cmid env" and c = "mw_caches w1" and t'' = 0, OF _ that] assms(2,3) by auto
  moreover have "fst (consume_self_message t (me_cmid env) (mw_caches w')) = fst (consume_self_message t (me_cmid env) ?c)" for t
    using s by (intro consume_self_cong) (simp add: settle_send_def Let_def note_thread_active_def record_own_def wake_poll_def note_result_def)
  ultimately show ?thesis
    using s args q Inr
    by (auto simp: settle_send_def Let_def quiet_def add_pending_def note_thread_active_def record_own_def wake_poll_def note_result_def
        update_conv')
qed


section \<open>Everything the user does\<close>

datatype matrix_action =
    Send matrix_message
  | Pre_React "string option"
  | React matrix_reaction
  | Unreact string "(string \<times> string \<times> string) option"
  | Type string bool
  | Read string gotime
  | Edit string "matrix_content option" "string option"
  | Redact string "string option"
  | Name_Room string "string option"
  | Topic_Room string "string option"
  | Change_Member string membership_change "string option"
  | Picture_Room string "string option"
  | Tag string "string list option" "string list option"
  | Pin string string "string list"

text \<open>The state after an action, if its handler returns.\<close>

fun matrix_do :: "'s matrix_env \<Rightarrow> matrix_action \<Rightarrow> 's matrix_world \<Rightarrow> 's matrix_world option" where
  "matrix_do env (Send m) w = map_option snd (handle_matrix_message env m w)"
| "matrix_do env (Pre_React k) w = Some (snd (pre_handle_matrix_reaction env k w))"
| "matrix_do env (React m) w = Some (snd (handle_matrix_reaction env m w))"
| "matrix_do env (Unreact p t) w = Some (snd (handle_matrix_reaction_remove env p t w))"
| "matrix_do env (Type p b) w = Some (snd (handle_matrix_typing env p b w))"
| "matrix_do env (Read p t) w = Some (snd (handle_read_receipt env p t w))"
| "matrix_do env (Edit p c t) w = Some (snd (handle_matrix_edit env p c t w))"
| "matrix_do env (Redact p t) w = Some (snd (handle_matrix_message_remove env p t w))"
| "matrix_do env (Name_Room p c) w = Some (snd (handle_matrix_room_name env p c w))"
| "matrix_do env (Topic_Room p c) w = Some (snd (handle_matrix_room_topic env p c w))"
| "matrix_do env (Change_Member p c g) w = Some (snd (handle_matrix_membership env p c g w))"
| "matrix_do env (Picture_Room p u) w = Some (snd (handle_matrix_room_avatar env p u w))"
| "matrix_do env (Tag p c q) w = Some (snd (handle_room_tag env p c q w))"
| "matrix_do env (Pin u r es) w = Some (handle_pinned_events env u r es w)"

lemmas handler_carried = finish_call_carried bearer

lemma reaction_carried: "consumer_current (mw_tokens w) \<Longrightarrow> carried w (snd (handle_matrix_reaction env m w))"
  unfolding handle_matrix_reaction_def
  by (rule with_token_carried) (auto simp: Let_def carried_here intro!: handler_carried split: option.split)

lemma pre_reaction_carried: "consumer_current (mw_tokens w) \<Longrightarrow> carried w (snd (pre_handle_matrix_reaction env k w))"
  unfolding pre_handle_matrix_reaction_def
  by (rule with_token_carried) (auto simp: carried_here intro!: handler_carried)

lemma unreact_carried: "consumer_current (mw_tokens w) \<Longrightarrow> carried w (snd (handle_matrix_reaction_remove env p t w))"
  unfolding handle_matrix_reaction_remove_def
  by (rule with_token_carried) (auto simp: Let_def carried_here intro!: handler_carried split: option.split)

lemma typing_carried: "consumer_current (mw_tokens w) \<Longrightarrow> carried w (snd (handle_matrix_typing env p b w))"
  unfolding handle_matrix_typing_def
  by (rule with_token_carried) (auto simp: carried_here intro!: handler_carried)

lemma edit_carried: "consumer_current (mw_tokens w) \<Longrightarrow> carried w (snd (handle_matrix_edit env p c t w))"
  unfolding handle_matrix_edit_def
  by (rule with_token_carried) (auto simp: Let_def carried_here intro!: handler_carried split: option.split prod.split)

lemma redact_carried: "consumer_current (mw_tokens w) \<Longrightarrow> carried w (snd (handle_matrix_message_remove env p t w))"
  unfolding handle_matrix_message_remove_def
  by (rule with_token_carried) (auto simp: carried_here intro!: handler_carried split: option.split)

lemma room_text_carried: "consumer_current (mw_tokens w) \<Longrightarrow> carried w (snd (handle_room_text what env p c w))"
  unfolding handle_room_text_def
  by (rule with_token_carried) (auto simp: carried_here intro!: handler_carried split: option.split)

lemma member_carried: "consumer_current (mw_tokens w) \<Longrightarrow> carried w (snd (handle_matrix_membership env p c g w))"
  unfolding handle_matrix_membership_def add_member_def remove_member_def
  by (rule with_token_carried) (auto simp: Let_def carried_here intro!: handler_carried split: option.split)

lemma receipt_carried: "consumer_current (mw_tokens w) \<Longrightarrow> carried w (snd (handle_read_receipt env p t w))"
  unfolding handle_read_receipt_def
proof (rule with_token_carried)
  fix w1 :: "'a matrix_world"
  assume c: "consumer_current (mw_tokens w1)" and rs: "unasked w w1"
  let ?x = "set_consumption_horizon (me_net env) (get_api env w1) (trim_space p) (consumption_horizon_now (me_now env))"
  have "carried w (log_requests (if h = None then [] else sn_requests ?x) (w1\<lparr>mw_caches := a, mw_horizons := b\<rparr>))" for h a b
  proof (rule carried_frame [where ?w1.0 = "log_requests (if h = None then [] else sn_requests ?x) w1"])
    show "carried w (log_requests (if h = None then [] else sn_requests ?x) w1)"
      by (rule carried_log [where env = env, OF c _ rs]) (use bears_horizon in \<open>auto simp: bears_def\<close>)
  qed (simp_all add: log_requests_def unasked_def)
  from this [of None] this [of "Some []"] show "carried w (snd (let x = ?x in
       case handle_matrix_read_receipt (me_horizons env) (me_now env) p (self_teams_user_id w1) t (sn_err x) (mw_caches w1, mw_horizons w1) of
         (err, (caches, db), horizon) \<Rightarrow> (case err of None \<Rightarrow> Inr () | Some e \<Rightarrow> Inl (Bare e),
            log_requests (if horizon = None then [] else sn_requests x) (w1\<lparr>mw_caches := caches, mw_horizons := db\<rparr>))))"
    by (simp add: Let_def split: prod.split)
qed

lemma avatar_carried:
  assumes "consumer_current (mw_tokens w)"
  shows "carried w (snd (handle_matrix_room_avatar env p u w))"
proof -
  obtain e tw where e: "ensure_valid_graph_token (me_tokens env) (mw_tokens w) = (e, tw)" by force
  have "consumer_current tw" using ensure_graph_current [OF assms, of "me_tokens env"] e by simp
  then have c: "carried w (w\<lparr>mw_tokens := tw\<rparr>)" by (simp add: carried_here)
  moreover have "carried w (w\<lparr>mw_tokens := tw, mw_graph := mw_graph w @ [g]\<rparr>)"
    if "get_graph_access_token now (tw_meta tw) = Inr g" for now g
    using carried_graph [OF c, of now g] that by simp
  ultimately show ?thesis
    using carried_refl [OF assms] by (auto simp: handle_matrix_room_avatar_def e Let_def split: option.split sum.split)
qed

lemma pins_carried: "consumer_current (mw_tokens w) \<Longrightarrow> carried w (handle_pinned_events env u r es w)"
proof -
  assume c: "consumer_current (mw_tokens w)"
  obtain t reqs where h: "handle_matrix_pinned_events (me_pins env) (me_net env) (me_decode env) (get_api env w) u r es (mw_pinned w) = (t, reqs)"
    by force
  have "carried w (log_requests reqs (w\<lparr>mw_pinned := t\<rparr>))"
  proof (rule carried_log [where env = env])
    have "get_api env (w\<lparr>mw_pinned := t\<rparr>) = get_api env w" by (intro get_api_cong) simp
    then show "bears (get_api env (w\<lparr>mw_pinned := t\<rparr>)) reqs"
      using bears_pins [of "get_api env w" "me_pins env" "me_net env" "me_decode env" u r es "mw_pinned w"] by (simp add: h)
  qed (use c in simp_all)
  then show ?thesis by (simp add: handle_pinned_events_def h)
qed

text \<open>A tag: as any other request, unless the client was made for the call, with the token there was before.\<close>

definition old_token :: "'s matrix_world \<Rightarrow> 's matrix_world \<Rightarrow> bool" where
  "old_token w w' \<longleftrightarrow> tw_consumer (mw_tokens w) = None \<and> consumer_current (mw_tokens w') \<and> mw_graph w' = mw_graph w \<and>
    (\<exists>rs. mw_requests w' = mw_requests w @ rs \<and> (\<forall>r \<in> set rs. tr_token r = lm_skype (tw_meta (mw_tokens w)) \<and> tr_token r \<noteq> []))"

lemma write_tag_carried:
  assumes c: "consumer_current (mw_tokens w)" and "write_room_tag env thread conv pinned w = (r, w')"
  shows "carried w w' \<or> old_token w w'"
proof -
  obtain e tw where e: "ensure_valid_skype_token (me_tokens env) (mw_tokens w) = (e, tw)" by force
  have ct: "consumer_current tw" using ensure_skype_current [OF c, of "me_tokens env"] e by simp
  let ?w = "w\<lparr>mw_tokens := tw\<rparr>"
  let ?api = "get_api env (if tw_consumer (mw_tokens w) = None then w else ?w)"
  show ?thesis
  proof (cases e)
    case (Some x)
    then have "w' = ?w" using assms(2) e by (simp add: write_room_tag_def)
    then show ?thesis using ct by (simp add: carried_here)
  next
    case None
    obtain x reqs where p: "set_chat_pinned (me_net env) (me_decode env) ?api conv pinned = (x, reqs)" by force
    define w1 where "w1 = (if x = Returned None then ?w\<lparr>mw_tags := tracker_set (mw_tags ?w) thread pinned\<rparr> else ?w)"
    have w': "w' = log_requests reqs w1"
      using assms(2) e None p unfolding write_room_tag_def Let_def w1_def by (auto split: if_splits)
    have w1: "mw_tokens w1 = tw" "unasked w w1" by (simp_all add: w1_def)
    have b: "bears ?api reqs" by (rule bears_chat_pinned [OF p])
    show ?thesis
    proof (cases "tw_consumer (mw_tokens w) = None")
      case True
      then have "bears (get_api env w) reqs" using b by simp
      moreover have "tc_token (get_api env w) = lm_skype (tw_meta (mw_tokens w))" by (rule get_api_token [OF c])
      ultimately have "old_token w w'"
        using True ct w1 by (simp add: w' old_token_def log_requests_def bears_def unasked_def)
      then show ?thesis ..
    next
      case False
      have "get_api env w1 = get_api env ?w" using w1(1) by (intro get_api_cong) simp
      moreover have "bears (get_api env ?w) reqs" using b unfolding if_not_P [OF False] .
      ultimately have "carried w w'" unfolding w' by (intro carried_log [where env = env]) (use ct w1 in simp_all)
      then show ?thesis ..
    qed
  qed
qed

lemma tag_carried:
  assumes c: "consumer_current (mw_tokens w)"
  shows "carried w (snd (handle_room_tag env p content prev w)) \<or> old_token w (snd (handle_room_tag env p content prev w))"
proof -
  have "snd (handle_room_tag env p content prev w) = w \<or>
      (\<exists>thread conv pinned. handle_room_tag env p content prev w = write_room_tag env thread conv pinned w)"
    by (cases content) (auto simp: handle_room_tag_def Let_def split: option.split)
  then show ?thesis
  proof (elim disjE exE)
    fix thread conv pinned assume h: "handle_room_tag env p content prev w = write_room_tag env thread conv pinned w"
    obtain r w' where "write_room_tag env thread conv pinned w = (r, w')" by force
    then show ?thesis using write_tag_carried [OF c] h by fastforce
  qed (simp add: carried_refl [OF c])
qed

text \<open>C31: Nothing is asked of Teams without the login's tokens.  Whatever the user does in Matrix, if the client the
  connector keeps has the stored Skype token, it has it afterwards too, also when the action refreshed it, and every
  request the action made to the chat service, retries and the look-up of a quoted message included, carries the token that is stored then,
  which is not empty; only a room tag handled before the login connected, when no client is kept, is written with the token that was
  stored before.  Every client of Graph an action made, for a file or a picture, has the stored Graph token.  An action of
  a user who is not logged in changes nothing and asks nothing, except for pinned events, which are written with
  whatever token is stored.\<close>

theorem requests_carry_token:
  assumes "consumer_current (mw_tokens w)" and "matrix_do env a w = Some w'"
  shows "consumer_current (mw_tokens w') \<and>
    (\<exists>rs. mw_requests w' = mw_requests w @ rs \<and>
       (\<forall>r \<in> set rs. tr_token r \<noteq> [] \<and> (tr_token r = lm_skype (tw_meta (mw_tokens w')) \<or>
          (\<exists>p c q. a = Tag p c q) \<and> tw_consumer (mw_tokens w) = None \<and> tr_token r = lm_skype (tw_meta (mw_tokens w))))) \<and>
    (\<exists>gs. mw_graph w' = mw_graph w @ gs \<and>
       (\<forall>g \<in> set gs. g = trim_space (lm_graph (tw_meta (mw_tokens w'))) \<and> g \<noteq> [])) \<and>
    (\<not> is_logged_in (te_now (me_tokens env)) (mw_tokens w) \<longrightarrow> w' = w \<or> (\<exists>u r es. a = Pin u r es))"
proof -
  have "carried w w' \<or> (\<exists>p c q. a = Tag p c q) \<and> old_token w w'"
  proof (cases "\<exists>p c q. a = Tag p c q")
    case True
    then obtain p c q where a: "a = Tag p c q" by blast
    then have "w' = snd (handle_room_tag env p c q w)" using assms(2) by simp
    then show ?thesis using tag_carried [OF assms(1), of env p c q] a by blast
  next
    case False
    then have "carried w w'"
      using assms
      by (cases a) (auto simp: handle_matrix_room_name_def handle_matrix_room_topic_def intro: message_carried
          pre_reaction_carried reaction_carried unreact_carried typing_carried receipt_carried edit_carried redact_carried
          room_text_carried member_carried avatar_carried pins_carried)
    then show ?thesis ..
  qed
  moreover have "\<not> is_logged_in (te_now (me_tokens env)) (mw_tokens w) \<longrightarrow> w' = w \<or> (\<exists>u r es. a = Pin u r es)"
    using assms(2)
    by (cases a) (auto simp: handle_matrix_message_def pre_handle_matrix_reaction_def handle_matrix_reaction_def
        handle_matrix_reaction_remove_def handle_matrix_typing_def handle_read_receipt_def handle_matrix_edit_def
        handle_matrix_message_remove_def handle_matrix_room_name_def handle_matrix_room_topic_def handle_room_text_def
        handle_matrix_membership_def handle_matrix_room_avatar_def handle_room_tag_def with_token_def)
  ultimately show ?thesis unfolding carried_def old_token_def graph_token_of_def by fastforce
qed


text \<open>C32: An edit says what a message would.  When a text of the user that replies to nothing is sent to a chat, and when it replaces
  the text of an earlier message, every request for the first is a POST and for the second a PUT, to the same
  thread, and both carry the same HTML, from the same user, and the same mentions, or none.\<close>

theorem edit_matches_send:
  assumes "mx_type content \<in> {M_Text, M_Notice, M_Emote, M_Location}" and "mm_content m = Some content"
    and "mm_reply m = None" and "mm_thread_root m = []"
    and "handle_matrix_message env m w = Some (x, w1)" and "mw_requests w1 = mw_requests w @ rs1" and "r1 \<in> set rs1"
    and "handle_matrix_edit env (mm_portal m) (Some content) (Some i) w = (y, w2)" and "mw_requests w2 = mw_requests w @ rs2" and "r2 \<in> set rs2"
  shows "tr_method r1 = ''POST'' \<and> tr_method r2 = ''PUT'' \<and>
    payload_field ''content'' r1 = payload_field ''content'' r2 \<and> payload_field ''content'' r2 \<noteq> None \<and>
    payload_field ''conversationid'' r1 = payload_field ''conversationid'' r2 \<and>
    payload_field ''from'' r1 = payload_field ''from'' r2 \<and>
    payload_property ''mentions'' r1 = payload_property ''mentions'' r2"
proof -
  let ?thread = "trim_space (mm_portal m)"
  obtain body ms where html: "outbound_text_html (me_ghosts env) content ?thread = (body, ms)" by force
  obtain tw where ok: "is_logged_in (te_now (me_tokens env)) (mw_tokens w)"
      "ensure_valid_skype_token (me_tokens env) (mw_tokens w) = (None, tw)"
    using assms(8-10) by (auto simp: handle_matrix_edit_def with_token_def split: if_splits prod.splits option.splits)
  let ?w = "w\<lparr>mw_tokens := tw\<rparr>"
  have api: "get_api env (add_pending j ?w) = get_api env ?w" "self_teams_user_id (add_pending j ?w) = self_teams_user_id ?w" for j
    by (simp_all add: get_api_def self_teams_user_id_def add_pending_def cong: option.case_cong)
  have pend: "mw_requests (add_pending j v) = mw_requests v" for j and v :: "'a matrix_world" by (simp add: add_pending_def)
  have edit: "r2 \<in> set (sn_requests (edit_message (me_net env) (get_api env ?w) (me_now env) ?thread i body (self_teams_user_id ?w) ms))"
    using assms(8-10) ok html
    by (auto simp: handle_matrix_edit_def with_token_def finish_call_def log_requests_def Let_def split: if_splits)
  have args: "message_args m = Inr (content, ?thread)"
    using assms(1,2,8-10) ok by (auto simp: message_args_def outbound_msg_type_supported_def handle_matrix_edit_def with_token_def Let_def split: if_splits)
  have reply: "outbound_reply env m ?thread body w0 = ([], body, [])" for w0
    using assms(3,4) by (simp add: outbound_reply_def resolve_teams_thread_root_def)
  have send: "r1 \<in> set (sn_requests (send_formatted_message (me_net env) (get_api env ?w) (outbound_context m ?thread) (me_now env) ?thread
      body (self_teams_user_id ?w) (me_cmid env) [] ms))"
    using assms(1,5-7) ok args html reply
    by (auto simp: handle_matrix_message_def Let_def deliver_def send_text_def log_requests_def settle_send_def api pend
        note_result_def record_own_def wake_poll_def remove_pending_def split: option.splits)
  obtain imp sub where ctx: "outbound_context m ?thread = message_context imp sub" by (simp add: outbound_context_def)
  from send obtain b where v: "validate_send_args (get_api env ?w) ?thread body (self_teams_user_id ?w) (me_cmid env) False = Inr b"
    by (cases "validate_send_args (get_api env ?w) ?thread body (self_teams_user_id ?w) (me_cmid env) False")
      (simp_all add: send_formatted_message_post refused_def)
  then have b: "b = ?thread" by (simp add: validate_send_args_Inr)
  let ?props = "own_properties [] ms"
  have r1: "tr_method r1 = ''POST''"
    "tr_payload r1 = Some (JObj (rich_text_payload (message_context imp sub) (me_now env) ?thread body (self_teams_user_id ?w) (me_cmid env) ?props))"
    using send v b
    by (auto simp: send_formatted_message_post post_rich_text_message_def send_retrying_def refused_def ctx make_request_def Let_def
        split: option.splits)
  have "payload_property ''mentions'' r1 = (if ms = [] then None else Some (JArr ms))"
    unfolding rich_text_fields(6) [OF r1(2)] context_properties by (simp add: own_properties_def)
  moreover have "tr_method r2 = ''PUT''" "payload_field ''content'' r2 = Some (JStr body)" "payload_field ''conversationid'' r2 = Some (JStr ?thread)"
    "payload_field ''from'' r2 = Some (JStr (self_teams_user_id ?w))" "payload_property ''mentions'' r2 = (if ms = [] then None else Some (JArr ms))"
    using edit
    by (auto simp: edit_message_def refused_def send_once_def make_request_def payload_field_def payload_property_def Let_def
        split: if_splits option.splits http_outcome.splits)
  ultimately show ?thesis using r1(1) rich_text_fields(1,2,5) [OF r1(2)] by simp
qed


section \<open>Examples\<close>

definition example_media :: media_env where
  "example_media = \<lparr>md_client_err = None, md_parse = Inr, md_download = (\<lambda>_. Inr None), md_decrypt = (\<lambda>_. Inr), md_file_name = mx_body, md_caption = mx_body\<rparr>"

definition example_matrix :: "string matrix_env" where
  "example_matrix = \<lparr>me_now = 50 * second, me_later = 51 * second, me_cmid = ''77'', me_tokens = example_tokens, me_net = send_net,
     me_executor = None, me_ghosts = example_ghosts, me_urls = \<lparr>ul_parse = \<lambda>_. None, ul_string = \<lambda>_. []\<rparr>, me_emoji = example_tables,
     me_decode = pin_env, me_messages = (\<lambda>_. Inr []), me_sort = (\<lambda>ms. ms), me_login = ''l'', me_thread_err = None, me_horizons = example_horizon_env, me_media = example_media,
     me_graph = file_net, me_json = (\<lambda>_. ''[x]''), me_put_photo = (\<lambda>_ _. NoAnswer Canceled),
     me_pins = \<lparr>pn_room = \<lambda>_. None, pn_thread_of = \<lambda>_. None, pn_event = \<lambda>_. None, pn_message = \<lambda>_. None, pn_level = \<lambda>_. None,
       pn_send_err = \<lambda>_. None, pn_bridge_user = \<lambda>_. False, pn_logged_in = \<lambda>_. True\<rparr>\<rparr>"

definition signed_in :: token_world where
  "signed_in = example_login\<lparr>tw_meta := example_meta\<lparr>lm_skype := ''K'', lm_skype_expires := 4000, lm_user_id := ''8:me''\<rparr>\<rparr>"

definition example_matrix_world :: "string matrix_world" where
  "example_matrix_world = \<lparr>mw_tokens = signed_in, mw_caches = no_caches, mw_wakeups = [], mw_pending = [''70''], mw_threads = None,
     mw_horizons = None, mw_drive = [], mw_tags = [], mw_pinned = empty_pins, mw_requests = [], mw_graph = []\<rparr>"

definition example_message :: matrix_message where
  "example_message = \<lparr>mm_portal = ''19:g@thread.v2'', mm_content = Some example_outbound, mm_thread_root = [], mm_reply = None,
     mm_importance = [], mm_subject = []\<rparr>"

lemma send_net_sends: "send_retrying send_net c classify_teams_send req = \<lparr>sn_status = 201, sn_err = None, sn_requests = [req]\<rparr>"
  by (simp add: send_retrying_def send_net_def busy_once_def executor_do_def exec_loop.simps request_for_attempt_def
      classify_teams_send_def classify_response_def Let_def)

definition example_body :: string where
  "example_body = mention_span [] 0 ''@Bo'' @ '' '' @ mention_span everyone_scope 1 ''Everyone''"

lemma example_matrix_trims:
  "trim_space ''77'' = ''77''" "trim_space ''19:g@thread.v2'' = ''19:g@thread.v2''" "trim_space ''8:me'' = ''8:me''"
  "trim_space ''K'' = ''K''" "trim_space ''60'' = ''60''" "trim_space [] = []" "trim_space example_body \<noteq> []" "\<not> is_channel_thread ''19:g@thread.v2''"
proof -
  show "trim_space example_body \<noteq> []" by code_simp
  show "\<not> is_channel_thread ''19:g@thread.v2''" by code_simp
qed (simp_all add: trim_space_plain plain_ends_def)

lemma signed_in_ok:
  "is_logged_in 0 signed_in" "ensure_valid_skype_token example_tokens signed_in = (None, signed_in)"
  "tw_consumer signed_in = None" "lm_user_id (tw_meta signed_in) = ''8:me''" "lm_skype (tw_meta signed_in) = ''K''"
  by (simp_all add: is_logged_in_def ensure_valid_skype_token_def skype_token_valid_def signed_in_def skype_expiry_skew_def of_unix_def unix_epoch_def
      example_login_def)

lemma example_matrix_fields:
  "me_now example_matrix = 50 * second" "me_later example_matrix = 51 * second" "me_cmid example_matrix = ''77''"
  "me_tokens example_matrix = example_tokens" "me_net example_matrix = send_net" "me_ghosts example_matrix = example_ghosts"
  "mw_tokens example_matrix_world = signed_in" "mw_pending example_matrix_world = [''70'']" "mw_wakeups example_matrix_world = []"
  "mw_requests example_matrix_world = []" "self_messages (mw_caches example_matrix_world) = []"
  "mm_portal example_message = ''19:g@thread.v2''" "mm_content example_message = Some example_outbound" "mm_reply example_message = None"
  "mm_thread_root example_message = []" "mx_type example_outbound = M_Text" "te_now example_tokens = 0"
  by (simp_all add: example_matrix_def example_matrix_world_def no_caches_def example_message_def example_outbound_def example_tokens_def)

lemma example_same: "example_matrix_world\<lparr>mw_tokens := signed_in\<rparr> = example_matrix_world"
  by (simp add: example_matrix_world_def)

lemma example_api:
  "tw_consumer (mw_tokens w) = None \<Longrightarrow> tc_has_http (get_api env w) \<and> tc_token (get_api env w) = lm_skype (tw_meta (mw_tokens w))"
  by (simp add: get_api_def new_consumer_def Let_def)

lemma example_args: "message_args example_message = Inr (example_outbound, ''19:g@thread.v2'')"
  by (simp add: message_args_def example_matrix_fields example_matrix_trims outbound_msg_type_supported_def)

lemma example_handled:
  obtains w' req where "handle_matrix_message example_matrix example_message example_matrix_world = Some (Inr (''77'', unix_milli (50 * second)), w')"
    and "mw_requests w' = [req]"
proof -
  let ?w = "add_pending ''77'' example_matrix_world"
  have tokens: "mw_tokens ?w = signed_in" by (simp add: add_pending_def example_matrix_fields)
  have "sn_err (send_text example_matrix ctx example_message example_outbound ''19:g@thread.v2'' ?w) = None \<and>
      (\<exists>req. sn_requests (send_text example_matrix ctx example_message example_outbound ''19:g@thread.v2'' ?w) = [req])" for ctx
    using example_api [of ?w example_matrix] tokens
    by (simp add: send_text_def example_matrix_fields example_outbound_html [folded example_body_def] outbound_reply_def
        example_matrix_trims send_formatted_message_post validate_send_args_def signed_in_ok self_teams_user_id_def
        post_rich_text_message_def send_net_sends)
  then obtain req where x: "sn_err (send_text example_matrix (outbound_context example_message ''19:g@thread.v2'') example_message
        example_outbound ''19:g@thread.v2'' ?w) = None"
      "sn_requests (send_text example_matrix (outbound_context example_message ''19:g@thread.v2'') example_message
        example_outbound ''19:g@thread.v2'' ?w) = [req]"
    by blast
  let ?r = "settle_send example_matrix ''19:g@thread.v2'' None (log_requests [req] ?w)"
  have "handle_matrix_message example_matrix example_message example_matrix_world = Some ?r"
    using x by (simp add: handle_matrix_message_def example_matrix_fields signed_in_ok example_args deliver_def
        example_same Let_def)
  moreover have "fst ?r = Inr (''77'', unix_milli (50 * second))" "mw_requests (snd ?r) = [req]"
    by (simp_all add: settle_send_def Let_def log_requests_def note_result_def record_own_def wake_poll_def add_pending_def example_matrix_fields)
  ultimately show ?thesis using that by (cases ?r) simp
qed

theorem matrix_message_settles_witness:
  "\<exists>w'. handle_matrix_message example_matrix example_message example_matrix_world = Some (Inr (''77'', unix_milli (50 * second)), w') \<and>
     mw_pending w' = [''70'', ''77''] \<and> length (mw_wakeups w') = 1 \<and>
     fst (consume_self_message (60 * second) ''77'' (mw_caches w'))"
proof -
  obtain w' req where eq: "handle_matrix_message example_matrix example_message example_matrix_world = Some (Inr (''77'', unix_milli (50 * second)), w')"
    by (rule example_handled)
  show ?thesis
    using matrix_message_settles [OF eq] eq example_args
    by (simp add: example_matrix_fields example_matrix_trims request_poll_def wake_queue_size_def self_message_ttl_def)
qed

theorem requests_carry_token_witness:
  "\<exists>w' r. matrix_do example_matrix (Send example_message) example_matrix_world = Some w' \<and> mw_requests w' = [r] \<and> tr_token r \<noteq> []"
proof -
  obtain w' r where eq: "handle_matrix_message example_matrix example_message example_matrix_world = Some (Inr (''77'', unix_milli (50 * second)), w')"
      "mw_requests w' = [r]"
    by (rule example_handled)
  have act: "matrix_do example_matrix (Send example_message) example_matrix_world = Some w'" using eq by simp
  have "consumer_current (mw_tokens example_matrix_world)"
    by (simp add: example_matrix_fields signed_in_ok consumer_current_def)
  from requests_carry_token [OF this act, THEN conjunct2, THEN conjunct1] obtain rs where
    "mw_requests w' = mw_requests example_matrix_world @ rs" and t: "\<forall>r \<in> set rs. tr_token r \<noteq> [] \<and>
       (tr_token r = lm_skype (tw_meta (mw_tokens w')) \<or>
          (\<exists>p c q. Send example_message = Tag p c q) \<and> tw_consumer (mw_tokens example_matrix_world) = None \<and>
          tr_token r = lm_skype (tw_meta (mw_tokens example_matrix_world)))"
    by (elim exE conjE)
  then have "rs = [r]" using eq(2) by (simp add: example_matrix_fields)
  then have "tr_token r \<noteq> []" using t by (metis list.set_intros(1))
  with act eq(2) show ?thesis by blast
qed

lemma example_edited:
  obtains y w' req where "handle_matrix_edit example_matrix ''19:g@thread.v2'' (Some example_outbound) (Some ''60'') example_matrix_world = (y, w')"
    and "mw_requests w' = [req]"
proof -
  have "mw_tokens example_matrix_world = signed_in" by (rule example_matrix_fields)
  then have x: "length (sn_requests (edit_message send_net (get_api example_matrix example_matrix_world) at ''19:g@thread.v2'' ''60''
      b f ms)) = 1" for at b f ms
    using example_api [of example_matrix_world example_matrix]
    by (simp add: edit_message_def Let_def example_matrix_trims signed_in_ok send_once_def send_net_def)
  let ?r = "handle_matrix_edit example_matrix ''19:g@thread.v2'' (Some example_outbound) (Some ''60'') example_matrix_world"
  have "length (mw_requests (snd ?r)) = 1"
    by (simp add: handle_matrix_edit_def with_token_def example_matrix_fields signed_in_ok example_same Let_def example_matrix_trims
        finish_call_def log_requests_def example_outbound_html x del: One_nat_def)
  then show ?thesis using that by (cases ?r) (auto simp: length_Suc_conv)
qed

theorem edit_matches_send_witness:
  "\<exists>r1 r2. tr_method r1 = ''POST'' \<and> tr_method r2 = ''PUT'' \<and> payload_property ''mentions'' r1 = payload_property ''mentions'' r2"
proof -
  obtain w1 r1 where send: "handle_matrix_message example_matrix example_message example_matrix_world = Some (Inr (''77'', unix_milli (50 * second)), w1)"
      "mw_requests w1 = [r1]"
    by (rule example_handled)
  obtain y w2 r2 where edit: "handle_matrix_edit example_matrix ''19:g@thread.v2'' (Some example_outbound) (Some ''60'') example_matrix_world = (y, w2)"
      "mw_requests w2 = [r2]"
    by (rule example_edited)
  show ?thesis
    using edit_matches_send [of example_outbound example_message example_matrix example_matrix_world _ w1 "[r1]" r1 "''60''" y w2 "[r2]" r2]
      send edit by (auto simp: example_matrix_fields)
qed

end
