(* ===== verification/Adaptive_Cards.thy ===== *)
theory Adaptive_Cards
  imports Html_Content
begin

text \<open>
  Cards and stickers (internal/teams/model, adaptive_card.go and sticker.go): the cards in a message's properties and
  their rendering as text and as HTML, and the sticker an HTML body shows.
\<close>

section \<open>Cards\<close>

datatype card_element = Card_Element
    (ce_type: string) (ce_text: string) (ce_size: string) (ce_weight: string) (ce_url: string) (ce_alt: string)
    (ce_columns: "card_column list") (ce_items: "card_element list")
and card_column = Card_Column (cc_type: string) (cc_items: "card_element list")

record card_action =
  act_type :: string
  act_title :: string
  act_url :: string

record adaptive_card =
  ac_type :: string
  ac_body :: "card_element list"
  ac_actions :: "card_action list"

section \<open>Decoding\<close>

lemma into_slice_size:
  "into_slice cur vs = Some xs \<Longrightarrow> x \<in> set xs \<Longrightarrow> x \<in> set cur \<or> size x < size_list size vs"
proof (induction cur vs rule: into_slice.induct)
  case (2 cur ys vs)
  then show ?case by (auto dest!: size_list_estimation' [where f = size, OF _ order_refl])
qed auto

lemma slice_field_size [termination_simp]:
  assumes "slice_field f j = Some xs" and "x \<in> set xs"
  shows "size x < size j"
proof -
  obtain vs where vs: "field_values f j = Some vs" "into_slice [] vs = Some xs"
    using assms(1) by (auto simp: slice_field_def split: bind_splits)
  have "size x < size_list size vs" using into_slice_size [OF vs(2) assms(2)] by simp
  moreover have "size_list size vs \<le> size j"
  proof (cases j)
    case (JObj kvs)
    have "size_list size (map snd (filter P kvs)) \<le> size_list (size_prod (\<lambda>_. 0) size) kvs" for P
      by (induction kvs) (auto simp: size_prod_simp comp_def split: prod.split)
    then show ?thesis using vs(1) JObj by (auto intro: le_SucI)
  qed (use vs(1) in auto)
  ultimately show ?thesis by simp
qed

function (sequential) decode_element :: "json \<Rightarrow> card_element option" and decode_column :: "json \<Rightarrow> card_column option" where
  "decode_element j =
     (case (string_field ''type'' j, string_field ''text'' j, string_field ''size'' j, string_field ''weight'' j, string_field ''url'' j,
            string_field ''altText'' j) of
        (Some t, Some x, Some s, Some w, Some u, Some a) \<Rightarrow>
          (case slice_field ''columns'' j of
             None \<Rightarrow> None
           | Some cs \<Rightarrow>
               (case slice_field ''items'' j of
                  None \<Rightarrow> None
                | Some is \<Rightarrow>
                    (case all_some (map decode_column cs) of
                       None \<Rightarrow> None
                     | Some cols \<Rightarrow>
                         (case all_some (map decode_element is) of
                            None \<Rightarrow> None
                          | Some items \<Rightarrow> Some (Card_Element t x s w u a cols items)))))
      | _ \<Rightarrow> None)"
| "decode_column j =
     (case string_field ''type'' j of
        None \<Rightarrow> None
      | Some t \<Rightarrow>
          (case slice_field ''items'' j of
             None \<Rightarrow> None
           | Some is \<Rightarrow> (case all_some (map decode_element is) of None \<Rightarrow> None | Some items \<Rightarrow> Some (Card_Column t items))))"
  by pat_completeness auto
termination
  by (relation "measure (case_sum size size)") (auto dest: slice_field_size)

definition decode_action :: "json \<Rightarrow> card_action option" where
  "decode_action j =
     (case (string_field ''type'' j, string_field ''title'' j, string_field ''url'' j) of
        (Some t, Some x, Some u) \<Rightarrow> Some \<lparr>act_type = t, act_title = x, act_url = u\<rparr>
      | _ \<Rightarrow> None)"

definition decode_card :: "json \<Rightarrow> adaptive_card option" where
  "decode_card j =
     (case (string_field ''type'' j, Option.bind (slice_field ''body'' j) (\<lambda>xs. all_some (map decode_element xs)),
            Option.bind (slice_field ''actions'' j) (\<lambda>xs. all_some (map decode_action xs))) of
        (Some t, Some b, Some a) \<Rightarrow> Some \<lparr>ac_type = t, ac_body = b, ac_actions = a\<rparr>
      | _ \<Rightarrow> None)"

text \<open>The card a member of \<open>cards\<close> holds as its content.\<close>

definition card_content :: "json \<Rightarrow> adaptive_card option" where
  "card_content j =
     (case raw_field ''content'' j of
        None \<Rightarrow> None
      | Some None \<Rightarrow> Some \<lparr>ac_type = [], ac_body = [], ac_actions = []\<rparr>
      | Some (Some c) \<Rightarrow> decode_card c)"

definition extract_adaptive_cards :: "json option \<Rightarrow> adaptive_card list" where
  "extract_adaptive_cards props =
     (case Option.bind props (\<lambda>p. Option.bind (slice_field ''cards'' p) (\<lambda>xs. all_some (map card_content xs))) of
        None \<Rightarrow> []
      | Some cards \<Rightarrow> filter (\<lambda>c. ac_type c = ''AdaptiveCard'' \<or> ac_body c \<noteq> [] \<or> ac_actions c \<noteq> []) cards)"

section \<open>Rendering\<close>

abbreviation (input) said :: "string list \<Rightarrow> string list" where
  "said xs \<equiv> filter (\<lambda>t. t \<noteq> []) xs"

fun render_element_text :: "card_element \<Rightarrow> string" and render_column_text :: "card_column \<Rightarrow> string list" where
  "render_element_text (Card_Element t x s w u a cols items) =
     (if t = ''TextBlock'' then trim_space x
      else if t = ''Image'' then (if a \<noteq> [] then ''[Image: '' @ a @ '']'' else ''[Image]'')
      else if t = ''ColumnSet'' then join_with '' | '' (concat (map render_column_text cols))
      else if t = ''Container'' then join_with [CHR 0x0A] (said (map render_element_text items))
      else [])"
| "render_column_text (Card_Column t items) = said (map render_element_text items)"

definition quoted :: "string \<Rightarrow> string" where
  "quoted s = [CHR 0x22] @ s @ [CHR 0x22]"

fun render_element_html :: "card_element \<Rightarrow> string" and render_column_html :: "card_column \<Rightarrow> string" where
  "render_element_html (Card_Element t x s w u a cols items) =
     (if t = ''TextBlock''
      then (if trim_space x = [] then []
            else if w = ''Bolder'' \<or> s \<in> {''Large'', ''ExtraLarge''} then ''<p><strong>'' @ html_escape (trim_space x) @ ''</strong></p>''
            else ''<p>'' @ html_escape (trim_space x) @ ''</p>'')
      else if t = ''Image''
      then (if u = [] then []
            else ''<p><img src='' @ quoted (html_escape u) @ '' alt='' @ quoted (html_escape (if a = [] then ''Image'' else a)) @ ''></p>'')
      else if t = ''ColumnSet'' then concat (map render_column_html cols)
      else if t = ''Container'' then concat (map render_element_html items)
      else [])"
| "render_column_html (Card_Column t items) = concat (map render_element_html items)"

definition action_text :: "card_action \<Rightarrow> string" where
  "action_text a =
     (if act_title a = [] then []
      else if act_url a \<noteq> [] then ''['' @ act_title a @ '']('' @ act_url a @ '')'' else ''['' @ act_title a @ '']'')"

definition render_plain_text :: "adaptive_card \<Rightarrow> string" where
  "render_plain_text c = join_with [CHR 0x0A] (said (map render_element_text (ac_body c)) @ said (map action_text (ac_actions c)))"

definition action_html :: "card_action \<Rightarrow> string" where
  "action_html a =
     (if act_url a \<noteq> [] then ''<a href='' @ quoted (html_escape (act_url a)) @ ''>'' @ html_escape (act_title a) @ ''</a>''
      else ''['' @ html_escape (act_title a) @ '']'')"

definition render_html :: "adaptive_card \<Rightarrow> string" where
  "render_html c =
     ''<blockquote>'' @ concat (map render_element_html (ac_body c)) @
     (if ac_actions c = [] then [] else ''<p>'' @ join_with '' | '' (map action_html (ac_actions c)) @ ''</p>'') @ ''</blockquote>''"

section \<open>Stickers\<close>

text \<open>\<open>stickerRe\<close>: the first \<open>img\<close> or \<open>readonly\<close> tag with the item type of a sticker, up to the end of the tag.\<close>

definition sticker_types :: "string list" where
  "sticker_types = map (\<lambda>k. ''itemtype='' @ quoted (''http://schema.skype.com/'' @ k)) [''Sticker'', ''Flik'']"

definition sticker_tag :: "string \<Rightarrow> string \<Rightarrow> string option" where
  "sticker_tag name s =
     (if prefix (''<'' @ name) s
      then (let inner = takeWhile (\<lambda>c. c \<noteq> CHR ''>'') (drop (Suc (length name)) s) in
            if Suc (length name) + length inner < length s \<and> inner \<noteq> [] \<and> list_ex (\<lambda>t. sublist t (tl inner)) sticker_types
            then Some (''<'' @ name @ inner @ ''>'') else None)
      else None)"

fun sticker_re :: "string \<Rightarrow> string option" where
  "sticker_re [] = None"
| "sticker_re (c # s) =
     (case sticker_tag ''img'' (c # s) of
        Some t \<Rightarrow> Some t
      | None \<Rightarrow> (case sticker_tag ''readonly'' (c # s) of Some t \<Rightarrow> Some t | None \<Rightarrow> sticker_re s))"

text \<open>\<open>stickerSrcRe\<close> and \<open>stickerAltRe\<close>: the first value of an attribute, which may be required to be non-empty.\<close>

fun attr_re :: "string \<Rightarrow> bool \<Rightarrow> string \<Rightarrow> string option" where
  "attr_re name nonempty [] = None"
| "attr_re name nonempty (c # s) =
     (let r = drop (length name + 2) (c # s); v = takeWhile (\<lambda>d. d \<noteq> CHR 0x22) r in
      if prefix (name @ [CHR ''='', CHR 0x22]) (c # s) \<and> length v < length r \<and> (nonempty \<longrightarrow> v \<noteq> []) then Some v
      else attr_re name nonempty s)"

definition usable_src :: "string \<Rightarrow> string option" where
  "usable_src s = (case attr_re ''src'' True s of Some v \<Rightarrow> if trim_space v = [] then None else Some v | None \<Rightarrow> None)"

definition parse_sticker :: "string \<Rightarrow> (string \<times> string) option" where
  "parse_sticker html =
     (case sticker_re html of
        None \<Rightarrow> None
      | Some tag \<Rightarrow>
          (case (case usable_src tag of Some v \<Rightarrow> Some v | None \<Rightarrow> usable_src html) of
             None \<Rightarrow> None
           | Some src \<Rightarrow>
               (let alt = (case attr_re ''alt'' False html of Some a \<Rightarrow> trim_space a | None \<Rightarrow> [])
                in Some (trim_space src, if alt = [] then ''Sticker'' else alt))))"

end
