(* ===== verification/Message_Media.thy ===== *)
theory Message_Media
  imports Auth_Tokens Adaptive_Cards Matrix_Files
begin

text \<open>
  Media of Teams messages on their way to Matrix: the download of images (pkg/connector/convert_util.go), inline images and
  GIFs (convert.go), attachments (attachments.go, and shares.go and download_drive_item_content.go of
  internal/teams/graph) and stickers (convert_sticker.go).

  A download is an address and the value of its \<open>Authorization\<close> header; every operation also returns the ones it made,
  in order.  Parameters: the web, Matrix's media repository, the sniffer of content types, and \<open>net/url\<close>.
\<close>

section \<open>What the media meet\<close>

record download_answer =
  da_status :: int
  da_body :: "go_error + string"
  da_type :: string

record media_net =
  mn_http :: bool
  mn_urls :: url_lib
  mn_get :: "string \<Rightarrow> string \<Rightarrow> go_error + download_answer"
  mn_sniff :: "string \<Rightarrow> string"
  mn_type_of_ext :: "string \<Rightarrow> string"
  mn_upload :: "string \<Rightarrow> string \<Rightarrow> string \<Rightarrow> go_error + string \<times> string option"
  mn_graph :: "string \<Rightarrow> exec_env"
  mn_graph_type :: "http_response \<Rightarrow> string"
  mn_graph_read :: "string \<Rightarrow> go_error option"
  mn_retry_after :: "string \<Rightarrow> duration"

type_synonym asked = "(string \<times> string) list"

text \<open>A part of a converted message; the media of a part: its name, type, size, address and encrypted file.\<close>

record media_info =
  mi_name :: string
  mi_mime :: string
  mi_size :: nat
  mi_url :: string
  mi_file :: "string option"

record converted_part =
  pt_id :: string
  pt_sticker :: bool
  pt_type :: matrix_type
  pt_body :: string
  pt_html :: bool
  pt_formatted :: string
  pt_media :: "media_info option"
  pt_thumbnail :: "media_info option"
  pt_extra :: "(string \<times> json) list"
  pt_room :: bool
  pt_users :: "string list"
  pt_edit_time :: "int option"

definition text_part :: "string \<Rightarrow> matrix_type \<Rightarrow> string \<Rightarrow> string \<Rightarrow> (string \<times> json) list \<Rightarrow> converted_part" where
  "text_part i type body formatted extra =
     \<lparr>pt_id = i, pt_sticker = False, pt_type = type, pt_body = body, pt_html = (formatted \<noteq> []), pt_formatted = formatted,
      pt_media = None, pt_thumbnail = None, pt_extra = extra, pt_room = False, pt_users = [], pt_edit_time = None\<rparr>"

text \<open>\<open>buildMediaContent\<close>, as the part with an ID: an encrypted file without an address has the upload's.\<close>

definition media_part ::
  "string \<Rightarrow> matrix_type \<Rightarrow> string \<Rightarrow> string \<Rightarrow> nat \<Rightarrow> string \<times> string option \<Rightarrow> (string \<times> json) list \<Rightarrow> converted_part" where
  "media_part i type name mime n uploaded extra =
     (case uploaded of (mxc, enc) \<Rightarrow>
       (text_part i type (if trim_space name = [] then ''file'' else name) [] extra)
         \<lparr>pt_media := Some \<lparr>mi_name = name, mi_mime = mime, mi_size = n, mi_url = (if enc = None then mxc else []),
            mi_file = map_option (\<lambda>u. if u = [] then mxc else u) enc\<rparr>\<rparr>)"

section \<open>Content types\<close>

definition normalize_content_type :: "string \<Rightarrow> string" where
  "normalize_content_type v = trim_space (takeWhile (\<lambda>c. c \<noteq> CHR '';'') (trim_space v))"

definition detect_mime_type :: "media_net \<Rightarrow> string \<Rightarrow> string \<Rightarrow> string \<Rightarrow> string" where
  "detect_mime_type mn name header data =
     (let ct = normalize_content_type header; sniffed = normalize_content_type (mn_sniff mn data);
          ext = to_lower (file_ext (trim_space name)); by_ext = normalize_content_type (mn_type_of_ext mn ext) in
      if ct \<noteq> [] \<and> ct \<noteq> ''application/octet-stream'' then ct
      else if data \<noteq> [] \<and> sniffed \<noteq> [] then sniffed
      else if ext \<noteq> [] \<and> by_ext \<noteq> [] then by_ext
      else ''application/octet-stream'')"

definition matrix_type_for_mime :: "string \<Rightarrow> matrix_type" where
  "matrix_type_for_mime mime =
     (let m = to_lower (trim_space mime) in
      if prefix ''image/'' m then M_Image else if prefix ''video/'' m then M_Video
      else if prefix ''audio/'' m then M_Audio else M_File)"

definition mime_extension :: "string \<Rightarrow> string" where
  "mime_extension mime =
     (case map_of [(''image/png'', ''.png''), (''image/jpeg'', ''.jpg''), (''image/gif'', ''.gif''), (''image/webp'', ''.webp''),
                   (''image/bmp'', ''.bmp''), (''image/svg+xml'', ''.svg'')] (to_lower (trim_space mime)) of
        Some e \<Rightarrow> e | None \<Rightarrow> [])"

section \<open>Addresses of Teams' media store\<close>

text \<open>\<open>URL.Hostname\<close>: the host without a port and without the brackets of an IPv6 address.\<close>

definition hostname :: "string \<Rightarrow> string" where
  "hostname host =
     (let port = rev (takeWhile (\<lambda>c. c \<noteq> CHR '':'') (rev host));
          h = (if CHR '':'' \<in> set host \<and> list_all (\<lambda>c. CHR ''0'' \<le> c \<and> c \<le> CHR ''9'') port
               then take (length host - length port - 1) host else host)
      in if prefix ''['' h \<and> suffix '']'' h then butlast (tl h) else h)"

definition is_ams_url :: "url_lib \<Rightarrow> string \<Rightarrow> string \<Rightarrow> bool" where
  "is_ams_url ul url region \<longleftrightarrow>
     (case ul_parse ul (trim_space url) of
        None \<Rightarrow> False
      | Some u \<Rightarrow>
          (let host = to_lower (hostname (pu_host u)) in
           host \<noteq> [] \<and>
           ((case ul_parse ul region of
               Some r \<Rightarrow> hostname (pu_host r) \<noteq> [] \<and> equal_fold host (hostname (pu_host r)) | None \<Rightarrow> False) \<or>
            suffix ''.asm.skype.com'' host \<or> suffix ''.asyncgw.teams.microsoft.com'' host \<or>
            (suffix ''.teams.microsoft.com'' host \<and> sublist ''/objects/'' (pu_path u)))))"

definition rewrite_ams_url :: "url_lib \<Rightarrow> string \<Rightarrow> string \<Rightarrow> string" where
  "rewrite_ams_url ul url region =
     (case (ul_parse ul url, ul_parse ul region) of
        (Some u, Some r) \<Rightarrow> ul_string ul (u\<lparr>pu_scheme := pu_scheme r, pu_host := pu_host r\<rparr>)
      | _ \<Rightarrow> url)"

text \<open>The rewrite where the tenant has a regional address.\<close>

definition regional :: "url_lib \<Rightarrow> string \<Rightarrow> string \<Rightarrow> string" where
  "regional ul url region = (if region \<noteq> [] then rewrite_ams_url ul url region else url)"

section \<open>Downloads\<close>

definition download_image :: "media_net \<Rightarrow> string \<Rightarrow> string \<Rightarrow> go_error + string \<times> string" where
  "download_image mn url authorization =
     (case mn_get mn url authorization of
        Inl e \<Rightarrow> Inl e
      | Inr a \<Rightarrow>
          if da_status a < 200 \<or> 300 \<le> da_status a
          then Inl (Plain (''AMS download failed with status '' @ show_int (da_status a) @ '': '' @
                 (case da_body a of Inr b \<Rightarrow> take 512 b | Inl _ \<Rightarrow> [])))
          else (case da_body a of
                  Inl e \<Rightarrow> Inl e
                | Inr b \<Rightarrow>
                    if max_attachment_bytes < int (length b) then Inl (Plain ''inline image exceeds max size'')
                    else Inr (b, trim_space (da_type a))))"

definition skype_authorization :: "string \<Rightarrow> string" where
  "skype_authorization token = ''skype_token '' @ token"

definition download_public_image :: "media_net \<Rightarrow> string \<Rightarrow> go_error + string \<times> string" where
  "download_public_image mn url = download_image mn url []"

definition download_ams_image :: "media_net \<Rightarrow> string \<Rightarrow> string \<Rightarrow> go_error + string \<times> string" where
  "download_ams_image mn url token = download_image mn url (skype_authorization token)"

definition sticker_bytes :: nat where "sticker_bytes = 10 * 1024 * 1024"

text \<open>Without a token: an answer that is not 2xx is no data and no error, and the data are cut at the limit.\<close>

definition download_direct_http :: "media_net \<Rightarrow> string \<Rightarrow> go_error + string \<times> string" where
  "download_direct_http mn url =
     (case mn_get mn url [] of
        Inl e \<Rightarrow> Inl e
      | Inr a \<Rightarrow>
          if da_status a < 200 \<or> 300 \<le> da_status a then Inr ([], [])
          else (case da_body a of Inl e \<Rightarrow> Inl e | Inr b \<Rightarrow> Inr (take sticker_bytes b, da_type a)))"

section \<open>Inline images and GIFs\<close>

text \<open>One inline image: the part, if it could be fetched and stored, and the download.\<close>

definition inline_image_part ::
  "media_net \<Rightarrow> string \<Rightarrow> string \<Rightarrow> (string \<times> json) list \<Rightarrow> nat \<Rightarrow> inline_image \<Rightarrow> converted_part option \<times> asked" where
  "inline_image_part mn token region extra i img =
     (let ams = is_ams_url (mn_urls mn) (img_url img) region;
          url = (if ams then regional (mn_urls mn) (img_url img) region else img_url img);
          auth = (if ams then skype_authorization token else []) in
      (case download_image mn url auth of
         Inl _ \<Rightarrow> None
       | Inr (data, ct) \<Rightarrow>
           if data = [] then None
           else (let mime = detect_mime_type mn [] ct data; name = ''inline_image_'' @ show_nat i @ mime_extension mime in
                 case mn_upload mn data name mime of
                   Inl _ \<Rightarrow> None
                 | Inr up \<Rightarrow> Some (media_part (''inline_'' @ show_nat i) M_Image name mime (length data) up extra)),
       [(url, auth)]))"

fun inline_image_parts ::
  "media_net \<Rightarrow> string \<Rightarrow> string \<Rightarrow> (string \<times> json) list \<Rightarrow> nat \<Rightarrow> inline_image list \<Rightarrow> converted_part list \<times> asked" where
  "inline_image_parts mn token region extra i [] = ([], [])"
| "inline_image_parts mn token region extra i (img # imgs) =
     (case (inline_image_part mn token region extra i img, inline_image_parts mn token region extra (Suc i) imgs) of
        ((p, a), (ps, as)) \<Rightarrow> ((case p of Some q \<Rightarrow> q # ps | None \<Rightarrow> ps), a @ as))"

definition reupload_inline_images ::
  "media_net \<Rightarrow> string \<Rightarrow> string \<Rightarrow> inline_image list \<Rightarrow> (string \<times> json) list \<Rightarrow> converted_part list \<times> asked" where
  "reupload_inline_images mn token0 region imgs extra =
     (if imgs = [] \<or> trim_space token0 = [] \<or> \<not> mn_http mn then ([], [])
      else inline_image_parts mn (trim_space token0) region extra 0 imgs)"

text \<open>One GIF: the part, or the GIF again, to be linked.\<close>

definition gif_part :: "media_net \<Rightarrow> (string \<times> json) list \<Rightarrow> nat \<Rightarrow> teams_gif \<Rightarrow> converted_part option" where
  "gif_part mn extra i gif =
     (case download_public_image mn (gif_url gif) of
        Inl _ \<Rightarrow> None
      | Inr (data, ct) \<Rightarrow>
          if data = [] then None
          else (let mime = detect_mime_type mn [] ct data; name = ''gif_'' @ show_nat i @ mime_extension mime;
                    title = trim_space (gif_title gif) in
                case mn_upload mn data name mime of
                  Inl _ \<Rightarrow> None
                | Inr up \<Rightarrow>
                    (let p = media_part (''gif_'' @ show_nat i) M_Image name mime (length data) up extra in
                     Some (if title \<noteq> [] \<and> title \<noteq> ''GIF'' then p\<lparr>pt_body := title\<rparr> else p))))"

fun gif_parts ::
  "media_net \<Rightarrow> (string \<times> json) list \<Rightarrow> nat \<Rightarrow> teams_gif list \<Rightarrow> converted_part list \<times> teams_gif list \<times> asked" where
  "gif_parts mn extra i [] = ([], [], [])"
| "gif_parts mn extra i (gif # gifs) =
     (case gif_parts mn extra (Suc i) gifs of
        (ps, fb, as) \<Rightarrow>
          (case gif_part mn extra i gif of Some p \<Rightarrow> (p # ps, fb, (gif_url gif, []) # as) | None \<Rightarrow> (ps, gif # fb, (gif_url gif, []) # as)))"

definition reupload_gifs ::
  "media_net \<Rightarrow> teams_gif list \<Rightarrow> (string \<times> json) list \<Rightarrow> converted_part list \<times> teams_gif list \<times> asked" where
  "reupload_gifs mn gifs extra = (if gifs \<noteq> [] \<and> \<not> mn_http mn then ([], gifs, []) else gif_parts mn extra 0 gifs)"

section \<open>Downloads from Graph\<close>

text \<open>\<open>shareID\<close>: base64 of the bytes, with the URL alphabet and without padding.\<close>

definition base64_digit :: "nat \<Rightarrow> char" where
  "base64_digit n =
     (if n < 26 then char_of (65 + n) else if n < 52 then char_of (71 + n) else if n < 62 then char_of (n - 4)
      else if n = 62 then CHR ''-'' else CHR ''_'')"

fun base64url :: "nat list \<Rightarrow> string" where
  "base64url [] = []"
| "base64url [a] = [base64_digit (a div 4), base64_digit (a mod 4 * 16)]"
| "base64url [a, b] = [base64_digit (a div 4), base64_digit (a mod 4 * 16 + b div 16), base64_digit (b mod 16 * 4)]"
| "base64url (a # b # c # s) =
     [base64_digit (a div 4), base64_digit (a mod 4 * 16 + b div 16), base64_digit (b mod 16 * 4 + c div 64), base64_digit (c mod 64)] @
     base64url s"

definition share_id :: "string \<Rightarrow> string" where
  "share_id url = ''u!'' @ base64url (map of_char url)"

definition classify_drive_item_content :: "(string \<Rightarrow> duration) \<Rightarrow> http_response option \<Rightarrow> go_error option" where
  "classify_drive_item_content = classify_response ''graph drive item content request failed'' max_upload_error_bytes"

definition bearer_authorization :: "string \<Rightarrow> string" where
  "bearer_authorization token = ''Bearer '' @ trim_space token"

definition download_content :: "media_net \<Rightarrow> string \<Rightarrow> go_error + string \<times> string" where
  "download_content mn url =
     (let x = executor_do (Some default_config) (mn_graph mn url) (Some NoBody) (Some (classify_drive_item_content (mn_retry_after mn))) in
      case er_err x of
        Some e \<Rightarrow> Inl e
      | None \<Rightarrow>
          (case er_resp x of
             None \<Rightarrow> Inl (Plain ''missing response'')
           | Some r \<Rightarrow>
               (case mn_graph_read mn url of
                  Some e \<Rightarrow> Inl e
                | None \<Rightarrow>
                    if max_attachment_bytes < int (length (resp_body r)) then Inl (Plain ''upload content exceeds max size'')
                    else Inr (resp_body r, trim_space (mn_graph_type mn r)))))"

definition shared_item_url :: "string \<Rightarrow> string" where
  "shared_item_url share = ''https://graph.microsoft.com/v1.0/shares/'' @ share_id share @ ''/driveItem/content''"

definition shared_thumbnail_url :: "string \<Rightarrow> string" where
  "shared_thumbnail_url share = ''https://graph.microsoft.com/v1.0/shares/'' @ share_id share @ ''/driveItem/thumbnails/0/large/content''"

definition drive_item_content_url :: "string \<Rightarrow> string" where
  "drive_item_content_url i = ''https://graph.microsoft.com/v1.0/me/drive/items/'' @ path_escape i @ ''/content''"

text \<open>The guards the three downloads share, on the token and on the share link or the ID.\<close>

definition download_from_graph :: "(string \<Rightarrow> string) \<Rightarrow> string \<Rightarrow> media_net \<Rightarrow> string \<Rightarrow> string \<Rightarrow> (go_error + string \<times> string) \<times> asked" where
  "download_from_graph url_of empty_error mn token what =
     (if \<not> mn_http mn then (Inl (Plain ''graph client missing http client''), [])
      else if trim_space token = [] then (Inl (Plain ''missing graph access token''), [])
      else if trim_space what = [] then (Inl (Plain empty_error), [])
      else (let url = url_of (trim_space what) in (download_content mn url, [(url, bearer_authorization token)])))"

definition download_shared_item_content where
  "download_shared_item_content = download_from_graph shared_item_url ''share url is empty''"

definition download_shared_item_thumbnail where
  "download_shared_item_thumbnail = download_from_graph shared_thumbnail_url ''share url is empty''"

definition download_drive_item_content where
  "download_drive_item_content = download_from_graph drive_item_content_url ''drive item id is empty''"

section \<open>Attachments\<close>

text \<open>Graph with its token, and the media store with the Skype token and the regional address; either may be missing.\<close>

record attachment_sources =
  as_graph_token :: "string option"
  as_ams :: "(string \<times> string) option"

definition attachment_sources_of :: "token_env \<Rightarrow> media_net \<Rightarrow> token_world \<Rightarrow> attachment_sources \<times> token_world" where
  "attachment_sources_of env mn tw =
     (if \<not> mn_http mn then (\<lparr>as_graph_token = None, as_ams = None\<rparr>, tw)
      else (case ensure_valid_graph_token env tw of
              (err, tw') \<Rightarrow>
                (let m = tw_meta tw'; skype = trim_space (lm_skype m) in
                 (\<lparr>as_graph_token = (if err = None then (case get_graph_access_token (te_now env) m of Inr t \<Rightarrow> Some t | Inl _ \<Rightarrow> None) else None),
                   as_ams = (if skype \<noteq> [] then Some (skype, trim_space (lm_ams_url m)) else None)\<rparr>, tw'))))"

text \<open>What a download is good for: the data, if there are any.\<close>

definition some_data :: "(go_error + string \<times> string) \<times> asked \<Rightarrow> (string \<times> string) option \<times> asked" where
  "some_data r = (case r of (Inr (data, ct), as) \<Rightarrow> (if data \<noteq> [] then Some (data, ct) else None, as) | (Inl _, as) \<Rightarrow> (None, as))"

text \<open>The next source is asked only where the ones before gave nothing.\<close>

definition or_else :: "'a option \<times> asked \<Rightarrow> 'a option \<times> asked \<Rightarrow> 'a option \<times> asked" where
  "or_else r r' = (case r of (Some x, as) \<Rightarrow> (Some x, as) | (None, as) \<Rightarrow> (fst r', as @ snd r'))"

definition fetch_via_ams :: "media_net \<Rightarrow> (string \<times> string) option \<Rightarrow> teams_attachment \<Rightarrow> (string \<times> string) option \<times> asked" where
  "fetch_via_ams mn ams att =
     (case ams of
        None \<Rightarrow> (None, [])
      | Some (token, region) \<Rightarrow>
          if trim_space (ta_drive_item att) \<noteq> [] \<or> trim_space (ta_download_url att) = [] then (None, [])
          else (let url = regional (mn_urls mn) (trim_space (ta_download_url att)) region in
                some_data (download_ams_image mn url token, [(url, skype_authorization token)])))"

text \<open>The error of a fetch is only logged; no data is \<open>None\<close>.\<close>

definition fetch_attachment :: "media_net \<Rightarrow> attachment_sources \<Rightarrow> teams_attachment \<Rightarrow> (string \<times> string) option \<times> asked" where
  "fetch_attachment mn src att =
     (let graph = (\<lambda>get what. case as_graph_token src of
                     Some token \<Rightarrow> if trim_space what \<noteq> [] then some_data (get mn token what) else (None, [])
                   | None \<Rightarrow> (None, []))
      in or_else (graph download_shared_item_content (ta_share_url att))
           (or_else (graph download_drive_item_content (ta_drive_item att)) (fetch_via_ams mn (as_ams src) att)))"

definition attachment_thumbnail :: "media_net \<Rightarrow> attachment_sources \<Rightarrow> teams_attachment \<Rightarrow> (string \<times> string) option \<times> asked" where
  "attachment_thumbnail mn src att =
     (case as_graph_token src of
        Some token \<Rightarrow>
          if trim_space (ta_share_url att) = [] then (None, [])
          else some_data (download_shared_item_thumbnail mn token (ta_share_url att))
      | None \<Rightarrow> (None, []))"

definition add_thumbnail :: "media_net \<Rightarrow> attachment_sources \<Rightarrow> teams_attachment \<Rightarrow> converted_part \<Rightarrow> converted_part \<times> asked" where
  "add_thumbnail mn src att p =
     (case attachment_thumbnail mn src att of
        (None, as) \<Rightarrow> (p, as)
      | (Some (data, ct), as) \<Rightarrow>
          (let mime = detect_mime_type mn [] ct data; name = ''thumbnail'' @ mime_extension mime in
           (case mn_upload mn data name mime of
              Inl _ \<Rightarrow> p
            | Inr up \<Rightarrow> p\<lparr>pt_thumbnail := pt_media (media_part [] M_Image name mime (length data) up [])\<rparr>, as)))"

text \<open>Voice messages (MSC3245), known by their names.\<close>

definition apply_voice_hint :: "string \<Rightarrow> string \<Rightarrow> converted_part \<Rightarrow> converted_part" where
  "apply_voice_hint name mime p =
     (let n = to_lower name in
      if prefix ''audio/'' (to_lower mime) \<and> (sublist ''voice'' n \<or> sublist ''audio_message'' n \<or> suffix ''.ogg'' n)
      then p\<lparr>pt_type := M_Audio, pt_extra := AList.update ''org.matrix.msc3245.voice'' (JObj []) (pt_extra p)\<rparr> else p)"

definition reupload_attachment ::
  "media_net \<Rightarrow> attachment_sources \<Rightarrow> (string \<times> json) list \<Rightarrow> string \<Rightarrow> teams_attachment \<Rightarrow> converted_part option \<times> asked" where
  "reupload_attachment mn src extra i att =
     (let name = trim_space (ta_filename att) in
      case fetch_attachment mn src att of
        (None, as) \<Rightarrow> (None, as)
      | (Some (data, ct), as) \<Rightarrow>
          (let mime = detect_mime_type mn name ct data; type = matrix_type_for_mime mime in
           case mn_upload mn data name mime of
             Inl _ \<Rightarrow> (None, as)
           | Inr up \<Rightarrow>
               (let p = media_part i type name mime (length data) up extra in
                case (if type = M_File \<or> type = M_Video then add_thumbnail mn src att p else (p, [])) of
                  (p', as') \<Rightarrow> (Some (apply_voice_hint name mime p'), as @ as'))))"

text \<open>An attachment that was not stored is linked, after its preview where there is one.\<close>

definition preview_part ::
  "media_net \<Rightarrow> attachment_sources \<Rightarrow> (string \<times> json) list \<Rightarrow> string \<Rightarrow> teams_attachment \<Rightarrow> converted_part option \<times> asked" where
  "preview_part mn src extra i att =
     (case attachment_thumbnail mn src att of
        (None, as) \<Rightarrow> (None, as)
      | (Some (data, ct), as) \<Rightarrow>
          (let mime = detect_mime_type mn [] ct data;
               name = trim_space (ta_filename att) @ '' (preview)'' @ mime_extension mime in
           (case mn_upload mn data name mime of
              Inl _ \<Rightarrow> None
            | Inr up \<Rightarrow> Some (media_part (i @ ''_preview'') M_Image name mime (length data) up extra), as)))"

fun reupload_attachments_from ::
  "media_net \<Rightarrow> attachment_sources \<Rightarrow> (string \<times> json) list \<Rightarrow> nat \<Rightarrow> teams_attachment list \<Rightarrow>
   converted_part list \<times> teams_attachment list \<times> asked" where
  "reupload_attachments_from mn src extra i [] = ([], [], [])"
| "reupload_attachments_from mn src extra i (att # atts) =
     (case reupload_attachments_from mn src extra (Suc i) atts of
        (ps, fb, as) \<Rightarrow>
          (case reupload_attachment mn src extra (''att_'' @ show_nat i) att of
             (Some p, a) \<Rightarrow> (p # ps, fb, a @ as)
           | (None, a) \<Rightarrow>
               (case preview_part mn src extra (''att_'' @ show_nat i) att of
                  (p, a') \<Rightarrow> ((case p of Some q \<Rightarrow> q # ps | None \<Rightarrow> ps), att # fb, a @ a' @ as))))"

definition reupload_inbound_attachments ::
  "token_env \<Rightarrow> media_net \<Rightarrow> teams_attachment list \<Rightarrow> (string \<times> json) list \<Rightarrow> token_world \<Rightarrow>
   (converted_part list \<times> teams_attachment list \<times> asked) \<times> token_world" where
  "reupload_inbound_attachments env mn atts extra tw =
     (if \<not> mn_http mn then (([], atts, []), tw)
      else (case attachment_sources_of env mn tw of
              (src, tw') \<Rightarrow> (reupload_attachments_from mn src extra 0 atts, tw')))"

section \<open>Stickers\<close>

definition sticker_from_ams :: "string \<Rightarrow> bool" where
  "sticker_from_ams url \<longleftrightarrow> sublist ''ams'' url \<or> sublist ''api.asm.skype.com'' url"

text \<open>The media store first, for an address that looks like its, then without a token.\<close>

definition fetch_sticker :: "media_net \<Rightarrow> string \<Rightarrow> string \<Rightarrow> string \<Rightarrow> (string \<times> string) option \<times> asked" where
  "fetch_sticker mn token region url =
     or_else
       (if sticker_from_ams url
        then (let u = regional (mn_urls mn) url region in some_data (download_ams_image mn u token, [(u, skype_authorization token)]))
        else (None, []))
       (some_data (download_direct_http mn url, [(url, [])]))"

definition convert_sticker ::
  "media_net \<Rightarrow> string \<Rightarrow> string \<Rightarrow> string \<Rightarrow> string \<Rightarrow> (string \<times> json) list \<Rightarrow> converted_part option \<times> asked" where
  "convert_sticker mn token region url0 alt extra =
     (let url = trim_space url0 in
      if url = [] \<or> \<not> mn_http mn then (None, [])
      else case fetch_sticker mn (trim_space token) region url of
        (None, as) \<Rightarrow> (None, as)
      | (Some (data, ct), as) \<Rightarrow>
          (let mime = detect_mime_type mn [] ct data in
           (case mn_upload mn data (''sticker'' @ mime_extension mime) mime of
              Inl _ \<Rightarrow> None
            | Inr (mxc, enc) \<Rightarrow>
                Some ((text_part [] M_Image alt [] extra)
                  \<lparr>pt_sticker := True, pt_media := Some \<lparr>mi_name = [], mi_mime = mime, mi_size = length data, mi_url = mxc, mi_file = enc\<rparr>\<rparr>), as)))"

end
