(* ===== verification/Call_Records.thy ===== *)
theory Call_Records
  imports Teams_Message Remote_Events
begin

text \<open>
  Calls as Teams records them (pkg/connector/call_log.go): the XML of an \<open>Event/Call\<close> message and the call-log
  property of a call-log message, and the sentence a call becomes.

  Parameters: the XML decoder (the text to the type of the list of participants and its parts), the JSON
  parser, and the parser of a JSON time.
\<close>

section \<open>What Teams records\<close>

record call_summary =
  cs_state :: string
  cs_direction :: string
  cs_peer :: string
  cs_peer_id :: string
  cs_participants :: "string list"
  cs_duration :: duration

record call_part =
  cp_identity :: string
  cp_name :: string
  cp_duration :: string

record call_env =
  ca_xml :: "string \<Rightarrow> (string \<times> call_part list) option"
  ca_parse :: "string \<Rightarrow> json option"
  ca_time :: "string \<Rightarrow> gotime option"

definition call_states :: "string list" where
  "call_states = [''missed'', ''started'', ''ended'', ''declined'', ''rejected'']"

text \<open>The state: the type of the list, or the first state element in the text.\<close>

definition call_state :: "string \<Rightarrow> string \<Rightarrow> string" where
  "call_state raw type =
     (let t = to_lower (trim_space type) in
      if t \<noteq> [] then t
      else case find (\<lambda>s. sublist (''<'' @ s @ ''/>'') raw \<or> sublist (''<'' @ s @ ''>'') raw) call_states of
             Some s \<Rightarrow> s | None \<Rightarrow> [])"

text \<open>One participant: the longest duration, the names of all but the user and the nameless, the first of them.\<close>

definition add_part :: "string \<Rightarrow> call_part \<Rightarrow> call_summary \<Rightarrow> call_summary" where
  "add_part self p cs =
     (let cs1 = (case parse_int64 (trim_space (cp_duration p)) of
                   Some secs \<Rightarrow> cs\<lparr>cs_duration := max (cs_duration cs) (mul64 secs second)\<rparr>
                 | None \<Rightarrow> cs);
          i = normalize_teams_user_id (cp_identity p); name = trim_space (cp_name p)
      in if self \<noteq> [] \<and> i = self \<or> name = [] then cs1
         else cs1\<lparr>cs_participants := cs_participants cs1 @ [name],
                  cs_peer_id := (if cs_peer_id cs1 = [] then i else cs_peer_id cs1)\<rparr>)"

definition only_peer :: "call_summary \<Rightarrow> call_summary" where
  "only_peer cs = (case cs_participants cs of [p] \<Rightarrow> cs\<lparr>cs_peer := p\<rparr> | _ \<Rightarrow> cs)"

definition parse_call_event :: "call_env \<Rightarrow> string \<Rightarrow> string \<Rightarrow> call_summary option" where
  "parse_call_event env raw0 self_id =
     (let raw = trim_space raw0 in
      if raw = [] \<or> \<not> prefix ''<'' raw then None
      else case ca_xml env (''<call>'' @ raw @ ''</call>'') of
             None \<Rightarrow> None
           | Some (type, parts) \<Rightarrow>
               if call_state raw type = [] then None
               else Some (only_peer (fold (add_part (normalize_teams_user_id self_id)) parts
                 \<lparr>cs_state = call_state raw type, cs_direction = [], cs_peer = [], cs_peer_id = [], cs_participants = [], cs_duration = 0\<rparr>)))"

section \<open>The call log\<close>

text \<open>Decoding into what is already there, value after value.\<close>

fun decode_all :: "('a \<Rightarrow> json \<Rightarrow> 'a option) \<Rightarrow> 'a \<Rightarrow> json list \<Rightarrow> 'a option" where
  "decode_all f cur [] = Some cur"
| "decode_all f cur (v # vs) = Option.bind (f cur v) (\<lambda>x. decode_all f x vs)"

fun into_string_pointer :: "string option \<Rightarrow> json \<Rightarrow> string option option" where
  "into_string_pointer cur (JStr s) = Some (Some s)"
| "into_string_pointer cur JNull = Some None"
| "into_string_pointer cur _ = None"

fun into_time_pointer :: "(string \<Rightarrow> gotime option) \<Rightarrow> gotime option \<Rightarrow> json \<Rightarrow> gotime option option" where
  "into_time_pointer pt cur (JStr s) = map_option Some (pt s)"
| "into_time_pointer pt cur JNull = Some None"
| "into_time_pointer pt cur _ = None"

definition pointer_field :: "('a option \<Rightarrow> json \<Rightarrow> 'a option option) \<Rightarrow> string \<Rightarrow> 'a option \<Rightarrow> json \<Rightarrow> 'a option option" where
  "pointer_field f name cur j = Option.bind (field_values name j) (decode_all f cur)"

text \<open>A participant is an ID and perhaps a name.\<close>

definition decode_participant :: "string \<times> string option \<Rightarrow> json \<Rightarrow> (string \<times> string option) option" where
  "decode_participant cur j =
     (case (Option.bind (field_values ''id'' j) (into_string (fst cur)), pointer_field into_string_pointer ''displayName'' (snd cur) j) of
        (Some i, Some n) \<Rightarrow> Some (i, n)
      | _ \<Rightarrow> None)"

record call_log_entry =
  cl_connect :: "gotime option"
  cl_end :: "gotime option"
  cl_direction :: string
  cl_state :: string
  cl_originator :: "string \<times> string option"
  cl_target :: "string \<times> string option"

definition decode_call_log :: "call_env \<Rightarrow> json \<Rightarrow> call_log_entry option" where
  "decode_call_log env j =
     (case (pointer_field (into_time_pointer (ca_time env)) ''connectTime'' None j, pointer_field (into_time_pointer (ca_time env)) ''endTime'' None j,
            string_field ''callDirection'' j, string_field ''callType'' j, string_field ''callState'' j,
            Option.bind (field_values ''originatorParticipant'' j) (decode_all decode_participant ([], None)),
            Option.bind (field_values ''targetParticipant'' j) (decode_all decode_participant ([], None))) of
        (Some c, Some e, Some d, Some _, Some s, Some orig, Some target) \<Rightarrow>
          Some \<lparr>cl_connect = c, cl_end = e, cl_direction = d, cl_state = s, cl_originator = orig, cl_target = target\<rparr>
      | _ \<Rightarrow> None)"

text \<open>\<open>Duration.Round\<close>: to the nearest multiple, halves away from zero, within 64 bits.\<close>

definition round_to :: "duration \<Rightarrow> duration \<Rightarrow> duration" where
  "round_to m d =
     (if m \<le> 0 then d
      else (let r = \<bar>d\<bar> mod m in
            if d < 0 then (if 2 * r < m then d + r else max (d - m + r) (- (2 ^ 63)))
            else if 2 * r < m then d - r else min (d + m - r) (2 ^ 63 - 1)))"

text \<open>The property holds JSON in a string, or an object.\<close>

definition call_log_json :: "call_env \<Rightarrow> json option \<Rightarrow> json option" where
  "call_log_json env props =
     (case props of
        Some (JObj kvs) \<Rightarrow>
          (case map_of (rev kvs) ''call-log'' of
             None \<Rightarrow> None
           | Some JNull \<Rightarrow> None
           | Some (JStr s) \<Rightarrow> ca_parse env s
           | Some j \<Rightarrow> Some j)
      | _ \<Rightarrow> None)"

definition parse_call_log :: "call_env \<Rightarrow> json option \<Rightarrow> call_summary option" where
  "parse_call_log env props =
     (case Option.bind (call_log_json env props) (decode_call_log env) of
        None \<Rightarrow> None
      | Some e \<Rightarrow>
          if cl_state e = [] then None
          else (let direction = to_lower (cl_direction e);
                    peer = (if direction = ''incoming'' then cl_originator e else cl_target e);
                    name = (case snd peer of Some n \<Rightarrow> trim_space n | None \<Rightarrow> []);
                    lasted = (case (cl_connect e, cl_end e) of
                                (Some c, Some x) \<Rightarrow> if c < x then round_to second (time_sub x c) else 0
                              | _ \<Rightarrow> 0)
                in Some \<lparr>cs_state = to_lower (cl_state e), cs_direction = direction, cs_peer = name,
                         cs_peer_id = normalize_teams_user_id (fst peer),
                         cs_participants = (if name \<noteq> [] then [name] else []), cs_duration = lasted\<rparr>))"

section \<open>The sentence\<close>

text \<open>Durations here are whole seconds, of which the floating-point numbers of \<open>Hours\<close> and \<open>Minutes\<close> give the exact whole part.\<close>

definition format_call_duration :: "duration \<Rightarrow> string" where
  "format_call_duration d =
     (if d < minute then show_int (d div second) @ '' s''
      else if d < hour then show_int (round_to minute d div minute) @ '' min''
      else show_int (d div hour) @ '' h '' @ show_int (round_to minute d div minute - 60 * (d div hour)) @ '' min'')"

definition with_duration :: "call_summary \<Rightarrow> string \<Rightarrow> string" where
  "with_duration cs s = (if 0 < cs_duration cs then s @ '', '' @ format_call_duration (cs_duration cs) else s)"

definition call_text :: "call_summary \<Rightarrow> string" where
  "call_text cs =
     (let who = (if cs_peer cs = [] then ''someone'' else cs_peer cs); out = (cs_direction cs = ''outgoing''); st = cs_state cs in
      if st = ''missed'' then (if out then ''Call to '' @ who @ '', not answered'' else ''Missed call from '' @ who)
      else if st \<in> {''declined'', ''rejected''}
      then (if out then ''Call to '' @ who @ '' declined'' else ''Declined call from '' @ who)
      else if st = ''accepted''
      then with_duration cs (if cs_direction cs = ''incoming'' then ''Incoming call from '' @ who
             else if out then ''Outgoing call to '' @ who else ''Call with '' @ who)
      else if st = ''started'' then ''Call started''
      else if st = ''ended''
      then with_duration cs ''Call ended'' @ (if cs_participants cs \<noteq> [] then '': '' @ join_with '', '' (cs_participants cs) else [])
      else with_duration cs ((if out then ''Call to '' else ''Call with '') @ who @ '' ('' @ st @ '')''))"

text \<open>The call a message records, if it records one.\<close>

definition call_of_message :: "call_env \<Rightarrow> string \<Rightarrow> remote_message \<Rightarrow> call_summary option" where
  "call_of_message env self_id m =
     (let event = (if prefix ''event/call'' (to_lower (message_type m)) then parse_call_event env (raw_content m) self_id else None) in
      case event of
        Some cs \<Rightarrow> Some (if cs_state cs = ''missed'' \<and> cs_peer cs = [] then cs\<lparr>cs_peer := trim_space (sender_name m)\<rparr> else cs)
      | None \<Rightarrow> parse_call_log env (properties_raw m))"

section \<open>What the sentence says of the duration\<close>

lemma round_to_near:
  assumes "0 < m" and "even m" and "0 \<le> d" and "d + m < 2 ^ 63"
  shows "round_to m d mod m = 0 \<and> \<bar>round_to m d - d\<bar> \<le> m div 2 \<and> (round_to m d div m = d div m + 1 \<longleftrightarrow> m \<le> 2 * (d mod m)) \<and>
    (round_to m d div m = d div m \<longleftrightarrow> 2 * (d mod m) < m)"
proof (cases "2 * (d mod m) < m")
  case True
  then have r: "round_to m d = d - d mod m" using assms by (simp add: round_to_def Let_def)
  then have "\<bar>round_to m d - d\<bar> = d mod m" using assms(1) by simp
  then have "\<bar>round_to m d - d\<bar> \<le> m div 2" using True by linarith
  moreover have "round_to m d = m * (d div m)" using r by (simp add: minus_mod_eq_mult_div)
  ultimately show ?thesis using True assms(1) by simp
next
  case False
  have "d mod m < m" using assms by simp
  with False have r: "round_to m d = d + m - d mod m" using assms by (simp add: round_to_def Let_def)
  then have "round_to m d = m * (d div m + 1)" by (simp add: minus_mod_eq_mult_div [symmetric] algebra_simps)
  moreover have "\<bar>round_to m d - d\<bar> \<le> m div 2" using r False \<open>d mod m < m\<close> assms(2) by (auto elim!: evenE)
  ultimately show ?thesis using False assms by auto
qed

lemma div_parts: "d = e + m * x \<Longrightarrow> 0 < m \<Longrightarrow> d div m = x + e div m \<and> d mod m = e mod m" for d e m x :: int
  by simp

text \<open>The length of a call, of a minute and more, is told to within half a minute: as minutes below an hour, as hours and minutes from
  an hour on.  The minutes are at most 60, and they are 60 exactly in the last half minute before a full hour, where
  the hour before it is still told: a call of two hours less a quarter of a minute lasted \<open>1 h 60 min\<close>.\<close>

lemma call_duration_told:
  assumes "minute \<le> d" and "d < 2 ^ 62"
  shows "\<exists>h m. format_call_duration d = (if d < hour then show_int m @ '' min'' else show_int h @ '' h '' @ show_int m @ '' min'') \<and>
    0 \<le> h \<and> (d < hour \<longrightarrow> h = 0) \<and> 0 \<le> m \<and> m \<le> 60 \<and> \<bar>h * hour + m * minute - d\<bar> \<le> 30 * second \<and>
    (m = 60 \<longleftrightarrow> hour - 30 * second \<le> d mod hour)"
proof -
  let ?r = "round_to minute d div minute" and ?h = "d div hour"
  let ?m = "?r - 60 * ?h"
  have near: "round_to minute d mod minute = 0" "\<bar>round_to minute d - d\<bar> \<le> 30 * second"
      "?r = d div minute + 1 \<longleftrightarrow> minute \<le> 2 * (d mod minute)" "?r = d div minute \<longleftrightarrow> 2 * (d mod minute) < minute"
    using round_to_near [of minute d] assms by simp_all
  have r: "round_to minute d = minute * ?r" using near(1) by (metis add.right_neutral mult_div_mod_eq)
  define e where "e = d mod hour"
  have d: "d = hour * ?h + e" "0 \<le> e" "e < hour" by (simp_all add: e_def)
  define k where "k = e div minute"
  define q where "q = e mod minute"
  have e: "e = minute * k + q" "0 \<le> q" "q < minute" by (simp_all add: k_def q_def)
  have split: "d = e + minute * (60 * ?h)" using d(1) by (simp add: algebra_simps)
  have parts: "d div minute = 60 * ?h + k" "d mod minute = q"
    unfolding k_def q_def by (rule div_parts [OF split, THEN conjunct1], simp, rule div_parts [OF split, THEN conjunct2], simp)
  have m: "?m = k + (if minute \<le> 2 * q then 1 else 0)"
    using near(3,4) parts by auto
  have "0 \<le> k" "k \<le> 59" using d(2,3) e by linarith+
  then have "0 \<le> ?m" "?m \<le> 60" "?m = 60 \<longleftrightarrow> hour - 30 * second \<le> d mod hour"
    unfolding m e_def [symmetric] using e by (auto split: if_splits)
  moreover have "\<bar>?h * hour + ?m * minute - d\<bar> \<le> 30 * second" using near(2) r by (simp add: algebra_simps)
  moreover have zero: "d < hour \<longrightarrow> ?h = 0" "0 \<le> ?h" using assms(1) by (simp_all add: div_pos_pos_trivial pos_imp_zdiv_nonneg_iff)
  moreover have "format_call_duration d = (if d < hour then show_int ?m @ '' min'' else show_int ?h @ '' h '' @ show_int ?m @ '' min'')"
  proof (cases "d < hour")
    case True
    then have "?m = ?r" using zero by simp
    then show ?thesis using True assms(1) by (simp only: format_call_duration_def) simp
  next
    case False
    then show ?thesis using assms(1) by (simp only: format_call_duration_def) simp
  qed
  ultimately show ?thesis by blast
qed

lemma call_duration_told_example:
  "format_call_duration (2 * hour - 15 * second) = ''1 h 60 min'' \<and>
   (\<exists>h m. format_call_duration (2 * hour - 15 * second) = show_int h @ '' h '' @ show_int m @ '' min'' \<and> m \<le> 60)"
proof -
  have "format_call_duration (2 * hour - 15 * second) = ''1 h 60 min''"
    by code_simp
  then show ?thesis using call_duration_told [of "2 * hour - 15 * second"] by auto
qed

end
