(* ===== verification/Conversion.thy ===== *)
theory Conversion
  imports Message_Media Call_Records
begin

text \<open>
  Messages of Teams as Matrix messages (pkg/connector/convert.go, convert_util.go, forward.go and the notices of
  call_log.go): the kinds of message, the parts of each, mentions, link previews, forwards and edits.

  A conversion returns the parts and relations, or the error for a deleted message, with the downloads it made
  and the tokens after it.  Parameters: what media meet (Message_Media), the parsers of properties, the ghosts and
  names of the bridge, and the parser of times.
\<close>

record convert_env =
  cv_media :: media_net
  cv_tokens :: token_env
  cv_intent :: bool
  cv_parse :: "string \<Rightarrow> json option"
  cv_calls :: call_env
  cv_ghosts :: "(string \<Rightarrow> string) option"
  cv_login_mxid :: string
  cv_portal :: string
  cv_profile :: "string \<Rightarrow> profile option"
  cv_ghost_name :: "string \<Rightarrow> string option"
  cv_room_name :: "string \<Rightarrow> string"
  cv_time :: "string \<Rightarrow> (gotime \<times> duration) option"
  cv_year :: int

record converted =
  cm_parts :: "converted_part list"
  cm_thread_root :: "string option"
  cm_reply_to :: "string option"

abbreviation (input) nl :: string where "nl \<equiv> [CHR 0x0A]"

section \<open>Text\<close>

definition plain_text_to_html :: "string \<Rightarrow> string" where
  "plain_text_to_html s = replace_all nl ''<br>'' (html_escape s)"

text \<open>The title of a channel post, above its body.\<close>

definition with_post_subject :: "remote_message \<Rightarrow> remote_message" where
  "with_post_subject m =
     (let subject = extract_subject (properties_raw m); body = trim_space (msg_body m);
          formatted0 = trim_space (formatted_body m);
          formatted = (if formatted0 = [] \<and> body \<noteq> [] then plain_text_to_html body else formatted0);
          title = ''<strong>'' @ html_escape subject @ ''</strong>'' in
      if subject = [] then m
      else m\<lparr>msg_body := (if body \<noteq> [] then subject @ nl @ nl @ body else subject),
             formatted_body := (if formatted \<noteq> [] then title @ ''<br><br>'' @ formatted else title)\<rparr>)"

definition strip_html_fallback :: "string \<Rightarrow> string" where
  "strip_html_fallback s =
     replace_all ''</p>'' [] (replace_all ''<p>'' [] (replace_all ''<br />'' nl (replace_all ''<br/>'' nl (replace_all ''<br>'' nl s))))"

definition attachment_line :: "teams_attachment \<Rightarrow> string" where
  "attachment_line a =
     ''Attachment: '' @ ta_filename a @ (if trim_space (ta_share_url a) = [] then [] else '' - '' @ ta_share_url a)"

definition attachment_item :: "teams_attachment \<Rightarrow> string" where
  "attachment_item a =
     (if trim_space (ta_share_url a) = [] then ''<li>Attachment: '' @ html_escape (ta_filename a) @ ''</li>''
      else ''<li>Attachment: <a href='' @ quoted (html_escape (ta_share_url a)) @ ''>'' @ html_escape (ta_filename a) @ ''</a></li>'')"

definition gif_line :: "teams_gif \<Rightarrow> string" where
  "gif_line g = ''GIF: '' @ gif_title g @ '' - '' @ gif_url g"

definition gif_item :: "teams_gif \<Rightarrow> string" where
  "gif_item g = ''<li>GIF: <a href='' @ quoted (html_escape (gif_url g)) @ ''>'' @ html_escape (gif_title g) @ ''</a></li>''"

definition render_attachment_body where "render_attachment_body as = join_with nl (map attachment_line as)"
definition render_attachment_html where "render_attachment_html as = ''<ul>'' @ concat (map attachment_item as) @ ''</ul>''"
definition render_gif_body where "render_gif_body gs = join_with nl (map gif_line gs)"
definition render_gif_html where "render_gif_html gs = ''<ul>'' @ concat (map gif_item gs) @ ''</ul>''"

text \<open>The body and the HTML, with lines for attachments and GIFs.\<close>

definition render_inbound_message :: "string \<Rightarrow> string \<Rightarrow> teams_attachment list \<Rightarrow> teams_gif list \<Rightarrow> string \<times> string" where
  "render_inbound_message body0 formatted0 as gs =
     (let body = trim_space body0; formatted = trim_space formatted0;
          base = (if formatted = [] \<and> body \<noteq> [] then plain_text_to_html body0 else formatted) in
      if as = [] \<and> gs = [] then (body, formatted)
      else (join_with (nl @ nl)
              ((if body \<noteq> [] then [body] else []) @ (if as \<noteq> [] then [render_attachment_body as] else []) @
               (if gs \<noteq> [] then [render_gif_body gs] else [])),
            join_with ''<br><br>''
              ((if base \<noteq> [] then [base] else []) @ (if as \<noteq> [] then [render_attachment_html as] else []) @
               (if gs \<noteq> [] then [render_gif_html gs] else []))))"

definition per_message_extra :: "remote_message \<Rightarrow> (string \<times> json) list" where
  "per_message_extra m =
     (let i = trim_space (sender_id m); name = trim_space (sender_name m) in
      if i \<noteq> [] \<and> name \<noteq> []
      then [(''com.beeper.per_message_profile'', JObj [(''id'', JStr i), (''displayname'', JStr name)])] else [])"

text \<open>A text with HTML but no body gets one from the HTML, a blank one if need be.\<close>

definition fallback_body :: "string \<Rightarrow> string" where
  "fallback_body formatted = (let b = strip_html_fallback formatted in if trim_space b = [] then '' '' else b)"

definition build_caption_part :: "string \<times> string \<Rightarrow> (string \<times> json) list \<Rightarrow> converted_part option" where
  "build_caption_part rendered extra =
     (let body = trim_space (fst rendered); formatted = trim_space (snd rendered) in
      if body = [] \<and> formatted = [] then None
      else Some (text_part ''caption'' M_Text (if body \<noteq> [] then body else fallback_body formatted) formatted extra))"

definition unsupported_message_part :: "remote_message \<Rightarrow> (string \<times> json) list \<Rightarrow> converted_part" where
  "unsupported_message_part m extra =
     (let t = trim_space (message_type m) in
      text_part [] M_Notice (''[Unsupported Teams message: '' @ (if t = [] then ''unknown type'' else t) @ '']'') [] extra)"

section \<open>Mentions\<close>

definition nbsp :: string where "nbsp = [CHR 0xC2, CHR 0xA0]"

definition consecutive_item_ids :: "string \<Rightarrow> string \<Rightarrow> bool" where
  "consecutive_item_ids p n \<longleftrightarrow>
     (case (parse_int64 (trim_space p), parse_int64 (trim_space n)) of (Some a, Some b) \<Rightarrow> b = wrap64 (a + 1) | _ \<Rightarrow> False)"

text \<open>The spans of one name become one mention.\<close>

fun group_split_mentions :: "teams_mention list \<Rightarrow> teams_mention list \<Rightarrow> teams_mention list" where
  "group_split_mentions acc [] = rev acc"
| "group_split_mentions [] (m # ms) = group_split_mentions [m] ms"
| "group_split_mentions (p # ps) (m # ms) =
     (if mention_user_id p \<noteq> [] \<and> mention_user_id p = mention_user_id m \<and>
         consecutive_item_ids (mention_item_id p) (mention_item_id m)
      then group_split_mentions (p\<lparr>mention_display_name := mention_display_name p @ nbsp @ mention_display_name m,
             mention_item_id := mention_item_id m\<rparr> # ps) ms
      else group_split_mentions (m # p # ps) ms)"

text \<open>The user of the bridge: their Teams ID, their Matrix ID, and whether the message is their own.\<close>

record mention_self =
  self_teams :: string
  self_mxid :: string
  self_sender :: bool

definition is_teams_user_mri :: "string \<Rightarrow> bool" where
  "is_teams_user_mri mri \<longleftrightarrow> prefix ''8:'' (trim_space mri)"

text \<open>What one mention becomes: the text, the users it mentions, and whether it mentions the room.\<close>

definition mention_replacement :: "(string \<Rightarrow> string) \<Rightarrow> mention_self \<Rightarrow> string \<Rightarrow> string \<Rightarrow> (string \<times> string list \<times> bool) option" where
  "mention_replacement ghosts self mri name =
     (if is_teams_user_mri mri
      then (let mxid = (if self_mxid self \<noteq> [] \<and> normalize_teams_user_id mri = self_teams self then self_mxid self else ghosts mri) in
            if mxid = [] then None
            else Some (''<a href='' @ quoted (''https://matrix.to/#/'' @ html_escape mxid) @ ''>@'' @ html_escape name @ ''</a>'', [mxid], False))
      else if prefix ''19:'' mri
      then Some (''@'' @ html_escape name, if self_mxid self \<noteq> [] \<and> \<not> self_sender self then [self_mxid self] else [], True)
      else Some (''@'' @ html_escape name, [], False))"

fun mention_plan ::
  "(string \<Rightarrow> string) \<Rightarrow> mention_self \<Rightarrow> teams_mention list \<Rightarrow> (string \<times> string) list \<times> string list \<times> bool" where
  "mention_plan ghosts self [] = ([], [], False)"
| "mention_plan ghosts self (g # gs) =
     (let mri = trim_space (mention_user_id g); name = trim_space (mention_display_name g); rest = mention_plan ghosts self gs in
      if mri = [] \<or> name = [] then rest
      else case mention_replacement ghosts self mri name of
             None \<Rightarrow> rest
           | Some (new, users, room) \<Rightarrow>
               (case rest of (pairs, us, r) \<Rightarrow>
                 (let e = html_escape name; spaced = replace_all nbsp '' '' e in
                  ((e, new) # (if spaced \<noteq> e then [(spaced, new)] else []) @ pairs, users @ us, room \<or> r))))"

text \<open>\<open>strings.Replacer\<close>: at each place the first pair whose old text is there.\<close>

fun replace_pairs :: "(string \<times> string) list \<Rightarrow> string \<Rightarrow> string" where
  "replace_pairs ps [] = []"
| "replace_pairs ps (c # s) =
     (case find (\<lambda>(old, _). old \<noteq> [] \<and> prefix old (c # s)) ps of
        Some (old, new) \<Rightarrow> new @ replace_pairs ps (drop (length old - 1) s)
      | None \<Rightarrow> c # replace_pairs ps s)"

definition add_users_once :: "string list \<Rightarrow> string list \<Rightarrow> string list" where
  "add_users_once new old = fold (\<lambda>u us. if u = [] \<or> u \<in> set us then us else us @ [u]) new old"

definition apply_pairs :: "(string \<times> string) list \<Rightarrow> string list \<Rightarrow> bool \<Rightarrow> converted_part \<Rightarrow> converted_part" where
  "apply_pairs ps users room p =
     (let p1 = (if pt_formatted p \<noteq> [] then p\<lparr>pt_formatted := replace_pairs ps (pt_formatted p), pt_html := True\<rparr>
                else if pt_body p \<noteq> [] then p\<lparr>pt_formatted := replace_pairs ps (html_escape (pt_body p)), pt_html := True\<rparr> else p)
      in if room \<or> users \<noteq> [] then p1\<lparr>pt_room := pt_room p1 \<or> room, pt_users := add_users_once users (pt_users p1)\<rparr> else p1)"

definition apply_mentions ::
  "(string \<Rightarrow> string) option \<Rightarrow> mention_self \<Rightarrow> teams_mention list \<Rightarrow> converted_part list \<Rightarrow> converted_part list" where
  "apply_mentions ghosts self ms parts =
     (case ghosts of
        None \<Rightarrow> parts
      | Some gh \<Rightarrow>
          (case mention_plan gh self (group_split_mentions [] ms) of
             (pairs, users, room) \<Rightarrow>
               if pairs = [] then parts
               else map (apply_pairs (sort_key (\<lambda>(old, _). - int (length old)) pairs) users room) parts))"

definition apply_mention_pills :: "convert_env \<Rightarrow> login_meta \<Rightarrow> remote_message \<Rightarrow> converted_part list \<Rightarrow> converted_part list" where
  "apply_mention_pills env meta m parts =
     (let me = normalize_teams_user_id (lm_user_id meta) in
      apply_mentions (cv_ghosts env)
        \<lparr>self_teams = me, self_mxid = cv_login_mxid env, self_sender = (me \<noteq> [] \<and> normalize_teams_user_id (sender_id m) = me)\<rparr>
        (msg_mentions m) parts)"

section \<open>Relations and previews\<close>

definition with_relations :: "remote_message \<Rightarrow> converted_part list \<Rightarrow> converted" where
  "with_relations m parts =
     (let root = trim_space (thread_root_id m); reply = trim_space (reply_to_id m) in
      \<lparr>cm_parts = parts, cm_thread_root = (if root \<noteq> [] \<and> root \<noteq> trim_space (message_id m) then Some root else None),
       cm_reply_to = (if reply \<noteq> [] then Some reply else None)\<rparr>)"

definition alone :: "converted_part \<Rightarrow> converted" where
  "alone p = \<lparr>cm_parts = [p], cm_thread_root = None, cm_reply_to = None\<rparr>"

definition preview_json :: "link_preview \<Rightarrow> json" where
  "preview_json p =
     JObj ((''matched_url'', JStr (lp_url p)) #
       map (\<lambda>(k, v). (k, JStr v)) (filter (\<lambda>(_, v). v \<noteq> [])
         [(''og:title'', lp_title p), (''og:description'', lp_description p), (''og:image'', lp_image_url p), (''og:site_name'', lp_site_name p)]))"

text \<open>On the last text part.\<close>

fun update_first :: "('a \<Rightarrow> bool) \<Rightarrow> ('a \<Rightarrow> 'a) \<Rightarrow> 'a list \<Rightarrow> 'a list" where
  "update_first P f [] = []"
| "update_first P f (x # xs) = (if P x then f x # xs else x # update_first P f xs)"

definition apply_link_previews :: "json option \<Rightarrow> converted_part list \<Rightarrow> converted_part list" where
  "apply_link_previews props parts =
     (let ps = extract_link_previews props in
      if ps = [] then parts
      else rev (update_first (\<lambda>p. pt_type p = M_Text)
             (\<lambda>p. p\<lparr>pt_extra := AList.update ''com.beeper.linkpreviews'' (JArr (map preview_json ps)) (pt_extra p)\<rparr>) (rev parts)))"

section \<open>Messages without media\<close>

text \<open>What a message without text shows: its cards, or the links it shares.\<close>

definition cards_text :: "json option \<Rightarrow> (string \<times> string) option" where
  "cards_text props =
     (let cards = extract_adaptive_cards props; texts = said (map render_plain_text cards) in
      if texts = [] then None else Some (join_with (nl @ nl) texts, concat (map render_html cards)))"

definition link_item :: "string \<Rightarrow> string" where
  "link_item u = ''<li>Attachment: <a href='' @ quoted (html_escape u) @ ''>'' @ html_escape u @ ''</a></li>''"

definition links_text :: "(string \<Rightarrow> json option) \<Rightarrow> json option \<Rightarrow> (string \<times> string) option" where
  "links_text parse props =
     (let links = extract_safe_links parse props in
      if links = [] then None
      else Some (join_with nl (map (\<lambda>u. ''Attachment: '' @ u) links), ''<ul>'' @ concat (map link_item links) @ ''</ul>''))"

text \<open>The next text is looked for only where the one before is blank.\<close>

definition unless_blank :: "(string \<times> string) option \<Rightarrow> string \<times> string \<Rightarrow> string \<times> string" where
  "unless_blank other shown =
     (if fst shown = [] \<and> trim_space (snd shown) = [] then (case other of Some t \<Rightarrow> t | None \<Rightarrow> shown) else shown)"

definition legacy_text :: "convert_env \<Rightarrow> remote_message \<Rightarrow> string \<times> string" where
  "legacy_text env m =
     (case render_inbound_message (msg_body m) (formatted_body m) (parse_attachments (cv_parse env) (properties_files m)) (msg_gifs m) of
        (body, formatted) \<Rightarrow>
          unless_blank (links_text (cv_parse env) (properties_raw m)) (unless_blank (cards_text (properties_raw m)) (trim_space body, formatted)))"

definition convert_legacy :: "convert_env \<Rightarrow> login_meta \<Rightarrow> remote_message \<Rightarrow> converted" where
  "convert_legacy env meta m =
     (case legacy_text env m of
        (body, formatted0) \<Rightarrow>
          (let formatted = trim_space formatted0; extra = per_message_extra m in
           if body = [] \<and> formatted = [] then alone (unsupported_message_part m extra)
           else with_relations m
             (apply_mention_pills env meta m
               [text_part [] M_Text (if body = [] then fallback_body formatted else body) formatted extra])))"

section \<open>Messages with media\<close>

definition convert_media :: "convert_env \<Rightarrow> teams_attachment list \<Rightarrow> remote_message \<Rightarrow> token_world \<Rightarrow> (converted \<times> asked) \<times> token_world" where
  "convert_media env as m tw0 =
     (let mn = cv_media env; extra = per_message_extra m in
      case reupload_inbound_attachments (cv_tokens env) mn as extra tw0 of
        ((files, fallback, asked1), tw) \<Rightarrow>
          (case reupload_inline_images mn (lm_skype (tw_meta tw)) (trim_space (lm_ams_url (tw_meta tw))) (inline_images m) extra of
             (images, asked2) \<Rightarrow>
               (case reupload_gifs mn (msg_gifs m) extra of
                  (gifs, linked, asked3) \<Rightarrow>
                    (let caption = build_caption_part (render_inbound_message (msg_body m) (formatted_body m) fallback linked) extra;
                         parts = files @ images @ gifs @ (case caption of Some p \<Rightarrow> [p] | None \<Rightarrow> [])
                     in ((if parts = [] then alone (unsupported_message_part m extra)
                          else with_relations m (apply_link_previews (properties_raw m) (apply_mention_pills env (tw_meta tw) m parts)),
                          asked1 @ asked2 @ asked3), tw)))))"

section \<open>Calls and meetings\<close>

definition call_summary_json :: "call_summary \<Rightarrow> json" where
  "call_summary_json cs =
     JObj [(''state'', JStr (cs_state cs)), (''direction'', JStr (cs_direction cs)), (''peer'', JStr (cs_peer cs)),
       (''peer_id'', JStr (cs_peer_id cs)), (''participants'', if cs_participants cs = [] then JNull else JArr (map JStr (cs_participants cs))),
       (''duration_seconds'', JNum (show_int (cs_duration cs div second)))]"

definition convert_call :: "convert_env \<Rightarrow> login_meta \<Rightarrow> remote_message \<Rightarrow> converted_part option" where
  "convert_call env meta m =
     map_option (\<lambda>cs. text_part [] M_Notice (call_text cs) []
         (AList.update ''fi.mau.teams.call'' (call_summary_json cs) (per_message_extra m)))
       (call_of_message (cv_calls env) (lm_user_id meta) m)"

definition meetup_prefix :: string where
  "meetup_prefix = ''https://teams.microsoft.com/l/meetup-join/''"

definition extract_meeting_join_url :: "string \<Rightarrow> string" where
  "extract_meeting_join_url body =
     (case cut body meetup_prefix of
        (_, after, found) \<Rightarrow>
          if found then meetup_prefix @ takeWhile (\<lambda>c. c \<notin> {CHR '' '', CHR 0x22, CHR ''<'', CHR 0x0A}) after else [])"

text \<open>The notice of an event without a record, or of a message with the link of a meeting.\<close>

definition convert_call_or_meeting :: "remote_message \<Rightarrow> converted_part option" where
  "convert_call_or_meeting m =
     (let t = to_lower (message_type m); who = trim_space (sender_name m);
          url = (let u = extract_meeting_join_url (msg_body m) in if u = [] then extract_meeting_join_url (formatted_body m) else u);
          notice = (\<lambda>body formatted. Some (text_part [] M_Notice body formatted (per_message_extra m))) in
      if prefix ''event/call'' t
      then notice (if sublist ''missed'' t then ''Missed call from '' @ (if who = [] then ''Someone'' else who)
                   else if sublist ''end'' t then ''Call ended'' else if sublist ''start'' t then ''Call started'' else ''Call event'') []
      else if url \<noteq> []
      then notice (''Meeting: '' @ url) (''Meeting: <a href='' @ quoted (html_escape url) @ ''>Join</a>'')
      else None)"

section \<open>Every message\<close>

abbreviation "deleted_message \<equiv> Plain ''message was deleted on Teams''"

definition fetchable :: "teams_attachment \<Rightarrow> bool" where
  "fetchable a \<longleftrightarrow> trim_space (ta_drive_item a) \<noteq> [] \<or> trim_space (ta_share_url a) \<noteq> []"

text \<open>The sticker a message shows, if its HTML has one and it can be fetched.\<close>

definition sticker_of :: "convert_env \<Rightarrow> login_meta \<Rightarrow> remote_message \<Rightarrow> converted_part option \<times> asked" where
  "sticker_of env meta m =
     (case parse_sticker (formatted_body m) of
        Some (url, alt) \<Rightarrow>
          if cv_intent env
          then convert_sticker (cv_media env) (lm_skype meta) (trim_space (lm_ams_url meta)) url alt (per_message_extra m) else (None, [])
      | None \<Rightarrow> (None, []))"

definition convert_content ::
  "convert_env \<Rightarrow> remote_message \<Rightarrow> token_world \<Rightarrow> ((go_error + converted) \<times> asked) \<times> token_world" where
  "convert_content env m0 tw =
     (if is_deleted (properties_raw m0) then ((Inl deleted_message, []), tw)
      else let m = with_post_subject m0; meta = tw_meta tw in
      case convert_call env meta m of
        Some p \<Rightarrow> ((Inr (alone p), []), tw)
      | None \<Rightarrow>
     (case convert_call_or_meeting m of
        Some p \<Rightarrow> ((Inr (alone p), []), tw)
      | None \<Rightarrow>
     (case sticker_of env meta m of
        (Some p, as) \<Rightarrow> ((Inr (alone p), as), tw)
      | (None, as) \<Rightarrow>
          (let files = parse_attachments (cv_parse env) (properties_files m) in
           if \<not> list_ex fetchable files \<and> inline_images m = [] \<and> msg_gifs m = [] \<or> \<not> cv_intent env
           then ((Inr (convert_legacy env meta m), as), tw)
           else (case convert_media env files m tw of ((cm, as'), tw') \<Rightarrow> ((Inr cm, as @ as'), tw'))))))"

section \<open>Forwards\<close>

record forward_context =
  fw_sender :: string
  fw_time :: "(gotime \<times> duration) option"
  fw_thread :: string

text \<open>The context is an object or a string of JSON; its time is \<open>None\<close> where Teams gives none.\<close>

definition extract_forward_context :: "convert_env \<Rightarrow> json option \<Rightarrow> forward_context option" where
  "extract_forward_context env props =
     (case Option.bind props (raw_field ''originalMessageContext'') of
        Some (Some raw) \<Rightarrow>
          (case (case raw of JStr s \<Rightarrow> cv_parse env s | j \<Rightarrow> Some j) of
             None \<Rightarrow> None
           | Some j \<Rightarrow>
               (case (string_field ''originalSender'' j, string_field ''originalSentTime'' j, string_field ''originalThreadId'' j) of
                  (Some who, Some at, Some thread) \<Rightarrow>
                    (let fw = \<lparr>fw_sender = normalize_teams_user_id who, fw_time = cv_time env (trim_space at), fw_thread = trim_space thread\<rparr>
                     in if fw_sender fw = [] \<and> fw_thread fw = [] then None else Some fw)
                | _ \<Rightarrow> None))
      | _ \<Rightarrow> None)"

definition forward_author_name :: "convert_env \<Rightarrow> string \<Rightarrow> string" where
  "forward_author_name env mri =
     (let known = (case cv_profile env mri of Some p \<Rightarrow> trim_space (prof_name p) | None \<Rightarrow> []);
          ghost = (case cv_ghost_name env mri of Some n \<Rightarrow> n | None \<Rightarrow> []) in
      if mri = [] then ''someone'' else if known \<noteq> [] then known else if ghost \<noteq> [] then ghost else ''someone'')"

definition month_names :: "string list" where
  "month_names = [''Jan'', ''Feb'', ''Mar'', ''Apr'', ''May'', ''Jun'', ''Jul'', ''Aug'', ''Sep'', ''Oct'', ''Nov'', ''Dec'']"

text \<open>In the zone the time is given in.\<close>

definition forward_date :: "int \<Rightarrow> gotime \<times> duration \<Rightarrow> string" where
  "forward_date year t =
     (case civil_date (fst t + snd t) of
        (y, mo, d) \<Rightarrow> month_names ! nat (mo - 1) @ '' '' @ show_int d @ (if y = year then [] else '', '' @ show_int y))"

definition middle_dot :: string where "middle_dot = '' '' @ [CHR 0xC2, CHR 0xB7] @ '' ''"

definition forward_header :: "convert_env \<Rightarrow> forward_context \<Rightarrow> string" where
  "forward_header env fw =
     (let room = trim_space (cv_room_name env (fw_thread fw)) in
      join_with middle_dot
        ([''Forwarded from '' @ forward_author_name env (fw_sender fw)] @
         (if fw_thread fw \<noteq> [] \<and> cv_portal env \<noteq> fw_thread fw \<and> room \<noteq> [] then [room] else []) @
         (case fw_time fw of Some t \<Rightarrow> if fst t = 0 then [] else [forward_date (cv_year env) t] | None \<Rightarrow> [])))"

definition put_header :: "string \<Rightarrow> converted_part \<Rightarrow> converted_part" where
  "put_header header p =
     (let formatted = (if pt_formatted p = [] then plain_text_to_html (pt_body p) else pt_formatted p) in
      p\<lparr>pt_html := True, pt_formatted := ''<p><em>'' @ html_escape header @ ''</em></p>'' @ formatted, pt_body := header @ nl @ pt_body p\<rparr>)"

definition apply_forward_header :: "convert_env \<Rightarrow> remote_message \<Rightarrow> converted \<Rightarrow> converted" where
  "apply_forward_header env m cm =
     (case extract_forward_context env (properties_raw m) of
        None \<Rightarrow> cm
      | Some fw \<Rightarrow>
          cm\<lparr>cm_parts := update_first (\<lambda>p. pt_type p = M_Text \<or> pt_type p = M_Notice) (put_header (forward_header env fw)) (cm_parts cm)\<rparr>)"

definition finish_part :: "remote_message \<Rightarrow> converted_part \<Rightarrow> converted_part" where
  "finish_part m p =
     (let p1 = (if pt_edit_time p = None then p\<lparr>pt_edit_time := Some (extract_edit_time (properties_raw m))\<rparr> else p);
          importance = extract_importance (properties_raw m) in
      if importance \<noteq> [] then p1\<lparr>pt_extra := AList.update ''fi.mau.teams.importance'' (JStr importance) (pt_extra p1)\<rparr> else p1)"

definition convert_teams_message ::
  "convert_env \<Rightarrow> remote_message \<Rightarrow> token_world \<Rightarrow> ((go_error + converted) \<times> asked) \<times> token_world" where
  "convert_teams_message env m tw =
     (case convert_content env m tw of
        ((Inl e, as), tw') \<Rightarrow> ((Inl e, as), tw')
      | ((Inr cm, as), tw') \<Rightarrow>
          (let cm1 = apply_forward_header env m cm in ((Inr (cm1\<lparr>cm_parts := map (finish_part m) (cm_parts cm1)\<rparr>), as), tw')))"

section \<open>Edits\<close>

text \<open>The part an edit replaces, its new body and HTML, and the edit time to remember, if the message has one.\<close>

record converted_edit =
  ed_part :: string
  ed_body :: string
  ed_formatted :: string
  ed_time :: "int option"

definition convert_teams_edit :: "string list \<Rightarrow> remote_message \<Rightarrow> go_error + converted_edit" where
  "convert_teams_edit existing m =
     (case existing of
        [] \<Rightarrow> Inl (Plain ''no existing message parts to edit'')
      | first # _ \<Rightarrow>
          (let body = trim_space (msg_body m); at = extract_edit_time (properties_raw m) in
           Inr \<lparr>ed_part = (if ''caption'' \<in> set existing then ''caption'' else first), ed_body = (if body = [] then '' '' else body),
                ed_formatted = trim_space (formatted_body m), ed_time = (if 0 < at then Some at else None)\<rparr>))"

section \<open>No message is dropped\<close>

text \<open>Every part says something: each step gives, and keeps, a body.\<close>

definition speaks :: "converted_part list \<Rightarrow> bool" where
  "speaks ps \<longleftrightarrow> list_all (\<lambda>p. pt_body p \<noteq> []) ps"

lemma speaks_simps [simp]:
  "speaks []" "speaks (p # ps) \<longleftrightarrow> pt_body p \<noteq> [] \<and> speaks ps" "speaks (ps @ qs) \<longleftrightarrow> speaks ps \<and> speaks qs" "speaks (rev ps) \<longleftrightarrow> speaks ps"
  by (auto simp: speaks_def list_all_iff)

lemma speaks_map: "(\<And>p. pt_body (f p) = pt_body p) \<Longrightarrow> speaks (map f ps) \<longleftrightarrow> speaks ps"
  by (simp add: speaks_def list_all_iff)

lemma speaks_update_first: "(\<And>p. pt_body p \<noteq> [] \<Longrightarrow> pt_body (f p) \<noteq> []) \<Longrightarrow> speaks ps \<Longrightarrow> speaks (update_first P f ps)"
  by (induction ps) auto

lemma update_first_empty [simp]: "update_first P f ps = [] \<longleftrightarrow> ps = []"
  by (cases ps) auto

lemma text_part_body [simp]: "pt_body (text_part i t b f x) = b"
  by (simp add: text_part_def)

lemma media_part_body [simp]: "pt_body (media_part i t n mime k up x) \<noteq> []"
  by (auto simp: media_part_def split: prod.split)

lemma apply_pairs_body [simp]: "pt_body (apply_pairs ps us r p) = pt_body p"
  by (simp add: apply_pairs_def Let_def)

lemma apply_mentions_speaks [simp]:
  "speaks (apply_mentions gh self ms ps) \<longleftrightarrow> speaks ps" "apply_mentions gh self ms ps = [] \<longleftrightarrow> ps = []"
  by (auto simp: apply_mentions_def speaks_map split: option.split prod.split)

lemma link_previews_speak [simp]: "speaks ps \<Longrightarrow> speaks (apply_link_previews props ps)" "apply_link_previews props ps = [] \<longleftrightarrow> ps = []"
  by (simp_all add: apply_link_previews_def Let_def speaks_update_first)

lemma fallback_body_nonempty [simp]: "fallback_body f \<noteq> []"
  by (auto simp: fallback_body_def Let_def)

lemma voice_hint_body [simp]: "pt_body (apply_voice_hint n mime p) = pt_body p"
  by (simp add: apply_voice_hint_def Let_def)

lemma add_thumbnail_body: "add_thumbnail mn src att p = (q, as) \<Longrightarrow> pt_body q = pt_body p"
  by (auto simp: add_thumbnail_def Let_def split: prod.splits option.splits sum.splits)

lemma reupload_attachment_body: "reupload_attachment mn src x i att = (Some p, as) \<Longrightarrow> pt_body p \<noteq> []"
  by (auto simp: reupload_attachment_def Let_def split: prod.splits option.splits sum.splits if_splits dest!: add_thumbnail_body)

lemma preview_part_body: "preview_part mn src x i att = (Some p, as) \<Longrightarrow> pt_body p \<noteq> []"
  by (auto simp: preview_part_def Let_def split: prod.splits option.splits sum.splits)

lemma attachments_speak: "reupload_attachments_from mn src x i atts = (ps, fb, as) \<Longrightarrow> speaks ps"
  by (induction atts arbitrary: i ps fb as)
    (auto split: prod.splits option.splits dest: reupload_attachment_body preview_part_body)

lemma inbound_attachments_speak: "reupload_inbound_attachments env mn atts x tw = ((ps, fb, as), tw') \<Longrightarrow> speaks ps"
  by (auto simp: reupload_inbound_attachments_def split: if_splits prod.splits dest: attachments_speak)

lemma inline_image_body: "inline_image_part mn token region x i img = (Some p, as) \<Longrightarrow> pt_body p \<noteq> []"
  by (auto simp: inline_image_part_def Let_def split: sum.splits prod.splits if_splits)

lemma inline_images_speak: "inline_image_parts mn token region x i imgs = (ps, as) \<Longrightarrow> speaks ps"
  by (induction imgs arbitrary: i ps as) (auto split: prod.splits option.splits dest: inline_image_body)

lemma reuploaded_images_speak: "reupload_inline_images mn token region imgs x = (ps, as) \<Longrightarrow> speaks ps"
  by (auto simp: reupload_inline_images_def split: if_splits dest: inline_images_speak)

lemma gif_part_body: "gif_part mn x i g = Some p \<Longrightarrow> pt_body p \<noteq> []"
  by (auto simp: gif_part_def Let_def split: sum.splits prod.splits if_splits)

lemma gif_parts_speak: "gif_parts mn x i gs = (ps, fb, as) \<Longrightarrow> speaks ps"
  by (induction gs arbitrary: i ps fb as) (auto split: prod.splits option.splits dest: gif_part_body)

lemma reuploaded_gifs_speak: "reupload_gifs mn gs x = (ps, fb, as) \<Longrightarrow> speaks ps"
  by (auto simp: reupload_gifs_def split: if_splits dest: gif_parts_speak)

lemma caption_body: "build_caption_part r x = Some p \<Longrightarrow> pt_body p \<noteq> []"
  by (auto simp: build_caption_part_def Let_def split: if_splits)

lemma call_text_nonempty [simp]: "call_text cs \<noteq> []"
  by (simp add: call_text_def with_duration_def Let_def)

lemma sticker_alt: "parse_sticker h = Some (u, alt) \<Longrightarrow> alt \<noteq> []"
  by (auto simp: parse_sticker_def Let_def split: option.splits if_splits)

lemma convert_sticker_body: "convert_sticker mn token region u alt x = (Some p, as) \<Longrightarrow> pt_body p = alt"
  by (auto simp: convert_sticker_def Let_def split: if_splits prod.splits option.splits sum.splits)

lemma convert_legacy_speaks: "cm_parts (convert_legacy env meta m) \<noteq> [] \<and> speaks (cm_parts (convert_legacy env meta m))"
  by (auto simp: convert_legacy_def alone_def with_relations_def unsupported_message_part_def apply_mention_pills_def Let_def split: prod.split)

lemma convert_media_speaks: "convert_media env as m tw = ((cm, asked), tw') \<Longrightarrow> cm_parts cm \<noteq> [] \<and> speaks (cm_parts cm)"
  by (auto simp: convert_media_def alone_def with_relations_def unsupported_message_part_def apply_mention_pills_def Let_def
      split: prod.splits if_splits option.splits
      dest!: inbound_attachments_speak reuploaded_images_speak reuploaded_gifs_speak caption_body)

lemma convert_content_speaks:
  "convert_content env m tw = ((Inr cm, as), tw') \<Longrightarrow> cm_parts cm \<noteq> [] \<and> speaks (cm_parts cm)"
  using convert_legacy_speaks
  by (auto simp: convert_content_def alone_def convert_call_def convert_call_or_meeting_def sticker_of_def Let_def
      split: if_splits option.splits prod.splits dest: convert_media_speaks dest!: convert_sticker_body sticker_alt)

lemma put_header_body [simp]: "pt_body (put_header h p) \<noteq> []"
  by (simp add: put_header_def Let_def)

lemma finish_part_body [simp]: "pt_body (finish_part m p) = pt_body p"
  by (simp add: finish_part_def Let_def)

lemma forward_header_speaks:
  "speaks (cm_parts cm) \<Longrightarrow> speaks (cm_parts (apply_forward_header env m cm))"
  "cm_parts (apply_forward_header env m cm) = [] \<longleftrightarrow> cm_parts cm = []"
  by (auto simp: apply_forward_header_def speaks_update_first split: option.split)

text \<open>C33: No message is dropped.  Converting a message fails only for one Teams has deleted, with the error that says so.
  Every other message, whatever its media, downloads and uploads do, becomes at least one part, and every part has a text.\<close>

theorem message_never_dropped:
  "case fst (fst (convert_teams_message env m tw)) of
     Inl e \<Rightarrow> is_deleted (properties_raw m) \<and> e = deleted_message
   | Inr cm \<Rightarrow> \<not> is_deleted (properties_raw m) \<and> cm_parts cm \<noteq> [] \<and> list_all (\<lambda>p. pt_body p \<noteq> []) (cm_parts cm)"
proof (cases "is_deleted (properties_raw m)")
  case True
  then show ?thesis by (simp add: convert_teams_message_def convert_content_def)
next
  case False
  obtain r as tw' where c: "convert_content env m tw = ((r, as), tw')" by (metis surj_pair)
  then obtain cm where r: "r = Inr cm"
    using False by (auto simp: convert_content_def Let_def split: option.splits prod.splits if_splits)
  have "cm_parts cm \<noteq> []" "speaks (cm_parts cm)" using convert_content_speaks c r by blast+
  then have "speaks (map (finish_part m) (cm_parts (apply_forward_header env m cm)))"
      "cm_parts (apply_forward_header env m cm) \<noteq> []"
    by (simp_all add: speaks_map forward_header_speaks)
  then show ?thesis using False c r by (simp add: convert_teams_message_def speaks_def Let_def)
qed

section \<open>All media are accounted for\<close>

text \<open>A line that begins with a letter keeps its place when the text around it is trimmed.\<close>

lemma strip_front_stops:
  assumes "\<forall>p \<in> set ps. c \<notin> set p"
  shows "\<exists>w. strip ps (u @ c # v) = w @ c # v"
proof (induction "length u" arbitrary: u rule: less_induct)
  case less
  show ?case
  proof (cases "front_pat ps (u @ c # v)")
    case None
    then show ?thesis by (auto simp: strip_clean)
  next
    case (Some p)
    then have p: "p \<noteq> []" "prefix p (u @ c # v)" "c \<notin> set p" using front_pat_Some assms by fast+
    then have "prefix p u"
      using p(2,3) by (auto simp: prefix_append prefix_Cons)
    then obtain u' where u: "u = p @ u'" by (auto simp: prefix_def)
    from less [of u'] obtain w where "strip ps (u' @ c # v) = w @ c # v" using p(1) u by auto
    then show ?thesis using Some u by (subst strip.simps) auto
  qed
qed

text \<open>Behind the line there is nothing, or a newline, which no other pattern contains.\<close>

lemma strip_back_stops:
  assumes "\<forall>p \<in> set ps. n \<in> set p \<longrightarrow> p = [n]" and "z = [] \<or> last z = n"
  shows "strip ps (z @ a) = strip ps a \<or> (\<exists>w. strip ps (z @ a) = w @ a)"
  using assms(2)
proof (induction "length z" arbitrary: z rule: less_induct)
  case less
  show ?case
  proof (cases "z = [] \<or> front_pat ps (z @ a) = None")
    case True
    then show ?thesis by (auto simp: strip_clean)
  next
    case False
    then obtain p where f: "front_pat ps (z @ a) = Some p" and z: "z \<noteq> []" "last z = n" using less.prems by auto
    then have p: "p \<noteq> []" "prefix p (z @ a)" "n \<in> set p \<longrightarrow> p = [n]" using front_pat_Some assms(1) by fast+
    have "prefix p z"
    proof (rule ccontr)
      assume "\<not> prefix p z"
      with p(2) obtain q where q: "p = z @ q" "q \<noteq> []" by (auto simp: prefix_append)
      then have "n \<in> set p" using z by auto
      with p(3) q z(1) show False by (cases z) auto
    qed
    then obtain z' where z': "z = p @ z'" by (auto simp: prefix_def)
    have "z' = [] \<or> last z' = n" using z(2) z' by (cases "z' = []") (auto simp: last_append)
    from less.hyps [OF _ this] have "strip ps (z' @ a) = strip ps a \<or> (\<exists>w. strip ps (z' @ a) = w @ a)" using p(1) z' by simp
    then show ?thesis using f z' by (subst (1 3) strip.simps) auto
  qed
qed

text \<open>A long enough rest is stripped as it is alone.\<close>

lemma strip_long:
  assumes "\<forall>p \<in> set ps. length p \<le> k" and "k \<le> length (strip ps a)"
  shows "strip ps (a @ b) = strip ps a @ b"
  using assms
proof (induction ps a rule: strip.induct)
  case (1 ps a)
  have "length (strip ps a) \<le> length a" using strip_suffix suffix_length_le by blast
  with 1 have len: "\<forall>p \<in> set ps. length p \<le> length a" by fastforce
  have same: "front_pat ps (a @ b) = front_pat ps a"
    unfolding front_pat_def
  proof (rule find_cong [OF refl])
    fix p assume "p \<in> set ps"
    then have "length p \<le> length a" using len by blast
    then show "(p \<noteq> [] \<and> prefix p (a @ b)) = (p \<noteq> [] \<and> prefix p a)"
      by (metis prefix_append prefix_length_le prefix_length_prefix prefix_order.trans prefixI)
  qed
  show ?case
  proof (cases "front_pat ps a")
    case None
    then show ?thesis using same by (simp add: strip_clean)
  next
    case (Some p)
    then have "prefix p a" using front_pat_Some by fast
    moreover have "strip ps (drop (length p) a @ b) = strip ps (drop (length p) a) @ b"
    proof (rule "1.IH" [OF Some])
      show "\<forall>p \<in> set ps. length p \<le> k" by (rule "1.prems"(1))
      show "k \<le> length (strip ps (drop (length p) a))" using "1.prems"(2) Some by (subst (asm) strip.simps) simp
    qed
    ultimately show ?thesis using same Some by (subst (1 2) strip.simps) (simp add: prefix_length_le)
  qed
qed


definition short_space :: "string \<Rightarrow> bool" where
  "short_space p \<longleftrightarrow> length p \<le> 3 \<and> list_all (\<lambda>c. (of_char c :: nat) < 33 \<or> 128 \<le> (of_char c :: nat)) p \<and> (CHR 0x0A \<in> set p \<longrightarrow> p = nl)"

lemma go_spaces_short: "list_all short_space go_spaces"
  by code_simp

lemma trim_keeps_line:
  assumes "z = [] \<or> hd z = CHR 0x0A" and "33 \<le> (of_char c :: nat)" "(of_char c :: nat) < 128" and "3 \<le> length (trim_right (c # l))"
  shows "sublist (trim_right (c # l)) (trim_space (u @ c # l @ z))"
proof -
  have sp: "short_space p" if "p \<in> set go_spaces" for p using go_spaces_short that by (simp add: list_all_iff)
  have "c \<notin> set p" if "p \<in> set go_spaces" for p using sp [OF that] assms(2,3) by (auto simp: short_space_def list_all_iff)
  then obtain w where left: "trim_left (u @ c # l @ z) = w @ (c # l) @ z"
    using strip_front_stops [of go_spaces c u "l @ z"] by (auto simp: trim_left_def)
  let ?ps = "map rev go_spaces" and ?a = "rev (c # l)"
  have nl: "\<forall>p \<in> set ?ps. CHR 0x0A \<in> set p \<longrightarrow> p = nl" using sp by (fastforce simp: short_space_def)
  have "rev z = [] \<or> last (rev z) = CHR 0x0A" using assms(1) by (auto simp: last_rev)
  from strip_back_stops [OF nl this, of "?a @ rev w"]
  consider (all) "strip ?ps (rev z @ ?a @ rev w) = strip ?ps (?a @ rev w)" | (some) v where "strip ?ps (rev z @ ?a @ rev w) = v @ ?a @ rev w"
    by blast
  then show ?thesis
  proof cases
    case all
    have "\<forall>p \<in> set ?ps. length p \<le> 3" using sp by (auto simp: short_space_def)
    moreover have "3 \<le> length (strip ?ps ?a)" using assms(4) by (simp add: trim_right_def)
    ultimately have "strip ?ps (?a @ rev w) = strip ?ps ?a @ rev w" by (rule strip_long)
    with all have "trim_space (u @ c # l @ z) = w @ trim_right (c # l)"
      unfolding trim_space_def left by (simp add: trim_right_def)
    then show ?thesis by (simp add: sublist_def) (metis append_Nil2)
  next
    case some
    then have "trim_space (u @ c # l @ z) = w @ (c # l) @ rev v"
      unfolding trim_space_def left by (simp add: trim_right_def)
    moreover obtain zs where "c # l = trim_right (c # l) @ zs" using trim_right_prefix [of "c # l"] by (auto simp: prefix_def)
    ultimately have "trim_space (u @ c # l @ z) = w @ trim_right (c # l) @ zs @ rev v" by (metis append.assoc)
    then show ?thesis unfolding sublist_def by blast
  qed
qed


lemma join_with_part:
  "x \<in> set xs \<Longrightarrow> \<exists>u z. join_with sep xs = u @ x @ z \<and> (z = [] \<or> (\<exists>z'. z = sep @ z'))"
proof (induction xs rule: induct_list012)
  case (2 y)
  then show ?case by (intro exI [of _ "[]"]) simp
next
  case (3 y1 y2 ys)
  show ?case
  proof (cases "x = y1")
    case True
    then show ?thesis by (intro exI [of _ "[]"] exI [of _ "sep @ join_with sep (y2 # ys)"]) simp
  next
    case False
    then obtain u z where "join_with sep (y2 # ys) = u @ x @ z" "z = [] \<or> (\<exists>z'. z = sep @ z')" using 3 by auto
    then show ?thesis by (intro exI [of _ "y1 @ sep @ u"] exI [of _ z]) simp
  qed
qed simp

text \<open>A line of a section of the rendered body.\<close>

lemma rendered_line:
  assumes "line \<in> set lines" and "join_with nl lines \<in> set sections" and "line = c # l"
    and "33 \<le> (of_char c :: nat)" "(of_char c :: nat) < 128" and "3 \<le> length (trim_right line)"
  shows "sublist (trim_right line) (trim_space (join_with (nl @ nl) sections))"
proof -
  obtain u1 z1 where 1: "join_with nl lines = u1 @ line @ z1" "z1 = [] \<or> (\<exists>z'. z1 = nl @ z')"
    using join_with_part [OF assms(1)] by blast
  obtain u2 z2 where 2: "join_with (nl @ nl) sections = u2 @ join_with nl lines @ z2" "z2 = [] \<or> (\<exists>z'. z2 = (nl @ nl) @ z')"
    using join_with_part [OF assms(2)] by blast
  have "z1 @ z2 = [] \<or> hd (z1 @ z2) = CHR 0x0A" using 1(2) 2(2) by auto
  from trim_keeps_line [OF this assms(4,5), of l "u2 @ u1"] show ?thesis
    using 1(1) 2(1) assms(3,6) by simp
qed

text \<open>A link line is longer than its own trimming can take away.\<close>

lemma trim_right_keeps: "33 \<le> (of_char c :: nat) \<Longrightarrow> (of_char c :: nat) < 128 \<Longrightarrow> \<exists>w. trim_right (u @ c # v) = u @ c # w"
proof -
  assume c: "33 \<le> (of_char c :: nat)" "(of_char c :: nat) < 128"
  have "list_all short_space go_spaces" by (rule go_spaces_short)
  then have "\<forall>p \<in> set (map rev go_spaces). c \<notin> set p" using c by (fastforce simp: list_all_iff short_space_def)
  from strip_front_stops [OF this, of "rev v" "rev u"] obtain w where "strip (map rev go_spaces) (rev v @ c # rev u) = w @ c # rev u" by blast
  then show ?thesis by (auto simp: trim_right_def)
qed

lemma rendered_sections:
  "\<exists>ss. fst (render_inbound_message b f as gs) = (if as = [] \<and> gs = [] then trim_space b else join_with (nl @ nl) ss) \<and>
     (as \<noteq> [] \<longrightarrow> join_with nl (map attachment_line as) \<in> set ss) \<and> (gs \<noteq> [] \<longrightarrow> join_with nl (map gif_line gs) \<in> set ss)"
  unfolding render_inbound_message_def Let_def render_attachment_body_def render_gif_body_def
  by (intro exI [of _ "(if trim_space b \<noteq> [] then [trim_space b] else []) @ (if as \<noteq> [] then [join_with nl (map attachment_line as)] else []) @
               (if gs \<noteq> [] then [join_with nl (map gif_line gs)] else [])"]) simp

lemma attachment_line_shown:
  assumes "a \<in> set as"
  shows "sublist (trim_right (attachment_line a)) (trim_space (fst (render_inbound_message b f as gs)))"
proof -
  have "\<exists>w. trim_right (attachment_line a) = ''Attachment'' @ CHR '':'' # w"
    using trim_right_keeps [of "CHR '':''" "''Attachment''"] by (simp add: attachment_line_def)
  then have long: "3 \<le> length (trim_right (attachment_line a))" by auto
  have some: "as \<noteq> []" using assms by auto
  then obtain ss where ss: "fst (render_inbound_message b f as gs) = join_with (nl @ nl) ss" "join_with nl (map attachment_line as) \<in> set ss"
    using rendered_sections [of b f as gs] by auto
  show ?thesis
    unfolding ss(1)
    by (rule rendered_line [where lines = "map attachment_line as" and c = "CHR ''A''", OF _ ss(2) _ _ _ long])
      (use assms in \<open>auto simp: attachment_line_def\<close>)
qed

lemma gif_line_shown:
  assumes "g \<in> set gs"
  shows "sublist (trim_right (gif_line g)) (trim_space (fst (render_inbound_message b f as gs)))"
proof -
  have "\<exists>w. trim_right (gif_line g) = ''GIF'' @ CHR '':'' # w"
    using trim_right_keeps [of "CHR '':''" "''GIF''"] by (simp add: gif_line_def)
  then have long: "3 \<le> length (trim_right (gif_line g))" by auto
  have some: "gs \<noteq> []" using assms by auto
  then obtain ss where ss: "fst (render_inbound_message b f as gs) = join_with (nl @ nl) ss" "join_with nl (map gif_line gs) \<in> set ss"
    using rendered_sections [of b f as gs] by auto
  show ?thesis
    unfolding ss(1)
    by (rule rendered_line [where lines = "map gif_line gs" and c = "CHR ''G''", OF _ ss(2) _ _ _ long])
      (use assms in \<open>auto simp: gif_line_def\<close>)
qed

text \<open>Each attachment has its part or is linked, and each GIF.\<close>

lemma text_part_id [simp]: "pt_id (text_part i t b f x) = i"
  by (simp add: text_part_def)

lemma media_part_id [simp]: "pt_id (media_part i t n mime k up x) = i"
  by (auto simp: media_part_def split: prod.split)

lemma voice_hint_id [simp]: "pt_id (apply_voice_hint n mime p) = pt_id p"
  by (simp add: apply_voice_hint_def Let_def)

lemma add_thumbnail_id: "add_thumbnail mn src att p = (q, as) \<Longrightarrow> pt_id q = pt_id p"
  by (auto simp: add_thumbnail_def Let_def split: prod.splits option.splits sum.splits)

lemma reupload_attachment_id: "reupload_attachment mn src x i att = (Some p, as) \<Longrightarrow> pt_id p = i"
  by (auto simp: reupload_attachment_def Let_def split: prod.splits option.splits sum.splits if_splits dest!: add_thumbnail_id)

lemma gif_part_id: "gif_part mn x i g = Some p \<Longrightarrow> pt_id p = ''gif_'' @ show_nat i"
  by (auto simp: gif_part_def Let_def split: sum.splits prod.splits if_splits)

lemma attachments_kept:
  "reupload_attachments_from mn src x i atts = (ps, fb, as) \<Longrightarrow> j < length atts \<Longrightarrow>
     ''att_'' @ show_nat (i + j) \<in> pt_id ` set ps \<or> atts ! j \<in> set fb"
proof (induction atts arbitrary: i j ps fb as)
  case (Cons att atts)
  obtain ps1 fb1 as1 where rest: "reupload_attachments_from mn src x (Suc i) atts = (ps1, fb1, as1)" by (metis surj_pair)
  obtain r a where this_one: "reupload_attachment mn src x (''att_'' @ show_nat i) att = (r, a)" by force
  have sub: "set ps1 \<subseteq> set ps" "set fb1 \<subseteq> set fb"
    using Cons.prems(1) rest this_one by (auto split: option.splits prod.splits)
  show ?case
  proof (cases j)
    case 0
    then show ?thesis
      using Cons.prems(1) rest this_one by (auto split: option.splits prod.splits dest!: reupload_attachment_id)
  next
    case (Suc k)
    then show ?thesis using Cons.IH [OF rest, of k] Cons.prems(2) sub by auto
  qed
qed simp

lemma gifs_kept:
  "gif_parts mn x i gs = (ps, fb, as) \<Longrightarrow> j < length gs \<Longrightarrow> ''gif_'' @ show_nat (i + j) \<in> pt_id ` set ps \<or> gs ! j \<in> set fb"
proof (induction gs arbitrary: i j ps fb as)
  case (Cons g gs)
  obtain ps1 fb1 as1 where rest: "gif_parts mn x (Suc i) gs = (ps1, fb1, as1)" by (metis surj_pair)
  have sub: "set ps1 \<subseteq> set ps" "set fb1 \<subseteq> set fb"
    using Cons.prems(1) rest by (auto split: option.splits prod.splits)
  show ?case
  proof (cases j)
    case 0
    then show ?thesis using Cons.prems(1) rest by (auto split: option.splits prod.splits dest!: gif_part_id)
  next
    case (Suc k)
    then show ?thesis using Cons.IH [OF rest, of k] Cons.prems(2) sub by auto
  qed
qed simp

text \<open>What the last steps keep of a part: its ID and its body.\<close>

definition faces :: "converted_part list \<Rightarrow> (string \<times> string) list" where
  "faces ps = map (\<lambda>p. (pt_id p, pt_body p)) ps"

lemma face_in: "p \<in> set ps \<Longrightarrow> (pt_id p, pt_body p) \<in> set (faces ps)"
  by (auto simp: faces_def)

lemma faces_map: "(\<And>p. pt_id (f p) = pt_id p \<and> pt_body (f p) = pt_body p) \<Longrightarrow> faces (map f ps) = faces ps"
  by (simp add: faces_def)

lemma faces_update_first: "(\<And>p. pt_id (f p) = pt_id p \<and> pt_body (f p) = pt_body p) \<Longrightarrow> faces (update_first P f ps) = faces ps"
  by (induction ps) (auto simp: faces_def)

lemma apply_pairs_id [simp]: "pt_id (apply_pairs ps us r p) = pt_id p"
  by (simp add: apply_pairs_def Let_def)

lemma faces_mentions [simp]: "faces (apply_mentions gh self ms ps) = faces ps"
  by (auto simp: apply_mentions_def faces_map split: option.split prod.split)

lemma faces_rev: "faces (rev ps) = rev (faces ps)"
  by (simp add: faces_def rev_map)

lemma faces_previews [simp]: "faces (apply_link_previews props ps) = faces ps"
  by (simp add: apply_link_previews_def Let_def faces_rev faces_update_first)

definition has_part :: "string \<Rightarrow> converted \<Rightarrow> bool" where
  "has_part i cm \<longleftrightarrow> list_ex (\<lambda>p. pt_id p = i) (cm_parts cm)"

definition caption_says :: "string \<Rightarrow> converted \<Rightarrow> bool" where
  "caption_says line cm \<longleftrightarrow> list_ex (\<lambda>p. pt_id p = ''caption'' \<and> sublist (trim_right line) (pt_body p)) (cm_parts cm)"

lemma list_ex_faces: "list_ex (\<lambda>p. P (pt_id p) (pt_body p)) ps \<longleftrightarrow> (\<exists>(i, b) \<in> set (faces ps). P i b)"
  by (auto simp: list_ex_iff faces_def)

text \<open>C34: Media are bridged or named in the caption, with their link if they have one.  When a message with media is
  converted, then for each of its attachments there is a part with the attachment's number, or the caption has the line
  "Attachment: " with its file name and, unless its sharing link is blank, " - " and that link; an attachment that is not bridged and has
  no sharing link is only named.  For each of its GIFs there is a part with its number, or the caption has the line
  "GIF: " with its title, " - " and its address.  This holds whatever downloads and uploads fail
  (lines are without the spaces at their end, which the trimming of the caption may take away).\<close>

theorem media_bridged_or_linked:
  assumes "convert_media env atts m tw = ((cm, asked), tw')"
  shows "(\<forall>i < length atts. has_part (''att_'' @ show_nat i) cm \<or>
      caption_says (''Attachment: '' @ ta_filename (atts ! i) @
        (if trim_space (ta_share_url (atts ! i)) = [] then [] else '' - '' @ ta_share_url (atts ! i))) cm) \<and>
    (\<forall>i < length (msg_gifs m). has_part (''gif_'' @ show_nat i) cm \<or>
      caption_says (''GIF: '' @ gif_title (msg_gifs m ! i) @ '' - '' @ gif_url (msg_gifs m ! i)) cm)"
proof -
  let ?mn = "cv_media env" and ?x = "per_message_extra m"
  obtain files fb a1 tw1 where files: "reupload_inbound_attachments (cv_tokens env) ?mn atts ?x tw = ((files, fb, a1), tw1)" by (metis surj_pair)
  obtain images a2 where images: "reupload_inline_images ?mn (lm_skype (tw_meta tw1)) (trim_space (lm_ams_url (tw_meta tw1))) (inline_images m) ?x = (images, a2)"
    by force
  obtain gifs linked a3 where gifs: "reupload_gifs ?mn (msg_gifs m) ?x = (gifs, linked, a3)" by (metis surj_pair)
  let ?r = "render_inbound_message (msg_body m) (formatted_body m) fb linked"
  let ?parts = "files @ images @ gifs @ (case build_caption_part ?r ?x of Some p \<Rightarrow> [p] | None \<Rightarrow> [])"
  have cm: "?parts \<noteq> [] \<Longrightarrow> set (faces (cm_parts cm)) = set (faces ?parts)"
    using assms files images gifs by (auto simp: convert_media_def with_relations_def apply_mention_pills_def Let_def)
  have says: "caption_says line cm" if "sublist (trim_right line) (trim_space (fst ?r))" and "trim_right line \<noteq> []" for line
  proof -
    have b: "trim_space (fst ?r) \<noteq> []" using that by auto
    then have "build_caption_part ?r ?x = Some (text_part ''caption'' M_Text (trim_space (fst ?r)) (trim_space (snd ?r)) ?x)"
      by (simp add: build_caption_part_def Let_def)
    then have "(''caption'', trim_space (fst ?r)) \<in> set (faces (cm_parts cm))" by (subst cm) (auto simp: faces_def)
    then show ?thesis using that(1)
      unfolding caption_says_def list_ex_faces [where P = "\<lambda>i b. i = ''caption'' \<and> sublist (trim_right line) b"] by blast
  qed
  have has: "has_part i cm" if "i \<in> pt_id ` set (files @ gifs)" for i
  proof -
    from that obtain p where p: "p \<in> set ?parts" "i = pt_id p" by auto
    then have "(i, pt_body p) \<in> set (faces ?parts)" using face_in by blast
    moreover have "?parts \<noteq> []" using p(1) by (metis empty_iff empty_set)
    ultimately show ?thesis
      unfolding has_part_def list_ex_faces [where P = "\<lambda>j b. j = i"] using cm by blast
  qed
  have a: "''att_'' @ show_nat i \<in> pt_id ` set files \<or> atts ! i \<in> set fb" if "i < length atts" for i
    using files that attachments_kept [where i = 0 and j = i]
    by (auto simp: reupload_inbound_attachments_def split: if_splits prod.splits)
  have g: "''gif_'' @ show_nat i \<in> pt_id ` set gifs \<or> msg_gifs m ! i \<in> set linked" if "i < length (msg_gifs m)" for i
    using gifs that gifs_kept [where i = 0 and j = i] by (auto simp: reupload_gifs_def split: if_splits)
  have "\<exists>w. trim_right (attachment_line y) = ''Attachment'' @ CHR '':'' # w" for y
    using trim_right_keeps [of "CHR '':''" "''Attachment''"] by (simp add: attachment_line_def)
  then have an: "trim_right (attachment_line y) \<noteq> []" for y by (metis append_is_Nil_conv list.distinct(1))
  have "\<exists>w. trim_right (gif_line y) = ''GIF'' @ CHR '':'' # w" for y
    using trim_right_keeps [of "CHR '':''" "''GIF''"] by (simp add: gif_line_def)
  then have gn: "trim_right (gif_line y) \<noteq> []" for y by (metis append_is_Nil_conv list.distinct(1))
  have "(\<forall>i < length atts. has_part (''att_'' @ show_nat i) cm \<or> caption_says (attachment_line (atts ! i)) cm) \<and>
    (\<forall>i < length (msg_gifs m). has_part (''gif_'' @ show_nat i) cm \<or> caption_says (gif_line (msg_gifs m ! i)) cm)"
  proof (intro conjI allI impI)
    fix i assume "i < length atts"
    from a [OF this] show "has_part (''att_'' @ show_nat i) cm \<or> caption_says (attachment_line (atts ! i)) cm"
      using has [of "''att_'' @ show_nat i"] says [OF attachment_line_shown an] unfolding set_append image_Un by blast
  next
    fix i assume "i < length (msg_gifs m)"
    from g [OF this] show "has_part (''gif_'' @ show_nat i) cm \<or> caption_says (gif_line (msg_gifs m ! i)) cm"
      using has [of "''gif_'' @ show_nat i"] says [OF gif_line_shown gn] unfolding set_append image_Un by blast
  qed
  then show ?thesis unfolding attachment_line_def gif_line_def .
qed

section \<open>Where the Skype token goes\<close>

text \<open>A host of Teams' media store, or the one of the regional address.\<close>

definition media_store_host :: "url_lib \<Rightarrow> string \<Rightarrow> parsed_url \<Rightarrow> bool" where
  "media_store_host ul region u \<longleftrightarrow>
     (let host = to_lower (hostname (pu_host u)) in
      (\<exists>r. ul_parse ul region = Some r \<and> hostname (pu_host r) \<noteq> [] \<and> equal_fold host (hostname (pu_host r))) \<or>
      suffix ''.asm.skype.com'' host \<or> suffix ''.asyncgw.teams.microsoft.com'' host \<or> suffix ''.teams.microsoft.com'' host)"

lemma ams_host: "is_ams_url ul url region \<Longrightarrow> \<exists>u. ul_parse ul (trim_space url) = Some u \<and> media_store_host ul region u"
  by (auto simp: is_ams_url_def media_store_host_def Let_def split: option.splits)

lemma inline_image_asked:
  "(url, auth) \<in> set (snd (inline_image_part mn token region x i img)) \<Longrightarrow> auth = [] \<or>
     auth = skype_authorization token \<and> is_ams_url (mn_urls mn) (img_url img) region \<and> url = regional (mn_urls mn) (img_url img) region"
  by (auto simp: inline_image_part_def Let_def split: if_splits)

lemma inline_images_asked:
  "(url, auth) \<in> set (snd (inline_image_parts mn token region x i imgs)) \<Longrightarrow> auth = [] \<or>
     auth = skype_authorization token \<and>
     (\<exists>img \<in> set imgs. is_ams_url (mn_urls mn) (img_url img) region \<and> url = regional (mn_urls mn) (img_url img) region)"
proof (induction imgs arbitrary: i)
  case (Cons img imgs)
  from Cons.prems have "(url, auth) \<in> set (snd (inline_image_part mn token region x i img)) \<or>
      (url, auth) \<in> set (snd (inline_image_parts mn token region x (Suc i) imgs))"
    by (auto split: prod.splits)
  then show ?case using inline_image_asked Cons.IH by fastforce
qed simp

lemma gifs_asked: "(url, auth) \<in> set (snd (snd (gif_parts mn x i gs))) \<Longrightarrow> auth = []"
proof (induction gs arbitrary: i)
  case (Cons g gs)
  then show ?case
    using Cons.IH [of "Suc i"] by (cases "gif_parts mn x (Suc i) gs"; cases "gif_part mn x i g") auto
qed simp

text \<open>C35: The images in a message do not get the Skype token away.  Whenever the bridge sends an \<open>Authorization\<close> with the download
  of an inline image or a GIF, it is that of the user's Skype token, it is for an inline image, and the address
  either is the image's own, with a host of Teams' media store, or it has the host of the tenant's regional address.\<close>

theorem image_token_stays:
  assumes "(url, auth) \<in> set (snd (reupload_inline_images mn token region imgs x)) \<union> set (snd (snd (reupload_gifs mn gifs x)))"
    and "auth \<noteq> []"
  shows "auth = skype_authorization (trim_space token) \<and>
    (\<exists>img \<in> set imgs. (url = img_url img \<and> (\<exists>u. ul_parse (mn_urls mn) (trim_space url) = Some u \<and> media_store_host (mn_urls mn) region u)) \<or>
       (\<exists>u r. ul_parse (mn_urls mn) (img_url img) = Some u \<and> ul_parse (mn_urls mn) region = Some r \<and>
          url = ul_string (mn_urls mn) (u\<lparr>pu_scheme := pu_scheme r, pu_host := pu_host r\<rparr>)))"
proof -
  have "(url, auth) \<in> set (snd (inline_image_parts mn (trim_space token) region x 0 imgs))"
    using assms by (auto simp: reupload_inline_images_def reupload_gifs_def dest: gifs_asked split: if_splits)
  from inline_images_asked [OF this] assms(2) obtain img where a: "auth = skype_authorization (trim_space token)"
    and img: "img \<in> set imgs" "is_ams_url (mn_urls mn) (img_url img) region" "url = regional (mn_urls mn) (img_url img) region"
    by blast
  have "url = img_url img \<or> (\<exists>u r. ul_parse (mn_urls mn) (img_url img) = Some u \<and> ul_parse (mn_urls mn) region = Some r \<and>
          url = ul_string (mn_urls mn) (u\<lparr>pu_scheme := pu_scheme r, pu_host := pu_host r\<rparr>))"
    using img(3) by (auto simp: regional_def rewrite_ams_url_def split: if_splits option.splits)
  then show ?thesis using a img ams_host [OF img(2)] by blast
qed

text \<open>C36: A sticker or an attachment can get the Skype token away.  Without a regional address (a consumer account), the bridge
  sends the Skype token to the very address of any sticker that contains \<open>ams\<close> anywhere, on whatever host, and to the
  address of any attachment that has no drive item and that Graph does not give; the address comes with the message, and neither
  needs to be one of the media store.\<close>

theorem token_leaves_teams:
  assumes "mn_http mn" and "trim_space url = url" and "url \<noteq> []" and "sublist ''ams'' url"
    and "as_ams src = Some (token, [])" and "trim_space (ta_drive_item att) = []" and "trim_space (ta_download_url att) = url"
    and "as_graph_token src = None \<or> trim_space (ta_share_url att) = []"
  shows "(url, skype_authorization (trim_space token)) \<in> set (snd (convert_sticker mn token [] url alt x)) \<and>
    (url, skype_authorization token) \<in> set (snd (fetch_attachment mn src att))"
proof
  have asked: "(u, a) \<in> set (snd (some_data (r, [(u, a)])))" for u a and r :: "go_error + string \<times> string"
    by (auto simp: some_data_def split: sum.split)
  have first: "y \<in> set (snd (or_else r r'))" if "y \<in> set (snd r)" for y and r r' :: "'b option \<times> asked"
    using that by (auto simp: or_else_def split: prod.split option.split)
  have second: "y \<in> set (snd (or_else (None, []) r))" if "y \<in> set (snd r)" for y and r :: "'b option \<times> asked"
    using that by (simp add: or_else_def)
  have "(url, skype_authorization (trim_space token)) \<in> set (snd (fetch_sticker mn (trim_space token) [] url))"
    unfolding fetch_sticker_def by (rule first) (simp add: sticker_from_ams_def assms(4) regional_def asked)
  moreover have "snd (convert_sticker mn token [] url alt x) = snd (fetch_sticker mn (trim_space token) [] url)"
    using assms(1-3) by (auto simp: convert_sticker_def Let_def split: prod.split option.split)
  ultimately show "(url, skype_authorization (trim_space token)) \<in> set (snd (convert_sticker mn token [] url alt x))" by simp
  have "(url, skype_authorization token) \<in> set (snd (fetch_via_ams mn (as_ams src) att))"
    using assms(3,5-7) by (simp add: fetch_via_ams_def regional_def asked)
  then show "(url, skype_authorization token) \<in> set (snd (fetch_attachment mn src att))"
    using assms(6,8) by (auto simp: fetch_attachment_def Let_def split: option.split intro!: second)
qed


section \<open>Messages that lose something\<close>

text \<open>C37: A message with the link of a meeting is only its link.  A message that is not deleted and records no call, with an
  address that begins as the link of a meeting anywhere in its text, becomes one notice with that address, whoever
  wrote it: its own text, its media, its mentions and its place in a thread are not bridged.\<close>

theorem meeting_link_takes_over:
  assumes "\<not> is_deleted (properties_raw m)" and "call_of_message (cv_calls env) (lm_user_id (tw_meta tw)) (with_post_subject m) = None"
    and "\<not> prefix ''event/call'' (to_lower (message_type m))"
    and "extract_meeting_join_url (msg_body (with_post_subject m)) = url" and "url \<noteq> []"
  shows "\<exists>p. convert_content env m tw = ((Inr \<lparr>cm_parts = [p], cm_thread_root = None, cm_reply_to = None\<rparr>, []), tw) \<and>
    pt_type p = M_Notice \<and> pt_body p = ''Meeting: '' @ url \<and> pt_media p = None \<and> pt_users p = []"
proof -
  have "message_type (with_post_subject m) = message_type m" by (simp add: with_post_subject_def Let_def)
  then show ?thesis
    using assms by (auto simp: convert_content_def convert_call_def convert_call_or_meeting_def alone_def text_part_def Let_def)
qed

text \<open>An edit of a channel post takes the title off that the post was bridged with.\<close>

lemma edit_without_title:
  assumes "extract_subject (properties_raw m) \<noteq> []" and "trim_space (formatted_body m) \<noteq> []" and "convert_teams_edit parts m = Inr e"
  shows "formatted_body (with_post_subject m) =
    ''<strong>'' @ html_escape (extract_subject (properties_raw m)) @ ''</strong><br><br>'' @ ed_formatted e"
  using assms by (auto simp: with_post_subject_def convert_teams_edit_def Let_def split: list.splits)

text \<open>The name of a mention is replaced inside the tags of a message too, which breaks them.\<close>

definition pill_example :: converted_part where
  "pill_example = text_part [] M_Text ''Max'' (''<a href='' @ quoted ''https://h/Max'' @ ''>x</a>'') []"

lemma pill_breaks_link:
  "map pt_formatted (apply_mentions (Some (\<lambda>_. ''@g:x'')) \<lparr>self_teams = [], self_mxid = [], self_sender = False\<rparr>
     [\<lparr>mention_user_id = ''8:max'', mention_display_name = ''Max'', mention_item_id = ''0''\<rparr>] [pill_example]) =
   [''<a href='' @ [CHR 0x22] @ ''https://h/'' @ ''<a href='' @ quoted ''https://matrix.to/#/@g:x'' @ ''>@Max</a>'' @ [CHR 0x22] @ ''>x</a>'']"
proof -
  have trims: "trim_space ''8:max'' = ''8:max''" "trim_space ''Max'' = ''Max''"
    by (simp_all add: trim_space_plain plain_ends_def)
  have escapes: "html_escape ''Max'' = ''Max''" "html_escape ''@g:x'' = ''@g:x''" "replace_all nbsp '' '' ''Max'' = ''Max''" by code_simp+
  have pills: "mention_plan (\<lambda>_. ''@g:x'') \<lparr>self_teams = [], self_mxid = [], self_sender = False\<rparr>
      [\<lparr>mention_user_id = ''8:max'', mention_display_name = ''Max'', mention_item_id = ''0''\<rparr>] =
      ([(''Max'', ''<a href='' @ quoted ''https://matrix.to/#/@g:x'' @ ''>@Max</a>'')], [''@g:x''], False)"
    by (simp add: trims escapes mention_replacement_def is_teams_user_mri_def quoted_def nbsp_def Let_def)
  have one: "group_split_mentions [] [m] = [m]" for m by simp
  show ?thesis
    unfolding apply_mentions_def option.case one pills prod.case by code_simp
qed

section \<open>Examples\<close>

definition example_media_net :: media_net where
  "example_media_net = \<lparr>mn_http = True,
     mn_urls = \<lparr>ul_parse = (\<lambda>s. Some \<lparr>pu_scheme = ''https'', pu_host = (if s = [] then [] else if sublist ''asm'' s then ''eu-api.asm.skype.com'' else ''evil.example''),
       pu_path = s, pu_rest = []\<rparr>), ul_string = pu_path\<rparr>,
     mn_get = (\<lambda>_ _. Inl Canceled), mn_sniff = (\<lambda>_. []), mn_type_of_ext = (\<lambda>_. []), mn_upload = (\<lambda>_ _ _. Inl Canceled),
     mn_graph = (\<lambda>_. busy_once), mn_graph_type = (\<lambda>_. []), mn_graph_read = (\<lambda>_. None), mn_retry_after = (\<lambda>_. 0)\<rparr>"

definition example_convert :: convert_env where
  "example_convert = \<lparr>cv_media = example_media_net\<lparr>mn_http := False\<rparr>, cv_tokens = example_tokens, cv_intent = True, cv_parse = (\<lambda>_. None),
     cv_calls = \<lparr>ca_xml = \<lambda>_. None, ca_parse = \<lambda>_. None, ca_time = \<lambda>_. None\<rparr>, cv_ghosts = None, cv_login_mxid = ''@me:x'', cv_portal = ''19:g'',
     cv_profile = (\<lambda>_. None), cv_ghost_name = (\<lambda>_. None), cv_room_name = (\<lambda>_. []), cv_time = (\<lambda>_. None), cv_year = 2024\<rparr>"

definition example_att :: teams_attachment where
  "example_att = \<lparr>ta_filename = ''n.txt'', ta_drive_item = [], ta_share_url = ''https://s/n'', ta_download_url = ''https://evil.example/teams'', ta_file_type = []\<rparr>"

theorem media_bridged_or_linked_witness:
  "\<exists>cm asked tw'. convert_media example_convert [example_att] blank_message example_login = ((cm, asked), tw') \<and>
     (has_part ''att_0'' cm \<or> caption_says ''Attachment: n.txt - https://s/n'' cm)"
proof -
  obtain cm asked tw' where c: "convert_media example_convert [example_att] blank_message example_login = ((cm, asked), tw')" by (metis surj_pair)
  have "trim_space (ta_share_url example_att) \<noteq> []" "show_nat 0 = ''0''" by code_simp+
  moreover have "ta_filename example_att = ''n.txt''" "ta_share_url example_att = ''https://s/n''" by (simp_all add: example_att_def)
  ultimately have "has_part ''att_0'' cm \<or> caption_says ''Attachment: n.txt - https://s/n'' cm"
    using conjunct1 [OF media_bridged_or_linked [OF c], rule_format, of 0] by simp
  then show ?thesis using c by blast
qed

theorem image_token_stays_witness:
  "\<exists>url auth. (url, auth) \<in> set (snd (reupload_inline_images example_media_net ''K'' [] [\<lparr>img_url = ''https://eu-api.asm.skype.com/o'', img_alt = []\<rparr>] [])) \<and>
     auth = skype_authorization (trim_space ''K'')"
proof -
  let ?img = "\<lparr>img_url = ''https://eu-api.asm.skype.com/o'', img_alt = []\<rparr>"
  have "trim_space ''https://eu-api.asm.skype.com/o'' = ''https://eu-api.asm.skype.com/o''" "trim_space ''K'' = ''K''"
    by (simp_all add: trim_space_plain plain_ends_def)
  moreover have "sublist ''asm'' ''https://eu-api.asm.skype.com/o''" "suffix ''.asm.skype.com'' (to_lower (hostname ''eu-api.asm.skype.com''))"
    by code_simp+
  ultimately have ams: "is_ams_url (mn_urls example_media_net) ''https://eu-api.asm.skype.com/o'' []"
    and asked: "snd (reupload_inline_images example_media_net ''K'' [] [?img] []) = [(''https://eu-api.asm.skype.com/o'', ''skype_token K'')]"
    by (auto simp: is_ams_url_def example_media_net_def Let_def reupload_inline_images_def inline_image_part_def regional_def
        skype_authorization_def)
  show ?thesis
    using image_token_stays [of "''https://eu-api.asm.skype.com/o''" "''skype_token K''" example_media_net "''K''" "[]" "[?img]" "[]" "[]"]
    unfolding asked by (metis Un_iff list.set_intros(1) list.distinct(1))
qed

theorem token_leaves_teams_witness:
  "(''https://evil.example/teams'', ''skype_token K'') \<in> set (snd (convert_sticker example_media_net ''K'' [] ''https://evil.example/teams'' ''x'' [])) \<and>
   (''https://evil.example/teams'', ''skype_token K'') \<in> set (snd (fetch_attachment example_media_net \<lparr>as_graph_token = None, as_ams = Some (''K'', [])\<rparr> example_att)) \<and>
   \<not> is_ams_url (mn_urls example_media_net) ''https://evil.example/teams'' []"
proof -
  have "trim_space ''https://evil.example/teams'' = ''https://evil.example/teams''" "trim_space ''K'' = ''K''"
    by (simp_all add: trim_space_plain plain_ends_def)
  moreover have "sublist ''ams'' ''https://evil.example/teams''" "\<not> is_ams_url (mn_urls example_media_net) ''https://evil.example/teams'' []"
    by code_simp+
  ultimately show ?thesis
    using token_leaves_teams [of example_media_net "''https://evil.example/teams''" "\<lparr>as_graph_token = None, as_ams = Some (''K'', [])\<rparr>" "''K''" example_att "''x''" "[]"]
    by (simp add: example_media_net_def example_att_def skype_authorization_def)
qed

definition meeting_message :: remote_message where
  "meeting_message = blank_message\<lparr>message_type := ''Text'', msg_body := ''Join us: https://teams.microsoft.com/l/meetup-join/1 at ten''\<rparr>"

theorem meeting_link_takes_over_witness:
  "\<exists>p. convert_content example_convert meeting_message example_login = ((Inr \<lparr>cm_parts = [p], cm_thread_root = None, cm_reply_to = None\<rparr>, []), example_login) \<and>
     pt_body p = ''Meeting: https://teams.microsoft.com/l/meetup-join/1''"
proof -
  have "properties_raw meeting_message = None" by (simp add: meeting_message_def blank_message_def)
  then have "with_post_subject meeting_message = meeting_message" "\<not> is_deleted (properties_raw meeting_message)"
    "call_of_message (cv_calls example_convert) i meeting_message = None" for i
    by (simp_all add: with_post_subject_def extract_subject_def trimmed_string_property_def is_deleted_def call_of_message_def meeting_message_def
        to_lower_def lower_char_def parse_call_log_def call_log_json_def Let_def)
  moreover have "extract_meeting_join_url (msg_body meeting_message) = ''https://teams.microsoft.com/l/meetup-join/1''"
    "\<not> prefix ''event/call'' (to_lower (message_type meeting_message))" by code_simp+
  ultimately show ?thesis using meeting_link_takes_over [of meeting_message example_convert example_login] by auto
qed

end
