(* ===== verification/Presence.thy ===== *)
theory Presence
  imports Auth_Tokens Graph_Directory Html_Content Go_Text
begin

text \<open>
  Presence: the Teams presence service (internal/teams/presence/presence.go), Graph's presence (internal/teams/graph/presence.go),
  and the poll that brings the states of known users to Matrix and keeps them there (pkg/connector/presence.go,
  status_commands.go).

  The parser of times and the entity table are parameters, as are the networks and what Matrix answers.  A request to the
  service is recorded with the token it carries; what is sent to Matrix is recorded too.
\<close>

section \<open>Notes and work locations\<close>

record text_env =
  px_time :: "string \<Rightarrow> gotime option"
  px_unescape :: "string \<Rightarrow> string"

record user_note =
  un_message :: string
  un_expiry :: string

record user_presence =
  up_availability :: string
  up_activity :: string
  up_note :: user_note
  up_oof :: bool
  up_oof_note :: user_note
  up_location :: string
  up_location_expiry :: string

definition expired_at :: "text_env \<Rightarrow> string \<Rightarrow> gotime \<Rightarrow> bool" where
  "expired_at px expiry now \<longleftrightarrow> expiry \<noteq> [] \<and> (case px_time px expiry of Some e \<Rightarrow> e \<le> now | None \<Rightarrow> False)"

definition note_text :: "text_env \<Rightarrow> user_note \<Rightarrow> gotime \<Rightarrow> string" where
  "note_text px n now =
     (if expired_at px (un_expiry n) now then []
      else join_with '' '' (go_fields (px_unescape px (strip_tags (un_message n)))))"

definition location_words :: "text_env \<Rightarrow> user_presence \<Rightarrow> gotime \<Rightarrow> string" where
  "location_words px p now =
     (if expired_at px (up_location_expiry p) now then []
      else if up_location p \<in> {''1'', ''Office''} then ''In the office''
      else if up_location p \<in> {''2'', ''Remote''} then ''Remote''
      else if up_location p \<in> {''3'', ''TimeOff''} then ''Time off''
      else [])"

section \<open>Reading answers\<close>

text \<open>\<open>LocationValue\<close>: a name or a number, nothing for any other value.\<close>

fun location_value :: "json \<Rightarrow> string" where
  "location_value (JStr s) = s"
| "location_value (JNum n) = n"
| "location_value _ = []"

definition decode_note :: "json \<Rightarrow> user_note option" where
  "decode_note j =
     (case (string_field ''message'' j, string_field ''expiry'' j) of
        (Some m, Some e) \<Rightarrow> Some \<lparr>un_message = m, un_expiry = e\<rparr> | _ \<Rightarrow> None)"

definition decode_presence :: "json \<Rightarrow> user_presence option" where
  "decode_presence j =
     (case (string_field ''availability'' j, string_field ''activity'' j, Option.bind (struct_field ''note'' j) decode_note,
            Option.bind (struct_field ''calendarData'' j) (\<lambda>c.
              Option.bind (field_values ''isOutOfOffice'' c) (into_bool False)),
            Option.bind (struct_field ''calendarData'' j) (\<lambda>c. Option.bind (struct_field ''outOfOfficeNote'' c) decode_note),
            Option.bind (struct_field ''workLocation'' j) (field_values ''location''),
            Option.bind (struct_field ''workLocation'' j) (string_field ''expiry'')) of
        (Some av, Some ac, Some n, Some oof, Some oofn, Some locs, Some lexp) \<Rightarrow>
          Some \<lparr>up_availability = av, up_activity = ac, up_note = n, up_oof = oof, up_oof_note = oofn,
            up_location = (if locs = [] then [] else location_value (last locs)), up_location_expiry = lexp\<rparr>
      | _ \<Rightarrow> None)"

definition decode_presence_entry :: "json \<Rightarrow> (string \<times> user_presence) option" where
  "decode_presence_entry j =
     (case (string_field ''mri'' j, Option.bind (struct_field ''presence'' j) decode_presence) of
        (Some m, Some p) \<Rightarrow> Some (m, p) | _ \<Rightarrow> None)"

section \<open>The presence service\<close>

record presence_request =
  pq_method :: string
  pq_url :: string
  pq_authorization :: string
  pq_body :: "json option"

record presence_net =
  pv_http :: bool
  pv_answer :: "presence_request \<Rightarrow> http_outcome"
  pv_json :: "string \<Rightarrow> json option"

definition presence_base_url :: string where "presence_base_url = ''https://presence.teams.microsoft.com/''"
definition presence_scope :: string where "presence_scope = ''https://presence.teams.microsoft.com/.default''"

definition unauthorized :: go_error where "unauthorized = Plain ''presence service rejected the token''"

definition presence_do ::
  "presence_net \<Rightarrow> string \<Rightarrow> string \<Rightarrow> string \<Rightarrow> json option \<Rightarrow> (go_error + string) \<times> presence_request list" where
  "presence_do net token meth path body =
     (if \<not> pv_http net then (Inl (Plain ''missing presence HTTP client''), [])
      else if trim_space token = [] then (Inl (Plain ''missing presence token''), [])
      else (let req = \<lparr>pq_method = meth, pq_url = presence_base_url @ path, pq_authorization = ''Bearer '' @ trim_space token, pq_body = body\<rparr> in
            (case pv_answer net req of
               NoAnswer e \<Rightarrow> Inl e
             | Answered r \<Rightarrow>
                 if resp_status r = 401 \<or> resp_status r = 403 then Inl unauthorized
                 else if not_ok r
                 then Inl (Plain (''presence '' @ meth @ '' '' @ path @ '' failed: '' @ show_int (resp_status r) @ '' '' @
                        trim_space (take 256 (take (4 * 1024 * 1024) (resp_body r)))))
                 else Inr (take (4 * 1024 * 1024) (resp_body r)), [req])))"

text \<open>Setting the own state; an expiry is a time to be written, if there is one.\<close>

definition expiry_field :: "string \<Rightarrow> gotime \<Rightarrow> (string \<times> json) list" where
  "expiry_field name expiry = (if is_zero_time expiry then [] else [(name, JStr (format_rfc3339 expiry))])"

definition set_availability ::
  "presence_net \<Rightarrow> string \<Rightarrow> string \<Rightarrow> gotime \<Rightarrow> go_error option \<times> presence_request list" where
  "set_availability net token availability expiry =
     (case presence_do net token ''PUT'' ''v1/me/forceavailability/''
        (if availability = [] then None
         else Some (JObj ([(''availability'', JStr availability)] @
                (if availability = ''Offline'' then [(''activity'', JStr ''OffWork'')] else []) @
                expiry_field ''desiredExpirationTime'' expiry))) of
        (r, reqs) \<Rightarrow> (the_err r, reqs))"

definition set_work_location :: "presence_net \<Rightarrow> string \<Rightarrow> int \<Rightarrow> gotime \<Rightarrow> go_error option \<times> presence_request list" where
  "set_work_location net token location expiry =
     (case presence_do net token ''PUT'' ''v1/me/workLocation/''
        (Some (JObj ([(''location'', JNum (show_int location))] @ expiry_field ''expirationTime'' expiry))) of
        (r, reqs) \<Rightarrow> (the_err r, reqs))"

definition publish_note :: "presence_net \<Rightarrow> string \<Rightarrow> string \<Rightarrow> gotime \<Rightarrow> bool \<Rightarrow> go_error option \<times> presence_request list" where
  "publish_note net token message expiry pinned =
     (case presence_do net token ''PUT'' ''v1/me/publishnote''
        (Some (JObj (if message = [] then [(''message'', JStr [])]
           else [(''message'', JStr (html_escape message @ (if pinned then ''<pinnednote></pinnednote>'' else [])))] @
                expiry_field ''expiry'' expiry))) of
        (r, reqs) \<Rightarrow> (the_err r, reqs))"

text \<open>The states of users, by ID; the last one counts.\<close>

definition get_presence ::
  "presence_net \<Rightarrow> string \<Rightarrow> string list \<Rightarrow> (go_error + (string \<times> user_presence) list) \<times> presence_request list" where
  "get_presence net token mris =
     (if mris = [] then (Inr [], [])
      else (case presence_do net token ''POST'' ''v1/presence/getpresence/'' (Some (JArr (map (\<lambda>m. JObj [(''mri'', JStr m)]) mris))) of
              (Inl e, reqs) \<Rightarrow> (Inl e, reqs)
            | (Inr body, reqs) \<Rightarrow>
                (case Option.bind (Option.bind (pv_json net body) (\<lambda>j. into_slice [] [j])) (\<lambda>js. all_some (map decode_presence_entry js)) of
                   None \<Rightarrow> Inl (Plain ''decode presence response'')
                 | Some es \<Rightarrow> Inr (fold (\<lambda>(m, p). AList.update m p) (filter (\<lambda>(m, _). m \<noteq> []) es) []), reqs)))"

section \<open>Presence in Graph\<close>

definition extract_object_id :: "string \<Rightarrow> string" where
  "extract_object_id user =
     (let i = trim_space user in
      case after_last (CHR '':'') i of Some r \<Rightarrow> if r = [] then i else r | None \<Rightarrow> i)"

definition graph_presence_url :: "string \<Rightarrow> string" where
  "graph_presence_url object = ''https://graph.microsoft.com/v1.0/users/'' @ object @ ''/presence''"

definition decode_graph_presence :: "json \<Rightarrow> (string \<times> string) option" where
  "decode_graph_presence j =
     (case (string_field ''availability'' j, string_field ''activity'' j) of (Some a, Some b) \<Rightarrow> Some (a, b) | _ \<Rightarrow> None)"

text \<open>\<open>None\<close> for a user Graph does not know or will not tell of.\<close>

definition get_user_presence :: "dir_net \<Rightarrow> graph_client \<Rightarrow> string \<Rightarrow> go_error + (string \<times> string) option" where
  "get_user_presence net c user =
     (case graph_ready c of
        Some e \<Rightarrow> Inl e
      | None \<Rightarrow>
          if extract_object_id user = [] then Inl (Plain ''cannot extract Azure AD object ID'')
          else (case dir_get net 0 (graph_presence_url (extract_object_id user)) of
                  Inl e \<Rightarrow> Inl e
                | Inr r \<Rightarrow>
                    if resp_status r = 404 \<or> resp_status r = 403 then Inr None
                    else if not_ok r
                    then Inl (Plain (''graph presence request failed with status '' @ show_int (resp_status r) @ '': '' @
                           take max_upload_error_bytes (resp_body r)))
                    else (case Option.bind (dn_json net (resp_body r)) decode_graph_presence of
                            None \<Rightarrow> Inl json_error | Some p \<Rightarrow> Inr (Some p))))"

text \<open>Several users at once: the answer's IDs are mapped back to those asked for, the last one of an object.\<close>

definition asked_objects :: "string list \<Rightarrow> (string \<times> string) list" where
  "asked_objects users = filter (\<lambda>(obj, _). obj \<noteq> []) (map (\<lambda>u. (extract_object_id u, u)) users)"

definition decode_batch_entry :: "json \<Rightarrow> (string \<times> string \<times> string) option" where
  "decode_batch_entry j =
     (case (string_field ''id'' j, decode_graph_presence j) of (Some i, Some p) \<Rightarrow> Some (i, p) | _ \<Rightarrow> None)"

definition batch_presences :: "(string \<times> string) list \<Rightarrow> (string \<times> string \<times> string) list \<Rightarrow> (string \<times> string \<times> string) list" where
  "batch_presences ids es =
     fold (\<lambda>(i, p). AList.update (case map_of (rev ids) i of Some u \<Rightarrow> if u = [] then i else u | None \<Rightarrow> i) p) es []"

text \<open>A POST, whose answer is the parameter \<open>post\<close> of address and payload.\<close>

definition graph_post :: "dir_net \<Rightarrow> (string \<Rightarrow> json \<Rightarrow> http_outcome) \<Rightarrow> string \<Rightarrow> json \<Rightarrow> go_error + http_response" where
  "graph_post net post url payload =
     (case dn_url_err net url of
        Some e \<Rightarrow> Inl e
      | None \<Rightarrow> (case post url payload of NoAnswer e \<Rightarrow> Inl e | Answered r \<Rightarrow> Inr r))"

definition get_batch_presence ::
  "dir_net \<Rightarrow> (string \<Rightarrow> json \<Rightarrow> http_outcome) \<Rightarrow> graph_client \<Rightarrow> string list \<Rightarrow> go_error + (string \<times> string \<times> string) list" where
  "get_batch_presence net post c users =
     (case graph_ready c of
        Some e \<Rightarrow> Inl e
      | None \<Rightarrow>
          (let ids = asked_objects users in
           if ids = [] then Inr []
           else (case graph_post net post ''https://graph.microsoft.com/v1.0/communications/getPresencesByUserId''
                        (JObj [(''ids'', JArr (map (\<lambda>(obj, _). JStr obj) ids))]) of
                   Inl e \<Rightarrow> Inl e
                 | Inr r \<Rightarrow>
                     if resp_status r = 403 then Inl (Plain ''graph presence forbidden (Presence.Read.All not consented)'')
                     else if not_ok r
                     then Inl (Plain (''graph batch presence request failed with status '' @ show_int (resp_status r) @ '': '' @
                            take max_upload_error_bytes (resp_body r)))
                     else (case Option.bind (Option.bind (dn_json net (resp_body r)) (slice_field ''value''))
                             (\<lambda>js. all_some (map decode_batch_entry js)) of
                             None \<Rightarrow> Inl json_error
                           | Some es \<Rightarrow> Inr (batch_presences ids es)))))"

definition set_user_presence ::
  "dir_net \<Rightarrow> (string \<Rightarrow> json \<Rightarrow> http_outcome) \<Rightarrow> graph_client \<Rightarrow> string \<Rightarrow> string \<Rightarrow> string \<Rightarrow> go_error option" where
  "set_user_presence net post c availability activity duration =
     (case graph_ready c of
        Some e \<Rightarrow> Some e
      | None \<Rightarrow>
          (case graph_post net post ''https://graph.microsoft.com/v1.0/me/presence/setUserPreferredPresence''
                  (JObj [(''availability'', JStr availability), (''activity'', JStr activity), (''expirationDuration'', JStr duration)]) of
             Inl e \<Rightarrow> Some e
           | Inr r \<Rightarrow> if not_ok r
                      then Some (Plain (''set presence failed with status '' @ show_int (resp_status r) @ '': '' @
                             take max_upload_error_bytes (resp_body r)))
                      else None))"

section \<open>Teams presence as Matrix presence\<close>

datatype matrix_presence = Online | Unavailable | Offline

definition availability_presence :: "string \<Rightarrow> matrix_presence \<times> string" where
  "availability_presence av =
     (if av = ''Available'' then (Online, [])
      else if av \<in> {''Busy'', ''BusyIdle''} then (Online, ''Busy'')
      else if av = ''DoNotDisturb'' then (Unavailable, ''Do Not Disturb'')
      else if av \<in> {''Away'', ''AvailableIdle''} then (Unavailable, ''Away'')
      else if av = ''BeRightBack'' then (Unavailable, ''Be Right Back'')
      else (Offline, []))"

definition map_teams_presence :: "string \<Rightarrow> string \<Rightarrow> matrix_presence \<times> string" where
  "map_teams_presence av ac =
     (case availability_presence av of (p, status) \<Rightarrow>
      (p, if ac = ''InAMeeting'' then ''In a meeting''
          else if ac \<in> {''InACall'', ''InAConferenceCall''} then ''In a call''
          else if ac = ''Presenting'' then ''Presenting''
          else if ac = ''OutOfOffice'' then ''Out of office''
          else status))"

definition presence_status :: "text_env \<Rightarrow> user_presence \<Rightarrow> gotime \<Rightarrow> matrix_presence \<times> string" where
  "presence_status px p now =
     (case map_teams_presence (up_availability p) (up_activity p) of (mp, status) \<Rightarrow>
      (mp, join_with [CHR 0x0A] ([status] @
         (let n = note_text px (up_note p) now in if n \<noteq> [] then [''Note: '' @ n] else []) @
         (let n = note_text px (up_oof_note p) now in if n \<noteq> [] \<and> up_oof p then [''Out of office: '' @ n] else []) @
         (let w = location_words px p now in if w \<noteq> [] then [''Location: '' @ w] else []))))"

section \<open>The poll\<close>

record presence_state =
  ps_cache :: "(string \<times> user_presence) list"
  ps_known :: "string list"
  ps_forbidden :: bool
  ps_failing :: bool

datatype presence_sent =
    Ghost_Presence string matrix_presence string
  | Own_Presence user_presence string string string

text \<open>The ghost of a user: an error, or whether its presence can be set; the orders of the two maps that are walked.\<close>

record presence_env =
  qe_net :: presence_net
  qe_text :: text_env
  qe_now :: gotime
  qe_self :: string
  qe_profiles :: "go_error + string list"
  qe_known_order :: "string list \<Rightarrow> string list"
  qe_state_order :: "(string \<times> user_presence) list \<Rightarrow> (string \<times> user_presence) list"
  qe_ghost :: "string \<Rightarrow> go_error + bool"
  qe_set_err :: "string \<Rightarrow> go_error option"

definition push_ghost_presence :: "presence_env \<Rightarrow> string \<Rightarrow> user_presence \<Rightarrow> go_error option \<times> presence_sent list" where
  "push_ghost_presence env uid p =
     (case qe_ghost env uid of
        Inl e \<Rightarrow> (Some e, [])
      | Inr settable \<Rightarrow>
          if \<not> settable then (None, [])
          else (case presence_status (qe_text env) p (qe_now env) of
                  (mp, status) \<Rightarrow> (qe_set_err env uid, [Ghost_Presence uid mp status])))"

text \<open>What the own account data say: status, note and place beside the state itself.  A failure to set them is only logged.\<close>

definition own_presence :: "presence_env \<Rightarrow> user_presence \<Rightarrow> presence_sent" where
  "own_presence env p =
     Own_Presence p (snd (map_teams_presence (up_availability p) (up_activity p)))
       (note_text (qe_text env) (up_note p) (qe_now env)) (location_words (qe_text env) p (qe_now env))"

definition push_state ::
  "presence_env \<Rightarrow> string \<times> user_presence \<Rightarrow> (string \<times> user_presence) list \<Rightarrow> (string \<times> user_presence) list \<times> presence_sent list" where
  "push_state env up cache =
     (case up of (uid, p) \<Rightarrow>
      if map_of cache uid = Some p then (cache, [])
      else (case push_ghost_presence env uid p of (err, sent) \<Rightarrow>
            (if err = None then AList.update uid p cache else AList.delete uid (AList.update uid p cache),
             (if uid = qe_self env then [own_presence env p] else []) @ sent)))"

fun push_states ::
  "presence_env \<Rightarrow> (string \<times> user_presence) list \<Rightarrow> (string \<times> user_presence) list \<Rightarrow> (string \<times> user_presence) list \<times> presence_sent list" where
  "push_states env [] cache = (cache, [])"
| "push_states env (up # ups) cache =
     (case push_state env up cache of (c1, s1) \<Rightarrow> (case push_states env ups c1 of (c2, s2) \<Rightarrow> (c2, s1 @ s2)))"

definition presence_batch_size :: nat where "presence_batch_size = 100"

function batches_of :: "nat \<Rightarrow> 'a list \<Rightarrow> 'a list list" where
  "batches_of n xs = (if xs = [] \<or> n = 0 then [] else take n xs # batches_of n (drop n xs))"
  by pat_completeness auto
termination by (relation "measure (\<lambda>(n, xs). length xs)") auto

declare batches_of.simps [simp del]

text \<open>What a poll does: what it sends to Matrix, and what it asks the service.\<close>

type_synonym presence_done = "presence_sent list \<times> presence_request list"

fun poll_batches ::
  "presence_env \<Rightarrow> string \<Rightarrow> bool \<Rightarrow> string list list \<Rightarrow> presence_state \<Rightarrow> token_world \<Rightarrow> presence_state \<times> token_world \<times> presence_done" where
  "poll_batches env token fresh [] st tw = (st, tw, [], [])"
| "poll_batches env token fresh (b # rest) st tw =
     (case get_presence (qe_net env) token b of
        (Inl e, reqs) \<Rightarrow>
          if e = unauthorized
          then (if fresh then st\<lparr>ps_forbidden := True\<rparr> else st, if fresh then tw else drop_resource_token presence_scope tw, [], reqs)
          else (case poll_batches env token fresh rest (st\<lparr>ps_failing := True\<rparr>) tw of
                  (st2, tw2, sent, reqs2) \<Rightarrow> (st2, tw2, sent, reqs @ reqs2))
      | (Inr states, reqs) \<Rightarrow>
          (case push_states env (qe_state_order env states) (ps_cache st) of (cache, sent1) \<Rightarrow>
           (case poll_batches env token fresh rest (st\<lparr>ps_failing := False, ps_cache := cache\<rparr>) tw of
              (st2, tw2, sent, reqs2) \<Rightarrow> (st2, tw2, sent1 @ sent, reqs @ reqs2))))"

definition track_user :: "string \<Rightarrow> string list \<Rightarrow> string list" where
  "track_user u known = (if u = [] \<or> u \<in> set known then known else known @ [u])"

definition seed_known_users :: "presence_env \<Rightarrow> presence_state \<Rightarrow> presence_state" where
  "seed_known_users env st =
     (case qe_profiles env of Inl _ \<Rightarrow> st | Inr ids \<Rightarrow> st\<lparr>ps_known := fold track_user ids (ps_known st)\<rparr>)"

definition presence_mris :: "presence_env \<Rightarrow> presence_state \<Rightarrow> string list" where
  "presence_mris env st =
     (let known = filter (prefix ''8:orgid:'') (qe_known_order env (ps_known st)); self = qe_self env in
      if prefix ''8:orgid:'' self \<and> self \<notin> set known then known @ [self] else known)"

definition poll_presence ::
  "presence_env \<Rightarrow> token_env \<Rightarrow> presence_state \<Rightarrow> token_world \<Rightarrow> presence_state \<times> token_world \<times> presence_done" where
  "poll_presence env tenv st tw =
     (if ps_forbidden st then (st, tw, [], [])
      else (case resource_token tenv presence_scope tw of
              (Inl _, tw1) \<Rightarrow> (st, tw1, [], [])
            | (Inr (token, fresh), tw1) \<Rightarrow>
                (let st1 = seed_known_users env st; mris = presence_mris env st1 in
                 if mris = [] \<or> \<not> pv_http (qe_net env) then (st1, tw1, [], [])
                 else poll_batches env token fresh (batches_of presence_batch_size mris) st1 tw1)))"

text \<open>\<open>keepPresenceAlive\<close>: the states of all who are not offline are sent again; one that cannot be is forgotten.\<close>

fun keep_alive :: "presence_env \<Rightarrow> (string \<times> user_presence) list \<Rightarrow> (string \<times> user_presence) list \<Rightarrow> (string \<times> user_presence) list \<times> presence_sent list" where
  "keep_alive env [] cache = (cache, [])"
| "keep_alive env ((uid, p) # ups) cache =
     (if fst (presence_status (qe_text env) p (qe_now env)) = Offline then keep_alive env ups cache
      else (case push_ghost_presence env uid p of (err, sent) \<Rightarrow>
            (case keep_alive env ups (if err = None then cache else AList.delete uid cache) of
               (c2, s2) \<Rightarrow> (c2, sent @ s2))))"

definition keep_presence_alive :: "presence_env \<Rightarrow> presence_state \<Rightarrow> presence_state \<times> presence_sent list" where
  "keep_presence_alive env st =
     (case keep_alive env (qe_state_order env (ps_cache st)) (ps_cache st) of (c, sent) \<Rightarrow> (st\<lparr>ps_cache := c\<rparr>, sent))"

section \<open>Facts\<close>

lemma concat_batches: "0 < n \<Longrightarrow> concat (batches_of n xs) = xs"
proof (induction n xs rule: batches_of.induct)
  case (1 n xs)
  then show ?case by (subst batches_of.simps) auto
qed

lemma batch_length: "b \<in> set (batches_of n xs) \<Longrightarrow> b \<noteq> [] \<and> length b \<le> n"
proof (induction n xs rule: batches_of.induct)
  case (1 n xs)
  then show ?case by (subst (asm) (2) batches_of.simps) (auto split: if_splits)
qed

text \<open>The users a run over batches hears of, before the service rejects the token.\<close>

fun answered :: "presence_net \<Rightarrow> string \<Rightarrow> string list list \<Rightarrow> string set" where
  "answered net token [] = {}"
| "answered net token (b # rest) =
     (case fst (get_presence net token b) of
        Inl e \<Rightarrow> if e = unauthorized then {} else answered net token rest
      | Inr states \<Rightarrow> fst ` set states \<union> answered net token rest)"

definition pushes_work :: "presence_env \<Rightarrow> bool" where
  "pushes_work env \<longleftrightarrow> (\<forall>u. (\<exists>b. qe_ghost env u = Inr b) \<and> qe_set_err env u = None) \<and>
     (\<forall>xs. set (qe_state_order env xs) = set xs)"

text \<open>Every answer gives a user the same state.\<close>

definition one_state :: "presence_net \<Rightarrow> string \<Rightarrow> (string \<Rightarrow> user_presence) \<Rightarrow> bool" where
  "one_state net token f \<longleftrightarrow> (\<forall>b es. fst (get_presence net token b) = Inr es \<longrightarrow> (\<forall>(m, p) \<in> set es. f m = p))"

lemma push_works:
  assumes "pushes_work env"
  shows "map_of (fst (push_state env (uid, p) cache)) = (map_of cache)(uid \<mapsto> p)"
proof -
  obtain b where b: "qe_ghost env uid = Inr b" "qe_set_err env uid = None" using assms unfolding pushes_work_def by blast
  have "fst (push_ghost_presence env uid p) = None" by (simp add: push_ghost_presence_def b split: prod.split)
  then show ?thesis by (auto simp: push_state_def update_conv' split: prod.splits)
qed

lemma pushes_settle:
  assumes "pushes_work env" and "\<forall>(m, p) \<in> set ups. f m = p"
  shows "map_of (fst (push_states env ups cache)) u = (if u \<in> fst ` set ups then Some (f u) else map_of cache u)"
  using assms(2)
proof (induction ups arbitrary: cache)
  case (Cons up ups)
  obtain m p where up: "up = (m, p)" by fastforce
  have p: "f m = p" and rest: "\<forall>(m, p) \<in> set ups. f m = p" using Cons.prems by (auto simp: up)
  have "fst (push_states env (up # ups) cache) = fst (push_states env ups (fst (push_state env (m, p) cache)))"
    by (simp add: up split: prod.split)
  then show ?case using Cons.IH [OF rest, of "fst (push_state env (m, p) cache)"] by (auto simp: push_works [OF assms(1)] up p)
qed simp

lemma settled_silent:
  "\<forall>(m, p) \<in> set ups. map_of cache m = Some p \<Longrightarrow> push_states env ups cache = (cache, [])"
  by (induction ups) (auto simp: push_state_def)

lemma batches_settle:
  assumes "pushes_work env" and "one_state (qe_net env) token f"
  shows "(u \<in> answered (qe_net env) token bats \<or> map_of (ps_cache st) u = Some (f u)) \<longrightarrow>
    map_of (ps_cache (fst (poll_batches env token fresh bats st tw))) u = Some (f u)"
proof (induction bats arbitrary: st tw)
  case (Cons b rest)
  show ?case
  proof (cases "fst (get_presence (qe_net env) token b)")
    case (Inl e)
    then obtain reqs where g: "get_presence (qe_net env) token b = (Inl e, reqs)" by (metis prod.collapse)
    show ?thesis using Cons.IH [of "st\<lparr>ps_failing := True\<rparr>" tw] by (auto simp: g split: prod.splits)
  next
    case (Inr es)
    then obtain reqs where g: "get_presence (qe_net env) token b = (Inr es, reqs)" by (metis prod.collapse)
    have set: "set (qe_state_order env es) = set es" using assms(1) by (simp add: pushes_work_def)
    have "\<forall>(m, p) \<in> set (qe_state_order env es). f m = p" using assms(2) Inr unfolding set one_state_def by (elim allE impE) auto
    note now = pushes_settle [OF assms(1) this, of "ps_cache st" u, unfolded set]
    let ?st = "st\<lparr>ps_failing := False, ps_cache := fst (push_states env (qe_state_order env es) (ps_cache st))\<rparr>"
    have "fst (poll_batches env token fresh (b # rest) st tw) = fst (poll_batches env token fresh rest ?st tw)"
      by (simp add: g split: prod.split)
    moreover have "u \<in> answered (qe_net env) token (b # rest) \<longleftrightarrow> u \<in> fst ` set es \<or> u \<in> answered (qe_net env) token rest"
      by (simp add: g)
    ultimately show ?thesis using Cons.IH [of ?st tw] now by (cases "u \<in> fst ` set es") (auto simp del: poll_batches.simps answered.simps)
  qed
qed simp

lemma settled_batches_silent:
  assumes "pushes_work env" and "one_state (qe_net env) token f"
    and "\<forall>u \<in> answered (qe_net env) token bats. map_of (ps_cache st) u = Some (f u)"
  shows "\<exists>st' tw' reqs. poll_batches env token fresh bats st tw = (st', tw', [], reqs) \<and> ps_cache st' = ps_cache st"
  using assms(3)
proof (induction bats arbitrary: st tw)
  case (Cons b rest)
  show ?case
  proof (cases "fst (get_presence (qe_net env) token b)")
    case (Inl e)
    then obtain reqs where g: "get_presence (qe_net env) token b = (Inl e, reqs)" by (metis prod.collapse)
    show ?thesis using Cons.IH [of "st\<lparr>ps_failing := True\<rparr>" tw] Cons.prems by (auto simp: g)
  next
    case (Inr es)
    then obtain reqs where g: "get_presence (qe_net env) token b = (Inr es, reqs)" by (metis prod.collapse)
    have set: "set (qe_state_order env es) = set es" using assms(1) by (simp add: pushes_work_def)
    have f: "\<forall>(m, p) \<in> set es. f m = p" using assms(2) Inr unfolding one_state_def by (elim allE impE) auto
    have "map_of (ps_cache st) m = Some (f m)" if "(m, p) \<in> set es" for m p
      using Cons.prems that by (force simp: g)
    with f have "\<forall>(m, p) \<in> set (qe_state_order env es). map_of (ps_cache st) m = Some p" unfolding set by fastforce
    then have q: "push_states env (qe_state_order env es) (ps_cache st) = (ps_cache st, [])" by (rule settled_silent)
    show ?thesis using Cons.IH [of "st\<lparr>ps_failing := False, ps_cache := ps_cache st\<rparr>" tw] Cons.prems by (auto simp: g q)
  qed
qed simp

section \<open>Properties\<close>

text \<open>C40: A state is sent once.  While Teams gives every user one state and Matrix takes what it is sent, a poll of presence leaves
  every user the service told of with that state in the cache, and the next poll with the same token sends nothing and
  leaves the cache as it is, whatever batches fail and whether or not the token is rejected on the way.\<close>

theorem presence_sent_once:
  assumes "pushes_work env" and "one_state (qe_net env) token f"
    and "poll_batches env token fresh bats st tw = (st1, tw1, sent, reqs)"
  shows "(\<forall>u \<in> answered (qe_net env) token bats. map_of (ps_cache st1) u = Some (f u)) \<and>
    (\<exists>st2 tw2 reqs2. poll_batches env token fresh2 bats st1 tw1 = (st2, tw2, [], reqs2) \<and> ps_cache st2 = ps_cache st1)"
proof -
  have "\<forall>u \<in> answered (qe_net env) token bats. map_of (ps_cache st1) u = Some (f u)"
    using batches_settle [OF assms(1,2), of _ bats st fresh tw] by (simp add: assms(3))
  then show ?thesis using settled_batches_silent [OF assms(1,2)] by blast
qed

text \<open>What is not sent: a note that has run out stays with a user who is offline, until Teams reports another state.\<close>

lemma expired_note_stays:
  assumes "map_of (ps_cache st) u = Some p" and "fst (map_teams_presence (up_availability p) (up_activity p)) = Offline"
    and "qe_state_order env = (\<lambda>xs. xs)" and "ps_cache st = [(u, p)]"
  shows "push_states env [(u, p)] (ps_cache st) = (ps_cache st, []) \<and> keep_presence_alive env st = (st, [])"
proof -
  have "fst (presence_status (qe_text env) p (qe_now env)) = Offline"
    using assms(2) by (cases "map_teams_presence (up_availability p) (up_activity p)") (simp add: presence_status_def)
  then show ?thesis using assms by (simp add: push_state_def keep_presence_alive_def)
qed

text \<open>Nor are the own account data set again after a failure: the state counts as sent when the ghost has it.\<close>

lemma own_presence_once:
  assumes "pushes_work env"
  shows "push_state env (qe_self env, p) (fst (push_state env (qe_self env, p) cache)) = (fst (push_state env (qe_self env, p) cache), [])"
  by (simp add: push_state_def [of _ _ "fst _"] push_works [OF assms])

definition busy_note :: user_note where "busy_note = \<lparr>un_message = [], un_expiry = []\<rparr>"

definition busy :: user_presence where
  "busy = \<lparr>up_availability = ''Busy'', up_activity = [], up_note = busy_note, up_oof = False, up_oof_note = busy_note,
     up_location = [], up_location_expiry = []\<rparr>"

definition example_presence_net :: presence_net where
  "example_presence_net =
     \<lparr>pv_http = True, pv_answer = (\<lambda>_. Answered \<lparr>resp_status = 200, resp_retry_after = [], resp_body = ''b''\<rparr>),
      pv_json = (\<lambda>_. Some (JArr [JObj [(''mri'', JStr ''8:orgid:a''), (''presence'', JObj [(''availability'', JStr ''Busy'')])]]))\<rparr>"

definition example_presence_env :: presence_env where
  "example_presence_env =
     \<lparr>qe_net = example_presence_net, qe_text = \<lparr>px_time = (\<lambda>_. None), px_unescape = (\<lambda>s. s)\<rparr>, qe_now = 0, qe_self = [],
      qe_profiles = Inr [], qe_known_order = (\<lambda>xs. xs), qe_state_order = (\<lambda>xs. xs), qe_ghost = (\<lambda>_. Inr True), qe_set_err = (\<lambda>_. None)\<rparr>"

lemma example_presence_answer:
  "\<exists>reqs. get_presence example_presence_net ''t'' mris = (Inr (if mris = [] then [] else [(''8:orgid:a'', busy)]), reqs)"
proof -
  have "decode_presence_entry (JObj [(''mri'', JStr ''8:orgid:a''), (''presence'', JObj [(''availability'', JStr ''Busy'')])]) = Some (''8:orgid:a'', busy)"
    by (simp add: decode_presence_entry_def decode_presence_def decode_note_def string_field_def struct_field_def fold_eval busy_def busy_note_def)
  then show ?thesis
    by (simp add: get_presence_def presence_do_def example_presence_net_def not_ok_def trim_space_plain plain_ends_def)
qed

lemma example_one_state: "one_state (qe_net example_presence_env) ''t'' (\<lambda>_. busy)"
proof -
  have "\<forall>(m, p) \<in> set es. busy = p" if "fst (get_presence example_presence_net ''t'' b) = Inr es" for b es
    using example_presence_answer [of b] that by (auto split: if_splits)
  then show ?thesis by (simp add: one_state_def example_presence_env_def)
qed

theorem presence_sent_once_witness:
  "\<exists>st1 tw1 reqs st2 tw2 reqs2.
     poll_batches example_presence_env ''t'' True [[''8:orgid:a'']] \<lparr>ps_cache = [], ps_known = [], ps_forbidden = False, ps_failing = False\<rparr> example_login =
       (st1, tw1, [Ghost_Presence ''8:orgid:a'' Online ''Busy''], reqs) \<and>
     map_of (ps_cache st1) ''8:orgid:a'' = Some busy \<and>
     poll_batches example_presence_env ''t'' False [[''8:orgid:a'']] st1 tw1 = (st2, tw2, [], reqs2)"
proof -
  let ?st = "\<lparr>ps_cache = [], ps_known = [], ps_forbidden = False, ps_failing = False\<rparr>"
  have works: "pushes_work example_presence_env" by (auto simp: pushes_work_def example_presence_env_def)
  obtain q where q: "get_presence example_presence_net ''t'' [''8:orgid:a''] = (Inr [(''8:orgid:a'', busy)], q)"
    using example_presence_answer [of "[''8:orgid:a'']"] by auto
  have net: "qe_net example_presence_env = example_presence_net" "qe_now example_presence_env = 0" "qe_self example_presence_env = []"
    "qe_state_order example_presence_env xs = xs" "qe_ghost example_presence_env u = Inr True" "qe_set_err example_presence_env u = None" for xs u
    by (simp_all add: example_presence_env_def)
  have status: "presence_status (qe_text example_presence_env) busy 0 = (Online, ''Busy'')"
    by (simp add: presence_status_def map_teams_presence_def availability_presence_def busy_def busy_note_def note_text_def location_words_def
        expired_at_def example_presence_env_def strip_tags_def go_fields_def)
  obtain st1 tw1 reqs where first: "poll_batches example_presence_env ''t'' True [[''8:orgid:a'']] ?st example_login =
      (st1, tw1, [Ghost_Presence ''8:orgid:a'' Online ''Busy''], reqs)"
    by (simp add: net q push_state_def push_ghost_presence_def status)
  have "''8:orgid:a'' \<in> answered (qe_net example_presence_env) ''t'' [[''8:orgid:a'']]" by (simp add: net q)
  then show ?thesis
    using presence_sent_once [OF works example_one_state first, of False] first by blast
qed

end
