(* ===== verification/Bot_Commands.thy ===== *)
theory Bot_Commands
  imports Presence Saved_Messages Room_Names
begin

text \<open>
  The commands of the bridge bot (pkg/connector): the own status, note and work place (status_commands.go), automatic replies
  (oof_command.go, over internal/teams/middletier), chats and forwarding (chat_commands.go); \<open>save\<close> and \<open>unsave\<close> are in
  Saved_Messages.

  A command is given its words and answers with a text; the requests it makes are recorded.  Parameters: the parsers of
  durations and times (a time comes with the offset of its zone), quoting, the time, and whether the user has a login.
\<close>

section \<open>Times in commands\<close>

type_synonym zoned = "gotime \<times> duration"

record command_env =
  ce_duration :: "string \<Rightarrow> duration option"
  ce_time :: "string \<Rightarrow> zoned option"
  ce_quote :: "string \<Rightarrow> string"
  ce_now :: zoned
  ce_no_client :: "string option"

definition weekday_names :: "string list" where
  "weekday_names = [''Mon'', ''Tue'', ''Wed'', ''Thu'', ''Fri'', ''Sat'', ''Sun'']"

definition month_short :: "string list" where
  "month_short = [''Jan'', ''Feb'', ''Mar'', ''Apr'', ''May'', ''Jun'', ''Jul'', ''Aug'', ''Sep'', ''Oct'', ''Nov'', ''Dec'']"

definition wall_clock :: "zoned \<Rightarrow> gotime" where "wall_clock z = fst z + snd z"

definition format_weekday :: "zoned \<Rightarrow> string" where
  "format_weekday z = weekday_names ! nat (wall_clock z div (24 * hour) mod 7)"

definition format_clock :: "zoned \<Rightarrow> string" where
  "format_clock z =
     (let sod = wall_clock z div second mod 86400 in pad 2 (sod div 3600) @ '':'' @ pad 2 (sod div 60 mod 60))"

definition format_day :: "zoned \<Rightarrow> string" where
  "format_day z = (case civil_date (wall_clock z) of (_, m, d) \<Rightarrow> month_short ! nat (m - 1) @ '' '' @ show_int d)"

definition format_zone :: "duration \<Rightarrow> string" where
  "format_zone off =
     (if off = 0 then ''Z''
      else (let m = \<bar>off\<bar> div minute in (if off < 0 then ''-'' else ''+'') @ pad 2 (m div 60) @ '':'' @ pad 2 (m mod 60)))"

definition format_zoned :: "zoned \<Rightarrow> string" where
  "format_zoned z = format_seconds (wall_clock z) @ format_zone (snd z)"

text \<open>\<open>parseExpiry\<close>: the zero time for no argument.\<close>

definition parse_expiry :: "command_env \<Rightarrow> string \<Rightarrow> string + zoned" where
  "parse_expiry env arg =
     (if arg = [] then Inr (zero_time, 0)
      else case ce_duration env arg of
        Some d \<Rightarrow> if d \<le> 0 then Inl (''duration must be positive: '' @ arg) else Inr (fst (ce_now env) + d, snd (ce_now env))
      | None \<Rightarrow>
          (case ce_time env arg of
             Some z \<Rightarrow> if fst z \<le> fst (ce_now env) then Inl (''time is in the past: '' @ arg) else Inr z
           | None \<Rightarrow> Inl (''not a duration (1h, 30m) or an RFC 3339 time: '' @ arg)))"

definition expiry_phrase :: "command_env \<Rightarrow> string \<Rightarrow> zoned \<Rightarrow> string" where
  "expiry_phrase env arg z =
     (if is_zero_time (fst z) then []
      else if ce_duration env arg \<noteq> None then '' for '' @ arg
      else '' until '' @ format_weekday z @ '' '' @ format_clock z)"

section \<open>Status, note and work location\<close>

text \<open>The answer, whether presence is polled at once, the requests, and the tokens after the command.\<close>

type_synonym presence_reply = "string \<times> bool \<times> presence_request list \<times> token_world"

definition presence_client :: "token_env \<Rightarrow> presence_net \<Rightarrow> token_world \<Rightarrow> (go_error + string) \<times> token_world" where
  "presence_client tenv net tw =
     (case resource_token tenv presence_scope tw of
        (Inl e, tw1) \<Rightarrow> (Inl e, tw1)
      | (Inr (token, _), tw1) \<Rightarrow> (if pv_http net then Inr token else Inl (Plain ''no HTTP client''), tw1))"

text \<open>With a client: \<open>act\<close> makes the request with the token; \<open>what\<close> begins the answer to a failure.\<close>

definition with_presence_client ::
  "command_env \<Rightarrow> token_env \<Rightarrow> presence_net \<Rightarrow> string \<Rightarrow> (string \<Rightarrow> go_error option \<times> presence_request list) \<Rightarrow> string \<Rightarrow> token_world \<Rightarrow> presence_reply" where
  "with_presence_client env tenv net what act answer tw =
     (case ce_no_client env of
        Some r \<Rightarrow> (r, False, [], tw)
      | None \<Rightarrow>
          (case presence_client tenv net tw of
             (Inl e, tw1) \<Rightarrow> (what @ '' failed: '' @ err_text e, False, [], tw1)
           | (Inr token, tw1) \<Rightarrow>
               (case act token of
                  (Some e, reqs) \<Rightarrow> (what @ '' failed: '' @ err_text e, False, reqs, tw1)
                | (None, reqs) \<Rightarrow> (answer, True, reqs, tw1))))"

definition status_words :: "(string \<times> string) list" where
  "status_words = [(''available'', ''Available''), (''busy'', ''Busy''), (''dnd'', ''DoNotDisturb''), (''brb'', ''BeRightBack''),
     (''away'', ''Away''), (''offline'', ''Offline''), (''reset'', '''')]"

definition status_usage :: string where
  "status_usage = ''<available|busy|dnd|brb|away|offline|reset> [<duration, e.g. 1h> | <RFC 3339 time>]''"
definition location_usage :: string where "location_usage = ''<office|remote|clear> [<duration, e.g. 4h> | <RFC 3339 time>]''"
definition note_usage :: string where "note_usage = ''[until <duration | RFC 3339 time>] <text> | clear''"

definition usage_of :: "string \<Rightarrow> string \<Rightarrow> string" where
  "usage_of name args = ''Usage: `$cmdprefix '' @ name @ '' '' @ args @ ''`''"

definition fn_status :: "command_env \<Rightarrow> token_env \<Rightarrow> presence_net \<Rightarrow> string list \<Rightarrow> token_world \<Rightarrow> presence_reply" where
  "fn_status env tenv net args tw =
     (if length args \<notin> {1, 2} then (usage_of ''status'' status_usage, False, [], tw)
      else let arg = (if length args = 2 then args ! 1 else []) in
      case map_of status_words (to_lower (args ! 0)) of
        None \<Rightarrow> (''Unknown status '' @ ce_quote env (args ! 0) @ ''.  '' @ usage_of ''status'' status_usage, False, [], tw)
      | Some av \<Rightarrow>
          (case parse_expiry env arg of
             Inl e \<Rightarrow> (e, False, [], tw)
           | Inr z \<Rightarrow> with_presence_client env tenv net ''Setting your Teams status''
               (\<lambda>token. set_availability net token av (fst z))
               (if av = [] then ''Teams status reset to automatic.'' else ''Teams status set to '' @ av @ expiry_phrase env arg z @ ''.'') tw))"

definition location_numbers :: "(string \<times> int) list" where
  "location_numbers = [(''office'', 1), (''remote'', 2), (''clear'', 0)]"

definition fn_location :: "command_env \<Rightarrow> token_env \<Rightarrow> presence_net \<Rightarrow> string list \<Rightarrow> token_world \<Rightarrow> presence_reply" where
  "fn_location env tenv net args tw =
     (if length args \<notin> {1, 2} then (usage_of ''location'' location_usage, False, [], tw)
      else let arg = (if length args = 2 then args ! 1 else []) in
      case map_of location_numbers (to_lower (args ! 0)) of
        None \<Rightarrow> (''Unknown location '' @ ce_quote env (args ! 0) @ ''.  '' @ usage_of ''location'' location_usage, False, [], tw)
      | Some loc \<Rightarrow>
          (case parse_expiry env arg of
             Inl e \<Rightarrow> (e, False, [], tw)
           | Inr z \<Rightarrow> with_presence_client env tenv net ''Setting your Teams work location''
               (\<lambda>token. set_work_location net token loc (fst z))
               (if loc = 0 then ''Teams work location cleared.''
                else ''Teams work location set to '' @ args ! 0 @ expiry_phrase env arg z @ ''.'') tw))"

definition set_note_words ::
  "command_env \<Rightarrow> token_env \<Rightarrow> presence_net \<Rightarrow> string \<Rightarrow> zoned \<Rightarrow> string list \<Rightarrow> token_world \<Rightarrow> presence_reply" where
  "set_note_words env tenv net until z args tw =
     (let message = (if length args = 1 \<and> equal_fold (args ! 0) ''clear'' then [] else join_with '' '' args) in
      with_presence_client env tenv net ''Setting your Teams status note''
        (\<lambda>token. publish_note net token message (fst z) True)
        (if message = [] then ''Teams status note cleared.'' else ''Teams status note set'' @ expiry_phrase env until z @ ''.'') tw)"

definition fn_note :: "command_env \<Rightarrow> token_env \<Rightarrow> presence_net \<Rightarrow> string list \<Rightarrow> token_world \<Rightarrow> presence_reply" where
  "fn_note env tenv net args tw =
     (if args = [] then (usage_of ''note'' note_usage, False, [], tw)
      else if equal_fold (args ! 0) ''until''
      then (if length args < 3 then (usage_of ''note'' note_usage, False, [], tw)
            else case parse_expiry env (args ! 1) of
              Inl e \<Rightarrow> (e, False, [], tw)
            | Inr z \<Rightarrow> set_note_words env tenv net (args ! 1) z (drop 2 args) tw)
      else set_note_words env tenv net [] (zero_time, 0) args tw)"

section \<open>The middle tier\<close>

record tier_request =
  tq_method :: string
  tq_url :: string
  tq_authorization :: string
  tq_skype_token :: string
  tq_body :: "json option"

record tier_net =
  tt_http :: bool
  tt_answer :: "tier_request \<Rightarrow> http_outcome"
  tt_json :: "string \<Rightarrow> json option"
  tt_pretty :: "(string \<times> json) list \<Rightarrow> string"

record tier_client =
  tl_base :: string
  tl_token :: string
  tl_skype :: string

definition middletier_scope :: string where "middletier_scope = ''https://api.spaces.skype.com/.default''"

definition tier_snippet :: "string \<Rightarrow> string" where
  "tier_snippet data = (let s = trim_space data in if 300 < length s then take 300 s @ ellipsis else s)"

text \<open>The body of a 2xx answer.\<close>

definition tier_do :: "tier_net \<Rightarrow> tier_client \<Rightarrow> string \<Rightarrow> string \<Rightarrow> json option \<Rightarrow> (go_error + string) \<times> tier_request list" where
  "tier_do net c meth path body =
     (if \<not> tt_http net then (Inl (Plain ''missing middle tier HTTP client''), [])
      else if trim_space (tl_base c) = [] then (Inl (Plain ''middle tier URL not known yet''), [])
      else (let req = \<lparr>tq_method = meth, tq_url = trim_suffix (tl_base c) ''/'' @ ''/'' @ path,
                       tq_authorization = ''Bearer '' @ trim_space (tl_token c), tq_skype_token = tl_skype c, tq_body = body\<rparr> in
            (case tt_answer net req of
               NoAnswer e \<Rightarrow> Inl e
             | Answered r \<Rightarrow>
                 (let data = take (1024 * 1024) (resp_body r) in
                  if resp_status r = 401 \<or> resp_status r = 403
                  then Inl (Plain (''middle tier rejected the token ('' @ show_int (resp_status r) @ ''): '' @ tier_snippet data))
                  else if not_ok r
                  then Inl (Plain (''middle tier '' @ meth @ '' '' @ path @ '' failed: '' @ show_int (resp_status r) @ '' '' @ tier_snippet data))
                  else Inr data), [req])))"

definition get_automatic_replies :: "tier_net \<Rightarrow> tier_client \<Rightarrow> (go_error + (string \<times> json) list) \<times> tier_request list" where
  "get_automatic_replies net c =
     (case tier_do net c ''GET'' ''beta/users/automaticRepliesSetting'' None of
        (Inl e, reqs) \<Rightarrow> (Inl e, reqs)
      | (Inr data, reqs) \<Rightarrow>
          (if trim_space data = [] then Inr []
           else (case tt_json net data of
                   Some JNull \<Rightarrow> Inr []
                 | Some (JObj kvs) \<Rightarrow> Inr (fold (\<lambda>(k, v). AList.update k v) kvs [])
                 | _ \<Rightarrow> Inl json_error), reqs))"

definition update_automatic_replies :: "tier_net \<Rightarrow> tier_client \<Rightarrow> (string \<times> json) list \<Rightarrow> go_error option \<times> tier_request list" where
  "update_automatic_replies net c setting =
     (case tier_do net c ''POST'' ''beta/users/updateAutomaticRepliesSetting'' (Some (JObj setting)) of (r, reqs) \<Rightarrow> (the_err r, reqs))"

definition middle_tier_client :: "token_env \<Rightarrow> tier_net \<Rightarrow> token_world \<Rightarrow> (go_error + tier_client) \<times> token_world" where
  "middle_tier_client tenv net tw =
     (let base = trim_space (lm_middle_url (tw_meta tw)) in
      if base = [] then (Inl (Plain ''the Teams middle tier URL is not known yet: it comes with the next login refresh''), tw)
      else (case resource_token tenv middletier_scope tw of
              (Inl e, tw1) \<Rightarrow> (Inl (Prefixed ''getting a middle tier token failed: '' e), tw1)
            | (Inr (token, _), tw1) \<Rightarrow>
                (if tt_http net then Inr \<lparr>tl_base = base, tl_token = token, tl_skype = lm_skype (tw_meta tw1)\<rparr>
                 else Inl (Plain ''no HTTP client''), tw1)))"

section \<open>Automatic replies\<close>

datatype oof_status = Always | Scheduled zoned zoned | Disabled

record oof_request =
  oq_status :: oof_status
  oq_message :: string

definition oof_time :: "command_env \<Rightarrow> string \<Rightarrow> string + zoned" where
  "oof_time env arg = (case ce_time env arg of Some z \<Rightarrow> Inr z | None \<Rightarrow> Inl (''not an RFC 3339 time: '' @ arg))"

definition oof_usage :: string where
  "oof_usage = ''[on [until <time>] <message> | from <time> until <time> <message> | off]  (times RFC 3339)''"

definition parse_oof_on :: "command_env \<Rightarrow> string list \<Rightarrow> string + oof_request option" where
  "parse_oof_on env rest =
     (let finish = (\<lambda>st words. let m = join_with '' '' words in
            if m = [] then Inl ''an automatic reply needs a message'' else Inr (Some \<lparr>oq_status = st, oq_message = m\<rparr>)) in
      if 2 \<le> length rest \<and> equal_fold (rest ! 0) ''until''
      then (case oof_time env (rest ! 1) of Inl e \<Rightarrow> Inl e | Inr stop \<Rightarrow> finish (Scheduled (ce_now env) stop) (drop 2 rest))
      else finish Always rest)"

definition parse_oof_from :: "command_env \<Rightarrow> string list \<Rightarrow> string + oof_request option" where
  "parse_oof_from env args =
     (if length args < 5 \<or> \<not> equal_fold (args ! 2) ''until'' then Inl ''usage: from <time> until <time> <message>''
      else case oof_time env (args ! 1) of
        Inl e \<Rightarrow> Inl e
      | Inr start \<Rightarrow>
          (case oof_time env (args ! 3) of
             Inl e \<Rightarrow> Inl e
           | Inr stop \<Rightarrow>
               if fst stop \<le> fst start then Inl ''the end is not after the start''
               else Inr (Some \<lparr>oq_status = Scheduled start stop, oq_message = join_with '' '' (drop 4 args)\<rparr>)))"

definition parse_oof_args :: "command_env \<Rightarrow> string list \<Rightarrow> string + oof_request option" where
  "parse_oof_args env args =
     (case args of
        [] \<Rightarrow> Inr None
      | w # rest \<Rightarrow>
          if to_lower w = ''off'' then Inr (Some \<lparr>oq_status = Disabled, oq_message = []\<rparr>)
          else if to_lower w = ''on'' then parse_oof_on env rest
          else if to_lower w = ''from'' then parse_oof_from env args
          else Inl (''usage: oof '' @ oof_usage))"

definition oof_status_text :: "oof_status \<Rightarrow> string" where
  "oof_status_text s = (case s of Always \<Rightarrow> ''alwaysEnabled'' | Scheduled _ _ \<Rightarrow> ''scheduled'' | Disabled \<Rightarrow> ''disabled'')"

text \<open>The new setting: what the request says on top of the old one.\<close>

definition oof_setting :: "oof_request \<Rightarrow> (string \<times> json) list \<Rightarrow> (string \<times> json) list" where
  "oof_setting req current =
     (let put = (\<lambda>k v. AList.update k (JStr v));
          s0 = put ''status'' (oof_status_text (oq_status req)) current;
          s1 = (if oq_status req = Disabled then s0
                else put ''externalReplyMessage'' (oq_message req) (put ''internalReplyMessage'' (oq_message req) s0));
          s2 = (case oq_status req of
                  Scheduled start stop \<Rightarrow> put ''scheduledEndDateTime'' (format_zoned stop) (put ''scheduledStartDateTime'' (format_zoned start) s1)
                | _ \<Rightarrow> s1)
      in if map_of s2 ''externalAudience'' = None then put ''externalAudience'' ''all'' s2 else s2)"

definition oof_answer :: "oof_status \<Rightarrow> string" where
  "oof_answer s =
     (let when = (\<lambda>z. format_weekday z @ '' '' @ format_day z @ '' '' @ format_clock z) in
      case s of
        Disabled \<Rightarrow> ''Automatic replies turned off.''
      | Always \<Rightarrow> ''Automatic replies on until turned off.''
      | Scheduled start stop \<Rightarrow> ''Automatic replies on from '' @ when start @ '' until '' @ when stop @ ''.'')"

definition fn_oof ::
  "command_env \<Rightarrow> token_env \<Rightarrow> tier_net \<Rightarrow> string list \<Rightarrow> token_world \<Rightarrow> string \<times> tier_request list \<times> token_world" where
  "fn_oof env tenv net args tw =
     (case parse_oof_args env args of
        Inl e \<Rightarrow> (e, [], tw)
      | Inr req \<Rightarrow>
          (case ce_no_client env of
             Some r \<Rightarrow> (r, [], tw)
           | None \<Rightarrow>
               (case middle_tier_client tenv net tw of
                  (Inl e, tw1) \<Rightarrow> (err_text e, [], tw1)
                | (Inr c, tw1) \<Rightarrow>
                    (case get_automatic_replies net c of
                       (Inl e, reqs) \<Rightarrow> (''Reading your automatic replies failed: '' @ err_text e, reqs, tw1)
                     | (Inr current, reqs) \<Rightarrow>
                         (case req of
                            None \<Rightarrow> (''Your Teams automatic replies:'' @ [CHR 0x0A] @ ''```json'' @ [CHR 0x0A] @ tt_pretty net current @
                                      [CHR 0x0A] @ ''```'', reqs, tw1)
                          | Some q \<Rightarrow>
                              (case update_automatic_replies net c (oof_setting q current) of
                                 (Some e, reqs2) \<Rightarrow> (''Setting your automatic replies failed: '' @ err_text e, reqs @ reqs2, tw1)
                               | (None, reqs2) \<Rightarrow> (oof_answer (oq_status q), reqs @ reqs2, tw1)))))))"

section \<open>Chats\<close>

definition chat_usage :: string where "chat_usage = ''<pin|unpin|mute|unmute|unread> [<room ID>]''"

text \<open>\<open>row\<close> is the thread's row in the database, \<open>horizon\<close> what is known of the user's read position.\<close>

definition chat_action ::
  "teams_net \<Rightarrow> decode_env \<Rightarrow> teams_client \<Rightarrow> thread_state option \<Rightarrow> string \<Rightarrow> gotime \<Rightarrow> string \<Rightarrow> string \<Rightarrow> string \<Rightarrow> call_end \<times> teams_request list" where
  "chat_action net dec c row horizon now quoted_action thread action =
     (let conv = conversation_of row thread; ret = (\<lambda>(e, reqs). (Returned e, reqs)) in
      if action \<in> {''pin'', ''unpin''}
      then (case pinnable_conversation_id row thread of
              None \<Rightarrow> (Returned (Some (Plain ''Teams cannot pin this chat (channels are not pinned this way)'')), [])
            | Some cv \<Rightarrow> set_chat_pinned net dec c cv (action = ''pin''))
      else if action \<in> {''mute'', ''unmute''} then ret (set_chat_muted net c conv (action = ''mute''))
      else if action = ''unread'' then ret (mark_chat_unread net c conv horizon now)
      else (Returned (Some (Plain (''unknown action '' @ quoted_action @ '': '' @ chat_usage))), []))"

text \<open>The answer to a failure has the body of a user-properties error.  A panic has no answer.\<close>

definition fn_chat ::
  "command_env \<Rightarrow> teams_net \<Rightarrow> decode_env \<Rightarrow> teams_client \<Rightarrow> (string \<Rightarrow> string option) \<Rightarrow> (string \<Rightarrow> thread_state option) \<Rightarrow> (string \<Rightarrow> string) \<Rightarrow>
   string option \<Rightarrow> string list \<Rightarrow> string option \<times> teams_request list" where
  "fn_chat env net dec c portal_of row horizon here args =
     (if length args \<notin> {1, 2} then (Some (usage_of ''chat'' chat_usage), [])
      else let action = to_lower (args ! 0) in
      case (if length args = 2 then portal_of (args ! 1) else here) of
        None \<Rightarrow> (Some (if length args = 2 then args ! 1 @ '' is not a bridged Teams chat.''
                   else ''Run this in a bridged room, or name the room: `$cmdprefix chat '' @ chat_usage @ ''`''), [])
      | Some thread \<Rightarrow>
          (case ce_no_client env of
             Some r \<Rightarrow> (Some r, [])
           | None \<Rightarrow>
               (case chat_action net dec c (row thread) (horizon thread) (fst (ce_now env)) (ce_quote env action) thread action of
                  (Nil_Map_Panic, reqs) \<Rightarrow> (None, reqs)
                | (Returned None, reqs) \<Rightarrow> (Some (''Teams chat '' @ action @ '': done (Matrix follows within a minute).''), reqs)
                | (Returned (Some e), reqs) \<Rightarrow>
                    (Some (''Teams chat '' @ action @ '' failed: '' @ err_text e @
                       (case e of ApiError _ _ b \<Rightarrow> if b \<noteq> [] then '': '' @ b else [] | _ \<Rightarrow> [])), reqs))))"

text \<open>\<open>forward\<close>: the message of an event with its thread, to the thread of a room.\<close>

definition fn_forward ::
  "command_env \<Rightarrow> teams_net \<Rightarrow> teams_client \<Rightarrow> (string \<Rightarrow> (string \<times> string) option) \<Rightarrow> (string \<Rightarrow> string option) \<Rightarrow> (string \<Rightarrow> thread_state option) \<Rightarrow>
   string list \<Rightarrow> string \<times> teams_request list" where
  "fn_forward env net c event_message portal_of row args =
     (case args of
        [event, room] \<Rightarrow>
          (case event_message event of
             None \<Rightarrow> (event @ '' is not a bridged Teams message.'', [])
           | Some (thread, msg) \<Rightarrow>
               (case portal_of room of
                  None \<Rightarrow> (room @ '' is not a bridged Teams chat.'', [])
                | Some target \<Rightarrow>
                    (case ce_no_client env of
                       Some r \<Rightarrow> (r, [])
                     | None \<Rightarrow>
                         (let x = forward_messages net c (conversation_of (row thread) thread) [msg] (conversation_of (row target) target) in
                          (case sn_err x of
                             Some e \<Rightarrow> ''Forwarding failed: '' @ err_text e
                           | None \<Rightarrow> ''Forwarded in Teams; it appears in the chat shortly.'', sn_requests x)))))
      | _ \<Rightarrow> (usage_of ''forward'' ''<event ID> <target room ID>'', []))"

section \<open>Facts\<close>

text \<open>A setting of automatic replies keeps all of the old one that it does not name.\<close>

lemma oof_keeps_others:
  assumes "k \<notin> {''status'', ''internalReplyMessage'', ''externalReplyMessage'', ''scheduledStartDateTime'', ''scheduledEndDateTime''}"
    and "map_of current k = Some v"
  shows "map_of (oof_setting req current) k = Some v"
proof -
  have keep: "map_of (AList.update k' x s) k = map_of s k" if "k \<noteq> k'" for k' x and s :: "(string \<times> json) list"
    using that by (simp add: update_conv')
  have named: "k \<noteq> ''status''" "k \<noteq> ''internalReplyMessage''" "k \<noteq> ''externalReplyMessage''"
      "k \<noteq> ''scheduledStartDateTime''" "k \<noteq> ''scheduledEndDateTime''"
    using assms(1) by simp_all
  show ?thesis
  proof (cases "k = ''externalAudience''")
    case True
    then show ?thesis using assms(2) keep named by (cases "oq_status req") (simp_all add: oof_setting_def Let_def)
  next
    case False
    then show ?thesis using assms(2) by (cases "oq_status req") (simp_all add: oof_setting_def Let_def keep named)
  qed
qed

text \<open>\<open>from\<close> makes sure the end is after the start; \<open>on until\<close> does not, and takes a time in the past.\<close>

lemma oof_from_ordered:
  "parse_oof_from env args = Inr (Some q) \<Longrightarrow> \<exists>start stop. oq_status q = Scheduled start stop \<and> fst start < fst stop"
  by (auto simp: parse_oof_from_def split: if_splits sum.splits)

lemma oof_until_past:
  assumes "ce_time env t = Some stop" and "fst stop < fst (ce_now env)" and "m \<noteq> []"
  shows "parse_oof_args env [''on'', ''until'', t, m] = Inr (Some \<lparr>oq_status = Scheduled (ce_now env) stop, oq_message = m\<rparr>)"
  using assms by (simp add: parse_oof_args_def parse_oof_on_def oof_time_def fold_eval Let_def)

text \<open>An expiry that is accepted is none, or after now.\<close>

lemma expiry_after_now: "parse_expiry env arg = Inr z \<Longrightarrow> arg \<noteq> [] \<Longrightarrow> fst (ce_now env) < fst z"
  by (auto simp: parse_expiry_def split: if_splits option.splits)

end
