(* ===== verification/Account_Data.thy ===== *)
theory Account_Data
  imports Auth_Tokens Graph_Directory Room_Names Go_Text
begin

text \<open>
  What the connector puts in the user's account data: the activity feed of Teams (pkg/connector/activity_feed.go), and the files of a
  channel (channel_files.go, over internal/teams/graph/channel_files.go).

  The rooms, events and pages of messages are parameters, as is whether account data can be set; what is published is recorded.
\<close>

section \<open>The activity feed\<close>

record activity_item =
  ai_id :: string
  ai_type :: string
  ai_ts :: int
  ai_who :: string
  ai_who_id :: string
  ai_preview :: string
  ai_topic :: string
  ai_thread :: string
  ai_room :: string
  ai_event :: string

text \<open>The first JSON value of a text is what a stream decoder reads.\<close>

record activity_env =
  af_json_first :: "string \<Rightarrow> json option"
  af_time :: "string \<Rightarrow> gotime option"
  af_messages :: "go_error + remote_message list"
  af_room :: "string \<Rightarrow> string option"
  af_event :: "string \<Rightarrow> string option"
  af_publish_err :: "activity_item list \<Rightarrow> go_error option"

definition parse_activity :: "activity_env \<Rightarrow> json option \<Rightarrow> (string \<times> json) list option" where
  "parse_activity env props =
     (case Option.bind props (raw_field ''activity'') of
        Some (Some raw) \<Rightarrow>
          (case (case raw of JStr s \<Rightarrow> af_json_first env s | JNull \<Rightarrow> af_json_first env [] | j \<Rightarrow> Some j) of
             Some JNull \<Rightarrow> Some []
           | Some (JObj kvs) \<Rightarrow> Some kvs
           | _ \<Rightarrow> None)
      | _ \<Rightarrow> None)"

text \<open>The first of the keys that has a text, or a number.  Of equal keys the last counts.\<close>

fun activity_string :: "(string \<times> json) list \<Rightarrow> string list \<Rightarrow> string" where
  "activity_string a [] = []"
| "activity_string a (k # ks) =
     (case map_of (rev a) k of
        Some (JStr s) \<Rightarrow> if trim_space s \<noteq> [] then trim_space s else activity_string a ks
      | Some (JNum n) \<Rightarrow> n
      | _ \<Rightarrow> activity_string a ks)"

definition activity_item_of :: "activity_env \<Rightarrow> remote_message \<Rightarrow> (string \<times> json) list \<Rightarrow> activity_item" where
  "activity_item_of env m a =
     (let thread = activity_string a [''sourceThreadId''];
          room = (if thread = [] then None else af_room env thread);
          msg = activity_string a [''sourceMessageId''] in
      \<lparr>ai_id = message_id m, ai_type = activity_string a [''activityType''],
       ai_ts = unix_milli (case af_time env (activity_string a [''activityTimestamp'']) of Some t \<Rightarrow> t | None \<Rightarrow> msg_timestamp m),
       ai_who = activity_string a [''sourceUserImDisplayName'', ''sourceUserDisplayName''],
       ai_who_id = activity_string a [''sourceUserId''], ai_preview = activity_string a [''messagePreview''],
       ai_topic = activity_string a [''sourceThreadTopic''], ai_thread = thread,
       ai_room = (case room of None \<Rightarrow> [] | Some r \<Rightarrow> r),
       ai_event = (if room = None \<or> msg = [] then [] else case af_event env msg of None \<Rightarrow> [] | Some e \<Rightarrow> e)\<rparr>)"

definition activity_items :: "activity_env \<Rightarrow> remote_message list \<Rightarrow> activity_item list" where
  "activity_items env ms =
     stable_sort (\<lambda>a b. ai_ts b < ai_ts a)
       (List.map_filter (\<lambda>m. map_option (activity_item_of env m) (parse_activity env (properties_raw m))) ms)"

definition activity_sig :: "activity_item \<Rightarrow> string" where "activity_sig i = ai_id i @ ''/'' @ ai_event i"

text \<open>The signature of the newest item is the state; with the lists published, also those that could not be.\<close>

definition poll_activity_feed :: "activity_env \<Rightarrow> string \<Rightarrow> string \<times> activity_item list list" where
  "poll_activity_feed env sig =
     (case af_messages env of
        Inl _ \<Rightarrow> (sig, [])
      | Inr ms \<Rightarrow>
          (case activity_items env ms of
             [] \<Rightarrow> (sig, [])
           | i # is \<Rightarrow>
               if activity_sig i = sig then (sig, [])
               else (if af_publish_err env (i # is) = None then activity_sig i else sig, [i # is])))"

section \<open>The files of a channel\<close>

record channel_file =
  cf_name :: string
  cf_size :: int
  cf_modified :: string
  cf_modified_by :: string
  cf_web_url :: string
  cf_folder :: bool
  cf_path :: string
  cf_children :: int

record folder_item =
  fi_id :: string
  fi_name :: string
  fi_size :: int
  fi_web_url :: string
  fi_modified :: string
  fi_modified_by :: string
  fi_children :: "int option"
  fi_drive :: string

text \<open>A pointer to a struct: nil for null, and merged by every object.\<close>

fun into_folder :: "int option \<Rightarrow> json list \<Rightarrow> int option option" where
  "into_folder cur [] = Some cur"
| "into_folder cur (JNull # vs) = into_folder None vs"
| "into_folder cur (JObj kvs # vs) =
     Option.bind (Option.bind (field_values ''childCount'' (JObj kvs)) (into_int64 (case cur of None \<Rightarrow> 0 | Some n \<Rightarrow> n)))
       (\<lambda>n. into_folder (Some n) vs)"
| "into_folder cur (v # vs) = None"

definition decode_folder_item :: "json \<Rightarrow> folder_item option" where
  "decode_folder_item j =
     (case (string_field ''id'' j, string_field ''name'' j, int_field ''size'' j, string_field ''webUrl'' j,
            string_field ''lastModifiedDateTime'' j,
            Option.bind (Option.bind (struct_field ''lastModifiedBy'' j) (struct_field ''user'')) (string_field ''displayName''),
            Option.bind (field_values ''folder'' j) (into_folder None),
            Option.bind (struct_field ''parentReference'' j) (string_field ''driveId'')) of
        (Some i, Some n, Some sz, Some u, Some mo, Some by, Some fo, Some d) \<Rightarrow>
          Some \<lparr>fi_id = i, fi_name = n, fi_size = sz, fi_web_url = u, fi_modified = mo, fi_modified_by = by, fi_children = fo, fi_drive = d\<rparr>
      | _ \<Rightarrow> None)"

definition graph_get_json :: "dir_net \<Rightarrow> graph_client \<Rightarrow> string \<Rightarrow> (json \<Rightarrow> 'a option) \<Rightarrow> go_error + 'a" where
  "graph_get_json net c url d =
     (case graph_ready c of
        Some e \<Rightarrow> Inl e
      | None \<Rightarrow>
          (case dir_get net 0 url of
             Inl e \<Rightarrow> Inl e
           | Inr r \<Rightarrow>
               if not_ok r then Inl (ApiError ''graph upload request failed'' (resp_status r) (take max_upload_error_bytes (resp_body r)))
               else (case Option.bind (dn_json net (resp_body r)) d of None \<Rightarrow> Inl json_error | Some x \<Rightarrow> Inr x)))"

definition files_folder_url :: "string \<Rightarrow> string \<Rightarrow> string" where
  "files_folder_url team channel =
     ''https://graph.microsoft.com/v1.0/teams/'' @ path_escape team @ ''/channels/'' @ path_escape channel @ ''/filesFolder''"

definition children_url :: "string \<Rightarrow> string \<Rightarrow> string" where
  "children_url drive item =
     ''https://graph.microsoft.com/v1.0/drives/'' @ path_escape drive @ ''/items/'' @ path_escape item @ ''/children?$top=200''"

definition list_children :: "dir_net \<Rightarrow> graph_client \<Rightarrow> string \<Rightarrow> string \<Rightarrow> go_error + folder_item list" where
  "list_children net c drive item =
     (case graph_get_json net c (children_url drive item)
             (\<lambda>j. Option.bind (slice_field ''value'' j) (\<lambda>js. all_some (map decode_folder_item js))) of
        Inl e \<Rightarrow> Inl e
      | Inr is \<Rightarrow> Inr (stable_sort (\<lambda>a b. 0 < byte_compare (fi_modified a) (fi_modified b)) is))"

definition to_channel_file :: "folder_item \<Rightarrow> string \<Rightarrow> channel_file" where
  "to_channel_file i path =
     \<lparr>cf_name = fi_name i, cf_size = fi_size i, cf_modified = fi_modified i, cf_modified_by = fi_modified_by i, cf_web_url = fi_web_url i,
      cf_folder = (fi_children i \<noteq> None), cf_path = path, cf_children = (case fi_children i of None \<Rightarrow> 0 | Some n \<Rightarrow> n)\<rparr>"

text \<open>An entry, and what is in it if it is a folder that can be read.\<close>

definition files_of_item :: "dir_net \<Rightarrow> graph_client \<Rightarrow> string \<Rightarrow> folder_item \<Rightarrow> channel_file list" where
  "files_of_item net c drive i =
     to_channel_file i [] #
     (if fi_children i \<noteq> None \<and> 0 < the (fi_children i)
      then (case list_children net c drive (fi_id i) of
              Inl _ \<Rightarrow> [] | Inr cs \<Rightarrow> map (\<lambda>x. to_channel_file x (fi_name i)) cs)
      else [])"

definition list_channel_files :: "dir_net \<Rightarrow> graph_client \<Rightarrow> string \<Rightarrow> string \<Rightarrow> go_error + channel_file list" where
  "list_channel_files net c team channel =
     (case graph_get_json net c (files_folder_url team channel) decode_folder_item of
        Inl e \<Rightarrow> Inl e
      | Inr folder \<Rightarrow>
          if fi_drive folder = [] \<or> fi_id folder = [] then Inl (Plain ''the channel has no files folder'')
          else (case list_children net c (fi_drive folder) (fi_id folder) of
                  Inl e \<Rightarrow> Inl e
                | Inr items \<Rightarrow> Inr (concat (map (files_of_item net c (fi_drive folder)) items))))"

text \<open>
  The command: the channel of a room; the channels known, or else those Graph lists; the properties of the thread for a
  channel that is not among them; the files, put in the room's account data.  The answer, what was put where, the
  channels known after it and the tokens.
\<close>

record files_env =
  fe_no_client :: "string option"
  fe_portal :: "string \<Rightarrow> (string \<times> string) option"
  fe_fetch_channels :: "channel_map option"
  fe_thread :: "string \<Rightarrow> go_error + (string \<times> string) list"
  fe_puppet :: bool
  fe_set_err :: "go_error option"

definition prop_of :: "(string \<times> string) list \<Rightarrow> string \<Rightarrow> string" where
  "prop_of props k = (case map_of props k of None \<Rightarrow> [] | Some v \<Rightarrow> v)"

definition no_channel :: channel_info where
  "no_channel = \<lparr>ci_channel = [], ci_team = [], ci_team_id = [], ci_description = []\<rparr>"

text \<open>The team and name of a channel, and the names to tell of when there is no team.\<close>

definition channel_of :: "files_env \<Rightarrow> channel_map \<Rightarrow> string \<Rightarrow> channel_info \<times> string list" where
  "channel_of env channels channel =
     (let known = (case map_of channels channel of None \<Rightarrow> no_channel | Some i \<Rightarrow> i) in
      if ci_team_id known \<noteq> [] then (known, [])
      else (case fe_thread env channel of
              Inl e \<Rightarrow> (known, [''error: '' @ err_text e])
            | Inr props \<Rightarrow>
                (known\<lparr>ci_team_id := prop_of props ''groupId'',
                       ci_channel := (if ci_channel known = [] then prop_of props ''topic'' else ci_channel known)\<rparr>,
                 stable_sort (\<lambda>a b. byte_compare a b < 0) (map fst props))))"

definition fn_files ::
  "files_env \<Rightarrow> token_env \<Rightarrow> dir_net \<Rightarrow> (string \<Rightarrow> graph_client) \<Rightarrow> (string \<times> string) option \<Rightarrow> string list \<Rightarrow> channel_map option \<Rightarrow> token_world \<Rightarrow>
   string \<times> (string \<times> channel_file list) list \<times> channel_map option \<times> token_world" where
  "fn_files env tenv net client here args chans tw =
     (case (case args of [room] \<Rightarrow> fe_portal env room | _ \<Rightarrow> here) of
        None \<Rightarrow> (''Run this in a channel's room, or name it: `$cmdprefix files <room ID>`'', [], chans, tw)
      | Some (channel, room) \<Rightarrow>
          (case fe_no_client env of
             Some r \<Rightarrow> (r, [], chans, tw)
           | None \<Rightarrow>
               if \<not> is_channel_thread channel then (''Only Teams channels have a Files tab.'', [], chans, tw)
               else (let known = (case chans of None \<Rightarrow> fe_fetch_channels env | Some m \<Rightarrow> Some m);
                         list = (case known of None \<Rightarrow> [] | Some m \<Rightarrow> m) in
                 (case channel_of env list channel of (info, names) \<Rightarrow>
                  if ci_team_id info = []
                  then (''Teams files: this channel's team is not known ('' @ show_nat (length list) @
                        '' channels known from Graph; thread properties: '' @ join_with '', '' names @ '').'', [], known, tw)
                  else (case ensure_valid_graph_token tenv tw of
                     (Some e, tw1) \<Rightarrow> (''Teams files failed: '' @ err_text e, [], known, tw1)
                   | (None, tw1) \<Rightarrow>
                       (case get_graph_access_token (te_now tenv) (tw_meta tw1) of
                          Inl _ \<Rightarrow> (''Teams files failed: no graph access token available'', [], known, tw1)
                        | Inr token \<Rightarrow>
                            (case list_channel_files net (client token) (ci_team_id info) channel of
                               Inl e \<Rightarrow> (''Teams files failed: '' @ err_text e, [], known, tw1)
                             | Inr files \<Rightarrow>
                                 if \<not> fe_puppet env
                                 then (''Teams files failed: no double puppet to write the room's account data'', [], known, tw1)
                                 else (case fe_set_err env of
                                         Some e \<Rightarrow> ''Teams files failed: '' @ err_text e
                                       | None \<Rightarrow> ''Teams files: '' @ show_nat (length files) @ '' in '' @ ci_channel info @ ''.'',
                                       [(room, files)], known, tw1))))))))"

section \<open>Facts\<close>

text \<open>The feed is published when its newest item is new or was bridged meanwhile, and is then newest first.\<close>

lemma published_feed_newest_first:
  assumes "poll_activity_feed env sig = (sig', [is])"
  shows "sorted_wrt (\<lambda>a b. ai_ts b \<le> ai_ts a) is \<and> is \<noteq> [] \<and> activity_sig (hd is) \<noteq> sig"
proof -
  obtain ms where ms: "af_messages env = Inr ms" using assms by (auto simp: poll_activity_feed_def split: sum.splits)
  have "sorted_wrt (\<lambda>a b. \<not> ai_ts a < ai_ts b) (activity_items env ms)"
    unfolding activity_items_def by (rule sorted_stable_sort) auto
  then have s: "sorted_wrt (\<lambda>a b. ai_ts b \<le> ai_ts a) (activity_items env ms)" by (simp add: not_less)
  show ?thesis
  proof (cases "activity_items env ms")
    case Nil
    then show ?thesis using assms by (simp add: poll_activity_feed_def ms)
  next
    case (Cons a l)
    then have "is = a # l \<and> activity_sig a \<noteq> sig" using assms by (simp add: poll_activity_feed_def ms split: if_splits)
    with s Cons show ?thesis by simp
  qed
qed

lemma feed_published_once:
  "\<forall>l. af_publish_err env l = None \<Longrightarrow> poll_activity_feed env (fst (poll_activity_feed env sig)) = (fst (poll_activity_feed env sig), [])"
  by (auto simp: poll_activity_feed_def split: sum.splits list.splits)

end
