(* ===== verification/Long_Poll.thy ===== *)
theory Long_Poll
  imports Poll_Loop Chat_State Auth_Tokens
begin

text \<open>
  Notifications by long poll: the endpoint and its events (client/longpoll.go), and the loop that holds a request open
  and wakes the poll loop (sync_loop.go).

  The loop runs until its context ends, another client replaces it or a token cannot be had, so it is the run of
  \<open>long_poll_turn\<close> over turns, each with the clock, tokens, network and contexts it meets.
\<close>

section \<open>Events\<close>

record poll_event =
  ev_type :: string
  ev_resource :: "json option"
  ev_link :: string

text \<open>\<open>ExtractThreadIDFromResource\<close>: what stands between the first two \<open>/conversations/\<close>, else \<open>/threads/\<close>, up to a slash.\<close>

definition part_after :: "string \<Rightarrow> string \<Rightarrow> string option" where
  "part_after sep s = (case cut s sep of (_, rest, found) \<Rightarrow> if found then Some (fst (cut rest sep)) else None)"

definition thread_of_resource :: "string \<Rightarrow> string" where
  "thread_of_resource resource =
     (case (case part_after ''/conversations/'' resource of Some p \<Rightarrow> Some p | None \<Rightarrow> part_after ''/threads/'' resource) of
        None \<Rightarrow> []
      | Some rest \<Rightarrow> (let a = takeWhile (\<lambda>c. c \<noteq> CHR ''/'') rest in if a = [] then rest else a))"

definition event_thread :: "poll_event \<Rightarrow> string" where
  "event_thread ev =
     (if thread_of_resource (ev_link ev) \<noteq> [] then thread_of_resource (ev_link ev)
      else case ev_resource ev of
        None \<Rightarrow> []
      | Some (JStr path) \<Rightarrow> thread_of_resource path
      | Some JNull \<Rightarrow> thread_of_resource []
      | Some j \<Rightarrow>
          (case (string_field ''conversationLink'' j, string_field ''to'' j) of
             (Some link, Some to) \<Rightarrow> if thread_of_resource link \<noteq> [] then thread_of_resource link else trim_space to
           | _ \<Rightarrow> []))"

definition decode_poll_event :: "json \<Rightarrow> poll_event option" where
  "decode_poll_event j =
     (case (string_field ''resourceType'' j, raw_field ''resource'' j, string_field ''resourceLink'' j, string_field ''time'' j) of
        (Some t, Some r, Some l, Some _) \<Rightarrow> Some \<lparr>ev_type = t, ev_resource = r, ev_link = l\<rparr> | _ \<Rightarrow> None)"

section \<open>The endpoint\<close>

definition default_endpoints_url :: string where
  "default_endpoints_url = ''https://teams.live.com/api/chatsvc/consumer/v1/users/ME/endpoints''"

definition derive_endpoints_url :: "teams_client \<Rightarrow> string" where
  "derive_endpoints_url c =
     (case before_sub (if tc_send_url c = [] then default_send_messages_url else tc_send_url c) ''/v1/users/ME'' of
        Some b \<Rightarrow> b @ ''/v1/users/ME/endpoints'' | None \<Rightarrow> default_endpoints_url)"

definition derive_alternate_endpoints_url :: "teams_client \<Rightarrow> string" where
  "derive_alternate_endpoints_url c =
     (if tc_send_url c = [] \<or> sublist ''teams.live.com'' (tc_send_url c) then [] else default_endpoints_url)"

definition endpoint_payload :: json where
  "endpoint_payload = JObj [(''endpointFeatures'', JStr ''Agent,Presence2023''),
     (''subscriptions'', JArr [JObj [(''channelType'', JStr ''HttpLongPoll''),
        (''interestedResources'', JArr [JStr ''/v1/users/ME/conversations/ALL/messages'',
           JStr ''/v1/users/ME/conversations/ALL/properties'', JStr ''/v1/threads/ALL''])]])]"

text \<open>A request without repetition, and what its 2xx answer gives; \<open>failed\<close> is the error of any other.\<close>

definition plain_call ::
  "teams_net \<Rightarrow> (http_response \<Rightarrow> go_error) \<Rightarrow> (string \<Rightarrow> go_error + 'a) \<Rightarrow> teams_request \<Rightarrow> (go_error + 'a) \<times> teams_request list" where
  "plain_call net failed read req =
     (case tn_url_err net (tr_url req) of
        Some e \<Rightarrow> (Inl e, [])
      | None \<Rightarrow>
          (case tn_answer net req of
             NoAnswer e \<Rightarrow> Inl e
           | Answered r \<Rightarrow>
               if resp_status r < 200 \<or> 300 \<le> resp_status r then Inl (failed r) else read (resp_body r), [req]))"

definition endpoint_id :: "decode_env \<Rightarrow> string \<Rightarrow> string \<Rightarrow> go_error + string" where
  "endpoint_id dec location body =
     (case Option.bind (de_json dec body) (string_field ''id'') of
        Some (c # i) \<Rightarrow> Inr (c # i)
      | _ \<Rightarrow> if location = [] then Inl (Plain ''could not extract endpoint ID from registration response'')
             else Inr (last (split_on (CHR ''/'') (trim_right_char (CHR ''/'') location))))"

definition try_register_endpoint ::
  "teams_net \<Rightarrow> decode_env \<Rightarrow> teams_client \<Rightarrow> string \<Rightarrow> (go_error + string) \<times> teams_request list" where
  "try_register_endpoint net dec c url =
     (let req = make_request c ''POST'' url (Some endpoint_payload) in
      plain_call net
        (\<lambda>r. ApiError (''endpoint registration failed with status '' @ show_int (resp_status r) @ '': '' @ take max_error_body_bytes (resp_body r))
           (resp_status r) (take max_error_body_bytes (resp_body r)))
        (endpoint_id dec (tn_location net req)) req)"

definition gone_endpoint :: "go_error \<Rightarrow> bool" where
  "gone_endpoint e \<longleftrightarrow> (case e of ApiError _ st _ \<Rightarrow> st = 404 \<or> st = 410 | _ \<Rightarrow> False)"

text \<open>At an address that has no endpoints the consumer one is tried; the first error is the one returned.\<close>

definition register_endpoint ::
  "teams_net \<Rightarrow> decode_env \<Rightarrow> teams_client \<Rightarrow> (go_error + string) \<times> teams_request list" where
  "register_endpoint net dec c =
     (if \<not> tc_has_http c then (Inl missing_http, [])
      else if tc_token c = [] then (Inl missing_token, [])
      else let alt = derive_alternate_endpoints_url c in
      case try_register_endpoint net dec c (derive_endpoints_url c) of
        (Inr i, reqs) \<Rightarrow> (Inr i, reqs)
      | (Inl e, reqs) \<Rightarrow>
          if gone_endpoint e \<and> alt \<noteq> [] \<and> alt \<noteq> derive_endpoints_url c
          then (case try_register_endpoint net dec c alt of
                  (Inr i, reqs2) \<Rightarrow> (Inr i, reqs @ reqs2) | (Inl _, reqs2) \<Rightarrow> (Inl e, reqs @ reqs2))
          else (Inl e, reqs))"

definition decode_poll_answer :: "decode_env \<Rightarrow> string \<Rightarrow> go_error + poll_event list" where
  "decode_poll_answer dec body =
     (case Option.bind (Option.bind (de_json dec body) (slice_field ''eventMessages'')) (\<lambda>js. all_some (map decode_poll_event js)) of
        None \<Rightarrow> Inl json_error | Some evs \<Rightarrow> Inr evs)"

definition long_poll ::
  "teams_net \<Rightarrow> decode_env \<Rightarrow> teams_client \<Rightarrow> string \<Rightarrow> duration \<Rightarrow> (go_error + poll_event list) \<times> teams_request list" where
  "long_poll net dec c endpoint0 timeout =
     (let endpoint = trim_space endpoint0; secs = (if timeout div second \<le> 0 then 30 else timeout div second) in
      if \<not> tc_has_http c then (Inl missing_http, [])
      else if tc_token c = [] then (Inl missing_token, [])
      else if endpoint = [] then (Inl (Plain ''missing endpoint id''), [])
      else plain_call net
        (\<lambda>r. Plain (''long poll failed with status '' @ show_int (resp_status r) @ '': '' @ take max_error_body_bytes (resp_body r)))
        (decode_poll_answer dec)
        (make_request c ''GET''
          (derive_base_url (if tc_send_url c = [] then default_send_messages_url else tc_send_url c) @ ''/v1/users/ME/endpoints/'' @
           endpoint @ ''/subscriptions/0/poll?timeout='' @ show_int secs) None))"

section \<open>The loop\<close>

text \<open>What a turn meets: the context before it and during the wait after a failure, tokens, clock and networks.\<close>

record long_poll_env =
  le_ctx :: "go_error option"
  le_tokens :: token_env
  le_net :: teams_net
  le_register_net :: teams_net
  le_decode :: decode_env
  le_now :: gotime
  le_wait_ctx :: "go_error option"

record long_poll_state =
  ls_tokens :: token_world
  ls_consumer :: consumer
  ls_endpoint :: string
  ls_failures :: nat
  ls_up :: bool
  ls_wakeups :: "poll_wakeup list"
  ls_waits :: "duration list"
  ls_requests :: "teams_request list"

definition long_poll_timeout :: duration where "long_poll_timeout = 30 * second"
definition reregister_after :: nat where "reregister_after = 3"

text \<open>The client of the loop's own consumer.\<close>

definition consumer_client :: "consumer \<Rightarrow> teams_client" where
  "consumer_client co =
     \<lparr>tc_has_http = True, tc_token = co_token co, tc_send_url = co_send_url co, tc_messages_url = co_messages_url co, tc_executor = None\<rparr>"

definition asks_receipts :: "poll_event \<Rightarrow> bool" where
  "asks_receipts ev \<longleftrightarrow> ev_type ev \<noteq> ''NewMessage'' \<and> ev_type ev \<noteq> ''MessageUpdate''"

definition wake_threads :: "gotime \<Rightarrow> poll_event list \<Rightarrow> poll_wakeup list \<Rightarrow> poll_wakeup list" where
  "wake_threads now evs q = fold (\<lambda>ev. request_poll now (event_thread ev) (asks_receipts ev) ''longpoll'') evs q"

definition start_long_poll :: "long_poll_env \<Rightarrow> token_world \<Rightarrow> poll_wakeup list \<Rightarrow> go_error + long_poll_state" where
  "start_long_poll env tw q =
     (case ensure_valid_skype_token (le_tokens env) tw of
        (Some e, _) \<Rightarrow> Inl e
      | (None, tw1) \<Rightarrow>
          (let co = new_consumer (tw_meta tw1) in
           case register_endpoint (le_register_net env) (le_decode env) (consumer_client co) of
             (Inl e, _) \<Rightarrow> Inl e
           | (Inr i, reqs) \<Rightarrow>
               Inr \<lparr>ls_tokens = tw1, ls_consumer = co, ls_endpoint = i, ls_failures = 0, ls_up = False, ls_wakeups = q, ls_waits = [],
                    ls_requests = reqs\<rparr>))"

text \<open>A failed request: every third in a row registers the endpoint afresh, and each is followed by a wait.\<close>

definition after_failure :: "long_poll_env \<Rightarrow> long_poll_state \<Rightarrow> long_poll_state" where
  "after_failure env s0 =
     (let n = Suc (ls_failures s0); s = s0\<lparr>ls_up := False, ls_failures := n, ls_waits := ls_waits s0 @ [long_poll_delay n]\<rparr> in
      if n mod reregister_after \<noteq> 0 then s
      else (case register_endpoint (le_register_net env) (le_decode env) (consumer_client (ls_consumer s)) of
              (Inl _, reqs) \<Rightarrow> s\<lparr>ls_requests := ls_requests s @ reqs\<rparr>
            | (Inr i, reqs) \<Rightarrow> s\<lparr>ls_endpoint := i, ls_requests := ls_requests s @ reqs\<rparr>))"

text \<open>One turn, with the error that ends the loop, if one does.\<close>

definition long_poll_turn :: "long_poll_env \<Rightarrow> long_poll_state \<Rightarrow> go_error option \<times> long_poll_state" where
  "long_poll_turn env s =
     (case le_ctx env of
        Some e \<Rightarrow> (Some e, s)
      | None \<Rightarrow>
          if te_superseded (le_tokens env) then (Some Superseded, s)
          else (case ensure_valid_skype_token (le_tokens env) (ls_tokens s) of
                  (Some e, tw) \<Rightarrow> (Some e, s\<lparr>ls_tokens := tw\<rparr>)
                | (None, tw) \<Rightarrow>
                    (let co = apply_token_to_consumer (tw_meta tw) (ls_consumer s); s1 = s\<lparr>ls_tokens := tw, ls_consumer := co\<rparr> in
                     case long_poll (le_net env) (le_decode env) (consumer_client co) (ls_endpoint s1) long_poll_timeout of
                       (Inl e, reqs) \<Rightarrow>
                         (let s2 = s1\<lparr>ls_requests := ls_requests s1 @ reqs\<rparr> in
                          if is_canceled e then (Some e, s2) else (le_wait_ctx env, after_failure env s2))
                     | (Inr evs, reqs) \<Rightarrow>
                         (None, s1\<lparr>ls_requests := ls_requests s1 @ reqs, ls_failures := 0, ls_up := True,
                            ls_wakeups := wake_threads (le_now env) evs (ls_wakeups s1)\<rparr>))))"

text \<open>A run over turns; the goroutine around the loop clears the flag when the loop has ended.\<close>

fun long_poll_run :: "long_poll_env list \<Rightarrow> long_poll_state \<Rightarrow> go_error option \<times> long_poll_state" where
  "long_poll_run [] s = (None, s)"
| "long_poll_run (env # envs) s =
     (case long_poll_turn env s of
        (Some e, s1) \<Rightarrow> (Some e, s1\<lparr>ls_up := False\<rparr>)
      | (None, s1) \<Rightarrow> long_poll_run envs s1)"

section \<open>Facts\<close>

text \<open>The path of a message names its conversation.\<close>

lemma path_names_thread:
  assumes "CHR ''/'' \<notin> set i" and "i \<noteq> []" and "CHR ''/'' \<notin> set m"
  shows "thread_of_resource (''/v1/users/ME/conversations/'' @ i @ ''/messages/'' @ m) = i"
proof -
  have first: "cut (''/v1/users/ME/conversations/'' @ i @ ''/messages/'' @ m) ''/conversations/'' = (''/v1/users/ME'', i @ ''/messages/'' @ m, True)"
    by (simp add: cut.simps)
  have "takeWhile (\<lambda>c. c \<noteq> CHR ''/'') (fst (cut (i @ ''/messages/'' @ m) ''/conversations/'')) = i"
  proof -
    have "cut (i @ x) ''/conversations/'' = (i @ fst (cut x ''/conversations/''), snd (cut x ''/conversations/''))" for x
      using assms(1) by (induction i) (auto split: prod.split)
    then show ?thesis using assms(1) by (simp add: takeWhile_append split: prod.split)
  qed
  then show ?thesis using first assms(2) by (simp add: thread_of_resource_def part_after_def Let_def)
qed

text \<open>Waits after failures: 2 seconds doubled to a minute, whatever happened before.\<close>

lemma after_failure_simps [simp]:
  "ls_failures (after_failure env s) = Suc (ls_failures s)" "\<not> ls_up (after_failure env s)"
  "ls_waits (after_failure env s) = ls_waits s @ [long_poll_delay (Suc (ls_failures s))]"
  "ls_wakeups (after_failure env s) = ls_wakeups s"
  by (auto simp: after_failure_def Let_def split: prod.splits sum.splits)

definition waits_ok :: "duration list \<Rightarrow> bool" where
  "waits_ok ws \<longleftrightarrow> (\<forall>w \<in> set ws. long_poll_retry_delay \<le> w \<and> w \<le> long_poll_max_retry_delay)"

lemma turn_waits: "waits_ok (ls_waits s) \<Longrightarrow> waits_ok (ls_waits (snd (long_poll_turn env s)))"
  using long_poll_bo.delay_bounds [of "Suc (ls_failures s)"]
  by (auto simp: long_poll_turn_def waits_ok_def Let_def split: option.splits prod.splits sum.splits)

lemma run_waits: "waits_ok (ls_waits s) \<Longrightarrow> waits_ok (ls_waits (snd (long_poll_run envs s)))"
proof (induction envs arbitrary: s)
  case (Cons env envs)
  then show ?case using turn_waits [of s env] by (auto split: prod.split option.split)
qed simp

text \<open>The flag says that the last turn was answered.\<close>

lemma turn_up: "long_poll_turn env s = (None, s1) \<Longrightarrow> ls_up s1 \<longleftrightarrow> ls_failures s1 = 0"
  by (auto simp: long_poll_turn_def Let_def split: option.splits prod.splits sum.splits if_splits)

lemma run_ended_down: "long_poll_run envs s = (Some e, s1) \<Longrightarrow> \<not> ls_up s1"
  by (induction envs arbitrary: s) (auto split: prod.splits option.splits)

text \<open>Wakeups: each event that names a thread asks for a poll of it, as long as the queue has room.\<close>

lemma request_poll_length: "length (request_poll now th r src q) \<le> Suc (length q)"
  by (simp add: request_poll_def)

lemma wakeups_queued:
  "length q + length evs \<le> wake_queue_size \<Longrightarrow>
   wake_threads now evs q = q @ map (\<lambda>ev. \<lparr>wk_thread = event_thread ev, wk_receipts = asks_receipts ev, wk_at = now, wk_source = ''longpoll''\<rparr>)
     (filter (\<lambda>ev. event_thread ev \<noteq> []) evs)"
proof (induction evs arbitrary: q)
  case (Cons ev evs)
  have "length (request_poll now (event_thread ev) (asks_receipts ev) ''longpoll'' q) + length evs \<le> wake_queue_size"
    using Cons.prems request_poll_length [of now "event_thread ev" "asks_receipts ev" "''longpoll''" q] by simp
  from Cons.IH [OF this] Cons.prems show ?case by (simp add: wake_threads_def request_poll_def)
qed (simp add: wake_threads_def)

end
