(* ===== verification/Device_Login.thy ===== *)
theory Device_Login
  imports Auth_Tokens Call_Records
begin

text \<open>
  The login with a code on another device (internal/teams/auth/devicecode.go, login_devicecode.go): asking for a code,
  polling the token endpoint until the user has signed in, and the metadata the login starts with.

  The clock and the answers of a poll differ from turn to turn, so a poll takes one \<open>token_env\<close> for each.  The wait of
  a turn may end with the context instead: \<open>cancel n\<close> is then its error.  \<open>None\<close> is a poll that does not end.
\<close>

section \<open>Asking for a code\<close>

record device_code =
  dc_code :: string
  dc_user_code :: string
  dc_uri :: string
  dc_message :: string
  dc_expires :: gotime
  dc_interval :: duration

datatype device_failure = Device_Expired | Device_Refused string string | Device_Error go_error

definition device_default_poll :: duration where "device_default_poll = 5 * second"
definition device_slow_step :: duration where "device_slow_step = 5 * second"
definition device_default_expiry :: duration where "device_default_expiry = 15 * minute"

definition device_code_endpoint_for :: "string \<Rightarrow> string" where
  "device_code_endpoint_for ep =
     (let t = trim_right_char (CHR ''/'') (trim_space ep) in
      if t = [] then [] else if suffix ''/token'' t then trim_suffix t ''/token'' @ ''/devicecode'' else t @ ''/devicecode'')"

definition decode_device_code :: "token_env \<Rightarrow> json \<Rightarrow> go_error + device_code" where
  "decode_device_code env j =
     (case (string_field ''device_code'' j, string_field ''user_code'' j, string_field ''verification_uri'' j,
            int_field ''expires_in'' j, int_field ''interval'' j, string_field ''message'' j) of
        (Some code, Some user, Some uri, Some expires, Some interval, Some msg) \<Rightarrow>
          if code = [] \<or> user = [] then Inl (Plain ''device code response missing device_code or user_code'')
          else Inr \<lparr>dc_code = code, dc_user_code = user, dc_uri = uri, dc_message = msg,
                 dc_expires = te_clock env + (if 0 < expires then mul64 expires second else device_default_expiry),
                 dc_interval = (if 0 < interval then mul64 interval second else device_default_poll)\<rparr>
      | _ \<Rightarrow> Inl json_error)"

definition request_device_code :: "token_env \<Rightarrow> auth_client \<Rightarrow> string list \<Rightarrow> go_error + device_code" where
  "request_device_code env c scopes0 =
     (if trim_space (ac_client_id c) = [] then Inl (Plain ''missing client id for device code login'')
      else let ep = device_code_endpoint_for (ac_token_ep c); scopes = (if scopes0 = [] then ac_scopes c else scopes0) in
      if ep = [] then Inl (Plain ''missing token endpoint for device code login'')
      else (case te_post env (c\<lparr>ac_token_ep := ep\<rparr>) [(''client_id'', ac_client_id c), (''scope'', join_with '' '' scopes)] of
              NoAnswer e \<Rightarrow> Inl e
            | Answered r \<Rightarrow>
                if resp_status r < 200 \<or> 300 \<le> resp_status r
                then Inl (endpoint_error ''device code'' (take 400 (resp_body r)) (resp_status r))
                else (case te_json_first env (resp_body r) of None \<Rightarrow> Inl json_error | Some j \<Rightarrow> decode_device_code env j)))"

section \<open>Polling\<close>

text \<open>A field of an error answer, where other fields may not fit: the last text it was given.\<close>

definition lenient_string :: "string \<Rightarrow> json \<Rightarrow> string" where
  "lenient_string f j =
     (case field_values f j of
        None \<Rightarrow> []
      | Some vs \<Rightarrow> fold (\<lambda>v cur. case v of JStr s \<Rightarrow> s | _ \<Rightarrow> cur) vs [])"

definition first_line :: "string \<Rightarrow> string" where
  "first_line s = takeWhile (\<lambda>c. c \<noteq> CHR 0x0D \<and> c \<noteq> CHR 0x0A) (trim_space s)"

text \<open>One request: a failure, the code of a login that is pending, or the grant.\<close>

definition device_answer :: "token_env \<Rightarrow> http_response \<Rightarrow> device_failure + string" where
  "device_answer env r =
     (let body = take 2048 (resp_body r); j = te_json env body;
          code = (case j of None \<Rightarrow> [] | Some j \<Rightarrow> lenient_string ''error'' j);
          descr = first_line (case j of None \<Rightarrow> [] | Some j \<Rightarrow> lenient_string ''error_description'' j);
          s = trim_space body; snippet = (if 400 < length s then take 400 s @ ''...(truncated)'' else s) in
      if code \<in> {''authorization_pending'', ''slow_down''} then Inr code
      else if code = ''expired_token'' then Inl Device_Expired
      else if code \<noteq> [] then Inl (Device_Refused code descr)
      else Inl (Device_Error (Plain (''token endpoint returned non-2xx status: '' @ show_int (resp_status r) @ '' body='' @ snippet))))"

definition try_device_code_token ::
  "token_env \<Rightarrow> auth_client \<Rightarrow> device_code \<Rightarrow> string \<Rightarrow> device_failure + string + auth_state" where
  "try_device_code_token env c dc scope =
     (case te_post env c [(''grant_type'', ''urn:ietf:params:oauth:grant-type:device_code''), (''client_id'', ac_client_id c),
             (''device_code'', dc_code dc)] of
        NoAnswer e \<Rightarrow> Inl (Device_Error e)
      | Answered r \<Rightarrow>
          if resp_status r < 200 \<or> 300 \<le> resp_status r
          then (case device_answer env r of Inl e \<Rightarrow> Inl e | Inr code \<Rightarrow> Inr (Inl code))
          else (case parse_token_response env (resp_body r) scope of Inl e \<Rightarrow> Inl (Device_Error e) | Inr st \<Rightarrow> Inr (Inr st)))"

definition next_interval :: "string \<Rightarrow> duration \<Rightarrow> duration" where
  "next_interval code interval = (if code = ''slow_down'' then wrap64 (interval + device_slow_step) else interval)"

text \<open>With the waits of the turns, the last of which may have been cut short.\<close>

partial_function (option) device_turns ::
  "(nat \<Rightarrow> token_env) \<Rightarrow> (nat \<Rightarrow> go_error option) \<Rightarrow> auth_client \<Rightarrow> device_code \<Rightarrow> nat \<Rightarrow> duration \<Rightarrow> duration list \<Rightarrow>
   (duration list \<times> (device_failure + auth_state)) option" where
  "device_turns E cancel c dc n interval waits =
     (if \<not> is_zero_time (dc_expires dc) \<and> dc_expires dc < te_now (E n) then Some (waits, Inl Device_Expired)
      else case cancel n of
        Some e \<Rightarrow> Some (waits @ [interval], Inl (Device_Error e))
      | None \<Rightarrow>
          (case try_device_code_token (E n) c dc (join_with '' '' (ac_scopes c)) of
             Inl e \<Rightarrow> Some (waits @ [interval], Inl e)
           | Inr (Inr st) \<Rightarrow> Some (waits @ [interval], Inr st)
           | Inr (Inl code) \<Rightarrow> device_turns E cancel c dc (Suc n) (next_interval code interval) (waits @ [interval])))"

definition first_interval :: "device_code \<Rightarrow> duration" where
  "first_interval dc = (if dc_interval dc \<le> 0 then device_default_poll else dc_interval dc)"

definition poll_device_code ::
  "(nat \<Rightarrow> token_env) \<Rightarrow> (nat \<Rightarrow> go_error option) \<Rightarrow> auth_client \<Rightarrow> device_code \<Rightarrow>
   (duration list \<times> (device_failure + auth_state)) option" where
  "poll_device_code E cancel c dc =
     (if dc_code dc = [] then Some ([], Inl (Device_Error (Plain ''missing device code'')))
      else device_turns E cancel c dc 0 (first_interval dc) [])"

section \<open>The login\<close>

text \<open>What \<open>config.go\<close> says of this login beside the settings of all.\<close>

record device_settings =
  ds_client_id :: string
  ds_scope :: string

definition default_device_client_id :: string where "default_device_client_id = ''1fec8e78-bce4-4aaf-ab1b-5451cc387264''"

definition default_device_scope :: string where
  "default_device_scope = ''https://api.spaces.skype.com/Authorization.ReadWrite offline_access openid profile''"

definition device_code_auth_client :: "device_settings \<Rightarrow> teams_config \<Rightarrow> auth_client" where
  "device_code_auth_client ds cf =
     (new_configured_auth_client cf blank_meta)
       \<lparr>ac_client_id := overridden (ds_client_id ds) default_device_client_id,
        ac_scopes := scope_words (overridden (ds_scope ds) default_device_scope)\<rparr>"

text \<open>An error of bridgev2 with its code, text and status, or one passed on.\<close>

datatype login_failure = Login_Error go_error | Resp_Error string string int

definition device_login_metadata :: "token_env \<Rightarrow> auth_client \<Rightarrow> auth_state \<Rightarrow> login_failure + login_meta" where
  "device_login_metadata env c st =
     (let access = trim_space (as_access st); refresh = trim_space (as_refresh st) in
      if access = [] then Inl (Resp_Error ''FI.MAU.TEAMS_MISSING_ACCESS_TOKEN'' ''Token response had no access token'' 502)
      else if refresh = []
      then Inl (Resp_Error ''FI.MAU.TEAMS_MISSING_REFRESH_TOKEN''
             ''Token response had no refresh token; make sure the scope includes offline_access'' 502)
      else case acquire_skype_token env c access of
        Inl e \<Rightarrow> Inl (Resp_Error ''FI.MAU.TEAMS_SKYPETOKEN_FAILED'' (''Failed to acquire skypetoken: '' @ err_text e) 502)
      | Inr sk \<Rightarrow>
          if normalize_auth_user_id (sk_id sk) = []
          then Inl (Resp_Error ''FI.MAU.TEAMS_MISSING_USER_ID'' ''Teams user ID missing from skypetoken response'' 502)
          else (let m = \<lparr>lm_refresh = refresh, lm_access_expires = as_expires st, lm_skype = sk_token sk, lm_skype_expires = sk_expires sk,
                     lm_graph = [], lm_graph_expires = 0, lm_user_id = normalize_auth_user_id (sk_id sk), lm_chat_url = sk_chat_url sk,
                     lm_ams_url = sk_ams_url sk, lm_middle_url = sk_middle_url sk, lm_method = ''device_code'', lm_client_id = ac_client_id c,
                     lm_refresh_scope = join_with '' '' (ac_scopes c), lm_tenant_id = [], lm_authorize = ac_authorize c,
                     lm_token_ep = ac_token_ep c, lm_skype_ep = ac_skype_ep c, lm_redirect = ac_redirect c\<rparr> in
                (case refresh_access_token env (c\<lparr>ac_scopes := scope_words (device_code_graph_scope (te_config env))\<rparr>) refresh of
                   Inl e \<Rightarrow> Inr m
                 | Inr g \<Rightarrow>
                     (let m1 = (if trim_space (as_graph g) \<noteq> [] then m\<lparr>lm_graph := trim_space (as_graph g), lm_graph_expires := as_graph_expires g\<rparr> else m)
                      in Inr (renewed g m1)))))"

text \<open>\<open>Start\<close> keeps the client and the code, and shows the address, the minutes left and the code.\<close>

definition start_device_login ::
  "device_settings \<Rightarrow> token_env \<Rightarrow> (auth_client \<times> device_code) option \<Rightarrow>
   (login_failure + string \<times> int \<times> string) \<times> (auth_client \<times> device_code) option" where
  "start_device_login ds env st =
     (let c = device_code_auth_client ds (te_config env) in
      case request_device_code env c [] of
        Inl e \<Rightarrow> (Inl (Resp_Error ''FI.MAU.TEAMS_DEVICE_CODE_FAILED'' (''Failed to start device code login: '' @ err_text e) 502), st)
      | Inr dc \<Rightarrow>
          (Inr (if trim_space (dc_uri dc) = [] then ''https://microsoft.com/devicelogin'' else trim_space (dc_uri dc),
                max 1 (round_to minute (time_sub (dc_expires dc) (te_now env)) div minute), dc_user_code dc),
           Some (c, dc)))"

definition device_failure_of :: "device_failure \<Rightarrow> login_failure" where
  "device_failure_of e =
     (case e of
        Device_Expired \<Rightarrow> Resp_Error ''FI.MAU.TEAMS_DEVICE_CODE_EXPIRED''
          ''The code expired before the sign-in was completed. Start the login again.'' 400
      | Device_Refused code descr \<Rightarrow> Resp_Error ''FI.MAU.TEAMS_DEVICE_CODE_DECLINED''
          (''device code login failed: '' @ code @ (if descr = [] then [] else '': '' @ descr)) 400
      | Device_Error err \<Rightarrow> Login_Error err)"

text \<open>\<open>Wait\<close>: the metadata of the new login, which bridgev2 may fail to store; \<open>fin\<close> is what the login meets after the poll.\<close>

definition wait_device_login ::
  "(nat \<Rightarrow> token_env) \<Rightarrow> (nat \<Rightarrow> go_error option) \<Rightarrow> token_env \<Rightarrow> (login_meta \<Rightarrow> go_error option) \<Rightarrow> (auth_client \<times> device_code) option \<Rightarrow>
   (login_failure + login_meta) option" where
  "wait_device_login E cancel fin new_login st =
     (case st of
        None \<Rightarrow> Some (Inl (Login_Error (Plain ''device code login has not been started'')))
      | Some (c, dc) \<Rightarrow>
          (case poll_device_code E cancel c dc of
             None \<Rightarrow> None
           | Some (_, Inl e) \<Rightarrow> Some (Inl (device_failure_of e))
           | Some (_, Inr g) \<Rightarrow>
               Some (case device_login_metadata fin c g of
                       Inl e \<Rightarrow> Inl e
                     | Inr m \<Rightarrow> (case new_login m of Some e \<Rightarrow> Inl (Login_Error e) | None \<Rightarrow> Inr m))))"

section \<open>Facts\<close>

text \<open>A poll ends: each turn waits at least the first interval, and none starts after the code has expired.\<close>

lemma device_turns_end:
  assumes "\<not> is_zero_time (dc_expires dc)" and "0 < D" and "\<And>n. te_now (E n) + D \<le> te_now (E (Suc n))"
  shows "\<exists>ws r. device_turns E cancel c dc n i waits = Some (waits @ ws, r) \<and>
    (ws = [] \<or> (int (length ws) - 1) * D \<le> dc_expires dc - te_now (E n))"
proof (induction k \<equiv> "nat (dc_expires dc - te_now (E n) + 1)" arbitrary: n i waits rule: less_induct)
  case less
  show ?case
  proof (cases "dc_expires dc < te_now (E n)")
    case True
    then show ?thesis using assms(1) by (subst device_turns.simps) simp
  next
    case False
    have IH: "\<exists>ws r. device_turns E cancel c dc (Suc n) j (waits @ [i]) = Some ((waits @ [i]) @ ws, r) \<and>
        (ws = [] \<or> (int (length ws) - 1) * D \<le> dc_expires dc - te_now (E (Suc n)))" for j
      by (rule less(1)) (use assms(2) assms(3) [of n] False in simp)
    have ends: "\<exists>ws r. Some (waits @ [i], x) = Some (waits @ ws, r) \<and> (ws = [] \<or> (int (length ws) - 1) * D \<le> dc_expires dc - te_now (E n))"
      for x :: "device_failure + auth_state"
      by (rule exI [of _ "[i]"]) (use False in simp)
    have again: "\<exists>ws r. device_turns E cancel c dc (Suc n) j (waits @ [i]) = Some (waits @ ws, r) \<and>
        (ws = [] \<or> (int (length ws) - 1) * D \<le> dc_expires dc - te_now (E n))" for j
    proof -
      obtain ws r where w: "device_turns E cancel c dc (Suc n) j (waits @ [i]) = Some ((waits @ [i]) @ ws, r)"
        "ws = [] \<or> (int (length ws) - 1) * D \<le> dc_expires dc - te_now (E (Suc n))" using IH [of j] by blast
      have "(int (length (i # ws)) - 1) * D \<le> dc_expires dc - te_now (E n)"
        using w(2) assms(3) [of n] False by (auto simp: algebra_simps)
      then show ?thesis using w(1) by (intro exI [of _ "i # ws"] exI [of _ r]) simp
    qed
    show ?thesis using False ends again
      by (subst device_turns.simps) (simp split: option.split sum.split)
  qed
qed

lemma device_poll_ends:
  assumes "\<not> is_zero_time (dc_expires dc)" and "\<And>n. te_now (E n) + first_interval dc \<le> te_now (E (Suc n))"
  shows "\<exists>waits r. poll_device_code E cancel c dc = Some (waits, r) \<and>
    int (length waits) * first_interval dc \<le> max 0 (dc_expires dc - te_now (E 0)) + first_interval dc"
proof (cases "dc_code dc = []")
  case True
  then show ?thesis by (simp add: poll_device_code_def first_interval_def device_default_poll_def)
next
  case False
  have D: "0 < first_interval dc" by (simp add: first_interval_def device_default_poll_def)
  obtain ws r where "device_turns E cancel c dc 0 (first_interval dc) [] = Some ([] @ ws, r)"
    "ws = [] \<or> (int (length ws) - 1) * first_interval dc \<le> dc_expires dc - te_now (E 0)"
    using device_turns_end [where E = E, OF assms(1) D assms(2)] by blast
  then show ?thesis using False D
    by (intro exI [of _ ws] exI [of _ r]) (auto simp: poll_device_code_def algebra_simps)
qed

text \<open>A login made with a code is refreshed with the client and at the endpoints it was made with, whatever the settings become.\<close>

lemma overridden_again:
  assumes "plain_ends d" and "d \<noteq> []"
  shows "overridden (overridden v d) old = overridden v d"
  using assms by (simp add: overridden_def trim_space_plain)

lemma device_metadata_client:
  assumes "device_login_metadata env c st = Inr m"
  shows "lm_client_id m = ac_client_id c \<and> lm_authorize m = ac_authorize c \<and> lm_token_ep m = ac_token_ep c \<and>
    lm_skype_ep m = ac_skype_ep c \<and> lm_redirect m = ac_redirect c \<and> lm_refresh_scope m = join_with '' '' (ac_scopes c)"
proof -
  show ?thesis using assms
    by (auto simp: device_login_metadata_def renewed_def Let_def split: if_splits sum.splits)
qed

lemma default_client_plain:
  "overridden (overridden v (ac_authorize default_auth_client)) old = overridden v (ac_authorize default_auth_client)"
  "overridden (overridden v (ac_token_ep default_auth_client)) old = overridden v (ac_token_ep default_auth_client)"
  "overridden (overridden v (ac_skype_ep default_auth_client)) old = overridden v (ac_skype_ep default_auth_client)"
  "overridden (overridden v (ac_redirect default_auth_client)) old = overridden v (ac_redirect default_auth_client)"
  "overridden (overridden v default_device_client_id) old = overridden v default_device_client_id"
  by (rule overridden_again; simp add: default_auth_client_def default_device_client_id_def plain_ends_def)+

lemma blank_overridden: "overridden [] old = old"
  by (simp add: overridden_def)

lemma device_login_refreshes_alike:
  assumes "device_login_metadata env c st = Inr m" and "c = device_code_auth_client ds cf"
  shows "ac_client_id (new_configured_auth_client cf2 m) = ac_client_id c \<and> ac_authorize (new_configured_auth_client cf2 m) = ac_authorize c \<and>
    ac_token_ep (new_configured_auth_client cf2 m) = ac_token_ep c \<and> ac_skype_ep (new_configured_auth_client cf2 m) = ac_skype_ep c \<and>
    ac_redirect (new_configured_auth_client cf2 m) = ac_redirect c"
  using device_metadata_client [OF assms(1)]
  by (simp add: new_configured_auth_client_def Let_def assms(2) device_code_auth_client_def blank_meta_def blank_overridden default_client_plain)

end
