(* ===== verification/People.thy ===== *)
theory People
  imports Presence Chat_State Room_Names
begin

text \<open>
  Finding people and starting chats with them (resolve.go, contacts.go), the directory entry of the other member of a
  direct chat (directory_info.go), and the photos of users and chats (graph/photo.go).

  The state is that of the tokens, with the users whose presence is polled or the directory entries stored with the
  rooms.  The networks of Graph and of the chat service are parameters, as is what bridgev2 knows of rooms.
\<close>

section \<open>Clients\<close>

record people_env =
  ppe_tokens :: token_env
  ppe_dir :: dir_net
  ppe_net :: teams_net
  ppe_executor :: "executor_config option"
  ppe_graph :: "string \<Rightarrow> graph_client"

abbreviation "ErrNotLoggedIn \<equiv> Plain ''not logged in''"

definition people_api :: "people_env \<Rightarrow> token_world \<Rightarrow> teams_client" where
  "people_api env tw =
     (let c = (case tw_consumer tw of Some c \<Rightarrow> c | None \<Rightarrow> new_consumer (tw_meta tw)) in
      \<lparr>tc_has_http = True, tc_token = co_token c, tc_send_url = co_send_url c, tc_messages_url = co_messages_url c,
       tc_executor = ppe_executor env\<rparr>)"

text \<open>\<open>getGraphClient\<close>: any failure is told as a missing token.\<close>

definition graph_client_of :: "people_env \<Rightarrow> token_world \<Rightarrow> go_error + graph_client" where
  "graph_client_of env tw =
     (case get_graph_access_token (te_now (ppe_tokens env)) (tw_meta tw) of
        Inl _ \<Rightarrow> Inl (Plain ''no graph access token available'')
      | Inr token \<Rightarrow> if token = [] then Inl (Plain ''no graph access token available'') else Inr (ppe_graph env token))"

definition object_of_mri :: "string \<Rightarrow> string" where
  "object_of_mri mri = (let m = trim_space mri in case after_last (CHR '':'') m of Some r \<Rightarrow> r | None \<Rightarrow> m)"

text \<open>The guards of the lookups: a login and a token for Graph, with what the error of a missing one is called.\<close>

definition with_graph_token :: "people_env \<Rightarrow> string \<Rightarrow> token_world \<Rightarrow> go_error option \<times> token_world" where
  "with_graph_token env what tw =
     (if \<not> is_logged_in (te_now (ppe_tokens env)) tw then (Some ErrNotLoggedIn, tw)
      else (case ensure_valid_graph_token (ppe_tokens env) tw of
              (Some e, tw1) \<Rightarrow> (Some (Prefixed what e), tw1)
            | (None, tw1) \<Rightarrow> (None, tw1)))"

section \<open>Looking up and creating\<close>

record found_user =
  fu_id :: string
  fu_name :: string
  fu_identifiers :: "string list"
  fu_chat :: "string option"

definition later_requests :: "dir_net \<Rightarrow> dir_net" where
  "later_requests net = net\<lparr>dn_answer := (\<lambda>n. dn_answer net (Suc n))\<rparr>"

text \<open>By mail address or object ID, else by the object ID in an MRI.\<close>

definition lookup_identifier :: "dir_net \<Rightarrow> graph_client \<Rightarrow> string \<Rightarrow> go_error + graph_user" where
  "lookup_identifier net gc ident =
     (case get_user_by_email net gc ident of
        Inl e \<Rightarrow> Inl (Prefixed ''graph user lookup failed: '' e)
      | Inr (Some u) \<Rightarrow> Inr u
      | Inr None \<Rightarrow>
          if object_of_mri ident = [] then Inl (Plain (''user not found: '' @ ident))
          else (case get_user_by_email (later_requests net) gc (object_of_mri ident) of
                  Inl e \<Rightarrow> Inl (Prefixed ''graph user lookup by MRI failed: '' e)
                | Inr (Some u) \<Rightarrow> Inr u
                | Inr None \<Rightarrow> Inl (Plain (''user not found: '' @ ident))))"

definition org_mri :: "string \<Rightarrow> string" where "org_mri obj = ''8:orgid:'' @ obj"

definition start_chat :: "people_env \<Rightarrow> token_world \<Rightarrow> graph_user \<Rightarrow> (go_error + string) \<times> teams_request list" where
  "start_chat env tw u =
     (case create_conversation_with_topic (ppe_net env) (people_api env tw) []
             [org_mri (object_of_mri (lm_user_id (tw_meta tw))), org_mri (gu_id u)] of
        (Inl e, reqs) \<Rightarrow> (Inl (Prefixed ''failed to create conversation: '' e), reqs)
      | r \<Rightarrow> r)"

definition resolve_identifier ::
  "people_env \<Rightarrow> string \<Rightarrow> bool \<Rightarrow> token_world \<Rightarrow> (go_error + found_user) \<times> token_world \<times> teams_request list" where
  "resolve_identifier env ident0 create tw0 =
     (case with_graph_token env ''graph token required for user lookup: '' tw0 of
        (Some e, tw1) \<Rightarrow> (Inl e, tw1, [])
      | (None, tw1) \<Rightarrow>
          (case ensure_valid_skype_token (ppe_tokens env) tw1 of
             (Some e, tw) \<Rightarrow> (Inl e, tw, [])
           | (None, tw) \<Rightarrow>
               (case graph_client_of env tw of
                  Inl e \<Rightarrow> (Inl e, tw, [])
                | Inr gc \<Rightarrow>
                    if trim_space ident0 = [] then (Inl (Plain ''empty identifier''), tw, [])
                    else (case lookup_identifier (ppe_dir env) gc (trim_space ident0) of
                            Inl e \<Rightarrow> (Inl e, tw, [])
                          | Inr u \<Rightarrow>
                              (let f = \<lparr>fu_id = normalize_teams_user_id (gu_id u), fu_name = gu_display_name u, fu_identifiers = [], fu_chat = None\<rparr> in
                               if \<not> create then (Inr f, tw, [])
                               else (case start_chat env tw u of
                                       (Inl e, reqs) \<Rightarrow> (Inl e, tw, reqs)
                                     | (Inr thread, reqs) \<Rightarrow> (Inr (f\<lparr>fu_chat := Some thread\<rparr>), tw, reqs)))))))"

definition search_users :: "people_env \<Rightarrow> string \<Rightarrow> token_world \<Rightarrow> (go_error + found_user list) \<times> token_world" where
  "search_users env query tw0 =
     (case with_graph_token env ''graph token required for user search: '' tw0 of
        (Some e, tw) \<Rightarrow> (Inl e, tw)
      | (None, tw) \<Rightarrow>
          (case graph_client_of env tw of
             Inl e \<Rightarrow> Inl e
           | Inr gc \<Rightarrow>
               (case search_people (ppe_dir env) gc query of
                  Inl e \<Rightarrow> Inl (Prefixed ''people search failed: '' e)
                | Inr us \<Rightarrow> Inr (map (\<lambda>u. \<lparr>fu_id = normalize_teams_user_id (gu_id u), fu_name = gu_display_name u,
                     fu_identifiers = [], fu_chat = None\<rparr>) us)), tw))"

text \<open>A new group chat: the topic is the name, if there is one; the result is its thread.\<close>

definition create_group ::
  "people_env \<Rightarrow> string option \<Rightarrow> string list \<Rightarrow> token_world \<Rightarrow> (go_error + string) \<times> token_world \<times> teams_request list" where
  "create_group env name participants tw0 =
     (if \<not> is_logged_in (te_now (ppe_tokens env)) tw0 then (Inl ErrNotLoggedIn, tw0, [])
      else (case ensure_valid_skype_token (ppe_tokens env) tw0 of
              (Some e, tw) \<Rightarrow> (Inl e, tw, [])
            | (None, tw) \<Rightarrow>
                if participants = [] then (Inl (Plain ''at least one participant is required''), tw, [])
                else (case create_conversation_with_topic (ppe_net env) (people_api env tw) (case name of None \<Rightarrow> [] | Some n \<Rightarrow> n)
                             (map (\<lambda>u. org_mri (object_of_mri u)) (lm_user_id (tw_meta tw) # participants)) of
                        (Inl e, reqs) \<Rightarrow> (Inl (Prefixed ''failed to create group conversation: '' e), tw, reqs)
                      | (Inr thread, reqs) \<Rightarrow> (Inr thread, tw, reqs))))"

section \<open>Contacts\<close>

definition contact_of :: "graph_user \<Rightarrow> found_user" where
  "contact_of u = \<lparr>fu_id = normalize_teams_user_id (gu_id u), fu_name = gu_display_name u,
     fu_identifiers = (if gu_mail u = [] then [] else [''email:'' @ gu_mail u]), fu_chat = None\<rparr>"

definition contacts_of :: "string \<Rightarrow> graph_user list \<Rightarrow> found_user list" where
  "contacts_of self us = filter (\<lambda>f. self = [] \<or> fu_id f \<noteq> self) (map contact_of us)"

text \<open>The directory as contacts, whose presence is polled from now on; \<open>None\<close> is a listing that does not end.\<close>

definition get_contact_list ::
  "people_env \<Rightarrow> string list \<Rightarrow> token_world \<Rightarrow> ((go_error + found_user list) \<times> string list \<times> token_world) option" where
  "get_contact_list env known tw0 =
     (case with_graph_token env ''graph token required for contact list: '' tw0 of
        (Some e, tw) \<Rightarrow> Some (Inl e, known, tw)
      | (None, tw) \<Rightarrow>
          (case graph_client_of env tw of
             Inl e \<Rightarrow> Some (Inl e, known, tw)
           | Inr gc \<Rightarrow>
               (case list_directory_users (ppe_dir env) gc of
                  None \<Rightarrow> None
                | Some (Inl e) \<Rightarrow> Some (Inl (Prefixed ''directory listing failed: '' e), known, tw)
                | Some (Inr us) \<Rightarrow>
                    (let cs = contacts_of (normalize_teams_user_id (lm_user_id (tw_meta tw))) us in
                     Some (Inr cs, fold (\<lambda>f. track_user (fu_id f)) cs known, tw)))))"

section \<open>The directory entry of a direct chat\<close>

record directory_info =
  di_title :: string
  di_department :: string
  di_checked :: int

text \<open>The state event of a room.\<close>

datatype directory_event = Directory_Told string string string

text \<open>The threads of the login, with what is known of their rooms; what Graph answers is asked of each thread's own net.\<close>

record directory_env =
  dy_people :: people_env
  dy_room :: "string \<Rightarrow> string option"
  dy_dir :: "string \<Rightarrow> dir_net"
  dy_send_err :: "directory_event \<Rightarrow> go_error option"

definition directory_recheck :: duration where "directory_recheck = 24 * hour"

text \<open>The threads still to be asked about: direct chats of the organisation with a room, not checked within a day.\<close>

definition directory_due :: "directory_env \<Rightarrow> string \<Rightarrow> (string \<times> directory_info) list \<Rightarrow> thread_state \<Rightarrow> (string \<times> string) option" where
  "directory_due env self infos th =
     (let other = dm_counterpart self (ts_thread_id th); now = te_now (ppe_tokens (dy_people env)) in
      if \<not> ts_one_to_one th \<or> \<not> prefix ''8:orgid:'' other \<or> drop 8 other = [] then None
      else case dy_room env (ts_thread_id th) of
        None \<Rightarrow> None
      | Some room \<Rightarrow>
          (case map_of infos (ts_thread_id th) of
             None \<Rightarrow> Some (drop 8 other, room)
           | Some i \<Rightarrow> if time_sub now (of_unix_milli (di_checked i)) < directory_recheck then None else Some (drop 8 other, room)))"

text \<open>What one lookup leaves of the entries, and what it tells the room.\<close>

definition note_directory ::
  "directory_env \<Rightarrow> graph_client \<Rightarrow> string \<Rightarrow> string \<Rightarrow> string \<Rightarrow> (string \<times> directory_info) list \<Rightarrow> (string \<times> directory_info) list \<times> directory_event list" where
  "note_directory env gc thread obj room infos =
     (case get_user_by_email (dy_dir env thread) gc obj of
        Inl _ \<Rightarrow> (infos, [])
      | Inr None \<Rightarrow> (infos, [])
      | Inr (Some u) \<Rightarrow>
          (let i = \<lparr>di_title = trim_space (gu_job_title u), di_department = trim_space (gu_department u),
                    di_checked = unix_milli (te_now (ppe_tokens (dy_people env)))\<rparr>;
               ev = Directory_Told room (di_title i) (di_department i);
               same = (case map_of infos thread of None \<Rightarrow> False
                       | Some p \<Rightarrow> di_title p = di_title i \<and> di_department p = di_department i) in
           if same then (AList.update thread i infos, [])
           else if dy_send_err env ev \<noteq> None then (infos, [ev])
           else (AList.update thread i infos, [ev])))"

text \<open>The client for Graph is made for the first thread that needs one; without it the pass ends.\<close>

fun directory_pass ::
  "directory_env \<Rightarrow> graph_client option \<Rightarrow> thread_state list \<Rightarrow> (string \<times> directory_info) list \<Rightarrow> token_world \<Rightarrow>
   (string \<times> directory_info) list \<times> directory_event list \<times> token_world" where
  "directory_pass env gc [] infos tw = (infos, [], tw)"
| "directory_pass env gc (th # ths) infos tw =
     (if te_superseded (ppe_tokens (dy_people env)) then (infos, [], tw)
      else case directory_due env (lm_user_id (tw_meta tw)) infos th of
        None \<Rightarrow> directory_pass env gc ths infos tw
      | Some (obj, room) \<Rightarrow>
          (case (case gc of
                   Some g \<Rightarrow> (Inr g, tw)
                 | None \<Rightarrow> (case ensure_valid_graph_token (ppe_tokens (dy_people env)) tw of
                             (Some e, tw1) \<Rightarrow> (Inl e, tw1) | (None, tw1) \<Rightarrow> (graph_client_of (dy_people env) tw1, tw1))) of
             (Inl _, tw1) \<Rightarrow> (infos, [], tw1)
           | (Inr g, tw1) \<Rightarrow>
               (case note_directory env g (ts_thread_id th) obj room infos of
                  (infos1, evs) \<Rightarrow>
                    (case directory_pass env (Some g) ths infos1 tw1 of
                       (infos2, evs2, tw2) \<Rightarrow> (infos2, evs @ evs2, tw2)))))"

definition sync_dm_directory_info ::
  "directory_env \<Rightarrow> go_error + thread_state list \<Rightarrow> (string \<times> directory_info) list \<Rightarrow> token_world \<Rightarrow>
   (string \<times> directory_info) list \<times> directory_event list \<times> token_world" where
  "sync_dm_directory_info env rows infos tw =
     (case rows of Inl _ \<Rightarrow> (infos, [], tw) | Inr ths \<Rightarrow> directory_pass env None ths infos tw)"

section \<open>Photos\<close>

text \<open>The bytes and type of a photo, none where there is none.  The type of an answer is the parameter \<open>ctype\<close>.\<close>

definition max_photo_size :: nat where "max_photo_size = 10 * 1024 * 1024"

definition fetch_photo ::
  "dir_net \<Rightarrow> (string \<Rightarrow> string) \<Rightarrow> int set \<Rightarrow> string \<Rightarrow> string \<Rightarrow> go_error + (string \<times> string) option" where
  "fetch_photo net ctype absent what url =
     (case dir_get net 0 url of
        Inl e \<Rightarrow> Inl e
      | Inr r \<Rightarrow>
          if resp_status r \<in> absent then Inr None
          else if not_ok r then Inl (graph_failure what r)
          else Inr (Some (take max_photo_size (resp_body r),
                 if trim_space (ctype url) = [] then ''image/jpeg'' else trim_space (ctype url))))"

definition get_user_photo :: "dir_net \<Rightarrow> (string \<Rightarrow> string) \<Rightarrow> graph_client \<Rightarrow> string \<Rightarrow> go_error + (string \<times> string) option" where
  "get_user_photo net ctype c user =
     (case graph_ready c of
        Some e \<Rightarrow> Inl e
      | None \<Rightarrow>
          if extract_object_id user = [] then Inl (Plain ''cannot extract Azure AD object ID'')
          else fetch_photo net ctype {404} ''graph photo request''
            (''https://graph.microsoft.com/v1.0/users/'' @ extract_object_id user @ ''/photo/$value''))"

definition get_chat_photo :: "dir_net \<Rightarrow> (string \<Rightarrow> string) \<Rightarrow> graph_client \<Rightarrow> string \<Rightarrow> go_error + (string \<times> string) option" where
  "get_chat_photo net ctype c chat =
     (case graph_ready c of
        Some e \<Rightarrow> Inl e
      | None \<Rightarrow>
          if trim_space chat = [] then Inl (Plain ''missing chat ID'')
          else fetch_photo net ctype {404, 403} ''graph chat photo request''
            (''https://graph.microsoft.com/v1.0/chats/'' @ trim_space chat @ ''/photo/$value''))"

section \<open>Facts\<close>

text \<open>
  Graph lists users by object ID, without the prefix Teams has in its own IDs.  So one's own entry stays among the
  contacts, and no contact is one whose presence is polled.
\<close>

lemma own_contact_listed:
  assumes "gu_id u = obj" and "trim_space obj = obj" and "self = org_mri obj" and "u \<in> set us"
  shows "contact_of u \<in> set (contacts_of self us)"
proof -
  have "obj \<noteq> org_mri obj" by (simp add: org_mri_def)
  then have "fu_id (contact_of u) \<noteq> self" using assms(1-3) by (simp add: contact_of_def normalize_teams_user_id_def)
  then show ?thesis using assms(4) by (simp add: contacts_of_def)
qed

lemma contacts_not_polled:
  assumes "\<forall>u \<in> set us. \<not> prefix ''8:orgid:'' (trim_space (gu_id u))" and "f \<in> set (contacts_of self us)"
  shows "\<not> prefix ''8:orgid:'' (fu_id f)"
  using assms by (auto simp: contacts_of_def contact_of_def normalize_teams_user_id_def)

text \<open>The members of a group are always asked for as members of the organisation, whatever their IDs say.\<close>

lemma group_members_made_org: "object_of_mri ''8:live:ann'' = ''ann'' \<and> org_mri (object_of_mri ''8:live:ann'') = ''8:orgid:ann''"
proof -
  have "trim_space ''8:live:ann'' = ''8:live:ann''" by (simp add: trim_space_plain plain_ends_def)
  then show ?thesis by (simp add: object_of_mri_def org_mri_def)
qed

text \<open>An entry told once is not told again while the directory says the same.\<close>

lemma unchanged_directory_quiet:
  assumes "note_directory env gc thread obj room infos = (infos1, evs)" and "dy_send_err env = (\<lambda>_. None)"
  shows "snd (note_directory env gc thread obj room infos1) = []"
  using assms by (auto simp: note_directory_def Let_def update_conv' split: sum.splits option.splits if_splits)

lemma directory_told_if_changed:
  assumes "Directory_Told r t d \<in> set (snd (note_directory env gc thread obj room infos))"
  shows "r = room \<and> (\<forall>p. map_of infos thread = Some p \<longrightarrow> di_title p \<noteq> t \<or> di_department p \<noteq> d)"
  using assms by (auto simp: note_directory_def Let_def split: sum.splits option.splits if_splits)

text \<open>Within a day of a check nothing is asked.\<close>

lemma checked_not_due:
  assumes "map_of infos (ts_thread_id th) = Some i"
    and "time_sub (te_now (ppe_tokens (dy_people env))) (of_unix_milli (di_checked i)) < directory_recheck"
  shows "directory_due env self infos th = None"
  using assms by (simp add: directory_due_def Let_def split: option.splits)

end
