(* ===== verification/Team_Spaces.thy ===== *)
theory Team_Spaces
  imports Discovery
begin

text \<open>
  Spaces of teams (team_spaces.go) and what a room is when bridgev2 asks for it (\<open>GetChatInfo\<close>, \<open>GetUserInfo\<close> and
  \<open>teamSpaceChatInfo\<close> of client.go).

  The portals are those bridgev2 keeps: their key, room, kind, and place in a space.  Its calls are effects, their
  errors parameters.
\<close>

section \<open>Portals\<close>

record space_portal =
  sp_key :: portal_key
  sp_room :: string
  sp_is_space :: bool
  sp_parent :: portal_key
  sp_in_space :: bool

datatype space_effect =
    Delete_Room string
  | Delete_Portal portal_key
  | Detach_Room portal_key
  | Save_Child portal_key
  | Reparent disco_event
  | Create_Space_Of portal_key
  | Join_Space_Of portal_key

text \<open>Errors of listing the children, of deleting a portal, and of detaching a room with the room then left to the portal.\<close>

record space_env =
  sn_children_err :: "portal_key \<Rightarrow> bool"
  sn_delete_err :: "portal_key \<Rightarrow> bool"
  sn_detach_err :: "portal_key \<Rightarrow> string option"

definition is_team_portal_id :: "string \<Rightarrow> bool" where "is_team_portal_id i \<longleftrightarrow> prefix ''team:'' i"

definition find_portal :: "portal_key \<Rightarrow> space_portal list \<Rightarrow> space_portal option" where
  "find_portal k ps = find (\<lambda>p. sp_key p = k) ps"

definition child_portals :: "portal_key \<Rightarrow> space_portal list \<Rightarrow> space_portal list" where
  "child_portals k ps = filter (\<lambda>p. sp_parent p = k) ps"

definition map_portal :: "portal_key \<Rightarrow> (space_portal \<Rightarrow> space_portal) \<Rightarrow> space_portal list \<Rightarrow> space_portal list" where
  "map_portal k f ps = map (\<lambda>p. if sp_key p = k then f p else p) ps"

section \<open>Repair\<close>

text \<open>A twin of a team's portal that belongs to one login: deleted with its room, unless it has children.\<close>

definition repair_scoped :: "space_env \<Rightarrow> space_portal \<Rightarrow> space_portal list \<Rightarrow> space_portal list \<times> space_effect list" where
  "repair_scoped env p ps =
     (if child_portals (sp_key p) ps \<noteq> [] then (ps, [])
      else (if sn_delete_err env (sp_key p) then ps else filter (\<lambda>q. sp_key q \<noteq> sp_key p) ps,
            (if sp_room p = [] then [] else [Delete_Room (sp_room p)]) @ [Delete_Portal (sp_key p)]))"

text \<open>A team's portal whose room is no space: the room is deleted and detached, the children are to join the next one.\<close>

definition repair_plain :: "space_env \<Rightarrow> space_portal \<Rightarrow> space_portal list \<Rightarrow> space_portal list \<times> space_effect list" where
  "repair_plain env p ps =
     (let left = (case sn_detach_err env (sp_key p) of None \<Rightarrow> [] | Some r \<Rightarrow> r);
          ps1 = map_portal (sp_key p) (\<lambda>q. q\<lparr>sp_is_space := True, sp_room := left\<rparr>) ps;
          evs = [Delete_Room (sp_room p), Detach_Room (sp_key p)] in
      if sn_detach_err env (sp_key p) \<noteq> None then (ps1, evs)
      else (map (\<lambda>q. if sp_parent q = sp_key p then q\<lparr>sp_in_space := False\<rparr> else q) ps1,
            evs @ map (\<lambda>q. Save_Child (sp_key q)) (filter sp_in_space (child_portals (sp_key p) ps1))))"

definition repair_team_space :: "space_env \<Rightarrow> portal_key \<Rightarrow> space_portal list \<Rightarrow> space_portal list \<times> space_effect list" where
  "repair_team_space env k ps =
     (case find_portal k ps of
        None \<Rightarrow> (ps, [])
      | Some p \<Rightarrow>
          if \<not> is_team_portal_id (fst k) \<or> sn_children_err env k then (ps, [])
          else if snd k \<noteq> [] then repair_scoped env p ps
          else if sp_room p \<noteq> [] \<and> \<not> sp_is_space p then repair_plain env p ps
          else (ps, []))"

fun repair_each :: "space_env \<Rightarrow> portal_key list \<Rightarrow> space_portal list \<Rightarrow> space_portal list \<times> space_effect list" where
  "repair_each env [] ps = (ps, [])"
| "repair_each env (k # ks) ps =
     (case repair_team_space env k ps of (ps1, e1) \<Rightarrow> (case repair_each env ks ps1 of (ps2, e2) \<Rightarrow> (ps2, e1 @ e2)))"

definition repair_team_spaces :: "space_env \<Rightarrow> space_portal list \<Rightarrow> space_portal list \<times> space_effect list" where
  "repair_team_spaces env ps = repair_each env (map sp_key ps) ps"

section \<open>Channels and their spaces\<close>

definition login_portal :: "string \<Rightarrow> string \<Rightarrow> space_portal list \<Rightarrow> space_portal option" where
  "login_portal login thread ps =
     (case find_portal (portal_key login thread) ps of Some p \<Rightarrow> if sp_room p = [] then None else Some p | None \<Rightarrow> None)"

text \<open>A channel with the wrong parent is moved, one outside its space added to it, the space made first if it has no room.\<close>

definition sync_channel_parent :: "string \<Rightarrow> channel_map \<Rightarrow> space_portal list \<Rightarrow> thread_state \<Rightarrow> space_effect list" where
  "sync_channel_parent login m ps th =
     (let thread = trim_space (ts_thread_id th) in
      case map_of m thread of
        None \<Rightarrow> []
      | Some info \<Rightarrow>
          if trim_space (ci_team_id info) = [] then []
          else (case login_portal login thread ps of
                  None \<Rightarrow> []
                | Some p \<Rightarrow>
                    if fst (sp_parent p) \<noteq> team_portal_id (ci_team_id info)
                    then [Reparent (Chat_Resync (sp_key p) False (no_info\<lparr>nf_parent := Some (team_portal_id (ci_team_id info))\<rparr>))]
                    else if sp_in_space p then []
                    else (case find_portal (sp_parent p) ps of
                            None \<Rightarrow> []
                          | Some parent \<Rightarrow> if sp_room parent = [] then [Create_Space_Of (sp_key p)] else [Join_Space_Of (sp_key p)])))"

definition sync_channel_parents :: "string \<Rightarrow> channel_map \<Rightarrow> go_error + thread_state list \<Rightarrow> space_portal list \<Rightarrow> space_effect list" where
  "sync_channel_parents login m rows ps =
     (if m = [] then [] else case rows of Inl _ \<Rightarrow> [] | Inr ths \<Rightarrow> concat (map (sync_channel_parent login m ps) ths))"

section \<open>What a room is\<close>

definition team_space_chat_info :: "disco_env \<Rightarrow> string \<Rightarrow> string \<Rightarrow> disco_world \<Rightarrow> chat_info" where
  "team_space_chat_info env team_id portal_name w =
     (let stored = (if trim_space portal_name = ''Chat'' then [] else trim_space portal_name);
          cached = team_name_of (dw_team_names w) team_id;
          name = (if cached \<noteq> [] then cached
                  else case Option.bind (de_teams env) (find (\<lambda>t. trim_space (tm_id t) = team_id \<and> trim_space (tm_name t) \<noteq> [])) of
                         Some t \<Rightarrow> trim_space (tm_name t)
                       | None \<Rightarrow> stored) in
      no_info\<lparr>nf_name := Some (if name = [] then ''Team'' else name), nf_type := Some Room_Space\<rparr>)"

text \<open>The topic and members of the first listed conversation that is the thread.\<close>

definition listed_conversation :: "disco_env \<Rightarrow> string \<Rightarrow> remote_conversation option" where
  "listed_conversation env thread =
     (case (pe_token_err (de_poll env), de_convs env) of
        (None, Inr convs) \<Rightarrow>
          find (\<lambda>c. case normalize_for_self (de_lower env) c (de_self env) of Some th \<Rightarrow> td_id th = thread | None \<Rightarrow> False) convs
      | _ \<Rightarrow> None)"

definition chat_info_of_row :: "disco_env \<Rightarrow> thread_state \<Rightarrow> string \<Rightarrow> disco_world \<Rightarrow> chat_info \<times> disco_world" where
  "chat_info_of_row env row thread w =
     (let info = no_info\<lparr>nf_name := Some (ts_name row), nf_type := Some (room_type_of (ts_one_to_one row))\<rparr>;
          (info1, w1) =
            (case listed_conversation env thread of
               None \<Rightarrow> (info, w)
             | Some c \<Rightarrow>
                 (case build_chat_member_list env c w of
                    (members, w1) \<Rightarrow> (info\<lparr>nf_topic := (if resolve_topic c = [] then None else Some (resolve_topic c)), nf_members := members\<rparr>, w1))) in
      if nf_members info1 = None \<and> ts_one_to_one row
      then (case dm_member_list_from_thread_id env thread w1 of (members, w2) \<Rightarrow> (info1\<lparr>nf_members := members\<rparr>, w2))
      else (info1, w1))"

text \<open>With whether its history may be asked for: only that of a thread with a row.\<close>

definition get_chat_info :: "disco_env \<Rightarrow> string \<Rightarrow> string \<Rightarrow> disco_world \<Rightarrow> (go_error + chat_info \<times> bool) \<times> disco_world" where
  "get_chat_info env thread0 portal_name w =
     (let thread = trim_space thread0 in
      if thread = [] then (Inl (Plain ''missing thread id''), w)
      else case thread_get (de_row_get_err env) (thread_rows w) (de_login env) thread of
        Inl e \<Rightarrow> (Inl e, w)
      | Inr (Some row) \<Rightarrow> (case chat_info_of_row env row thread w of (i, w1) \<Rightarrow> (Inr (i, True), w1))
      | Inr None \<Rightarrow>
          (Inr (if is_team_portal_id thread then team_space_chat_info env (drop 5 thread) portal_name w
                else no_info\<lparr>nf_name := Some ''Chat''\<rparr>, False), w))"

text \<open>Of a user: the name, whether it is the bridge's own sender of notices, and whether an avatar can be fetched.\<close>

record user_info =
  ui_name :: string
  ui_bot :: bool
  ui_avatar :: "string option"

definition system_sender_name :: string where "system_sender_name = ''Teams''"

definition get_user_info :: "disco_env \<Rightarrow> bool \<Rightarrow> string \<Rightarrow> disco_world \<Rightarrow> user_info \<times> disco_world" where
  "get_user_info env graph_token ghost w =
     (if ghost = system_sender_id then (\<lparr>ui_name = system_sender_name, ui_bot = True, ui_avatar = None\<rparr>, w)
      else (case lookup_user_display_name env ghost w of
              ((name, _), w1) \<Rightarrow>
                (\<lparr>ui_name = (if name = [] then ghost else name), ui_bot = False,
                  ui_avatar = (if graph_token then Some (''graph-photo:'' @ ghost) else None)\<rparr>, w1)))"

section \<open>Facts\<close>

text \<open>A pass of repair without errors leaves every team's own portal a space or without a room.\<close>

lemma find_portal_key: "find_portal k ps = Some p \<Longrightarrow> sp_key p = k \<and> p \<in> set ps"
  by (auto simp: find_portal_def find_Some_iff)

lemma find_portal_in: "distinct (map sp_key ps) \<Longrightarrow> p \<in> set ps \<Longrightarrow> find_portal (sp_key p) ps = Some p"
proof (induction ps)
  case (Cons q ps)
  then show ?case by (cases "sp_key q = sp_key p") (auto simp: find_portal_def)
qed simp

definition repaired :: "space_portal \<Rightarrow> bool" where
  "repaired p \<longleftrightarrow> is_team_portal_id (fst (sp_key p)) \<and> snd (sp_key p) = [] \<longrightarrow> sp_room p = [] \<or> sp_is_space p"

definition space_env_ok :: "space_env \<Rightarrow> bool" where
  "space_env_ok env \<longleftrightarrow> (\<forall>k. \<not> sn_children_err env k \<and> \<not> sn_delete_err env k \<and> sn_detach_err env k = None)"

text \<open>What one step leaves: keys only disappear, and what was repaired stays so.\<close>

definition emptied :: "portal_key \<Rightarrow> space_portal list \<Rightarrow> space_portal list" where
  "emptied k ps = map (\<lambda>q. if sp_parent q = k then q\<lparr>sp_in_space := False\<rparr> else q) (map_portal k (\<lambda>q. q\<lparr>sp_is_space := True, sp_room := []\<rparr>) ps)"

lemma repair_shapes:
  assumes "find_portal k ps = Some p" and "sp_key p = k" and "space_env_ok env"
  shows "fst (repair_team_space env k ps) = ps \<and> repaired p \<or>
    fst (repair_team_space env k ps) = filter (\<lambda>q. sp_key q \<noteq> k) ps \<or> fst (repair_team_space env k ps) = emptied k ps \<or>
    fst (repair_team_space env k ps) = ps \<and> snd k \<noteq> []"
proof -
  have ok: "\<not> sn_children_err env k" "\<not> sn_delete_err env k" "sn_detach_err env k = None"
    using assms(3) unfolding space_env_ok_def by blast+
  have plain: "fst (repair_plain env p ps) = emptied k ps" by (simp add: repair_plain_def emptied_def assms(2) ok Let_def)
  have scoped: "fst (repair_scoped env p ps) = ps \<or> fst (repair_scoped env p ps) = filter (\<lambda>q. sp_key q \<noteq> k) ps"
    by (simp add: repair_scoped_def assms(2) ok)
  have step: "repair_team_space env k ps =
     (if \<not> is_team_portal_id (fst k) then (ps, []) else if snd k \<noteq> [] then repair_scoped env p ps
      else if sp_room p \<noteq> [] \<and> \<not> sp_is_space p then repair_plain env p ps else (ps, []))"
    by (simp add: repair_team_space_def assms(1) ok)
  have rep: "repaired p \<longleftrightarrow> (is_team_portal_id (fst k) \<and> snd k = [] \<longrightarrow> sp_room p = [] \<or> sp_is_space p)"
    by (simp add: repaired_def assms(2))
  show ?thesis unfolding step rep using plain scoped by (simp, blast)
qed

lemma emptied_keys: "map sp_key (emptied k ps) = map sp_key ps"
  by (simp add: emptied_def map_portal_def comp_def)

lemma emptied_repaired:
  assumes "q \<in> set (emptied k ps)"
  shows "(sp_key q = k \<longrightarrow> repaired q) \<and> ((\<forall>p \<in> set ps. sp_key p = sp_key q \<longrightarrow> repaired p) \<longrightarrow> repaired q)"
proof -
  let ?f = "\<lambda>p. if sp_key p = k then p\<lparr>sp_is_space := True, sp_room := []\<rparr> else p"
  let ?g = "\<lambda>p. if sp_parent p = k then p\<lparr>sp_in_space := False\<rparr> else p"
  obtain p where p: "p \<in> set ps" "q = ?g (?f p)"
    using assms unfolding emptied_def map_portal_def by (auto simp only: set_map image_iff)
  have q: "sp_key q = sp_key p" "repaired q \<longleftrightarrow> sp_key p = k \<or> repaired p"
    unfolding p(2) repaired_def by simp_all
  show ?thesis using p(1) q by simp
qed

lemma repair_step:
  assumes "distinct (map sp_key ps)" and "space_env_ok env" and "ps1 = fst (repair_team_space env k ps)"
  shows "distinct (map sp_key ps1) \<and> set (map sp_key ps1) \<subseteq> set (map sp_key ps) \<and>
    (\<forall>q \<in> set ps1. (sp_key q = k \<longrightarrow> repaired q) \<and> ((\<forall>p \<in> set ps. sp_key p = sp_key q \<longrightarrow> repaired p) \<longrightarrow> repaired q))"
proof (cases "find_portal k ps")
  case None
  then have "ps1 = ps" using assms(3) by (simp add: repair_team_space_def)
  moreover have "\<forall>q \<in> set ps. sp_key q \<noteq> k" using None by (simp add: find_portal_def find_None_iff)
  ultimately show ?thesis using assms(1) by auto
next
  case (Some p)
  have p: "sp_key p = k" "p \<in> set ps" using find_portal_key [OF Some] by auto
  have only: "q = p" if "q \<in> set ps" "sp_key q = k" for q
    using find_portal_in [OF assms(1) that(1)] that(2) Some by simp
  have login: "repaired p" if "snd k \<noteq> []" using that by (simp add: repaired_def p(1))
  consider (same) "ps1 = ps" "repaired p" | (gone) "ps1 = filter (\<lambda>q. sp_key q \<noteq> k) ps" | (plain) "ps1 = emptied k ps"
    using repair_shapes [OF Some p(1) assms(2)] login unfolding assms(3) by blast
  then show ?thesis
  proof cases
    case same
    then show ?thesis using assms(1) only by auto
  next
    case gone
    then show ?thesis using assms(1) by (auto simp: distinct_map_filter)
  next
    case plain
    then show ?thesis using assms(1) emptied_keys [of k ps] emptied_repaired [of _ k ps] by simp
  qed
qed

lemma repair_each_repairs:
  assumes "distinct (map sp_key ps)" and "space_env_ok env"
  shows "\<forall>q \<in> set (fst (repair_each env ks ps)).
    sp_key q \<in> set (map sp_key ps) \<and> (sp_key q \<in> set ks \<longrightarrow> repaired q) \<and> ((\<forall>p \<in> set ps. sp_key p = sp_key q \<longrightarrow> repaired p) \<longrightarrow> repaired q)"
  using assms(1)
proof (induction ks arbitrary: ps)
  case (Cons k ks)
  obtain ps1 e1 where s: "repair_team_space env k ps = (ps1, e1)" by fastforce
  have st: "distinct (map sp_key ps1)" "set (map sp_key ps1) \<subseteq> set (map sp_key ps)"
    "\<forall>q \<in> set ps1. (sp_key q = k \<longrightarrow> repaired q) \<and> ((\<forall>p \<in> set ps. sp_key p = sp_key q \<longrightarrow> repaired p) \<longrightarrow> repaired q)"
    using repair_step [OF Cons.prems assms(2), of ps1 k] s by auto
  have f: "fst (repair_each env (k # ks) ps) = fst (repair_each env ks ps1)" by (simp add: s split: prod.split)
  show ?case
  proof
    fix q
    assume "q \<in> set (fst (repair_each env (k # ks) ps))"
    then have q: "sp_key q \<in> set (map sp_key ps1)" "sp_key q \<in> set ks \<longrightarrow> repaired q"
      "(\<forall>p \<in> set ps1. sp_key p = sp_key q \<longrightarrow> repaired p) \<longrightarrow> repaired q"
      using Cons.IH [OF st(1)] unfolding f by blast+
    then show "sp_key q \<in> set (map sp_key ps) \<and> (sp_key q \<in> set (k # ks) \<longrightarrow> repaired q) \<and>
        ((\<forall>p \<in> set ps. sp_key p = sp_key q \<longrightarrow> repaired p) \<longrightarrow> repaired q)"
      using st(2,3) by auto
  qed
qed auto

lemma team_spaces_repaired:
  assumes "distinct (map sp_key ps)" and "space_env_ok env" and "q \<in> set (fst (repair_team_spaces env ps))"
    and "is_team_portal_id (fst (sp_key q))" and "snd (sp_key q) = []"
  shows "sp_room q = [] \<or> sp_is_space q"
  using repair_each_repairs [OF assms(1,2), of "map sp_key ps"] assms(3-5)
  by (auto simp: repair_team_spaces_def repaired_def)

text \<open>A channel in its team's space is left alone.\<close>

lemma placed_channel_quiet:
  assumes "login_portal login (trim_space (ts_thread_id th)) ps = Some p" and "sp_in_space p"
    and "map_of m (trim_space (ts_thread_id th)) = Some info" and "fst (sp_parent p) = team_portal_id (ci_team_id info)"
  shows "sync_channel_parent login m ps th = []"
  using assms by (simp add: sync_channel_parent_def Let_def)

text \<open>Nor are rooms of other portals ever deleted: each deleted room is that of a team's portal.\<close>

lemma only_team_rooms_deleted:
  assumes "Delete_Room r \<in> set (snd (repair_team_space env k ps))"
  shows "is_team_portal_id (fst k) \<and> (\<exists>p \<in> set ps. sp_key p = k \<and> sp_room p = r)"
  using assms find_portal_key [of k ps]
  by (auto simp: repair_team_space_def repair_scoped_def repair_plain_def Let_def split: option.splits if_splits)

end
