(* ===== verification/Backfill.thy ===== *)
theory Backfill
  imports Conversion Poll_Thread
begin

text \<open>
  Messages from before a room was made (\<open>FetchMessages\<close> of client.go): a page of the conversation, converted, with each
  message's sender, and whether bridgev2 is to ask for more.

  The page is the parameter \<open>bf_page\<close> of conversation, count and start, which \<open>list_messages_paginated\<close> gives; the row of
  the thread and the names of users are those of the bridge's tables.
\<close>

record backfill_env =
  bf_convert :: convert_env
  bf_xml :: "string \<Rightarrow> xml_activity option"
  bf_json :: "string \<Rightarrow> json option"
  bf_name :: "string \<Rightarrow> string"
  bf_row :: "string \<Rightarrow> thread_state option"
  bf_page :: "string \<Rightarrow> int \<Rightarrow> string \<Rightarrow> go_error + remote_message list"
  bf_login :: string

record backfill_message =
  bm_converted :: converted
  bm_sender :: event_sender
  bm_id :: string
  bm_time :: gotime
  bm_order :: int

section \<open>One message\<close>

definition is_system_backfill :: "remote_message \<Rightarrow> bool" where
  "is_system_backfill m \<longleftrightarrow>
     (let s = normalize_teams_user_id (sender_id m) in s = [] \<or> is_likely_thread_id s \<or> is_system_message_type (message_type m))"

definition system_part :: "string \<Rightarrow> converted_part" where
  "system_part text = text_part [] M_Notice text [] []"

definition convert_system_message :: "backfill_env \<Rightarrow> string \<Rightarrow> remote_message \<Rightarrow> go_error + converted" where
  "convert_system_message env thread m =
     (case parse_system_message (bf_xml env) (bf_json env) (message_type m) (raw_content m) of
        None \<Rightarrow> Inl (Plain (''not a renderable system message: '' @ message_type m))
      | Some a \<Rightarrow> Inr \<lparr>cm_parts = [system_part (system_message_text a (place_for_thread thread) (Some (bf_name env)))],
                      cm_thread_root = None, cm_reply_to = None\<rparr>)"

definition backfill_sender :: "backfill_env \<Rightarrow> string \<Rightarrow> remote_message \<Rightarrow> event_sender" where
  "backfill_sender env self m =
     (let s = normalize_teams_user_id (sender_id m) in
      if is_system_backfill m then \<lparr>es_sender = system_sender_id, es_from_me = False, es_login = []\<rparr>
      else if self \<noteq> [] \<and> s = self then \<lparr>es_sender = network_user_id s, es_from_me = True, es_login = bf_login env\<rparr>
      else other_sender s)"

text \<open>The messages passed over before they are converted.\<close>

definition skipped_in_backfill :: "backfill_env \<Rightarrow> remote_message \<Rightarrow> bool" where
  "skipped_in_backfill env m \<longleftrightarrow>
     trim_space (message_id m) = [] \<or>
     is_system_backfill m \<and> parse_system_message (bf_xml env) (bf_json env) (message_type m) (raw_content m) = None \<or>
     sublist ''MessageDelete'' (message_type m)"

definition convert_backfill :: "backfill_env \<Rightarrow> string \<Rightarrow> remote_message \<Rightarrow> token_world \<Rightarrow> ((go_error + converted) \<times> asked) \<times> token_world" where
  "convert_backfill env thread m tw =
     (if is_system_backfill m then ((convert_system_message env thread m, []), tw) else convert_teams_message (bf_convert env) m tw)"

definition backfill_one ::
  "backfill_env \<Rightarrow> string \<Rightarrow> remote_message \<Rightarrow> token_world \<Rightarrow> backfill_message option \<times> asked \<times> token_world" where
  "backfill_one env thread m tw =
     (if skipped_in_backfill env m then (None, [], tw)
      else (case convert_backfill env thread m tw of
              ((Inl _, as), tw1) \<Rightarrow> (None, as, tw1)
            | ((Inr cm, as), tw1) \<Rightarrow>
                (Some \<lparr>bm_converted = cm, bm_sender = backfill_sender env (normalize_teams_user_id (lm_user_id (tw_meta tw))) m,
                   bm_id = message_id m, bm_time = msg_timestamp m, bm_order = unix_milli (msg_timestamp m)\<rparr>, as, tw1)))"

fun backfill_all ::
  "backfill_env \<Rightarrow> string \<Rightarrow> remote_message list \<Rightarrow> token_world \<Rightarrow> backfill_message list \<times> asked \<times> token_world" where
  "backfill_all env thread [] tw = ([], [], tw)"
| "backfill_all env thread (m # ms) tw =
     (case backfill_one env thread m tw of
        (b, as, tw1) \<Rightarrow> (case backfill_all env thread ms tw1 of
           (done_ms, as2, tw2) \<Rightarrow> ((case b of None \<Rightarrow> done_ms | Some x \<Rightarrow> x # done_ms), as @ as2, tw2)))"

section \<open>The page\<close>

definition backfill_count :: "int \<Rightarrow> int" where "backfill_count n = (if n \<le> 0 then 50 else n)"

text \<open>The time of the oldest message known, to go back from it.\<close>

definition backfill_start :: "gotime option \<Rightarrow> bool \<Rightarrow> string" where
  "backfill_start anchor forward = (case anchor of Some t \<Rightarrow> if forward then [] else format_millis t | None \<Rightarrow> [])"

definition fetch_messages ::
  "backfill_env \<Rightarrow> string \<Rightarrow> int \<Rightarrow> gotime option \<Rightarrow> bool \<Rightarrow> token_world \<Rightarrow>
   (go_error + backfill_message list \<times> bool) \<times> asked \<times> token_world" where
  "fetch_messages env thread0 count0 anchor forward tw0 =
     (let tenv = cv_tokens (bf_convert env); thread = trim_space thread0; count = backfill_count count0 in
      if \<not> is_logged_in (te_now tenv) tw0 then (Inl (Plain ''not logged in''), [], tw0)
      else (case ensure_valid_skype_token tenv tw0 of
              (Some e, tw) \<Rightarrow> (Inl e, [], tw)
            | (None, tw) \<Rightarrow>
                if thread = [] then (Inl (Plain ''missing thread id''), [], tw)
                else (case bf_row env thread of
                        None \<Rightarrow> (Inl (Plain (''no thread state for '' @ thread)), [], tw)
                      | Some row \<Rightarrow>
                          (case bf_page env (ts_conversation row) count (backfill_start anchor forward) of
                             Inl e \<Rightarrow> (Inl e, [], tw)
                           | Inr ms \<Rightarrow>
                               (case backfill_all env thread0 ms tw of
                                  (done_ms, as, tw1) \<Rightarrow> (Inr (done_ms, count \<le> int (length done_ms)), as, tw1))))))"

section \<open>Facts\<close>

text \<open>Each message at most once, in the order of the page.\<close>

lemma backfill_one_id: "fst (backfill_one env thread m tw) = Some b \<Longrightarrow> bm_id b = message_id m \<and> \<not> skipped_in_backfill env m"
  by (auto simp: backfill_one_def split: if_splits prod.splits sum.splits)

lemma backfill_ids: "subseq (map bm_id (fst (backfill_all env thread ms tw))) (map message_id ms)"
proof (induction ms arbitrary: tw)
  case (Cons m ms)
  obtain b as tw1 where o: "backfill_one env thread m tw = (b, as, tw1)" by (cases "backfill_one env thread m tw")
  obtain done_ms as2 tw2 where a: "backfill_all env thread ms tw1 = (done_ms, as2, tw2)" by (cases "backfill_all env thread ms tw1")
  have "subseq (map bm_id done_ms) (map message_id ms)" using Cons.IH [of tw1] by (simp add: a)
  then show ?case using backfill_one_id [of env thread m tw] by (auto simp: o a split: option.split)
qed simp

text \<open>The sender of a user's message is the one a poll of the thread gives it.\<close>

lemma backfill_sender_polled:
  assumes "\<not> is_system_backfill m" and "pe_login penv = bf_login env"
  shows "backfill_sender env self m = message_sender penv (normalize_teams_user_id (sender_id m)) self"
  using assms by (auto simp: backfill_sender_def message_sender_def is_system_backfill_def Let_def)

text \<open>What of a page is not shown: what is passed over, and what Teams tells as deleted, which does not convert.\<close>

definition lost_in_backfill :: "backfill_env \<Rightarrow> remote_message \<Rightarrow> bool" where
  "lost_in_backfill env m \<longleftrightarrow> skipped_in_backfill env m \<or> \<not> is_system_backfill m \<and> is_deleted (properties_raw m)"

lemma lost_one: "lost_in_backfill env m \<Longrightarrow> fst (backfill_one env thread m tw) = None"
  by (auto simp: lost_in_backfill_def backfill_one_def convert_backfill_def convert_teams_message_def convert_content_def split: prod.split)

lemma backfill_length: "length (fst (backfill_all env thread ms tw)) \<le> length (filter (\<lambda>m. \<not> lost_in_backfill env m) ms)"
proof (induction ms arbitrary: tw)
  case (Cons m ms)
  obtain b as tw1 where o: "backfill_one env thread m tw = (b, as, tw1)" by (cases "backfill_one env thread m tw")
  obtain xs as2 tw2 where a: "backfill_all env thread ms tw1 = (xs, as2, tw2)" by (cases "backfill_all env thread ms tw1")
  have "length xs \<le> length (filter (\<lambda>m. \<not> lost_in_backfill env m) ms)" using Cons.IH [of tw1] by (simp add: a)
  then show ?case using lost_one [of env m thread tw] by (auto simp: o a split: option.split)
qed simp

text \<open>Backfill stops at the first page with a message it does not show.  A page of a conversation's history that holds no more
  messages than were asked for, one of which is deleted, a notice without a text or without an ID, is told to
  bridgev2 as the last one: older messages are not asked for, although the page was full.\<close>

lemma fetched_page:
  assumes "fetch_messages env thread n anchor forward tw = (Inr r, as, tw2)" and "bf_row env (trim_space thread) = Some row"
    and "bf_page env (ts_conversation row) (backfill_count n) (backfill_start anchor forward) = Inr ms"
  shows "\<exists>tw1. fst r = fst (backfill_all env thread ms tw1) \<and> (snd r \<longleftrightarrow> backfill_count n \<le> int (length (fst r)))"
proof -
  obtain e tw1 where t: "ensure_valid_skype_token (cv_tokens (bf_convert env)) tw = (e, tw1)"
    by (cases "ensure_valid_skype_token (cv_tokens (bf_convert env)) tw")
  obtain xs as2 tw3 where a: "backfill_all env thread ms tw1 = (xs, as2, tw3)"
    by (cases "backfill_all env thread ms tw1")
  have "r = (xs, backfill_count n \<le> int (length xs))"
    using assms(1) by (simp add: fetch_messages_def Let_def t assms(2,3) a split: if_splits option.splits)
  then show ?thesis by (intro exI [of _ tw1]) (simp add: a)
qed

lemma backfill_stops_early:
  assumes "fetch_messages env thread n anchor forward tw = (Inr (shown, again), as, tw2)" and "bf_row env (trim_space thread) = Some row"
    and "bf_page env (ts_conversation row) (backfill_count n) (backfill_start anchor forward) = Inr ms"
    and "int (length ms) \<le> backfill_count n" and "m \<in> set ms" and "lost_in_backfill env m"
  shows "\<not> again"
proof -
  obtain tw1 where r: "shown = fst (backfill_all env thread ms tw1)" "again \<longleftrightarrow> backfill_count n \<le> int (length shown)"
    using fetched_page [OF assms(1-3)] by auto
  have "length (filter (\<lambda>m. \<not> lost_in_backfill env m) ms) < length ms"
    using assms(5,6) by (intro length_filter_less) auto
  with backfill_length [of env thread ms tw1] r assms(4) show ?thesis by simp
qed

end
