(* ===== verification/Spec2Isabelle.thy ===== *)
theory Spec2Isabelle
  imports Poll_Loop List_Messages Html_Content Graph_Upload Auth_Tokens Discovery Matrix_Handlers Conversion Pinned_Messages
    Bot_Commands Account_Data Long_Poll Device_Login People Team_Spaces Backfill
begin

text \<open>
  A model of the mautrix-teams bridge, and what is proved of it.

  \<^bold>\<open>The program.\<close>  The bridge connects a user's Microsoft Teams account with Matrix.  The connector
  (src/pkg/connector) implements the interfaces of the framework bridgev2: it polls Teams for the threads the
  user is in, hands every new message, edit, reaction, receipt and typing notice to bridgev2 as a remote event, and
  turns what the user does in Matrix into requests to Teams.  Below it are the clients of the two services it
  talks to (src/internal/teams/client for the chat service, src/internal/teams/graph for Microsoft Graph), the reading of
  their answers (src/internal/teams/model), the tokens (src/internal/teams/auth), the files of Matrix
  (src/internal/bridge, src/internal/teams/attachments) and the bridge's own tables (src/pkg/teamsdb, src/pkg/teamsid).

  \<^bold>\<open>How the parts interact.\<close>  One loop per login (\<open>pollDueThreads\<close>) sleeps until a thread is due, polls it, and plans
  it anew; wake-ups from the handlers of Matrix and a cheap check for activity bring a poll forward, and a 429 holds
  all of them back.  A poll reads the messages newer than the thread's cursor, queues their events, and saves the
  new cursor only after bridgev2 has handled them.  A handler of Matrix renews the tokens when needed, makes its requests
  through an executor that repeats them, and leaves marks in the client's maps (own messages, signatures of
  reactions and edits, pending receipts) that the next polls consult, so that nothing is bridged twice.

  \<^bold>\<open>Theories and what they model.\<close>
  \<^item> Go_Prelude: the Go values used by all: 64-bit integers with wrap-around, durations and instants, byte strings and
    the functions of \<open>strings\<close> and \<open>strconv\<close>, JSON values; the locales \<open>invariant_system\<close> (invariants of reachable states)
    and \<open>capped_doubling\<close> (delays that double up to a cap).  Go_Errors: error chains with \<open>errors.Is\<close> and
    \<open>errors.As\<close>.  Go_Url: the escapes of \<open>net/url\<close>.
  \<^item> Executor (client/executor.go): attempts, classification, backoff.  Poll_Backoff (poll_backoff.go, poll_limits.go): the
    delays; four of them, and the executor's, are interpretations of \<open>capped_doubling\<close>.
  \<^item> Teams_Message (model/message.go, attachment.go, mention.go and others): the message record and its properties, with
    the order of sequence IDs as the locale \<open>id_order\<close>.  Html_Content (model/message_html.go, gif.go, inline_image.go, reply.go):
    bodies, images and mentions over a parsed document.  Conversations (model/conversation.go).
  \<^item> Thread_Store (teamsdb): threads with cursors, read positions, profiles, the first two keyed tables sharing the locale
    \<open>kv_store\<close>.  Cursor_Commit (cursor_commit.go): positions in memory and pages in flight, as a step relation of polls,
    releases and events that are handled, or dropped unhandled as bridgev2 may.
  \<^item> Caches (client.go, cache_sweep.go): the maps that suppress repeats, the timed ones as instances of \<open>windowed_cache\<close>.
    In_Place (reaction_sync.go, edit_sync.go), Receipts (receipt_sync.go), Reachability (reachability.go), System_Messages,
    Remote_Events (id.go): what a poll does beside new messages.
  \<^item> List_Messages (client/messages.go): pages of messages back to a cursor.  Poll_Thread (\<open>pollThread\<close>) and Poll_Loop
    (\<open>pollDueThreads\<close>, \<open>pollPass\<close>, poll_wake.go): the poll of one thread and the loop over all.
  \<^item> Room_Names, Discovery (thread_discovery.go, chat_state.go): which rooms there are, their names and state.
  \<^item> Auth_Tokens (auth, graph_token.go, resource_tokens.go, sync_loop.go): Skype and Graph tokens and their refresh.
  \<^item> Teams_Requests, Chat_State (client/messages.go, reactions.go, conversations.go, chat_state.go): the requests of the chat
    service.  Graph_Upload, Graph_Directory (graph): uploads, users, teams.
  \<^item> Outbound_Text, Emoji_Reactions, Matrix_Files, Matrix_Handlers (outbound_text.go, reactions.go, send_attachment.go,
    handlematrix.go, and the tags and pins of chat_state.go and pinned_messages.go): from Matrix to Teams.
  \<^item> Call_Records, Adaptive_Cards, Message_Media, Conversion (call_log.go, adaptive_card.go, attachments.go,
    convert_sticker.go, forward.go, convert.go): from Teams to Matrix.
  \<^item> Pinned_Messages (pinned_messages.go), Saved_Messages (saved_messages.go of both packages), Presence (presence.go of the
    connector, of teams/presence and of graph), Account_Data (activity_feed.go, channel_files.go): what is kept in step beside
    messages.  Bot_Commands (status_commands.go, oof_command.go, chat_commands.go, middletier.go): the commands of the bot.
    Go_Text: words, runes, tags and the stable sort they use.
  \<^item> Long_Poll (longpoll.go and \<open>longPollLoop\<close> of sync_loop.go): notifications that bring polls forward.  Device_Login
    (devicecode.go, login_devicecode.go): the login with a code.  People (resolve.go, contacts.go, directory_info.go,
    photo.go), Team_Spaces (team_spaces.go, \<open>GetChatInfo\<close> and \<open>GetUserInfo\<close> of client.go), Backfill (\<open>FetchMessages\<close>):
    what bridgev2 asks the connector for.
\<close>

text \<open>
  \<^bold>\<open>State.\<close>  A record has the fields of the code's struct that the modelled operations touch; a mutex guards whole
  operations, so each is one step.  Go maps are association lists with one entry per key, database tables lists of
  rows.  Effects are returned: events queued, requests made, downloads with the credential they carry.  A Go error is
  the left of a sum, a panic and a loop that does not end are values of their own.

  \<^bold>\<open>Bounds and fuel.\<close>  \<open>list_pages\<close> takes the code's own bound of ten pages as its fuel.  The executor's recursion is
  on the attempts left, that of \<open>history_pages\<close> on the messages wanted.  The loops without a bound in the code are
  \<open>while_option\<close> (the chunks of an upload) and \<open>partial_function (option)\<close> (the pages of the directory, the turns of a login by code), where not to
  return is \<open>None\<close>; \<open>chunked_upload_ends\<close> says when the first returns and when it never does.  Durations and
  counters are integers wrapped to 64 bits where the code can overflow (\<open>failing_thread_delays\<close>).

  \<^bold>\<open>What is shown.\<close>  Polls: no message below ten pages is missed (\<open>catchup_complete\<close>), each is queued once, in order, and is not
  new afterwards (\<open>page_delivers_new_messages\<close>, \<open>page_leaves_nothing_new\<close>), cursors are saved once and not before their
  events (\<open>page_saved_once\<close>, \<open>fifo_cursor_safe\<close>), every thread is polled when due and pauses hold (\<open>due_threads_polled\<close>,
  \<open>pauses_hold\<close>).  Repeats: caches answer as if never swept (but for signatures older than 12 hours), changes and echoes
  are bridged once, read positions only move forward.  Requests: the executor's attempts, sends that carry what they were given, tokens that are fresh and
  stay with Teams, actions that settle.  Content: HTML in a grammar of its own, no message dropped, media bridged or named with their links, texts and
  emoji that come back as they were.  Where the code does not do what its comments promise, a theorem says what it
  does: \<open>skipped_messages_lost\<close>, \<open>eventless_page_saves_at_once\<close>, \<open>failing_thread_delays\<close>, \<open>token_leaves_teams\<close>,
  \<open>meeting_link_takes_over\<close>.

  \<^bold>\<open>Parameters.\<close>  What is not under src/ is an argument: the HTML parser, the entity table, the JSON, XML and time parsers
  as functions from texts to values, \<open>url.Parse\<close> and \<open>URL.String\<close>, \<open>strings.ToLower\<close> outside ASCII, \<open>sort.Slice\<close> (any
  function that returns a sorted permutation), the clock and random numbers, the networks as functions from requests to
  answers, bridgev2's database and media server, the content sniffer, \<open>variationselector.FullyQualify\<close>.  The generated emoji
  tables are parameters too, with the properties used of them as hypotheses.

  \<^bold>\<open>Not modelled.\<close>  Logging and statistics; the wizards of the other login flows, which only talk to a person, and their browser
  scripts; the registration of the bot's commands; the schema upgrades of the database; the start of the process; true concurrency below the granularity of a
  locked operation; contexts and their cancellation other than as an error.  The manifest lists each with its reason.
\<close>

section \<open>A gap in catch-up is a lost message\<close>

text \<open>C11: Messages are lost when catch-up is cut short.  Take a thread whose poll reads its messages with
  \<open>ListMessages\<close>, a first page full of messages newer than the cursor, and a failing request for
  the page before it.  The poll of the thread reports no error and moves the cursor past the page, so a
  message between the old cursor and the page, which was still new before the poll, counts as seen
  after it, although no poll has read it: no later poll delivers it.\<close>

theorem skipped_messages_lost:
  assumes "pe_token_err penv = None" and "cursor_pending (cw_cursors (pw_cursors w)) (ts_thread_id th) = None"
    and "pe_list penv (ts_conversation th) (ts_last_seq th) =
      list_messages denv True token (int psize) srt fetch (ts_conversation th) (ts_last_seq th)"
    and "\<not> is_non_pollable_system_stream (ts_thread_id th)" "\<not> is_non_pollable_system_stream (ts_conversation th)"
    and "fetch 0 [] = Inr payload" and "payload \<noteq> []" and "trim_space (ts_last_seq th) \<noteq> []"
    and "scan_page denv (trim_space (ts_last_seq th)) payload
      \<lparr>ps_result = [], ps_seen = [], ps_reached = False, ps_oldest = [], ps_batch = 0\<rparr> = Inr p"
    and "\<not> ps_reached p" and "psize \<le> ps_batch p" and "ps_oldest p \<noteq> []" and "fetch 1 (ps_oldest p) = Inl e"
    and "token \<noteq> []" and "ts_conversation th \<noteq> []" and "0 < psize" and "sorts_messages srt"
    and "\<forall>m \<in> set (ps_result p). numeric_id (trim_space (sequence_id m))"
    and "m \<in> set (ps_result p)" and "is_new_message (trim_space (ts_last_seq th)) m"
    and "is_new_message (trim_space (ts_last_seq th)) x" and "numeric_id (trim_space (sequence_id x))"
    and "compare_sequence_id (trim_space (sequence_id x)) (trim_space (sequence_id m)) < 0"
    and "message_id x \<notin> message_id ` set (ps_result p)"
  shows "\<exists>n th' w'. poll_thread penv now clock th w = (Inr n, th', w') \<and>
    \<not> is_new_message (trim_space (ts_last_seq th')) x"
proof -
  have "list_messages denv True token (int psize) srt fetch (ts_conversation th) (ts_last_seq th) = Inr (srt (ps_result p))"
    by (rule partial_catchup_is_silent [OF assms(6-16)])
  then have "\<exists>w1. fetch_thread_page penv th w = (Inr (srt (ps_result p)), th, w1)"
    using assms(1-3) by (simp add: fetch_thread_page_def Let_def)
  then obtain w1 where f: "fetch_thread_page penv th w = (Inr (srt (ps_result p)), th, w1)" by blast
  have set: "set (srt (ps_result p)) = set (ps_result p)" by (rule sorts_messages_set [OF assms(17)])
  have "\<exists>n th' w'. poll_thread penv now clock th w = (Inr n, th', w') \<and> already_seen (trim_space (ts_last_seq th')) x"
    by (rule poll_moves_past [OF f assms(4,5)]) (use assms(18-23) set in auto)
  then show ?thesis by (auto simp: is_new_message_def)
qed

definition gap_poll_env :: poll_env where
  "gap_poll_env = example_poll_env\<lparr>pe_list := list_messages example_decode True ''tok'' 1 by_number failing_fetch\<rparr>"

definition gap_message :: remote_message where
  "gap_message = blank_message\<lparr>message_id := ''6'', sequence_id := ''6'', message_type := ''Text''\<rparr>"

theorem skipped_messages_lost_witness:
  "is_new_message ''5'' gap_message \<and>
   (\<exists>n th' w'. poll_thread gap_poll_env 1 1 example_thread example_poll_world = (Inr n, th', w') \<and>
      \<not> is_new_message (trim_space (ts_last_seq th')) gap_message)"
proof -
  obtain m where scan: "scan_page example_decode (trim_space ''5'') [example_raw ''7'']
      \<lparr>ps_result = [], ps_seen = [], ps_reached = False, ps_oldest = [], ps_batch = 0\<rparr> =
      Inr \<lparr>ps_result = [m], ps_seen = [''7''], ps_reached = False, ps_oldest = older_of [] m, ps_batch = Suc 0\<rparr>"
    and m: "message_id m = ''7''" "message_type m = ''Text''" "sequence_id m = ''7''" "older_of [] m \<noteq> []"
    using example_scan by blast
  let ?p = "\<lparr>ps_result = [m], ps_seen = [''7''], ps_reached = False, ps_oldest = older_of [] m, ps_batch = Suc 0\<rparr>"
  have trims: "trim_space ''5'' = ''5''" "trim_space ''6'' = ''6''" "trim_space ''7'' = ''7''" "trim_space ''Text'' = ''Text''"
    by (simp_all add: trim_space_plain plain_ends_def)
  have nums: "numeric_id ''5''" "numeric_id ''6''" "numeric_id ''7''"
    "compare_sequence_id ''6'' ''5'' = 1" "compare_sequence_id ''7'' ''5'' = 1" "compare_sequence_id ''6'' ''7'' = - 1"
    by (simp_all add: numeric_id_def compare_sequence_id_def parse_uint64_def Let_def)
  have folds: "\<not> equal_fold ''Text'' ''Control/Typing''" "\<not> equal_fold ''Text'' ''Control/ClearTyping''" "\<not> equal_fold ''Text'' ''Control/LiveState''"
    by (simp_all add: fold_eval)
  have new: "is_new_message ''5'' gap_message" "is_new_message ''5'' m"
    by (simp_all add: is_new_message_def is_typing_control_def already_seen_def gap_message_def blank_message_def m trims nums folds)
  have th: "ts_last_seq example_thread = ''5''" "ts_conversation example_thread = ''19:a@thread.v2''"
    by (simp_all add: example_thread_def)
  have "\<exists>n th' w'. poll_thread gap_poll_env 1 1 example_thread example_poll_world = (Inr n, th', w') \<and>
      \<not> is_new_message (trim_space (ts_last_seq th')) gap_message"
    by (rule skipped_messages_lost [where denv = example_decode and token = "''tok''" and psize = 1 and srt = by_number and
          fetch = failing_fetch and payload = "[example_raw ''7'']" and p = ?p and m = m and e = DeadlineExceeded,
        OF _ _ _ example_thread_streams])
      (use scan m new nums trims by_number_sorts in \<open>simp_all add: th gap_poll_env_def example_poll_env_def example_poll_world_def
        cursor_start_def no_cursors_def cursor_pending_def failing_fetch_def gap_message_def blank_message_def\<close>)
  then show ?thesis using new by blast
qed

end
